(* ===== verification/Prelude.thy ===== *)
theory Prelude
  imports Main "HOL-Library.Word" "HOL-Library.AList" "HOL-Library.Code_Target_Nat"
begin

text \<open>
  Shared vocabulary of the development: Rust's unsigned integers as words with the checked,
  saturating and wrapping operations the daemon uses, its range-check idiom, the hash map as an
  association list with distinct keys, and the two interfaces (a keyed store, an identifier
  allocator) whose laws the components rely on.

  Integers: \<open>u64\<close> and its narrower siblings are words, so \<open>+\<close> wraps, as release-mode
  Rust does. Where the source writes \<^verbatim>\<open>checked_add\<close> or \<^verbatim>\<open>saturating_sub\<close> the
  model uses the operation of that name below.

  Hash maps: \<^verbatim>\<open>HashMap<K, V>\<close> is an association list with distinct keys. The order of
  the list stands for the table's unspecified iteration order: every theorem is stated for an
  arbitrary list, so none depends on it.
\<close>

section \<open>Collections of simplification rules\<close>

named_theorems hm_laws \<open>lookup laws of the hash-map operations\<close>
named_theorems store_laws \<open>lookup laws of the ordered-map operations\<close>
named_theorems rust_int \<open>characterisations of Rust integer operations on naturals\<close>

section \<open>Machine integers\<close>

type_synonym u8 = "8 word"
type_synonym u16 = "16 word"
type_synonym u32 = "32 word"
type_synonym u64 = "64 word"

text \<open>\<^verbatim>\<open>u64::MAX\<close>.\<close>

definition u64_max :: u64 where
  "u64_max = 0xFFFFFFFFFFFFFFFF"

definition checked_add :: "u64 \<Rightarrow> u64 \<Rightarrow> u64 option" where
  "checked_add a b = (if unat a + unat b < 2 ^ 64 then Some (a + b) else None)"

definition checked_mul :: "u64 \<Rightarrow> u64 \<Rightarrow> u64 option" where
  "checked_mul a b = (if unat a * unat b < 2 ^ 64 then Some (a * b) else None)"

definition saturating_add :: "u64 \<Rightarrow> u64 \<Rightarrow> u64" where
  "saturating_add a b = (if unat a + unat b < 2 ^ 64 then a + b else u64_max)"

definition saturating_sub :: "u64 \<Rightarrow> u64 \<Rightarrow> u64" where
  "saturating_sub a b = (if b \<le> a then a - b else 0)"

text \<open>
  The range test that guards every byte range of the daemon:
  \<^verbatim>\<open>offset.checked_add(n).unwrap_or(u64::MAX) > limit\<close>.
\<close>

definition range_exceeds :: "u64 \<Rightarrow> u64 \<Rightarrow> u64 \<Rightarrow> bool" where
  "range_exceeds off n lim \<longleftrightarrow>
     (case checked_add off n of Some e \<Rightarrow> e | None \<Rightarrow> u64_max) > lim"

text \<open>Evaluation of 64-bit arithmetic: the modulus as a numeral, and no division when nothing wraps.\<close>

lemma take_bit_64_code [code]:
  "take_bit n (k :: int) =
     (if n = 64 then if 0 \<le> k \<and> k < 0x10000000000000000 then k else k mod 0x10000000000000000 else k mod 2 ^ n)"
  by (auto simp: take_bit_eq_mod)

lemma power_64_code [code_unfold]: "(2 :: nat) ^ 64 = 0x10000000000000000"
  by simp

lemma unat_u64_max [rust_int]: "unat u64_max = 2 ^ 64 - 1"
  by (simp add: u64_max_def)

lemma unat_less_u64: "unat (x :: u64) < 2 ^ 64"
  using unsigned_less [of x, where 'a = nat] by simp

lemma unat_le_u64: "unat (x :: u64) \<le> 2 ^ 64 - 1"
  using unat_less_u64 [of x] by linarith

lemma unat_neq_max: "x \<noteq> u64_max \<Longrightarrow> unat x < 2 ^ 64 - 1"
proof -
  assume "x \<noteq> u64_max"
  then have "unat x \<noteq> 2 ^ 64 - 1" by (metis unat_u64_max word_unat_eq_iff)
  with unat_le_u64 [of x] show ?thesis by linarith
qed

lemma le_u64_max [simp]: "x \<le> u64_max"
  unfolding word_le_nat_alt unat_u64_max by (rule unat_le_u64)

lemma unat_add_u64 [rust_int]:
  "unat a + unat b < 2 ^ 64 \<Longrightarrow> unat (a + b :: u64) = unat a + unat b"
  by (simp add: unat_word_ariths)

lemma unat_mult_u64 [rust_int]:
  "unat a * unat b < 2 ^ 64 \<Longrightarrow> unat (a * b :: u64) = unat a * unat b"
  by (simp add: unat_word_ariths)

lemma unat_sub_u64 [rust_int]: "b \<le> a \<Longrightarrow> unat (a - b :: u64) = unat a - unat b"
  by (simp add: unat_sub)

lemma unat_inc_u64 [rust_int]: "n \<noteq> u64_max \<Longrightarrow> unat (n + 1 :: u64) = Suc (unat n)"
  by (drule unat_neq_max) (simp add: unat_word_ariths)

lemma unat_sum_list_u64:
  "sum_list (map (\<lambda>x. unat (f x :: u64)) xs) < 2 ^ 64 \<Longrightarrow>
     unat (sum_list (map f xs)) = sum_list (map (\<lambda>x. unat (f x)) xs)"
  by (induction xs) (simp_all add: unat_word_ariths)

lemma checked_add_Some_iff:
  "checked_add a b = Some c \<longleftrightarrow> unat a + unat b < 2 ^ 64 \<and> unat c = unat a + unat b"
proof
  assume "checked_add a b = Some c"
  then show "unat a + unat b < 2 ^ 64 \<and> unat c = unat a + unat b"
    by (auto simp: checked_add_def rust_int split: if_splits)
next
  assume asm: "unat a + unat b < 2 ^ 64 \<and> unat c = unat a + unat b"
  then have "unat c = unat (a + b)" by (simp add: unat_word_ariths)
  then have "c = a + b" by (rule word_unat_eq_iff [THEN iffD2])
  with asm show "checked_add a b = Some c" by (simp add: checked_add_def)
qed

lemma unat_saturating_sub [rust_int]: "unat (saturating_sub a b) = unat a - unat b"
  by (auto simp: saturating_sub_def unat_sub word_le_nat_alt)

lemma unat_saturating_add [rust_int]:
  "unat (saturating_add a b) = min (unat a + unat b) (2 ^ 64 - 1)"
  by (auto simp: saturating_add_def unat_u64_max unat_word_ariths)

text \<open>
  The idiom is exact for every limit but \<^verbatim>\<open>u64::MAX\<close>: there an overflowing sum is read
  as the limit itself and accepted.
\<close>

lemma range_exceeds_iff:
  assumes "lim \<noteq> u64_max"
  shows "range_exceeds off n lim \<longleftrightarrow> unat lim < unat off + unat n"
proof (cases "unat off + unat n < 2 ^ 64")
  case True
  then show ?thesis
    by (simp add: range_exceeds_def checked_add_def word_less_nat_alt unat_word_ariths)
next
  case False
  with unat_neq_max [OF assms] show ?thesis
    by (simp add: range_exceeds_def checked_add_def word_less_nat_alt unat_u64_max)
qed

lemma range_exceeds_max [simp]: "\<not> range_exceeds off n u64_max"
  by (simp add: range_exceeds_def not_less split: option.split)

lemma range_ok_bound:
  assumes "\<not> range_exceeds off n lim" and "lim \<noteq> u64_max"
  shows "unat off + unat n \<le> unat lim"
  using assms by (simp add: range_exceeds_iff)

section \<open>Results\<close>

text \<open>The question-mark operator: continue with the value, or return the error.\<close>

definition rbind :: "'e + 'a \<Rightarrow> ('a \<Rightarrow> 'e + 'b) \<Rightarrow> 'e + 'b" where
  "rbind r f = (case r of Inl e \<Rightarrow> Inl e | Inr x \<Rightarrow> f x)"

lemma rbind_simps [simp]: "rbind (Inl e) f = Inl e" "rbind (Inr x) f = f x"
  by (simp_all add: rbind_def)

lemma rbind_Inr_iff: "rbind r f = Inr y \<longleftrightarrow> (\<exists>x. r = Inr x \<and> f x = Inr y)"
  by (cases r) simp_all

text \<open>Reading a boolean case distinction as the existence of the one case that holds.\<close>

lemma holds_case_sum: "(case r of Inl e \<Rightarrow> False | Inr x \<Rightarrow> P x) \<longleftrightarrow> (\<exists>x. r = Inr x \<and> P x)"
  by (cases r) simp_all

lemma holds_case_option: "(case r of None \<Rightarrow> False | Some x \<Rightarrow> P x) \<longleftrightarrow> (\<exists>x. r = Some x \<and> P x)"
  by (cases r) simp_all

lemmas holds_cases = holds_case_sum holds_case_option

section \<open>Hash maps\<close>

type_synonym ('k, 'v) hashmap = "('k \<times> 'v) list"

definition hm_get :: "('k, 'v) hashmap \<Rightarrow> 'k \<Rightarrow> 'v option" where
  "hm_get m k = map_of m k"

definition hm_insert :: "'k \<Rightarrow> 'v \<Rightarrow> ('k, 'v) hashmap \<Rightarrow> ('k, 'v) hashmap" where
  "hm_insert k v m = AList.update k v m"

definition hm_remove :: "'k \<Rightarrow> ('k, 'v) hashmap \<Rightarrow> ('k, 'v) hashmap" where
  "hm_remove k m = AList.delete k m"

definition hm_values :: "('k, 'v) hashmap \<Rightarrow> 'v list" where
  "hm_values m = map snd m"

definition hm_contains :: "('k, 'v) hashmap \<Rightarrow> 'k \<Rightarrow> bool" where
  "hm_contains m k \<longleftrightarrow> hm_get m k \<noteq> None"

text \<open>\<^verbatim>\<open>if let Some(v) = m.get_mut(&k) { *v = f(v) }\<close>.\<close>

definition hm_modify :: "'k \<Rightarrow> ('v \<Rightarrow> 'v) \<Rightarrow> ('k, 'v) hashmap \<Rightarrow> ('k, 'v) hashmap" where
  "hm_modify k f m = map (\<lambda>(k', v). (k', if k' = k then f v else v)) m"

text \<open>\<^verbatim>\<open>for v in m.values_mut().filter(p) { *v = f(v) }\<close>.\<close>

definition hm_update_where ::
  "('v \<Rightarrow> bool) \<Rightarrow> ('v \<Rightarrow> 'v) \<Rightarrow> ('k, 'v) hashmap \<Rightarrow> ('k, 'v) hashmap" where
  "hm_update_where p f m = map (\<lambda>(k, v). (k, if p v then f v else v)) m"

definition hm_wf :: "('k, 'v) hashmap \<Rightarrow> bool" where
  "hm_wf m \<longleftrightarrow> distinct (map fst m)"

lemma hm_get_Nil [hm_laws, simp]: "hm_get [] k = None"
  by (simp add: hm_get_def)

lemma hm_get_insert [hm_laws]:
  "hm_get (hm_insert k v m) k' = (if k' = k then Some v else hm_get m k')"
  by (simp add: hm_get_def hm_insert_def update_conv')

lemma hm_get_remove [hm_laws]:
  "hm_get (hm_remove k m) k' = (if k' = k then None else hm_get m k')"
  by (simp add: hm_get_def hm_remove_def delete_conv')

lemma hm_get_modify [hm_laws]:
  "hm_get (hm_modify k f m) k' = (if k' = k then map_option f (hm_get m k') else hm_get m k')"
  unfolding hm_get_def hm_modify_def by (induction m) auto

lemma hm_get_update_where [hm_laws]:
  "hm_get (hm_update_where p f m) k = map_option (\<lambda>v. if p v then f v else v) (hm_get m k)"
  unfolding hm_get_def hm_update_where_def by (induction m) auto

lemma hm_wf_Nil [simp]: "hm_wf []"
  by (simp add: hm_wf_def)

lemma hm_wf_insert [simp, intro]: "hm_wf m \<Longrightarrow> hm_wf (hm_insert k v m)"
  by (simp add: hm_wf_def hm_insert_def distinct_update)

lemma hm_wf_remove [simp, intro]: "hm_wf m \<Longrightarrow> hm_wf (hm_remove k m)"
  by (simp add: hm_wf_def hm_remove_def distinct_delete)

lemma hm_wf_modify [simp]: "hm_wf (hm_modify k f m) = hm_wf m"
  by (simp add: hm_wf_def hm_modify_def case_prod_beta comp_def)

lemma hm_wf_update_where [simp]: "hm_wf (hm_update_where p f m) = hm_wf m"
  by (simp add: hm_wf_def hm_update_where_def case_prod_beta comp_def)

lemma hm_get_in_values: "hm_get m k = Some v \<Longrightarrow> v \<in> set (hm_values m)"
  unfolding hm_get_def hm_values_def by (force dest: map_of_SomeD)

lemma hm_values_get: "hm_wf m \<Longrightarrow> v \<in> set (hm_values m) \<Longrightarrow> \<exists>k. hm_get m k = Some v"
  unfolding hm_wf_def hm_get_def hm_values_def by force

text \<open>\<^verbatim>\<open>values().find(p)\<close> returns a value of the map that satisfies the predicate.\<close>

lemma find_SomeD: "List.find p xs = Some x \<Longrightarrow> x \<in> set xs \<and> p x"
  by (auto simp: find_Some_iff)

lemma find_NoneD: "List.find p xs = None \<Longrightarrow> x \<in> set xs \<Longrightarrow> \<not> p x"
  by (auto simp: find_None_iff)

text \<open>All keys lie below a bound, as the keys handed out by a counter do.\<close>

definition keys_below :: "u64 \<Rightarrow> (u64, 'v) hashmap \<Rightarrow> bool" where
  "keys_below n m \<longleftrightarrow> (\<forall>k. hm_get m k \<noteq> None \<longrightarrow> k < n)"

lemma keys_below_Nil [simp]: "keys_below n []"
  by (simp add: keys_below_def)

lemma keys_belowD: "keys_below n m \<Longrightarrow> hm_get m k = Some v \<Longrightarrow> k < n"
  by (simp add: keys_below_def)

lemma keys_below_fresh: "keys_below n m \<Longrightarrow> hm_get m n = None"
  by (auto simp: keys_below_def)

lemma keys_below_mono: "keys_below n m \<Longrightarrow> n \<le> n' \<Longrightarrow> keys_below n' m"
  unfolding keys_below_def using order.strict_trans2 by blast

lemma keys_below_insert: "keys_below n m \<Longrightarrow> n < n + 1 \<Longrightarrow> keys_below (n + 1) (hm_insert n v m)"
  unfolding keys_below_def by (auto simp: hm_get_insert)

lemma keys_below_replace: "keys_below n m \<Longrightarrow> k < n \<Longrightarrow> keys_below n (hm_insert k v m)"
  by (auto simp: keys_below_def hm_get_insert)

lemma keys_below_remove: "keys_below n m \<Longrightarrow> keys_below n (hm_remove k m)"
  by (auto simp: keys_below_def hm_get_remove)

lemma keys_below_modify [simp]: "keys_below n (hm_modify k f m) = keys_below n m"
  by (auto simp: keys_below_def hm_get_modify)

lemma keys_below_update_where [simp]: "keys_below n (hm_update_where p f m) = keys_below n m"
  by (auto simp: keys_below_def hm_get_update_where)

section \<open>Interfaces\<close>

text \<open>
  A keyed store: what its clients may rely on after an insertion or a removal. The hash map here
  and the ordered map of the wire format both provide it.
\<close>

locale keyed_store =
  fixes get :: "'m \<Rightarrow> 'k \<Rightarrow> 'v option"
    and put :: "'k \<Rightarrow> 'v \<Rightarrow> 'm \<Rightarrow> 'm"
    and del :: "'k \<Rightarrow> 'm \<Rightarrow> 'm"
    and emp :: 'm
    and wf :: "'m \<Rightarrow> bool"
  assumes wf_emp: "wf emp"
    and wf_put: "wf m \<Longrightarrow> wf (put k v m)"
    and wf_del: "wf m \<Longrightarrow> wf (del k m)"
    and get_emp: "get emp k = None"
    and get_put: "wf m \<Longrightarrow> get (put k v m) k' = (if k' = k then Some v else get m k')"
    and get_del: "wf m \<Longrightarrow> get (del k m) k' = (if k' = k then None else get m k')"
begin

lemma get_put_same: "wf m \<Longrightarrow> get (put k v m) k = Some v"
  by (simp add: get_put)

lemma put_fresh_frame: "wf m \<Longrightarrow> get m k = None \<Longrightarrow> get m k' = Some w \<Longrightarrow> get (put k v m) k' = Some w"
  by (auto simp: get_put)

lemma put_all_wf: "wf m \<Longrightarrow> wf (fold (\<lambda>(k, v). put k v) kvs m)"
  by (induction kvs arbitrary: m) (auto simp: wf_put)

text \<open>Inserting a list of entries in order: the last entry for a key wins.\<close>

lemma get_put_all:
  "wf m \<Longrightarrow> get (fold (\<lambda>(k, v). put k v) kvs m) k =
     (case map_of (rev kvs) k of Some v \<Rightarrow> Some v | None \<Rightarrow> get m k)"
proof (induction kvs rule: rev_induct)
  case Nil
  then show ?case by simp
next
  case (snoc x kvs)
  then show ?case by (cases x) (auto simp: get_put put_all_wf)
qed

end

interpretation hm: keyed_store hm_get hm_insert hm_remove "[]" hm_wf
  by unfold_locales (simp_all add: hm_get_insert hm_get_remove)

text \<open>
  An identifier allocator: a counter in some state and the operation that hands the counter's
  value out and advances it. As long as the counter has not reached the largest identifier, what
  it hands out is above everything handed out before, so a map whose keys lie below the counter
  has no entry for it.
\<close>

locale id_allocator =
  fixes counter :: "'s \<Rightarrow> u64" and take_next :: "'s \<Rightarrow> u64 \<times> 's"
  assumes take_id: "fst (take_next s) = counter s"
    and take_counter: "counter (snd (take_next s)) = counter s + 1"
begin

lemma take_fresh: "keys_below (counter s) m \<Longrightarrow> hm_get m (fst (take_next s)) = None"
  by (simp add: take_id keys_below_fresh)

lemma take_grows: "counter s \<noteq> u64_max \<Longrightarrow> counter s < counter (snd (take_next s))"
  by (simp add: take_counter word_less_nat_alt unat_inc_u64)

lemma take_keeps_below:
  "keys_below (counter s) m \<Longrightarrow> counter s \<noteq> u64_max \<Longrightarrow>
     keys_below (counter (snd (take_next s))) m"
  using take_grows [of s] by (auto intro: keys_below_mono)

lemma take_insert_below:
  assumes "keys_below (counter s) m" and "counter s \<noteq> u64_max"
  shows "keys_below (counter (snd (take_next s))) (hm_insert (fst (take_next s)) v m)"
  using assms take_grows [OF assms(2)] by (simp add: take_id take_counter keys_below_insert)

end

end
