(* ===== verification/RustStd.thy ===== *)
theory RustStd
  imports Complex_Main Prelude "HOL-Library.Char_ord" "HOL-Library.List_Lexorder" "HOL-Library.Sublist"
begin

text \<open>
  The parts of Rust's standard library the daemon's request handling rests on: byte strings with
  splitting, trimming, prefix and substring tests, decimal printing and parsing of integers, and
  the ordered map \<^verbatim>\<open>BTreeMap\<close>.

  A Rust \<^verbatim>\<open>String\<close> is its UTF-8 byte sequence, a \<^typ>\<open>string\<close> (a \<^typ>\<open>char\<close> is a
  byte). Byte-wise lexicographic order is Rust's order on strings. A \<^verbatim>\<open>BTreeMap\<close> is its
  in-order association list, with strictly increasing keys.
\<close>

section \<open>Ordered maps\<close>

type_synonym ('k, 'v) btreemap = "('k \<times> 'v) list"

definition bt_get :: "('k, 'v) btreemap \<Rightarrow> 'k \<Rightarrow> 'v option" where
  "bt_get m k = map_of m k"

fun bt_insert :: "'k::linorder \<Rightarrow> 'v \<Rightarrow> ('k, 'v) btreemap \<Rightarrow> ('k, 'v) btreemap" where
  "bt_insert k v [] = [(k, v)]"
| "bt_insert k v ((k', v') # m) =
     (if k < k' then (k, v) # (k', v') # m
      else if k = k' then (k, v) # m
      else (k', v') # bt_insert k v m)"

definition bt_remove :: "'k \<Rightarrow> ('k, 'v) btreemap \<Rightarrow> ('k, 'v) btreemap" where
  "bt_remove k m = filter (\<lambda>(k', _). k' \<noteq> k) m"

definition bt_wf :: "('k::linorder, 'v) btreemap \<Rightarrow> bool" where
  "bt_wf m \<longleftrightarrow> sorted_wrt (<) (map fst m)"

lemma keys_bt_insert: "fst ` set (bt_insert k v m) = insert k (fst ` set m)"
  by (induction k v m rule: bt_insert.induct) auto

lemma bt_wf_insert [simp, intro]: "bt_wf m \<Longrightarrow> bt_wf (bt_insert k v m)"
proof (induction k v m rule: bt_insert.induct)
  case (2 k v k' v' m)
  have keys: "fst x \<in> insert k (fst ` set m)" if "x \<in> set (bt_insert k v m)" for x
    using that keys_bt_insert [of k v m] by blast
  show ?case
    using 2 keys by (fastforce simp: bt_wf_def)
qed (simp add: bt_wf_def)

lemma bt_get_insert [store_laws]:
  "bt_wf m \<Longrightarrow> bt_get (bt_insert k v m) k' = (if k' = k then Some v else bt_get m k')"
proof (induction k v m rule: bt_insert.induct)
  case (2 k v k0 v0 m)
  have fresh: "map_of m k0 = None"
    using 2(2) by (force simp: bt_wf_def map_of_eq_None_iff)
  show ?case
    using 2 fresh by (auto simp: bt_get_def bt_wf_def)
qed (simp add: bt_get_def)

lemma bt_wf_remove [simp, intro]: "bt_wf m \<Longrightarrow> bt_wf (bt_remove k m)"
  unfolding bt_wf_def bt_remove_def by (simp add: sorted_wrt_filter sorted_wrt_map)

lemma bt_get_remove [store_laws]:
  "bt_get (bt_remove k m) k' = (if k' = k then None else bt_get m k')"
  unfolding bt_get_def bt_remove_def by (induction m) auto

interpretation bt: keyed_store bt_get bt_insert bt_remove "[]" bt_wf
  by unfold_locales (simp_all add: bt_get_insert bt_get_remove bt_wf_def [of "[]"] bt_get_def [of "[]"])

text \<open>Inserting a key above every present key appends it.\<close>

lemma bt_insert_snoc:
  "\<forall>x \<in> set m. fst x < k \<Longrightarrow> bt_insert k v m = m @ [(k, v)]"
  by (induction m) auto

text \<open>Rebuilding an ordered map by inserting its entries in order gives the map back.\<close>

lemma fold_bt_insert_id:
  "bt_wf (m @ kvs) \<Longrightarrow> fold (\<lambda>(k, v). bt_insert k v) kvs m = m @ kvs"
proof (induction kvs arbitrary: m)
  case (Cons kv kvs)
  obtain k v where kv: "kv = (k, v)" by fastforce
  have "\<forall>x \<in> set m. fst x < k"
    using Cons.prems kv by (auto simp: bt_wf_def sorted_wrt_append)
  then have "bt_insert k v m = m @ [(k, v)]" by (rule bt_insert_snoc)
  moreover have "bt_wf ((m @ [(k, v)]) @ kvs)"
    using Cons.prems kv by simp
  ultimately show ?case
    using Cons.IH [of "m @ [(k, v)]"] kv by simp
qed simp

text \<open>A value of the map replaced in place (\<^verbatim>\<open>get_mut\<close>).\<close>

definition bt_modify :: "'k \<Rightarrow> ('v \<Rightarrow> 'v) \<Rightarrow> ('k, 'v) btreemap \<Rightarrow> ('k, 'v) btreemap" where
  "bt_modify k f m = map (\<lambda>(k', v). (k', if k' = k then f v else v)) m"

lemma bt_get_modify [store_laws]:
  "bt_get (bt_modify k f m) k' = (if k' = k then map_option f (bt_get m k') else bt_get m k')"
  unfolding bt_get_def bt_modify_def by (induction m) auto

lemma keys_bt_modify [simp]: "map fst (bt_modify k f m) = map fst m"
  by (simp add: bt_modify_def case_prod_beta comp_def)

lemma bt_wf_modify [simp]: "bt_wf (bt_modify k f m) = bt_wf m"
  by (simp add: bt_wf_def)

lemma bt_get_values: "bt_get m k = Some v \<Longrightarrow> v \<in> set (map snd m)"
  unfolding bt_get_def by (force dest: map_of_SomeD)

lemma bt_get_mem: "bt_wf m \<Longrightarrow> (k, v) \<in> set m \<Longrightarrow> bt_get m k = Some v"
  unfolding bt_wf_def bt_get_def by (intro map_of_is_SomeI) (simp_all add: strict_sorted_iff)

lemma bt_values_iff: "bt_wf m \<Longrightarrow> v \<in> set (map snd m) \<longleftrightarrow> (\<exists>k. bt_get m k = Some v)"
  using bt_get_mem bt_get_values by fastforce

lemma bt_list_ex: "bt_wf m \<Longrightarrow> list_ex P (map snd m) \<longleftrightarrow> (\<exists>k v. bt_get m k = Some v \<and> P v)"
  by (simp only: list_ex_iff Bex_def bt_values_iff) blast

text \<open>Sums over the values: a fresh entry adds its summand, a replaced one changes its own.\<close>

lemma sum_bt_insert:
  "bt_get m k = None \<Longrightarrow>
     sum_list (map f (map snd (bt_insert k v m))) = (f v :: nat) + sum_list (map f (map snd m))"
  by (induction k v m rule: bt_insert.induct) (auto simp: bt_get_def)

lemma sum_bt_modify_le:
  assumes "\<And>v. (k, v) \<in> set m \<Longrightarrow> (f (g v) :: nat) \<le> f v"
  shows "sum_list (map f (map snd (bt_modify k g m))) \<le> sum_list (map f (map snd m))"
  using assms unfolding bt_modify_def by (induction m) (auto intro!: add_mono)

text \<open>An ordered map is determined by its lookups.\<close>

lemma bt_ext:
  assumes "bt_wf m" and "bt_wf m'" and "\<And>k. bt_get m k = bt_get m' k"
  shows "m = m'"
proof (rule map_sorted_distinct_set_unique [where f = fst])
  show "sorted (map fst m)" "sorted (map fst m')" "distinct (map fst m)" "distinct (map fst m')"
    using assms(1,2) by (simp_all add: bt_wf_def strict_sorted_iff)
  have sub: "set m1 \<subseteq> set m2" if "bt_wf m1" "\<And>k. bt_get m1 k = bt_get m2 k" for m1 m2 :: "('a, 'b) btreemap"
    using bt_get_mem [OF that(1)] that(2) unfolding bt_get_def by (force dest: map_of_SomeD)
  show "set m = set m'" using sub [OF assms(1)] sub [OF assms(2)] assms(3) by (metis subset_antisym)
  show "inj_on fst (set m \<union> set m')"
    using \<open>distinct (map fst m)\<close> \<open>set m = set m'\<close> by (simp add: distinct_map)
qed

section \<open>Strings\<close>

abbreviation newline :: char where "newline \<equiv> CHR 0x0A"

text \<open>\<^verbatim>\<open>str::strip_prefix\<close>, \<^verbatim>\<open>str::starts_with\<close>, \<^verbatim>\<open>str::contains\<close>.\<close>

definition strip_prefix :: "string \<Rightarrow> string \<Rightarrow> string option" where
  "strip_prefix p s = (if prefix p s then Some (drop (length p) s) else None)"

definition starts_with :: "string \<Rightarrow> string \<Rightarrow> bool" where
  "starts_with p s \<longleftrightarrow> prefix p s"

fun str_contains :: "string \<Rightarrow> string \<Rightarrow> bool" where
  "str_contains p [] = (p = [])"
| "str_contains p (c # s) = (prefix p (c # s) \<or> str_contains p s)"

text \<open>\<^verbatim>\<open>str::replace\<close> of one character by another.\<close>

definition replace_char :: "char \<Rightarrow> char \<Rightarrow> string \<Rightarrow> string" where
  "replace_char a b s = map (\<lambda>c. if c = a then b else c) s"

text \<open>\<^verbatim>\<open>str::split\<close> and \<^verbatim>\<open>str::split_once\<close> on a one-byte separator.\<close>

fun split_on :: "char \<Rightarrow> string \<Rightarrow> string list" where
  "split_on d [] = [[]]"
| "split_on d (c # s) =
     (if c = d then [] # split_on d s
      else (case split_on d s of [] \<Rightarrow> [[c]] | w # ws \<Rightarrow> (c # w) # ws))"

fun split_once :: "char \<Rightarrow> string \<Rightarrow> (string \<times> string) option" where
  "split_once d [] = None"
| "split_once d (c # s) =
     (if c = d then Some ([], s) else map_option (\<lambda>(a, b). (c # a, b)) (split_once d s))"

text \<open>\<^verbatim>\<open>[String]::join\<close>.\<close>

fun join :: "string \<Rightarrow> string list \<Rightarrow> string" where
  "join sep [] = []"
| "join sep [w] = w"
| "join sep (w # ws) = w @ sep @ join sep ws"

text \<open>
  \<^verbatim>\<open>str::trim_end\<close> drops trailing characters with Unicode's White\_Space property. On the
  byte representation these are the following encodings, listed last byte first because the
  function works on the reversed string. UTF-8 is self-synchronising, so a byte suffix that
  matches an encoding is the last character.
\<close>

definition white_space_rev :: "string list" where
  "white_space_rev =
     [[CHR 0x09], [CHR 0x0A], [CHR 0x0B], [CHR 0x0C], [CHR 0x0D], [CHR 0x20],
      [CHR 0x85, CHR 0xC2], [CHR 0xA0, CHR 0xC2],
      [CHR 0x80, CHR 0x9A, CHR 0xE1],
      [CHR 0x80, CHR 0x80, CHR 0xE2], [CHR 0x81, CHR 0x80, CHR 0xE2],
      [CHR 0x82, CHR 0x80, CHR 0xE2], [CHR 0x83, CHR 0x80, CHR 0xE2],
      [CHR 0x84, CHR 0x80, CHR 0xE2], [CHR 0x85, CHR 0x80, CHR 0xE2],
      [CHR 0x86, CHR 0x80, CHR 0xE2], [CHR 0x87, CHR 0x80, CHR 0xE2],
      [CHR 0x88, CHR 0x80, CHR 0xE2], [CHR 0x89, CHR 0x80, CHR 0xE2],
      [CHR 0x8A, CHR 0x80, CHR 0xE2],
      [CHR 0xA8, CHR 0x80, CHR 0xE2], [CHR 0xA9, CHR 0x80, CHR 0xE2],
      [CHR 0xAF, CHR 0x80, CHR 0xE2], [CHR 0x9F, CHR 0x81, CHR 0xE2],
      [CHR 0x80, CHR 0x80, CHR 0xE3]]"

definition leading_space :: "string \<Rightarrow> string option" where
  "leading_space r = List.find (\<lambda>w. prefix w r) white_space_rev"

lemma leading_space_shrinks: "leading_space r = Some w \<Longrightarrow> length r - length w < length r"
  unfolding leading_space_def
  by (drule find_SomeD) (auto simp: white_space_rev_def dest: prefix_length_le)

function strip_space_rev :: "string \<Rightarrow> string" where
  "strip_space_rev r =
     (case leading_space r of None \<Rightarrow> r | Some w \<Rightarrow> strip_space_rev (drop (length w) r))"
  by pat_completeness auto
termination
  by (relation "measure length") (auto simp: leading_space_shrinks)

declare strip_space_rev.simps [simp del]

definition trim_end :: "string \<Rightarrow> string" where
  "trim_end s = rev (strip_space_rev (rev s))"

text \<open>\<^verbatim>\<open>str::trim_start\<close> and \<^verbatim>\<open>str::trim\<close>.\<close>

definition first_space :: "string \<Rightarrow> string option" where
  "first_space s = List.find (\<lambda>w. prefix w s) (map rev white_space_rev)"

lemma first_space_shrinks: "first_space s = Some w \<Longrightarrow> length s - length w < length s"
  unfolding first_space_def
  by (drule find_SomeD) (auto simp: white_space_rev_def dest: prefix_length_le)

function trim_start :: "string \<Rightarrow> string" where
  "trim_start s =
     (case first_space s of None \<Rightarrow> s | Some w \<Rightarrow> trim_start (drop (length w) s))"
  by pat_completeness auto
termination
  by (relation "measure length") (auto simp: first_space_shrinks)

declare trim_start.simps [simp del]

definition trim :: "string \<Rightarrow> string" where
  "trim s = trim_start (trim_end s)"

definition ends_in_space :: "string \<Rightarrow> bool" where
  "ends_in_space s \<longleftrightarrow> leading_space (rev s) \<noteq> None"

lemma trim_end_id: "\<not> ends_in_space s \<Longrightarrow> trim_end s = s"
  by (simp add: trim_end_def ends_in_space_def strip_space_rev.simps [of "rev s"])

lemma trim_end_newline: "trim_end (s @ [newline]) = trim_end s"
proof -
  have "leading_space (newline # rev s) = Some [newline]"
    by (simp add: leading_space_def white_space_rev_def)
  then have "strip_space_rev (newline # rev s) = strip_space_rev (rev s)"
    by (subst strip_space_rev.simps) simp
  then show ?thesis by (simp add: trim_end_def)
qed

lemma trim_end_Nil [simp]: "trim_end [] = []"
  by (rule trim_end_id) (simp add: ends_in_space_def leading_space_def white_space_rev_def)

lemma split_on_nonempty [simp]: "split_on d s \<noteq> []"
  by (induction s) (auto split: list.splits)

lemma split_on_free: "d \<notin> set s \<Longrightarrow> split_on d s = [s]"
  by (induction s) auto

lemma split_on_append_sep:
  "d \<notin> set s \<Longrightarrow> split_on d (s @ d # t) = s # split_on d t"
  by (induction s) auto

text \<open>Joining separator-free words and splitting them again gives the words back.\<close>

lemma set_join: "c \<in> set (join sep ws) \<Longrightarrow> c \<in> set sep \<or> (\<exists>w \<in> set ws. c \<in> set w)"
  by (induction sep ws rule: join.induct) auto

lemma split_on_join:
  "ws \<noteq> [] \<Longrightarrow> \<forall>w \<in> set ws. d \<notin> set w \<Longrightarrow> split_on d (join [d] ws) = ws"
proof (induction "[d]" ws rule: join.induct)
  case (2 w)
  then show ?case by (simp add: split_on_free)
next
  case (3 w v ws)
  then show ?case by (simp add: split_on_append_sep)
qed simp

lemma split_once_append: "d \<notin> set k \<Longrightarrow> split_once d (k @ d # v) = Some (k, v)"
  by (induction k) auto

lemma split_once_SomeD: "split_once d s = Some (k, v) \<Longrightarrow> s = k @ d # v \<and> d \<notin> set k"
proof (induction s arbitrary: k)
  case (Cons c s)
  then show ?case by (auto split: if_splits)
qed simp

lemma replace_char_notin: "a \<noteq> b \<Longrightarrow> a \<notin> set (replace_char a b s)"
  by (auto simp: replace_char_def)

lemma replace_char_other: "c \<noteq> b \<Longrightarrow> c \<notin> set s \<Longrightarrow> c \<notin> set (replace_char a b s)"
  by (auto simp: replace_char_def split: if_splits)

lemma str_contains_sublist: "str_contains p s \<longleftrightarrow> sublist p s"
proof (induction s)
  case (Cons c s)
  then show ?case by (simp add: sublist_Cons_right)
qed simp

section \<open>Decimal numbers\<close>

definition digit_char :: "nat \<Rightarrow> char" where
  "digit_char d = char_of (48 + d)"

definition digit_val :: "char \<Rightarrow> nat option" where
  "digit_val c = (let n = of_char c :: nat in if 48 \<le> n \<and> n \<le> 57 then Some (n - 48) else None)"

text \<open>\<^verbatim>\<open>to_string\<close> of an unsigned integer.\<close>

fun show_nat :: "nat \<Rightarrow> string" where
  "show_nat n = (if n < 10 then [digit_char n] else show_nat (n div 10) @ [digit_char (n mod 10)])"

declare show_nat.simps [simp del]

definition show_u64 :: "u64 \<Rightarrow> string" where
  "show_u64 w = show_nat (unat w)"

definition show_int :: "int \<Rightarrow> string" where
  "show_int i = (if i < 0 then CHR ''-'' # show_nat (nat (- i)) else show_nat (nat i))"

fun digits_val :: "nat \<Rightarrow> string \<Rightarrow> nat option" where
  "digits_val acc [] = Some acc"
| "digits_val acc (c # s) =
     (case digit_val c of None \<Rightarrow> None | Some d \<Rightarrow> digits_val (10 * acc + d) s)"

definition parse_nat :: "string \<Rightarrow> nat option" where
  "parse_nat s = (if s = [] then None else digits_val 0 s)"

text \<open>
  \<^verbatim>\<open>str::parse\<close> into an unsigned type of \<open>w\<close> bits: an optional plus sign, at least one
  digit, and a value that fits.
\<close>

definition parse_unsigned :: "nat \<Rightarrow> string \<Rightarrow> nat option" where
  "parse_unsigned w s =
     (case parse_nat (case s of c # t \<Rightarrow> if c = CHR ''+'' then t else s | [] \<Rightarrow> s) of
        None \<Rightarrow> None
      | Some n \<Rightarrow> if n < 2 ^ w then Some n else None)"

definition parse_u64 :: "string \<Rightarrow> u64 option" where
  "parse_u64 s = map_option of_nat (parse_unsigned 64 s)"

text \<open>Parsing into a signed type of \<open>w\<close> bits: an optional sign of either kind.\<close>

definition parse_signed :: "nat \<Rightarrow> string \<Rightarrow> int option" where
  "parse_signed w s =
     (case s of
        c # t \<Rightarrow>
          if c = CHR ''-'' then
            (case parse_nat t of
               None \<Rightarrow> None | Some n \<Rightarrow> if n \<le> 2 ^ (w - 1) then Some (- int n) else None)
          else
            (case parse_nat (if c = CHR ''+'' then t else s) of
               None \<Rightarrow> None | Some n \<Rightarrow> if n < 2 ^ (w - 1) then Some (int n) else None)
      | [] \<Rightarrow> None)"

lemma digit_val_digit_char [simp]: "d < 10 \<Longrightarrow> digit_val (digit_char d) = Some d"
  by (simp add: digit_val_def digit_char_def)

lemma digits_val_snoc:
  "digits_val acc (s @ [c]) =
     (case digits_val acc s of None \<Rightarrow> None
      | Some a \<Rightarrow> map_option (\<lambda>d. 10 * a + d) (digit_val c))"
  by (induction acc s rule: digits_val.induct) (auto split: option.splits)

lemma digits_val_show_nat: "digits_val 0 (show_nat n) = Some n"
proof (induction n rule: show_nat.induct)
  case (1 n)
  show ?case
  proof (cases "n < 10")
    case True
    then show ?thesis by (simp add: show_nat.simps [of n])
  next
    case False
    with 1 have "digits_val 0 (show_nat (n div 10)) = Some (n div 10)" by simp
    with False show ?thesis by (simp add: show_nat.simps [of n] digits_val_snoc)
  qed
qed

lemma show_nat_nonempty [simp]: "show_nat n \<noteq> []"
  by (subst show_nat.simps) simp

lemma digit_char_range: "d < 10 \<Longrightarrow> of_char (digit_char d) \<in> {48..57::nat}"
  by (simp add: digit_char_def)

lemma show_nat_digits: "c \<in> set (show_nat n) \<Longrightarrow> of_char c \<in> {48..57::nat}"
proof (induction n rule: show_nat.induct)
  case (1 n)
  show ?case
  proof (cases "n < 10")
    case True
    with "1.prems" show ?thesis
      by (simp add: show_nat.simps [of n] digit_char_range del: atLeastAtMost_iff)
  next
    case False
    with "1.prems" have "c \<in> set (show_nat (n div 10)) \<or> c = digit_char (n mod 10)"
      by (auto simp: show_nat.simps [of n])
    then show ?thesis
      using "1.IH" [OF False] digit_char_range [of "n mod 10"] by auto
  qed
qed

lemma show_nat_avoids:
  "of_char c \<notin> {48..57::nat} \<Longrightarrow> c \<notin> set (show_nat n)"
  using show_nat_digits by blast

lemma parse_nat_show_nat [simp]: "parse_nat (show_nat n) = Some n"
  by (simp add: parse_nat_def digits_val_show_nat)

lemma parse_unsigned_show_nat: "n < 2 ^ w \<Longrightarrow> parse_unsigned w (show_nat n) = Some n"
proof -
  assume n: "n < 2 ^ w"
  obtain c t where s: "show_nat n = c # t" by (cases "show_nat n") auto
  have "CHR ''+'' \<notin> set (show_nat n)" by (rule show_nat_avoids) simp
  with s have "c \<noteq> CHR ''+''" by auto
  then have "parse_unsigned w (show_nat n) =
      (case parse_nat (show_nat n) of None \<Rightarrow> None | Some n \<Rightarrow> if n < 2 ^ w then Some n else None)"
    by (simp add: parse_unsigned_def s)
  with n show ?thesis by simp
qed

lemma parse_u64_show_u64 [simp]: "parse_u64 (show_u64 w) = Some w"
  by (simp add: parse_u64_def show_u64_def parse_unsigned_show_nat unat_less_u64 [simplified])

lemma show_u64_inject [simp]: "show_u64 a = show_u64 b \<longleftrightarrow> a = b"
  by (metis parse_u64_show_u64 option.inject)

lemma show_u64_avoids: "of_char c \<notin> {48..57::nat} \<Longrightarrow> c \<notin> set (show_u64 w)"
  unfolding show_u64_def by (rule show_nat_avoids)

lemma show_u64_nonempty [simp]: "show_u64 w \<noteq> []"
  by (simp add: show_u64_def)

section \<open>UTF-8\<close>

type_synonym bytes = "u8 list"

text \<open>
  \<^verbatim>\<open>std::str::from_utf8\<close>: the well-formed byte sequences of the Unicode standard (table 3-7).
\<close>

definition cont :: "u8 \<Rightarrow> bool" where
  "cont b \<longleftrightarrow> 0x80 \<le> b \<and> b \<le> 0xBF"

fun valid_utf8 :: "bytes \<Rightarrow> bool" where
  "valid_utf8 [] = True"
| "valid_utf8 (b0 # r) =
     (if b0 < 0x80 then valid_utf8 r
      else case r of
        [] \<Rightarrow> False
      | b1 # r1 \<Rightarrow>
          if 0xC2 \<le> b0 \<and> b0 \<le> 0xDF then cont b1 \<and> valid_utf8 r1
          else case r1 of
            [] \<Rightarrow> False
          | b2 # r2 \<Rightarrow>
              if 0xE0 \<le> b0 \<and> b0 \<le> 0xEF then
                cont b1 \<and> cont b2 \<and> (b0 = 0xE0 \<longrightarrow> 0xA0 \<le> b1) \<and> (b0 = 0xED \<longrightarrow> b1 \<le> 0x9F)
                \<and> valid_utf8 r2
              else case r2 of
                [] \<Rightarrow> False
              | b3 # r3 \<Rightarrow>
                  0xF0 \<le> b0 \<and> b0 \<le> 0xF4 \<and> cont b1 \<and> cont b2 \<and> cont b3
                  \<and> (b0 = 0xF0 \<longrightarrow> 0x90 \<le> b1) \<and> (b0 = 0xF4 \<longrightarrow> b1 \<le> 0x8F)
                  \<and> valid_utf8 r3)"

text \<open>ASCII text is well formed.\<close>

lemma valid_utf8_ascii: "\<forall>b \<in> set bs. b < 0x80 \<Longrightarrow> valid_utf8 bs"
  by (induction bs) auto

lemma ascii_char: "of_char c < (128 :: nat) \<Longrightarrow> (of_char c :: u8) < 0x80"
proof -
  assume c: "of_char c < (128 :: nat)"
  have "(of_char c :: u8) = of_nat (of_char c)" by (simp add: of_nat_of_char)
  then show "(of_char c :: u8) < 0x80" using c by (simp add: word_less_nat_alt unat_of_nat)
qed

lemma digit7_ascii: "\<not> digit7 c \<Longrightarrow> (of_char c :: nat) < 128"
  by (cases c) (simp add: of_char_def of_bool_def)

lemma valid_utf8_digit7: "list_all (\<lambda>c. \<not> digit7 c) s \<Longrightarrow> valid_utf8 (map of_char s)"
  by (rule valid_utf8_ascii) (auto simp: list_all_iff intro: ascii_char digit7_ascii)

section \<open>Floating-point values\<close>

text \<open>
  A finite \<^verbatim>\<open>f64\<close> is represented by its exact rational value. Measured durations enter the
  model as arbitrary values of this type. Where the source computes with floats (cost estimates,
  ratios) the model computes exactly: the rounding of intermediate results to double precision is
  not modelled, and no theorem depends on it.
\<close>

datatype f64 = F64 rat | F64_inf

text \<open>Rounding to the nearest integer, ties to even, as decimal formatting does.\<close>

definition round_even :: "rat \<Rightarrow> int" where
  "round_even r =
     (let f = \<lfloor>r\<rfloor>; d = r - of_int f in
      if d < 1/2 then f else if d > 1/2 then f + 1 else if even f then f else f + 1)"

text \<open>\<^verbatim>\<open>format!("{:.d$}", x)\<close>.\<close>

fun fmt_fixed :: "nat \<Rightarrow> f64 \<Rightarrow> string" where
  "fmt_fixed d F64_inf = ''inf''"
| "fmt_fixed d (F64 r) =
     (let n = nat (round_even (\<bar>r\<bar> * 10 ^ d));
          frac = show_nat (n mod 10 ^ d) in
      (if r < 0 then ''-'' else []) @ show_nat (n div 10 ^ d) @
      (if d = 0 then [] else ''.'' @ replicate (d - length frac) (CHR ''0'') @ frac))"

definition fmt3 :: "f64 \<Rightarrow> string" where "fmt3 = fmt_fixed 3"

definition fmt6 :: "f64 \<Rightarrow> string" where "fmt6 = fmt_fixed 6"

definition f0 :: f64 where "f0 = F64 0"

definition show_bool :: "bool \<Rightarrow> string" where
  "show_bool b = (if b then ''true'' else ''false'')"

end
