(* ===== verification/Bridge.thy ===== *)
theory Bridge
  imports RustStd
begin

text \<open>
  The binary framing between the daemon and a simulator guest,
  \<^verbatim>\<open>crates/uf-core/src/bridge.rs\<close>: the frame, its checksum, validation, encoding and decoding,
  the length-prefixed stream form, and the replay cache.

  Bytes are \<^typ>\<open>u8\<close>. The four identity strings of a frame are Rust strings, so their byte lists
  are valid UTF-8; \<open>frame_typed\<close> states that type invariant. A byte stream that can only end
  early (no other I/O error) stands for the reader and the writer.
\<close>

unbundle bit_operations_syntax

section \<open>Big-endian integers\<close>

fun be_bytes :: "nat \<Rightarrow> nat \<Rightarrow> bytes" where
  "be_bytes 0 x = []"
| "be_bytes (Suc n) x = be_bytes n (x div 256) @ [of_nat (x mod 256)]"

definition from_be :: "bytes \<Rightarrow> nat" where
  "from_be bs = foldl (\<lambda>a b. 256 * a + unat b) 0 bs"

lemma length_be_bytes [simp]: "length (be_bytes n x) = n"
  by (induction n x rule: be_bytes.induct) auto

lemma from_be_Nil [simp]: "from_be [] = 0"
  by (simp add: from_be_def)

lemma from_be_snoc [simp]: "from_be (bs @ [b]) = 256 * from_be bs + unat b"
  by (simp add: from_be_def)

lemma from_be_be_bytes: "x < 256 ^ n \<Longrightarrow> from_be (be_bytes n x) = x"
proof (induction n x rule: be_bytes.induct)
  case (2 n x)
  then have "x div 256 < 256 ^ n" by (simp add: less_mult_imp_div_less mult.commute)
  with 2 have "from_be (be_bytes n (x div 256)) = x div 256" by blast
  then show ?case by (simp add: unat_of_nat)
qed simp

lemma unat_u8_less: "unat (b :: u8) < 256"
  using unsigned_less [of b, where 'a = nat] by simp

lemma from_be_less: "from_be bs < 256 ^ length bs"
proof (induction bs rule: rev_induct)
  case (snoc b bs)
  have "unat b < 256" by (rule unat_u8_less)
  moreover have "256 * from_be bs + 256 \<le> 256 * 256 ^ length bs" using snoc by linarith
  ultimately show ?case by simp
qed simp

lemma be_bytes_from_be: "length bs = n \<Longrightarrow> be_bytes n (from_be bs) = bs"
proof (induction bs arbitrary: n rule: rev_induct)
  case (snoc b bs)
  have b: "unat b < 256" by (rule unat_u8_less)
  have "(256 * from_be bs + unat b) div 256 = from_be bs"
    and "(256 * from_be bs + unat b) mod 256 = unat b"
    using b by simp_all
  with snoc show ?case by auto
qed simp

section \<open>Messages and frames\<close>

datatype BridgeMessageType =
  Identity | Probe | Allocate | Release | InitializeDeterministic | Publish | Import | Revoke
| Checksum | Completion | Error | Shutdown | Accepted

fun message_code :: "BridgeMessageType \<Rightarrow> u16" where
  "message_code Identity = 1"
| "message_code Probe = 2"
| "message_code Allocate = 3"
| "message_code Release = 4"
| "message_code InitializeDeterministic = 5"
| "message_code Publish = 6"
| "message_code Import = 7"
| "message_code Revoke = 8"
| "message_code Checksum = 9"
| "message_code Completion = 10"
| "message_code Error = 11"
| "message_code Shutdown = 12"
| "message_code Accepted = 13"

datatype BridgeProtocolError =
  Truncated | BadMagic | UnsupportedMajor u16 | UnknownMessageType u16 | OversizedBody nat
| InvalidLength | BadChecksum | MissingIdentityField string | InvalidUtf8 | Io string

definition message_of_code :: "u16 \<Rightarrow> BridgeProtocolError + BridgeMessageType" where
  "message_of_code v =
     (if v = 1 then Inr Identity
      else if v = 2 then Inr Probe
      else if v = 3 then Inr Allocate
      else if v = 4 then Inr Release
      else if v = 5 then Inr InitializeDeterministic
      else if v = 6 then Inr Publish
      else if v = 7 then Inr Import
      else if v = 8 then Inr Revoke
      else if v = 9 then Inr Checksum
      else if v = 10 then Inr Completion
      else if v = 11 then Inr Error
      else if v = 12 then Inr Shutdown
      else if v = 13 then Inr Accepted
      else Inl (UnknownMessageType v))"

record BridgeFrame =
  protocol_major :: u16
  protocol_minor :: u16
  message_type :: BridgeMessageType
  flags :: u16
  request_id :: u64
  correlation_id :: u64
  execution_realm_id :: bytes
  node_id :: bytes
  boot_id :: bytes
  provider_session_id :: bytes
  session_generation :: u64
  status :: u32
  error_code :: u32
  body :: bytes

definition BRIDGE_MAGIC :: bytes where
  "BRIDGE_MAGIC = [0x55, 0x46, 0x53, 0x49, 0x4D, 0x42, 0x30, 0x31]"

definition BRIDGE_PROTOCOL_MAJOR :: u16 where "BRIDGE_PROTOCOL_MAJOR = 1"

definition BRIDGE_PROTOCOL_MINOR :: u16 where "BRIDGE_PROTOCOL_MINOR = 0"

definition BRIDGE_MAX_BODY_BYTES :: nat where "BRIDGE_MAX_BODY_BYTES = 64 * 1024"

definition FIXED_HEADER_BYTES :: nat where "FIXED_HEADER_BYTES = 68"

definition fnv_prime :: u64 where "fnv_prime = 0x100000001b3"

definition checksum64 :: "bytes \<Rightarrow> u64" where
  "checksum64 bs = foldl (\<lambda>hash byte. (hash XOR ucast byte) * fnv_prime) 0xcbf29ce484222325 bs"

definition request ::
  "BridgeMessageType \<Rightarrow> u64 \<Rightarrow> u64 \<Rightarrow> bytes \<Rightarrow> bytes \<Rightarrow> bytes \<Rightarrow> bytes \<Rightarrow> u64 \<Rightarrow> bytes \<Rightarrow> BridgeFrame"
  where
  "request mt rid cid realm node boot session gen bdy =
     \<lparr> protocol_major = BRIDGE_PROTOCOL_MAJOR, protocol_minor = BRIDGE_PROTOCOL_MINOR,
       message_type = mt, flags = 0, request_id = rid, correlation_id = cid,
       execution_realm_id = realm, node_id = node, boot_id = boot, provider_session_id = session,
       session_generation = gen, status = 0, error_code = 0, body = bdy \<rparr>"

section \<open>Validation\<close>

fun validate_names :: "(string \<times> bytes) list \<Rightarrow> BridgeProtocolError + unit" where
  "validate_names [] = Inr ()"
| "validate_names ((name, v) # rest) =
     (if v = [] then Inl (MissingIdentityField name)
      else if length v > 65535 then Inl InvalidLength
      else validate_names rest)"

definition validate :: "BridgeFrame \<Rightarrow> BridgeProtocolError + unit" where
  "validate f =
     (if protocol_major f \<noteq> BRIDGE_PROTOCOL_MAJOR then Inl (UnsupportedMajor (protocol_major f))
      else if request_id f = 0 \<or> correlation_id f = 0 \<or> session_generation f = 0
      then Inl InvalidLength
      else rbind
        (validate_names
           [(''execution_realm_id'', execution_realm_id f), (''node_id'', node_id f),
            (''boot_id'', boot_id f), (''provider_session_id'', provider_session_id f)])
        (\<lambda>_. if length (body f) > BRIDGE_MAX_BODY_BYTES
             then Inl (OversizedBody (length (body f))) else Inr ()))"

section \<open>Encoding\<close>

definition encode_header :: "BridgeFrame \<Rightarrow> bytes" where
  "encode_header f =
     BRIDGE_MAGIC
     @ be_bytes 2 (unat (protocol_major f))
     @ be_bytes 2 (unat (protocol_minor f))
     @ be_bytes 2 (unat (message_code (message_type f)))
     @ be_bytes 2 (unat (flags f))
     @ be_bytes 8 (unat (request_id f))
     @ be_bytes 8 (unat (correlation_id f))
     @ be_bytes 8 (unat (session_generation f))
     @ be_bytes 4 (length (body f))
     @ be_bytes 4 (unat (status f))
     @ be_bytes 4 (unat (error_code f))
     @ be_bytes 8 (unat (checksum64 (body f)))
     @ be_bytes 2 (length (execution_realm_id f))
     @ be_bytes 2 (length (node_id f))
     @ be_bytes 2 (length (boot_id f))
     @ be_bytes 2 (length (provider_session_id f))"

definition encode :: "BridgeFrame \<Rightarrow> BridgeProtocolError + bytes" where
  "encode f = rbind (validate f) (\<lambda>_.
     Inr (encode_header f @ execution_realm_id f @ node_id f @ boot_id f
          @ provider_session_id f @ body f))"

section \<open>Decoding\<close>

text \<open>\<^verbatim>\<open>take::<N>(bytes, &mut cursor)\<close>: the next bytes and the advanced cursor.\<close>

definition take_n :: "nat \<Rightarrow> bytes \<Rightarrow> nat \<Rightarrow> BridgeProtocolError + bytes \<times> nat" where
  "take_n n bs cursor =
     (if cursor + n \<ge> 2 ^ 64 then Inl InvalidLength
      else if cursor + n \<le> length bs then Inr (take n (drop cursor bs), cursor + n)
      else Inl Truncated)"

fun take_strings :: "nat list \<Rightarrow> bytes \<Rightarrow> nat \<Rightarrow> BridgeProtocolError + bytes list \<times> nat" where
  "take_strings [] bs cursor = Inr ([], cursor)"
| "take_strings (n # ns) bs cursor =
     (let s = take n (drop cursor bs) in
      if \<not> valid_utf8 s then Inl InvalidUtf8
      else rbind (take_strings ns bs (cursor + n)) (\<lambda>(ss, c). Inr (s # ss, c)))"

record FrameHeader =
  h_major :: u16
  h_minor :: u16
  h_type :: BridgeMessageType
  h_flags :: u16
  h_request :: u64
  h_correlation :: u64
  h_generation :: u64
  h_body_len :: nat
  h_status :: u32
  h_error :: u32
  h_checksum :: u64
  h_lengths :: "nat list"

text \<open>The fixed header, read field by field in the order of the source.\<close>

definition decode_header :: "bytes \<Rightarrow> BridgeProtocolError + FrameHeader \<times> nat" where
  "decode_header bs =
     rbind (take_n 8 bs 0) (\<lambda>(magic, c).
     if magic \<noteq> BRIDGE_MAGIC then Inl BadMagic else
     rbind (take_n 2 bs c) (\<lambda>(major, c).
     rbind (take_n 2 bs c) (\<lambda>(minor, c).
     rbind (take_n 2 bs c) (\<lambda>(mt, c).
     rbind (message_of_code (of_nat (from_be mt))) (\<lambda>msg.
     rbind (take_n 2 bs c) (\<lambda>(flg, c).
     rbind (take_n 8 bs c) (\<lambda>(rid, c).
     rbind (take_n 8 bs c) (\<lambda>(cid, c).
     rbind (take_n 8 bs c) (\<lambda>(gen, c).
     rbind (take_n 4 bs c) (\<lambda>(blen, c).
     rbind (take_n 4 bs c) (\<lambda>(st, c).
     rbind (take_n 4 bs c) (\<lambda>(ec, c).
     rbind (take_n 8 bs c) (\<lambda>(cs, c).
     rbind (take_n 2 bs c) (\<lambda>(l1, c).
     rbind (take_n 2 bs c) (\<lambda>(l2, c).
     rbind (take_n 2 bs c) (\<lambda>(l3, c).
     rbind (take_n 2 bs c) (\<lambda>(l4, c).
     Inr (\<lparr> h_major = of_nat (from_be major), h_minor = of_nat (from_be minor), h_type = msg,
            h_flags = of_nat (from_be flg), h_request = of_nat (from_be rid),
            h_correlation = of_nat (from_be cid), h_generation = of_nat (from_be gen),
            h_body_len = from_be blen, h_status = of_nat (from_be st),
            h_error = of_nat (from_be ec), h_checksum = of_nat (from_be cs),
            h_lengths = [from_be l1, from_be l2, from_be l3, from_be l4] \<rparr>, c))))))))))))))))))"

definition frame_of :: "FrameHeader \<Rightarrow> bytes list \<Rightarrow> bytes \<Rightarrow> BridgeFrame" where
  "frame_of h ss bdy =
     \<lparr> protocol_major = h_major h, protocol_minor = h_minor h, message_type = h_type h,
       flags = h_flags h, request_id = h_request h, correlation_id = h_correlation h,
       execution_realm_id = ss ! 0, node_id = ss ! 1, boot_id = ss ! 2,
       provider_session_id = ss ! 3, session_generation = h_generation h,
       status = h_status h, error_code = h_error h, body = bdy \<rparr>"

definition decode :: "bytes \<Rightarrow> BridgeProtocolError + BridgeFrame" where
  "decode bs =
     (if length bs < FIXED_HEADER_BYTES then Inl Truncated
      else rbind (decode_header bs) (\<lambda>(h, c).
        if h_major h \<noteq> BRIDGE_PROTOCOL_MAJOR then Inl (UnsupportedMajor (h_major h))
        else if h_body_len h > BRIDGE_MAX_BODY_BYTES then Inl (OversizedBody (h_body_len h))
        else if c + sum_list (h_lengths h) + h_body_len h \<noteq> length bs then Inl InvalidLength
        else rbind (take_strings (h_lengths h) bs c) (\<lambda>(ss, c).
          let bdy = drop c bs in
          if checksum64 bdy \<noteq> h_checksum h then Inl BadChecksum
          else let f = frame_of h ss bdy in rbind (validate f) (\<lambda>_. Inr f))))"

section \<open>Stream form\<close>

definition write_to :: "BridgeFrame \<Rightarrow> BridgeProtocolError + bytes" where
  "write_to f = rbind (encode f) (\<lambda>encoded. Inr (be_bytes 4 (length encoded) @ encoded))"

definition max_frame :: nat where
  "max_frame = FIXED_HEADER_BYTES + 4 * 65535 + BRIDGE_MAX_BODY_BYTES"

text \<open>Reading one frame off a stream: the frame and the rest of the stream.\<close>

definition read_from :: "bytes \<Rightarrow> BridgeProtocolError + BridgeFrame \<times> bytes" where
  "read_from stream =
     (if length stream < 4 then Inl Truncated
      else
        let len = from_be (take 4 stream); rest = drop 4 stream in
        if len < FIXED_HEADER_BYTES \<or> len > max_frame then Inl InvalidLength
        else if length rest < len then Inl (Io ''failed to fill whole buffer'')
        else rbind (decode (take len rest)) (\<lambda>f. Inr (f, drop len rest)))"

section \<open>Replay cache\<close>

datatype ReplayDecision = New | Cached bytes | Conflict

type_synonym ReplayCache = "(u64, u64 \<times> bytes) btreemap"

definition fingerprint :: "BridgeFrame \<Rightarrow> u64" where
  "fingerprint f = checksum64 (case encode f of Inr b \<Rightarrow> b | Inl _ \<Rightarrow> [])"

definition observe :: "ReplayCache \<Rightarrow> BridgeFrame \<Rightarrow> ReplayDecision" where
  "observe entries f =
     (case bt_get entries (request_id f) of
        None \<Rightarrow> New
      | Some (existing, response) \<Rightarrow>
          if existing = fingerprint f then Cached response else Conflict)"

definition remember :: "ReplayCache \<Rightarrow> BridgeFrame \<Rightarrow> bytes \<Rightarrow> ReplayCache" where
  "remember entries f response = bt_insert (request_id f) (fingerprint f, response) entries"

section \<open>Laws of the framing\<close>

text \<open>The type invariant of the four Rust strings.\<close>

definition frame_typed :: "BridgeFrame \<Rightarrow> bool" where
  "frame_typed f \<longleftrightarrow>
     valid_utf8 (execution_realm_id f) \<and> valid_utf8 (node_id f) \<and> valid_utf8 (boot_id f) \<and>
     valid_utf8 (provider_session_id f)"

text \<open>What \<open>validate\<close> accepts.\<close>

definition frame_valid :: "BridgeFrame \<Rightarrow> bool" where
  "frame_valid f \<longleftrightarrow>
     protocol_major f = BRIDGE_PROTOCOL_MAJOR \<and>
     request_id f \<noteq> 0 \<and> correlation_id f \<noteq> 0 \<and> session_generation f \<noteq> 0 \<and>
     (\<forall>s \<in> {execution_realm_id f, node_id f, boot_id f, provider_session_id f}.
        s \<noteq> [] \<and> length s \<le> 65535) \<and>
     length (body f) \<le> BRIDGE_MAX_BODY_BYTES"

lemma validate_iff: "validate f = Inr () \<longleftrightarrow> frame_valid f"
  by (auto simp: validate_def frame_valid_def)

lemma message_of_code_code [simp]: "message_of_code (message_code m) = Inr m"
  by (cases m) (simp_all add: message_of_code_def)

lemma message_code_of_code: "message_of_code v = Inr m \<Longrightarrow> message_code m = v"
  by (auto simp: message_of_code_def split: if_splits)

lemma from_be_u16 [simp]: "from_be (be_bytes 2 (unat (x :: u16))) = unat x"
  using unsigned_less [of x, where 'a = nat] by (intro from_be_be_bytes) simp

lemma from_be_u32 [simp]: "from_be (be_bytes 4 (unat (x :: u32))) = unat x"
  using unsigned_less [of x, where 'a = nat] by (intro from_be_be_bytes) simp

lemma from_be_u64 [simp]: "from_be (be_bytes 8 (unat (x :: u64))) = unat x"
  using unsigned_less [of x, where 'a = nat] by (intro from_be_be_bytes) simp

lemma from_be_len2: "n \<le> 65535 \<Longrightarrow> from_be (be_bytes 2 n) = n"
  by (intro from_be_be_bytes) simp

lemma from_be_len4: "n \<le> BRIDGE_MAX_BODY_BYTES \<Longrightarrow> from_be (be_bytes 4 n) = n"
  by (intro from_be_be_bytes) (simp add: BRIDGE_MAX_BODY_BYTES_def)

lemma length_BRIDGE_MAGIC [simp]: "length BRIDGE_MAGIC = 8"
  by (simp add: BRIDGE_MAGIC_def)

lemma length_encode_header [simp]: "length (encode_header f) = 68"
  by (simp add: encode_header_def)

definition header_of :: "BridgeFrame \<Rightarrow> FrameHeader" where
  "header_of f =
     \<lparr> h_major = protocol_major f, h_minor = protocol_minor f, h_type = message_type f,
       h_flags = flags f, h_request = request_id f, h_correlation = correlation_id f,
       h_generation = session_generation f, h_body_len = length (body f), h_status = status f,
       h_error = error_code f, h_checksum = checksum64 (body f),
       h_lengths = [length (execution_realm_id f), length (node_id f), length (boot_id f),
                    length (provider_session_id f)] \<rparr>"

lemma header_of_sel:
  "h_major (header_of f) = protocol_major f"
  "h_body_len (header_of f) = length (body f)"
  "h_checksum (header_of f) = checksum64 (body f)"
  "h_lengths (header_of f) =
     map length [execution_realm_id f, node_id f, boot_id f, provider_session_id f]"
  by (simp_all add: header_of_def)

lemma frame_of_header_of:
  "frame_of (header_of f)
     [execution_realm_id f, node_id f, boot_id f, provider_session_id f] (body f) = f"
  by (simp add: frame_of_def header_of_def)

lemma take_n_append:
  "length pre = c \<Longrightarrow> length xs = n \<Longrightarrow> c + n < 2 ^ 64 \<Longrightarrow>
   take_n n (pre @ xs @ post) c = Inr (xs, c + n)"
  by (auto simp: take_n_def)

lemma decode_header_encode_header:
  assumes "frame_valid f"
  shows "decode_header (encode_header f @ rest) = Inr (header_of f, 68)"
  using assms
  by (simp add: decode_header_def encode_header_def take_n_def header_of_def frame_valid_def
      from_be_len2 from_be_len4)

lemma take_strings_append:
  "\<forall>s \<in> set ss. valid_utf8 s \<Longrightarrow> length pre = c \<Longrightarrow>
   take_strings (map length ss) (pre @ concat ss @ post) c = Inr (ss, c + sum_list (map length ss))"
proof (induction ss arbitrary: pre c)
  case (Cons s ss)
  from Cons.prems have "take_strings (map length ss) ((pre @ s) @ concat ss @ post) (c + length s)
      = Inr (ss, c + length s + sum_list (map length ss))"
    by (intro Cons.IH) auto
  with Cons.prems show ?case by (simp add: add.assoc)
qed simp

lemma decode_of_valid:
  assumes "frame_valid f" and "frame_typed f"
  shows "decode (encode_header f @ execution_realm_id f @ node_id f @ boot_id f
          @ provider_session_id f @ body f) = Inr f"
proof -
  let ?ss = "[execution_realm_id f, node_id f, boot_id f, provider_session_id f]"
  have strings: "take_strings (map length ?ss) (encode_header f @ concat ?ss @ body f) 68
      = Inr (?ss, 68 + sum_list (map length ?ss))"
    using assms(2) by (intro take_strings_append) (auto simp: frame_typed_def)
  have hdr: "decode_header (encode_header f @ concat ?ss @ body f) = Inr (header_of f, 68)"
    by (rule decode_header_encode_header [OF assms(1)])
  have val: "validate f = Inr ()" using assms(1) by (simp add: validate_iff)
  have "decode (encode_header f @ concat ?ss @ body f) = Inr f"
    using hdr strings val assms(1)
    by (simp add: decode_def FIXED_HEADER_BYTES_def frame_of_header_of header_of_sel
        frame_valid_def del: take_strings.simps)
  then show ?thesis by simp
qed

lemma encode_InrD:
  "encode f = Inr bs \<Longrightarrow> frame_valid f \<and>
     bs = encode_header f @ execution_realm_id f @ node_id f @ boot_id f
       @ provider_session_id f @ body f"
  by (auto simp: encode_def rbind_Inr_iff validate_iff)

lemma decode_of_encode: "frame_typed f \<Longrightarrow> encode f = Inr bs \<Longrightarrow> decode bs = Inr f"
  using decode_of_valid [of f] by (auto dest: encode_InrD)

text \<open>
  C21. Every well-typed frame the encoder accepts is recovered exactly by the decoder.
\<close>

theorem decode_encode_frame:
  assumes "frame_typed f" and "encode f = Inr bs"
  shows "decode bs = Inr f"
  using assms by (rule decode_of_encode)

theorem decode_encode_frame_witness:
  "\<exists>bs. frame_typed (request Probe 7 9 [0x72] [0x6E] [0x62] [0x73] 1 [1, 2, 3]) \<and>
     encode (request Probe 7 9 [0x72] [0x6E] [0x62] [0x73] 1 [1, 2, 3]) = Inr bs \<and>
     decode bs = Inr (request Probe 7 9 [0x72] [0x6E] [0x62] [0x73] 1 [1, 2, 3])"
proof -
  let ?f = "request Probe 7 9 [0x72] [0x6E] [0x62] [0x73] 1 [1, 2, 3]"
  have t: "frame_typed ?f" by (simp add: frame_typed_def request_def)
  have "validate ?f = Inr ()"
    by (simp add: validate_def request_def BRIDGE_PROTOCOL_MAJOR_def BRIDGE_MAX_BODY_BYTES_def)
  then obtain bs where e: "encode ?f = Inr bs" by (simp add: encode_def)
  show ?thesis using t e decode_encode_frame [OF t e] by blast
qed

lemma take_n_Inr_iff:
  "take_n n bs c = Inr (xs, c') \<longleftrightarrow>
     c + n < 2 ^ 64 \<and> c + n \<le> length bs \<and> xs = take n (drop c bs) \<and> c' = c + n"
  by (auto simp: take_n_def)

text \<open>The header bytes as a function of the decoded header.\<close>

definition header_bytes :: "FrameHeader \<Rightarrow> bytes" where
  "header_bytes h =
     BRIDGE_MAGIC @ be_bytes 2 (unat (h_major h)) @ be_bytes 2 (unat (h_minor h))
     @ be_bytes 2 (unat (message_code (h_type h))) @ be_bytes 2 (unat (h_flags h))
     @ be_bytes 8 (unat (h_request h)) @ be_bytes 8 (unat (h_correlation h))
     @ be_bytes 8 (unat (h_generation h)) @ be_bytes 4 (h_body_len h)
     @ be_bytes 4 (unat (h_status h)) @ be_bytes 4 (unat (h_error h))
     @ be_bytes 8 (unat (h_checksum h))
     @ be_bytes 2 (h_lengths h ! 0) @ be_bytes 2 (h_lengths h ! 1)
     @ be_bytes 2 (h_lengths h ! 2) @ be_bytes 2 (h_lengths h ! 3)"

lemma encode_header_header_bytes: "encode_header f = header_bytes (header_of f)"
  by (simp add: encode_header_def header_bytes_def header_of_def)

lemma unat_of_from_be:
  "length bs = 2 \<Longrightarrow> unat (of_nat (from_be bs) :: u16) = from_be bs"
  "length bs = 4 \<Longrightarrow> unat (of_nat (from_be bs) :: u32) = from_be bs"
  "length bs = 8 \<Longrightarrow> unat (of_nat (from_be bs) :: u64) = from_be bs"
  using from_be_less [of bs] by (simp_all add: unat_of_nat)

lemma be_bytes_field:
  "length bs = 2 \<Longrightarrow> be_bytes 2 (unat (of_nat (from_be bs) :: u16)) = bs"
  "length bs = 4 \<Longrightarrow> be_bytes 4 (unat (of_nat (from_be bs) :: u32)) = bs"
  "length bs = 8 \<Longrightarrow> be_bytes 8 (unat (of_nat (from_be bs) :: u64)) = bs"
  by (simp_all add: unat_of_from_be be_bytes_from_be)

lemma take_slices:
  "take n (drop c bs) @ take m (drop (c + n) bs) = take (n + m) (drop c bs)"
  using take_add [of n m "drop c bs"] by (simp add: add.commute)

text \<open>On an input long enough for the header, every field is a fixed slice of it.\<close>

lemma decode_header_long:
  assumes "68 \<le> length bs"
  shows "decode_header bs =
    (let s = \<lambda>n c. take n (drop c bs) in
     if s 8 0 \<noteq> BRIDGE_MAGIC then Inl BadMagic
     else rbind (message_of_code (of_nat (from_be (s 2 12)))) (\<lambda>msg.
       Inr (\<lparr> h_major = of_nat (from_be (s 2 8)), h_minor = of_nat (from_be (s 2 10)),
       h_type = msg, h_flags = of_nat (from_be (s 2 14)),
       h_request = of_nat (from_be (s 8 16)), h_correlation = of_nat (from_be (s 8 24)),
       h_generation = of_nat (from_be (s 8 32)), h_body_len = from_be (s 4 40),
       h_status = of_nat (from_be (s 4 44)), h_error = of_nat (from_be (s 4 48)),
       h_checksum = of_nat (from_be (s 8 52)),
       h_lengths = [from_be (s 2 60), from_be (s 2 62), from_be (s 2 64), from_be (s 2 66)] \<rparr>,
       68)))"
  using assms by (simp add: decode_header_def take_n_def)

lemma header_bytes_slices:
  assumes "68 \<le> length bs" and "decode_header bs = Inr (h, c)"
  shows "header_bytes h =
      take 8 bs @ take 2 (drop 8 bs) @ take 2 (drop 10 bs) @ take 2 (drop 12 bs)
      @ take 2 (drop 14 bs) @ take 8 (drop 16 bs) @ take 8 (drop 24 bs) @ take 8 (drop 32 bs)
      @ take 4 (drop 40 bs) @ take 4 (drop 44 bs) @ take 4 (drop 48 bs) @ take 8 (drop 52 bs)
      @ take 2 (drop 60 bs) @ take 2 (drop 62 bs) @ take 2 (drop 64 bs) @ take 2 (drop 66 bs)"
  using assms
  by (auto simp: decode_header_long rbind_Inr_iff header_bytes_def be_bytes_field be_bytes_from_be
      dest!: message_code_of_code split: if_splits)

lemma decode_header_canonical:
  assumes "68 \<le> length bs" and "decode_header bs = Inr (h, c)"
  shows "c = 68" and "header_bytes h = take 68 bs" and "length (h_lengths h) = 4"
proof -
  show "c = 68" and "length (h_lengths h) = 4"
    using assms by (auto simp: decode_header_long rbind_Inr_iff split: if_splits)
  have *: "take a bs @ take b (drop a bs) @ r = take (a + b) bs @ r" for a b r
    using take_add [of a b bs] by simp
  show "header_bytes h = take 68 bs"
    unfolding header_bytes_slices [OF assms]
    using take_add [of 66 2 bs] by (simp add: *)
qed

lemma take_strings_Inr:
  "take_strings ns bs c = Inr (ss, c') \<Longrightarrow> c + sum_list ns \<le> length bs \<Longrightarrow>
   c' = c + sum_list ns \<and> map length ss = ns \<and> concat ss = take (sum_list ns) (drop c bs) \<and>
   (\<forall>s \<in> set ss. valid_utf8 s)"
proof (induction ns arbitrary: c ss)
  case (Cons n ns)
  from Cons.prems(1) obtain ss' where
    v: "valid_utf8 (take n (drop c bs))" and ss: "ss = take n (drop c bs) # ss'" and
    rest: "take_strings ns bs (c + n) = Inr (ss', c')"
    by (auto simp: Let_def rbind_Inr_iff split: if_splits)
  from Cons.prems(2) have "c + n + sum_list ns \<le> length bs" by simp
  from Cons.IH [OF rest this] ss v Cons.prems(2) show ?case
    using take_slices [of n c bs "sum_list ns"] by simp
qed simp

lemma decode_InrD:
  assumes "decode bs = Inr f"
  obtains h ss c where
    "68 \<le> length bs" and "decode_header bs = Inr (h, 68)" and "header_bytes h = take 68 bs" and
    "h_body_len h \<le> BRIDGE_MAX_BODY_BYTES" and
    "68 + sum_list (h_lengths h) + h_body_len h = length bs" and
    "take_strings (h_lengths h) bs 68 = Inr (ss, c)" and "length (h_lengths h) = 4" and
    "checksum64 (drop c bs) = h_checksum h" and "f = frame_of h ss (drop c bs)" and
    "validate f = Inr ()"
proof -
  from assms have len: "68 \<le> length bs"
    by (auto simp: decode_def FIXED_HEADER_BYTES_def split: if_splits)
  from assms len obtain h c0 where hdr: "decode_header bs = Inr (h, c0)"
    by (auto simp: decode_def rbind_Inr_iff split: if_splits)
  note canon = decode_header_canonical [OF len hdr]
  from assms len hdr canon(1) obtain ss c where
    "h_body_len h \<le> BRIDGE_MAX_BODY_BYTES"
    "68 + sum_list (h_lengths h) + h_body_len h = length bs"
    "take_strings (h_lengths h) bs 68 = Inr (ss, c)"
    "checksum64 (drop c bs) = h_checksum h" "f = frame_of h ss (drop c bs)" "validate f = Inr ()"
    by (auto simp: decode_def FIXED_HEADER_BYTES_def Let_def rbind_Inr_iff not_less
        split: if_splits)
  with len hdr canon show ?thesis by (intro that) auto
qed

lemma list4: "length xs = 4 \<Longrightarrow> xs = [xs ! 0, xs ! 1, xs ! 2, xs ! 3]"
  by (auto simp: numeral_eq_Suc length_Suc_conv)

text \<open>
  C23. The decoder accepts only canonical encodings: whatever bytes it accepts are exactly the
  encoding of the frame it returns (so no two byte strings decode to the same frame), and the
  frame's strings are valid UTF-8.
\<close>

theorem encode_decode_frame:
  assumes "decode bs = Inr f"
  shows "encode f = Inr bs \<and> frame_typed f"
proof -
  from assms obtain h ss c where
    len: "68 \<le> length bs" and hb: "header_bytes h = take 68 bs" and
    total: "68 + sum_list (h_lengths h) + h_body_len h = length bs" and
    str: "take_strings (h_lengths h) bs 68 = Inr (ss, c)" and l4: "length (h_lengths h) = 4" and
    cs: "checksum64 (drop c bs) = h_checksum h" and f: "f = frame_of h ss (drop c bs)" and
    val: "validate f = Inr ()"
    by (rule decode_InrD)
  have ss: "c = 68 + sum_list (h_lengths h)" "map length ss = h_lengths h"
    "concat ss = take (sum_list (h_lengths h)) (drop 68 bs)" "\<forall>s \<in> set ss. valid_utf8 s"
    using take_strings_Inr [OF str] total by simp_all
  have "length ss = 4" using ss(2) l4 by (metis length_map)
  then have ss4: "ss = [ss ! 0, ss ! 1, ss ! 2, ss ! 3]" by (rule list4)
  have "map length [ss ! 0, ss ! 1, ss ! 2, ss ! 3] = h_lengths h"
    using ss(2) ss4 by metis
  moreover have "h_body_len h = length (drop c bs)" using total ss(1) by simp
  ultimately have "header_of f = h"
    using cs by (simp add: f header_of_def frame_of_def)
  then have hdr: "encode_header f = take 68 bs" using hb by (simp add: encode_header_header_bytes)
  have "execution_realm_id f @ node_id f @ boot_id f @ provider_session_id f @ body f
      = concat [ss ! 0, ss ! 1, ss ! 2, ss ! 3] @ drop c bs"
    by (simp add: f frame_of_def)
  also have "\<dots> = drop 68 bs"
    using ss4 ss(1,3) by (metis append_take_drop_id drop_drop add.commute)
  finally have "encode f = Inr bs"
    using val hdr by (simp add: encode_def)
  moreover have "frame_typed f"
    using ss(4) ss4 by (simp add: f frame_of_def frame_typed_def) (metis list.set_intros)
  ultimately show ?thesis by blast
qed

text \<open>A concrete encoded frame for the witnesses of the decoder's laws.\<close>

definition sample_frame :: BridgeFrame where
  "sample_frame = request Probe 7 9 [0x72] [0x6E] [0x62] [0x73] 1 [1, 2, 3]"

definition sample_bytes :: bytes where
  "sample_bytes = encode_header sample_frame @ [0x72, 0x6E, 0x62, 0x73, 1, 2, 3]"

lemma sample_typed: "frame_typed sample_frame"
  by (simp add: frame_typed_def sample_frame_def request_def)

lemma sample_encode: "encode sample_frame = Inr sample_bytes"
  by (simp add: encode_def validate_def sample_bytes_def sample_frame_def request_def
      BRIDGE_PROTOCOL_MAJOR_def BRIDGE_MAX_BODY_BYTES_def)

lemma sample_valid: "frame_valid sample_frame"
  using sample_encode by (auto simp: encode_def rbind_Inr_iff validate_iff)

lemma sample_decode: "decode sample_bytes = Inr sample_frame"
  using decode_of_valid [OF sample_valid sample_typed]
  by (simp add: sample_bytes_def sample_frame_def request_def)

theorem encode_decode_frame_witness:
  "decode sample_bytes = Inr sample_frame \<and> encode sample_frame = Inr sample_bytes \<and>
   frame_typed sample_frame"
  using sample_decode encode_decode_frame [OF sample_decode] by simp

subsection \<open>Corruption and truncation\<close>

lemma fnv_prime_inverse: "fnv_prime * 0xce965057aff6957b = 1"
  by (simp add: fnv_prime_def)

lemma fnv_step_inj: "(a XOR c) * fnv_prime = (b XOR c) * fnv_prime \<longleftrightarrow> a = b"
proof
  assume "(a XOR c) * fnv_prime = (b XOR c) * fnv_prime"
  then have "(a XOR c) * fnv_prime * 0xce965057aff6957b = (b XOR c) * fnv_prime * 0xce965057aff6957b"
    by (rule arg_cong)
  then have "(a XOR c) * (fnv_prime * 0xce965057aff6957b)
      = (b XOR c) * (fnv_prime * 0xce965057aff6957b)"
    by (simp only: mult.assoc)
  then have "a XOR c = b XOR c" by (simp add: fnv_prime_inverse)
  then have "(a XOR c) XOR c = (b XOR c) XOR c" by simp
  then show "a = b" by (simp add: xor.assoc)
qed simp

lemma ucast_u64_u8: "ucast (ucast b :: u64) = (b :: u8)"
  by (rule bit_word_eqI) (simp add: bit_ucast_iff)

lemma fnv_step_byte_inj:
  "(a XOR ucast b) * fnv_prime = (a XOR ucast c) * fnv_prime \<longleftrightarrow> b = (c :: u8)"
proof
  assume "(a XOR ucast b) * fnv_prime = (a XOR ucast c) * fnv_prime"
  then have "ucast b = (ucast c :: u64)" by (metis fnv_step_inj xor.commute)
  then have "ucast (ucast b :: u64) = (ucast (ucast c :: u64) :: u8)" by simp
  then show "b = c" by (simp only: ucast_u64_u8)
qed simp

definition fnv_fold :: "u64 \<Rightarrow> bytes \<Rightarrow> u64" where
  "fnv_fold = foldl (\<lambda>hash byte. (hash XOR ucast byte) * fnv_prime)"

lemma fnv_fold_inj: "fnv_fold a bs = fnv_fold b bs \<longleftrightarrow> a = b"
  by (induction bs arbitrary: a b) (simp_all add: fnv_fold_def fnv_step_inj)

lemma checksum64_append: "checksum64 (xs @ ys) = fnv_fold (checksum64 xs) ys"
  by (simp add: checksum64_def fnv_fold_def)

text \<open>The checksum tells any two byte strings apart that differ in exactly one byte.\<close>

lemma checksum64_single_byte:
  "checksum64 (xs @ b # ys) = checksum64 (xs @ c # ys) \<longleftrightarrow> b = c"
proof -
  have "checksum64 (xs @ z # ys) = fnv_fold ((checksum64 xs XOR ucast z) * fnv_prime) ys" for z
    by (simp add: checksum64_append fnv_fold_def)
  then show ?thesis by (simp add: fnv_fold_inj fnv_step_byte_inj)
qed

lemma checksum64_update:
  assumes "i < length bs" and "bs ! i \<noteq> b"
  shows "checksum64 (bs[i := b]) \<noteq> checksum64 bs"
proof -
  have "bs[i := b] = take i bs @ b # drop (Suc i) bs" by (rule upd_conv_take_nth_drop) fact
  moreover have "bs = take i bs @ bs ! i # drop (Suc i) bs" by (rule id_take_nth_drop) fact
  ultimately show ?thesis
    using checksum64_single_byte [of "take i bs" b "drop (Suc i) bs" "bs ! i"] assms(2) by metis
qed

lemma decode_other_body:
  assumes "frame_valid f" and "frame_typed f" and "length bdy = length (body f)"
    and "checksum64 bdy \<noteq> checksum64 (body f)"
  shows "decode (encode_header f @ execution_realm_id f @ node_id f @ boot_id f
          @ provider_session_id f @ bdy) = Inl BadChecksum"
proof -
  let ?ss = "[execution_realm_id f, node_id f, boot_id f, provider_session_id f]"
  have strings: "take_strings (map length ?ss) (encode_header f @ concat ?ss @ bdy) 68
      = Inr (?ss, 68 + sum_list (map length ?ss))"
    using assms(2) by (intro take_strings_append) (auto simp: frame_typed_def)
  have hdr: "decode_header (encode_header f @ concat ?ss @ bdy) = Inr (header_of f, 68)"
    by (rule decode_header_encode_header [OF assms(1)])
  have "decode (encode_header f @ concat ?ss @ bdy) = Inl BadChecksum"
    using hdr strings assms(1,3,4)
    by (simp add: decode_def FIXED_HEADER_BYTES_def header_of_sel frame_valid_def
        del: take_strings.simps)
  then show ?thesis by simp
qed

text \<open>
  C22. A frame whose body was altered in one byte on the way is rejected, with the checksum error,
  whatever the position and the new value.
\<close>

theorem corrupted_body_rejected:
  assumes "frame_typed f" and "encode f = Inr bs" and "i < length (body f)" and "body f ! i \<noteq> b"
  shows "decode (bs[length bs - length (body f) + i := b]) = Inl BadChecksum"
proof -
  from encode_InrD [OF assms(2)] have v: "frame_valid f" and
    bs: "bs = (encode_header f @ execution_realm_id f @ node_id f @ boot_id f
       @ provider_session_id f) @ body f" by simp_all
  have "bs[length bs - length (body f) + i := b] =
      encode_header f @ execution_realm_id f @ node_id f @ boot_id f @ provider_session_id f
      @ (body f)[i := b]"
    unfolding bs by (subst list_update_append) simp
  then show ?thesis
    using decode_other_body [OF v assms(1), of "(body f)[i := b]"]
      checksum64_update [OF assms(3,4)] by simp
qed

theorem corrupted_body_rejected_witness:
  "frame_typed sample_frame \<and> encode sample_frame = Inr sample_bytes \<and>
   decode (sample_bytes[length sample_bytes - length (body sample_frame) + 1 := 255])
     = Inl BadChecksum"
proof -
  have i: "1 < length (body sample_frame)" and b: "body sample_frame ! 1 \<noteq> 255"
    by (simp_all add: sample_frame_def request_def)
  show ?thesis
    using corrupted_body_rejected [OF sample_typed sample_encode i b] sample_typed sample_encode
    by blast
qed

text \<open>
  No proper prefix of an encoded frame is accepted: a frame cut short in transit is an error.
\<close>

theorem truncated_frame_rejected:
  assumes "encode f = Inr bs" and "n < length bs"
  shows "decode (take n bs) = Inl (if n < 68 then Truncated else InvalidLength)"
proof (cases "n < 68")
  case True
  with assms(2) have "length (take n bs) < 68" by simp
  with True show ?thesis by (simp add: decode_def FIXED_HEADER_BYTES_def)
next
  case False
  from encode_InrD [OF assms(1)] have v: "frame_valid f" and
    bs: "bs = encode_header f @ execution_realm_id f @ node_id f @ boot_id f
       @ provider_session_id f @ body f" by simp_all
  from False obtain rest where pre: "take n bs = encode_header f @ rest"
    by (simp add: bs)
  have len: "length (take n bs) = n" using assms(2) by simp
  have "length bs = 68 + (length (execution_realm_id f) + length (node_id f) + length (boot_id f)
      + length (provider_session_id f) + length (body f))" by (simp add: bs)
  then show ?thesis
    using False v assms(2) len
    by (simp add: pre decode_def FIXED_HEADER_BYTES_def decode_header_encode_header
        header_of_sel frame_valid_def)
qed

theorem truncated_frame_rejected_witness:
  "encode sample_frame = Inr sample_bytes \<and> 70 < length sample_bytes \<and>
   decode (take 70 sample_bytes) = Inl InvalidLength"
proof -
  have n: "70 < length sample_bytes" by (simp add: sample_bytes_def)
  show ?thesis using sample_encode n truncated_frame_rejected [OF sample_encode n] by simp
qed

subsection \<open>Streams and replays\<close>

lemma length_encode:
  assumes "encode f = Inr bs"
  shows "68 \<le> length bs \<and> length bs \<le> max_frame"
  using encode_InrD [OF assms]
  by (auto simp: frame_valid_def max_frame_def FIXED_HEADER_BYTES_def)

text \<open>
  Framing on a stream: a reader that meets a written frame returns that frame and leaves the
  stream at the first byte after it, so back-to-back frames never bleed into each other.
\<close>

theorem read_from_write_to:
  assumes "frame_typed f" and "write_to f = Inr bs"
  shows "read_from (bs @ rest) = Inr (f, rest)"
proof -
  from assms(2) obtain e where e: "encode f = Inr e" and bs: "bs = be_bytes 4 (length e) @ e"
    by (auto simp: write_to_def rbind_Inr_iff)
  note len = length_encode [OF e]
  then have "length e < 256 ^ 4"
    by (simp add: max_frame_def FIXED_HEADER_BYTES_def BRIDGE_MAX_BODY_BYTES_def)
  then have "from_be (be_bytes 4 (length e)) = length e" by (rule from_be_be_bytes)
  with len decode_of_encode [OF assms(1) e] show ?thesis
    by (simp add: read_from_def bs FIXED_HEADER_BYTES_def)
qed

theorem read_from_write_to_witness:
  "\<exists>bs. write_to sample_frame = Inr bs \<and> read_from (bs @ bs) = Inr (sample_frame, bs)"
proof -
  obtain bs where w: "write_to sample_frame = Inr bs"
    by (simp add: write_to_def sample_encode)
  show ?thesis using w read_from_write_to [OF sample_typed w] by blast
qed

text \<open>
  Replay protection: after a response is remembered for a frame, the same frame gets that
  cached response, another frame under the same request id is a conflict, and frames under other
  request ids are judged as before.
\<close>

theorem observe_remember:
  assumes "bt_wf entries"
  shows "observe (remember entries f response) g =
     (if request_id g = request_id f
      then if fingerprint g = fingerprint f then Cached response else Conflict
      else observe entries g)"
  using assms by (auto simp: observe_def remember_def bt_get_insert)

theorem observe_remember_witness:
  "bt_wf ([] :: ReplayCache) \<and>
   observe (remember [] sample_frame [1]) sample_frame = Cached [1]"
proof -
  have w: "bt_wf ([] :: ReplayCache)" by (simp add: bt_wf_def)
  show ?thesis using w observe_remember [OF w, of sample_frame "[1]" sample_frame] by simp
qed

end
