(* ===== verification/Wire.thy ===== *)
theory Wire
  imports RustStd
begin

text \<open>
  The control-socket protocol of \<^verbatim>\<open>crates/uf-core/src/lib.rs\<close> (one request or response per
  line, \<^verbatim>\<open>key=value\<close> pairs separated by semicolons) and the request readers of
  \<^verbatim>\<open>crates/uf-daemon/src/common.rs\<close> that depend on the request alone.

  Process environment variables are a parameter \<open>env\<close> of the functions that read them.
\<close>

type_synonym kv = "(string, string) btreemap"

type_synonym environment = "string \<Rightarrow> string option"

text \<open>A fallible function returns \<open>Inl\<close> of the error detail or \<open>Inr\<close> of the result.\<close>

type_synonym 'a result = "string + 'a"

section \<open>Encoding and decoding (lib.rs)\<close>

definition encode_pair :: "string \<times> string \<Rightarrow> string" where
  "encode_pair = (\<lambda>(k, v). k @ ''='' @ v)"

definition encode :: "kv \<Rightarrow> string" where
  "encode m = join '';'' (map encode_pair m) @ [newline]"

definition decode_part :: "string \<Rightarrow> kv \<Rightarrow> kv" where
  "decode_part part m =
     (case split_once (CHR ''='') part of Some (k, v) \<Rightarrow> bt_insert k v m | None \<Rightarrow> m)"

definition decode :: "string \<Rightarrow> kv" where
  "decode line = fold decode_part (split_on (CHR '';'') (trim_end line)) []"

definition kv_of :: "(string \<times> string) list \<Rightarrow> kv" where
  "kv_of items = fold (\<lambda>(k, v). bt_insert k v) items []"

definition get :: "kv \<Rightarrow> string \<Rightarrow> string" where
  "get m key = (case bt_get m key of Some v \<Rightarrow> v | None \<Rightarrow> [])"

definition get_u64 :: "kv \<Rightarrow> string \<Rightarrow> u64" where
  "get_u64 m key = (case parse_u64 (get m key) of Some n \<Rightarrow> n | None \<Rightarrow> 0)"

definition get_i64 :: "kv \<Rightarrow> string \<Rightarrow> int" where
  "get_i64 m key = (case parse_signed 64 (get m key) of Some n \<Rightarrow> n | None \<Rightarrow> 0)"

definition ok :: "(string \<times> string) list \<Rightarrow> kv" where
  "ok items = bt_insert ''status'' ''ok'' (kv_of items)"

definition err :: "string \<Rightarrow> kv" where
  "err detail = kv_of [(''status'', ''error''), (''detail'', detail)]"

section \<open>Request readers (common.rs)\<close>

definition truthy :: "string \<Rightarrow> bool" where
  "truthy v \<longleftrightarrow> v \<in> {''1'', ''true'', ''True'', ''yes'', ''YES''}"

definition get_bool :: "kv \<Rightarrow> string \<Rightarrow> bool" where
  "get_bool req key \<longleftrightarrow> truthy (get req key)"

definition get_bool_default :: "kv \<Rightarrow> string \<Rightarrow> bool \<Rightarrow> bool" where
  "get_bool_default req key dflt =
     (let v = get req key in if v = [] then dflt else truthy v \<or> v = ''on'')"

definition env_bool :: "environment \<Rightarrow> string \<Rightarrow> bool \<Rightarrow> bool" where
  "env_bool env key dflt =
     (case env key of Some v \<Rightarrow> truthy v \<or> v = ''on'' | None \<Rightarrow> dflt)"

definition sanitize_kv_value :: "string \<Rightarrow> string" where
  "sanitize_kv_value v =
     replace_char newline (CHR '' '')
       (replace_char (CHR ''='') (CHR '':'') (replace_char (CHR '';'') (CHR '','') v))"

fun first_nonzero :: "kv \<Rightarrow> string list \<Rightarrow> u64" where
  "first_nonzero req [] = 0"
| "first_nonzero req (key # keys) =
     (let v = get_u64 req key in if v \<noteq> 0 then v else first_nonzero req keys)"

definition requested_bytes_of :: "kv \<Rightarrow> u64" where
  "requested_bytes_of req =
     first_nonzero req [''nbytes'', ''requested_bytes'', ''size_bytes'', ''bytes'']"

definition role_from_req :: "kv \<Rightarrow> string" where
  "role_from_req req =
     (if get req ''role'' \<noteq> [] then get req ''role''
      else if get req ''object_type'' \<noteq> [] then get req ''object_type''
      else ''user'')"

definition parse_hbm_target :: "kv \<Rightarrow> int \<Rightarrow> int result" where
  "parse_hbm_target req daemon_device =
     (let target = get req ''target'' in
      if target = [] then Inr daemon_device
      else case Option.bind (strip_prefix ''npu:'' target) (parse_signed 32) of
        None \<Rightarrow> Inl ''target must use npu:<device_id>''
      | Some device \<Rightarrow> Inr device)"

definition validate_hbm_create_request :: "kv \<Rightarrow> int \<Rightarrow> int result" where
  "validate_hbm_create_request req daemon_device =
     (if get req ''hint'' \<noteq> ''mandatory:hbm'' then Inl ''hint must be mandatory:hbm''
      else parse_hbm_target req daemon_device)"

definition is_ddr_request :: "kv \<Rightarrow> bool" where
  "is_ddr_request req \<longleftrightarrow>
     get req ''hint'' = ''mandatory:ddr'' \<or> starts_with ''host:'' (get req ''target'')"

definition is_ssd_request :: "kv \<Rightarrow> bool" where
  "is_ssd_request req \<longleftrightarrow>
     get req ''hint'' = ''mandatory:ssd'' \<or> starts_with ''ssd:'' (get req ''target'')"

definition parse_ddr_target :: "environment \<Rightarrow> kv \<Rightarrow> nat result" where
  "parse_ddr_target env req =
     (let hint = get req ''hint'' in
      if hint \<noteq> [] \<and> hint \<noteq> ''mandatory:ddr'' then Inl ''hint must be mandatory:ddr''
      else
        let target =
          (if get req ''target'' = []
           then ''host:'' @ (case env ''UF_DDR_NUMA_NODE'' of Some v \<Rightarrow> v | None \<Rightarrow> ''0'')
           else get req ''target'') in
        case Option.bind (strip_prefix ''host:'' target) (parse_unsigned 32) of
          None \<Rightarrow> Inl ''DDR target must use host:<numa_id>''
        | Some node \<Rightarrow> Inr node)"

definition parse_ssd_target :: "kv \<Rightarrow> string result" where
  "parse_ssd_target req =
     (let hint = get req ''hint'' in
      if hint \<noteq> [] \<and> hint \<noteq> ''mandatory:ssd'' then Inl ''hint must be mandatory:ssd''
      else
        let target = (if get req ''target'' = [] then ''ssd:local0'' else get req ''target'') in
        if target \<noteq> ''ssd:local0'' then Inl ''SSD target must use ssd:local0'' else Inr target)"

section \<open>Laws of the wire format\<close>

text \<open>
  What the format can carry: keys free of both separators, values free of the pair separator, and
  a line that does not end in white space (the reader trims it).
\<close>

definition plain_key :: "string \<Rightarrow> bool" where
  "plain_key k \<longleftrightarrow> CHR ''='' \<notin> set k \<and> CHR '';'' \<notin> set k"

definition plain_value :: "string \<Rightarrow> bool" where
  "plain_value v \<longleftrightarrow> CHR '';'' \<notin> set v"

definition encodable :: "kv \<Rightarrow> bool" where
  "encodable m \<longleftrightarrow>
     bt_wf m \<and> list_all (\<lambda>(k, v). plain_key k \<and> plain_value v) m \<and>
     \<not> ends_in_space (join '';'' (map encode_pair m))"

lemma encode_pair_plain:
  "plain_key k \<Longrightarrow> plain_value v \<Longrightarrow> CHR '';'' \<notin> set (encode_pair (k, v))"
  by (simp add: encode_pair_def plain_key_def plain_value_def)

lemma decode_part_encode_pair:
  "plain_key k \<Longrightarrow> decode_part (encode_pair (k, v)) m = bt_insert k v m"
  by (simp add: decode_part_def encode_pair_def plain_key_def split_once_append)

lemma decode_parts:
  "list_all (\<lambda>(k, v). plain_key k \<and> plain_value v) kvs \<Longrightarrow>
   fold decode_part (map encode_pair kvs) m = fold (\<lambda>(k, v). bt_insert k v) kvs m"
  by (induction kvs arbitrary: m) (auto simp: decode_part_encode_pair)

lemma bt_wf_decode_parts: "bt_wf m \<Longrightarrow> bt_wf (fold decode_part parts m)"
  by (induction parts arbitrary: m) (auto simp: decode_part_def split: option.splits prod.splits)

lemma bt_wf_Nil [simp]: "bt_wf []"
  by (simp add: bt_wf_def)

lemma bt_wf_decode: "bt_wf (decode line)"
  by (simp add: decode_def bt_wf_decode_parts)

lemma bt_wf_kv_of [simp]: "bt_wf (kv_of items)"
  unfolding kv_of_def by (rule bt.put_all_wf) simp

lemma bt_get_kv_of: "bt_get (kv_of items) k = map_of (rev items) k"
  unfolding kv_of_def by (simp add: bt.get_put_all bt_get_def [of "[]"] split: option.split)

lemma get_err_status [simp]: "get (err d) ''status'' = ''error''"
  by (simp add: err_def get_def bt_get_kv_of)

lemma get_err_detail [simp]: "get (err d) ''detail'' = d"
  by (simp add: err_def get_def bt_get_kv_of)

lemma get_ok_status [simp]: "get (ok items) ''status'' = ''ok''"
  by (simp add: ok_def get_def bt_get_insert)

lemma get_ok: "k \<noteq> ''status'' \<Longrightarrow>
    get (ok items) k = (case map_of (rev items) k of Some v \<Rightarrow> v | None \<Rightarrow> [])"
  by (simp add: ok_def get_def bt_get_insert bt_get_kv_of)

lemma ok_neq_err [simp]: "ok items \<noteq> err d"
proof
  assume "ok items = err d"
  then have "get (ok items) ''status'' = get (err d) ''status''" by (rule arg_cong)
  then show False by simp
qed

lemmas err_neq_ok [simp] = ok_neq_err [symmetric]

text \<open>
  C31. Round trip of the control protocol: whatever encodable map the daemon or a client sends as
  a line, the reader reconstructs exactly that map.
\<close>

theorem decode_encode:
  assumes "encodable m"
  shows "decode (encode m) = m"
proof -
  let ?body = "join '';'' (map encode_pair m)"
  have plain: "list_all (\<lambda>(k, v). plain_key k \<and> plain_value v) m" and wf: "bt_wf m"
    using assms by (auto simp: encodable_def)
  have trim: "trim_end (encode m) = ?body"
    using assms by (simp add: encode_def trim_end_newline trim_end_id encodable_def)
  show ?thesis
  proof (cases m)
    case Nil
    then show ?thesis using trim_end_newline [of "[]"] by (simp add: encode_def decode_def decode_part_def)
  next
    case (Cons x xs)
    have free: "\<forall>w \<in> set (map encode_pair m). CHR '';'' \<notin> set w"
      using plain by (fastforce simp: list_all_iff encode_pair_plain)
    have "split_on (CHR '';'') ?body = map encode_pair m"
      by (rule split_on_join) (use free Cons in auto)
    then show ?thesis
      using fold_bt_insert_id [of "[]" m] wf by (simp add: decode_def trim decode_parts plain)
  qed
qed

theorem decode_encode_witness:
  "encodable [(''client_id'', ''7''), (''op'', ''MarkReady'')] \<and>
   decode (encode [(''client_id'', ''7''), (''op'', ''MarkReady'')]) =
     [(''client_id'', ''7''), (''op'', ''MarkReady'')]"
proof -
  have h: "encodable [(''client_id'', ''7''), (''op'', ''MarkReady'')]" by code_simp
  show ?thesis using h decode_encode [OF h] by simp
qed

text \<open>
  Sanitizing makes any text safe to carry: the sanitized value contains none of the bytes that
  delimit pairs, keys or lines, so it is a legal value whatever the backend's error text was.
\<close>

theorem sanitize_kv_value_safe:
  "CHR '';'' \<notin> set (sanitize_kv_value v) \<and> CHR ''='' \<notin> set (sanitize_kv_value v) \<and>
   newline \<notin> set (sanitize_kv_value v) \<and> length (sanitize_kv_value v) = length v"
  unfolding sanitize_kv_value_def
  by (intro conjI replace_char_notin replace_char_other) (simp_all add: replace_char_def)

text \<open>
  An identifier the daemon prints into a successful response is the identifier a client reads
  back out of it.
\<close>

theorem get_u64_ok_printed:
  "get_u64 (ok (items @ [(key, show_u64 n)])) key = (if key = ''status'' then 0 else n)"
proof (cases "key = ''status''")
  case True
  have "parse_u64 ''ok'' = None" by code_simp
  with True show ?thesis by (simp add: get_u64_def)
next
  case False
  then show ?thesis by (simp add: get_u64_def get_ok)
qed

lemma get_u64_singleton: "get_u64 [(k, show_u64 n)] k = n"
  by (simp add: get_u64_def get_def bt_get_def)

end
