(* ===== verification/Provider.thy ===== *)
theory Provider
  imports Wire
begin

text \<open>
  The provider contract of \<^verbatim>\<open>crates/uf-core/src/provider.rs\<close>: the operations a data provider
  accepts, the references and descriptors they exchange, completion snapshots with their
  validation, and the interface the simulated-object service relies on.

  Record fields carry a short prefix because several structs share field names. A
  \<^verbatim>\<open>BTreeSet\<close> of operation kinds is a list without repetitions; only membership is used.
\<close>

datatype ExecutionMode = EmPhysical | EmSimulated

fun execution_mode_str :: "ExecutionMode \<Rightarrow> string" where
  "execution_mode_str EmPhysical = ''physical''"
| "execution_mode_str EmSimulated = ''simulated''"

datatype ProviderKind = PkLocal | PkRemote | PkSimulator | PkMock

datatype Fidelity = FiPhysical | FiFunctional | FiSemantic

fun fidelity_str :: "Fidelity \<Rightarrow> string" where
  "fidelity_str FiPhysical = ''physical''"
| "fidelity_str FiFunctional = ''functional''"
| "fidelity_str FiSemantic = ''semantic''"

datatype Addressability = LocallyAddressable | ProviderOnly | RemoteMapping | BlockDescriptor

fun addressability_str :: "Addressability \<Rightarrow> string" where
  "addressability_str LocallyAddressable = ''locally_addressable''"
| "addressability_str ProviderOnly = ''provider_only''"
| "addressability_str RemoteMapping = ''remote_mapping''"
| "addressability_str BlockDescriptor = ''block_descriptor''"

datatype AccessKind = AkLocal | AkRemoteMap

datatype TransportKind = TkLocal | TkUbShmem | TkObmmGsva | TkFile

datatype ProviderHealth = HReady | HDegraded | HNotReady | HUnavailable

record ProviderIdentity =
  id_api_major :: u16
  id_api_minor :: u16
  id_provider_id :: string
  id_provider_kind :: ProviderKind
  id_adapter_revision :: string
  id_external_platform_revision :: string
  id_external_protocol_revision :: string
  id_execution_realm_id :: string
  id_node_id :: string
  id_session_id :: string
  id_boot_id :: string
  id_session_generation :: u64
  id_fidelity :: Fidelity
  id_limitations :: "string list"

datatype ProviderOperationKind =
  OpAllocate | OpRelease | OpPublish | OpImport | OpRevoke | OpChecksum | OpCopy | OpRead | OpWrite

fun operation_kind_str :: "ProviderOperationKind \<Rightarrow> string" where
  "operation_kind_str OpAllocate = ''allocate''"
| "operation_kind_str OpRelease = ''release''"
| "operation_kind_str OpPublish = ''publish''"
| "operation_kind_str OpImport = ''import''"
| "operation_kind_str OpRevoke = ''revoke''"
| "operation_kind_str OpChecksum = ''checksum''"
| "operation_kind_str OpCopy = ''copy''"
| "operation_kind_str OpRead = ''read''"
| "operation_kind_str OpWrite = ''write''"

record ProviderCapabilities =
  cap_supported_operations :: "ProviderOperationKind list"
  cap_max_transfer_bytes :: u64
  cap_alignment_bytes :: u64
  cap_queue_depth :: u32
  cap_addressability :: Addressability
  cap_limitations :: "string list"

definition supports :: "ProviderCapabilities \<Rightarrow> ProviderOperationKind \<Rightarrow> bool" where
  "supports caps k \<longleftrightarrow> List.member (cap_supported_operations caps) k"

record ProviderResourceRef =
  rr_provider_resource_id :: string
  rr_resource_generation :: u64
  rr_size_bytes :: u64
  rr_allowed_offset_bytes :: u64
  rr_allowed_bytes :: u64
  rr_addressability :: Addressability
  rr_opaque_token :: bytes

record ProviderDescriptor =
  pd_schema_major :: u16
  pd_schema_minor :: u16
  pd_provider_id :: string
  pd_provider_session_id :: string
  pd_resource_generation :: u64
  pd_allowed_offset_bytes :: u64
  pd_allowed_bytes :: u64
  pd_access_mode :: string
  pd_opaque_bytes :: bytes

record ProviderAccessRef =
  pa_accessor_provider_id :: string
  pa_accessor_provider_session_id :: string
  pa_accessor_resource_id :: string
  pa_access_generation :: u64
  pa_source_resource_generation :: u64
  pa_allowed_offset_bytes :: u64
  pa_allowed_bytes :: u64
  pa_access_mode :: string
  pa_addressability :: Addressability
  pa_opaque_token :: bytes

text \<open>
  The operations. The argument order is that of the source's fields: size, alignment, medium and
  node of an allocation; resource, offset, length and seed of a deterministic initialisation;
  resource, offset, length and mode of a publication; descriptor, accessor node, offset, length
  and mode of an import; the two resources, the two offsets and the length of a copy.
\<close>

datatype ProviderOperation =
  Allocate u64 u64 string string
| Release ProviderResourceRef
| InitializeDeterministic ProviderResourceRef u64 u64 u64
| Publish ProviderResourceRef u64 u64 string
| Import ProviderDescriptor string u64 u64 string
| Revoke ProviderAccessRef
| ChecksumResource ProviderResourceRef u64 u64
| ChecksumAccess ProviderAccessRef u64 u64
| Copy ProviderResourceRef ProviderResourceRef u64 u64 u64

fun operation_kind :: "ProviderOperation \<Rightarrow> ProviderOperationKind" where
  "operation_kind (Allocate _ _ _ _) = OpAllocate"
| "operation_kind (Release _) = OpRelease"
| "operation_kind (InitializeDeterministic _ _ _ _) = OpWrite"
| "operation_kind (Publish _ _ _ _) = OpPublish"
| "operation_kind (Import _ _ _ _ _) = OpImport"
| "operation_kind (Revoke _) = OpRevoke"
| "operation_kind (ChecksumResource _ _ _) = OpChecksum"
| "operation_kind (ChecksumAccess _ _ _) = OpChecksum"
| "operation_kind (Copy _ _ _ _ _) = OpCopy"

datatype ProviderCompletionState = CsSubmitted | CsRunning | CsComplete | CsFailed | CsCanceled

definition is_terminal :: "ProviderCompletionState \<Rightarrow> bool" where
  "is_terminal s \<longleftrightarrow> s = CsComplete \<or> s = CsFailed \<or> s = CsCanceled"

fun completion_state_str :: "ProviderCompletionState \<Rightarrow> string" where
  "completion_state_str CsSubmitted = ''submitted''"
| "completion_state_str CsRunning = ''running''"
| "completion_state_str CsComplete = ''complete''"
| "completion_state_str CsFailed = ''failed''"
| "completion_state_str CsCanceled = ''canceled''"

datatype ProviderErrorCode =
  ProviderUnavailable | ProviderNotReady | ProviderVersionMismatch | ProviderOperationUnsupported
| ProviderSessionRestarted | ProviderProtocolError | ProviderResourceNotFound
| ProviderResourceStale | HandleNotLocallyAddressable | DescriptorMalformed | AccessDenied
| RangeOutOfBounds | ChecksumMismatch | QueueFull | Timeout | CancelUnsupported
| CrossRealmTransferUnsupported | InternalProviderAdapterError

fun error_code_str :: "ProviderErrorCode \<Rightarrow> string" where
  "error_code_str ProviderUnavailable = ''ProviderUnavailable''"
| "error_code_str ProviderNotReady = ''ProviderNotReady''"
| "error_code_str ProviderVersionMismatch = ''ProviderVersionMismatch''"
| "error_code_str ProviderOperationUnsupported = ''ProviderOperationUnsupported''"
| "error_code_str ProviderSessionRestarted = ''ProviderSessionRestarted''"
| "error_code_str ProviderProtocolError = ''ProviderProtocolError''"
| "error_code_str ProviderResourceNotFound = ''ProviderResourceNotFound''"
| "error_code_str ProviderResourceStale = ''ProviderResourceStale''"
| "error_code_str HandleNotLocallyAddressable = ''HandleNotLocallyAddressable''"
| "error_code_str DescriptorMalformed = ''DescriptorMalformed''"
| "error_code_str AccessDenied = ''AccessDenied''"
| "error_code_str RangeOutOfBounds = ''RangeOutOfBounds''"
| "error_code_str ChecksumMismatch = ''ChecksumMismatch''"
| "error_code_str QueueFull = ''QueueFull''"
| "error_code_str Timeout = ''Timeout''"
| "error_code_str CancelUnsupported = ''CancelUnsupported''"
| "error_code_str CrossRealmTransferUnsupported = ''CrossRealmTransferUnsupported''"
| "error_code_str InternalProviderAdapterError = ''InternalProviderAdapterError''"

record ProviderError =
  pe_code :: ProviderErrorCode
  pe_detail :: string
  pe_external_code :: "int option"

definition provider_error_new :: "ProviderErrorCode \<Rightarrow> string \<Rightarrow> ProviderError" where
  "provider_error_new c d = \<lparr> pe_code = c, pe_detail = d, pe_external_code = None \<rparr>"

datatype ProviderCompletionResult =
  RUnit
| RResource ProviderResourceRef
| RDescriptor ProviderDescriptor
| RAccess ProviderAccessRef
| RChecksum string u64
| RBytes u64

record ProviderSubmission =
  su_provider_completion_id :: string
  su_initial_state :: ProviderCompletionState

record ProviderCompletionSnapshot =
  sn_provider_completion_id :: string
  sn_state :: ProviderCompletionState
  sn_result :: "ProviderCompletionResult option"
  sn_error :: "ProviderError option"

definition validate_snapshot :: "ProviderCompletionSnapshot \<Rightarrow> ProviderError + unit" where
  "validate_snapshot s =
     (if \<not> is_terminal (sn_state s) \<and> (sn_result s \<noteq> None \<or> sn_error s \<noteq> None)
      then Inl (provider_error_new ProviderProtocolError
             ''non-terminal completion carries a terminal result'')
      else if sn_state s = CsComplete \<and> (sn_result s = None \<or> sn_error s \<noteq> None)
      then Inl (provider_error_new ProviderProtocolError
             ''complete completion must carry exactly one result'')
      else if sn_state s = CsFailed \<and> (sn_error s = None \<or> sn_result s \<noteq> None)
      then Inl (provider_error_new ProviderProtocolError
             ''failed completion must carry exactly one error'')
      else if sn_state s = CsCanceled \<and> sn_result s \<noteq> None
      then Inl (provider_error_new ProviderProtocolError
             ''canceled completion cannot carry a result'')
      else Inr ())"

section \<open>Laws\<close>

lemma operation_kind_str_inj: "operation_kind_str a = operation_kind_str b \<longleftrightarrow> a = b"
  by (cases a; cases b) simp_all

text \<open>
  What validation guarantees: a snapshot that passes carries a result exactly when it is complete,
  and a failed one carries an error, so a client that looks at the two options cannot be misled
  about the outcome.
\<close>

lemma validate_snapshot_iff:
  "validate_snapshot s = Inr () \<longleftrightarrow>
     (case sn_state s of
        CsComplete \<Rightarrow> sn_result s \<noteq> None \<and> sn_error s = None
      | CsFailed \<Rightarrow> sn_result s = None \<and> sn_error s \<noteq> None
      | CsCanceled \<Rightarrow> sn_result s = None
      | _ \<Rightarrow> sn_result s = None \<and> sn_error s = None)"
  by (auto simp: validate_snapshot_def is_terminal_def split: ProviderCompletionState.split)

section \<open>The interface of a data provider\<close>

text \<open>
  What the simulated-object service relies on when it submits an operation and waits for it:
  waiting on a submission that was accepted returns a snapshot for that submission that passes
  validation and is terminal, and waiting does not change the provider.
\<close>

locale data_provider =
  fixes submit :: "'p \<Rightarrow> ProviderOperation \<Rightarrow> ((ProviderError + ProviderSubmission) \<times> 'p) option"
    and wait :: "'p \<Rightarrow> string \<Rightarrow> ProviderError + ProviderCompletionSnapshot"
    and good :: "'p \<Rightarrow> bool"
    and ready :: "'p \<Rightarrow> bool"
  assumes submit_returns: "good p \<Longrightarrow> ready p \<Longrightarrow> submit p op \<noteq> None"
    and submit_good: "good p \<Longrightarrow> ready p \<Longrightarrow> submit p op = Some (r, p') \<Longrightarrow> good p'"
    and wait_submitted: "good p \<Longrightarrow> ready p \<Longrightarrow> submit p op = Some (Inr s, p') \<Longrightarrow>
          \<exists>sn. wait p' (su_provider_completion_id s) = Inr sn \<and>
               validate_snapshot sn = Inr () \<and> is_terminal (sn_state sn)"
begin

text \<open>An accepted operation has an outcome: exactly one of a result and an error.\<close>

lemma accepted_has_outcome:
  assumes "good p" and "ready p" and "submit p op = Some (Inr s, p')"
  shows "\<exists>sn. wait p' (su_provider_completion_id s) = Inr sn \<and>
              (sn_state sn = CsComplete \<longleftrightarrow> sn_result sn \<noteq> None)"
proof -
  from wait_submitted [OF assms] obtain sn where
    "wait p' (su_provider_completion_id s) = Inr sn" "validate_snapshot sn = Inr ()"
    "is_terminal (sn_state sn)" by blast
  then show ?thesis
    by (intro exI [of _ sn]) (auto simp: validate_snapshot_iff split: ProviderCompletionState.splits)
qed

end

end
