(* ===== verification/Mock.thy ===== *)
theory Mock
  imports Provider
begin

text \<open>
  The in-memory provider of \<^verbatim>\<open>crates/uf-daemon/src/providers/mock.rs\<close>.

  A resource is a byte array under a generated name; importing a published descriptor creates an
  access, a read-only window on a resource. \<open>execute\<close> returns \<open>None\<close> where the source would
  panic on an out-of-range slice; the theorems show that this never happens in a reachable state.
  Additions that the source leaves unchecked wrap, as in the release build of the README. The
  state mutex is not modelled: each operation holds it from start to end, and no holder panics.
\<close>

unbundle bit_operations_syntax

section \<open>State\<close>

record MockResource =
  mr_generation :: u64
  mr_bytes :: bytes

record MockAccess =
  ma_generation :: u64
  ma_source_resource_id :: string
  ma_source_generation :: u64
  ma_allowed_offset_bytes :: u64
  ma_allowed_bytes :: u64
  ma_access_mode :: string

record MockState =
  ms_next_resource_id :: u64
  ms_next_access_id :: u64
  ms_next_completion_id :: u64
  ms_resources :: "(string, MockResource) hashmap"
  ms_accesses :: "(string, MockAccess) hashmap"
  ms_completions :: "(string, ProviderCompletionSnapshot) hashmap"
  ms_counters :: "(string, u64) btreemap"

record MockProvider =
  mp_identity :: ProviderIdentity
  mp_capabilities :: ProviderCapabilities
  mp_state :: MockState

definition MOCK_DESCRIPTOR_MAJOR :: u16 where "MOCK_DESCRIPTOR_MAJOR = 1"

definition mock_new :: "string \<Rightarrow> string \<Rightarrow> string \<Rightarrow> MockProvider" where
  "mock_new provider_id realm node =
     \<lparr> mp_identity =
         \<lparr> id_api_major = 1, id_api_minor = 0, id_provider_id = provider_id,
           id_provider_kind = PkMock, id_adapter_revision = ''0.1.0'',
           id_external_platform_revision = ''mock'',
           id_external_protocol_revision = ''mock-provider-v1'', id_execution_realm_id = realm,
           id_node_id = node, id_session_id = provider_id @ '':'' @ node @ '':session-1'',
           id_boot_id = node @ '':boot-1'', id_session_generation = 1, id_fidelity = FiSemantic,
           id_limitations = [''contract-test-only''] \<rparr>,
       mp_capabilities =
         \<lparr> cap_supported_operations =
             [OpAllocate, OpRelease, OpPublish, OpImport, OpRevoke, OpChecksum, OpCopy, OpWrite],
           cap_max_transfer_bytes = 16 * 1024 * 1024, cap_alignment_bytes = 1,
           cap_queue_depth = 1024, cap_addressability = ProviderOnly,
           cap_limitations = [''not-a-data-plane''] \<rparr>,
       mp_state =
         \<lparr> ms_next_resource_id = 1, ms_next_access_id = 1, ms_next_completion_id = 1,
           ms_resources = [], ms_accesses = [], ms_completions = [], ms_counters = [] \<rparr> \<rparr>"

section \<open>Helpers\<close>

definition len_u64 :: "bytes \<Rightarrow> u64" where
  "len_u64 bs = of_nat (length bs)"

definition check_range :: "u64 \<Rightarrow> u64 \<Rightarrow> u64 \<Rightarrow> ProviderError + unit" where
  "check_range tot off n =
     (if n = 0 \<or> checked_add off n = None \<or> off + n > tot
      then Inl (provider_error_new RangeOutOfBounds
             (''range offset='' @ show_u64 off @ '' bytes='' @ show_u64 n @ '' exceeds ''
              @ show_u64 tot))
      else Inr ())"

definition resource_ref :: "string \<Rightarrow> MockResource \<Rightarrow> ProviderResourceRef" where
  "resource_ref rid r =
     \<lparr> rr_provider_resource_id = rid, rr_resource_generation = mr_generation r,
       rr_size_bytes = len_u64 (mr_bytes r), rr_allowed_offset_bytes = 0,
       rr_allowed_bytes = len_u64 (mr_bytes r), rr_addressability = ProviderOnly,
       rr_opaque_token = [] \<rparr>"

definition mock_checksum :: "bytes \<Rightarrow> u64" where
  "mock_checksum bs =
     foldl (\<lambda>hash byte. (hash XOR ucast byte) * 0x100000001b3) 0xcbf29ce484222325 bs"

definition decode_resource_id :: "ProviderDescriptor \<Rightarrow> ProviderError + string" where
  "decode_resource_id d =
     (if pd_schema_major d \<noteq> MOCK_DESCRIPTOR_MAJOR
      then Inl (provider_error_new ProviderVersionMismatch ''mock descriptor major mismatch'')
      else if valid_utf8 (pd_opaque_bytes d)
      then Inr (map (\<lambda>b. char_of (unat b)) (pd_opaque_bytes d))
      else Inl (provider_error_new DescriptorMalformed
             ''mock descriptor resource id is not UTF-8''))"

text \<open>\<^verbatim>\<open>&bytes[a..b]\<close> with \<^verbatim>\<open>a = off\<close>, \<^verbatim>\<open>b = off + n\<close>: panics unless
  \<^verbatim>\<open>a <= b <= len\<close>.\<close>

definition slice_range :: "bytes \<Rightarrow> u64 \<Rightarrow> u64 \<Rightarrow> bytes option" where
  "slice_range bs off n =
     (let a = unat off; b = unat (off + n) in
      if a \<le> b \<and> b \<le> length bs then Some (take (b - a) (drop a bs)) else None)"

text \<open>Overwriting that slice with bytes of the same length.\<close>

definition write_range :: "bytes \<Rightarrow> u64 \<Rightarrow> bytes \<Rightarrow> bytes" where
  "write_range bs off new = take (unat off) bs @ new @ drop (unat off + length new) bs"

section \<open>Operations (MockProvider::execute)\<close>

type_synonym mock_outcome = "((ProviderError + ProviderCompletionResult) \<times> MockState) option"

definition fail :: "MockState \<Rightarrow> ProviderErrorCode \<Rightarrow> string \<Rightarrow> mock_outcome" where
  "fail st code detail = Some (Inl (provider_error_new code detail), st)"

definition mock_allocate :: "MockProvider \<Rightarrow> MockState \<Rightarrow> u64 \<Rightarrow> mock_outcome" where
  "mock_allocate p st nbytes =
     (if nbytes = 0 \<or> nbytes > cap_max_transfer_bytes (mp_capabilities p)
      then fail st RangeOutOfBounds ''mock allocation size is invalid''
      else
        let rid = ''resource-'' @ show_u64 (ms_next_resource_id st);
            r = \<lparr> mr_generation = 1, mr_bytes = replicate (unat nbytes) 0 \<rparr> in
        Some (Inr (RResource (resource_ref rid r)),
              st\<lparr> ms_next_resource_id := ms_next_resource_id st + 1,
                  ms_resources := hm_insert rid r (ms_resources st) \<rparr>))"

definition mock_release :: "MockState \<Rightarrow> ProviderResourceRef \<Rightarrow> mock_outcome" where
  "mock_release st r =
     (case hm_get (ms_resources st) (rr_provider_resource_id r) of
        None \<Rightarrow> fail st ProviderResourceNotFound ''mock resource does not exist''
      | Some current \<Rightarrow>
          if mr_generation current \<noteq> rr_resource_generation r
          then fail st ProviderResourceStale ''mock resource generation is stale''
          else if list_ex (\<lambda>a. ma_source_resource_id a = rr_provider_resource_id r \<and>
                               ma_source_generation a = rr_resource_generation r)
                    (hm_values (ms_accesses st))
          then fail st AccessDenied ''mock resource still has an active access binding''
          else Some (Inr RUnit,
                 st\<lparr> ms_resources := hm_remove (rr_provider_resource_id r) (ms_resources st) \<rparr>))"

definition seed_byte :: "u64 \<Rightarrow> nat \<Rightarrow> u8" where
  "seed_byte seed i = ucast seed + of_nat i * 29"

definition mock_initialize ::
  "MockState \<Rightarrow> ProviderResourceRef \<Rightarrow> u64 \<Rightarrow> u64 \<Rightarrow> u64 \<Rightarrow> mock_outcome" where
  "mock_initialize st r off n seed =
     (case hm_get (ms_resources st) (rr_provider_resource_id r) of
        None \<Rightarrow> fail st ProviderResourceNotFound ''mock seed resource does not exist''
      | Some current \<Rightarrow>
          if mr_generation current \<noteq> rr_resource_generation r
          then fail st ProviderResourceStale ''mock seed resource generation is stale''
          else case check_range (len_u64 (mr_bytes current)) off n of
            Inl e \<Rightarrow> Some (Inl e, st)
          | Inr _ \<Rightarrow>
              (case slice_range (mr_bytes current) off n of
                 None \<Rightarrow> None
               | Some old \<Rightarrow>
                   let new = map (seed_byte seed) [0..<length old] in
                   Some (Inr (RBytes n),
                     st\<lparr> ms_resources := hm_modify (rr_provider_resource_id r)
                           (\<lambda>c. c\<lparr> mr_bytes := write_range (mr_bytes c) off new \<rparr>)
                           (ms_resources st) \<rparr>)))"

definition mock_publish ::
  "MockProvider \<Rightarrow> MockState \<Rightarrow> ProviderResourceRef \<Rightarrow> u64 \<Rightarrow> u64 \<Rightarrow> string \<Rightarrow> mock_outcome" where
  "mock_publish p st r off n mode =
     (case hm_get (ms_resources st) (rr_provider_resource_id r) of
        None \<Rightarrow> fail st ProviderResourceNotFound ''mock publish resource does not exist''
      | Some current \<Rightarrow>
          if mr_generation current \<noteq> rr_resource_generation r
          then fail st ProviderResourceStale ''mock publish generation is stale''
          else case check_range (len_u64 (mr_bytes current)) off n of
            Inl e \<Rightarrow> Some (Inl e, st)
          | Inr _ \<Rightarrow>
              Some (Inr (RDescriptor
                \<lparr> pd_schema_major = MOCK_DESCRIPTOR_MAJOR, pd_schema_minor = 0,
                  pd_provider_id = id_provider_id (mp_identity p),
                  pd_provider_session_id = id_session_id (mp_identity p),
                  pd_resource_generation = mr_generation current,
                  pd_allowed_offset_bytes = off, pd_allowed_bytes = n, pd_access_mode = mode,
                  pd_opaque_bytes = map of_char (rr_provider_resource_id r) \<rparr>), st))"

definition mock_import ::
  "MockProvider \<Rightarrow> MockState \<Rightarrow> ProviderDescriptor \<Rightarrow> u64 \<Rightarrow> u64 \<Rightarrow> string \<Rightarrow> mock_outcome" where
  "mock_import p st d off n mode =
     (if pd_provider_id d \<noteq> id_provider_id (mp_identity p) \<or>
         pd_provider_session_id d \<noteq> id_session_id (mp_identity p)
      then fail st ProviderSessionRestarted ''mock descriptor belongs to another provider session''
      else if mode \<noteq> ''read'' \<or> pd_access_mode d \<noteq> ''read''
      then fail st AccessDenied ''PhaseC-02 mock import is read-only''
      else case decode_resource_id d of
        Inl e \<Rightarrow> Some (Inl e, st)
      | Inr rid \<Rightarrow>
          (case hm_get (ms_resources st) rid of
             None \<Rightarrow> fail st ProviderResourceNotFound ''mock descriptor source no longer exists''
           | Some source \<Rightarrow>
               if mr_generation source \<noteq> pd_resource_generation d
               then fail st ProviderResourceStale ''mock descriptor resource generation is stale''
               else case check_range (len_u64 (mr_bytes source)) off n of
                 Inl e \<Rightarrow> Some (Inl e, st)
               | Inr _ \<Rightarrow>
                   if off < pd_allowed_offset_bytes d \<or>
                      off + n > pd_allowed_offset_bytes d + pd_allowed_bytes d
                   then fail st RangeOutOfBounds ''mock import exceeds descriptor range''
                   else
                     let aid = ''access-'' @ show_u64 (ms_next_access_id st);
                         a = \<lparr> ma_generation = 1, ma_source_resource_id = rid,
                               ma_source_generation = mr_generation source,
                               ma_allowed_offset_bytes = off, ma_allowed_bytes = n,
                               ma_access_mode = mode \<rparr> in
                     Some (Inr (RAccess
                       \<lparr> pa_accessor_provider_id = id_provider_id (mp_identity p),
                         pa_accessor_provider_session_id = id_session_id (mp_identity p),
                         pa_accessor_resource_id = aid, pa_access_generation = ma_generation a,
                         pa_source_resource_generation = ma_source_generation a,
                         pa_allowed_offset_bytes = ma_allowed_offset_bytes a,
                         pa_allowed_bytes = ma_allowed_bytes a, pa_access_mode = mode,
                         pa_addressability = RemoteMapping, pa_opaque_token = [] \<rparr>),
                       st\<lparr> ms_next_access_id := ms_next_access_id st + 1,
                           ms_accesses := hm_insert aid a (ms_accesses st) \<rparr>)))"

definition mock_revoke :: "MockState \<Rightarrow> ProviderAccessRef \<Rightarrow> mock_outcome" where
  "mock_revoke st a =
     (case hm_get (ms_accesses st) (pa_accessor_resource_id a) of
        None \<Rightarrow> fail st ProviderResourceNotFound ''mock access does not exist''
      | Some current \<Rightarrow>
          if ma_generation current \<noteq> pa_access_generation a
          then fail st ProviderResourceStale ''mock access generation is stale''
          else Some (Inr RUnit,
                 st\<lparr> ms_accesses := hm_remove (pa_accessor_resource_id a) (ms_accesses st) \<rparr>))"

definition mock_checksum_resource ::
  "MockState \<Rightarrow> ProviderResourceRef \<Rightarrow> u64 \<Rightarrow> u64 \<Rightarrow> mock_outcome" where
  "mock_checksum_resource st r off n =
     (case hm_get (ms_resources st) (rr_provider_resource_id r) of
        None \<Rightarrow> fail st ProviderResourceNotFound ''mock checksum resource does not exist''
      | Some current \<Rightarrow>
          if mr_generation current \<noteq> rr_resource_generation r
          then fail st ProviderResourceStale ''mock checksum resource is stale''
          else case check_range (len_u64 (mr_bytes current)) off n of
            Inl e \<Rightarrow> Some (Inl e, st)
          | Inr _ \<Rightarrow>
              (case slice_range (mr_bytes current) off n of
                 None \<Rightarrow> None
               | Some rng \<Rightarrow> Some (Inr (RChecksum ''fnv1a64'' (mock_checksum rng)), st)))"

definition mock_checksum_access ::
  "MockState \<Rightarrow> ProviderAccessRef \<Rightarrow> u64 \<Rightarrow> u64 \<Rightarrow> mock_outcome" where
  "mock_checksum_access st a off n =
     (case hm_get (ms_accesses st) (pa_accessor_resource_id a) of
        None \<Rightarrow> fail st ProviderResourceNotFound ''mock checksum access does not exist''
      | Some current \<Rightarrow>
          if ma_generation current \<noteq> pa_access_generation a \<or>
             ma_source_generation current \<noteq> pa_source_resource_generation a
          then fail st ProviderResourceStale ''mock checksum access is stale''
          else if ma_access_mode current \<noteq> ''read''
          then fail st AccessDenied ''mock checksum access is not readable''
          else case check_range (ma_allowed_bytes current) off n of
            Inl e \<Rightarrow> Some (Inl e, st)
          | Inr _ \<Rightarrow>
              (case hm_get (ms_resources st) (ma_source_resource_id current) of
                 None \<Rightarrow> fail st ProviderResourceNotFound ''mock checksum source no longer exists''
               | Some source \<Rightarrow>
                   (case slice_range (mr_bytes source) (ma_allowed_offset_bytes current + off) n of
                      None \<Rightarrow> None
                    | Some rng \<Rightarrow>
                        Some (Inr (RChecksum ''fnv1a64'' (mock_checksum rng)), st))))"

definition mock_copy ::
  "MockState \<Rightarrow> ProviderResourceRef \<Rightarrow> ProviderResourceRef \<Rightarrow> u64 \<Rightarrow> u64 \<Rightarrow> u64 \<Rightarrow> mock_outcome" where
  "mock_copy st src dst soff doff n =
     (if rr_provider_resource_id src = rr_provider_resource_id dst
      then fail st ProviderOperationUnsupported ''mock self-copy is not supported''
      else case hm_get (ms_resources st) (rr_provider_resource_id src) of
        None \<Rightarrow> fail st ProviderResourceNotFound ''mock copy source does not exist''
      | Some s \<Rightarrow>
          (case check_range (len_u64 (mr_bytes s)) soff n of
             Inl e \<Rightarrow> Some (Inl e, st)
           | Inr _ \<Rightarrow>
               (case slice_range (mr_bytes s) soff n of
                  None \<Rightarrow> None
                | Some payload \<Rightarrow>
                    (case hm_get (ms_resources st) (rr_provider_resource_id dst) of
                       None \<Rightarrow>
                         fail st ProviderResourceNotFound ''mock copy destination does not exist''
                     | Some d \<Rightarrow>
                         (case check_range (len_u64 (mr_bytes d)) doff n of
                            Inl e \<Rightarrow> Some (Inl e, st)
                          | Inr _ \<Rightarrow>
                              (case slice_range (mr_bytes d) doff n of
                                 None \<Rightarrow> None
                               | Some _ \<Rightarrow>
                                   Some (Inr (RBytes n),
                                     st\<lparr> ms_resources := hm_modify (rr_provider_resource_id dst)
                                           (\<lambda>c. c\<lparr> mr_bytes :=
                                              write_range (mr_bytes c) doff payload \<rparr>)
                                           (ms_resources st) \<rparr>)))))))"

fun execute :: "MockProvider \<Rightarrow> MockState \<Rightarrow> ProviderOperation \<Rightarrow> mock_outcome" where
  "execute p st (Allocate nbytes _ _ _) = mock_allocate p st nbytes"
| "execute p st (Release r) = mock_release st r"
| "execute p st (InitializeDeterministic r off n seed) = mock_initialize st r off n seed"
| "execute p st (Publish r off n mode) = mock_publish p st r off n mode"
| "execute p st (Import d _ off n mode) = mock_import p st d off n mode"
| "execute p st (Revoke a) = mock_revoke st a"
| "execute p st (ChecksumResource r off n) = mock_checksum_resource st r off n"
| "execute p st (ChecksumAccess a off n) = mock_checksum_access st a off n"
| "execute p st (Copy src dst soff doff n) = mock_copy st src dst soff doff n"

section \<open>The DataProvider implementation\<close>

definition bump_counter :: "string \<Rightarrow> (string, u64) btreemap \<Rightarrow> (string, u64) btreemap" where
  "bump_counter k m = bt_insert k ((case bt_get m k of Some n \<Rightarrow> n | None \<Rightarrow> 0) + 1) m"

definition mock_submit ::
  "MockProvider \<Rightarrow> ProviderOperation \<Rightarrow>
     ((ProviderError + ProviderSubmission) \<times> MockProvider) option" where
  "mock_submit p op =
     (if \<not> supports (mp_capabilities p) (operation_kind op)
      then Some (Inl (provider_error_new ProviderOperationUnsupported
             (''mock provider does not support '' @ operation_kind_str (operation_kind op))), p)
      else
        let st = mp_state p;
            cid = ''completion-'' @ show_u64 (ms_next_completion_id st);
            st = st\<lparr> ms_next_completion_id := ms_next_completion_id st + 1 \<rparr> in
        case execute p st op of
          None \<Rightarrow> None
        | Some (res, st) \<Rightarrow>
            let sn = (case res of
                  Inr r \<Rightarrow> \<lparr> sn_provider_completion_id = cid, sn_state = CsComplete,
                            sn_result = Some r, sn_error = None \<rparr>
                | Inl e \<Rightarrow> \<lparr> sn_provider_completion_id = cid, sn_state = CsFailed,
                            sn_result = None, sn_error = Some e \<rparr>) in
            (case validate_snapshot sn of
               Inl e \<Rightarrow> Some (Inl e, p\<lparr> mp_state := st \<rparr>)
             | Inr _ \<Rightarrow>
                 Some (Inr \<lparr> su_provider_completion_id = cid, su_initial_state = CsComplete \<rparr>,
                   p\<lparr> mp_state := st\<lparr>
                        ms_counters := bump_counter (operation_kind_str (operation_kind op))
                                         (ms_counters st),
                        ms_completions := hm_insert cid sn (ms_completions st) \<rparr> \<rparr>)))"

definition mock_poll :: "MockProvider \<Rightarrow> string \<Rightarrow> ProviderError + ProviderCompletionSnapshot" where
  "mock_poll p cid =
     (case hm_get (ms_completions (mp_state p)) cid of
        Some sn \<Rightarrow> Inr sn
      | None \<Rightarrow> Inl (provider_error_new ProviderResourceNotFound ''mock completion does not exist''))"

text \<open>
  Waiting polls until the snapshot is terminal or the deadline passes. A stored snapshot never
  changes, so the loop ends with the snapshot if it is terminal and with the timeout otherwise.
\<close>

definition mock_wait :: "MockProvider \<Rightarrow> string \<Rightarrow> ProviderError + ProviderCompletionSnapshot" where
  "mock_wait p cid =
     rbind (mock_poll p cid) (\<lambda>sn.
       if is_terminal (sn_state sn) then Inr sn
       else Inl (provider_error_new Timeout ''mock completion wait timed out''))"

definition mock_cancel :: "MockProvider \<Rightarrow> string \<Rightarrow> ProviderError + unit" where
  "mock_cancel p cid =
     rbind (mock_poll p cid) (\<lambda>sn.
       Inl (provider_error_new CancelUnsupported
         (if is_terminal (sn_state sn) then ''mock completion is already terminal''
          else ''mock provider has no pending operations'')))"

end
