(* ===== verification/MockLaws.thy ===== *)
theory MockLaws
  imports Mock
begin

text \<open>
  What the in-memory provider guarantees: its invariant (every access is a readable window inside
  a live resource), that no operation can panic on a slice, that failed operations change nothing,
  the contents written by initialisation and copy, and the contract a client of the provider
  interface relies on.
\<close>

section \<open>Ranges and slices\<close>

lemma unat_len_u64: "length bs < 2 ^ 64 \<Longrightarrow> unat (len_u64 bs) = length bs"
  by (simp add: len_u64_def unat_of_nat)

lemma check_range_Inr_iff:
  "check_range tot off n = Inr u \<longleftrightarrow> n \<noteq> 0 \<and> unat off + unat n \<le> unat tot"
proof -
  have "unat tot < 2 ^ 64" by (rule unat_less_u64)
  then show ?thesis
    by (auto simp: check_range_def checked_add_def word_less_nat_alt not_less
        unat_word_ariths split: if_splits)
qed

lemma slice_range_ok:
  assumes "unat off + unat n \<le> length bs" and "length bs < 2 ^ 64"
  shows "slice_range bs off n = Some (take (unat n) (drop (unat off) bs))"
proof -
  have "unat (off + n) = unat off + unat n" using assms by (intro unat_add_u64) simp
  with assms show ?thesis by (simp add: slice_range_def)
qed

lemma check_range_slice:
  assumes "check_range (len_u64 bs) off n = Inr u" and "length bs < 2 ^ 64"
  shows "unat off + unat n \<le> length bs"
    and "slice_range bs off n = Some (take (unat n) (drop (unat off) bs))"
  using assms slice_range_ok [of off n bs]
  by (simp_all add: check_range_Inr_iff unat_len_u64)

lemma length_write_range:
  "unat off + length new \<le> length bs \<Longrightarrow> length (write_range bs off new) = length bs"
  by (simp add: write_range_def)

lemma nth_write_range:
  assumes "unat off + length new \<le> length bs" and "i < length bs"
  shows "write_range bs off new ! i =
     (if unat off \<le> i \<and> i < unat off + length new then new ! (i - unat off) else bs ! i)"
  using assms by (auto simp: write_range_def nth_append min_def)

section \<open>Invariant\<close>

definition resource_ok :: "MockResource \<Rightarrow> bool" where
  "resource_ok r \<longleftrightarrow> mr_generation r = 1 \<and> length (mr_bytes r) \<le> 16777216"

definition access_ok :: "(string, MockResource) hashmap \<Rightarrow> MockAccess \<Rightarrow> bool" where
  "access_ok res a \<longleftrightarrow>
     (\<exists>r. hm_get res (ma_source_resource_id a) = Some r \<and>
          mr_generation r = ma_source_generation a \<and>
          unat (ma_allowed_offset_bytes a) + unat (ma_allowed_bytes a) \<le> length (mr_bytes r)) \<and>
     ma_access_mode a = ''read''"

definition resource_name :: "u64 \<Rightarrow> string" where
  "resource_name i = ''resource-'' @ show_u64 i"

definition access_name :: "u64 \<Rightarrow> string" where
  "access_name i = ''access-'' @ show_u64 i"

definition names_below :: "(u64 \<Rightarrow> string) \<Rightarrow> u64 \<Rightarrow> (string, 'v) hashmap \<Rightarrow> bool" where
  "names_below nm bound m \<longleftrightarrow> (\<forall>k. hm_get m k \<noteq> None \<longrightarrow> (\<exists>i. i < bound \<and> k = nm i))"

definition data_inv :: "MockState \<Rightarrow> bool" where
  "data_inv st \<longleftrightarrow>
     hm_wf (ms_resources st) \<and> hm_wf (ms_accesses st) \<and>
     names_below resource_name (ms_next_resource_id st) (ms_resources st) \<and>
     names_below access_name (ms_next_access_id st) (ms_accesses st) \<and>
     (\<forall>k r. hm_get (ms_resources st) k = Some r \<longrightarrow> resource_ok r) \<and>
     (\<forall>k a. hm_get (ms_accesses st) k = Some a \<longrightarrow> access_ok (ms_resources st) a)"

definition completions_ok :: "MockState \<Rightarrow> bool" where
  "completions_ok st \<longleftrightarrow>
     (\<forall>k sn. hm_get (ms_completions st) k = Some sn \<longrightarrow>
        validate_snapshot sn = Inr () \<and> is_terminal (sn_state sn))"

definition mock_good :: "MockProvider \<Rightarrow> bool" where
  "mock_good p \<longleftrightarrow>
     cap_max_transfer_bytes (mp_capabilities p) = 16777216 \<and>
     data_inv (mp_state p) \<and> completions_ok (mp_state p)"

text \<open>No identifier counter is exhausted.\<close>

definition mock_ready :: "MockProvider \<Rightarrow> bool" where
  "mock_ready p \<longleftrightarrow>
     ms_next_resource_id (mp_state p) \<noteq> u64_max \<and> ms_next_access_id (mp_state p) \<noteq> u64_max"

lemma resource_ok_length: "resource_ok r \<Longrightarrow> length (mr_bytes r) < 2 ^ 64"
  by (simp add: resource_ok_def)

lemma data_inv_resource:
  "data_inv st \<Longrightarrow> hm_get (ms_resources st) k = Some r \<Longrightarrow> resource_ok r"
  by (simp add: data_inv_def)

lemma data_inv_access:
  "data_inv st \<Longrightarrow> hm_get (ms_accesses st) k = Some a \<Longrightarrow> access_ok (ms_resources st) a"
  by (simp add: data_inv_def)

lemmas resource_slice =
  check_range_slice [OF _ resource_ok_length] data_inv_resource

lemma access_window:
  assumes "access_ok res a" and "hm_get res (ma_source_resource_id a) = Some r"
    and "resource_ok r" and "check_range (ma_allowed_bytes a) off n = Inr u"
  shows "unat (ma_allowed_offset_bytes a + off) = unat (ma_allowed_offset_bytes a) + unat off"
    and "slice_range (mr_bytes r) (ma_allowed_offset_bytes a + off) n =
      Some (take (unat n) (drop (unat (ma_allowed_offset_bytes a) + unat off) (mr_bytes r)))"
proof -
  have len: "length (mr_bytes r) < 2 ^ 64" by (rule resource_ok_length) fact
  have win: "unat (ma_allowed_offset_bytes a) + unat (ma_allowed_bytes a) \<le> length (mr_bytes r)"
    using assms(1,2) by (auto simp: access_ok_def)
  have rng: "unat off + unat n \<le> unat (ma_allowed_bytes a)"
    using assms(4) by (simp add: check_range_Inr_iff)
  show eq: "unat (ma_allowed_offset_bytes a + off) = unat (ma_allowed_offset_bytes a) + unat off"
    using len win rng by (intro unat_add_u64) simp
  show "slice_range (mr_bytes r) (ma_allowed_offset_bytes a + off) n =
      Some (take (unat n) (drop (unat (ma_allowed_offset_bytes a) + unat off) (mr_bytes r)))"
    using slice_range_ok [of "ma_allowed_offset_bytes a + off" n "mr_bytes r"] eq len win rng
    by simp
qed

section \<open>No operation panics, failures change nothing\<close>

lemmas mock_defs =
  mock_allocate_def mock_release_def mock_initialize_def mock_publish_def mock_import_def
  mock_revoke_def mock_checksum_resource_def mock_checksum_access_def mock_copy_def fail_def

lemma execute_returns:
  assumes "data_inv st"
  shows "execute p st op \<noteq> None"
proof (cases op)
  case (InitializeDeterministic r off n seed)
  then show ?thesis
    using assms by (auto simp: mock_initialize_def fail_def Let_def resource_slice
        split: option.split sum.split)
next
  case (ChecksumResource r off n)
  then show ?thesis
    using assms by (auto simp: mock_checksum_resource_def fail_def resource_slice
        split: option.split sum.split)
next
  case (ChecksumAccess a off n)
  then show ?thesis
    using assms
    by (auto simp: mock_checksum_access_def fail_def
        access_window(2) [OF data_inv_access _ data_inv_resource]
        split: option.split sum.split)
next
  case (Copy src dst soff doff n)
  then show ?thesis
    using assms by (auto simp: mock_copy_def fail_def resource_slice
        split: option.split sum.split)
qed (auto simp: mock_defs Let_def split: option.split sum.split)

lemma execute_error_frame: "execute p st op = Some (Inl e, st') \<Longrightarrow> st' = st"
  by (cases op)
    (auto simp: mock_defs Let_def split: option.splits sum.splits if_splits)

section \<open>Every operation keeps the invariant\<close>

lemma resource_name_inj: "resource_name i = resource_name j \<longleftrightarrow> i = j"
  by (simp add: resource_name_def show_u64_inject)

lemma access_name_inj: "access_name i = access_name j \<longleftrightarrow> i = j"
  by (simp add: access_name_def show_u64_inject)

lemma names_below_insert:
  assumes "names_below nm b m" and "b \<noteq> u64_max"
  shows "names_below nm (b + 1) (hm_insert (nm b) v m)"
proof -
  have "b < b + 1" using assms(2) by (simp add: word_less_nat_alt unat_inc_u64)
  with assms(1) show ?thesis
    by (auto simp: names_below_def hm_laws split: if_splits intro: order.strict_trans)
qed

lemma names_below_fresh:
  assumes "names_below nm b m" and "\<And>i j. nm i = nm j \<longleftrightarrow> i = j"
  shows "hm_get m (nm b) = None"
  using assms by (force simp: names_below_def)

lemma names_below_remove: "names_below nm b m \<Longrightarrow> names_below nm b (hm_remove k m)"
  by (auto simp: names_below_def hm_laws split: if_splits)

lemma names_below_modify: "names_below nm b m \<Longrightarrow> names_below nm b (hm_modify k f m)"
  by (auto simp: names_below_def hm_laws split: if_splits)

text \<open>Accesses survive a change of the resources that keeps generations and lengths.\<close>

lemma access_ok_mono:
  assumes "access_ok res a"
    and "\<And>r. hm_get res (ma_source_resource_id a) = Some r \<Longrightarrow>
       \<exists>r'. hm_get res' (ma_source_resource_id a) = Some r' \<and>
            mr_generation r' = mr_generation r \<and> length (mr_bytes r') = length (mr_bytes r)"
  shows "access_ok res' a"
  using assms unfolding access_ok_def by metis

lemma data_inv_write:
  assumes inv: "data_inv st" and get: "hm_get (ms_resources st) k = Some r"
    and fit: "unat off + length new \<le> length (mr_bytes r)"
  shows "data_inv (st\<lparr> ms_resources := hm_modify k
            (\<lambda>c. c\<lparr> mr_bytes := write_range (mr_bytes c) off new \<rparr>) (ms_resources st) \<rparr>)"
    (is "data_inv (st\<lparr> ms_resources := ?res \<rparr>)")
proof -
  have keep: "access_ok ?res a" if "access_ok (ms_resources st) a" for a
    using that by (rule access_ok_mono) (use get fit in \<open>auto simp: hm_laws length_write_range\<close>)
  show ?thesis
    using inv get fit keep
    by (auto simp: data_inv_def hm_laws names_below_modify resource_ok_def length_write_range
        split: if_splits)
qed

lemma data_inv_allocate:
  assumes inv: "data_inv st" and "ms_next_resource_id st \<noteq> u64_max"
    and r: "resource_ok r"
  shows "data_inv (st\<lparr> ms_next_resource_id := ms_next_resource_id st + 1,
           ms_resources := hm_insert (resource_name (ms_next_resource_id st)) r (ms_resources st) \<rparr>)"
    (is "data_inv (st\<lparr> ms_next_resource_id := _, ms_resources := ?res \<rparr>)")
proof -
  have fresh: "hm_get (ms_resources st) (resource_name (ms_next_resource_id st)) = None"
    using inv by (auto simp: data_inv_def intro: names_below_fresh [OF _ resource_name_inj])
  have keep: "access_ok ?res a" if "access_ok (ms_resources st) a" for a
    using that by (rule access_ok_mono) (use fresh in \<open>auto simp: hm_laws\<close>)
  show ?thesis
    using assms keep
    by (auto simp: data_inv_def names_below_insert hm_get_insert split: if_splits)
qed

lemma data_inv_release:
  assumes inv: "data_inv st" and get: "hm_get (ms_resources st) k = Some r"
    and free: "\<not> list_ex (\<lambda>a. ma_source_resource_id a = k \<and> ma_source_generation a = mr_generation r)
                 (hm_values (ms_accesses st))"
  shows "data_inv (st\<lparr> ms_resources := hm_remove k (ms_resources st) \<rparr>)"
proof -
  have keep: "access_ok (hm_remove k (ms_resources st)) a" if "hm_get (ms_accesses st) i = Some a" for i a
  proof -
    have "access_ok (ms_resources st) a" using inv that by (rule data_inv_access)
    moreover from this get hm_get_in_values [OF that] free
    have "ma_source_resource_id a \<noteq> k" by (auto simp: access_ok_def list_ex_iff)
    ultimately show ?thesis by (auto simp: access_ok_def hm_laws)
  qed
  with inv show ?thesis
    by (auto simp: data_inv_def names_below_remove hm_get_remove split: if_splits)
qed

lemma data_inv_import:
  assumes inv: "data_inv st" and "ms_next_access_id st \<noteq> u64_max"
    and a: "access_ok (ms_resources st) a"
  shows "data_inv (st\<lparr> ms_next_access_id := ms_next_access_id st + 1,
           ms_accesses := hm_insert (access_name (ms_next_access_id st)) a (ms_accesses st) \<rparr>)"
  using assms
  by (auto simp: data_inv_def names_below_insert hm_get_insert split: if_splits)

lemma data_inv_revoke:
  "data_inv st \<Longrightarrow> data_inv (st\<lparr> ms_accesses := hm_remove k (ms_accesses st) \<rparr>)"
  by (auto simp: data_inv_def names_below_remove hm_get_remove split: if_splits)

lemma data_inv_bookkeeping [simp]:
  "data_inv (st\<lparr> ms_next_completion_id := c \<rparr>) = data_inv st"
  "data_inv (st\<lparr> ms_counters := k \<rparr>) = data_inv st"
  "data_inv (st\<lparr> ms_completions := m \<rparr>) = data_inv st"
  by (simp_all add: data_inv_def)

text \<open>The operations, one by one.\<close>

lemma mock_allocate_inv:
  assumes "data_inv st" and "ms_next_resource_id st \<noteq> u64_max"
    and "cap_max_transfer_bytes (mp_capabilities p) = 16777216"
    and "mock_allocate p st n = Some (r, st')"
  shows "data_inv st'"
proof (cases "n = 0 \<or> n > 16777216")
  case True
  with assms show ?thesis by (auto simp: mock_allocate_def fail_def)
next
  case False
  then have "unat n \<le> 16777216" by (simp add: word_le_nat_alt not_less)
  then have "resource_ok \<lparr> mr_generation = 1, mr_bytes = replicate (unat n) 0 \<rparr>"
    by (simp add: resource_ok_def)
  from data_inv_allocate [OF assms(1,2) this] assms(3,4) False show ?thesis
    by (auto simp: mock_allocate_def Let_def resource_name_def)
qed

lemma mock_release_inv:
  "data_inv st \<Longrightarrow> mock_release st rr = Some (r, st') \<Longrightarrow> data_inv st'"
  by (auto simp: mock_release_def fail_def intro: data_inv_release
      split: option.splits if_splits)

lemma mock_initialize_inv:
  assumes "data_inv st" and "mock_initialize st rr off n seed = Some (r, st')"
  shows "data_inv st'"
proof -
  have "data_inv st'" if g: "hm_get (ms_resources st) (rr_provider_resource_id rr) = Some c"
    and cr: "check_range (len_u64 (mr_bytes c)) off n = Inr u"
    and sl: "slice_range (mr_bytes c) off n = Some old"
    and st': "st' = st\<lparr> ms_resources := hm_modify (rr_provider_resource_id rr)
               (\<lambda>c. c\<lparr> mr_bytes := write_range (mr_bytes c) off (map (seed_byte seed) [0..<length old]) \<rparr>)
               (ms_resources st) \<rparr>" for c u old
    unfolding st' using assms(1) g
    by (rule data_inv_write)
      (use resource_slice(1) [OF cr data_inv_resource [OF assms(1) g]]
          resource_slice(2) [OF cr data_inv_resource [OF assms(1) g]] sl in auto)
  with assms show ?thesis
    by (auto simp: mock_initialize_def fail_def Let_def
        split: option.splits if_splits sum.splits)
qed

text \<open>A copy either changes nothing or overwrites one range of the destination.\<close>

lemma mock_copy_cases:
  assumes "mock_copy st src dst soff doff n = Some (r, st')"
  obtains (unchanged) "st' = st" "\<exists>e. r = Inl e"
  | (copied) c d payload where
      "hm_get (ms_resources st) (rr_provider_resource_id src) = Some c"
      "check_range (len_u64 (mr_bytes c)) soff n = Inr ()"
      "slice_range (mr_bytes c) soff n = Some payload"
      "hm_get (ms_resources st) (rr_provider_resource_id dst) = Some d"
      "check_range (len_u64 (mr_bytes d)) doff n = Inr ()"
      "st' = st\<lparr> ms_resources := hm_modify (rr_provider_resource_id dst)
               (\<lambda>c. c\<lparr> mr_bytes := write_range (mr_bytes c) doff payload \<rparr>)
               (ms_resources st) \<rparr>" "r = Inr (RBytes n)"
  using assms by (fastforce simp: mock_copy_def fail_def split: option.splits if_splits sum.splits)

lemma mock_copy_inv:
  assumes "data_inv st" and "mock_copy st src dst soff doff n = Some (r, st')"
  shows "data_inv st'"
  using assms(2)
proof (cases rule: mock_copy_cases)
  case unchanged
  with assms(1) show ?thesis by simp
next
  case (copied c d payload)
  have "length payload = unat n"
    using resource_slice(1,2) [OF copied(2) data_inv_resource [OF assms(1) copied(1)]] copied(3)
    by auto
  with resource_slice(1) [OF copied(5) data_inv_resource [OF assms(1) copied(4)]]
  show ?thesis unfolding copied(6) by (intro data_inv_write [OF assms(1) copied(4)]) simp
qed

lemma mock_import_inv:
  assumes "data_inv st" and "ms_next_access_id st \<noteq> u64_max"
    and "mock_import p st d off n mode = Some (r, st')"
  shows "data_inv st'"
proof -
  have "access_ok (ms_resources st) \<lparr> ma_generation = 1, ma_source_resource_id = rid,
           ma_source_generation = g, ma_allowed_offset_bytes = off,
           ma_allowed_bytes = n, ma_access_mode = ''read'' \<rparr>"
    if "hm_get (ms_resources st) rid = Some c" and "mr_generation c = g"
      and cr: "check_range (len_u64 (mr_bytes c)) off n = Inr u" for rid c u g
    using that resource_slice(1) [OF cr data_inv_resource [OF assms(1) that(1)]]
    by (simp add: access_ok_def)
  from data_inv_import [OF assms(1,2) this] assms show ?thesis
    by (auto simp: mock_import_def fail_def Let_def access_name_def
        split: option.splits if_splits sum.splits)
qed

lemma execute_inv:
  assumes "data_inv st" and "ms_next_resource_id st \<noteq> u64_max"
    and "ms_next_access_id st \<noteq> u64_max"
    and "cap_max_transfer_bytes (mp_capabilities p) = 16777216"
    and "execute p st op = Some (r, st')"
  shows "data_inv st'"
  using assms
  by (cases op)
    (auto simp: mock_publish_def mock_revoke_def mock_checksum_resource_def
      mock_checksum_access_def fail_def
      intro: mock_allocate_inv mock_release_inv mock_initialize_inv mock_import_inv
        mock_copy_inv data_inv_revoke
      split: option.splits if_splits sum.splits)

lemma execute_completions:
  "execute p st op = Some (r, st') \<Longrightarrow>
     ms_completions st' = ms_completions st \<and> ms_next_completion_id st' = ms_next_completion_id st"
  by (cases op)
    (auto simp: mock_defs Let_def split: option.splits sum.splits if_splits)

section \<open>The provider interface\<close>

lemma completions_ok_insert:
  assumes "completions_ok st" and "validate_snapshot sn = Inr ()" and "is_terminal (sn_state sn)"
  shows "completions_ok (st\<lparr> ms_counters := k, ms_completions := hm_insert cid sn (ms_completions st) \<rparr>)"
  using assms by (auto simp: completions_ok_def hm_laws)

text \<open>The snapshot stored for an executed operation.\<close>

definition outcome_snapshot ::
  "string \<Rightarrow> ProviderError + ProviderCompletionResult \<Rightarrow> ProviderCompletionSnapshot" where
  "outcome_snapshot cid res =
     (case res of
        Inr r \<Rightarrow> \<lparr> sn_provider_completion_id = cid, sn_state = CsComplete, sn_result = Some r,
                  sn_error = None \<rparr>
      | Inl e \<Rightarrow> \<lparr> sn_provider_completion_id = cid, sn_state = CsFailed, sn_result = None,
                  sn_error = Some e \<rparr>)"

lemma outcome_snapshot_valid [simp]:
  "validate_snapshot (outcome_snapshot cid res) = Inr ()"
  "is_terminal (sn_state (outcome_snapshot cid res))"
  by (cases res; simp add: outcome_snapshot_def validate_snapshot_iff is_terminal_def)+

definition next_completion :: "MockProvider \<Rightarrow> string" where
  "next_completion p = ''completion-'' @ show_u64 (ms_next_completion_id (mp_state p))"

definition started :: "MockProvider \<Rightarrow> MockState" where
  "started p = (mp_state p)\<lparr> ms_next_completion_id := ms_next_completion_id (mp_state p) + 1 \<rparr>"

text \<open>Submission without its impossible branch: execute, then record the outcome.\<close>

lemma mock_submit_eq:
  "mock_submit p op =
     (if \<not> supports (mp_capabilities p) (operation_kind op)
      then Some (Inl (provider_error_new ProviderOperationUnsupported
             (''mock provider does not support '' @ operation_kind_str (operation_kind op))), p)
      else map_option (\<lambda>(res, st).
        (Inr \<lparr> su_provider_completion_id = next_completion p, su_initial_state = CsComplete \<rparr>,
         p\<lparr> mp_state := st\<lparr>
              ms_counters := bump_counter (operation_kind_str (operation_kind op)) (ms_counters st),
              ms_completions := hm_insert (next_completion p)
                (outcome_snapshot (next_completion p) res) (ms_completions st) \<rparr> \<rparr>))
        (execute p (started p) op))"
proof -
  have valid: "validate_snapshot (case res of
      Inr r \<Rightarrow> \<lparr> sn_provider_completion_id = c, sn_state = CsComplete, sn_result = Some r, sn_error = None \<rparr>
    | Inl e \<Rightarrow> \<lparr> sn_provider_completion_id = c, sn_state = CsFailed, sn_result = None, sn_error = Some e \<rparr>)
    = Inr ()" for res c
    using outcome_snapshot_valid(1) [of c res] by (simp add: outcome_snapshot_def)
  show ?thesis
    unfolding mock_submit_def Let_def next_completion_def started_def
    by (simp add: valid outcome_snapshot_def split: option.split prod.split sum.split)
qed

lemma started_simps [simp]:
  "data_inv (started p) = data_inv (mp_state p)"
  "completions_ok (started p) = completions_ok (mp_state p)"
  "ms_resources (started p) = ms_resources (mp_state p)"
  "ms_accesses (started p) = ms_accesses (mp_state p)"
  "ms_next_resource_id (started p) = ms_next_resource_id (mp_state p)"
  "ms_next_access_id (started p) = ms_next_access_id (mp_state p)"
  by (simp_all add: started_def data_inv_def completions_ok_def)

lemma mock_submit_good:
  assumes "mock_good p" and "mock_ready p" and "mock_submit p op = Some (r, p')"
  shows "mock_good p'"
proof (cases "supports (mp_capabilities p) (operation_kind op)")
  case False
  with assms show ?thesis by (simp add: mock_submit_eq)
next
  case True
  with assms(3) obtain res st where ex: "execute p (started p) op = Some (res, st)"
    and p': "p' = p\<lparr> mp_state := st\<lparr>
              ms_counters := bump_counter (operation_kind_str (operation_kind op)) (ms_counters st),
              ms_completions := hm_insert (next_completion p)
                (outcome_snapshot (next_completion p) res) (ms_completions st) \<rparr> \<rparr>"
    by (auto simp: mock_submit_eq)
  have "data_inv st"
    using assms(1,2) by (intro execute_inv [OF _ _ _ _ ex]) (auto simp: mock_good_def mock_ready_def)
  moreover have "completions_ok st"
    using execute_completions [OF ex] assms(1)
    by (auto simp: completions_ok_def mock_good_def started_def)
  ultimately show ?thesis
    using assms(1) unfolding p' mock_good_def
    by (auto intro!: completions_ok_insert)
qed

lemma mock_submit_returns: "mock_good p \<Longrightarrow> mock_submit p op \<noteq> None"
  using execute_returns [of "started p" p op]
  by (auto simp: mock_submit_eq mock_good_def)

lemma mock_wait_submitted:
  assumes "mock_submit p op = Some (Inr s, p')"
  shows "\<exists>sn. mock_wait p' (su_provider_completion_id s) = Inr sn \<and>
              validate_snapshot sn = Inr () \<and> is_terminal (sn_state sn)"
  using assms
  by (auto simp: mock_submit_eq mock_wait_def mock_poll_def hm_laws split: if_splits)

interpretation mock: data_provider mock_submit mock_wait mock_good mock_ready
  by unfold_locales (simp_all add: mock_submit_returns mock_submit_good mock_wait_submitted)

section \<open>Reachable provider states\<close>

inductive mock_reachable :: "MockProvider \<Rightarrow> bool" where
  start: "mock_reachable (mock_new pid realm node)"
| step: "mock_reachable p \<Longrightarrow> mock_ready p \<Longrightarrow> mock_submit p op = Some (r, p') \<Longrightarrow>
    mock_reachable p'"

lemma mock_new_good: "mock_good (mock_new pid realm node)"
  by (simp add: mock_good_def mock_new_def data_inv_def completions_ok_def names_below_def)

lemma reachable_good: "mock_reachable p \<Longrightarrow> mock_good p"
  by (induction rule: mock_reachable.induct) (auto intro: mock_new_good mock_submit_good)

text \<open>Running a list of operations from a fresh provider, for the concrete instances below.\<close>

fun mock_run :: "MockProvider \<Rightarrow> ProviderOperation list \<Rightarrow> MockProvider option" where
  "mock_run p [] = Some p"
| "mock_run p (op # ops) =
     (if mock_ready p then
        (case mock_submit p op of Some (_, p') \<Rightarrow> mock_run p' ops | None \<Rightarrow> None)
      else None)"

lemma mock_run_reachable: "mock_reachable p \<Longrightarrow> mock_run p ops = Some p' \<Longrightarrow> mock_reachable p'"
  by (induction p ops arbitrary: p' rule: mock_run.induct)
    (auto split: if_splits option.splits, metis mock_reachable.step)

definition demo_resource :: "string \<Rightarrow> ProviderResourceRef" where
  "demo_resource rid = \<lparr> rr_provider_resource_id = rid, rr_resource_generation = 1, rr_size_bytes = 8,
     rr_allowed_offset_bytes = 0, rr_allowed_bytes = 8, rr_addressability = ProviderOnly,
     rr_opaque_token = [] \<rparr>"

definition demo_descriptor :: ProviderDescriptor where
  "demo_descriptor = \<lparr> pd_schema_major = 1, pd_schema_minor = 0, pd_provider_id = ''m'',
     pd_provider_session_id = ''m:n:session-1'', pd_resource_generation = 1,
     pd_allowed_offset_bytes = 2, pd_allowed_bytes = 4, pd_access_mode = ''read'',
     pd_opaque_bytes = map of_char ''resource-1'' \<rparr>"

text \<open>A resource of eight bytes, imported through a window of four.\<close>

definition demo_ops :: "ProviderOperation list" where
  "demo_ops = [Allocate 8 1 ''ddr'' ''n'', Import demo_descriptor ''n'' 2 4 ''read'']"

definition demo_provider :: MockProvider where
  "demo_provider = the (mock_run (mock_new ''m'' ''r'' ''n'') demo_ops)"

definition demo_window :: MockAccess where
  "demo_window = \<lparr> ma_generation = 1, ma_source_resource_id = ''resource-1'', ma_source_generation = 1,
     ma_allowed_offset_bytes = 2, ma_allowed_bytes = 4, ma_access_mode = ''read'' \<rparr>"

lemma demo_run:
  "case mock_run (mock_new ''m'' ''r'' ''n'') demo_ops of None \<Rightarrow> False
   | Some p \<Rightarrow> mock_ready p \<and> hm_get (ms_accesses (mp_state p)) ''access-1'' = Some demo_window"
  by code_simp

lemma demo_reachable: "mock_reachable demo_provider"
  and demo_ready: "mock_ready demo_provider"
  and demo_state: "hm_get (ms_accesses (mp_state demo_provider)) ''access-1'' = Some demo_window"
  using mock_run_reachable [OF mock_reachable.start, of "''m''" "''r''" "''n''" demo_ops] demo_run
  unfolding demo_provider_def by (auto split: option.splits)

section \<open>Properties\<close>

text \<open>
  C30. No sequence of operations makes the in-memory provider panic: in every reachable state in
  which the identifier counters are not exhausted, every submission returns, and waiting for an
  accepted one returns a terminal snapshot that carries a result exactly when it is complete.
\<close>

theorem mock_submission_completes:
  assumes "mock_reachable p" and "mock_ready p"
  shows "\<exists>r p'. mock_submit p op = Some (r, p') \<and>
     (\<forall>s. r = Inr s \<longrightarrow>
        (\<exists>sn. mock_wait p' (su_provider_completion_id s) = Inr sn \<and> is_terminal (sn_state sn) \<and>
              (sn_state sn = CsComplete \<longleftrightarrow> sn_result sn \<noteq> None)))"
proof -
  have good: "mock_good p" using assms(1) by (rule reachable_good)
  obtain r p' where sub: "mock_submit p op = Some (r, p')"
    using mock.submit_returns [OF good assms(2)] by fast
  have "\<exists>sn. mock_wait p' (su_provider_completion_id s) = Inr sn \<and> is_terminal (sn_state sn) \<and>
     (sn_state sn = CsComplete \<longleftrightarrow> sn_result sn \<noteq> None)" if "r = Inr s" for s
    using mock.accepted_has_outcome [OF good assms(2) sub [unfolded that]]
      mock.wait_submitted [OF good assms(2) sub [unfolded that]] by auto
  with sub show ?thesis by blast
qed

theorem mock_submission_completes_witness:
  "\<exists>r p'. mock_submit demo_provider (Release (demo_resource ''resource-1'')) = Some (r, p') \<and>
     (\<forall>s. r = Inr s \<longrightarrow>
        (\<exists>sn. mock_wait p' (su_provider_completion_id s) = Inr sn \<and> is_terminal (sn_state sn) \<and>
              (sn_state sn = CsComplete \<longleftrightarrow> sn_result sn \<noteq> None)))"
  by (rule mock_submission_completes [OF demo_reachable demo_ready])

text \<open>
  C29. In every reachable state each access binding is a read-only window that lies inside a live
  resource of the generation it was imported from: release is refused while an access exists, so
  no access ever dangles.
\<close>

theorem mock_access_never_dangles:
  assumes "mock_reachable p" and "hm_get (ms_accesses (mp_state p)) k = Some a"
  shows "ma_access_mode a = ''read'' \<and>
    (\<exists>r. hm_get (ms_resources (mp_state p)) (ma_source_resource_id a) = Some r \<and>
         mr_generation r = ma_source_generation a \<and>
         unat (ma_allowed_offset_bytes a) + unat (ma_allowed_bytes a) \<le> length (mr_bytes r))"
proof -
  have "data_inv (mp_state p)" using reachable_good [OF assms(1)] by (simp add: mock_good_def)
  from data_inv_access [OF this assms(2)] show ?thesis by (auto simp: access_ok_def)
qed

theorem mock_access_never_dangles_witness:
  "\<exists>r. hm_get (ms_resources (mp_state demo_provider)) ''resource-1'' = Some r \<and>
       mr_generation r = 1 \<and> 6 \<le> length (mr_bytes r)"
  using mock_access_never_dangles [OF demo_reachable demo_state]
  by (simp add: demo_window_def)

text \<open>
  A checksum through an access is the checksum of exactly the requested part of its window:
  byte 0 of the window is byte \<open>ma_allowed_offset_bytes\<close> of the resource, and nothing outside the
  window is read.
\<close>

theorem mock_checksum_access_window:
  assumes "mock_reachable p" and "hm_get (ms_accesses (mp_state p)) (pa_accessor_resource_id ref) = Some a"
    and "hm_get (ms_resources (mp_state p)) (ma_source_resource_id a) = Some r"
    and "mock_checksum_access (mp_state p) ref off n = Some (Inr res, st')"
  shows "st' = mp_state p \<and>
    unat off + unat n \<le> unat (ma_allowed_bytes a) \<and>
    res = RChecksum ''fnv1a64'' (mock_checksum
            (take (unat n) (drop (unat off)
              (take (unat (ma_allowed_bytes a)) (drop (unat (ma_allowed_offset_bytes a)) (mr_bytes r))))))"
proof -
  have inv: "data_inv (mp_state p)" using reachable_good [OF assms(1)] by (simp add: mock_good_def)
  have cr: "check_range (ma_allowed_bytes a) off n = Inr ()"
    using assms(2,3,4) by (auto simp: mock_checksum_access_def fail_def split: if_splits sum.splits)
  then have le: "unat off + unat n \<le> unat (ma_allowed_bytes a)" by (simp add: check_range_Inr_iff)
  have sl: "slice_range (mr_bytes r) (ma_allowed_offset_bytes a + off) n =
     Some (take (unat n) (drop (unat (ma_allowed_offset_bytes a) + unat off) (mr_bytes r)))"
    using inv assms(2,3) cr
    by (intro access_window(2)) (auto intro: data_inv_access data_inv_resource)
  show ?thesis
    using assms(2,3,4) cr sl le
    by (auto simp: mock_checksum_access_def fail_def drop_take min_absorb1 add.commute
        split: if_splits)
qed

text \<open>
  A successful copy replaces exactly the requested bytes of the destination by those of the
  source and changes no other byte, no other resource, no access and no counter.
\<close>

theorem mock_copy_contents:
  assumes "mock_reachable p"
    and "mock_copy (mp_state p) src dst soff doff n = Some (Inr res, st')"
  shows "\<exists>s d d'. hm_get (ms_resources (mp_state p)) (rr_provider_resource_id src) = Some s \<and>
    hm_get (ms_resources (mp_state p)) (rr_provider_resource_id dst) = Some d \<and>
    st' = (mp_state p)\<lparr> ms_resources := ms_resources st' \<rparr> \<and>
    (\<forall>k. hm_get (ms_resources st') k =
       (if k = rr_provider_resource_id dst then Some (d\<lparr> mr_bytes := d' \<rparr>)
        else hm_get (ms_resources (mp_state p)) k)) \<and>
    length d' = length (mr_bytes d) \<and>
    (\<forall>i < length d'. d' ! i =
       (if unat doff \<le> i \<and> i < unat doff + unat n then mr_bytes s ! (unat soff + (i - unat doff))
        else mr_bytes d ! i))"
proof -
  have inv: "data_inv (mp_state p)" using reachable_good [OF assms(1)] by (simp add: mock_good_def)
  from assms(2) obtain s d payload where
    s: "hm_get (ms_resources (mp_state p)) (rr_provider_resource_id src) = Some s"
    and cs: "check_range (len_u64 (mr_bytes s)) soff n = Inr ()"
    and pl: "slice_range (mr_bytes s) soff n = Some payload"
    and d: "hm_get (ms_resources (mp_state p)) (rr_provider_resource_id dst) = Some d"
    and cd: "check_range (len_u64 (mr_bytes d)) doff n = Inr ()"
    and st': "st' = (mp_state p)\<lparr> ms_resources := hm_modify (rr_provider_resource_id dst)
       (\<lambda>c. c\<lparr> mr_bytes := write_range (mr_bytes c) doff payload \<rparr>) (ms_resources (mp_state p)) \<rparr>"
    by (cases rule: mock_copy_cases) auto
  note fit = resource_slice(1) [OF cs data_inv_resource [OF inv s]]
    resource_slice(1) [OF cd data_inv_resource [OF inv d]]
  have new: "payload = take (unat n) (drop (unat soff) (mr_bytes s))"
    using pl resource_slice(2) [OF cs data_inv_resource [OF inv s]] by simp
  then have len: "length payload = unat n" using fit by simp
  show ?thesis
    by (rule exI [of _ s], rule exI [of _ d], rule exI [of _ "write_range (mr_bytes d) doff payload"])
      (use s d fit len in \<open>auto simp: st' hm_laws length_write_range nth_write_range new\<close>)
qed

text \<open>
  A failed operation leaves the resources, the accesses and their counters as they were.
\<close>

theorem mock_failure_changes_nothing:
  assumes "mock_reachable p" and "mock_ready p"
    and "mock_submit p op = Some (Inr s, p')"
    and "mock_wait p' (su_provider_completion_id s) = Inr sn" and "sn_state sn = CsFailed"
  shows "ms_resources (mp_state p') = ms_resources (mp_state p) \<and>
    ms_accesses (mp_state p') = ms_accesses (mp_state p) \<and>
    ms_next_resource_id (mp_state p') = ms_next_resource_id (mp_state p) \<and>
    ms_next_access_id (mp_state p') = ms_next_access_id (mp_state p)"
proof -
  from assms(3) obtain res st where ex: "execute p (started p) op = Some (res, st)"
    and p': "p' = p\<lparr> mp_state := st\<lparr>
              ms_counters := bump_counter (operation_kind_str (operation_kind op)) (ms_counters st),
              ms_completions := hm_insert (next_completion p)
                (outcome_snapshot (next_completion p) res) (ms_completions st) \<rparr> \<rparr>"
    and s: "su_provider_completion_id s = next_completion p"
    by (auto simp: mock_submit_eq split: if_splits)
  have "sn = outcome_snapshot (next_completion p) res"
    using assms(4) by (simp add: p' s mock_wait_def mock_poll_def hm_laws)
  with assms(5) obtain e where "res = Inl e" by (cases res) (auto simp: outcome_snapshot_def)
  with ex have "st = started p" using execute_error_frame by blast
  then show ?thesis by (simp add: p')
qed

end
