(* ===== verification/Registry.thy ===== *)
theory Registry
  imports Provider
begin

text \<open>
  The provider registry of \<^verbatim>\<open>providers/registry.rs\<close> and the compatibility provider of
  \<^verbatim>\<open>providers/local.rs\<close>, which advertises the legacy media but refuses every operation.

  The registry holds trait objects; the model is polymorphic in the provider and takes the
  trait's \<open>identity\<close> method as an argument.
\<close>

section \<open>The compatibility provider\<close>

record LegacyLocalProvider =
  lp_identity :: ProviderIdentity
  lp_capabilities :: ProviderCapabilities

definition local_new :: "string \<Rightarrow> string \<Rightarrow> Addressability \<Rightarrow> LegacyLocalProvider" where
  "local_new pid medium addr =
     \<lparr> lp_identity =
         \<lparr> id_api_major = 1, id_api_minor = 0, id_provider_id = pid, id_provider_kind = PkLocal,
           id_adapter_revision = ''0.1.0'', id_external_platform_revision = [],
           id_external_protocol_revision = ''legacy-local-v1'',
           id_execution_realm_id = ''physical:local'', id_node_id = ''local'',
           id_session_id = pid @ '':process'', id_boot_id = ''daemon-process'',
           id_session_generation = 1, id_fidelity = FiPhysical,
           id_limitations = [''medium='' @ medium, ''resource-operations-use-legacy-adapter''] \<rparr>,
       lp_capabilities =
         \<lparr> cap_supported_operations = [], cap_max_transfer_bytes = u64_max,
           cap_alignment_bytes = 1, cap_queue_depth = 0, cap_addressability = addr,
           cap_limitations = [''legacy-resource-adapter''] \<rparr> \<rparr>"

definition local_submit ::
  "LegacyLocalProvider \<Rightarrow> ProviderOperation \<Rightarrow>
     ((ProviderError + ProviderSubmission) \<times> LegacyLocalProvider) option" where
  "local_submit p op =
     Some (Inl (provider_error_new ProviderOperationUnsupported
       (operation_kind_str (operation_kind op)
        @ '' is still served by the physical compatibility adapter'')), p)"

definition local_poll ::
  "LegacyLocalProvider \<Rightarrow> string \<Rightarrow> ProviderError + ProviderCompletionSnapshot" where
  "local_poll p cid =
     Inl (provider_error_new ProviderResourceNotFound
       ''local compatibility provider has no provider completion'')"

definition local_wait ::
  "LegacyLocalProvider \<Rightarrow> string \<Rightarrow> ProviderError + ProviderCompletionSnapshot" where
  "local_wait p cid = local_poll p cid"

definition local_cancel :: "LegacyLocalProvider \<Rightarrow> string \<Rightarrow> ProviderError + unit" where
  "local_cancel p cid =
     Inl (provider_error_new CancelUnsupported
       ''local compatibility provider does not expose cancellation'')"

interpretation legacy_local: data_provider local_submit local_wait "\<lambda>_. True" "\<lambda>_. True"
  by unfold_locales (simp_all add: local_submit_def)

section \<open>The registry\<close>

type_synonym 'p registry = "(string, 'p) btreemap"

definition registry_new :: "'p registry" where
  "registry_new = []"

definition register ::
  "('p \<Rightarrow> ProviderIdentity) \<Rightarrow> 'p registry \<Rightarrow> 'p \<Rightarrow> (ProviderError + unit) \<times> 'p registry" where
  "register identity reg p =
     (let pid = id_provider_id (identity p) in
      if pid = [] then
        (Inl (provider_error_new ProviderProtocolError ''provider_id is required''), reg)
      else if bt_get reg pid \<noteq> None then
        (Inl (provider_error_new ProviderProtocolError
           (''provider '' @ pid @ '' is already registered'')), reg)
      else (Inr (), bt_insert pid p reg))"

definition registry_find :: "'p registry \<Rightarrow> string \<Rightarrow> 'p option" where
  "registry_find reg pid = bt_get reg pid"

definition registry_require :: "'p registry \<Rightarrow> string \<Rightarrow> ProviderError + 'p" where
  "registry_require reg pid =
     (case registry_find reg pid of
        Some p \<Rightarrow> Inr p
      | None \<Rightarrow> Inl (provider_error_new ProviderUnavailable
                  (''provider '' @ pid @ '' is not registered'')))"

definition identities :: "('p \<Rightarrow> ProviderIdentity) \<Rightarrow> 'p registry \<Rightarrow> ProviderIdentity list" where
  "identities identity reg = map (\<lambda>(_, p). identity p) reg"

definition health_summary ::
  "('p \<Rightarrow> ProviderHealth) \<Rightarrow> 'p registry \<Rightarrow> (string, ProviderHealth) btreemap" where
  "health_summary health reg = map (\<lambda>(k, p). (k, health p)) reg"

text \<open>A registry as built by registrations.\<close>

definition registry_ok :: "('p \<Rightarrow> ProviderIdentity) \<Rightarrow> 'p registry \<Rightarrow> bool" where
  "registry_ok identity reg \<longleftrightarrow>
     bt_wf reg \<and> (\<forall>k p. bt_get reg k = Some p \<longrightarrow> k \<noteq> [] \<and> id_provider_id (identity p) = k)"

lemma registry_ok_new: "registry_ok identity registry_new"
  by (simp add: registry_ok_def registry_new_def bt.wf_emp bt.get_emp)

lemma register_ok:
  assumes "registry_ok identity reg"
  shows "registry_ok identity (snd (register identity reg p))"
  using assms bt.wf_put [of reg] bt.get_put [of reg]
  by (auto simp: registry_ok_def register_def Let_def)

text \<open>
  Registration fails closed: from any registry built by registrations, registering a provider
  either makes it the one found under its identifier and leaves every other entry as it was, or
  is refused because the identifier is empty or taken and leaves the whole registry as it was.
\<close>

theorem register_fails_closed:
  assumes "registry_ok identity reg" and "register identity reg p = (r, reg')"
  shows "registry_ok identity reg' \<and>
    (case r of
       Inr _ \<Rightarrow> registry_find reg (id_provider_id (identity p)) = None \<and>
         (\<forall>k. registry_find reg' k =
            (if k = id_provider_id (identity p) then Some p else registry_find reg k))
     | Inl e \<Rightarrow> reg' = reg \<and> pe_code e = ProviderProtocolError \<and>
         (id_provider_id (identity p) = [] \<or>
          (\<exists>q. registry_require reg (id_provider_id (identity p)) = Inr q)))"
proof -
  have wf: "bt_wf reg" using assms(1) by (simp add: registry_ok_def)
  show ?thesis
    using assms(2) register_ok [OF assms(1), of p] bt.get_put [OF wf]
    by (auto simp: register_def Let_def registry_find_def registry_require_def
        provider_error_new_def split: if_splits)
qed

theorem register_fails_closed_witness:
  "registry_find (snd (register lp_identity registry_new (local_new ''ddr0'' ''ddr'' LocallyAddressable)))
     ''ddr0'' = Some (local_new ''ddr0'' ''ddr'' LocallyAddressable)"
proof -
  let ?p = "local_new ''ddr0'' ''ddr'' LocallyAddressable"
  have "register lp_identity registry_new ?p = (Inr (), bt_insert ''ddr0'' ?p registry_new)"
    by (simp add: register_def registry_new_def local_new_def bt.get_emp Let_def)
  from register_fails_closed [OF registry_ok_new this] this show ?thesis
    by (simp add: local_new_def)
qed

end
