(* ===== verification/Records.thy ===== *)
theory Records
  imports Registry
begin

text \<open>
  The daemon's state: the records of \<^verbatim>\<open>crates/uf-core/src/idl.rs\<close> and of
  \<^verbatim>\<open>crates/uf-daemon/src/catalog.rs\<close>.

  Representation. Record fields carry a short prefix because the structs share field names. The
  metric fields of an event are grouped by their prefix (\<^verbatim>\<open>channel_\<close>, \<^verbatim>\<open>ssd_\<close>,
  \<^verbatim>\<open>relay_\<close>, \<^verbatim>\<open>direct_\<close>) and the counters of the catalog by kind. The catalog is
  polymorphic in the type of its providers. Of the external DDR broker the catalog holds what the
  handlers modelled here ask it: which objects, leases and views it owns; of an external plan or
  event only that it is one.
\<close>

section \<open>Records of the data model (idl.rs)\<close>

record DataObject =
  do_object_id :: u64
  do_namespace :: string
  do_name :: string
  do_role :: string
  do_size_bytes :: u64
  do_consistency :: string
  do_content_version :: u64
  do_owner :: string
  do_shape :: string
  do_dtype :: string
  do_state :: string

record DataPlacement =
  dp_placement_id :: u64
  dp_object_id :: u64
  dp_medium :: string
  dp_node_id :: string
  dp_device_id :: "int option"
  dp_domain :: string
  dp_address_kind :: string
  dp_provider_id :: string
  dp_execution_mode :: ExecutionMode
  dp_execution_realm_id :: string
  dp_requested_fidelity :: Fidelity
  dp_actual_fidelity :: Fidelity
  dp_addressability :: Addressability
  dp_topology_generation :: u64
  dp_capability_generation :: u64
  dp_offset_bytes :: u64
  dp_nbytes :: u64
  dp_state :: string

record ResourceBinding =
  rb_binding_id :: u64
  rb_placement_id :: u64
  rb_provider_id :: string
  rb_provider_session_id :: string
  rb_provider_resource_id :: string
  rb_binding_generation :: u64
  rb_opaque_descriptor :: bytes
  rb_allowed_offset_bytes :: u64
  rb_allowed_bytes :: u64
  rb_limitations :: "string list"
  rb_state :: string

record AccessBinding =
  ab_access_binding_id :: u64
  ab_placement_id :: u64
  ab_source_binding_id :: u64
  ab_accessor_node_id :: string
  ab_accessor_device_id :: "string option"
  ab_accessor_provider_id :: string
  ab_accessor_provider_session_id :: string
  ab_accessor_resource_id :: string
  ab_access_binding_generation :: u64
  ab_source_binding_generation :: u64
  ab_access_kind :: AccessKind
  ab_transport_kind :: TransportKind
  ab_addressability :: Addressability
  ab_access_mode :: string
  ab_allowed_offset_bytes :: u64
  ab_allowed_bytes :: u64
  ab_topology_generation :: u64
  ab_capability_generation :: u64
  ab_opaque_token :: bytes
  ab_state :: string

record PlanStep =
  ps_step_id :: u64
  ps_dependencies :: "u64 list"
  ps_provider_id :: string
  ps_operation :: string
  ps_src_placement_id :: "u64 option"
  ps_dst_placement_id :: "u64 option"
  ps_access_binding_id :: "u64 option"
  ps_offset_bytes :: u64
  ps_nbytes :: u64
  ps_expected_completion_kind :: string
  ps_fallback_policy :: string
  ps_provider_completion_id :: "string option"
  ps_completion_state :: ProviderCompletionState

record TransferCost =
  tc_effort :: f64
  tc_estimated_latency_us :: f64
  tc_estimated_bandwidth_gib_s :: f64
  tc_setup_cost_us :: f64
  tc_hop_count :: u32
  tc_contention_score :: f64
  tc_reliability_score :: f64
  tc_explanation :: string

record TransferPlan =
  ty_plan_id :: u64
  ty_request_id :: u64
  ty_src_placement_id :: u64
  ty_dst_placement_id :: u64
  ty_path :: string
  ty_engine :: string
  ty_completion_kind :: string
  ty_topology_generation :: u64
  ty_capability_generation :: u64
  ty_execution_realm_id :: string
  ty_steps :: "PlanStep list"
  ty_cost :: TransferCost
  ty_fallback_used :: bool
  ty_fallback_reason :: string

record TransferEvent =
  te_event_id :: u64
  te_plan_id :: u64
  te_parent_event_id :: "u64 option"
  te_attempt_id :: u64
  te_step_id :: "u64 option"
  te_provider_id :: string
  te_provider_session_id :: string
  te_status :: string
  te_completion_kind :: string
  te_submitted_at_ns :: nat
  te_started_at_ns :: nat
  te_completed_at_ns :: nat
  te_bytes_done :: u64
  te_checksum_verdict :: string
  te_planned_path :: string
  te_actual_path :: string
  te_topology_generation :: u64
  te_capability_generation :: u64
  te_execution_mode :: ExecutionMode
  te_fidelity :: Fidelity
  te_error_code :: string
  te_error_message :: string

section \<open>Records of the catalog (catalog.rs)\<close>

record HbmAllocation =
  al_raw_handle_id :: u64
  al_shareable :: u64
  al_requested_bytes :: u64
  al_actual_bytes :: u64
  al_granularity :: u64
  al_service_mapping_id :: u64
  al_service_device_ptr :: u64
  al_device_id :: int

record HbmExport =
  ex_shareable :: u64
  ex_actual_bytes :: u64
  ex_device_id :: int

record Block =
  bl_block_id :: u64
  bl_allocation :: HbmAllocation
  bl_state :: string
  bl_object_id :: u64
  bl_dynamic :: bool

definition block_new :: "u64 \<Rightarrow> HbmAllocation \<Rightarrow> bool \<Rightarrow> Block" where
  "block_new bid alloc dyn =
     \<lparr> bl_block_id = bid, bl_allocation = alloc, bl_state = ''Ready'', bl_object_id = 0,
       bl_dynamic = dyn \<rparr>"

definition can_hold :: "Block \<Rightarrow> u64 \<Rightarrow> bool" where
  "can_hold b n \<longleftrightarrow> bl_state b = ''Ready'' \<and> bl_object_id b = 0 \<and>
     al_actual_bytes (bl_allocation b) \<ge> n"

definition can_hold_on :: "Block \<Rightarrow> u64 \<Rightarrow> int \<Rightarrow> bool" where
  "can_hold_on b n dev \<longleftrightarrow> can_hold b n \<and> al_device_id (bl_allocation b) = dev"

record Client =
  cl_client_id :: u64
  cl_role :: string
  cl_os_pid :: int
  cl_bare_tgid :: int
  cl_device_id :: int

record Object =
  ob_object_id :: u64
  ob_placement_id :: u64
  ob_block_id :: u64
  ob_placement :: string
  ob_target :: string
  ob_ddr_path :: string
  ob_ddr_fd :: int
  ob_ddr_service_ptr :: u64
  ob_ddr_service_len :: u64
  ob_requested_bytes :: u64
  ob_actual_bytes :: u64
  ob_state :: string
  ob_creator_client_id :: u64
  ob_modified_offset_bytes :: u64
  ob_modified_bytes :: u64
  ob_model_id :: string
  ob_name :: string
  ob_role :: string
  ob_shape :: string
  ob_dtype :: string
  ob_immutable :: bool
  ob_ddr_fast_profile :: string
  ob_ddr_madvise_hugepage :: bool
  ob_ddr_pretouched :: bool
  ob_ddr_prepare_us :: f64
  ob_ddr_madvise_us :: f64
  ob_ddr_pretouch_us :: f64
  ob_ddr_fallback_reason :: string
  ob_ssd_path :: string
  ob_ssd_offset_bytes :: u64
  ob_ssd_alignment_bytes :: u64
  ob_ssd_io_mode :: string
  ob_ssd_file_owned :: bool
  ob_ssd_preallocated :: bool

record Lease =
  le_lease_id :: u64
  le_object_id :: u64
  le_block_id :: u64
  le_client_id :: u64
  le_state :: string
  le_allowed_offset_bytes :: u64
  le_allowed_bytes :: u64

record TransferPlanRecord =
  tp_external :: bool
  tp_plan_id :: u64
  tp_request_id :: u64
  tp_client_id :: u64
  tp_src_object_id :: u64
  tp_src_placement_id :: u64
  tp_src_medium :: string
  tp_dst_object_id :: u64
  tp_dst_placement_id :: u64
  tp_dst_medium :: string
  tp_operation :: string
  tp_requested_mode :: string
  tp_path :: string
  tp_engine :: string
  tp_completion_kind :: string
  tp_wait_policy :: string
  tp_src_offset_bytes :: u64
  tp_dst_offset_bytes :: u64
  tp_nbytes :: u64
  tp_effort :: f64
  tp_estimated_latency_us :: f64
  tp_estimated_bandwidth_gib_s :: f64
  tp_setup_cost_us :: f64
  tp_hop_count :: u32
  tp_fallback_used :: bool
  tp_fallback_reason :: string
  tp_explanation :: string

record ChannelMetrics =
  ch_direction :: string
  ch_lane_id :: u64
  ch_device_id :: int
  ch_chunk_bytes :: u64
  ch_chunk_count :: u64
  ch_pinned_footprint_bytes :: u64
  ch_lane_wait_us :: f64
  ch_chunks_transferred :: u64
  ch_cpu_copy_us :: f64
  ch_acl_copy_us :: f64
  ch_acl_submit_us :: f64
  ch_acl_wait_us :: f64
  ch_wall_us :: f64
  ch_queue_wait_us :: f64
  ch_worker_execute_us :: f64
  ch_overlap_ratio :: f64
  ch_stream_create_count :: u64
  ch_event_reuse_count :: u64
  ch_event_record_count :: u64
  ch_event_wait_count :: u64
  ch_pipeline_overlap :: bool

record SsdMetrics =
  sm_io_submit_us :: f64
  sm_io_wait_us :: f64
  sm_io_bytes :: u64
  sm_io_bandwidth_gib_s :: f64
  sm_read_bytes :: u64
  sm_write_bytes :: u64

record RelayMetrics =
  rm_stage_count :: u64
  rm_ddr_hbm_us :: f64
  rm_total_us :: f64

record DirectMetrics =
  dm_candidate :: string
  dm_kind :: string
  dm_setup_us :: f64
  dm_register_us :: f64
  dm_fadvise_us :: f64
  dm_readahead_us :: f64
  dm_madvise_hugepage_us :: f64
  dm_madvise_willneed_us :: f64
  dm_madvise_populate_us :: f64
  dm_pretouch_us :: f64
  dm_mlock_us :: f64
  dm_acl_us :: f64
  dm_total_us :: f64

record TransferEventRecord =
  ev_external :: bool
  ev_event_id :: u64
  ev_plan_id :: u64
  ev_client_id :: u64
  ev_status :: string
  ev_completion_kind :: string
  ev_submitted_at_ns :: nat
  ev_started_at_ns :: nat
  ev_completed_at_ns :: nat
  ev_bytes_done :: u64
  ev_actual_latency_us :: f64
  ev_actual_bandwidth_gib_s :: f64
  ev_actual_engine :: string
  ev_actual_path :: string
  ev_fallback_used :: bool
  ev_fallback_reason :: string
  ev_error_code :: string
  ev_error_message :: string
  ev_channel :: ChannelMetrics
  ev_ssd :: SsdMetrics
  ev_relay :: RelayMetrics
  ev_direct :: DirectMetrics

record HbmRuntimeStatus =
  hs_available :: bool
  hs_probe_attempted :: bool
  hs_probe_bytes :: u64
  hs_probe_actual_bytes :: u64
  hs_probe_error :: string
  hs_last_error :: string

text \<open>
  What the handlers ask the external DDR broker (external_ddr.rs): the owner lease of each backing
  and the lease of each view.
\<close>

record ExternalDdrState =
  xd_backings :: "(u64, u64) hashmap"
  xd_views :: "(u64, u64) hashmap"

definition xd_contains :: "ExternalDdrState \<Rightarrow> u64 \<Rightarrow> bool" where
  "xd_contains x oid \<longleftrightarrow> hm_contains (xd_backings x) oid"

definition xd_owns_lease :: "ExternalDdrState \<Rightarrow> u64 \<Rightarrow> bool" where
  "xd_owns_lease x lid \<longleftrightarrow>
     list_ex (\<lambda>l. l = lid) (hm_values (xd_backings x)) \<or>
     list_ex (\<lambda>l. l = lid) (hm_values (xd_views x))"

definition xd_owns_view :: "ExternalDdrState \<Rightarrow> u64 \<Rightarrow> bool" where
  "xd_owns_view x vid \<longleftrightarrow> hm_contains (xd_views x) vid"

record SsdCounters =
  sc_read_bytes :: u64
  sc_write_bytes :: u64
  sc_read_ops :: u64
  sc_write_ops :: u64

record Counters =
  next_block_id :: u64
  next_client_id :: u64
  next_object_id :: u64
  next_placement_id :: u64
  next_resource_binding_id :: u64
  next_access_binding_id :: u64
  next_lease_id :: u64
  next_transfer_plan_id :: u64
  next_transfer_event_id :: u64

record 'p Catalog =
  c_device :: int
  c_hbm :: HbmRuntimeStatus
  c_shutdown_requested :: bool
  c_blocks :: "Block list"
  c_clients :: "(u64, Client) hashmap"
  c_objects :: "(u64, Object) hashmap"
  c_data_objects :: "(u64, DataObject) hashmap"
  c_placements :: "(u64, DataPlacement) hashmap"
  c_resource_bindings :: "(u64, ResourceBinding) hashmap"
  c_access_bindings :: "(u64, AccessBinding) hashmap"
  c_external_ddr :: ExternalDdrState
  c_providers :: "'p registry"
  c_leases :: "(u64, Lease) hashmap"
  c_transfer_plans :: "(u64, TransferPlanRecord) hashmap"
  c_transfer_events :: "(u64, TransferEventRecord) hashmap"
  c_typed_transfer_plans :: "(u64, TransferPlan) hashmap"
  c_typed_transfer_events :: "(u64, TransferEvent) hashmap"
  c_simulated_object_plan_ids :: "(u64, u64) hashmap"
  c_simulated_access_plan_ids :: "(u64, u64) hashmap"
  c_simulated_plan_parent_event_ids :: "(u64, u64) hashmap"
  c_ssd :: SsdCounters
  c_ids :: Counters

end
