(* ===== verification/Catalog.thy ===== *)
theory Catalog
  imports Records
begin

text \<open>
  The operations of the catalog (\<^verbatim>\<open>catalog.rs\<close>): construction, the identifier counters, the
  registration and release of a legacy object in the typed maps, lookup, reuse and leases; and the
  helpers of \<^verbatim>\<open>common.rs\<close> that read an object or render a plan.
\<close>

section \<open>Construction\<close>

definition hbm_status_default :: HbmRuntimeStatus where
  "hbm_status_default =
     \<lparr> hs_available = False, hs_probe_attempted = False, hs_probe_bytes = 0,
       hs_probe_actual_bytes = 0, hs_probe_error = [], hs_last_error = [] \<rparr>"

text \<open>The provider registry depends on the process environment, so it is an argument.\<close>

definition catalog_new :: "int \<Rightarrow> Block list \<Rightarrow> 'p registry \<Rightarrow> 'p Catalog" where
  "catalog_new device blocks providers =
     \<lparr> c_device = device, c_hbm = hbm_status_default, c_shutdown_requested = False,
       c_blocks = blocks, c_clients = [], c_objects = [], c_data_objects = [], c_placements = [],
       c_resource_bindings = [], c_access_bindings = [],
       c_external_ddr = \<lparr> xd_backings = [], xd_views = [] \<rparr>, c_providers = providers,
       c_leases = [], c_transfer_plans = [], c_transfer_events = [],
       c_typed_transfer_plans = [], c_typed_transfer_events = [],
       c_simulated_object_plan_ids = [], c_simulated_access_plan_ids = [],
       c_simulated_plan_parent_event_ids = [],
       c_ssd = \<lparr> sc_read_bytes = 0, sc_write_bytes = 0, sc_read_ops = 0, sc_write_ops = 0 \<rparr>,
       c_ids = \<lparr> next_block_id = of_nat (length blocks) + 1, next_client_id = 1,
                 next_object_id = 100, next_placement_id = 10000,
                 next_resource_binding_id = 40000, next_access_binding_id = 50000,
                 next_lease_id = 1000, next_transfer_plan_id = 20000,
                 next_transfer_event_id = 30000 \<rparr> \<rparr>"

section \<open>Identifier counters\<close>

definition take_next_block_id :: "'p Catalog \<Rightarrow> u64 \<times> 'p Catalog" where
  "take_next_block_id st =
     (next_block_id (c_ids st),
      st\<lparr> c_ids := (c_ids st)\<lparr> next_block_id := next_block_id (c_ids st) + 1 \<rparr> \<rparr>)"

definition take_next_client_id :: "'p Catalog \<Rightarrow> u64 \<times> 'p Catalog" where
  "take_next_client_id st =
     (next_client_id (c_ids st),
      st\<lparr> c_ids := (c_ids st)\<lparr> next_client_id := next_client_id (c_ids st) + 1 \<rparr> \<rparr>)"

definition take_next_object_id :: "'p Catalog \<Rightarrow> u64 \<times> 'p Catalog" where
  "take_next_object_id st =
     (next_object_id (c_ids st),
      st\<lparr> c_ids := (c_ids st)\<lparr> next_object_id := next_object_id (c_ids st) + 1 \<rparr> \<rparr>)"

definition take_next_placement_id :: "'p Catalog \<Rightarrow> u64 \<times> 'p Catalog" where
  "take_next_placement_id st =
     (next_placement_id (c_ids st),
      st\<lparr> c_ids := (c_ids st)\<lparr> next_placement_id := next_placement_id (c_ids st) + 1 \<rparr> \<rparr>)"

definition take_next_lease_id :: "'p Catalog \<Rightarrow> u64 \<times> 'p Catalog" where
  "take_next_lease_id st =
     (next_lease_id (c_ids st),
      st\<lparr> c_ids := (c_ids st)\<lparr> next_lease_id := next_lease_id (c_ids st) + 1 \<rparr> \<rparr>)"

definition take_next_resource_binding_id :: "'p Catalog \<Rightarrow> u64 \<times> 'p Catalog" where
  "take_next_resource_binding_id st =
     (next_resource_binding_id (c_ids st),
      st\<lparr> c_ids := (c_ids st)\<lparr> next_resource_binding_id :=
            next_resource_binding_id (c_ids st) + 1 \<rparr> \<rparr>)"

definition take_next_access_binding_id :: "'p Catalog \<Rightarrow> u64 \<times> 'p Catalog" where
  "take_next_access_binding_id st =
     (next_access_binding_id (c_ids st),
      st\<lparr> c_ids := (c_ids st)\<lparr> next_access_binding_id :=
            next_access_binding_id (c_ids st) + 1 \<rparr> \<rparr>)"

definition take_next_transfer_plan_id :: "'p Catalog \<Rightarrow> u64 \<times> 'p Catalog" where
  "take_next_transfer_plan_id st =
     (next_transfer_plan_id (c_ids st),
      st\<lparr> c_ids := (c_ids st)\<lparr> next_transfer_plan_id :=
            next_transfer_plan_id (c_ids st) + 1 \<rparr> \<rparr>)"

definition take_next_transfer_event_id :: "'p Catalog \<Rightarrow> u64 \<times> 'p Catalog" where
  "take_next_transfer_event_id st =
     (next_transfer_event_id (c_ids st),
      st\<lparr> c_ids := (c_ids st)\<lparr> next_transfer_event_id :=
            next_transfer_event_id (c_ids st) + 1 \<rparr> \<rparr>)"

lemmas take_next_defs =
  take_next_block_id_def take_next_client_id_def take_next_object_id_def
  take_next_placement_id_def take_next_lease_id_def take_next_resource_binding_id_def
  take_next_access_binding_id_def take_next_transfer_plan_id_def take_next_transfer_event_id_def

text \<open>Each counter is an identifier allocator.\<close>

interpretation block_ids: id_allocator "\<lambda>st. next_block_id (c_ids st)" take_next_block_id
  by unfold_locales (simp_all add: take_next_defs)

interpretation client_ids: id_allocator "\<lambda>st. next_client_id (c_ids st)" take_next_client_id
  by unfold_locales (simp_all add: take_next_defs)

interpretation object_ids: id_allocator "\<lambda>st. next_object_id (c_ids st)" take_next_object_id
  by unfold_locales (simp_all add: take_next_defs)

interpretation placement_ids:
  id_allocator "\<lambda>st. next_placement_id (c_ids st)" take_next_placement_id
  by unfold_locales (simp_all add: take_next_defs)

interpretation lease_ids: id_allocator "\<lambda>st. next_lease_id (c_ids st)" take_next_lease_id
  by unfold_locales (simp_all add: take_next_defs)

interpretation binding_ids:
  id_allocator "\<lambda>st. next_resource_binding_id (c_ids st)" take_next_resource_binding_id
  by unfold_locales (simp_all add: take_next_defs)

interpretation access_ids:
  id_allocator "\<lambda>st. next_access_binding_id (c_ids st)" take_next_access_binding_id
  by unfold_locales (simp_all add: take_next_defs)

interpretation plan_ids:
  id_allocator "\<lambda>st. next_transfer_plan_id (c_ids st)" take_next_transfer_plan_id
  by unfold_locales (simp_all add: take_next_defs)

interpretation event_ids:
  id_allocator "\<lambda>st. next_transfer_event_id (c_ids st)" take_next_transfer_event_id
  by unfold_locales (simp_all add: take_next_defs)

section \<open>Legacy objects in the typed maps\<close>

record legacy_profile =
  lg_provider_id :: string
  lg_addressability :: Addressability
  lg_address_kind :: string
  lg_domain :: string
  lg_node_id :: string
  lg_device_id :: "int option"

definition legacy_profile_of :: "Object \<Rightarrow> legacy_profile" where
  "legacy_profile_of ob =
     (if ob_placement ob = ''hbm'' then
        \<lparr> lg_provider_id = ''local_acl'', lg_addressability = LocallyAddressable,
          lg_address_kind = ''shareable_handle'', lg_domain = ''local_node'',
          lg_node_id = ''local'',
          lg_device_id = Option.bind (strip_prefix ''npu:'' (ob_target ob)) (parse_signed 32) \<rparr>
      else if ob_placement ob = ''ddr'' then
        \<lparr> lg_provider_id = ''local_ddr'', lg_addressability = LocallyAddressable,
          lg_address_kind = ''mmap_path'', lg_domain = ''numa_node'',
          lg_node_id = ob_target ob, lg_device_id = None \<rparr>
      else if ob_placement ob = ''ssd'' then
        \<lparr> lg_provider_id = ''local_ssd'', lg_addressability = BlockDescriptor,
          lg_address_kind = ''file_path_offset'', lg_domain = ''local_ssd'',
          lg_node_id = ''local'', lg_device_id = None \<rparr>
      else
        \<lparr> lg_provider_id = ''legacy_unknown'', lg_addressability = ProviderOnly,
          lg_address_kind = ''virtual'', lg_domain = ''local_node'',
          lg_node_id = ''local'', lg_device_id = None \<rparr>)"

definition legacy_resource :: "Object \<Rightarrow> string \<times> bytes" where
  "legacy_resource ob =
     (if ob_placement ob = ''hbm'' then (''block:'' @ show_u64 (ob_block_id ob), [])
      else if ob_placement ob = ''ddr'' then
        (''ddr:'' @ show_u64 (ob_object_id ob), map of_char (ob_ddr_path ob))
      else if ob_placement ob = ''ssd'' then
        (''ssd:'' @ show_u64 (ob_object_id ob) @ '':'' @ show_u64 (ob_ssd_offset_bytes ob),
         map of_char (ob_ssd_path ob))
      else (''legacy:'' @ show_u64 (ob_object_id ob), []))"

definition legacy_data_object :: "Object \<Rightarrow> DataObject" where
  "legacy_data_object ob =
     \<lparr> do_object_id = ob_object_id ob, do_namespace = ob_model_id ob, do_name = ob_name ob,
       do_role = ob_role ob, do_size_bytes = ob_requested_bytes ob,
       do_consistency = (if ob_immutable ob then ''immutable'' else ''single_writer''),
       do_content_version = 1, do_owner = show_u64 (ob_creator_client_id ob),
       do_shape = ob_shape ob, do_dtype = ob_dtype ob, do_state = ob_state ob \<rparr>"

definition legacy_placement :: "Object \<Rightarrow> DataPlacement" where
  "legacy_placement ob =
     (let lg = legacy_profile_of ob in
      \<lparr> dp_placement_id = ob_placement_id ob, dp_object_id = ob_object_id ob,
        dp_medium = ob_placement ob, dp_node_id = lg_node_id lg, dp_device_id = lg_device_id lg,
        dp_domain = lg_domain lg, dp_address_kind = lg_address_kind lg,
        dp_provider_id = lg_provider_id lg, dp_execution_mode = EmPhysical,
        dp_execution_realm_id = ''physical:local'', dp_requested_fidelity = FiPhysical,
        dp_actual_fidelity = FiPhysical, dp_addressability = lg_addressability lg,
        dp_topology_generation = 1, dp_capability_generation = 1, dp_offset_bytes = 0,
        dp_nbytes = ob_requested_bytes ob, dp_state = ob_state ob \<rparr>)"

definition legacy_binding :: "Object \<Rightarrow> u64 \<Rightarrow> ResourceBinding" where
  "legacy_binding ob bid =
     (let pid = lg_provider_id (legacy_profile_of ob); (rid, desc) = legacy_resource ob in
      \<lparr> rb_binding_id = bid, rb_placement_id = ob_placement_id ob, rb_provider_id = pid,
        rb_provider_session_id = pid @ '':process'', rb_provider_resource_id = rid,
        rb_binding_generation = 1, rb_opaque_descriptor = desc, rb_allowed_offset_bytes = 0,
        rb_allowed_bytes = ob_requested_bytes ob,
        rb_limitations = [''legacy-compatibility-adapter''], rb_state = ob_state ob \<rparr>)"

definition record_legacy_object :: "Object \<Rightarrow> 'p Catalog \<Rightarrow> 'p Catalog" where
  "record_legacy_object ob st =
     (let st = st\<lparr> c_data_objects :=
                   hm_insert (ob_object_id ob) (legacy_data_object ob) (c_data_objects st),
                 c_placements :=
                   hm_insert (ob_placement_id ob) (legacy_placement ob) (c_placements st) \<rparr>;
          (bid, st) =
            (case List.find (\<lambda>b. rb_placement_id b = ob_placement_id ob)
                    (hm_values (c_resource_bindings st)) of
               Some b \<Rightarrow> (rb_binding_id b, st)
             | None \<Rightarrow> take_next_resource_binding_id st) in
      st\<lparr> c_resource_bindings :=
            hm_insert bid (legacy_binding ob bid) (c_resource_bindings st) \<rparr>)"

definition mark_object_released :: "u64 \<Rightarrow> 'p Catalog \<Rightarrow> 'p Catalog" where
  "mark_object_released oid st =
     (let pids = map dp_placement_id
                   (filter (\<lambda>p. dp_object_id p = oid) (hm_values (c_placements st))) in
      st\<lparr> c_data_objects := hm_modify oid (\<lambda>d. d\<lparr> do_state := ''Released'' \<rparr>) (c_data_objects st),
          c_placements := hm_update_where (\<lambda>p. dp_object_id p = oid)
            (\<lambda>p. p\<lparr> dp_state := ''Released'' \<rparr>) (c_placements st),
          c_resource_bindings := hm_update_where (\<lambda>b. list_ex (\<lambda>pid. pid = rb_placement_id b) pids)
            (\<lambda>b. b\<lparr> rb_state := ''Released'' \<rparr>) (c_resource_bindings st),
          c_access_bindings := hm_update_where (\<lambda>a. list_ex (\<lambda>pid. pid = ab_placement_id a) pids)
            (\<lambda>a. a\<lparr> ab_state := ''Stale'' \<rparr>) (c_access_bindings st) \<rparr>)"

section \<open>Lookup, reuse, leases\<close>

definition find_object_by_placement_id :: "'p Catalog \<Rightarrow> u64 \<Rightarrow> Object option" where
  "find_object_by_placement_id st pid =
     List.find (\<lambda>ob. ob_placement_id ob = pid) (hm_values (c_objects st))"

definition find_reusable_object ::
  "'p Catalog \<Rightarrow> string \<Rightarrow> string \<Rightarrow> string \<Rightarrow> string \<Rightarrow> string \<Rightarrow> u64 \<Rightarrow> bool \<Rightarrow> Object option" where
  "find_reusable_object st model_id name role placement target n immutable =
     (if model_id = [] \<or> name = [] \<or> role = [] \<or> \<not> immutable then None
      else List.find (\<lambda>ob. ob_immutable ob \<and> ob_model_id ob = model_id \<and> ob_name ob = name \<and>
             ob_role ob = role \<and> ob_placement ob = placement \<and>
             (target = [] \<or> ob_target ob = target) \<and> ob_requested_bytes ob = n \<and>
             ob_state ob \<noteq> ''Released'') (hm_values (c_objects st)))"

definition make_lease :: "u64 \<Rightarrow> Object \<Rightarrow> u64 \<Rightarrow> u64 \<Rightarrow> 'p Catalog \<Rightarrow> Lease \<times> 'p Catalog" where
  "make_lease client_id ob off n st =
     (let (lid, st) = take_next_lease_id st;
          lease = \<lparr> le_lease_id = lid, le_object_id = ob_object_id ob,
                    le_block_id = ob_block_id ob, le_client_id = client_id,
                    le_state = ''Active'', le_allowed_offset_bytes = off,
                    le_allowed_bytes = n \<rparr> in
      (lease, st\<lparr> c_leases := hm_insert lid lease (c_leases st) \<rparr>))"

section \<open>Helpers of common.rs\<close>

definition validate_target_matches_object :: "kv \<Rightarrow> Object \<Rightarrow> unit result" where
  "validate_target_matches_object req ob =
     (let target = get req ''target'' in
      if target = [] then Inr ()
      else if \<not> starts_with ''npu:'' target then Inl ''target must use npu:<device_id>''
      else if target \<noteq> ob_target ob then
        Inl (''target '' @ target @ '' does not match object target '' @ ob_target ob)
      else Inr ())"

definition show_existing :: "bool \<Rightarrow> string" where
  "show_existing b = (if b then ''1'' else ''0'')"

definition create_lease_response :: "Object \<Rightarrow> Lease \<Rightarrow> HbmExport \<Rightarrow> u64 \<Rightarrow> bool \<Rightarrow> kv" where
  "create_lease_response ob lease ex n existing = ok
     [(''object_id'', show_u64 (ob_object_id ob)),
      (''placement_id'', show_u64 (ob_placement_id ob)),
      (''lease_id'', show_u64 (le_lease_id lease)), (''placement'', ''hbm''),
      (''target'', ob_target ob), (''address_kind'', ''shareable_handle''),
      (''device_id'', show_int (ex_device_id ex)),
      (''actual_bytes'', show_u64 (ex_actual_bytes ex)), (''requested_bytes'', show_u64 n),
      (''shareable'', show_u64 (ex_shareable ex)), (''existing'', show_existing existing)]"

definition object_by_request :: "kv \<Rightarrow> 'p Catalog \<Rightarrow> string \<Rightarrow> string \<Rightarrow> Object option" where
  "object_by_request req st object_key placement_key =
     (let oid = get_u64 req object_key in
      if oid \<noteq> 0 then hm_get (c_objects st) oid
      else let pid = get_u64 req placement_key in
        if pid \<noteq> 0 then find_object_by_placement_id st pid else None)"

definition address_kind :: "Object \<Rightarrow> string" where
  "address_kind ob =
     (if ob_placement ob = ''hbm'' then ''shareable_handle''
      else if ob_placement ob = ''ddr'' then ''mmap_path''
      else if ob_placement ob = ''ssd'' then ''file_path_offset''
      else ''virtual'')"

end
