(* ===== verification/Host.thy ===== *)
theory Host
  imports Catalog
begin

text \<open>
  What the object service needs from the machine: the host-memory and file backends
  (\<^verbatim>\<open>ddr_backend.rs\<close>, the allocation half of \<^verbatim>\<open>ssd_backend.rs\<close>) and the device-memory
  backend (\<^verbatim>\<open>acl_backend/hbm_memory.rs\<close>).

  The kernel and the vendor's ACL runtime are code outside the repository: their calls are the
  fields of the records \<open>os\<close> and \<open>acl\<close>, arguments of the functions that make them, and every
  theorem holds for arbitrary results of these calls. A file descriptor is an integer, a mapping
  its address. Each elapsed-time reading is a field too.
\<close>

section \<open>Calls outside the repository\<close>

record statvfs =
  f_blocks :: u64
  f_bfree :: u64
  f_bavail :: u64
  f_frsize :: u64
  f_bsize :: u64

record os =
  os_env :: environment
  os_pid :: nat
  os_create_dir_all :: "string \<Rightarrow> unit result"
  os_statvfs :: "string \<Rightarrow> statvfs option"
  os_read_file :: "string \<Rightarrow> string option"
  os_memfd_create :: "string \<Rightarrow> nat + int"
  os_open_truncate :: "string \<Rightarrow> int result"
  os_open_new :: "string \<Rightarrow> int result"
  os_set_len :: "int \<Rightarrow> u64 \<Rightarrow> unit result"
  os_fallocate :: "int \<Rightarrow> u64 \<Rightarrow> int"
  os_mmap :: "int \<Rightarrow> u64 \<Rightarrow> u64 option"
  os_madvise :: "u64 \<Rightarrow> u64 \<Rightarrow> nat"
  os_munmap :: "u64 \<Rightarrow> u64 \<Rightarrow> nat"
  os_close :: "int \<Rightarrow> nat"
  os_remove_file :: "string \<Rightarrow> unit result"
  os_elapsed_us :: "string \<Rightarrow> f64"

text \<open>
  The ACL calls, each with the message of the status it fills in. The block an allocation or
  export call fills in has the fields of the daemon's own allocation record.
\<close>

record acl =
  acl_alloc_physical :: "int \<Rightarrow> u64 \<Rightarrow> HbmAllocation result"
  acl_export_shareable :: "HbmAllocation \<Rightarrow> HbmAllocation result"
  acl_set_pid_access :: "u64 \<Rightarrow> int \<Rightarrow> unit result"
  acl_free_physical :: "u64 \<Rightarrow> unit result"

section \<open>Device memory (hbm\_memory.rs)\<close>

definition acl_check :: "string \<Rightarrow> 'a result \<Rightarrow> 'a result" where
  "acl_check what r = (case r of Inr x \<Rightarrow> Inr x | Inl msg \<Rightarrow> Inl (what @ '' failed: '' @ msg))"

definition hbm_allocate :: "acl \<Rightarrow> int \<Rightarrow> u64 \<Rightarrow> HbmAllocation result" where
  "hbm_allocate a dev n =
     rbind (acl_check ''alloc_physical'' (acl_alloc_physical a dev n)) (\<lambda>block.
       acl_check ''export_shareable'' (acl_export_shareable a block))"

definition export_for_client :: "acl \<Rightarrow> HbmAllocation \<Rightarrow> int \<Rightarrow> HbmExport result" where
  "export_for_client a alloc tgid =
     rbind (acl_check ''set_pid_access'' (acl_set_pid_access a (al_raw_handle_id alloc) tgid))
       (\<lambda>_. Inr \<lparr> ex_shareable = al_shareable alloc, ex_actual_bytes = al_actual_bytes alloc,
                  ex_device_id = al_device_id alloc \<rparr>)"

definition hbm_free :: "acl \<Rightarrow> HbmAllocation \<Rightarrow> unit result" where
  "hbm_free a alloc = acl_check ''free_physical'' (acl_free_physical a (al_raw_handle_id alloc))"

section \<open>Paths\<close>

definition path_join :: "string \<Rightarrow> string \<Rightarrow> string" where
  "path_join dir name =
     (if dir = [] \<or> last dir = CHR ''/'' then dir @ name else dir @ ''/'' @ name)"

definition env_default :: "environment \<Rightarrow> string \<Rightarrow> string \<Rightarrow> string" where
  "env_default env key dflt = (case env key of Some v \<Rightarrow> v | None \<Rightarrow> dflt)"

definition statvfs_bytes :: "os \<Rightarrow> string \<Rightarrow> u64 \<times> u64 \<times> u64" where
  "statvfs_bytes o_s dir =
     (if CHR 0x00 \<in> set dir then (0, 0, 0)
      else case os_statvfs o_s dir of
        None \<Rightarrow> (0, 0, 0)
      | Some v \<Rightarrow>
          let frsize = (if f_frsize v = 0 then f_bsize v else f_frsize v) in
          (f_blocks v * frsize, f_bfree v * frsize, f_bavail v * frsize))"

section \<open>Host memory (ddr\_backend.rs)\<close>

definition ddr_root_for_node :: "environment \<Rightarrow> nat \<Rightarrow> string" where
  "ddr_root_for_node env node =
     (case env (''UF_DDR_ROOT_NODE'' @ show_nat node) of
        Some dir \<Rightarrow> dir
      | None \<Rightarrow> env_default env ''UF_DDR_ROOT'' ''/dev/shm'')"

definition ddr_path :: "environment \<Rightarrow> u64 \<Rightarrow> nat \<Rightarrow> string" where
  "ddr_path env oid node =
     path_join (ddr_root_for_node env node) (''uflow_ddr_object_'' @ show_u64 oid)"

definition ddr_use_memfd :: "environment \<Rightarrow> bool" where
  "ddr_use_memfd env = env_bool env ''UF_DDR_USE_MEMFD'' True"

record DdrPrepareInfo =
  pi_fast_profile :: string
  pi_service_ptr :: u64
  pi_service_len :: u64
  pi_madvise_hugepage :: bool
  pi_pretouched :: bool
  pi_madvise_us :: f64
  pi_pretouch_us :: f64
  pi_total_us :: f64
  pi_fallback_reason :: string

definition create_memfd_file :: "os \<Rightarrow> string \<Rightarrow> u64 \<Rightarrow> int result" where
  "create_memfd_file o_s name len =
     (if CHR 0x00 \<in> set name then Inl ''memfd name contains nul byte''
      else case os_memfd_create o_s name of
        Inl errno \<Rightarrow> Inl (''memfd_create failed errno='' @ show_nat errno)
      | Inr fd \<Rightarrow>
          (case os_set_len o_s fd len of
             Inl e \<Rightarrow> Inl (''resize memfd DDR object failed: '' @ e)
           | Inr _ \<Rightarrow> Inr fd))"

definition proc_fd_path :: "os \<Rightarrow> int \<Rightarrow> string" where
  "proc_fd_path o_s fd = ''/proc/'' @ show_nat (os_pid o_s) @ ''/fd/'' @ show_int fd"

definition close_ddr_fd :: "os \<Rightarrow> int \<Rightarrow> unit result" where
  "close_ddr_fd o_s fd =
     (if fd < 0 then Inr ()
      else let errno = os_close o_s fd in
        if errno \<noteq> 0 then Inl (''close DDR memfd failed errno='' @ show_nat errno) else Inr ())"

definition fast_profile_of :: "bool \<Rightarrow> bool \<Rightarrow> string" where
  "fast_profile_of huge touched =
     (if huge then (if touched then ''thp_pretouched'' else ''thp_lazy'')
      else (if touched then ''pretouched'' else ''mmap_lazy''))"

text \<open>
  Preparing the file: map it, ask for huge pages, touch every page. Touching writes zeros into a
  file of zeros; only its being done is recorded.
\<close>

definition prepare_ddr_file :: "os \<Rightarrow> int \<Rightarrow> u64 \<Rightarrow> DdrPrepareInfo result" where
  "prepare_ddr_file o_s fd len =
     (let use_hugepage = env_bool (os_env o_s) ''UF_DDR_MADVISE_HUGEPAGE'' True;
          use_pretouch = env_bool (os_env o_s) ''UF_DDR_PRETOUCH_ON_CREATE'' True;
          info = \<lparr> pi_fast_profile =
                     (if use_hugepage \<or> use_pretouch then ''preparing'' else ''mmap_lazy''),
                   pi_service_ptr = 0, pi_service_len = 0, pi_madvise_hugepage = False,
                   pi_pretouched = False, pi_madvise_us = f0, pi_pretouch_us = f0,
                   pi_total_us = f0, pi_fallback_reason = [] \<rparr> in
      if len = 0 then Inr (info\<lparr> pi_fast_profile := ''empty'' \<rparr>)
      else if \<not> use_hugepage \<and> \<not> use_pretouch then
        Inr (info\<lparr> pi_total_us := os_elapsed_us o_s ''ddr_prepare'' \<rparr>)
      else case os_mmap o_s fd len of
        None \<Rightarrow> Inl ''mmap DDR object for prepare failed''
      | Some ptr \<Rightarrow>
          let errno = os_madvise o_s ptr len;
              info = info\<lparr> pi_service_ptr := ptr, pi_service_len := len \<rparr>;
              info = (if use_hugepage then
                        info\<lparr> pi_madvise_us := os_elapsed_us o_s ''ddr_madvise'',
                              pi_madvise_hugepage := (errno = 0),
                              pi_fallback_reason := (if errno = 0 then []
                                else ''madvise_hugepage_failed_errno_'' @ show_nat errno) \<rparr>
                      else info);
              info = (if use_pretouch then
                        info\<lparr> pi_pretouched := True,
                              pi_pretouch_us := os_elapsed_us o_s ''ddr_pretouch'' \<rparr>
                      else info) in
          Inr (info\<lparr> pi_total_us := os_elapsed_us o_s ''ddr_prepare'',
                     pi_fast_profile :=
                       fast_profile_of (pi_madvise_hugepage info) (pi_pretouched info) \<rparr>))"

definition unmap_ddr_service_mapping :: "os \<Rightarrow> u64 \<Rightarrow> u64 \<Rightarrow> unit result" where
  "unmap_ddr_service_mapping o_s ptr len =
     (if ptr = 0 \<or> len = 0 then Inr ()
      else let errno = os_munmap o_s ptr len in
        if errno \<noteq> 0 then Inl (''munmap DDR service mapping failed errno='' @ show_nat errno)
        else Inr ())"

definition read_u64_file :: "os \<Rightarrow> string \<Rightarrow> u64 option" where
  "read_u64_file o_s path =
     Option.bind (os_read_file o_s path) (\<lambda>text.
       if trim text = ''max'' then Some u64_max else parse_u64 (trim text))"

definition or_else :: "'a option \<Rightarrow> 'a option \<Rightarrow> 'a option" where
  "or_else a b = (case a of Some x \<Rightarrow> Some x | None \<Rightarrow> b)"

definition cgroup_memory :: "os \<Rightarrow> u64 \<times> u64" where
  "cgroup_memory o_s =
     (case or_else (read_u64_file o_s ''/sys/fs/cgroup/memory.max'')
             (read_u64_file o_s ''/sys/fs/cgroup/memory/memory.limit_in_bytes'') of
        Some n \<Rightarrow> n | None \<Rightarrow> u64_max,
      case or_else (read_u64_file o_s ''/sys/fs/cgroup/memory.current'')
             (read_u64_file o_s ''/sys/fs/cgroup/memory/memory.usage_in_bytes'') of
        Some n \<Rightarrow> n | None \<Rightarrow> 0)"

definition ddr_committed_bytes :: "'p Catalog \<Rightarrow> nat option \<Rightarrow> u64" where
  "ddr_committed_bytes st node =
     sum_list (map ob_actual_bytes
       (filter (\<lambda>ob. ob_placement ob = ''ddr'' \<and>
          (case node of Some n \<Rightarrow> ob_target ob = ''host:'' @ show_nat n | None \<Rightarrow> True))
          (hm_values (c_objects st))))"

text \<open>The free memory of the NUMA node, which is only reported, is left out of the record.\<close>

record DdrInfo =
  di_node :: nat
  di_root :: string
  di_fs_total :: u64
  di_fs_free :: u64
  di_fs_available :: u64
  di_cgroup_limit :: u64
  di_cgroup_current :: u64
  di_committed :: u64
  di_safe_allocatable :: u64

definition env_u64 :: "environment \<Rightarrow> string \<Rightarrow> u64 option" where
  "env_u64 env key = Option.bind (env key) parse_u64"

definition ddr_info_with_committed :: "os \<Rightarrow> nat \<Rightarrow> u64 \<Rightarrow> DdrInfo" where
  "ddr_info_with_committed o_s node committed =
     (let dir = ddr_root_for_node (os_env o_s) node;
          (fs_total, fs_free, fs_available) = statvfs_bytes o_s dir;
          (limit, current) = cgroup_memory o_s;
          remaining = (if limit = u64_max then u64_max else saturating_sub limit current);
          safety = (case env_u64 (os_env o_s) ''UF_DDR_SAFETY_BYTES'' of
                      Some n \<Rightarrow> n | None \<Rightarrow> 64 * 1024 * 1024) in
      \<lparr> di_node = node, di_root = dir, di_fs_total = fs_total, di_fs_free = fs_free,
        di_fs_available = fs_available, di_cgroup_limit = limit, di_cgroup_current = current,
        di_committed = committed,
        di_safe_allocatable = saturating_sub (min fs_available remaining) safety \<rparr>)"

definition ddr_info :: "os \<Rightarrow> 'p Catalog \<Rightarrow> nat \<Rightarrow> DdrInfo" where
  "ddr_info o_s st node = ddr_info_with_committed o_s node (ddr_committed_bytes st (Some node))"

section \<open>Files on SSD (ssd\_backend.rs)\<close>

definition ssd_root :: "environment \<Rightarrow> string" where
  "ssd_root env = env_default env ''UF_SSD_ROOT'' ''/data/uflow_ssd''"

definition ensure_ssd_root :: "os \<Rightarrow> string result" where
  "ensure_ssd_root o_s =
     (let dir = ssd_root (os_env o_s) in
      case os_create_dir_all o_s dir of
        Inl e \<Rightarrow> Inl (''create SSD root failed: '' @ e)
      | Inr _ \<Rightarrow> Inr dir)"

definition ssd_io_mode :: "environment \<Rightarrow> string" where
  "ssd_io_mode env = env_default env ''UF_SSD_IO_MODE'' ''buffered''"

definition positive_or :: "u64 \<Rightarrow> u64 option \<Rightarrow> u64" where
  "positive_or dflt v = (case v of Some n \<Rightarrow> if n > 0 then n else dflt | None \<Rightarrow> dflt)"

definition ssd_alignment_bytes :: "environment \<Rightarrow> u64" where
  "ssd_alignment_bytes env = positive_or 4096 (env_u64 env ''UF_SSD_ALIGN_BYTES'')"

definition ssd_chunk_bytes :: "environment \<Rightarrow> u64" where
  "ssd_chunk_bytes env = positive_or (64 * 1024 * 1024) (env_u64 env ''UF_SSD_CHUNK_BYTES'')"

definition ssd_path :: "environment \<Rightarrow> u64 \<Rightarrow> string" where
  "ssd_path env oid = path_join (ssd_root env) (''uflow_ssd_object_'' @ show_u64 oid)"

definition align_up :: "u64 \<Rightarrow> u64 \<Rightarrow> u64" where
  "align_up v a =
     (if a \<le> 1 then v
      else let r = v mod a in if r = 0 then v else saturating_add v (a - r))"

record SsdCreateInfo =
  si_path :: string
  si_requested_bytes :: u64
  si_actual_bytes :: u64
  si_alignment_bytes :: u64
  si_io_mode :: string
  si_preallocated :: bool

record SsdInfo =
  sf_root :: string
  sf_fs_total :: u64
  sf_fs_free :: u64
  sf_fs_available :: u64
  sf_committed :: u64
  sf_safe_allocatable :: u64
  sf_alignment_bytes :: u64
  sf_io_mode :: string

definition ssd_committed_bytes :: "'p Catalog \<Rightarrow> u64" where
  "ssd_committed_bytes st =
     sum_list (map ob_actual_bytes
       (filter (\<lambda>ob. ob_placement ob = ''ssd'') (hm_values (c_objects st))))"

definition ssd_info_with_committed :: "os \<Rightarrow> u64 \<Rightarrow> SsdInfo" where
  "ssd_info_with_committed o_s committed =
     (let dir = ssd_root (os_env o_s);
          (fs_total, fs_free, fs_available) = statvfs_bytes o_s dir in
      \<lparr> sf_root = dir, sf_fs_total = fs_total, sf_fs_free = fs_free,
        sf_fs_available = fs_available, sf_committed = committed,
        sf_safe_allocatable = fs_available,
        sf_alignment_bytes = ssd_alignment_bytes (os_env o_s),
        sf_io_mode = ssd_io_mode (os_env o_s) \<rparr>)"

definition ssd_info :: "os \<Rightarrow> 'p Catalog \<Rightarrow> SsdInfo" where
  "ssd_info o_s st = ssd_info_with_committed o_s (ssd_committed_bytes st)"

definition preallocate_file :: "os \<Rightarrow> int \<Rightarrow> u64 \<Rightarrow> unit result" where
  "preallocate_file o_s fd n =
     (let rc = os_fallocate o_s fd n in
      if rc = 0 then Inr ()
      else Inl (''preallocate SSD object file failed errno='' @ show_int rc))"

text \<open>A failed step after the file exists removes it again and ignores the outcome of that.\<close>

definition create_ssd_file :: "os \<Rightarrow> u64 \<Rightarrow> u64 \<Rightarrow> SsdCreateInfo result" where
  "create_ssd_file o_s oid requested =
     (if requested = 0 then Inl ''nbytes is required''
      else rbind (ensure_ssd_root o_s) (\<lambda>_.
        let alignment = ssd_alignment_bytes (os_env o_s);
            actual = align_up requested alignment;
            path = ssd_path (os_env o_s) oid in
        case os_open_new o_s path of
          Inl e \<Rightarrow> Inl (''create SSD object file failed: '' @ e)
        | Inr fd \<Rightarrow>
            (case os_set_len o_s fd actual of
               Inl e \<Rightarrow> Inl (''resize SSD object file failed: '' @ e)
             | Inr _ \<Rightarrow>
                 let pre = env_bool (os_env o_s) ''UF_SSD_PREALLOCATE'' True in
                 rbind (if pre then preallocate_file o_s fd actual else Inr ()) (\<lambda>_.
                   Inr \<lparr> si_path = path, si_requested_bytes = requested,
                         si_actual_bytes = actual, si_alignment_bytes = alignment,
                         si_io_mode = ssd_io_mode (os_env o_s), si_preallocated = pre \<rparr>))))"

definition remove_ssd_file :: "os \<Rightarrow> Object \<Rightarrow> unit result" where
  "remove_ssd_file o_s ob =
     (if \<not> ob_ssd_file_owned ob \<or> ob_ssd_path ob = [] then Inr ()
      else case os_remove_file o_s (ob_ssd_path ob) of
        Inl e \<Rightarrow> Inl (''remove SSD object file failed: '' @ e)
      | Inr _ \<Rightarrow> Inr ())"

section \<open>Laws\<close>

lemma div_mult_add_below: "r < y \<Longrightarrow> (k * y + r) div y = (k :: nat)"
  using div_mult_self1 [of y r k] by (simp add: add.commute)

text \<open>Rounding up to a multiple, on naturals.\<close>

lemma round_up_least:
  fixes x y :: nat
  assumes "0 < y"
  defines "m \<equiv> (x + y - 1) div y * y"
  shows "x \<le> m" and "y dvd m" and "y dvd n \<Longrightarrow> x \<le> n \<Longrightarrow> m \<le> n"
proof -
  have "x + y - 1 = m + (x + y - 1) mod y" by (simp add: m_def)
  moreover have "(x + y - 1) mod y < y" using assms(1) by simp
  ultimately show "x \<le> m" using assms(1) by linarith
  show "y dvd m" by (simp add: m_def)
  show "m \<le> n" if "y dvd n" and "x \<le> n"
  proof -
    from that(1) obtain k where n: "n = k * y" by (auto simp: dvd_def mult.commute)
    have "(x + y - 1) div y \<le> (k * y + (y - 1)) div y"
      using that(2) assms(1) n by (intro div_le_mono) simp
    also have "\<dots> = k" using assms(1) by (intro div_mult_add_below) simp
    finally show ?thesis by (simp add: m_def n)
  qed
qed

lemma align_up_nat:
  assumes "0 < a"
  shows "unat (align_up v a) =
    (let m = (unat v + unat a - 1) div unat a * unat a in if m < 2 ^ 64 then m else 2 ^ 64 - 1)"
proof -
  define x y where "x = unat v" and "y = unat a"
  have y: "0 < y" using assms by (simp add: y_def word_less_nat_alt)
  have x: "x < 2 ^ 64" and yb: "y < 2 ^ 64" unfolding x_def y_def by (rule unat_less_u64)+
  have r: "unat (v mod a) = x mod y" by (simp add: unat_mod x_def y_def)
  have round: "(x + y - 1) div y * y = (if x mod y = 0 then x else x + (y - x mod y))"
  proof (cases "x mod y = 0")
    case True
    then obtain k where k: "x = k * y" by (auto simp: mod_eq_0_iff_dvd dvd_def mult.commute)
    have "(k * y + (y - 1)) div y = k" using y by (intro div_mult_add_below) simp
    with k True y show ?thesis by (simp add: add_diff_eq)
  next
    case False
    have xd: "x = x div y * y + x mod y" by simp
    have "x + y - 1 = (x div y + 1) * y + (x mod y - 1)" using False xd y by simp
    moreover have "x mod y - 1 < y" using mod_less_divisor [OF y, of x] by linarith
    ultimately have "(x + y - 1) div y = x div y + 1" by (metis div_mult_add_below)
    moreover have "(x div y + 1) * y = x + (y - x mod y)"
      using xd mod_less_divisor [OF y, of x] unfolding distrib_right by linarith
    ultimately show ?thesis using False by simp
  qed
  have zero: "v mod a = 0 \<longleftrightarrow> x mod y = 0" by (metis r unat_0 word_unat_eq_iff)
  show ?thesis
  proof (cases "a \<le> 1")
    case True
    with assms have "y = 1" by (simp add: y_def word_le_nat_alt word_less_nat_alt)
    with x True show ?thesis
      by (simp add: align_up_def x_def [symmetric] y_def [symmetric])
  next
    case False
    have "v mod a \<le> a" using mod_less_divisor [OF y, of x] by (simp add: word_le_nat_alt r y_def)
    then have sub: "unat (a - v mod a) = y - x mod y" by (simp add: unat_sub_u64 r y_def)
    show ?thesis
      using False x round
      by (auto simp: align_up_def zero unat_saturating_add sub x_def [symmetric] y_def [symmetric]
          min_def Let_def)
  qed
qed

text \<open>
  Alignment of a file size: the size of the file is at least what was requested, and it is the
  smallest multiple of the alignment with that property unless that multiple exceeds 64 bits, in
  which case it is the largest 64-bit value.
\<close>

theorem align_up_least:
  assumes "0 < a"
  shows "unat v \<le> unat (align_up v a) \<and>
    (if \<exists>m < 2 ^ 64. unat a dvd m \<and> unat v \<le> m
     then unat a dvd unat (align_up v a) \<and>
          (\<forall>m. unat a dvd m \<longrightarrow> unat v \<le> m \<longrightarrow> unat (align_up v a) \<le> m)
     else align_up v a = u64_max)"
proof -
  let ?m = "(unat v + unat a - 1) div unat a * unat a"
  have y: "0 < unat a" using assms by (simp add: word_less_nat_alt)
  note m = round_up_least [OF y, where x = "unat v"]
  have fits: "(\<exists>m < 2 ^ 64. unat a dvd m \<and> unat v \<le> m) \<longleftrightarrow> ?m < 2 ^ 64"
    using m by (meson order.strict_trans1)
  have val: "unat (align_up v a) = (if ?m < 2 ^ 64 then ?m else 2 ^ 64 - 1)"
    using align_up_nat [OF assms] by (simp add: Let_def)
  show ?thesis
  proof (cases "?m < 2 ^ 64")
    case True
    with m val show ?thesis unfolding fits by simp
  next
    case False
    with val have "unat (align_up v a) = unat u64_max" by (simp add: unat_u64_max)
    then have "align_up v a = u64_max" by (rule word_unat_eq_iff [THEN iffD2])
    with False unat_le_u64 [of v] show ?thesis unfolding fits by (simp add: unat_u64_max)
  qed
qed

theorem align_up_least_witness:
  "unat (align_up 5000 4096) = 8192 \<and> unat (align_up 5000 4096) \<le> 12288"
proof -
  have "\<exists>m < 2 ^ 64. unat (4096 :: u64) dvd m \<and> unat (5000 :: u64) \<le> m"
    by (rule exI [of _ 8192]) simp
  then have "\<forall>m. 4096 dvd m \<longrightarrow> 5000 \<le> m \<longrightarrow> unat (align_up 5000 4096) \<le> m"
    using align_up_least [of 4096 5000] by simp
  then have "unat (align_up 5000 4096) \<le> 12288" by simp
  moreover have "unat (align_up 5000 4096) = 8192" by code_simp
  ultimately show ?thesis by simp
qed

end
