(* ===== verification/Objects.thy ===== *)
theory Objects
  imports Host
begin

text \<open>
  The object service (\<^verbatim>\<open>object_service.rs\<close>): creation of DDR, SSD and HBM objects, opening,
  release with the clean-up of the backing resource, description, client and model registration,
  state marks, leases, model listing and shutdown.

  Every handler holds the catalog lock from its first read to its last write, so it is a function
  of the catalog; release performs its clean-up after unlocking and returns the list of clean-up
  calls it made. Log lines and trace spans are not modelled.
\<close>

section \<open>Lease responses\<close>

definition create_ddr_lease_response :: "Object \<Rightarrow> Lease \<Rightarrow> bool \<Rightarrow> kv" where
  "create_ddr_lease_response ob lease existing = ok
     [(''object_id'', show_u64 (ob_object_id ob)),
      (''placement_id'', show_u64 (ob_placement_id ob)),
      (''lease_id'', show_u64 (le_lease_id lease)), (''placement'', ''ddr''),
      (''target'', ob_target ob), (''address_kind'', ''mmap_path''),
      (''backing_path'', ob_ddr_path ob), (''ddr_path'', ob_ddr_path ob),
      (''ddr_fast_profile'', ob_ddr_fast_profile ob),
      (''ddr_madvise_hugepage'', show_bool (ob_ddr_madvise_hugepage ob)),
      (''ddr_pretouched'', show_bool (ob_ddr_pretouched ob)),
      (''ddr_prepare_us'', fmt3 (ob_ddr_prepare_us ob)),
      (''ddr_madvise_us'', fmt3 (ob_ddr_madvise_us ob)),
      (''ddr_pretouch_us'', fmt3 (ob_ddr_pretouch_us ob)),
      (''ddr_fallback_reason'', sanitize_kv_value (ob_ddr_fallback_reason ob)),
      (''actual_bytes'', show_u64 (ob_actual_bytes ob)),
      (''requested_bytes'', show_u64 (ob_requested_bytes ob)),
      (''allowed_offset_bytes'', show_u64 (le_allowed_offset_bytes lease)),
      (''allowed_bytes'', show_u64 (le_allowed_bytes lease)),
      (''existing'', show_existing existing)]"

definition create_ssd_lease_response :: "Object \<Rightarrow> Lease \<Rightarrow> bool \<Rightarrow> kv" where
  "create_ssd_lease_response ob lease existing = ok
     [(''object_id'', show_u64 (ob_object_id ob)),
      (''placement_id'', show_u64 (ob_placement_id ob)),
      (''lease_id'', show_u64 (le_lease_id lease)), (''placement'', ''ssd''),
      (''medium'', ''ssd''), (''target'', ob_target ob),
      (''address_kind'', ''file_path_offset''), (''backing_path'', ob_ssd_path ob),
      (''ssd_path'', ob_ssd_path ob),
      (''ssd_offset_bytes'', show_u64 (ob_ssd_offset_bytes ob)),
      (''requested_bytes'', show_u64 (ob_requested_bytes ob)),
      (''actual_bytes'', show_u64 (ob_actual_bytes ob)),
      (''alignment_bytes'', show_u64 (ob_ssd_alignment_bytes ob)),
      (''ssd_io_mode'', ob_ssd_io_mode ob),
      (''ssd_preallocated'', show_bool (ob_ssd_preallocated ob)),
      (''allowed_offset_bytes'', show_u64 (le_allowed_offset_bytes lease)),
      (''allowed_bytes'', show_u64 (le_allowed_bytes lease)),
      (''existing'', show_existing existing)]"

section \<open>Creation\<close>

text \<open>The fields of a new object that come from the request.\<close>

definition blank_object :: "kv \<Rightarrow> u64 \<Rightarrow> u64 \<Rightarrow> u64 \<Rightarrow> Object" where
  "blank_object req oid pid client_id =
     \<lparr> ob_object_id = oid, ob_placement_id = pid, ob_block_id = 0, ob_placement = [],
       ob_target = [], ob_ddr_path = [], ob_ddr_fd = -1, ob_ddr_service_ptr = 0,
       ob_ddr_service_len = 0, ob_requested_bytes = 0, ob_actual_bytes = 0,
       ob_state = ''Created'', ob_creator_client_id = client_id,
       ob_modified_offset_bytes = 0, ob_modified_bytes = 0, ob_model_id = get req ''model_id'',
       ob_name = get req ''name'', ob_role = role_from_req req, ob_shape = get req ''shape'',
       ob_dtype = get req ''dtype'', ob_immutable = get_bool req ''immutable'',
       ob_ddr_fast_profile = [], ob_ddr_madvise_hugepage = False, ob_ddr_pretouched = False,
       ob_ddr_prepare_us = f0, ob_ddr_madvise_us = f0, ob_ddr_pretouch_us = f0,
       ob_ddr_fallback_reason = [], ob_ssd_path = [], ob_ssd_offset_bytes = 0,
       ob_ssd_alignment_bytes = 0, ob_ssd_io_mode = [], ob_ssd_file_owned = False,
       ob_ssd_preallocated = False \<rparr>"

text \<open>\<^verbatim>\<open>st.objects.insert(..); st.record_legacy_object(..)\<close>.\<close>

definition add_object :: "Object \<Rightarrow> 'p Catalog \<Rightarrow> 'p Catalog" where
  "add_object ob st =
     record_legacy_object ob (st\<lparr> c_objects := hm_insert (ob_object_id ob) ob (c_objects st) \<rparr>)"

definition reusable :: "kv \<Rightarrow> 'p Catalog \<Rightarrow> string \<Rightarrow> string \<Rightarrow> u64 \<Rightarrow> Object option" where
  "reusable req st placement target n =
     find_reusable_object st (get req ''model_id'') (get req ''name'') (role_from_req req)
       placement target n (get_bool req ''immutable'')"

text \<open>The backing of a DDR object: a memfd, or a file below the node's root.\<close>

definition open_ddr_backing :: "os \<Rightarrow> u64 \<Rightarrow> nat \<Rightarrow> u64 \<Rightarrow> int result" where
  "open_ddr_backing o_s oid node n =
     (if ddr_use_memfd (os_env o_s)
      then create_memfd_file o_s (''uflow_ddr_object_'' @ show_u64 oid) n
      else case os_open_truncate o_s (ddr_path (os_env o_s) oid node) of
        Inl e \<Rightarrow> Inl (''create DDR object file failed: '' @ e)
      | Inr fd \<Rightarrow>
          (case os_set_len o_s fd n of
             Inl e \<Rightarrow> Inl (''resize DDR object file failed: '' @ e)
           | Inr _ \<Rightarrow> Inr fd))"

definition ddr_object ::
  "os \<Rightarrow> kv \<Rightarrow> u64 \<Rightarrow> u64 \<Rightarrow> u64 \<Rightarrow> nat \<Rightarrow> u64 \<Rightarrow> int \<Rightarrow> DdrPrepareInfo \<Rightarrow> Object" where
  "ddr_object o_s req oid pid client_id node n fd info =
     (let memfd = ddr_use_memfd (os_env o_s) in
      (blank_object req oid pid client_id)
       \<lparr> ob_placement := ''ddr'', ob_target := ''host:'' @ show_nat node,
         ob_ddr_path := (if memfd then proc_fd_path o_s fd else ddr_path (os_env o_s) oid node),
         ob_ddr_fd := (if memfd then fd else -1), ob_ddr_service_ptr := pi_service_ptr info,
         ob_ddr_service_len := pi_service_len info, ob_requested_bytes := n,
         ob_actual_bytes := n, ob_ddr_fast_profile := pi_fast_profile info,
         ob_ddr_madvise_hugepage := pi_madvise_hugepage info,
         ob_ddr_pretouched := pi_pretouched info, ob_ddr_prepare_us := pi_total_us info,
         ob_ddr_madvise_us := pi_madvise_us info, ob_ddr_pretouch_us := pi_pretouch_us info,
         ob_ddr_fallback_reason := pi_fallback_reason info \<rparr>)"

text \<open>The steps after the preflight check; the identifiers are taken before the file is made.\<close>

definition allocate_ddr_object ::
  "os \<Rightarrow> kv \<Rightarrow> u64 \<Rightarrow> nat \<Rightarrow> u64 \<Rightarrow> 'p Catalog \<Rightarrow> kv \<times> 'p Catalog" where
  "allocate_ddr_object o_s req client_id node n st =
     (let (oid, st) = take_next_object_id st; (pid, st) = take_next_placement_id st in
      case open_ddr_backing o_s oid node n of
        Inl e \<Rightarrow> (err e, st)
      | Inr fd \<Rightarrow>
          (case prepare_ddr_file o_s fd n of
             Inl e \<Rightarrow> (err (''prepare DDR object failed: '' @ e), st)
           | Inr info \<Rightarrow>
               let ob = ddr_object o_s req oid pid client_id node n fd info;
                   (lease, st) = make_lease client_id ob 0 n (add_object ob st) in
               (create_ddr_lease_response ob lease False, st)))"

definition create_ddr_data_object :: "os \<Rightarrow> kv \<Rightarrow> 'p Catalog \<Rightarrow> kv \<times> 'p Catalog" where
  "create_ddr_data_object o_s req st =
     (let client_id = get_u64 req ''client_id''; n = requested_bytes_of req in
      if n = 0 then (err ''nbytes is required'', st)
      else if get req ''hint'' \<noteq> ''mandatory:ddr'' then (err ''hint must be mandatory:ddr'', st)
      else case parse_ddr_target (os_env o_s) req of
        Inl e \<Rightarrow> (err e, st)
      | Inr node \<Rightarrow>
          if \<not> hm_contains (c_clients st) client_id then (err ''client not found'', st)
          else case reusable req st ''ddr'' (''host:'' @ show_nat node) n of
            Some ob \<Rightarrow>
              let (lease, st) = make_lease client_id ob 0 (ob_requested_bytes ob) st in
              (create_ddr_lease_response ob lease True, st)
          | None \<Rightarrow>
              (case (if ddr_use_memfd (os_env o_s) then Inr ()
                     else os_create_dir_all o_s (ddr_root_for_node (os_env o_s) node)) of
                 Inl e \<Rightarrow> (err (''create DDR root failed: '' @ e), st)
               | Inr _ \<Rightarrow>
                   let info = ddr_info o_s st node in
                   if n > di_safe_allocatable info then
                     (err (''DDR preflight failed: requested='' @ show_u64 n
                        @ '' safe_allocatable='' @ show_u64 (di_safe_allocatable info)
                        @ '' root='' @ di_root info @ '' node='' @ show_nat node), st)
                   else allocate_ddr_object o_s req client_id node n st))"

definition ssd_object :: "kv \<Rightarrow> u64 \<Rightarrow> u64 \<Rightarrow> u64 \<Rightarrow> string \<Rightarrow> SsdCreateInfo \<Rightarrow> Object" where
  "ssd_object req oid pid client_id target info =
     (blank_object req oid pid client_id)
       \<lparr> ob_placement := ''ssd'', ob_target := target,
         ob_requested_bytes := si_requested_bytes info, ob_actual_bytes := si_actual_bytes info,
         ob_ssd_path := si_path info, ob_ssd_alignment_bytes := si_alignment_bytes info,
         ob_ssd_io_mode := si_io_mode info, ob_ssd_file_owned := True,
         ob_ssd_preallocated := si_preallocated info \<rparr>"

definition allocate_ssd_object ::
  "os \<Rightarrow> kv \<Rightarrow> u64 \<Rightarrow> string \<Rightarrow> u64 \<Rightarrow> 'p Catalog \<Rightarrow> kv \<times> 'p Catalog" where
  "allocate_ssd_object o_s req client_id target n st =
     (let (oid, st) = take_next_object_id st; (pid, st) = take_next_placement_id st in
      case create_ssd_file o_s oid n of
        Inl e \<Rightarrow> (err e, st)
      | Inr info \<Rightarrow>
          let ob = ssd_object req oid pid client_id target info;
              (lease, st) = make_lease client_id ob 0 n (add_object ob st) in
          (create_ssd_lease_response ob lease False, st))"

definition create_ssd_data_object :: "os \<Rightarrow> kv \<Rightarrow> 'p Catalog \<Rightarrow> kv \<times> 'p Catalog" where
  "create_ssd_data_object o_s req st =
     (let client_id = get_u64 req ''client_id''; n = requested_bytes_of req in
      if n = 0 then (err ''nbytes is required'', st)
      else if get req ''hint'' \<noteq> ''mandatory:ssd'' then (err ''hint must be mandatory:ssd'', st)
      else case parse_ssd_target req of
        Inl e \<Rightarrow> (err e, st)
      | Inr target \<Rightarrow>
          if \<not> hm_contains (c_clients st) client_id then (err ''client not found'', st)
          else case reusable req st ''ssd'' target n of
            Some ob \<Rightarrow>
              let (lease, st) = make_lease client_id ob 0 (ob_requested_bytes ob) st in
              (create_ssd_lease_response ob lease True, st)
          | None \<Rightarrow>
              (case ensure_ssd_root o_s of
                 Inl e \<Rightarrow> (err e, st)
               | Inr _ \<Rightarrow>
                   let info = ssd_info o_s st; actual = align_up n (sf_alignment_bytes info) in
                   if actual > sf_safe_allocatable info then
                     (err (''SSD preflight failed: requested='' @ show_u64 n
                        @ '' actual='' @ show_u64 actual
                        @ '' safe_allocatable='' @ show_u64 (sf_safe_allocatable info)
                        @ '' root='' @ sf_root info), st)
                   else allocate_ssd_object o_s req client_id target n st))"

text \<open>Position of the first block that satisfies a predicate (\<^verbatim>\<open>iter().position\<close>).\<close>

fun position :: "('a \<Rightarrow> bool) \<Rightarrow> 'a list \<Rightarrow> nat option" where
  "position p [] = None"
| "position p (x # xs) = (if p x then Some 0 else map_option Suc (position p xs))"

text \<open>
  The block for a new HBM object: a free block that is large enough, or a newly allocated dynamic
  block appended to the list. Failing to allocate marks the device memory unavailable.
\<close>

definition find_or_allocate_block ::
  "acl \<Rightarrow> int \<Rightarrow> u64 \<Rightarrow> 'p Catalog \<Rightarrow> nat result \<times> 'p Catalog" where
  "find_or_allocate_block a dev n st =
     (case position (\<lambda>b. can_hold_on b n dev) (c_blocks st) of
        Some pos \<Rightarrow> (Inr pos, st)
      | None \<Rightarrow>
          let (bid, st) = take_next_block_id st in
          (case hbm_allocate a dev n of
             Inl e \<Rightarrow> (Inl e,
               st\<lparr> c_hbm := (c_hbm st)\<lparr> hs_available := False, hs_last_error := e \<rparr> \<rparr>)
           | Inr alloc \<Rightarrow>
               (Inr (length (c_blocks st)),
                st\<lparr> c_hbm := (c_hbm st)\<lparr> hs_available := True, hs_last_error := [] \<rparr>,
                    c_blocks := c_blocks st @ [block_new bid alloc True] \<rparr>)))"

definition hbm_object :: "kv \<Rightarrow> u64 \<Rightarrow> u64 \<Rightarrow> u64 \<Rightarrow> u64 \<Rightarrow> Block \<Rightarrow> Object" where
  "hbm_object req oid pid client_id n b =
     (blank_object req oid pid client_id)
       \<lparr> ob_block_id := bl_block_id b, ob_placement := ''hbm'',
         ob_target := ''npu:'' @ show_int (al_device_id (bl_allocation b)),
         ob_requested_bytes := n, ob_actual_bytes := al_actual_bytes (bl_allocation b) \<rparr>"

definition bind_hbm_object ::
  "kv \<Rightarrow> u64 \<Rightarrow> u64 \<Rightarrow> nat \<Rightarrow> HbmExport \<Rightarrow> 'p Catalog \<Rightarrow> kv \<times> 'p Catalog" where
  "bind_hbm_object req client_id n pos ex st =
     (let b = c_blocks st ! pos;
          (oid, st) = take_next_object_id st;
          (pid, st) = take_next_placement_id st;
          (lid, st) = take_next_lease_id st;
          st = st\<lparr> c_blocks := (c_blocks st)[pos := b\<lparr> bl_state := ''Leased'', bl_object_id := oid \<rparr>] \<rparr>;
          ob = hbm_object req oid pid client_id n b;
          lease = \<lparr> le_lease_id = lid, le_object_id = oid, le_block_id = bl_block_id b,
                    le_client_id = client_id, le_state = ''Active'',
                    le_allowed_offset_bytes = 0, le_allowed_bytes = n \<rparr>;
          st = add_object ob st;
          st = st\<lparr> c_leases := hm_insert lid lease (c_leases st) \<rparr> in
      (create_lease_response ob lease ex n False, st))"

definition reuse_hbm_object ::
  "acl \<Rightarrow> u64 \<Rightarrow> Client \<Rightarrow> Object \<Rightarrow> u64 \<Rightarrow> u64 \<Rightarrow> 'p Catalog \<Rightarrow> kv \<times> 'p Catalog" where
  "reuse_hbm_object a client_id client ob off n st =
     (case position (\<lambda>b. bl_block_id b = ob_block_id ob) (c_blocks st) of
        None \<Rightarrow> (err ''block not found'', st)
      | Some pos \<Rightarrow>
          (case export_for_client a (bl_allocation (c_blocks st ! pos)) (cl_bare_tgid client) of
             Inl e \<Rightarrow> (err e, st)
           | Inr ex \<Rightarrow>
               let (lease, st) = make_lease client_id ob off n st in
               (create_lease_response ob lease ex (ob_requested_bytes ob) True, st)))"

definition create_hbm_data_object :: "acl \<Rightarrow> kv \<Rightarrow> 'p Catalog \<Rightarrow> kv \<times> 'p Catalog" where
  "create_hbm_data_object a req st =
     (let client_id = get_u64 req ''client_id''; n = requested_bytes_of req in
      if n = 0 then (err ''nbytes is required'', st)
      else case validate_hbm_create_request req (c_device st) of
        Inl e \<Rightarrow> (err e, st)
      | Inr dev \<Rightarrow>
          (case hm_get (c_clients st) client_id of
             None \<Rightarrow> (err ''client not found'', st)
           | Some client \<Rightarrow>
               (case reusable req st ''hbm'' (''npu:'' @ show_int dev) n of
                  Some ob \<Rightarrow> reuse_hbm_object a client_id client ob 0 (ob_requested_bytes ob) st
                | None \<Rightarrow>
                    (case find_or_allocate_block a dev n st of
                       (Inl e, st) \<Rightarrow> (err e, st)
                     | (Inr pos, st) \<Rightarrow>
                         (case export_for_client a (bl_allocation (c_blocks st ! pos))
                                 (cl_bare_tgid client) of
                            Inl e \<Rightarrow> (err e, st)
                          | Inr ex \<Rightarrow> bind_hbm_object req client_id n pos ex st)))))"

definition create_data_object :: "os \<Rightarrow> acl \<Rightarrow> kv \<Rightarrow> 'p Catalog \<Rightarrow> kv \<times> 'p Catalog" where
  "create_data_object o_s a req st =
     (if is_ddr_request req then create_ddr_data_object o_s req st
      else if is_ssd_request req then create_ssd_data_object o_s req st
      else create_hbm_data_object a req st)"

section \<open>Opening\<close>

text \<open>The target check of an open request for a DDR or SSD object.\<close>

definition check_open_ddr :: "environment \<Rightarrow> kv \<Rightarrow> Object \<Rightarrow> unit result" where
  "check_open_ddr env req ob =
     (if get req ''target'' \<noteq> [] \<or> get req ''hint'' \<noteq> [] then
        rbind (parse_ddr_target env req) (\<lambda>node.
          if ob_target ob \<noteq> ''host:'' @ show_nat node
          then Inl (''DDR target host:'' @ show_nat node @ '' does not match object target ''
                    @ ob_target ob)
          else Inr ())
      else Inr ())"

definition check_open_ssd :: "kv \<Rightarrow> Object \<Rightarrow> unit result" where
  "check_open_ssd req ob =
     (if get req ''target'' \<noteq> [] \<or> get req ''hint'' \<noteq> [] then
        rbind (parse_ssd_target req) (\<lambda>target.
          if ob_target ob \<noteq> target
          then Inl (''SSD target '' @ target @ '' does not match object target '' @ ob_target ob)
          else Inr ())
      else Inr ())"

definition open_data_object :: "os \<Rightarrow> acl \<Rightarrow> kv \<Rightarrow> 'p Catalog \<Rightarrow> kv \<times> 'p Catalog" where
  "open_data_object o_s a req st =
     (let client_id = get_u64 req ''client_id''; oid = get_u64 req ''object_id'';
          off = get_u64 req ''allowed_offset_bytes'' in
      case hm_get (c_clients st) client_id of
        None \<Rightarrow> (err ''client not found'', st)
      | Some client \<Rightarrow>
          (case hm_get (c_objects st) oid of
             None \<Rightarrow> (err ''object not found'', st)
           | Some ob \<Rightarrow>
               if xd_contains (c_external_ddr st) oid then
                 (err ''external DDR must be acquired through the authenticated FD broker'', st)
               else
                 let asked = get_u64 req ''allowed_bytes'';
                     n = (if asked = 0 then saturating_sub (ob_requested_bytes ob) off else asked) in
                 if range_exceeds off n (ob_requested_bytes ob)
                 then (err ''open range out of bounds'', st)
                 else if ob_placement ob = ''ddr'' then
                   (case check_open_ddr (os_env o_s) req ob of
                      Inl e \<Rightarrow> (err e, st)
                    | Inr _ \<Rightarrow>
                        let (lease, st) = make_lease client_id ob off n st in
                        (create_ddr_lease_response ob lease True, st))
                 else if ob_placement ob = ''ssd'' then
                   (case check_open_ssd req ob of
                      Inl e \<Rightarrow> (err e, st)
                    | Inr _ \<Rightarrow>
                        let (lease, st) = make_lease client_id ob off n st in
                        (create_ssd_lease_response ob lease True, st))
                 else
                   (case validate_target_matches_object req ob of
                      Inl e \<Rightarrow> (err e, st)
                    | Inr _ \<Rightarrow> reuse_hbm_object a client_id client ob off n st)))"

section \<open>Release\<close>

text \<open>A call that gives a backing resource back.\<close>

datatype cleanup =
  FreeHbm HbmAllocation
| UnmapDdr u64 u64
| CloseFd int
| RemoveDdrFile string
| RemoveSsdFile Object

fun run_cleanup :: "os \<Rightarrow> acl \<Rightarrow> cleanup \<Rightarrow> unit result" where
  "run_cleanup o_s a (FreeHbm alloc) = hbm_free a alloc"
| "run_cleanup o_s a (UnmapDdr ptr len) = unmap_ddr_service_mapping o_s ptr len"
| "run_cleanup o_s a (CloseFd fd) = close_ddr_fd o_s fd"
| "run_cleanup o_s a (RemoveDdrFile path) =
     (case os_remove_file o_s path of
        Inl e \<Rightarrow> Inl (''remove DDR object file failed: '' @ e)
      | Inr _ \<Rightarrow> Inr ())"
| "run_cleanup o_s a (RemoveSsdFile ob) = remove_ssd_file o_s ob"

text \<open>Clean-up calls in order; the first failure ends the handler with its error.\<close>

fun run_cleanups :: "os \<Rightarrow> acl \<Rightarrow> cleanup list \<Rightarrow> unit result \<times> cleanup list" where
  "run_cleanups o_s a [] = (Inr (), [])"
| "run_cleanups o_s a (c # cs) =
     (case run_cleanup o_s a c of
        Inl e \<Rightarrow> (Inl e, [c])
      | Inr _ \<Rightarrow> (case run_cleanups o_s a cs of (r, done) \<Rightarrow> (r, c # done)))"

definition ddr_cleanups :: "Object \<Rightarrow> cleanup list" where
  "ddr_cleanups ob =
     (if ob_ddr_path ob = [] then []
      else (if ob_ddr_service_ptr ob \<noteq> 0 \<and> ob_ddr_service_len ob > 0
            then [UnmapDdr (ob_ddr_service_ptr ob) (ob_ddr_service_len ob)] else []) @
           [if ob_ddr_fd ob \<ge> 0 then CloseFd (ob_ddr_fd ob) else RemoveDdrFile (ob_ddr_path ob)])"

text \<open>The block of a released HBM object: a dynamic one is removed, a pooled one becomes free.\<close>

definition release_block :: "Object \<Rightarrow> Block list \<Rightarrow> cleanup list \<times> Block list" where
  "release_block ob bs =
     (case position (\<lambda>b. bl_block_id b = ob_block_id ob) bs of
        None \<Rightarrow> ([], bs)
      | Some pos \<Rightarrow>
          if bl_dynamic (bs ! pos)
          then ([FreeHbm (bl_allocation (bs ! pos))], take pos bs @ drop (Suc pos) bs)
          else ([], bs[pos := (bs ! pos)\<lparr> bl_state := ''Ready'', bl_object_id := 0 \<rparr>]))"

definition stale_leases :: "u64 \<Rightarrow> (u64, Lease) hashmap \<Rightarrow> (u64, Lease) hashmap" where
  "stale_leases oid m =
     hm_update_where (\<lambda>l. le_object_id l = oid \<and> le_state l \<noteq> ''Closed'')
       (\<lambda>l. l\<lparr> le_state := ''Stale'' \<rparr>) m"

definition release_data_object ::
  "os \<Rightarrow> acl \<Rightarrow> kv \<Rightarrow> 'p Catalog \<Rightarrow> kv \<times> cleanup list \<times> 'p Catalog" where
  "release_data_object o_s a req st =
     (let oid = get_u64 req ''object_id'' in
      if xd_contains (c_external_ddr st) oid then
        (err ''external DDR must be revoked through the authenticated FD broker'', [], st)
      else case hm_get (c_objects st) oid of
        None \<Rightarrow> (err ''object not found'', [], st)
      | Some ob \<Rightarrow>
          let st = st\<lparr> c_objects := hm_remove oid (c_objects st) \<rparr>;
              st = mark_object_released oid st;
              st = st\<lparr> c_leases := stale_leases oid (c_leases st) \<rparr>;
              (todo, bs) =
                (if ob_placement ob = ''ddr'' then (ddr_cleanups ob, c_blocks st)
                 else if ob_placement ob = ''ssd'' then ([RemoveSsdFile ob], c_blocks st)
                 else release_block ob (c_blocks st));
              st = st\<lparr> c_blocks := bs \<rparr> in
          (case run_cleanups o_s a todo of
             (Inl e, done) \<Rightarrow> (err e, done, st)
           | (Inr _, done) \<Rightarrow> (ok [], done, st)))"

section \<open>Description\<close>

definition backing_path :: "Object \<Rightarrow> string" where
  "backing_path ob = (if ob_placement ob = ''ssd'' then ob_ssd_path ob else ob_ddr_path ob)"

definition object_fields :: "Object \<Rightarrow> (string \<times> string) list" where
  "object_fields ob =
     [(''object_id'', show_u64 (ob_object_id ob)),
      (''placement_id'', show_u64 (ob_placement_id ob)), (''namespace'', ob_model_id ob),
      (''name'', ob_name ob), (''role'', ob_role ob),
      (''size_bytes'', show_u64 (ob_requested_bytes ob)),
      (''actual_bytes'', show_u64 (ob_actual_bytes ob)), (''state'', ob_state ob),
      (''medium'', ob_placement ob), (''target'', ob_target ob),
      (''address_kind'', address_kind ob),
      (''domain'', if ob_placement ob = ''ddr'' then ''numa_node''
                   else if ob_placement ob = ''ssd'' then ''local_ssd'' else ''local_node''),
      (''offset_bytes'', ''0''), (''nbytes'', show_u64 (ob_requested_bytes ob)),
      (''backing_path'', backing_path ob), (''ddr_path'', ob_ddr_path ob),
      (''ddr_fast_profile'', ob_ddr_fast_profile ob),
      (''ddr_madvise_hugepage'', show_bool (ob_ddr_madvise_hugepage ob)),
      (''ddr_pretouched'', show_bool (ob_ddr_pretouched ob)),
      (''ddr_prepare_us'', fmt3 (ob_ddr_prepare_us ob)),
      (''ddr_madvise_us'', fmt3 (ob_ddr_madvise_us ob)),
      (''ddr_pretouch_us'', fmt3 (ob_ddr_pretouch_us ob)),
      (''ddr_fallback_reason'', sanitize_kv_value (ob_ddr_fallback_reason ob)),
      (''shape'', ob_shape ob), (''dtype'', ob_dtype ob), (''ssd_path'', ob_ssd_path ob),
      (''ssd_offset_bytes'', show_u64 (ob_ssd_offset_bytes ob)),
      (''alignment_bytes'', show_u64 (ob_ssd_alignment_bytes ob)),
      (''ssd_io_mode'', ob_ssd_io_mode ob),
      (''ssd_preallocated'', show_bool (ob_ssd_preallocated ob)),
      (''consistency'', if ob_immutable ob then ''immutable'' else ''single_writer'')]"

definition placement_fields :: "DataPlacement \<Rightarrow> (string \<times> string) list" where
  "placement_fields p =
     [(''provider_id'', dp_provider_id p),
      (''execution_mode'', execution_mode_str (dp_execution_mode p)),
      (''execution_realm_id'', dp_execution_realm_id p),
      (''requested_fidelity'', fidelity_str (dp_requested_fidelity p)),
      (''actual_fidelity'', fidelity_str (dp_actual_fidelity p)),
      (''addressability'', addressability_str (dp_addressability p)),
      (''topology_generation'', show_u64 (dp_topology_generation p)),
      (''capability_generation'', show_u64 (dp_capability_generation p))]"

definition binding_fields :: "ResourceBinding \<Rightarrow> (string \<times> string) list" where
  "binding_fields b =
     [(''binding_id'', show_u64 (rb_binding_id b)),
      (''binding_generation'', show_u64 (rb_binding_generation b)),
      (''provider_session_id'', rb_provider_session_id b),
      (''provider_resource_id'', rb_provider_resource_id b)]"

definition insert_fields :: "(string \<times> string) list \<Rightarrow> kv \<Rightarrow> kv" where
  "insert_fields fs m = fold (\<lambda>(k, v). bt_insert k v) fs m"

definition describe_object :: "kv \<Rightarrow> 'p Catalog \<Rightarrow> kv" where
  "describe_object req st =
     (case object_by_request req st ''object_id'' ''placement_id'' of
        None \<Rightarrow> err ''object not found''
      | Some ob \<Rightarrow>
          let r = ok (object_fields ob);
              r = (if xd_contains (c_external_ddr st) (ob_object_id ob) then
                     insert_fields [(''address_kind'', ''scm_rights_fd''), (''domain'', ''process'')] r
                   else r);
              r = (case hm_get (c_data_objects st) (ob_object_id ob) of
                     Some d \<Rightarrow> insert_fields
                       [(''content_version'', show_u64 (do_content_version d)),
                        (''owner'', do_owner d)] r
                   | None \<Rightarrow> r);
              r = (case hm_get (c_placements st) (ob_placement_id ob) of
                     Some p \<Rightarrow> insert_fields (placement_fields p) r
                   | None \<Rightarrow> r) in
          (case List.find (\<lambda>b. rb_placement_id b = ob_placement_id ob)
                  (hm_values (c_resource_bindings st)) of
             Some b \<Rightarrow> insert_fields (binding_fields b) r
           | None \<Rightarrow> r))"

section \<open>Clients, models, marks, leases, shutdown\<close>

definition register_client :: "kv \<Rightarrow> 'p Catalog \<Rightarrow> kv \<times> 'p Catalog" where
  "register_client req st =
     (let (cid, st) = take_next_client_id st;
          client = \<lparr> cl_client_id = cid, cl_role = get req ''role'',
                     cl_os_pid = get_i64 req ''os_pid'', cl_bare_tgid = get_i64 req ''bare_tgid'',
                     cl_device_id = (case parse_signed 32 (get req ''device_id'') of
                                       Some d \<Rightarrow> d | None \<Rightarrow> c_device st) \<rparr> in
      (ok [(''client_id'', show_u64 cid)],
       st\<lparr> c_clients := hm_insert cid client (c_clients st) \<rparr>))"

definition register_model :: "kv \<Rightarrow> kv" where
  "register_model req =
     (let m = get req ''model_id'' in
      if m = [] then err ''model_id is required'' else ok [(''model_id'', m)])"

definition mark_ready :: "kv \<Rightarrow> 'p Catalog \<Rightarrow> kv \<times> 'p Catalog" where
  "mark_ready req st =
     (let oid = get_u64 req ''object_id'' in
      if xd_contains (c_external_ddr st) oid then
        (err ''external DDR is immutable after registration'', st)
      else if hm_contains (c_objects st) oid then
        (ok [], st\<lparr> c_objects := hm_modify oid (\<lambda>ob. ob\<lparr> ob_state := ''Ready'' \<rparr>) (c_objects st) \<rparr>)
      else (err ''object not found'', st))"

definition mark_dirty :: "kv \<Rightarrow> 'p Catalog \<Rightarrow> kv \<times> 'p Catalog" where
  "mark_dirty req st =
     (let oid = get_u64 req ''object_id''; off = get_u64 req ''modified_offset_bytes'';
          n = get_u64 req ''modified_bytes'' in
      if xd_contains (c_external_ddr st) oid then
        (err ''external DDR is immutable after registration'', st)
      else case hm_get (c_objects st) oid of
        None \<Rightarrow> (err ''object not found'', st)
      | Some ob \<Rightarrow>
          if range_exceeds off n (ob_requested_bytes ob)
          then (err ''modified range out of bounds'', st)
          else (ok [], st\<lparr> c_objects := hm_modify oid
                  (\<lambda>ob. ob\<lparr> ob_state := ''Modified'', ob_modified_offset_bytes := off,
                            ob_modified_bytes := n \<rparr>) (c_objects st) \<rparr>))"

definition close_lease :: "kv \<Rightarrow> 'p Catalog \<Rightarrow> kv \<times> 'p Catalog" where
  "close_lease req st =
     (let lid = get_u64 req ''lease_id'' in
      if xd_owns_lease (c_external_ddr st) lid then
        (err ''external DDR leases must be released through the authenticated FD broker'', st)
      else if hm_contains (c_leases st) lid then
        (ok [], st\<lparr> c_leases := hm_modify lid (\<lambda>l. l\<lparr> le_state := ''Closed'' \<rparr>) (c_leases st) \<rparr>)
      else (err ''lease not found'', st))"

definition model_object_line :: "Object \<Rightarrow> string" where
  "model_object_line ob =
     join '':'' [show_u64 (ob_object_id ob), ob_name ob, ob_role ob, ob_state ob,
       show_u64 (ob_requested_bytes ob), show_u64 (ob_actual_bytes ob), ob_shape ob, ob_dtype ob,
       ob_placement ob, ob_target ob, backing_path ob]"

definition get_model_objects :: "kv \<Rightarrow> 'p Catalog \<Rightarrow> kv" where
  "get_model_objects req st =
     (let m = get req ''model_id'' in
      if m = [] then err ''model_id is required''
      else
        let obs = filter (\<lambda>ob. ob_model_id ob = m) (hm_values (c_objects st)) in
        ok [(''model_id'', m), (''object_count'', show_nat (length obs)),
            (''objects'', join '','' (map model_object_line obs))])"

definition shutdown_daemon :: "'p Catalog \<Rightarrow> kv \<times> 'p Catalog" where
  "shutdown_daemon st =
     (ok [(''detail'', ''shutdown_requested'')], st\<lparr> c_shutdown_requested := True \<rparr>)"

end
