(* ===== verification/ObjectLaws.thy ===== *)
theory ObjectLaws
  imports Objects
begin

text \<open>
  The invariant of the object service and what each handler does to it: identifiers are unique,
  every object has its typed records, an active lease lies inside a live object, and the blocks of
  device memory are in one-to-one correspondence with the live HBM objects.
\<close>

section \<open>Invariant\<close>

text \<open>An HBM object is one that lives in neither host memory nor a file.\<close>

definition is_hbm :: "Object \<Rightarrow> bool" where
  "is_hbm ob \<longleftrightarrow> ob_placement ob \<noteq> ''ddr'' \<and> ob_placement ob \<noteq> ''ssd''"

definition objects_ok :: "'p Catalog \<Rightarrow> bool" where
  "objects_ok st \<longleftrightarrow>
     hm_wf (c_objects st) \<and> keys_below (next_object_id (c_ids st)) (c_objects st) \<and>
     0 < next_object_id (c_ids st) \<and>
     (\<forall>k ob. hm_get (c_objects st) k = Some ob \<longrightarrow>
        ob_object_id ob = k \<and> k \<noteq> 0 \<and> ob_placement_id ob < next_placement_id (c_ids st)) \<and>
     (\<forall>k k' ob ob'. hm_get (c_objects st) k = Some ob \<longrightarrow> hm_get (c_objects st) k' = Some ob' \<longrightarrow>
        ob_placement_id ob = ob_placement_id ob' \<longrightarrow> k = k')"

definition lease_ok :: "(u64, Object) hashmap \<Rightarrow> Lease \<Rightarrow> bool" where
  "lease_ok objs l \<longleftrightarrow>
     (le_state l = ''Active'' \<longrightarrow>
        (\<exists>ob. hm_get objs (le_object_id l) = Some ob \<and> le_block_id l = ob_block_id ob \<and>
              \<not> range_exceeds (le_allowed_offset_bytes l) (le_allowed_bytes l)
                   (ob_requested_bytes ob)))"

definition leases_ok :: "'p Catalog \<Rightarrow> bool" where
  "leases_ok st \<longleftrightarrow>
     hm_wf (c_leases st) \<and> keys_below (next_lease_id (c_ids st)) (c_leases st) \<and>
     (\<forall>k l. hm_get (c_leases st) k = Some l \<longrightarrow> le_lease_id l = k \<and> lease_ok (c_objects st) l)"

definition block_ok :: "(u64, Object) hashmap \<Rightarrow> Block \<Rightarrow> bool" where
  "block_ok objs b \<longleftrightarrow>
     bl_state b = ''Ready'' \<and> bl_object_id b = 0 \<or>
     bl_state b = ''Leased'' \<and>
       (\<exists>ob. hm_get objs (bl_object_id b) = Some ob \<and> is_hbm ob \<and>
             ob_block_id ob = bl_block_id b \<and>
             ob_requested_bytes ob \<le> al_actual_bytes (bl_allocation b))"

definition blocks_ok :: "'p Catalog \<Rightarrow> bool" where
  "blocks_ok st \<longleftrightarrow>
     distinct (map bl_block_id (c_blocks st)) \<and>
     (\<forall>b \<in> set (c_blocks st).
        bl_block_id b < next_block_id (c_ids st) \<and> block_ok (c_objects st) b) \<and>
     (\<forall>k ob. hm_get (c_objects st) k = Some ob \<longrightarrow> is_hbm ob \<longrightarrow>
        (\<exists>b \<in> set (c_blocks st). bl_block_id b = ob_block_id ob \<and> bl_object_id b = k))"

text \<open>The typed records that mirror an object.\<close>

definition mirrored :: "'p Catalog \<Rightarrow> Object \<Rightarrow> bool" where
  "mirrored st ob \<longleftrightarrow>
     (\<exists>d. hm_get (c_data_objects st) (ob_object_id ob) = Some d \<and>
          do_object_id d = ob_object_id ob \<and> do_size_bytes d = ob_requested_bytes ob) \<and>
     (\<exists>p. hm_get (c_placements st) (ob_placement_id ob) = Some p \<and>
          dp_object_id p = ob_object_id ob \<and> dp_nbytes p = ob_requested_bytes ob)"

definition typed_ok :: "'p Catalog \<Rightarrow> bool" where
  "typed_ok st \<longleftrightarrow>
     hm_wf (c_data_objects st) \<and> hm_wf (c_placements st) \<and> hm_wf (c_resource_bindings st) \<and>
     keys_below (next_object_id (c_ids st)) (c_data_objects st) \<and> keys_below (next_placement_id (c_ids st)) (c_placements st) \<and>
     keys_below (next_resource_binding_id (c_ids st)) (c_resource_bindings st) \<and>
     (\<forall>k b. hm_get (c_resource_bindings st) k = Some b \<longrightarrow> rb_binding_id b = k) \<and>
     (\<forall>k ob. hm_get (c_objects st) k = Some ob \<longrightarrow> mirrored st ob)"

definition clients_ok :: "'p Catalog \<Rightarrow> bool" where
  "clients_ok st \<longleftrightarrow> hm_wf (c_clients st) \<and> keys_below (next_client_id (c_ids st)) (c_clients st)"

definition obj_inv :: "'p Catalog \<Rightarrow> bool" where
  "obj_inv st \<longleftrightarrow> objects_ok st \<and> leases_ok st \<and> blocks_ok st \<and> typed_ok st \<and> clients_ok st"

text \<open>No counter can run out while one request is handled.\<close>

definition room :: "'p Catalog \<Rightarrow> bool" where
  "room st \<longleftrightarrow>
     (\<forall>n \<in> {next_block_id (c_ids st), next_client_id (c_ids st), next_object_id (c_ids st),
            next_placement_id (c_ids st), next_resource_binding_id (c_ids st),
            next_access_binding_id (c_ids st), next_lease_id (c_ids st),
            next_transfer_plan_id (c_ids st), next_transfer_event_id (c_ids st)}.
        n < u64_max - 4)"

lemma less_max_inc: "n < u64_max - 4 \<Longrightarrow> n \<noteq> u64_max \<and> n < n + 1"
proof
  assume a: "n < u64_max - 4"
  have "unat (u64_max - 4) < unat u64_max" by (simp add: u64_max_def)
  then show "n \<noteq> u64_max" using a by (auto simp: word_less_nat_alt)
  then show "n < n + 1" by (simp add: word_less_nat_alt unat_inc_u64)
qed

lemma room_inc:
  assumes "room st"
  shows "next_block_id (c_ids st) < next_block_id (c_ids st) + 1"
    and "next_client_id (c_ids st) < next_client_id (c_ids st) + 1"
    and "next_object_id (c_ids st) < next_object_id (c_ids st) + 1"
    and "next_placement_id (c_ids st) < next_placement_id (c_ids st) + 1"
    and "next_resource_binding_id (c_ids st) < next_resource_binding_id (c_ids st) + 1"
    and "next_lease_id (c_ids st) < next_lease_id (c_ids st) + 1"
    and "next_access_binding_id (c_ids st) < next_access_binding_id (c_ids st) + 1"
    and "next_transfer_plan_id (c_ids st) < next_transfer_plan_id (c_ids st) + 1"
    and "next_transfer_event_id (c_ids st) < next_transfer_event_id (c_ids st) + 1"
  using assms less_max_inc by (auto simp: room_def)

section \<open>Leases\<close>

lemma make_lease_simps [simp]:
  "c_objects (snd (make_lease c ob off n st)) = c_objects st"
  "c_blocks (snd (make_lease c ob off n st)) = c_blocks st"
  "c_clients (snd (make_lease c ob off n st)) = c_clients st"
  "c_data_objects (snd (make_lease c ob off n st)) = c_data_objects st"
  "c_placements (snd (make_lease c ob off n st)) = c_placements st"
  "c_resource_bindings (snd (make_lease c ob off n st)) = c_resource_bindings st"
  "c_external_ddr (snd (make_lease c ob off n st)) = c_external_ddr st"
  "c_ids (snd (make_lease c ob off n st)) = (c_ids st)\<lparr> next_lease_id := next_lease_id (c_ids st) + 1 \<rparr>"
  "fst (make_lease c ob off n st) =
     \<lparr> le_lease_id = next_lease_id (c_ids st), le_object_id = ob_object_id ob,
       le_block_id = ob_block_id ob, le_client_id = c, le_state = ''Active'',
       le_allowed_offset_bytes = off, le_allowed_bytes = n \<rparr>"
  "c_leases (snd (make_lease c ob off n st)) =
     hm_insert (next_lease_id (c_ids st)) (fst (make_lease c ob off n st)) (c_leases st)"
  by (simp_all add: make_lease_def take_next_lease_id_def Let_def)

lemma leases_ok_insert:
  assumes "leases_ok st" and "next_lease_id (c_ids st) < next_lease_id (c_ids st) + 1"
    and "le_lease_id l = next_lease_id (c_ids st)" and "lease_ok (c_objects st') l"
    and "\<And>k l. hm_get (c_leases st) k = Some l \<Longrightarrow> lease_ok (c_objects st) l \<Longrightarrow>
           lease_ok (c_objects st') l"
    and "c_leases st' = hm_insert (next_lease_id (c_ids st)) l (c_leases st)"
    and "next_lease_id (c_ids st') = next_lease_id (c_ids st) + 1"
  shows "leases_ok st'"
  using assms
  by (auto simp: leases_ok_def hm_get_insert keys_below_insert split: if_splits)

text \<open>A step that keeps the objects and their typed records.\<close>

lemma obj_inv_frame:
  assumes "obj_inv st" and "leases_ok st'" and "blocks_ok st'" and "clients_ok st'"
    and "c_objects st' = c_objects st"
    and "c_data_objects st' = c_data_objects st" and "c_placements st' = c_placements st"
    and "c_resource_bindings st' = c_resource_bindings st"
    and "next_object_id (c_ids st') = next_object_id (c_ids st)"
    and "next_placement_id (c_ids st') = next_placement_id (c_ids st)"
    and "next_resource_binding_id (c_ids st') = next_resource_binding_id (c_ids st)"
  shows "obj_inv st'"
proof -
  have "objects_ok st'" using assms by (simp add: obj_inv_def objects_ok_def)
  moreover have "typed_ok st'" using assms by (simp add: obj_inv_def typed_ok_def mirrored_def)
  ultimately show ?thesis using assms(2-4) by (simp add: obj_inv_def)
qed

lemma objects_ok_cong:
  "objects_ok st \<Longrightarrow> c_objects st' = c_objects st \<Longrightarrow>
     next_object_id (c_ids st') = next_object_id (c_ids st) \<Longrightarrow>
     next_placement_id (c_ids st') = next_placement_id (c_ids st) \<Longrightarrow> objects_ok st'"
  by (simp add: objects_ok_def)

lemma typed_ok_cong:
  "typed_ok st \<Longrightarrow> c_objects st' = c_objects st \<Longrightarrow> c_data_objects st' = c_data_objects st \<Longrightarrow>
     c_placements st' = c_placements st \<Longrightarrow> c_resource_bindings st' = c_resource_bindings st \<Longrightarrow>
     next_object_id (c_ids st') = next_object_id (c_ids st) \<Longrightarrow>
     next_placement_id (c_ids st') = next_placement_id (c_ids st) \<Longrightarrow>
     next_resource_binding_id (c_ids st') = next_resource_binding_id (c_ids st) \<Longrightarrow> typed_ok st'"
  by (simp add: typed_ok_def mirrored_def)

lemma clients_ok_cong:
  "clients_ok st \<Longrightarrow> c_clients st' = c_clients st \<Longrightarrow>
     next_client_id (c_ids st') = next_client_id (c_ids st) \<Longrightarrow> clients_ok st'"
  by (simp add: clients_ok_def)

lemma blocks_ok_cong:
  "blocks_ok st \<Longrightarrow> c_blocks st' = c_blocks st \<Longrightarrow> c_objects st' = c_objects st \<Longrightarrow>
     next_block_id (c_ids st') = next_block_id (c_ids st) \<Longrightarrow> blocks_ok st'"
  by (simp add: blocks_ok_def)

lemma leases_ok_cong:
  "leases_ok st \<Longrightarrow> c_leases st' = c_leases st \<Longrightarrow> c_objects st' = c_objects st \<Longrightarrow>
     next_lease_id (c_ids st') = next_lease_id (c_ids st) \<Longrightarrow> leases_ok st'"
  by (simp add: leases_ok_def)

text \<open>A step that touches only leases (and fields outside the invariant).\<close>

lemma obj_inv_leases:
  assumes "obj_inv st" and "leases_ok st'" and "c_objects st' = c_objects st"
    and "c_blocks st' = c_blocks st" and "c_clients st' = c_clients st"
    and "c_data_objects st' = c_data_objects st" and "c_placements st' = c_placements st"
    and "c_resource_bindings st' = c_resource_bindings st"
    and "next_object_id (c_ids st') = next_object_id (c_ids st)"
    and "next_placement_id (c_ids st') = next_placement_id (c_ids st)"
    and "next_resource_binding_id (c_ids st') = next_resource_binding_id (c_ids st)"
    and "next_block_id (c_ids st') = next_block_id (c_ids st)"
    and "next_client_id (c_ids st') = next_client_id (c_ids st)"
  shows "obj_inv st'"
proof -
  have "blocks_ok st'"
    by (rule blocks_ok_cong [of st]) (use assms in \<open>simp_all add: obj_inv_def\<close>)
  moreover have "clients_ok st'"
    by (rule clients_ok_cong [of st]) (use assms in \<open>simp_all add: obj_inv_def\<close>)
  ultimately show ?thesis by (rule obj_inv_frame [OF assms(1,2)]) fact+
qed

lemma make_lease_inv:
  assumes "obj_inv st" and "room st" and "hm_get (c_objects st) (ob_object_id ob) = Some ob"
    and "\<not> range_exceeds off n (ob_requested_bytes ob)"
  shows "obj_inv (snd (make_lease c ob off n st))"
proof -
  have old: "leases_ok st" using assms(1) by (simp add: obj_inv_def)
  have new: "lease_ok (c_objects st) (fst (make_lease c ob off n st))"
    using assms(3,4) by (simp add: lease_ok_def)
  have "leases_ok (snd (make_lease c ob off n st))"
    by (rule leases_ok_insert [OF old room_inc(6) [OF assms(2)], where l = "fst (make_lease c ob off n st)"])
      (use new in simp_all)
  then show ?thesis by (rule obj_inv_leases [OF assms(1)]) simp_all
qed

section \<open>New objects\<close>

lemma record_legacy_simps [simp]:
  "c_objects (record_legacy_object ob st) = c_objects st"
  "c_leases (record_legacy_object ob st) = c_leases st"
  "c_blocks (record_legacy_object ob st) = c_blocks st"
  "c_clients (record_legacy_object ob st) = c_clients st"
  "c_external_ddr (record_legacy_object ob st) = c_external_ddr st"
  "c_data_objects (record_legacy_object ob st) =
     hm_insert (ob_object_id ob) (legacy_data_object ob) (c_data_objects st)"
  "c_placements (record_legacy_object ob st) =
     hm_insert (ob_placement_id ob) (legacy_placement ob) (c_placements st)"
  "next_object_id (c_ids (record_legacy_object ob st)) = next_object_id (c_ids st)"
  "next_placement_id (c_ids (record_legacy_object ob st)) = next_placement_id (c_ids st)"
  "next_lease_id (c_ids (record_legacy_object ob st)) = next_lease_id (c_ids st)"
  "next_block_id (c_ids (record_legacy_object ob st)) = next_block_id (c_ids st)"
  "next_client_id (c_ids (record_legacy_object ob st)) = next_client_id (c_ids st)"
  by (simp_all add: record_legacy_object_def Let_def take_next_resource_binding_id_def
      split: option.split prod.split)

lemma add_object_simps [simp]:
  "c_objects (add_object ob st) = hm_insert (ob_object_id ob) ob (c_objects st)"
  "c_leases (add_object ob st) = c_leases st"
  "c_blocks (add_object ob st) = c_blocks st"
  "c_clients (add_object ob st) = c_clients st"
  "c_external_ddr (add_object ob st) = c_external_ddr st"
  "c_data_objects (add_object ob st) =
     hm_insert (ob_object_id ob) (legacy_data_object ob) (c_data_objects st)"
  "c_placements (add_object ob st) =
     hm_insert (ob_placement_id ob) (legacy_placement ob) (c_placements st)"
  "next_object_id (c_ids (add_object ob st)) = next_object_id (c_ids st)"
  "next_placement_id (c_ids (add_object ob st)) = next_placement_id (c_ids st)"
  "next_lease_id (c_ids (add_object ob st)) = next_lease_id (c_ids st)"
  "next_block_id (c_ids (add_object ob st)) = next_block_id (c_ids st)"
  "next_client_id (c_ids (add_object ob st)) = next_client_id (c_ids st)"
  by (simp_all add: add_object_def)

text \<open>Registration keeps the bindings below their counter, whether it reuses one or not.\<close>

lemma bindings_record_legacy:
  assumes "hm_wf (c_resource_bindings st)" and "keys_below (next_resource_binding_id (c_ids st)) (c_resource_bindings st)"
    and "next_resource_binding_id (c_ids st) < next_resource_binding_id (c_ids st) + 1"
    and "\<And>k b. hm_get (c_resource_bindings st) k = Some b \<Longrightarrow> rb_binding_id b = k"
  shows "hm_wf (c_resource_bindings (record_legacy_object ob st)) \<and>
    keys_below (next_resource_binding_id (c_ids (record_legacy_object ob st))) (c_resource_bindings (record_legacy_object ob st)) \<and>
    (\<forall>k b. hm_get (c_resource_bindings (record_legacy_object ob st)) k = Some b \<longrightarrow> rb_binding_id b = k)"
proof (cases "List.find (\<lambda>b. rb_placement_id b = ob_placement_id ob) (hm_values (c_resource_bindings st))")
  case None
  then show ?thesis
    using assms
    by (auto simp: record_legacy_object_def Let_def take_next_resource_binding_id_def
        hm_get_insert legacy_binding_def keys_below_insert split: if_splits prod.splits)
next
  case (Some b)
  then have "b \<in> set (hm_values (c_resource_bindings st))" by (blast dest: find_SomeD)
  then obtain k where "hm_get (c_resource_bindings st) k = Some b"
    using hm_values_get [OF assms(1)] by blast
  with assms(4) have "hm_get (c_resource_bindings st) (rb_binding_id b) = Some b" by metis
  then have "rb_binding_id b < next_resource_binding_id (c_ids st)"
    by (rule keys_belowD [OF assms(2)])
  with Some assms(1,2,4) show ?thesis
    by (simp add: record_legacy_object_def Let_def hm_get_insert legacy_binding_def
        keys_below_replace case_prod_beta)
qed

text \<open>
  Adding an object under fresh identifiers keeps everything but the correspondence with the blocks,
  which is up to the caller: the block of an HBM object is assigned before.
\<close>

definition fresh_for :: "Object \<Rightarrow> 'p Catalog \<Rightarrow> bool" where
  "fresh_for ob st \<longleftrightarrow>
     next_object_id (c_ids st) = ob_object_id ob + 1 \<and> ob_object_id ob < ob_object_id ob + 1 \<and>
     next_placement_id (c_ids st) = ob_placement_id ob + 1 \<and>
     ob_placement_id ob < ob_placement_id ob + 1 \<and> ob_object_id ob \<noteq> 0"

text \<open>The invariant, with the identifiers of the new object already taken.\<close>

definition objects_below :: "Object \<Rightarrow> 'p Catalog \<Rightarrow> bool" where
  "objects_below ob st \<longleftrightarrow>
     hm_wf (c_objects st) \<and> keys_below (ob_object_id ob) (c_objects st) \<and>
     keys_below (ob_object_id ob) (c_data_objects st) \<and>
     keys_below (ob_placement_id ob) (c_placements st) \<and>
     (\<forall>k ob'. hm_get (c_objects st) k = Some ob' \<longrightarrow>
        ob_object_id ob' = k \<and> k \<noteq> 0 \<and> ob_placement_id ob' < ob_placement_id ob)"

lemma objects_belowD:
  assumes "objects_below ob st" and "hm_get (c_objects st) k = Some ob'"
  shows "ob_object_id ob' = k" and "k \<noteq> 0" and "k \<noteq> ob_object_id ob"
    and "ob_placement_id ob' < ob_placement_id ob" and "ob_placement_id ob' \<noteq> ob_placement_id ob"
proof -
  have below: "keys_below (ob_object_id ob) (c_objects st)"
    and all: "ob_object_id ob' = k \<and> k \<noteq> 0 \<and> ob_placement_id ob' < ob_placement_id ob"
    using assms by (simp_all add: objects_below_def)
  show "k \<noteq> ob_object_id ob" using keys_belowD [OF below assms(2)] by blast
  show "ob_object_id ob' = k" "k \<noteq> 0" "ob_placement_id ob' < ob_placement_id ob"
    "ob_placement_id ob' \<noteq> ob_placement_id ob" using all less_imp_neq by blast+
qed

lemma objects_ok_add:
  assumes "objects_ok st" and "fresh_for ob st" and "objects_below ob st"
  shows "objects_ok (add_object ob st)"
proof -
  have lt: "ob_placement_id ob' \<noteq> ob_placement_id ob" if "hm_get (c_objects st) k = Some ob'" for k ob'
    using objects_belowD [OF assms(3) that] by simp
  show ?thesis
    using assms
    by (auto simp: objects_ok_def fresh_for_def objects_below_def hm_get_insert keys_below_insert
        split: if_splits dest: lt)
qed

lemma typed_ok_add:
  assumes "typed_ok st" and "fresh_for ob st" and "objects_below ob st"
    and "next_resource_binding_id (c_ids st) < next_resource_binding_id (c_ids st) + 1"
  shows "typed_ok (add_object ob st)"
proof -
  let ?st = "st\<lparr> c_objects := hm_insert (ob_object_id ob) ob (c_objects st) \<rparr>"
  have rb: "hm_wf (c_resource_bindings (add_object ob st)) \<and>
    keys_below (next_resource_binding_id (c_ids (add_object ob st))) (c_resource_bindings (add_object ob st)) \<and>
    (\<forall>k b. hm_get (c_resource_bindings (add_object ob st)) k = Some b \<longrightarrow> rb_binding_id b = k)"
    unfolding add_object_def
    by (rule bindings_record_legacy [of ?st]) (use assms(1,4) in \<open>simp_all add: typed_ok_def\<close>)
  have old: "mirrored (add_object ob st) ob'"
    if g: "hm_get (c_objects st) k = Some ob'" for k ob'
  proof -
    have "ob_object_id ob' = k" "ob_placement_id ob' \<noteq> ob_placement_id ob" "k \<noteq> ob_object_id ob"
      using objects_belowD [OF assms(3) g] by simp_all
    moreover have "mirrored st ob'" using assms(1) g by (simp add: typed_ok_def)
    ultimately show ?thesis by (simp add: mirrored_def hm_get_insert)
  qed
  have new: "mirrored (add_object ob st) ob"
    by (simp add: mirrored_def hm_get_insert legacy_data_object_def legacy_placement_def Let_def)
  have dp: "keys_below (ob_object_id ob + 1) (hm_insert (ob_object_id ob) (legacy_data_object ob) (c_data_objects st))"
    "keys_below (ob_placement_id ob + 1) (hm_insert (ob_placement_id ob) (legacy_placement ob) (c_placements st))"
    using assms(2,3) by (simp_all add: fresh_for_def objects_below_def keys_below_insert)
  show ?thesis
    using assms(1,2) rb old new dp
    by (simp add: typed_ok_def fresh_for_def hm_get_insert split: if_splits)
qed

lemma leases_ok_add:
  assumes "leases_ok st" and "objects_below ob st"
  shows "leases_ok (add_object ob st)"
proof -
  have keep: "lease_ok (hm_insert (ob_object_id ob) ob (c_objects st)) l"
    if "lease_ok (c_objects st) l" for l
    using that assms(2) by (auto simp: lease_ok_def hm_get_insert objects_below_def dest: keys_belowD)
  show ?thesis using assms(1) keep by (simp add: leases_ok_def)
qed

lemma blocks_ok_add:
  assumes "blocks_ok st" and "objects_below ob st" and "\<not> is_hbm ob"
  shows "blocks_ok (add_object ob st)"
proof -
  have keep: "block_ok (hm_insert (ob_object_id ob) ob (c_objects st)) b"
    if "block_ok (c_objects st) b" for b
    using that assms(2) by (auto simp: block_ok_def hm_get_insert objects_below_def dest: keys_belowD)
  show ?thesis using assms(1,3) keep by (auto simp: blocks_ok_def hm_get_insert split: if_splits)
qed

section \<open>Creation keeps the invariant\<close>

text \<open>Taking the identifiers of a new object.\<close>

definition with_new_ids :: "'p Catalog \<Rightarrow> 'p Catalog" where
  "with_new_ids st = snd (take_next_placement_id (snd (take_next_object_id st)))"

lemma with_new_ids_simps [simp]:
  "c_objects (with_new_ids st) = c_objects st"
  "c_leases (with_new_ids st) = c_leases st"
  "c_blocks (with_new_ids st) = c_blocks st"
  "c_clients (with_new_ids st) = c_clients st"
  "c_data_objects (with_new_ids st) = c_data_objects st"
  "c_placements (with_new_ids st) = c_placements st"
  "c_resource_bindings (with_new_ids st) = c_resource_bindings st"
  "c_external_ddr (with_new_ids st) = c_external_ddr st"
  "c_ids (with_new_ids st) = (c_ids st)\<lparr> next_object_id := next_object_id (c_ids st) + 1,
     next_placement_id := next_placement_id (c_ids st) + 1 \<rparr>"
  by (simp_all add: with_new_ids_def take_next_object_id_def take_next_placement_id_def)

lemma with_new_ids_inv:
  assumes "obj_inv st" and inc: "next_object_id (c_ids st) < next_object_id (c_ids st) + 1"
      "next_placement_id (c_ids st) < next_placement_id (c_ids st) + 1"
  shows "obj_inv (with_new_ids st)"
proof -
  have objs: "objects_ok (with_new_ids st)"
    using assms(1) inc
    by (auto simp: obj_inv_def objects_ok_def intro: keys_below_mono order.strict_trans)
  have typed: "typed_ok (with_new_ids st)"
    using assms(1) inc
    by (auto simp: obj_inv_def typed_ok_def mirrored_def intro: keys_below_mono)
  show ?thesis
    using assms(1) objs typed
    by (simp add: obj_inv_def leases_ok_def blocks_ok_def clients_ok_def)
qed

lemma new_object_fresh:
  assumes "obj_inv st" and "next_object_id (c_ids st) < next_object_id (c_ids st) + 1"
      "next_placement_id (c_ids st) < next_placement_id (c_ids st) + 1"
    and "ob_object_id ob = next_object_id (c_ids st)"
    and "ob_placement_id ob = next_placement_id (c_ids st)"
  shows "fresh_for ob (with_new_ids st)" and "objects_below ob (with_new_ids st)"
  using assms
  by (auto simp: fresh_for_def objects_below_def obj_inv_def objects_ok_def typed_ok_def)

text \<open>A new object outside device memory, with its first lease.\<close>

lemma add_and_lease_inv:
  assumes "obj_inv st" and "room st" and "ob_object_id ob = next_object_id (c_ids st)"
    and "ob_placement_id ob = next_placement_id (c_ids st)" and "\<not> is_hbm ob"
    and "\<not> range_exceeds off n (ob_requested_bytes ob)"
  shows "obj_inv (snd (make_lease c ob off n (add_object ob (with_new_ids st))))"
proof -
  note f = new_object_fresh [OF assms(1) room_inc(3,4) [OF assms(2)] assms(3,4)]
  have inv: "obj_inv (with_new_ids st)"
    by (rule with_new_ids_inv [OF assms(1) room_inc(3,4) [OF assms(2)]])
  have add: "obj_inv (add_object ob (with_new_ids st))"
    using inv f assms(5) room_inc(5) [OF assms(2)]
    by (simp add: obj_inv_def objects_ok_add typed_ok_add leases_ok_add blocks_ok_add clients_ok_def)
  have "leases_ok (snd (make_lease c ob off n (add_object ob (with_new_ids st))))"
    by (rule leases_ok_insert [where st = "add_object ob (with_new_ids st)"
          and l = "fst (make_lease c ob off n (add_object ob (with_new_ids st)))"])
      (use add room_inc(6) [OF assms(2)] assms(6) in
        \<open>simp_all add: obj_inv_def lease_ok_def hm_get_insert\<close>)
  then show ?thesis by (rule obj_inv_leases [OF add]) simp_all
qed

lemma objects_ok_value:
  assumes "objects_ok st" and "ob \<in> set (hm_values (c_objects st))"
  shows "hm_get (c_objects st) (ob_object_id ob) = Some ob"
proof -
  have "hm_wf (c_objects st)" using assms(1) by (simp add: objects_ok_def)
  from hm_values_get [OF this assms(2)] obtain k where "hm_get (c_objects st) k = Some ob" ..
  with assms(1) show ?thesis by (auto simp: objects_ok_def)
qed

lemma reusable_object:
  assumes "obj_inv st" and "reusable req st placement target n = Some ob"
  shows "hm_get (c_objects st) (ob_object_id ob) = Some ob" and "ob_placement ob = placement"
    and "ob_requested_bytes ob = n"
proof -
  from assms(2) have f: "ob \<in> set (hm_values (c_objects st))" "ob_placement ob = placement"
    "ob_requested_bytes ob = n"
    by (auto simp: reusable_def find_reusable_object_def split: if_splits dest!: find_SomeD)
  show "hm_get (c_objects st) (ob_object_id ob) = Some ob"
    using assms(1) f(1) by (intro objects_ok_value) (simp_all add: obj_inv_def)
  show "ob_placement ob = placement" "ob_requested_bytes ob = n" by fact+
qed

lemma full_range_ok [simp]: "\<not> range_exceeds 0 n n"
  using unat_less_u64 [of n] by (simp add: range_exceeds_def checked_add_def)

lemma reuse_lease_inv:
  "obj_inv st \<Longrightarrow> room st \<Longrightarrow> reusable req st placement target n = Some ob \<Longrightarrow>
     obj_inv (snd (make_lease c ob 0 (ob_requested_bytes ob) st))"
  by (rule make_lease_inv) (auto simp: reusable_object)

lemma allocate_ddr_eq:
  "allocate_ddr_object o_s req client_id node n st =
     (case open_ddr_backing o_s (next_object_id (c_ids st)) node n of
        Inl e \<Rightarrow> (err e, with_new_ids st)
      | Inr fd \<Rightarrow>
          (case prepare_ddr_file o_s fd n of
             Inl e \<Rightarrow> (err (''prepare DDR object failed: '' @ e), with_new_ids st)
           | Inr info \<Rightarrow>
               let ob = ddr_object o_s req (next_object_id (c_ids st))
                          (next_placement_id (c_ids st)) client_id node n fd info;
                   (lease, st) = make_lease client_id ob 0 n (add_object ob (with_new_ids st)) in
               (create_ddr_lease_response ob lease False, st)))"
  by (simp add: allocate_ddr_object_def with_new_ids_def take_next_object_id_def
      take_next_placement_id_def Let_def split: sum.split)

lemma allocate_ssd_eq:
  "allocate_ssd_object o_s req client_id target n st =
     (case create_ssd_file o_s (next_object_id (c_ids st)) n of
        Inl e \<Rightarrow> (err e, with_new_ids st)
      | Inr info \<Rightarrow>
          let ob = ssd_object req (next_object_id (c_ids st)) (next_placement_id (c_ids st))
                     client_id target info;
              (lease, st) = make_lease client_id ob 0 n (add_object ob (with_new_ids st)) in
          (create_ssd_lease_response ob lease False, st))"
  by (simp add: allocate_ssd_object_def with_new_ids_def take_next_object_id_def
      take_next_placement_id_def Let_def split: sum.split)

lemma ddr_object_simps [simp]:
  "ob_object_id (ddr_object o_s req oid pid c node n fd info) = oid"
  "ob_placement_id (ddr_object o_s req oid pid c node n fd info) = pid"
  "ob_requested_bytes (ddr_object o_s req oid pid c node n fd info) = n"
  "ob_placement (ddr_object o_s req oid pid c node n fd info) = ''ddr''"
  by (simp_all add: ddr_object_def blank_object_def Let_def)

lemma ssd_object_simps [simp]:
  "ob_object_id (ssd_object req oid pid c target info) = oid"
  "ob_placement_id (ssd_object req oid pid c target info) = pid"
  "ob_requested_bytes (ssd_object req oid pid c target info) = si_requested_bytes info"
  "ob_placement (ssd_object req oid pid c target info) = ''ssd''"
  by (simp_all add: ssd_object_def blank_object_def)

lemma create_ssd_file_requested: "create_ssd_file o_s oid n = Inr info \<Longrightarrow> si_requested_bytes info = n"
  by (auto simp: create_ssd_file_def rbind_Inr_iff Let_def split: if_splits sum.splits)

lemma allocate_ddr_inv:
  "obj_inv st \<Longrightarrow> room st \<Longrightarrow> obj_inv (snd (allocate_ddr_object o_s req c node n st))"
  by (auto simp: allocate_ddr_eq Let_def case_prod_beta is_hbm_def with_new_ids_inv room_inc add_and_lease_inv
      split: sum.split)

lemma allocate_ssd_inv:
  "obj_inv st \<Longrightarrow> room st \<Longrightarrow> obj_inv (snd (allocate_ssd_object o_s req c target n st))"
  by (auto simp: allocate_ssd_eq Let_def case_prod_beta is_hbm_def with_new_ids_inv room_inc add_and_lease_inv
      create_ssd_file_requested split: sum.split)

lemma create_ddr_inv:
  "obj_inv st \<Longrightarrow> room st \<Longrightarrow> obj_inv (snd (create_ddr_data_object o_s req st))"
  by (auto simp: create_ddr_data_object_def Let_def case_prod_beta allocate_ddr_inv
      intro: reuse_lease_inv split: sum.split option.split)

lemma create_ssd_inv:
  "obj_inv st \<Longrightarrow> room st \<Longrightarrow> obj_inv (snd (create_ssd_data_object o_s req st))"
  by (auto simp: create_ssd_data_object_def Let_def case_prod_beta allocate_ssd_inv
      intro: reuse_lease_inv split: sum.split option.split)

section \<open>Device memory\<close>

lemma position_SomeD: "position p xs = Some i \<Longrightarrow> i < length xs \<and> p (xs ! i)"
  by (induction xs arbitrary: i) (auto split: if_splits)

lemma position_None: "position p xs = None \<longleftrightarrow> (\<forall>x \<in> set xs. \<not> p x)"
  by (induction xs) auto

text \<open>
  What the object service relies on in the ACL runtime: an allocation has at least the size that
  was asked for (it is rounded up to the granularity) and is on the device that was asked for.
\<close>

definition acl_sizes_ok :: "acl \<Rightarrow> bool" where
  "acl_sizes_ok a \<longleftrightarrow>
     (\<forall>dev n alloc. hbm_allocate a dev n = Inr alloc \<longrightarrow>
        n \<le> al_actual_bytes alloc \<and> al_device_id alloc = dev)"

definition free_block :: "'p Catalog \<Rightarrow> nat \<Rightarrow> u64 \<Rightarrow> int \<Rightarrow> bool" where
  "free_block st pos n dev \<longleftrightarrow>
     pos < length (c_blocks st) \<and> can_hold_on (c_blocks st ! pos) n dev"

lemma find_or_allocate_block_inv:
  assumes "obj_inv st" and "room st"
  shows "obj_inv (snd (find_or_allocate_block a dev n st))"
proof (cases "position (\<lambda>b. can_hold_on b n dev) (c_blocks st)")
  case (Some pos)
  with assms show ?thesis by (simp add: find_or_allocate_block_def)
next
  case None
  note inc = room_inc(1) [OF assms(2)]
  have below: "bl_block_id b < next_block_id (c_ids st)" if "b \<in> set (c_blocks st)" for b
    using assms(1) that by (simp add: obj_inv_def blocks_ok_def)
  then have lt: "bl_block_id b < next_block_id (c_ids st) + 1" if "b \<in> set (c_blocks st)" for b
    using inc that order.strict_trans by blast
  have fresh: "next_block_id (c_ids st) \<notin> bl_block_id ` set (c_blocks st)"
    by (metis below image_iff less_irrefl)
  let ?st = "snd (find_or_allocate_block a dev n st)"
  have blocks: "blocks_ok ?st"
    using assms(1) None lt inc fresh
    by (auto simp: find_or_allocate_block_def take_next_block_id_def obj_inv_def blocks_ok_def
        block_new_def block_ok_def split: sum.split)
  have eqs: "c_objects ?st = c_objects st" "c_leases ?st = c_leases st" "c_clients ?st = c_clients st"
    "c_data_objects ?st = c_data_objects st" "c_placements ?st = c_placements st"
    "c_resource_bindings ?st = c_resource_bindings st"
    "c_ids ?st = (c_ids st)\<lparr> next_block_id := next_block_id (c_ids st) + 1 \<rparr>"
    using None by (auto simp: find_or_allocate_block_def take_next_block_id_def split: sum.split)
  show ?thesis
    by (rule obj_inv_frame [OF assms(1) leases_ok_cong [of st] blocks clients_ok_cong [of st]])
      (use assms(1) eqs in \<open>simp_all add: obj_inv_def\<close>)
qed

lemma find_or_allocate_block_free:
  assumes "acl_sizes_ok a" and "find_or_allocate_block a dev n st = (Inr pos, st')"
  shows "free_block st' pos n dev"
  using assms
  by (auto simp: find_or_allocate_block_def take_next_block_id_def free_block_def acl_sizes_ok_def
      can_hold_on_def can_hold_def block_new_def split: option.splits sum.splits
      dest: position_SomeD)

lemma find_or_allocate_block_ids:
  assumes "find_or_allocate_block a dev n st = (r, st')"
  shows "c_objects st' = c_objects st" and "c_leases st' = c_leases st"
    and "c_clients st' = c_clients st"
    and "next_object_id (c_ids st') = next_object_id (c_ids st)"
    and "next_placement_id (c_ids st') = next_placement_id (c_ids st)"
    and "next_lease_id (c_ids st') = next_lease_id (c_ids st)"
    and "next_resource_binding_id (c_ids st') = next_resource_binding_id (c_ids st)"
  using assms
  by (auto simp: find_or_allocate_block_def take_next_block_id_def split: option.splits sum.splits)

lemma hbm_object_simps [simp]:
  "ob_object_id (hbm_object req oid pid c n b) = oid"
  "ob_placement_id (hbm_object req oid pid c n b) = pid"
  "ob_requested_bytes (hbm_object req oid pid c n b) = n"
  "ob_placement (hbm_object req oid pid c n b) = ''hbm''"
  "ob_block_id (hbm_object req oid pid c n b) = bl_block_id b"
  by (simp_all add: hbm_object_def blank_object_def)

lemma hbm_has_block:
  "blocks_ok st \<Longrightarrow> hm_get (c_objects st) k = Some ob \<Longrightarrow> is_hbm ob \<Longrightarrow>
     \<exists>b \<in> set (c_blocks st). bl_block_id b = ob_block_id ob \<and> bl_object_id b = k"
  by (simp add: blocks_ok_def)

text \<open>Binding a free block: the list of blocks with the block at a position assigned to an object.\<close>

lemma blocks_ok_bind:
  assumes "blocks_ok st" and "objects_below ob st" and "is_hbm ob"
    and pos: "pos < length (c_blocks st)"
    and b: "b = c_blocks st ! pos" "bl_object_id b = 0" "ob_block_id ob = bl_block_id b"
      "ob_requested_bytes ob \<le> al_actual_bytes (bl_allocation b)"
    and st': "c_objects st' = hm_insert (ob_object_id ob) ob (c_objects st)"
      "c_blocks st' = (c_blocks st)[pos := b\<lparr> bl_state := ''Leased'', bl_object_id := ob_object_id ob \<rparr>]"
      "next_block_id (c_ids st') = next_block_id (c_ids st)"
  shows "blocks_ok st'"
proof -
  let ?b = "b\<lparr> bl_state := ''Leased'', bl_object_id := ob_object_id ob \<rparr>"
  have ids: "map bl_block_id (c_blocks st') = map bl_block_id (c_blocks st)"
    using pos b(1) by (simp add: st' map_update list_update_same_conv)
  have mem: "b \<in> set (c_blocks st)" using pos b(1) by simp
  have keep: "block_ok (c_objects st') c" if "c \<in> set (c_blocks st)" for c
    using assms(1,2) that
    by (auto simp: blocks_ok_def block_ok_def st' hm_get_insert dest: objects_belowD(3))
  have new: "block_ok (c_objects st') ?b"
    using assms(3) b by (simp add: block_ok_def st' hm_get_insert)
  have old: "\<exists>c \<in> set (c_blocks st'). bl_block_id c = ob_block_id ob' \<and> bl_object_id c = k"
    if g: "hm_get (c_objects st) k = Some ob'" and h: "is_hbm ob'" for k ob'
  proof -
    from hbm_has_block [OF assms(1) g h] obtain c where c: "c \<in> set (c_blocks st)"
      "bl_block_id c = ob_block_id ob'" "bl_object_id c = k" by blast
    moreover have "k \<noteq> 0" using objects_belowD(2) [OF assms(2) g] .
    ultimately obtain i where i: "i < length (c_blocks st)" "c = c_blocks st ! i" "i \<noteq> pos"
      using b by (auto simp: in_set_conv_nth)
    then have "c \<in> set (c_blocks st')"
      by (auto simp: st' in_set_conv_nth intro!: exI [of _ i])
    with c show ?thesis by blast
  qed
  have upd: "set (c_blocks st') \<subseteq> insert ?b (set (c_blocks st))"
    by (simp add: st' set_update_subset_insert)
  have newin: "?b \<in> set (c_blocks st')" using pos by (simp add: st' set_update_memI)
  show ?thesis
    unfolding blocks_ok_def
  proof (intro conjI ballI allI impI)
    show "distinct (map bl_block_id (c_blocks st'))" using assms(1) ids by (simp add: blocks_ok_def)
    fix c assume "c \<in> set (c_blocks st')"
    with upd consider "c = ?b" | "c \<in> set (c_blocks st)" by blast
    then show "bl_block_id c < next_block_id (c_ids st')" "block_ok (c_objects st') c"
      using assms(1) mem keep new st' by (cases; simp add: blocks_ok_def)+
  next
    fix k ob' assume "hm_get (c_objects st') k = Some ob'" and "is_hbm ob'"
    then show "\<exists>c \<in> set (c_blocks st'). bl_block_id c = ob_block_id ob' \<and> bl_object_id c = k"
      using old b(3) newin by (auto simp: st' hm_get_insert split: if_splits intro!: bexI [of _ ?b])
  qed
qed

lemma bind_hbm_inv:
  assumes inv: "obj_inv st" and free: "free_block st pos n dev"
    and inc: "next_object_id (c_ids st) < next_object_id (c_ids st) + 1"
      "next_placement_id (c_ids st) < next_placement_id (c_ids st) + 1"
      "next_lease_id (c_ids st) < next_lease_id (c_ids st) + 1"
      "next_resource_binding_id (c_ids st) < next_resource_binding_id (c_ids st) + 1"
  shows "obj_inv (snd (bind_hbm_object req c n pos ex st))"
proof -
  define b where "b = c_blocks st ! pos"
  define ob where "ob = hbm_object req (next_object_id (c_ids st)) (next_placement_id (c_ids st)) c n b"
  define st1 where "st1 = (with_new_ids st)
     \<lparr> c_ids := (c_ids (with_new_ids st))\<lparr> next_lease_id := next_lease_id (c_ids st) + 1 \<rparr>,
       c_blocks := (c_blocks st)[pos := b\<lparr> bl_state := ''Leased'', bl_object_id := ob_object_id ob \<rparr>] \<rparr>"
  define lease where "lease = \<lparr> le_lease_id = next_lease_id (c_ids st), le_object_id = ob_object_id ob,
     le_block_id = bl_block_id b, le_client_id = c, le_state = ''Active'',
     le_allowed_offset_bytes = 0, le_allowed_bytes = n \<rparr>"
  let ?st = "snd (bind_hbm_object req c n pos ex st)"
  have eq: "?st = (add_object ob st1)\<lparr> c_leases := hm_insert (next_lease_id (c_ids st)) lease
       (c_leases (add_object ob st1)) \<rparr>"
    by (simp add: bind_hbm_object_def Let_def take_next_object_id_def take_next_placement_id_def
        take_next_lease_id_def with_new_ids_def ob_def st1_def lease_def b_def)
  have "al_actual_bytes (bl_allocation b) \<ge> n" "bl_object_id b = 0" "pos < length (c_blocks st)"
    using free by (simp_all add: free_block_def can_hold_on_def can_hold_def b_def)
  note b = this
  note f = new_object_fresh [OF inv inc(1,2), of ob]
  have inv1: "obj_inv (with_new_ids st)" by (rule with_new_ids_inv [OF inv inc(1,2)])
  have fr: "fresh_for ob st1" "objects_below ob st1" "objects_below ob (with_new_ids st)"
    using f by (simp_all add: ob_def st1_def fresh_for_def objects_below_def)
  have st1: "objects_ok st1" "typed_ok st1"
    by (rule objects_ok_cong [of "with_new_ids st"] typed_ok_cong [of "with_new_ids st"];
        use inv1 in \<open>simp add: obj_inv_def st1_def\<close>)+
  have objs: "objects_ok (add_object ob st1)" by (rule objects_ok_add [OF st1(1) fr(1,2)])
  have typed: "typed_ok (add_object ob st1)"
    by (rule typed_ok_add [OF st1(2) fr(1,2)]) (use inc(4) in \<open>simp add: st1_def\<close>)
  have blocks: "blocks_ok ?st"
    by (rule blocks_ok_bind [where st = "with_new_ids st" and ob = ob and pos = pos and b = b])
      (use inv1 fr b in \<open>simp_all add: eq obj_inv_def is_hbm_def b_def ob_def st1_def\<close>)
  have keep: "lease_ok (c_objects ?st) l" if "lease_ok (c_objects st) l" for l
    using that objects_belowD(3) [OF fr(3)]
    by (auto simp: eq st1_def lease_ok_def hm_get_insert)
  have leases: "leases_ok ?st"
    by (rule leases_ok_insert [where st = st and l = lease])
      (use inv inc(3) keep in \<open>simp_all add: obj_inv_def eq st1_def lease_def lease_ok_def hm_get_insert ob_def\<close>)
  have "objects_ok ?st" by (rule objects_ok_cong [OF objs]) (simp_all add: eq)
  moreover have "typed_ok ?st" by (rule typed_ok_cong [OF typed]) (simp_all add: eq)
  moreover have "clients_ok ?st"
    by (rule clients_ok_cong [of "with_new_ids st"])
      (use inv1 in \<open>simp_all add: eq obj_inv_def st1_def\<close>)
  ultimately show ?thesis using blocks leases by (simp add: obj_inv_def)
qed

lemma reuse_hbm_inv:
  "obj_inv st \<Longrightarrow> room st \<Longrightarrow> hm_get (c_objects st) (ob_object_id ob) = Some ob \<Longrightarrow>
     \<not> range_exceeds off n (ob_requested_bytes ob) \<Longrightarrow>
     obj_inv (snd (reuse_hbm_object a c client ob off n st))"
  by (auto simp: reuse_hbm_object_def Let_def case_prod_beta make_lease_inv
      split: option.split sum.split)

lemma create_hbm_inv:
  assumes "obj_inv st" and "room st" and "acl_sizes_ok a"
  shows "obj_inv (snd (create_hbm_data_object a req st))"
proof -
  have bind: "obj_inv (snd (bind_hbm_object req c n pos ex st'))"
    if "find_or_allocate_block a dev n st = (Inr pos, st')" for c n pos ex st' dev
    using find_or_allocate_block_inv [OF assms(1,2), of a dev n]
      find_or_allocate_block_free [OF assms(3) that] find_or_allocate_block_ids [OF that]
      room_inc [OF assms(2)] that
    by (intro bind_hbm_inv) simp_all
  have fail: "obj_inv st'" if "find_or_allocate_block a dev n st = (r, st')" for r st' dev n
    using find_or_allocate_block_inv [OF assms(1,2), of a dev n] that by simp
  have reuse: "obj_inv (snd (reuse_hbm_object a c client ob 0 (ob_requested_bytes ob) st))"
    if "reusable req st ''hbm'' target n = Some ob" for c client ob target n
    by (rule reuse_hbm_inv [OF assms(1,2)]) (use reusable_object [OF assms(1) that] in auto)
  show ?thesis
    using assms(1) bind fail reuse
    by (simp add: create_hbm_data_object_def Let_def split: sum.split option.split prod.split)
qed

lemma create_inv:
  "obj_inv st \<Longrightarrow> room st \<Longrightarrow> acl_sizes_ok a \<Longrightarrow> obj_inv (snd (create_data_object o_s a req st))"
  by (simp add: create_data_object_def create_ddr_inv create_ssd_inv create_hbm_inv)

section \<open>The other handlers keep the invariant\<close>

lemma open_inv:
  assumes "obj_inv st" and "room st"
  shows "obj_inv (snd (open_data_object o_s a req st))"
proof -
  have key: "hm_get (c_objects st) (ob_object_id ob) = Some ob" if "hm_get (c_objects st) k = Some ob" for k ob
    using assms(1) that by (auto simp: obj_inv_def objects_ok_def)
  show ?thesis
    using assms
    by (auto simp: open_data_object_def Let_def case_prod_beta
        intro!: make_lease_inv reuse_hbm_inv split: option.split sum.split dest: key)
qed

text \<open>Release, one record at a time.\<close>

lemma objects_ok_remove:
  "objects_ok st \<Longrightarrow> c_objects st' = hm_remove k (c_objects st) \<Longrightarrow> c_ids st' = c_ids st \<Longrightarrow>
     objects_ok st'"
  by (simp add: objects_ok_def hm_get_remove keys_below_remove split: if_splits)

lemma mark_released_simps [simp]:
  "c_objects (mark_object_released k st) = c_objects st"
  "c_leases (mark_object_released k st) = c_leases st"
  "c_blocks (mark_object_released k st) = c_blocks st"
  "c_clients (mark_object_released k st) = c_clients st"
  "c_ids (mark_object_released k st) = c_ids st"
  "c_external_ddr (mark_object_released k st) = c_external_ddr st"
  "c_transfer_plans (mark_object_released k st) = c_transfer_plans st"
  "c_transfer_events (mark_object_released k st) = c_transfer_events st"
  by (simp_all add: mark_object_released_def Let_def)

lemma mirrored_released:
  assumes "mirrored st ob"
  shows "mirrored (mark_object_released k st) ob"
proof -
  from assms obtain d p where "hm_get (c_data_objects st) (ob_object_id ob) = Some d"
    "do_object_id d = ob_object_id ob" "do_size_bytes d = ob_requested_bytes ob"
    "hm_get (c_placements st) (ob_placement_id ob) = Some p"
    "dp_object_id p = ob_object_id ob" "dp_nbytes p = ob_requested_bytes ob"
    by (auto simp: mirrored_def)
  then show ?thesis
    by (cases "ob_object_id ob = k")
      (simp_all add: mirrored_def mark_object_released_def Let_def hm_get_modify hm_get_update_where)
qed

lemma typed_ok_released:
  assumes "typed_ok st" and "\<And>i ob. hm_get (c_objects st') i = Some ob \<Longrightarrow> hm_get (c_objects st) i = Some ob"
    and "c_ids st' = c_ids st" and "c_data_objects st' = c_data_objects (mark_object_released k st)"
    and "c_placements st' = c_placements (mark_object_released k st)"
    and "c_resource_bindings st' = c_resource_bindings (mark_object_released k st)"
  shows "typed_ok st'"
proof -
  have "mirrored st' ob" if "hm_get (c_objects st') i = Some ob" for i ob
    using mirrored_released [of st ob k] assms(1) assms(2) [OF that] assms(4,5)
    by (simp add: typed_ok_def mirrored_def)
  moreover have "rb_binding_id b = i" if "hm_get (c_resource_bindings st') i = Some b" for i b
    using that assms(1,6)
    by (auto simp: typed_ok_def mark_object_released_def Let_def hm_get_update_where split: if_splits)
  ultimately show ?thesis
    using assms(1,3-6) by (simp add: typed_ok_def mark_object_released_def Let_def)
qed

lemma leases_ok_released:
  assumes "leases_ok st" and "c_objects st' = hm_remove k (c_objects st)"
    and "c_leases st' = stale_leases k (c_leases st)" and "c_ids st' = c_ids st"
  shows "leases_ok st'"
proof -
  have "le_lease_id l = i \<and> lease_ok (c_objects st') l" if "hm_get (c_leases st') i = Some l" for i l
  proof -
    from that assms(3) obtain l0 where l0: "hm_get (c_leases st) i = Some l0"
      and l: "l = (if le_object_id l0 = k \<and> le_state l0 \<noteq> ''Closed''
                   then l0\<lparr> le_state := ''Stale'' \<rparr> else l0)"
      by (auto simp: stale_leases_def hm_get_update_where)
    have "le_lease_id l0 = i" "lease_ok (c_objects st) l0"
      using assms(1) l0 by (simp_all add: leases_ok_def)
    then show ?thesis
      by (auto simp: l lease_ok_def assms(2) hm_get_remove)
  qed
  then show ?thesis
    using assms(1,3,4) by (simp add: leases_ok_def stale_leases_def)
qed

text \<open>The block of an object is the one at the position that release looks up.\<close>

lemma block_position:
  assumes "blocks_ok st" and "hm_get (c_objects st) k = Some ob" and "is_hbm ob"
  obtains pos where
    "position (\<lambda>b. bl_block_id b = ob_block_id ob) (c_blocks st) = Some pos"
    "pos < length (c_blocks st)" "bl_object_id (c_blocks st ! pos) = k"
proof -
  from hbm_has_block [OF assms] obtain b where b: "b \<in> set (c_blocks st)"
    "bl_block_id b = ob_block_id ob" "bl_object_id b = k" by blast
  then obtain pos where pos: "position (\<lambda>b. bl_block_id b = ob_block_id ob) (c_blocks st) = Some pos"
    using position_None [of "\<lambda>b. bl_block_id b = ob_block_id ob" "c_blocks st"]
    by (cases "position (\<lambda>b. bl_block_id b = ob_block_id ob) (c_blocks st)") auto
  then have p: "pos < length (c_blocks st)" "bl_block_id (c_blocks st ! pos) = ob_block_id ob"
    by (auto dest: position_SomeD)
  have "inj_on bl_block_id (set (c_blocks st))"
    using assms(1) by (simp add: blocks_ok_def distinct_map)
  then have "c_blocks st ! pos = b"
    by (rule inj_onD) (use b p in simp_all)
  with b(3) p(1) pos show thesis by (intro that) auto
qed

lemma blocks_keep_other:
  assumes "block_ok objs b" and "bl_object_id b \<noteq> k"
  shows "block_ok (hm_remove k objs) b"
  using assms by (auto simp: block_ok_def hm_get_remove)

text \<open>Which position of the block list belongs to an object is determined by the object.\<close>

lemma block_unique:
  assumes "blocks_ok st" and "objects_ok st" and "i < length (c_blocks st)" and "j < length (c_blocks st)"
    and "bl_object_id (c_blocks st ! i) = bl_object_id (c_blocks st ! j)"
    and "bl_object_id (c_blocks st ! i) \<noteq> 0"
  shows "i = j"
proof -
  have ok: "block_ok (c_objects st) (c_blocks st ! i)" "block_ok (c_objects st) (c_blocks st ! j)"
    using assms(1,3,4) by (simp_all add: blocks_ok_def)
  with assms(5,6) have "bl_block_id (c_blocks st ! i) = bl_block_id (c_blocks st ! j)"
    by (auto simp: block_ok_def)
  then show ?thesis
    using assms(1,3,4) by (simp add: blocks_ok_def distinct_conv_nth) (metis nth_map)
qed

text \<open>Release of a block, with the block list split at its position.\<close>

lemma release_block_split:
  assumes "blocks_ok st" and "hm_get (c_objects st) k = Some ob" and "is_hbm ob"
  obtains xs b ys where "c_blocks st = xs @ b # ys" "bl_object_id b = k"
    "release_block ob (c_blocks st) =
       (if bl_dynamic b then ([FreeHbm (bl_allocation b)], xs @ ys)
        else ([], xs @ b\<lparr> bl_state := ''Ready'', bl_object_id := 0 \<rparr> # ys))"
proof -
  from block_position [OF assms] obtain pos where pos:
    "position (\<lambda>b. bl_block_id b = ob_block_id ob) (c_blocks st) = Some pos"
    "pos < length (c_blocks st)" "bl_object_id (c_blocks st ! pos) = k" .
  show thesis
    by (rule that [of "take pos (c_blocks st)" "c_blocks st ! pos" "drop (Suc pos) (c_blocks st)"])
      (use pos in \<open>simp_all add: id_take_nth_drop [symmetric] release_block_def upd_conv_take_nth_drop\<close>)
qed

lemma blocks_ok_released:
  assumes "blocks_ok st" and "objects_ok st" and "hm_get (c_objects st) k = Some ob" and "is_hbm ob"
    and st': "c_objects st' = hm_remove k (c_objects st)"
      "c_blocks st' = snd (release_block ob (c_blocks st))" "c_ids st' = c_ids st"
  shows "blocks_ok st'"
proof -
  from release_block_split [OF assms(1,3,4)] obtain xs b ys where split: "c_blocks st = xs @ b # ys"
    "bl_object_id b = k" and rel: "release_block ob (c_blocks st) =
       (if bl_dynamic b then ([FreeHbm (bl_allocation b)], xs @ ys)
        else ([], xs @ b\<lparr> bl_state := ''Ready'', bl_object_id := 0 \<rparr> # ys))" .
  have k: "k \<noteq> 0" using assms(2,3) by (simp add: objects_ok_def)
  have dist: "distinct (map bl_block_id (xs @ b # ys))"
    using assms(1) split(1) by (simp add: blocks_ok_def)
  have other: "bl_object_id c \<noteq> k" if "c \<in> set xs \<union> set ys" for c
  proof
    assume c: "bl_object_id c = k"
    have "block_ok (c_objects st) c" "block_ok (c_objects st) b"
      using assms(1) split(1) that by (auto simp: blocks_ok_def)
    with c split(2) k have "bl_block_id b = bl_block_id c" by (auto simp: block_ok_def)
    then have "bl_block_id b \<in> bl_block_id ` (set xs \<union> set ys)" using that by blast
    with dist show False by auto
  qed
  have ok: "bl_block_id c < next_block_id (c_ids st') \<and> block_ok (c_objects st') c"
    if "c \<in> set xs \<union> set ys" for c
    using assms(1) split(1) st' that other [OF that]
    by (auto simp: blocks_ok_def intro: blocks_keep_other)
  have bnd: "bl_block_id b < next_block_id (c_ids st')"
    using assms(1) split(1) st' by (simp add: blocks_ok_def)
  have obj: "\<exists>c \<in> set xs \<union> set ys. bl_block_id c = ob_block_id ob' \<and> bl_object_id c = k'"
    if g: "hm_get (c_objects st') k' = Some ob'" and h: "is_hbm ob'" for k' ob'
  proof -
    have kk: "k' \<noteq> k" "hm_get (c_objects st) k' = Some ob'"
      using g st' by (auto simp: hm_get_remove split: if_splits)
    from hbm_has_block [OF assms(1) kk(2) h] kk(1) split show ?thesis by auto
  qed
  have "set (c_blocks st') \<subseteq> set xs \<union> set ys \<union> {b\<lparr> bl_state := ''Ready'', bl_object_id := 0 \<rparr>}"
    "set xs \<union> set ys \<subseteq> set (c_blocks st')" "distinct (map bl_block_id (c_blocks st'))"
    using dist by (auto simp: st' rel)
  moreover have "block_ok (c_objects st') (b\<lparr> bl_state := ''Ready'', bl_object_id := 0 \<rparr>)"
    by (simp add: block_ok_def)
  ultimately show ?thesis
    unfolding blocks_ok_def using ok obj bnd by fastforce
qed

lemma blocks_ok_remove_other:
  assumes "blocks_ok st" and "hm_get (c_objects st) k = Some ob" and "\<not> is_hbm ob"
    and "c_objects st' = hm_remove k (c_objects st)" and "c_blocks st' = c_blocks st"
    and "c_ids st' = c_ids st"
  shows "blocks_ok st'"
  using assms by (auto simp: blocks_ok_def block_ok_def hm_get_remove split: if_splits)

definition released :: "u64 \<Rightarrow> Block list \<Rightarrow> 'p Catalog \<Rightarrow> 'p Catalog" where
  "released k bs st =
     (mark_object_released k (st\<lparr> c_objects := hm_remove k (c_objects st) \<rparr>))
       \<lparr> c_leases := stale_leases k (c_leases st), c_blocks := bs \<rparr>"

text \<open>The clean-up calls of an object.\<close>

definition release_todo :: "Object \<Rightarrow> Block list \<Rightarrow> cleanup list \<times> Block list" where
  "release_todo ob bs =
     (if ob_placement ob = ''ddr'' then (ddr_cleanups ob, bs)
      else if ob_placement ob = ''ssd'' then ([RemoveSsdFile ob], bs)
      else release_block ob bs)"

lemma release_eq:
  "release_data_object o_s a req st =
     (let oid = get_u64 req ''object_id'' in
      if xd_contains (c_external_ddr st) oid then
        (err ''external DDR must be revoked through the authenticated FD broker'', [], st)
      else case hm_get (c_objects st) oid of
        None \<Rightarrow> (err ''object not found'', [], st)
      | Some ob \<Rightarrow>
          let (todo, bs) = release_todo ob (c_blocks st); (r, done) = run_cleanups o_s a todo in
          (case r of Inl e \<Rightarrow> err e | Inr _ \<Rightarrow> ok [], done, released oid bs st))"
  by (simp add: release_data_object_def release_todo_def released_def Let_def case_prod_beta
      split: option.split sum.split)

lemma released_inv:
  assumes "obj_inv st" and "hm_get (c_objects st) k = Some ob"
    and "bs = snd (release_todo ob (c_blocks st))"
  shows "obj_inv (released k bs st)"
proof -
  let ?st = "released k bs st"
  have eqs: "c_objects ?st = hm_remove k (c_objects st)" "c_ids ?st = c_ids st"
    "c_leases ?st = stale_leases k (c_leases st)" "c_blocks ?st = bs" "c_clients ?st = c_clients st"
    "c_data_objects ?st = c_data_objects (mark_object_released k st)"
    "c_placements ?st = c_placements (mark_object_released k st)"
    "c_resource_bindings ?st = c_resource_bindings (mark_object_released k st)"
    by (simp_all add: released_def mark_object_released_def Let_def)
  have parts: "objects_ok st" "leases_ok st" "blocks_ok st" "typed_ok st" "clients_ok st"
    using assms(1) by (simp_all add: obj_inv_def)
  have "objects_ok ?st" by (rule objects_ok_remove [OF parts(1) eqs(1,2)])
  moreover have "leases_ok ?st" by (rule leases_ok_released [OF parts(2) eqs(1,3,2)])
  moreover have "typed_ok ?st"
    by (rule typed_ok_released [OF parts(4) _ eqs(2,6,7,8)])
      (auto simp: eqs hm_get_remove split: if_splits)
  moreover have "clients_ok ?st" by (rule clients_ok_cong [OF parts(5)]) (simp_all add: eqs)
  moreover have "blocks_ok ?st"
  proof (cases "is_hbm ob")
    case True
    then have "bs = snd (release_block ob (c_blocks st))"
      using assms(3) by (simp add: release_todo_def is_hbm_def)
    with eqs(4) show ?thesis
      by (intro blocks_ok_released [OF parts(3,1) assms(2) True eqs(1) _ eqs(2)]) (rule trans)
  next
    case False
    then have "bs = c_blocks st" using assms(3) by (auto simp: release_todo_def is_hbm_def)
    with eqs(4) show ?thesis
      by (intro blocks_ok_remove_other [OF parts(3) assms(2) False eqs(1) _ eqs(2)]) (rule trans)
  qed
  ultimately show ?thesis by (simp add: obj_inv_def)
qed

lemma release_inv:
  assumes "obj_inv st"
  shows "obj_inv (snd (snd (release_data_object o_s a req st)))"
  using assms released_inv [OF assms]
  by (simp add: release_eq Let_def case_prod_beta split: option.split)

text \<open>Marks, leases, clients, shutdown.\<close>

lemma mark_inv:
  assumes "obj_inv st"
    and f: "\<And>ob. ob_object_id (f ob) = ob_object_id ob \<and> ob_placement_id (f ob) = ob_placement_id ob \<and>
       ob_requested_bytes (f ob) = ob_requested_bytes ob \<and> ob_block_id (f ob) = ob_block_id ob \<and>
       ob_placement (f ob) = ob_placement ob"
  shows "obj_inv (st\<lparr> c_objects := hm_modify k f (c_objects st) \<rparr>)" (is "obj_inv ?st")
proof -
  define alike where "alike ob ob' \<longleftrightarrow> ob_object_id ob' = ob_object_id ob \<and>
     ob_placement_id ob' = ob_placement_id ob \<and> ob_requested_bytes ob' = ob_requested_bytes ob \<and>
     ob_block_id ob' = ob_block_id ob \<and> is_hbm ob' = is_hbm ob" for ob ob'
  have fa: "alike ob (f ob)" "alike ob ob" for ob using f by (simp_all add: alike_def is_hbm_def)
  have bwd: "\<exists>ob. hm_get (c_objects st) i = Some ob \<and> alike ob ob'"
    if "hm_get (hm_modify k f (c_objects st)) i = Some ob'" for i ob'
    using that fa by (auto simp: hm_get_modify split: if_splits)
  have fwd: "\<exists>ob'. hm_get (hm_modify k f (c_objects st)) i = Some ob' \<and> alike ob ob'"
    if "hm_get (c_objects st) i = Some ob" for i ob
    using that fa by (auto simp: hm_get_modify split: if_splits)
  have parts: "objects_ok st" "leases_ok st" "blocks_ok st" "typed_ok st" "clients_ok st"
    using assms(1) by (simp_all add: obj_inv_def)
  have objs: "objects_ok ?st"
    unfolding objects_ok_def
  proof (intro conjI allI impI)
    fix i i' ob ob'
    assume g: "hm_get (c_objects ?st) i = Some ob" and g': "hm_get (c_objects ?st) i' = Some ob'"
      and eq: "ob_placement_id ob = ob_placement_id ob'"
    obtain o1 o2 where "hm_get (c_objects st) i = Some o1" "alike o1 ob"
      "hm_get (c_objects st) i' = Some o2" "alike o2 ob'"
      using bwd [of i ob] bwd [of i' ob'] g g' by auto
    with parts(1) eq show "i = i'" by (simp add: objects_ok_def alike_def)
  qed (use parts(1) in \<open>auto simp: objects_ok_def alike_def dest!: bwd\<close>)
  have lease: "lease_ok (c_objects ?st) l" if "lease_ok (c_objects st) l" for l
    using that by (auto simp: lease_ok_def alike_def dest!: fwd)
  have block: "block_ok (c_objects ?st) b" if "block_ok (c_objects st) b" for b
    using that by (auto simp: block_ok_def alike_def dest!: fwd)
  have mir: "mirrored ?st ob'" if "mirrored st ob" "alike ob ob'" for ob ob'
    using that by (simp add: mirrored_def alike_def)
  have "leases_ok ?st" using parts(2) lease by (simp add: leases_ok_def)
  moreover have "blocks_ok ?st"
    unfolding blocks_ok_def
  proof (intro conjI allI impI)
    fix i ob' assume g: "hm_get (c_objects ?st) i = Some ob'" and h: "is_hbm ob'"
    then obtain ob where "hm_get (c_objects st) i = Some ob" "alike ob ob'" using bwd by auto
    with hbm_has_block [OF parts(3)] h show
      "\<exists>b \<in> set (c_blocks ?st). bl_block_id b = ob_block_id ob' \<and> bl_object_id b = i"
      by (auto simp: alike_def)
  qed (use parts(3) block in \<open>simp_all add: blocks_ok_def\<close>)
  moreover have "mirrored ?st ob'" if "hm_get (c_objects ?st) i = Some ob'" for i ob'
  proof -
    from that obtain ob where ob: "hm_get (c_objects st) i = Some ob" "alike ob ob'" using bwd by auto
    then have "mirrored st ob" using parts(4) by (simp add: typed_ok_def)
    then show ?thesis using ob(2) by (rule mir)
  qed
  then have "typed_ok ?st" using parts(4) by (simp add: typed_ok_def)
  ultimately show ?thesis using objs parts(5) by (simp add: obj_inv_def clients_ok_def)
qed

lemma mark_ready_inv: "obj_inv st \<Longrightarrow> obj_inv (snd (mark_ready req st))"
  by (auto simp: mark_ready_def Let_def intro: mark_inv)

lemma mark_dirty_inv: "obj_inv st \<Longrightarrow> obj_inv (snd (mark_dirty req st))"
  by (auto simp: mark_dirty_def Let_def intro: mark_inv split: option.split)

lemma close_lease_inv:
  assumes "obj_inv st"
  shows "obj_inv (snd (close_lease req st))"
proof -
  have "leases_ok (st\<lparr> c_leases := hm_modify k (\<lambda>l. l\<lparr> le_state := ''Closed'' \<rparr>) (c_leases st) \<rparr>)" for k
    using assms by (auto simp: obj_inv_def leases_ok_def hm_get_modify lease_ok_def split: if_splits)
  then have "obj_inv (st\<lparr> c_leases := hm_modify k (\<lambda>l. l\<lparr> le_state := ''Closed'' \<rparr>) (c_leases st) \<rparr>)" for k
    by (rule obj_inv_leases [OF assms]) simp_all
  with assms show ?thesis by (simp add: close_lease_def Let_def)
qed

lemma register_client_inv:
  assumes "obj_inv st" and "room st"
  shows "obj_inv (snd (register_client req st))"
proof -
  have "clients_ok (snd (register_client req st))"
    using assms room_inc(2) [OF assms(2)]
    by (simp add: register_client_def take_next_client_id_def obj_inv_def clients_ok_def
        keys_below_insert Let_def)
  note cl = this
  show ?thesis
    by (rule obj_inv_frame [OF assms(1) leases_ok_cong [of st] blocks_ok_cong [of st] cl])
      (use assms(1) in \<open>simp_all add: obj_inv_def register_client_def take_next_client_id_def Let_def\<close>)
qed

lemma shutdown_inv: "obj_inv st \<Longrightarrow> obj_inv (snd (shutdown_daemon st))"
  by (rule obj_inv_leases [of st])
    (auto simp: shutdown_daemon_def obj_inv_def intro: leases_ok_cong)

lemma catalog_new_inv:
  assumes "distinct (map bl_block_id blocks)"
    and "\<forall>b \<in> set blocks. bl_block_id b < of_nat (length blocks) + 1 \<and> bl_state b = ''Ready'' \<and>
           bl_object_id b = 0"
  shows "obj_inv (catalog_new dev blocks providers)"
  using assms
  by (auto simp: obj_inv_def objects_ok_def leases_ok_def blocks_ok_def typed_ok_def clients_ok_def
      catalog_new_def block_ok_def)

end
