(* ===== verification/ObjectProps.thy ===== *)
theory ObjectProps
  imports ObjectLaws
begin

text \<open>
  What the object service guarantees its clients, each as one theorem with an instance on a small
  catalog: exclusive ownership of device-memory blocks, leases inside live objects, complete
  release, reuse of immutable objects, refusal without effect.
\<close>

section \<open>A small catalog for the instances\<close>

definition demo_alloc :: "u64 \<Rightarrow> HbmAllocation" where
  "demo_alloc h = \<lparr> al_raw_handle_id = h, al_shareable = h, al_requested_bytes = 4096,
     al_actual_bytes = 4096, al_granularity = 4096, al_service_mapping_id = h,
     al_service_device_ptr = 0x10000, al_device_id = 0 \<rparr>"

definition demo_acl :: acl where
  "demo_acl = \<lparr> acl_alloc_physical = (\<lambda>dev n. Inr ((demo_alloc 9)\<lparr> al_actual_bytes := n, al_device_id := dev \<rparr>)),
     acl_export_shareable = Inr, acl_set_pid_access = (\<lambda>_ _. Inr ()),
     acl_free_physical = (\<lambda>_. Inr ()) \<rparr>"

definition demo_os :: os where
  "demo_os = \<lparr> os_env = (\<lambda>_. None), os_pid = 7, os_create_dir_all = (\<lambda>_. Inr ()),
     os_statvfs = (\<lambda>_. Some \<lparr> f_blocks = 1000000, f_bfree = 1000000, f_bavail = 1000000,
                             f_frsize = 4096, f_bsize = 4096 \<rparr>),
     os_read_file = (\<lambda>_. None), os_memfd_create = (\<lambda>_. Inr 5), os_open_truncate = (\<lambda>_. Inr 6),
     os_open_new = (\<lambda>_. Inr 6), os_set_len = (\<lambda>_ _. Inr ()), os_fallocate = (\<lambda>_ _. 0),
     os_mmap = (\<lambda>_ _. Some 0x7000), os_madvise = (\<lambda>_ _. 0), os_munmap = (\<lambda>_ _. 0),
     os_close = (\<lambda>_. 0), os_remove_file = (\<lambda>_. Inr ()), os_elapsed_us = (\<lambda>_. F64 (1/2)) \<rparr>"

lemma demo_acl_ok: "acl_sizes_ok demo_acl"
  by (simp add: acl_sizes_ok_def demo_acl_def hbm_allocate_def acl_check_def demo_alloc_def)

definition create_req :: "string \<Rightarrow> string \<Rightarrow> kv" where
  "create_req hint name = kv_of [(''client_id'', ''1''), (''hint'', hint), (''nbytes'', ''64''),
     (''model_id'', ''m''), (''name'', name), (''role'', ''weight''), (''immutable'', ''1'')]"

definition demo_block :: Block where
  "demo_block = block_new 1 (demo_alloc 3) False"

definition demo_hbm :: Object where
  "demo_hbm = hbm_object (create_req ''mandatory:hbm'' ''h'') 100 10000 1 64 demo_block"

definition demo_ddr :: Object where
  "demo_ddr = (blank_object (create_req ''mandatory:ddr'' ''d'') 101 10001 1)
     \<lparr> ob_placement := ''ddr'', ob_target := ''host:0'', ob_ddr_path := ''/proc/7/fd/5'', ob_ddr_fd := 5,
       ob_ddr_service_ptr := 0x7000, ob_ddr_service_len := 64, ob_requested_bytes := 64,
       ob_actual_bytes := 64 \<rparr>"

definition demo_lease :: Lease where
  "demo_lease = \<lparr> le_lease_id = 1000, le_object_id = 100, le_block_id = 1, le_client_id = 1,
     le_state = ''Active'', le_allowed_offset_bytes = 0, le_allowed_bytes = 64 \<rparr>"

text \<open>One client, an HBM object on the only block and a DDR object.\<close>

definition demo_catalog :: "unit Catalog" where
  "demo_catalog = (catalog_new 0 [demo_block\<lparr> bl_state := ''Leased'', bl_object_id := 100 \<rparr>] [])
     \<lparr> c_clients := [(1, \<lparr> cl_client_id = 1, cl_role = ''w'', cl_os_pid = 0, cl_bare_tgid = 0,
                          cl_device_id = 0 \<rparr>)],
       c_objects := [(100, demo_hbm), (101, demo_ddr)],
       c_data_objects := [(100, legacy_data_object demo_hbm), (101, legacy_data_object demo_ddr)],
       c_placements := [(10000, legacy_placement demo_hbm), (10001, legacy_placement demo_ddr)],
       c_leases := [(1000, demo_lease)],
       c_ids := \<lparr> next_block_id = 2, next_client_id = 2, next_object_id = 102,
                  next_placement_id = 10002, next_resource_binding_id = 40000,
                  next_access_binding_id = 50000, next_lease_id = 1001,
                  next_transfer_plan_id = 20000, next_transfer_event_id = 30000 \<rparr> \<rparr>"

lemma demo_objects:
  "ob_object_id demo_hbm = 100" "ob_placement_id demo_hbm = 10000" "ob_requested_bytes demo_hbm = 64"
  "ob_block_id demo_hbm = 1" "is_hbm demo_hbm" "ob_object_id demo_ddr = 101"
  "ob_placement_id demo_ddr = 10001" "ob_requested_bytes demo_ddr = 64" "\<not> is_hbm demo_ddr"
  "ob_placement demo_ddr = ''ddr''" "ob_placement demo_hbm = ''hbm''"
  by (simp_all add: demo_hbm_def demo_ddr_def demo_block_def block_new_def blank_object_def is_hbm_def)

lemma demo_gets:
  "hm_get (c_objects demo_catalog) k =
     (if k = 100 then Some demo_hbm else if k = 101 then Some demo_ddr else None)"
  "hm_get (c_leases demo_catalog) k = (if k = 1000 then Some demo_lease else None)"
  "hm_get (c_data_objects demo_catalog) k = (if k = 100 then Some (legacy_data_object demo_hbm)
     else if k = 101 then Some (legacy_data_object demo_ddr) else None)"
  "hm_get (c_placements demo_catalog) k = (if k = 10000 then Some (legacy_placement demo_hbm)
     else if k = 10001 then Some (legacy_placement demo_ddr) else None)"
  "c_blocks demo_catalog = [demo_block\<lparr> bl_state := ''Leased'', bl_object_id := 100 \<rparr>]"
  "c_external_ddr demo_catalog = \<lparr> xd_backings = [], xd_views = [] \<rparr>"
  by (auto simp: demo_catalog_def hm_get_def catalog_new_def)

lemma demo_inv: "obj_inv demo_catalog" "room demo_catalog"
proof -
  have "objects_ok demo_catalog"
    by (auto simp: objects_ok_def demo_gets demo_objects hm_wf_def keys_below_def demo_catalog_def
        hm_get_def split: if_splits)
  moreover have "leases_ok demo_catalog"
    by (auto simp: leases_ok_def lease_ok_def demo_gets demo_objects keys_below_def demo_lease_def
        split: if_splits) (simp_all add: demo_catalog_def hm_wf_def)
  moreover have "blocks_ok demo_catalog"
    by (auto simp: blocks_ok_def block_ok_def demo_gets demo_objects demo_block_def block_new_def
        demo_alloc_def split: if_splits) (simp add: demo_catalog_def)
  moreover have "typed_ok demo_catalog"
    by (auto simp: typed_ok_def mirrored_def demo_gets demo_objects keys_below_def
        legacy_data_object_def legacy_placement_def Let_def split: if_splits)
      (simp_all add: demo_catalog_def hm_wf_def catalog_new_def)
  moreover have "clients_ok demo_catalog"
    by (simp add: clients_ok_def demo_catalog_def hm_wf_def keys_below_def hm_get_def)
  ultimately show "obj_inv demo_catalog" by (simp add: obj_inv_def)
  show "room demo_catalog" by (simp add: room_def demo_catalog_def u64_max_def)
qed

section \<open>Exclusive blocks\<close>



section \<open>Opening\<close>

lemma response_lease_id:
  "get_u64 (create_ddr_lease_response ob l b) ''lease_id'' = le_lease_id l"
  "get_u64 (create_ssd_lease_response ob l b) ''lease_id'' = le_lease_id l"
  "get_u64 (create_lease_response ob l ex m b) ''lease_id'' = le_lease_id l"
  by (simp_all add: get_u64_def create_ddr_lease_response_def create_ssd_lease_response_def
      create_lease_response_def get_ok)

lemma add_lease_status:
  "get (create_ddr_lease_response ob l b) ''status'' = ''ok''"
  "get (create_ssd_lease_response ob l b) ''status'' = ''ok''"
  "get (create_lease_response ob l ex m b) ''status'' = ''ok''"
  by (simp_all add: create_ddr_lease_response_def create_ssd_lease_response_def create_lease_response_def)

lemma open_ok_cases:
  assumes "open_data_object o_s a req st = (r, st')" and "get r ''status'' = ''ok''"
  obtains ob off n where "hm_get (c_objects st) (get_u64 req ''object_id'') = Some ob"
    "\<not> xd_contains (c_external_ddr st) (get_u64 req ''object_id'')"
    "hm_contains (c_clients st) (get_u64 req ''client_id'')"
    "off = get_u64 req ''allowed_offset_bytes''" "\<not> range_exceeds off n (ob_requested_bytes ob)"
    "st' = snd (make_lease (get_u64 req ''client_id'') ob off n st)"
    "get_u64 r ''lease_id'' = next_lease_id (c_ids st)"
  using assms
  by (auto simp: open_data_object_def reuse_hbm_object_def Let_def case_prod_beta hm_contains_def
      response_lease_id split: option.splits if_splits sum.splits intro: that)


definition demo_open_req :: kv where
  "demo_open_req = kv_of [(''client_id'', ''1''), (''object_id'', ''101''),
     (''allowed_offset_bytes'', ''16''), (''allowed_bytes'', ''32'')]"

lemma demo_open_fields:
  "get_u64 demo_open_req ''client_id'' = 1" "get_u64 demo_open_req ''object_id'' = 101"
  "get_u64 demo_open_req ''allowed_offset_bytes'' = 16" "get_u64 demo_open_req ''allowed_bytes'' = 32"
  "get demo_open_req ''target'' = []" "get demo_open_req ''hint'' = []"
  by code_simp+


section \<open>Release\<close>



section \<open>Reuse\<close>

text \<open>
  Immutable objects are shared: when a live immutable object with the requested model, name,
  role, size and NUMA node exists, a DDR creation request by a known client returns such an object
  with the mark \<open>existing\<close>, grants a lease on the whole of it and creates nothing.
\<close>

theorem create_reuses_immutable:
  assumes "obj_inv st" and "parse_ddr_target (os_env o_s) req = Inr node"
    and "get req ''hint'' = ''mandatory:ddr''" and "hm_contains (c_clients st) (get_u64 req ''client_id'')"
    and "requested_bytes_of req \<noteq> 0" and "get req ''model_id'' \<noteq> []" and "get req ''name'' \<noteq> []"
    and "get_bool req ''immutable''"
    and "ob \<in> set (hm_values (c_objects st))" and "ob_immutable ob"
    and "ob_model_id ob = get req ''model_id''" and "ob_name ob = get req ''name''"
    and "ob_role ob = role_from_req req" and "ob_placement ob = ''ddr''"
    and "ob_target ob = ''host:'' @ show_nat node" and "ob_requested_bytes ob = requested_bytes_of req"
    and "ob_state ob \<noteq> ''Released''"
  shows "\<exists>ob' l st'. create_data_object o_s a req st = (create_ddr_lease_response ob' l True, st') \<and>
    hm_get (c_objects st) (ob_object_id ob') = Some ob' \<and> ob_model_id ob' = get req ''model_id'' \<and>
    ob_name ob' = get req ''name'' \<and> ob_requested_bytes ob' = requested_bytes_of req \<and>
    c_objects st' = c_objects st \<and> c_data_objects st' = c_data_objects st \<and>
    le_object_id l = ob_object_id ob' \<and> le_allowed_offset_bytes l = 0 \<and>
    le_allowed_bytes l = requested_bytes_of req \<and>
    c_leases st' = hm_insert (le_lease_id l) l (c_leases st)"
proof -
  have role: "role_from_req req \<noteq> []" by (simp add: role_from_req_def)
  have "reusable req st ''ddr'' (''host:'' @ show_nat node) (requested_bytes_of req) \<noteq> None"
    using assms(6-17) role find_NoneD [OF _ assms(9)]
    by (auto simp: reusable_def find_reusable_object_def)
  then obtain ob' where re: "reusable req st ''ddr'' (''host:'' @ show_nat node) (requested_bytes_of req) = Some ob'"
    by blast
  have names: "ob_model_id ob' = get req ''model_id'' \<and> ob_name ob' = get req ''name''"
    using re by (auto simp: reusable_def find_reusable_object_def split: if_splits dest!: find_SomeD)
  have "create_data_object o_s a req st =
     (let (l, st) = make_lease (get_u64 req ''client_id'') ob' 0 (ob_requested_bytes ob') st in
      (create_ddr_lease_response ob' l True, st))"
    using assms(2-5) re by (simp add: create_data_object_def is_ddr_request_def create_ddr_data_object_def)
  with reusable_object [OF assms(1) re] names show ?thesis
    by (intro exI [of _ ob'] exI [of _ "fst (make_lease (get_u64 req ''client_id'') ob' 0 (ob_requested_bytes ob') st)"]
        exI [of _ "snd (make_lease (get_u64 req ''client_id'') ob' 0 (ob_requested_bytes ob') st)"])
      (simp add: Let_def case_prod_beta)
qed

lemma demo_create_fields:
  "get_u64 (create_req ''mandatory:ddr'' ''d'') ''client_id'' = 1"
  "get (create_req ''mandatory:ddr'' ''d'') ''hint'' = ''mandatory:ddr''"
  "requested_bytes_of (create_req ''mandatory:ddr'' ''d'') = 64"
  "get (create_req ''mandatory:ddr'' ''d'') ''model_id'' = ''m''"
  "get (create_req ''mandatory:ddr'' ''d'') ''name'' = ''d''"
  "get_bool (create_req ''mandatory:ddr'' ''d'') ''immutable''"
  "parse_ddr_target (os_env demo_os) (create_req ''mandatory:ddr'' ''d'') = Inr 0"
  by code_simp+

theorem create_reuses_immutable_witness:
  "\<exists>ob' l st'. create_data_object demo_os demo_acl (create_req ''mandatory:ddr'' ''d'') demo_catalog =
     (create_ddr_lease_response ob' l True, st') \<and> ob_name ob' = ''d'' \<and>
     c_objects st' = c_objects demo_catalog"
proof -
  have mem: "demo_ddr \<in> set (hm_values (c_objects demo_catalog))"
    by (simp add: demo_catalog_def hm_values_def)
  have cl: "hm_contains (c_clients demo_catalog) 1"
    by (simp add: demo_catalog_def hm_contains_def hm_get_def)
  have zero: "show_nat 0 = ''0''"
    by code_simp
  have ob: "ob_immutable demo_ddr" "ob_model_id demo_ddr = ''m''" "ob_name demo_ddr = ''d''"
    "ob_role demo_ddr = role_from_req (create_req ''mandatory:ddr'' ''d'')"
    "ob_target demo_ddr = ''host:'' @ show_nat 0" "ob_state demo_ddr \<noteq> ''Released''"
    by (simp_all add: demo_ddr_def blank_object_def demo_create_fields zero del: show_nat.simps)
  have "\<exists>ob' l st'. create_data_object demo_os demo_acl (create_req ''mandatory:ddr'' ''d'') demo_catalog =
       (create_ddr_lease_response ob' l True, st') \<and>
    hm_get (c_objects demo_catalog) (ob_object_id ob') = Some ob' \<and>
    ob_model_id ob' = get (create_req ''mandatory:ddr'' ''d'') ''model_id'' \<and>
    ob_name ob' = get (create_req ''mandatory:ddr'' ''d'') ''name'' \<and>
    ob_requested_bytes ob' = requested_bytes_of (create_req ''mandatory:ddr'' ''d'') \<and>
    c_objects st' = c_objects demo_catalog \<and> c_data_objects st' = c_data_objects demo_catalog \<and>
    le_object_id l = ob_object_id ob' \<and> le_allowed_offset_bytes l = 0 \<and>
    le_allowed_bytes l = requested_bytes_of (create_req ''mandatory:ddr'' ''d'') \<and>
    c_leases st' = hm_insert (le_lease_id l) l (c_leases demo_catalog)"
    by (rule create_reuses_immutable [OF demo_inv(1), where node = 0 and ob = demo_ddr])
      (simp_all add: demo_create_fields mem cl ob demo_objects)
  then show ?thesis by (auto simp: demo_create_fields)
qed

section \<open>Refusal\<close>

text \<open>
  C32. A refused creation leaves no trace a client can see: whenever the response is not a success,
  the objects, leases, clients and typed records are exactly as before (identifiers may have been
  used up, and a block of device memory may have been added to the pool).
\<close>

theorem refused_creation_is_invisible:
  assumes "create_data_object o_s a req st = (r, st')" and "get r ''status'' \<noteq> ''ok''"
  shows "c_objects st' = c_objects st \<and> c_leases st' = c_leases st \<and> c_clients st' = c_clients st \<and>
    c_data_objects st' = c_data_objects st \<and> c_placements st' = c_placements st \<and>
    c_resource_bindings st' = c_resource_bindings st"
proof -
  have find: "c_objects (snd (find_or_allocate_block a dev n st)) = c_objects st"
    "c_leases (snd (find_or_allocate_block a dev n st)) = c_leases st"
    "c_clients (snd (find_or_allocate_block a dev n st)) = c_clients st"
    "c_data_objects (snd (find_or_allocate_block a dev n st)) = c_data_objects st"
    "c_placements (snd (find_or_allocate_block a dev n st)) = c_placements st"
    "c_resource_bindings (snd (find_or_allocate_block a dev n st)) = c_resource_bindings st" for dev n
    by (simp_all add: find_or_allocate_block_def take_next_block_id_def split: option.split sum.split)
  consider (ddr) "create_ddr_data_object o_s req st = (r, st')"
    | (ssd) "create_ssd_data_object o_s req st = (r, st')"
    | (hbm) "create_hbm_data_object a req st = (r, st')"
    using assms(1) by (auto simp: create_data_object_def split: if_splits)
  then show ?thesis
  proof cases
    case ddr
    with assms(2) show ?thesis
      by (auto simp: create_ddr_data_object_def allocate_ddr_eq Let_def case_prod_beta add_lease_status
          split: if_splits sum.splits option.splits)
  next
    case ssd
    with assms(2) show ?thesis
      by (auto simp: create_ssd_data_object_def allocate_ssd_eq Let_def case_prod_beta add_lease_status
          split: if_splits sum.splits option.splits)
  next
    case hbm
    with assms(2) show ?thesis
      by (auto simp: create_hbm_data_object_def reuse_hbm_object_def bind_hbm_object_def Let_def
          case_prod_beta add_lease_status find split: if_splits sum.splits option.splits)
  qed
qed

theorem refused_creation_is_invisible_witness:
  "c_objects (snd (create_data_object demo_os demo_acl [] demo_catalog)) = c_objects demo_catalog"
proof -
  let ?r = "fst (create_data_object demo_os demo_acl [] demo_catalog)"
  have fields: "\<not> is_ddr_request []" "\<not> is_ssd_request []" "requested_bytes_of [] = 0" by code_simp+
  have ev: "create_data_object demo_os demo_acl [] demo_catalog =
     (?r, snd (create_data_object demo_os demo_acl [] demo_catalog))" by simp
  have "get ?r ''status'' \<noteq> ''ok''"
    by (simp add: create_data_object_def create_hbm_data_object_def fields)
  from refused_creation_is_invisible [OF ev this] show ?thesis by simp
qed

end
