(* ===== verification/Planner.thy ===== *)
theory Planner
  imports Host
begin

text \<open>
  The transfer planner: \<^verbatim>\<open>transfer_planner.rs\<close>, the choice of a direct SSD path in
  \<^verbatim>\<open>ssd_direct.rs\<close> and the rendering of a plan in \<^verbatim>\<open>common.rs\<close>.

  A plan is chosen from the media of the two objects, the requested mode and the process
  environment; the planner never touches data. Cost figures are exact rationals where the code
  computes in \<^verbatim>\<open>f64\<close>; they are reported and never tested.
\<close>

section \<open>Direct candidates\<close>

definition ends_with :: "string \<Rightarrow> string \<Rightarrow> bool" where
  "ends_with p s \<longleftrightarrow> suffix p s"

definition strip_suffix :: "string \<Rightarrow> string \<Rightarrow> string option" where
  "strip_suffix p s = (if suffix p s then Some (take (length s - length p) s) else None)"

definition to_ascii_lowercase :: "string \<Rightarrow> string" where
  "to_ascii_lowercase s =
     map (\<lambda>c. if of_char c \<ge> (65 :: nat) \<and> of_char c \<le> (90 :: nat) then char_of (of_char c + 32 :: nat) else c) s"

definition MIB :: u64 where "MIB = 1024 * 1024"

definition DEFAULT_CANDIDATE :: string where "DEFAULT_CANDIDATE = ''file_mmap_acl_direct''"

definition IMPLEMENTED_CANDIDATES :: "string list" where
  "IMPLEMENTED_CANDIDATES =
     [''file_mmap_acl_direct'',
      ''file_mmap_thp_pretouch_acl_direct'',
      ''file_mmap_populate_acl_direct'',
      ''file_mmap_fadvise_acl_direct'',
      ''file_mmap_madvise_populate_acl_direct'',
      ''file_mmap_readahead_acl_direct'',
      ''file_mmap_readahead_populate_acl_direct'',
      ''file_mmap_readahead_madvise_populate_acl_direct'',
      ''file_mmap_readahead_madvise_willneed_acl_direct'',
      ''file_mmap_fadvise_readahead_acl_direct'',
      ''file_mmap_readahead_pretouch_acl_direct'',
      ''file_mmap_fadvise_readahead_pretouch_acl_direct'',
      ''file_mmap_fadvise_populate_acl_direct'',
      ''file_mmap_fadvise_thp_pretouch_acl_direct'',
      ''file_mmap_madvise_willneed_acl_direct'',
      ''file_mmap_mlock_acl_direct'',
      ''file_mmap_hostregister_v1'',
      ''file_mmap_hostregister_v2'',
      ''file_mmap_thp_pretouch_hostregister_v1'',
      ''file_mmap_thp_pretouch_hostregister_v2'',
      ''file_mmap_fadvise_hostregister_v2'',
      ''file_mmap_fadvise_populate_hostregister_v2'',
      ''file_mmap_fadvise_thp_pretouch_hostregister_v2'']"

definition PLANNED_CANDIDATES :: "string list" where
  "PLANNED_CANDIDATES =
     [''odirect_aligned_staging_acl'', ''io_uring_pipeline'', ''nvme_p2p_driver_ioctl_probe'',
      ''aicpu_device_fs_probe'', ''ssu_lba_descriptor_mock'']"

definition is_implemented_candidate :: "string \<Rightarrow> bool" where
  "is_implemented_candidate name \<longleftrightarrow> List.member IMPLEMENTED_CANDIDATES name"

definition direct_enabled :: "environment \<Rightarrow> bool" where
  "direct_enabled env = env_bool env ''UF_SSD_DIRECT_ENABLE'' True"

definition direct_auto_enabled :: "environment \<Rightarrow> bool" where
  "direct_auto_enabled env = env_bool env ''UF_SSD_DIRECT_AUTO'' True"

definition configured_candidate_name :: "environment \<Rightarrow> string" where
  "configured_candidate_name env = env_default env ''UF_SSD_HBM_DIRECT_CANDIDATE'' DEFAULT_CANDIDATE"

definition configured_candidate :: "environment \<Rightarrow> string result" where
  "configured_candidate env =
     (if \<not> direct_enabled env then Inl ''ssd_hbm_direct_disabled_set_UF_SSD_DIRECT_ENABLE=1''
      else let name = configured_candidate_name env in
        if \<not> is_implemented_candidate name
        then Inl (''ssd_hbm_direct_candidate_not_implemented:'' @ name)
        else Inr name)"

text \<open>The suffixes are tried in order; the product wraps as release arithmetic does.\<close>

fun parse_scaled :: "(string \<times> u64) list \<Rightarrow> string \<Rightarrow> u64 option" where
  "parse_scaled [] s = parse_u64 s"
| "parse_scaled ((sfx, scale) # rest) s =
     (case strip_suffix sfx s of
        Some number \<Rightarrow> map_option (\<lambda>n. n * scale) (parse_u64 (trim number))
      | None \<Rightarrow> parse_scaled rest s)"

definition parse_size_bytes :: "string \<Rightarrow> u64 option" where
  "parse_size_bytes v =
     (let text = trim v in
      if text = [] then None
      else parse_scaled
        [(''gib'', 1024 * MIB), (''gb'', 1024 * MIB), (''mib'', MIB), (''mb'', MIB),
         (''kib'', 1024), (''kb'', 1024)] (to_ascii_lowercase text))"

definition direct_min_bytes :: "environment \<Rightarrow> u64" where
  "direct_min_bytes env =
     (case Option.bind (env ''UF_SSD_HBM_DIRECT_MIN_BYTES'') parse_size_bytes of
        Some n \<Rightarrow> n | None \<Rightarrow> 256 * MIB)"

definition auto_candidate :: "environment \<Rightarrow> bool \<Rightarrow> u64 \<Rightarrow> string option result" where
  "auto_candidate env ssd_to_hbm n =
     (if \<not> direct_enabled env \<or> \<not> direct_auto_enabled env then Inr None
      else if env ''UF_SSD_HBM_DIRECT_CANDIDATE'' \<noteq> None
        then map_sum id Some (configured_candidate env)
      else if n < direct_min_bytes env then Inr None
      else Inr (Some ''file_mmap_acl_direct''))"

definition candidate_explanation :: "string \<Rightarrow> string" where
  "candidate_explanation name =
     (if is_implemented_candidate name
      then ''logical direct candidate '' @ name @
        '' maps SSD file extent and copies directly between mmap VA and service-owned HBM VA''
      else if List.member PLANNED_CANDIDATES name
      then ''candidate '' @ name @
        '' is planned/probed only in PhaseB-04 and has no daemon data path yet''
      else ''unknown SSD-HBM direct candidate '' @ name)"

section \<open>Classification\<close>

record TransferClassification =
  k_path :: string
  k_engine :: string
  k_completion_kind :: string
  k_effort :: f64
  k_latency_us :: f64
  k_bandwidth_gib_s :: f64
  k_setup_cost_us :: f64
  k_hop_count :: u32
  k_fallback_used :: bool
  k_fallback_reason :: string
  k_explanation :: string

text \<open>The two recurring shapes: a transfer some worker executes, and a refusal.\<close>

definition moved ::
  "string \<Rightarrow> string \<Rightarrow> rat \<Rightarrow> rat \<Rightarrow> rat \<Rightarrow> rat \<Rightarrow> u32 \<Rightarrow> string \<Rightarrow> TransferClassification" where
  "moved path engine effort latency bandwidth setup hops explanation =
     \<lparr> k_path = path, k_engine = engine, k_completion_kind = ''thread_event'',
       k_effort = F64 effort, k_latency_us = F64 latency, k_bandwidth_gib_s = F64 bandwidth,
       k_setup_cost_us = F64 setup, k_hop_count = hops, k_fallback_used = False,
       k_fallback_reason = [], k_explanation = explanation \<rparr>"

definition unsupported :: "string \<Rightarrow> string \<Rightarrow> string \<Rightarrow> TransferClassification" where
  "unsupported engine reason explanation =
     \<lparr> k_path = ''unsupported'', k_engine = engine, k_completion_kind = ''immediate'',
       k_effort = F64_inf, k_latency_us = f0, k_bandwidth_gib_s = f0, k_setup_cost_us = f0,
       k_hop_count = 0, k_fallback_used = False, k_fallback_reason = reason,
       k_explanation = explanation \<rparr>"

definition direct_ref :: TransferClassification where
  "direct_ref =
     \<lparr> k_path = ''direct_ref'', k_engine = ''descriptor'', k_completion_kind = ''immediate'',
       k_effort = f0, k_latency_us = F64 1, k_bandwidth_gib_s = f0, k_setup_cost_us = F64 1,
       k_hop_count = 0, k_fallback_used = False, k_fallback_reason = [],
       k_explanation = ''same placement/object no data movement required'' \<rparr>"

definition hbm_ddr_choice :: "string \<Rightarrow> string \<times> string \<times> rat \<times> rat \<times> rat" where
  "hbm_ddr_choice mode =
     (if mode = ''auto'' \<or> str_contains ''direct'' mode
      then (''acl_direct_async_thp'',
        ''HBM to host DDR uses daemon service-owned HBM VA and THP/pre-touch mmap DDR direct ACL D2H'',
        1, 40, 10)
      else if str_contains ''pinned'' mode \<and> str_contains ''async'' mode
      then (''acl_pinned_async_channel'',
        ''HBM to host DDR uses daemon pinned staging channel fallback'', 15/10, 16, 30)
      else if str_contains ''pinned'' mode
      then (''acl_pinned_sync_channel'',
        ''HBM to host DDR uses daemon pinned staging channel fallback'', 18/10, 12, 30)
      else (''acl_sync'', ''HBM to host DDR uses synchronous ACL D2H'', 2, 20, 10))"

definition ddr_hbm_choice :: "string \<Rightarrow> string \<times> string \<times> rat \<times> rat \<times> rat" where
  "ddr_hbm_choice mode =
     (if mode = ''auto'' \<or> str_contains ''direct'' mode
      then (''acl_direct_async_thp'',
        ''Host DDR to HBM uses THP/pre-touch mmap DDR direct ACL H2D'', 8/10, 54, 10)
      else if str_contains ''pinned'' mode \<and> str_contains ''async'' mode
      then (''acl_pinned_async_channel'',
        ''Host DDR to HBM uses daemon pinned staging channel fallback'', 1, 24, 30)
      else if str_contains ''pinned'' mode
      then (''acl_pinned_sync_channel'',
        ''Host DDR to HBM uses daemon pinned staging channel fallback'', 13/10, 16, 30)
      else (''acl_sync'', ''Host DDR to HBM uses synchronous ACL H2D'', 15/10, 24, 10))"

definition classify_ssd_hbm_transfer ::
  "environment \<Rightarrow> string \<Rightarrow> bool \<Rightarrow> u64 \<Rightarrow> rat \<Rightarrow> TransferClassification" where
  "classify_ssd_hbm_transfer env mode ssd_to_hbm n mib =
     (let path = (if ssd_to_hbm then ''ssd_to_hbm_direct'' else ''hbm_to_ssd_direct'');
          relay = moved (if ssd_to_hbm then ''ssd_to_hbm_via_ddr'' else ''hbm_to_ssd_via_ddr'')
            ''ssd_hbm_relay_ddr'' (if ssd_to_hbm then 22/10 else 24/10)
            (if ssd_to_hbm then 120 + mib * 96 else 140 + mib * 112)
            (if ssd_to_hbm then 10 else 9) 40 2
            (if ssd_to_hbm then ''SSD to HBM uses daemon-internal DDR staging relay''
             else ''HBM to SSD uses daemon-internal DDR staging relay'') in
      if mode = ''ssd_hbm_direct'' then
        (case configured_candidate env of
           Inr candidate \<Rightarrow>
             moved path (''ssd_hbm_'' @ candidate) (18/10) (90 + mib * 80) 12 60 1
               (candidate_explanation candidate)
         | Inl reason \<Rightarrow> unsupported ''ssd_hbm_direct_unavailable'' reason reason)
      else if mode \<noteq> ''auto'' \<and> mode \<noteq> ''relay'' then
        unsupported ''ssd_hbm_unsupported_mode'' (''unsupported_ssd_hbm_mode:'' @ mode)
          (''unsupported SSD-HBM transfer mode '' @ mode)
      else if mode = ''auto'' \<and> direct_auto_enabled env then
        (case auto_candidate env ssd_to_hbm n of
           Inr (Some candidate) \<Rightarrow>
             moved path (''ssd_hbm_auto_'' @ candidate) (18/10) (90 + mib * 80) 12 60 1
               (''SSD-HBM auto selected direct candidate '' @ candidate @
                ''; relay is runtime fallback on direct failure'')
         | _ \<Rightarrow> relay)
      else relay)"

definition classify_hbm_hbm :: "string \<Rightarrow> bool \<Rightarrow> rat \<Rightarrow> TransferClassification" where
  "classify_hbm_hbm mode same mib =
     moved ''hbm_to_hbm''
       (if str_contains ''async'' mode then ''acl_d2d_async''
        else if same then ''acl_d2d'' else ''acl_d2d_peer'')
       (if same then 8/10 else 4) (if same then 40 + mib * 6 else 180 + mib * 36)
       (if same then 40 else 24) (if same then 15 else 40) 1
       (if same
        then ''Same-device HBM to HBM uses daemon service-owned VA and ACL device-to-device copy''
        else ''Cross-device HBM to HBM uses one daemon process, peer access, and ACL device-to-device copy'')"

definition classify_ddr_ddr :: "bool \<Rightarrow> rat \<Rightarrow> TransferClassification" where
  "classify_ddr_ddr same mib =
     moved ''ddr_to_ddr'' ''cpu_memcpy'' (if same then 5/10 else 12/10)
       (if same then 20 + mib * 4 else 50 + mib * 8) (if same then 30 else 16) 10
       (if same then 0 else 1)
       (if same then ''Same host DDR domain uses mmap-backed CPU memcpy''
        else ''Different host DDR domains use CPU memcpy with higher modeled cost'')"

definition ssd_engine :: "string \<Rightarrow> string \<Rightarrow> string" where
  "ssd_engine mode engine =
     (if mode = ''auto'' \<or> mode = ''buffered'' then engine else ''ssd_unsupported_mode'')"

definition classify_transfer ::
  "environment \<Rightarrow> Object \<Rightarrow> Object \<Rightarrow> u64 \<Rightarrow> string \<Rightarrow> TransferClassification" where
  "classify_transfer env src dst n mode0 =
     (let mode = (if mode0 = [] then ''auto'' else mode0);
          mib = of_nat (unat n) / (1024 * 1024) :: rat;
          a = ob_placement src; b = ob_placement dst; same = (ob_target src = ob_target dst) in
      if ob_placement_id src = ob_placement_id dst \<or> ob_object_id src = ob_object_id dst
      then direct_ref
      else if a = ''hbm'' \<and> b = ''ddr'' then
        (let (engine, explanation, effort, bandwidth, setup) = hbm_ddr_choice mode in
         moved ''hbm_to_ddr'' engine effort (40 + mib * (1024 / bandwidth)) bandwidth setup 1
           explanation)
      else if a = ''ddr'' \<and> b = ''hbm'' then
        (let (engine, explanation, effort, bandwidth, setup) = ddr_hbm_choice mode in
         moved ''ddr_to_hbm'' engine effort (35 + mib * (1024 / bandwidth)) bandwidth setup 1
           explanation)
      else if a = ''hbm'' \<and> b = ''hbm'' then classify_hbm_hbm mode same mib
      else if a = ''ddr'' \<and> b = ''ddr'' then classify_ddr_ddr same mib
      else if a = ''ssd'' \<and> b = ''ddr'' then
        moved ''ssd_to_ddr'' (ssd_engine mode ''ssd_buffered_pread'') (14/10) (80 + mib * 64) 16 20 1
          ''SSD to DDR uses daemon-side buffered pread into DDR mmap''
      else if a = ''ddr'' \<and> b = ''ssd'' then
        moved ''ddr_to_ssd'' (ssd_engine mode ''ssd_buffered_pwrite'') (15/10) (90 + mib * 72) 14 20 1
          ''DDR to SSD uses daemon-side buffered pwrite from DDR mmap''
      else if a = ''ssd'' \<and> b = ''hbm'' then classify_ssd_hbm_transfer env mode True n mib
      else if a = ''hbm'' \<and> b = ''ssd'' then classify_ssd_hbm_transfer env mode False n mib
      else unsupported ''none'' ''unsupported_medium_pair''
        ''Unsupported PhaseE-01 local transfer medium pair'')"

section \<open>Requests\<close>

text \<open>
  The part estimation and planning share: find the two objects, refuse external memory, read the
  window and check it against both objects.
\<close>

record transfer_window =
  w_src :: Object
  w_dst :: Object
  w_src_offset :: u64
  w_dst_offset :: u64
  w_nbytes :: u64

definition read_window :: "kv \<Rightarrow> 'p Catalog \<Rightarrow> transfer_window result" where
  "read_window req st =
     (case object_by_request req st ''src_object_id'' ''src_placement_id'' of
        None \<Rightarrow> Inl ''source object not found''
      | Some src \<Rightarrow>
     (case object_by_request req st ''dst_object_id'' ''dst_placement_id'' of
        None \<Rightarrow> Inl ''destination object not found''
      | Some dst \<Rightarrow>
          if xd_contains (c_external_ddr st) (ob_object_id src) \<or>
             xd_contains (c_external_ddr st) (ob_object_id dst)
          then Inl ''external DDR transfer is not supported by the T1 broker''
          else
            let n0 = get_u64 req ''nbytes'';
                n = (if n0 = 0 then min (ob_requested_bytes src) (ob_requested_bytes dst) else n0);
                src_offset = get_u64 req ''src_offset_bytes'';
                dst_offset = get_u64 req ''dst_offset_bytes'' in
            if range_exceeds src_offset n (ob_requested_bytes src) \<or>
               range_exceeds dst_offset n (ob_requested_bytes dst)
            then Inl ''transfer size exceeds source or destination object''
            else Inr \<lparr> w_src = src, w_dst = dst, w_src_offset = src_offset,
                       w_dst_offset = dst_offset, w_nbytes = n \<rparr>))"

definition or_default :: "string \<Rightarrow> string \<Rightarrow> string" where
  "or_default s d = (if s = [] then d else s)"

text \<open>The two refusals after classification; the second message names the mode of the request.\<close>

definition check_class :: "TransferClassification \<Rightarrow> string \<Rightarrow> unit result" where
  "check_class class mode =
     (if k_path class = ''unsupported'' then Inl (k_explanation class)
      else if k_engine class = ''ssd_unsupported_mode''
      then Inl (''unsupported SSD transfer mode '' @ mode)
      else Inr ())"

definition cost_fields :: "transfer_window \<Rightarrow> TransferClassification \<Rightarrow> (string \<times> string) list" where
  "cost_fields w class =
     [(''src_object_id'', show_u64 (ob_object_id (w_src w))),
      (''src_placement_id'', show_u64 (ob_placement_id (w_src w))),
      (''dst_object_id'', show_u64 (ob_object_id (w_dst w))),
      (''dst_placement_id'', show_u64 (ob_placement_id (w_dst w))),
      (''src_offset_bytes'', show_u64 (w_src_offset w)),
      (''dst_offset_bytes'', show_u64 (w_dst_offset w)),
      (''path'', k_path class), (''engine'', k_engine class),
      (''completion_kind'', k_completion_kind class), (''nbytes'', show_u64 (w_nbytes w)),
      (''effort'', fmt3 (k_effort class)),
      (''estimated_latency_us'', fmt3 (k_latency_us class)),
      (''estimated_bandwidth_gib_s'', fmt3 (k_bandwidth_gib_s class)),
      (''setup_cost_us'', fmt3 (k_setup_cost_us class)),
      (''hop_count'', show_nat (unat (k_hop_count class))),
      (''fallback_used'', show_bool (k_fallback_used class)),
      (''fallback_reason'', k_fallback_reason class), (''explanation'', k_explanation class)]"

definition estimate_cost :: "environment \<Rightarrow> kv \<Rightarrow> 'p Catalog \<Rightarrow> kv" where
  "estimate_cost env req st =
     (case read_window req st of
        Inl e \<Rightarrow> err e
      | Inr w \<Rightarrow>
          let mode = get req ''mode'';
              class = classify_transfer env (w_src w) (w_dst w) (w_nbytes w) (or_default mode ''auto'') in
          case check_class class mode of
            Inl e \<Rightarrow> err e
          | Inr _ \<Rightarrow> ok (cost_fields w class))"

text \<open>
  The response of a plan. What an external plan adds is the argument \<open>external\<close>
  (\<^verbatim>\<open>external.payload()\<close>); plans made here have no external part.
\<close>

definition transfer_plan_payload ::
  "(string \<times> string) list \<Rightarrow> TransferPlanRecord \<Rightarrow> (string \<times> string) list" where
  "transfer_plan_payload external p =
     [(''plan_id'', show_u64 (tp_plan_id p)), (''request_id'', show_u64 (tp_request_id p)),
      (''client_id'', show_u64 (tp_client_id p)),
      (''src_object_id'', show_u64 (tp_src_object_id p)),
      (''src_placement_id'', show_u64 (tp_src_placement_id p)),
      (''src_medium'', tp_src_medium p), (''dst_object_id'', show_u64 (tp_dst_object_id p)),
      (''dst_placement_id'', show_u64 (tp_dst_placement_id p)),
      (''dst_medium'', tp_dst_medium p), (''operation'', tp_operation p),
      (''requested_mode'', tp_requested_mode p), (''path'', tp_path p), (''engine'', tp_engine p),
      (''completion_kind'', tp_completion_kind p), (''wait_policy'', tp_wait_policy p),
      (''src_offset_bytes'', show_u64 (tp_src_offset_bytes p)),
      (''dst_offset_bytes'', show_u64 (tp_dst_offset_bytes p)),
      (''nbytes'', show_u64 (tp_nbytes p)), (''effort'', fmt3 (tp_effort p)),
      (''estimated_latency_us'', fmt3 (tp_estimated_latency_us p)),
      (''estimated_bandwidth_gib_s'', fmt3 (tp_estimated_bandwidth_gib_s p)),
      (''setup_cost_us'', fmt3 (tp_setup_cost_us p)),
      (''hop_count'', show_nat (unat (tp_hop_count p))),
      (''fallback_used'', show_bool (tp_fallback_used p)),
      (''fallback_reason'', tp_fallback_reason p), (''explanation'', tp_explanation p)] @
     (if tp_external p then external else [])"

definition plan_record ::
  "kv \<Rightarrow> u64 \<Rightarrow> u64 \<Rightarrow> transfer_window \<Rightarrow> TransferClassification \<Rightarrow> TransferPlanRecord" where
  "plan_record req plan_id request_id w class =
     \<lparr> tp_external = False, tp_plan_id = plan_id, tp_request_id = request_id,
       tp_client_id = get_u64 req ''client_id'', tp_src_object_id = ob_object_id (w_src w),
       tp_src_placement_id = ob_placement_id (w_src w), tp_src_medium = ob_placement (w_src w),
       tp_dst_object_id = ob_object_id (w_dst w),
       tp_dst_placement_id = ob_placement_id (w_dst w), tp_dst_medium = ob_placement (w_dst w),
       tp_operation = or_default (get req ''operation'') ''copy'',
       tp_requested_mode = or_default (get req ''mode'') ''auto'', tp_path = k_path class,
       tp_engine = k_engine class, tp_completion_kind = k_completion_kind class,
       tp_wait_policy = or_default (get req ''wait_policy'') ''return_immediately'',
       tp_src_offset_bytes = w_src_offset w, tp_dst_offset_bytes = w_dst_offset w,
       tp_nbytes = w_nbytes w, tp_effort = k_effort class,
       tp_estimated_latency_us = k_latency_us class,
       tp_estimated_bandwidth_gib_s = k_bandwidth_gib_s class,
       tp_setup_cost_us = k_setup_cost_us class, tp_hop_count = k_hop_count class,
       tp_fallback_used = k_fallback_used class, tp_fallback_reason = k_fallback_reason class,
       tp_explanation = k_explanation class \<rparr>"

definition take_request_id :: "kv \<Rightarrow> 'p Catalog \<Rightarrow> u64 \<times> 'p Catalog" where
  "take_request_id req st =
     (let rid = get_u64 req ''request_id'' in
      if rid = 0 then take_next_transfer_plan_id st else (rid, st))"

definition plan_transfer :: "environment \<Rightarrow> kv \<Rightarrow> 'p Catalog \<Rightarrow> kv \<times> 'p Catalog" where
  "plan_transfer env req st =
     (let client_id = get_u64 req ''client_id'' in
      if client_id \<noteq> 0 \<and> \<not> hm_contains (c_clients st) client_id
      then (err ''client not found'', st)
      else case read_window req st of
        Inl e \<Rightarrow> (err e, st)
      | Inr w \<Rightarrow>
          let (request_id, st) = take_request_id req st;
              (plan_id, st) = take_next_transfer_plan_id st;
              mode = or_default (get req ''mode'') ''auto'';
              class = classify_transfer env (w_src w) (w_dst w) (w_nbytes w) mode in
          case check_class class mode of
            Inl e \<Rightarrow> (err e, st)
          | Inr _ \<Rightarrow>
              let plan = plan_record req plan_id request_id w class in
              (ok (transfer_plan_payload [] plan),
               st\<lparr> c_transfer_plans := hm_insert plan_id plan (c_transfer_plans st) \<rparr>))"

section \<open>Laws\<close>

lemma candidate_of_auto:
  "auto_candidate env b n = Inr (Some c) \<Longrightarrow> is_implemented_candidate c"
  by (auto simp: auto_candidate_def configured_candidate_def Let_def is_implemented_candidate_def
      IMPLEMENTED_CANDIDATES_def split: if_splits)

text \<open>The empty mode is the automatic mode, which no SSD engine refuses.\<close>

lemma check_class_mode:
  "check_class (classify_transfer env src dst n (or_default mode ''auto'')) mode =
   check_class (classify_transfer env src dst n (or_default mode ''auto'')) (or_default mode ''auto'')"
  by (cases "mode = []")
    (auto simp: or_default_def check_class_def classify_transfer_def Let_def direct_ref_def
      moved_def unsupported_def classify_hbm_hbm_def classify_ddr_ddr_def ssd_engine_def
      hbm_ddr_choice_def ddr_hbm_choice_def classify_ssd_hbm_transfer_def
      split: sum.split option.split)

text \<open>What a window that was accepted tells about the catalog.\<close>

lemma read_windowD:
  assumes "read_window req st = Inr w"
  shows "object_by_request req st ''src_object_id'' ''src_placement_id'' = Some (w_src w)"
    and "object_by_request req st ''dst_object_id'' ''dst_placement_id'' = Some (w_dst w)"
    and "\<not> xd_contains (c_external_ddr st) (ob_object_id (w_src w))"
    and "\<not> xd_contains (c_external_ddr st) (ob_object_id (w_dst w))"
    and "\<not> range_exceeds (w_src_offset w) (w_nbytes w) (ob_requested_bytes (w_src w))"
    and "\<not> range_exceeds (w_dst_offset w) (w_nbytes w) (ob_requested_bytes (w_dst w))"
  using assms by (auto simp: read_window_def Let_def split: option.splits if_splits)

lemma object_by_request_mem:
  "object_by_request req st k1 k2 = Some ob \<Longrightarrow> ob \<in> set (hm_values (c_objects st))"
  by (auto simp: object_by_request_def find_object_by_placement_id_def Let_def
      dest: find_SomeD hm_get_in_values split: if_splits)

text \<open>The plan of a classified window says exactly what the estimate says.\<close>

lemma cost_fields_in_plan:
  "list_all (\<lambda>(k, v). k \<noteq> ''status'' \<and>
       map_of (rev (transfer_plan_payload [] (plan_record req pid rid w class))) k = Some v)
     (cost_fields w class)"
  by (simp add: cost_fields_def transfer_plan_payload_def plan_record_def)

end
