(* ===== verification/PlannerProps.thy ===== *)
theory PlannerProps
  imports Planner ObjectProps
begin

text \<open>
  What planning guarantees: a plan stays inside the two objects it names and touches nothing but
  the table of plans, its response extends the estimate for the same request, and the automatic
  mode serves every pair of media but SSD to SSD.
\<close>

section \<open>Plans and their table\<close>

text \<open>Every plan is filed under its own identifier, below the counter.\<close>

definition plans_ok :: "'p Catalog \<Rightarrow> bool" where
  "plans_ok st \<longleftrightarrow>
     keys_below (next_transfer_plan_id (c_ids st)) (c_transfer_plans st) \<and>
     (\<forall>k p. hm_get (c_transfer_plans st) k = Some p \<longrightarrow> tp_plan_id p = k)"

definition plan_room :: "'p Catalog \<Rightarrow> bool" where
  "plan_room st \<longleftrightarrow> next_transfer_plan_id (c_ids st) < u64_max - 1"

lemma plan_room_nat: "plan_room st \<Longrightarrow> unat (next_transfer_plan_id (c_ids st)) + 2 < 2 ^ 64"
  by (simp add: plan_room_def word_less_nat_alt u64_max_def)

lemma take_plan_id_fields [simp]:
  "fst (take_next_transfer_plan_id st) = next_transfer_plan_id (c_ids st)"
  "c_transfer_plans (snd (take_next_transfer_plan_id st)) = c_transfer_plans st"
  "next_transfer_plan_id (c_ids (snd (take_next_transfer_plan_id st))) =
     next_transfer_plan_id (c_ids st) + 1"
  by (simp_all add: take_next_transfer_plan_id_def)

lemma take_plan_id_frame:
  "\<exists>ids. snd (take_next_transfer_plan_id st) = st\<lparr> c_ids := ids \<rparr>"
  by (auto simp: take_next_transfer_plan_id_def)

lemma plans_ok_take:
  assumes "plans_ok st" and "next_transfer_plan_id (c_ids st) \<noteq> u64_max"
  shows "plans_ok (snd (take_next_transfer_plan_id st))"
  using assms plan_ids.take_keeps_below [of st "c_transfer_plans st"]
  by (simp add: plans_ok_def)

lemma plan_room_inc:
  assumes "plan_room st"
  shows "next_transfer_plan_id (c_ids st) \<noteq> u64_max"
    and "next_transfer_plan_id (c_ids st) + 1 \<noteq> u64_max"
proof -
  have nat: "unat (next_transfer_plan_id (c_ids st)) + 2 < 2 ^ 64" by (rule plan_room_nat [OF assms])
  then show max: "next_transfer_plan_id (c_ids st) \<noteq> u64_max" by (auto simp: unat_u64_max)
  have "unat (next_transfer_plan_id (c_ids st) + 1) = unat (next_transfer_plan_id (c_ids st)) + 1"
    using unat_inc_u64 [OF max] by simp
  with nat show "next_transfer_plan_id (c_ids st) + 1 \<noteq> u64_max"
    using arg_cong [of "next_transfer_plan_id (c_ids st) + 1" u64_max unat]
    by (auto simp: unat_u64_max simp del: word_not_simps)
qed

text \<open>The identifiers of one planning request leave the table alone and keep its invariant.\<close>

lemma take_request_id_fields:
  fixes st :: "'p Catalog" and req :: kv
  defines "st1 \<equiv> snd (take_request_id req st)"
  assumes "plans_ok st" and "plan_room st"
  shows "plans_ok st1" and "next_transfer_plan_id (c_ids st1) \<noteq> u64_max"
    and "c_transfer_plans st1 = c_transfer_plans st" and "\<exists>ids. st1 = st\<lparr> c_ids := ids \<rparr>"
proof -
  note inc = plan_room_inc [OF assms(3)]
  have self: "\<exists>ids. st = st\<lparr> c_ids := ids \<rparr>" by (rule exI [of _ "c_ids st"]) simp
  show "plans_ok st1" "next_transfer_plan_id (c_ids st1) \<noteq> u64_max"
    "c_transfer_plans st1 = c_transfer_plans st" "\<exists>ids. st1 = st\<lparr> c_ids := ids \<rparr>"
    using plans_ok_take [OF assms(2) inc(1)] inc assms(2) take_plan_id_frame [of st] self
    by (simp_all add: st1_def take_request_id_def Let_def)
qed

text \<open>A successful plan, step by step.\<close>

lemma plan_transfer_okE:
  assumes "plan_transfer env req st = (r, st')" and "get r ''status'' = ''ok''"
  obtains w cls where "read_window req st = Inr w"
    and "cls = classify_transfer env (w_src w) (w_dst w) (w_nbytes w) (or_default (get req ''mode'') ''auto'')"
    and "check_class cls (or_default (get req ''mode'') ''auto'') = Inr ()"
    and "r = ok (transfer_plan_payload [] (plan_record req
           (next_transfer_plan_id (c_ids (snd (take_request_id req st)))) (fst (take_request_id req st)) w cls))"
    and "st' = (snd (take_next_transfer_plan_id (snd (take_request_id req st))))
           \<lparr> c_transfer_plans := hm_insert (next_transfer_plan_id (c_ids (snd (take_request_id req st))))
               (plan_record req (next_transfer_plan_id (c_ids (snd (take_request_id req st))))
                 (fst (take_request_id req st)) w cls)
               (c_transfer_plans (snd (take_request_id req st))) \<rparr>"
    and "get_u64 req ''client_id'' = 0 \<or> hm_contains (c_clients st) (get_u64 req ''client_id'')"
  using assms
  by (auto simp: plan_transfer_def Let_def case_prod_beta split: if_splits sum.splits)

text \<open>A refused plan takes at most two identifiers.\<close>

lemma plan_transfer_errE:
  assumes "plan_transfer env req st = (r, st')" and "get r ''status'' \<noteq> ''ok''"
  obtains "st' = st"
  | "st' = snd (take_next_transfer_plan_id (snd (take_request_id req st)))"
  using assms
  by (auto simp: plan_transfer_def Let_def case_prod_beta split: if_splits sum.splits)

section \<open>Plans stay inside their objects\<close>

text \<open>
  C24. A plan that is granted names two live objects of the catalog, neither of them external
  memory, with their media, and a byte window that lies inside both (an object of the largest
  64-bit size excepted). It is filed under a fresh identifier; nothing else of the catalog changes
  but the counter.
\<close>

theorem plan_within_objects:
  assumes "plans_ok st" and "plan_room st"
    and "plan_transfer env req st = (r, st')" and "get r ''status'' = ''ok''"
  shows "\<exists>p src dst.
    r = ok (transfer_plan_payload [] p) \<and>
    src \<in> set (hm_values (c_objects st)) \<and> dst \<in> set (hm_values (c_objects st)) \<and>
    tp_src_object_id p = ob_object_id src \<and> tp_dst_object_id p = ob_object_id dst \<and>
    tp_src_medium p = ob_placement src \<and> tp_dst_medium p = ob_placement dst \<and>
    \<not> xd_contains (c_external_ddr st) (ob_object_id src) \<and>
    \<not> xd_contains (c_external_ddr st) (ob_object_id dst) \<and>
    (ob_requested_bytes src \<noteq> u64_max \<longrightarrow>
       unat (tp_src_offset_bytes p) + unat (tp_nbytes p) \<le> unat (ob_requested_bytes src)) \<and>
    (ob_requested_bytes dst \<noteq> u64_max \<longrightarrow>
       unat (tp_dst_offset_bytes p) + unat (tp_nbytes p) \<le> unat (ob_requested_bytes dst)) \<and>
    hm_get (c_transfer_plans st) (tp_plan_id p) = None \<and>
    (\<exists>ids. st' = st\<lparr> c_ids := ids,
       c_transfer_plans := hm_insert (tp_plan_id p) p (c_transfer_plans st) \<rparr>) \<and>
    plans_ok st'"
proof -
  from assms(3,4) obtain w cls where w: "read_window req st = Inr w"
    and r: "r = ok (transfer_plan_payload [] (plan_record req
           (next_transfer_plan_id (c_ids (snd (take_request_id req st)))) (fst (take_request_id req st)) w cls))"
    and st': "st' = (snd (take_next_transfer_plan_id (snd (take_request_id req st))))
           \<lparr> c_transfer_plans := hm_insert (next_transfer_plan_id (c_ids (snd (take_request_id req st))))
               (plan_record req (next_transfer_plan_id (c_ids (snd (take_request_id req st))))
                 (fst (take_request_id req st)) w cls)
               (c_transfer_plans (snd (take_request_id req st))) \<rparr>"
    by (rule plan_transfer_okE)
  define st1 where "st1 = snd (take_request_id req st)"
  define p where "p = plan_record req (next_transfer_plan_id (c_ids st1)) (fst (take_request_id req st)) w cls"
  note f = take_request_id_fields [OF assms(1,2), of req, folded st1_def]
  have pid: "tp_plan_id p = next_transfer_plan_id (c_ids st1)" by (simp add: p_def plan_record_def)
  have st1': "st' = (snd (take_next_transfer_plan_id st1))
      \<lparr> c_transfer_plans := hm_insert (tp_plan_id p) p (c_transfer_plans st) \<rparr>"
    using st' unfolding pid f(3) [symmetric] by (simp add: st1_def p_def)
  have fresh: "hm_get (c_transfer_plans st) (tp_plan_id p) = None"
    using f(1) by (simp add: plans_ok_def pid f(3) keys_below_fresh)
  have "plans_ok st'"
    using f(1,2) plan_ids.take_insert_below [of st1 "c_transfer_plans st" p]
    by (auto simp: st1' plans_ok_def pid f(3) hm_get_insert)
  moreover have "\<exists>ids. st' = st\<lparr> c_ids := ids, c_transfer_plans := hm_insert (tp_plan_id p) p (c_transfer_plans st) \<rparr>"
    using f(4) take_plan_id_frame [of st1] by (auto simp: st1')
  moreover have "r = ok (transfer_plan_payload [] p)" by (simp add: r p_def st1_def)
  moreover note read_windowD [OF w] object_by_request_mem [OF read_windowD(1) [OF w]]
    object_by_request_mem [OF read_windowD(2) [OF w]] fresh
  ultimately show ?thesis
    by (intro exI [of _ p] exI [of _ "w_src w"] exI [of _ "w_dst w"])
      (simp add: p_def plan_record_def range_ok_bound)
qed

definition demo_plan_req :: kv where
  "demo_plan_req = kv_of [(''client_id'', ''1''), (''src_object_id'', ''101''),
     (''dst_object_id'', ''100''), (''src_offset_bytes'', ''16''), (''nbytes'', ''32'')]"

lemma demo_plan_fields:
  "get_u64 demo_plan_req ''client_id'' = 1" "get_u64 demo_plan_req ''src_object_id'' = 101"
  "get_u64 demo_plan_req ''dst_object_id'' = 100" "get_u64 demo_plan_req ''src_offset_bytes'' = 16"
  "get_u64 demo_plan_req ''dst_offset_bytes'' = 0" "get_u64 demo_plan_req ''nbytes'' = 32"
  "get_u64 demo_plan_req ''request_id'' = 0" "get demo_plan_req ''mode'' = []"
  by code_simp+

definition demo_window32 :: transfer_window where
  "demo_window32 = \<lparr> w_src = demo_ddr, w_dst = demo_hbm, w_src_offset = 16, w_dst_offset = 0,
     w_nbytes = 32 \<rparr>"

lemma demo_read_window: "read_window demo_plan_req demo_catalog = Inr demo_window32"
proof -
  have "\<not> range_exceeds 16 32 64" "\<not> range_exceeds 0 32 64" by code_simp+
  then show ?thesis
    by (simp add: read_window_def object_by_request_def demo_plan_fields demo_gets demo_objects
        xd_contains_def hm_contains_def hm_get_def [of "[]"] demo_window32_def Let_def)
qed

lemma demo_class:
  "check_class (classify_transfer env demo_ddr demo_hbm n ''auto'') m = Inr ()"
  "k_path (classify_transfer env demo_ddr demo_hbm n ''auto'') = ''ddr_to_hbm''"
  by (simp_all add: check_class_def classify_transfer_def demo_objects Let_def ddr_hbm_choice_def moved_def)

lemma demo_plan_state:
  "plans_ok demo_catalog" "plan_room demo_catalog" "hm_contains (c_clients demo_catalog) 1"
  by (simp_all add: plans_ok_def plan_room_def demo_catalog_def catalog_new_def u64_max_def
      hm_get_def hm_contains_def)

lemma demo_plan_ok: "get (fst (plan_transfer env demo_plan_req demo_catalog)) ''status'' = ''ok''"
  by (simp add: plan_transfer_def demo_read_window demo_plan_fields Let_def case_prod_beta
      or_default_def demo_window32_def demo_class demo_plan_state)

theorem plan_within_objects_witness:
  "\<exists>p. tp_plan_id p = 20001 \<and>
     hm_get (c_transfer_plans (snd (plan_transfer (\<lambda>_. None) demo_plan_req demo_catalog))) 20001 = Some p \<and>
     unat (tp_src_offset_bytes p) + unat (tp_nbytes p) \<le> 64"
proof -
  let ?r = "plan_transfer (\<lambda>_. None) demo_plan_req demo_catalog"
  have ev: "?r = (fst ?r, snd ?r)" by simp
  obtain p src dst where p: "fst ?r = ok (transfer_plan_payload [] p)"
      "src \<in> set (hm_values (c_objects demo_catalog))"
      "ob_requested_bytes src \<noteq> u64_max \<longrightarrow>
         unat (tp_src_offset_bytes p) + unat (tp_nbytes p) \<le> unat (ob_requested_bytes src)"
      "\<exists>ids. snd ?r = demo_catalog\<lparr> c_ids := ids,
         c_transfer_plans := hm_insert (tp_plan_id p) p (c_transfer_plans demo_catalog) \<rparr>"
    using plan_within_objects [OF demo_plan_state(1,2) ev demo_plan_ok] by blast
  have src: "ob_requested_bytes src = 64"
    using p(2) by (auto simp: demo_catalog_def hm_values_def demo_objects)
  have "hm_get (c_transfer_plans (snd ?r)) 20001 \<noteq> None"
    by (simp add: plan_transfer_def demo_read_window demo_plan_fields Let_def case_prod_beta
        or_default_def demo_window32_def demo_class demo_plan_state take_request_id_def hm_get_insert)
      (simp add: demo_catalog_def)
  moreover have "c_transfer_plans demo_catalog = []" by (simp add: demo_catalog_def catalog_new_def)
  ultimately have "tp_plan_id p = 20001"
    using p(4) by (auto simp: hm_get_insert hm_get_def [of "[]"] split: if_splits)
  with p(3,4) src show ?thesis
    by (intro exI [of _ p]) (auto simp: hm_get_insert u64_max_def)
qed

section \<open>Estimates\<close>

lemma bt_get_ok: "bt_get (ok items) k = (if k = ''status'' then Some ''ok'' else map_of (rev items) k)"
  by (simp add: ok_def bt_get_insert bt_get_kv_of)

text \<open>
  An estimate tells the truth about the plan: for a client that may plan, the response to a
  planning request carries every field of the response to the same estimation request with the same
  value; in particular both succeed or both fail with the same reason.
\<close>

theorem plan_extends_estimate:
  assumes "get_u64 req ''client_id'' = 0 \<or> hm_contains (c_clients st) (get_u64 req ''client_id'')"
    and "bt_get (estimate_cost env req st) k = Some v"
  shows "bt_get (fst (plan_transfer env req st)) k = Some v"
proof (cases "read_window req st")
  case (Inl e)
  with assms show ?thesis by (auto simp: plan_transfer_def estimate_cost_def Let_def)
next
  case (Inr w)
  define cls where "cls = classify_transfer env (w_src w) (w_dst w) (w_nbytes w) (or_default (get req ''mode'') ''auto'')"
  have check: "check_class cls (get req ''mode'') = check_class cls (or_default (get req ''mode'') ''auto'')"
    unfolding cls_def by (rule check_class_mode)
  show ?thesis
  proof (cases "check_class cls (get req ''mode'')")
    case (Inl e)
    have "check_class cls (or_default (get req ''mode'') ''auto'') = Inl e" using Inl check by simp
    then have "fst (plan_transfer env req st) = err e"
      using Inr assms(1) by (auto simp: plan_transfer_def Let_def case_prod_beta cls_def)
    moreover have "estimate_cost env req st = err e"
      using Inr Inl by (simp add: estimate_cost_def Let_def cls_def)
    ultimately show ?thesis using assms(2) by simp
  next
    case ok: (Inr u)
    obtain pid rid where plan: "fst (plan_transfer env req st) =
        ok (transfer_plan_payload [] (plan_record req pid rid w cls))"
      using Inr ok [unfolded check] assms(1)
      by (auto simp: plan_transfer_def Let_def case_prod_beta cls_def)
    have "bt_get (ok (cost_fields w cls)) k = Some v"
      using assms(2) Inr ok by (simp add: estimate_cost_def Let_def cls_def)
    then show ?thesis
      using cost_fields_in_plan [of req pid rid w cls] unfolding plan bt_get_ok
      by (auto simp: list_all_iff split: if_splits dest!: map_of_SomeD)
  qed
qed

theorem plan_extends_estimate_witness:
  "bt_get (fst (plan_transfer (\<lambda>_. None) demo_plan_req demo_catalog)) ''path'' = Some ''ddr_to_hbm''"
proof -
  have "bt_get (estimate_cost (\<lambda>_. None) demo_plan_req demo_catalog) ''path'' = Some ''ddr_to_hbm''"
    by (simp add: estimate_cost_def demo_read_window demo_plan_fields or_default_def
        demo_window32_def demo_class Let_def bt_get_ok cost_fields_def)
  then show ?thesis
    by (rule plan_extends_estimate [rotated]) (simp add: demo_plan_fields demo_plan_state)
qed

section \<open>Media\<close>

text \<open>
  In the automatic mode the planner finds a path between any two objects on device memory, host
  memory and SSD except from SSD to SSD, and the path it finds is named after the media: it moves
  data from the medium of the source to the medium of the destination.
\<close>

theorem auto_plans_every_pair:
  assumes "ob_placement src \<in> {''hbm'', ''ddr'', ''ssd''}" and "ob_placement dst \<in> {''hbm'', ''ddr'', ''ssd''}"
    and "ob_placement_id src \<noteq> ob_placement_id dst" and "ob_object_id src \<noteq> ob_object_id dst"
  shows "(case check_class (classify_transfer env src dst n ''auto'') ''auto'' of
      Inl _ \<Rightarrow> ob_placement src = ''ssd'' \<and> ob_placement dst = ''ssd''
    | Inr _ \<Rightarrow> \<not> (ob_placement src = ''ssd'' \<and> ob_placement dst = ''ssd'') \<and>
        starts_with (ob_placement src @ ''_to_'' @ ob_placement dst)
          (k_path (classify_transfer env src dst n ''auto'')))"
  using assms
  by (auto simp: classify_transfer_def Let_def check_class_def moved_def unsupported_def
      classify_hbm_hbm_def classify_ddr_ddr_def ssd_engine_def hbm_ddr_choice_def ddr_hbm_choice_def
      classify_ssd_hbm_transfer_def starts_with_def split: sum.split option.split)

theorem auto_plans_every_pair_witness:
  "starts_with ''ddr_to_hbm'' (k_path (classify_transfer (\<lambda>_. None) demo_ddr demo_hbm 64 ''auto''))"
  using auto_plans_every_pair [of demo_ddr demo_hbm "\<lambda>_. None" 64]
  by (simp add: demo_objects demo_class)

end
