(* ===== verification/Lanes.thy ===== *)
theory Lanes
  imports Host
begin

text \<open>
  Transfer lanes: the pinned staging lanes of \<^verbatim>\<open>transfer_channel.rs\<close> and the direct lanes of
  \<^verbatim>\<open>direct_transfer.rs\<close>. A lane is a stream with its events and buffers; a transfer borrows a
  lane for its duration.

  A manager is one state under a mutex. One pass through the acquire loop is \<open>acquire_attempt\<close>;
  the loop repeats while a pass asks for it, and stops with \<open>Blocked\<close> where the code sleeps on the
  condition variable, releasing the mutex: a woken thread calls \<open>acquire\<close> again on the state it then
  finds. Instants are nanosecond counts, read once per pass. Streams, events and pinned memory come
  from the vendor runtime, a parameter.
\<close>

section \<open>Leases and lane pools\<close>

datatype TransferDirection = H2D | D2H

fun direction_str :: "TransferDirection \<Rightarrow> string" where
  "direction_str H2D = ''h2d''"
| "direction_str D2H = ''d2h''"

text \<open>What one pass of the acquire loop ends with.\<close>

datatype 'i attempt = Granted 'i | Refused string | Again | Blocked

text \<open>Lane identifiers are handed out by a counter.\<close>

definition ids_ok :: "u64 \<Rightarrow> u64 list \<Rightarrow> bool" where
  "ids_ok n ids \<longleftrightarrow> distinct ids \<and> list_all (\<lambda>i. i < n) ids"

lemma ids_ok_fresh: "ids_ok n ids \<Longrightarrow> n \<notin> set ids"
  by (auto simp: ids_ok_def list_all_iff)

lemma ids_ok_add:
  assumes "ids_ok n ids" and "n \<noteq> u64_max"
  shows "ids_ok (n + 1) (ids @ [n])" and "ids_ok (n + 1) ids"
proof -
  have lt: "n < n + 1" using unat_inc_u64 [OF assms(2)] by (simp add: word_less_nat_alt)
  then have "list_all (\<lambda>i. i < n + 1) ids"
    using assms(1) by (auto simp: ids_ok_def list_all_iff intro: less_trans)
  then show "ids_ok (n + 1) (ids @ [n])" "ids_ok (n + 1) ids"
    using assms(1) ids_ok_fresh [OF assms(1)] lt by (auto simp: ids_ok_def)
qed

lemma ids_ok_filter: "ids_ok n (map f xs) \<Longrightarrow> ids_ok n (map f (filter P xs))"
  by (auto simp: ids_ok_def list_all_iff distinct_map_filter)

text \<open>
  What borrowers do with a pool: they ask for a lane, or give back one they hold. The run keeps the
  list of the lanes that are out.
\<close>

datatype 'q lane_event = Ask 'q | GiveBack u64 nat

fun lease_run ::
  "('q \<Rightarrow> 's \<Rightarrow> 'i attempt \<times> 's) \<Rightarrow> ('i \<Rightarrow> u64) \<Rightarrow> (nat \<Rightarrow> u64 \<Rightarrow> 's \<Rightarrow> 's) \<Rightarrow>
     'q lane_event list \<Rightarrow> 's \<times> u64 list \<Rightarrow> 's \<times> u64 list" where
  "lease_run acq lane rel [] x = x"
| "lease_run acq lane rel (Ask q # evs) (s, out) =
     lease_run acq lane rel evs
       (case acq q s of (Granted i, s') \<Rightarrow> (s', lane i # out) | (_, s') \<Rightarrow> (s', out))"
| "lease_run acq lane rel (GiveBack l now # evs) (s, out) =
     lease_run acq lane rel evs (if l \<in> set out then (rel now l s, remove1 l out) else (s, out))"

text \<open>
  The interface of a lane pool: \<open>held\<close> is the set of lanes in use. A grant adds one lane that was
  not in use, everything else an acquisition does leaves the lanes in use alone, giving a lane back
  removes exactly it.
\<close>

locale lane_pool =
  fixes ids :: "'s \<Rightarrow> u64 list" and held :: "'s \<Rightarrow> u64 set" and next_id :: "'s \<Rightarrow> u64"
    and acq :: "'q \<Rightarrow> 's \<Rightarrow> 'i attempt \<times> 's" and lane :: "'i \<Rightarrow> u64"
    and rel :: "nat \<Rightarrow> u64 \<Rightarrow> 's \<Rightarrow> 's"
  assumes acq_step: "ids_ok (next_id s) (ids s) \<Longrightarrow> next_id s \<noteq> u64_max \<Longrightarrow> acq q s = (r, s') \<Longrightarrow>
      ids_ok (next_id s') (ids s') \<and> unat (next_id s') \<le> unat (next_id s) + 1 \<and>
      (case r of Granted i \<Rightarrow> lane i \<notin> held s \<and> held s' = insert (lane i) (held s)
       | _ \<Rightarrow> held s' = held s)"
    and rel_ids: "ids (rel now l s) = ids s \<and> next_id (rel now l s) = next_id s"
    and rel_held: "ids_ok (next_id s) (ids s) \<Longrightarrow> held (rel now l s) = held s - {l}"
begin

text \<open>Whatever borrowers do, in whatever order, a lane is never out twice.\<close>

lemma lease_run_exclusive:
  assumes "ids_ok (next_id s) (ids s)" and "unat (next_id s) + length evs < 2 ^ 64"
    and "distinct out" and "set out = held s"
    and "lease_run acq lane rel evs (s, out) = (s', out')"
  shows "distinct out' \<and> set out' = held s' \<and> ids_ok (next_id s') (ids s')"
  using assms
proof (induction evs arbitrary: s out)
  case Nil
  then show ?case by simp
next
  case (Cons ev evs)
  have max: "next_id s \<noteq> u64_max"
    using Cons.prems(2) by (auto simp: unat_u64_max)
  show ?case
  proof (cases ev)
    case (Ask q)
    obtain r s1 where a: "acq q s = (r, s1)" by fastforce
    note step = acq_step [OF Cons.prems(1) max a]
    have ids1: "ids_ok (next_id s1) (ids s1)" using step by simp
    have room: "unat (next_id s1) + length evs < 2 ^ 64" using step Cons.prems(2) by simp
    show ?thesis
    proof (cases r)
      case (Granted i)
      have "distinct (lane i # out)" "set (lane i # out) = held s1"
        using step Granted Cons.prems(3,4) by auto
      moreover have "lease_run acq lane rel evs (s1, lane i # out) = (s', out')"
        using Cons.prems(5) a Granted Ask by simp
      ultimately show ?thesis using Cons.IH [of s1 "lane i # out"] ids1 room by blast
    qed (use Cons.IH [OF ids1 room Cons.prems(3)] step Cons.prems(4,5) a Ask in simp_all)
  next
    case (GiveBack l now)
    show ?thesis
    proof (cases "l \<in> set out")
      case True
      have "distinct (remove1 l out)" "set (remove1 l out) = held (rel now l s)"
        using Cons.prems(3,4) rel_held [OF Cons.prems(1)] by auto
      moreover have "lease_run acq lane rel evs (rel now l s, remove1 l out) = (s', out')"
        using Cons.prems(5) True GiveBack by simp
      ultimately show ?thesis
        using Cons.IH [of "rel now l s" "remove1 l out"] Cons.prems(1,2) rel_ids by simp
    next
      case False
      then show ?thesis using Cons.IH [of s out] Cons.prems GiveBack by simp
    qed
  qed
qed

end

section \<open>Configuration\<close>

text \<open>\<^verbatim>\<open>env_u64\<close> of transfer\_channel.rs: a positive number, or nothing.\<close>

definition env_positive :: "environment \<Rightarrow> string \<Rightarrow> u64 option" where
  "env_positive env key =
     (case env_u64 env key of Some v \<Rightarrow> if v > 0 then Some v else None | None \<Rightarrow> None)"

text \<open>\<^verbatim>\<open>usize\<close> has 64 bits.\<close>

definition env_usize :: "environment \<Rightarrow> string \<Rightarrow> nat \<Rightarrow> nat" where
  "env_usize env key dflt =
     (case Option.bind (env key) (parse_unsigned 64) of Some v \<Rightarrow> v | None \<Rightarrow> dflt)"

definition chunk_count :: "environment \<Rightarrow> nat" where
  "chunk_count env = (let v = env_usize env ''UF_PINNED_CHUNK_COUNT'' 0 in if v > 0 then v else 2)"

definition chunk_bytes_for :: "environment \<Rightarrow> TransferDirection \<Rightarrow> u64" where
  "chunk_bytes_for env dir =
     max 1 (case or_else (or_else (env_positive env
                (case dir of H2D \<Rightarrow> ''UF_H2D_PINNED_CHUNK_BYTES'' | D2H \<Rightarrow> ''UF_D2H_PINNED_CHUNK_BYTES''))
              (env_positive env ''UF_PINNED_CHUNK_BYTES'')) (env_positive env ''UF_DDR_COPY_CHUNK_BYTES'') of
        Some v \<Rightarrow> v
      | None \<Rightarrow> (case dir of H2D \<Rightarrow> 16 * 1024 * 1024 | D2H \<Rightarrow> 64 * 1024 * 1024))"

definition max_pinned_bytes :: "environment \<Rightarrow> u64" where
  "max_pinned_bytes env =
     (case env_positive env ''UF_PINNED_MAX_BYTES'' of Some v \<Rightarrow> v | None \<Rightarrow> 0)"

definition max_lanes_for :: "environment \<Rightarrow> TransferDirection \<Rightarrow> nat" where
  "max_lanes_for env dir =
     env_usize env (case dir of H2D \<Rightarrow> ''UF_H2D_MAX_LANES'' | D2H \<Rightarrow> ''UF_D2H_MAX_LANES'') 0"

definition idle_ttl_ms :: "environment \<Rightarrow> u64" where
  "idle_ttl_ms env =
     (case env_u64 env ''UF_PINNED_IDLE_TTL_MS'' of Some v \<Rightarrow> v | None \<Rightarrow> 30000)"

text \<open>The time to live in nanoseconds.\<close>

definition idle_ttl :: "environment \<Rightarrow> nat option" where
  "idle_ttl env = (let ms = idle_ttl_ms env in if ms = 0 then None else Some (unat ms * 1000000))"

section \<open>Pinned staging lanes (transfer\_channel.rs)\<close>

record PinnedHostAllocation =
  ph_ptr :: u64
  ph_bytes :: u64

record PinnedChunkView =
  pv_ptr :: u64
  pv_bytes :: u64
  pv_event_id :: u64

record LaneLeaseInfo =
  ll_lane_id :: u64
  ll_direction :: TransferDirection
  ll_active_device_id :: int
  ll_chunk_bytes :: u64
  ll_chunk_count :: nat
  ll_pinned_footprint_bytes :: u64
  ll_lane_wait_us :: rat
  ll_stream_id :: u64
  ll_chunks :: "PinnedChunkView list"

record TransferLane =
  tl_lane_id :: u64
  tl_direction :: TransferDirection
  tl_active_device_id :: "int option"
  tl_chunk_bytes :: u64
  tl_stream :: u64
  tl_events :: "u64 list"
  tl_chunks :: "PinnedHostAllocation list"
  tl_busy :: bool
  tl_idle_since :: "nat option"
  tl_acquire_count :: u64

record ManagerState =
  mg_next_lane_id :: u64
  mg_lanes :: "TransferLane list"
  mg_lane_wait_count :: u64
  mg_budget_wait_us :: rat
  mg_total_acquires :: u64
  mg_idle_reaped_lanes :: u64
  mg_idle_reaped_bytes :: u64

text \<open>The vendor runtime: a stream, and per buffer a pinned allocation and an event.\<close>

record lane_acl =
  la_create_stream :: "u64 \<Rightarrow> u64 result"
  la_malloc_pinned_host :: "u64 \<Rightarrow> nat \<Rightarrow> u64 \<Rightarrow> PinnedHostAllocation result"
  la_create_event :: "u64 \<Rightarrow> nat \<Rightarrow> u64 result"

definition create_stream :: "lane_acl \<Rightarrow> u64 \<Rightarrow> u64 result" where
  "create_stream a lid = acl_check ''create_stream'' (la_create_stream a lid)"

definition create_event :: "lane_acl \<Rightarrow> u64 \<Rightarrow> nat \<Rightarrow> u64 result" where
  "create_event a lid i = acl_check ''create_event'' (la_create_event a lid i)"

definition malloc_pinned_host :: "lane_acl \<Rightarrow> u64 \<Rightarrow> nat \<Rightarrow> u64 \<Rightarrow> PinnedHostAllocation result" where
  "malloc_pinned_host a lid i n = acl_check ''malloc_host'' (la_malloc_pinned_host a lid i n)"

definition footprint_bytes :: "TransferLane \<Rightarrow> u64" where
  "footprint_bytes lane = sum_list (map ph_bytes (tl_chunks lane))"

definition manager_new :: ManagerState where
  "manager_new = \<lparr> mg_next_lane_id = 1, mg_lanes = [], mg_lane_wait_count = 0, mg_budget_wait_us = 0,
     mg_total_acquires = 0, mg_idle_reaped_lanes = 0, mg_idle_reaped_bytes = 0 \<rparr>"

definition pinned_total_bytes :: "ManagerState \<Rightarrow> u64" where
  "pinned_total_bytes st = sum_list (map footprint_bytes (mg_lanes st))"

definition direction_lane_count :: "ManagerState \<Rightarrow> TransferDirection \<Rightarrow> nat" where
  "direction_lane_count st dir = length (filter (\<lambda>l. tl_direction l = dir) (mg_lanes st))"

definition lane_lease_info :: "TransferLane \<Rightarrow> int \<Rightarrow> rat \<Rightarrow> LaneLeaseInfo" where
  "lane_lease_info lane dev wait_us =
     (let chunks = map (\<lambda>(c, e). \<lparr> pv_ptr = ph_ptr c, pv_bytes = ph_bytes c, pv_event_id = e \<rparr>)
                     (zip (tl_chunks lane) (tl_events lane)) in
      \<lparr> ll_lane_id = tl_lane_id lane, ll_direction = tl_direction lane, ll_active_device_id = dev,
        ll_chunk_bytes = tl_chunk_bytes lane, ll_chunk_count = length chunks,
        ll_pinned_footprint_bytes = sum_list (map pv_bytes chunks), ll_lane_wait_us = wait_us,
        ll_stream_id = tl_stream lane, ll_chunks = chunks \<rparr>)"

text \<open>\<^verbatim>\<open>Vec::remove\<close>.\<close>

definition remove_at :: "nat \<Rightarrow> 'a list \<Rightarrow> 'a list" where
  "remove_at i xs = take i xs @ drop (Suc i) xs"

definition reap_lane_at :: "nat \<Rightarrow> ManagerState \<Rightarrow> ManagerState" where
  "reap_lane_at i st =
     (let footprint = footprint_bytes (mg_lanes st ! i) in
      st\<lparr> mg_lanes := remove_at i (mg_lanes st),
          mg_idle_reaped_lanes := mg_idle_reaped_lanes st + 1,
          mg_idle_reaped_bytes := mg_idle_reaped_bytes st + footprint \<rparr>)"

definition expired :: "nat \<Rightarrow> nat \<Rightarrow> TransferLane \<Rightarrow> bool" where
  "expired ttl now lane \<longleftrightarrow>
     \<not> tl_busy lane \<and> (case tl_idle_since lane of Some t \<Rightarrow> ttl \<le> now - t | None \<Rightarrow> False)"

function reap_from :: "nat \<Rightarrow> nat \<Rightarrow> nat \<Rightarrow> ManagerState \<Rightarrow> ManagerState" where
  "reap_from ttl now i st =
     (if i < length (mg_lanes st)
      then if expired ttl now (mg_lanes st ! i) then reap_from ttl now i (reap_lane_at i st)
           else reap_from ttl now (Suc i) st
      else st)"
  by pat_completeness auto
termination
  by (relation "measure (\<lambda>(ttl, now, i, st). length (mg_lanes st) - i)")
    (auto simp: reap_lane_at_def remove_at_def Let_def)

declare reap_from.simps [simp del]

definition reap_expired_lanes :: "environment \<Rightarrow> nat \<Rightarrow> ManagerState \<Rightarrow> ManagerState" where
  "reap_expired_lanes env now st =
     (case idle_ttl env of None \<Rightarrow> st | Some ttl \<Rightarrow> reap_from ttl now 0 st)"

fun first_index :: "('a \<Rightarrow> bool) \<Rightarrow> 'a list \<Rightarrow> nat option" where
  "first_index P [] = None"
| "first_index P (x # xs) = (if P x then Some 0 else map_option Suc (first_index P xs))"

definition reap_one_idle_lane ::
  "TransferDirection option \<Rightarrow> ManagerState \<Rightarrow> bool \<times> ManagerState" where
  "reap_one_idle_lane dir st =
     (case first_index (\<lambda>l. \<not> tl_busy l \<and> (case dir of Some d \<Rightarrow> tl_direction l = d | None \<Rightarrow> True))
             (mg_lanes st) of
        Some i \<Rightarrow> (True, reap_lane_at i st)
      | None \<Rightarrow> (False, st))"

text \<open>Counting a wait of more than a microsecond.\<close>

definition note_wait :: "rat \<Rightarrow> ManagerState \<Rightarrow> ManagerState" where
  "note_wait wait_us st =
     (if wait_us > 1
      then st\<lparr> mg_lane_wait_count := mg_lane_wait_count st + 1,
               mg_budget_wait_us := mg_budget_wait_us st + wait_us \<rparr>
      else st)"

definition reuse_lane ::
  "nat \<Rightarrow> int \<Rightarrow> rat \<Rightarrow> ManagerState \<Rightarrow> LaneLeaseInfo \<times> ManagerState" where
  "reuse_lane i dev wait_us st =
     (let st = note_wait wait_us (st\<lparr> mg_total_acquires := mg_total_acquires st + 1 \<rparr>);
          l = mg_lanes st ! i;
          l = l\<lparr> tl_busy := True, tl_active_device_id := Some dev, tl_idle_since := None,
                 tl_acquire_count := tl_acquire_count l + 1 \<rparr> in
      (lane_lease_info l dev wait_us, st\<lparr> mg_lanes := (mg_lanes st)[i := l] \<rparr>))"

fun make_chunks ::
  "lane_acl \<Rightarrow> u64 \<Rightarrow> u64 \<Rightarrow> nat \<Rightarrow> nat \<Rightarrow> (PinnedHostAllocation \<times> u64) list result" where
  "make_chunks a lid n i 0 = Inr []"
| "make_chunks a lid n i (Suc k) =
     rbind (malloc_pinned_host a lid i n) (\<lambda>c.
     rbind (create_event a lid i) (\<lambda>e.
     rbind (make_chunks a lid n (Suc i) k) (\<lambda>rest. Inr ((c, e) # rest))))"

text \<open>A new lane; the counter has advanced even when the runtime refuses.\<close>

definition create_lane ::
  "lane_acl \<Rightarrow> TransferDirection \<Rightarrow> int \<Rightarrow> u64 \<Rightarrow> nat \<Rightarrow> rat \<Rightarrow> ManagerState \<Rightarrow>
     LaneLeaseInfo attempt \<times> ManagerState" where
  "create_lane a dir dev chunk_bytes count wait_us st =
     (let lid = mg_next_lane_id st;
          st = st\<lparr> mg_next_lane_id := lid + 1 \<rparr> in
      case rbind (create_stream a lid) (\<lambda>stream.
             rbind (make_chunks a lid chunk_bytes 0 count) (\<lambda>cs. Inr (stream, cs))) of
        Inl e \<Rightarrow> (Refused e, st)
      | Inr (stream, cs) \<Rightarrow>
          let l = \<lparr> tl_lane_id = lid, tl_direction = dir, tl_active_device_id = Some dev,
                    tl_chunk_bytes = chunk_bytes, tl_stream = stream, tl_events = map snd cs,
                    tl_chunks = map fst cs, tl_busy = True, tl_idle_since = None,
                    tl_acquire_count = 1 \<rparr>;
              st = note_wait wait_us (st\<lparr> mg_total_acquires := mg_total_acquires st + 1 \<rparr>) in
          (Granted (lane_lease_info l dev wait_us), st\<lparr> mg_lanes := mg_lanes st @ [l] \<rparr>))"

text \<open>One pass of the loop.\<close>

definition acquire_attempt ::
  "environment \<Rightarrow> lane_acl \<Rightarrow> TransferDirection \<Rightarrow> int \<Rightarrow> u64 \<Rightarrow> rat \<Rightarrow> nat \<Rightarrow> ManagerState \<Rightarrow>
     LaneLeaseInfo attempt \<times> ManagerState" where
  "acquire_attempt env a dir dev hint wait_us now st =
     (let chunk_bytes = max 1 (min (chunk_bytes_for env dir) (max hint 1));
          count = chunk_count env in
      case first_index (\<lambda>l. \<not> tl_busy l \<and> tl_direction l = dir \<and> tl_chunk_bytes l = chunk_bytes)
             (mg_lanes st) of
        Some i \<Rightarrow> (let (info, st) = reuse_lane i dev wait_us st in (Granted info, st))
      | None \<Rightarrow>
          (case checked_mul chunk_bytes (of_nat count) of
             None \<Rightarrow> (Refused ''pinned lane footprint overflow'', st)
           | Some required \<Rightarrow>
               let st = reap_expired_lanes env now st in
               if max_lanes_for env dir > 0 \<and> direction_lane_count st dir \<ge> max_lanes_for env dir
               then (let (reaped, st) = reap_one_idle_lane (Some dir) st in
                     (if reaped then Again else Blocked, st))
               else
                 let budget = max_pinned_bytes env; total = pinned_total_bytes st in
                 if budget = 0 \<or> total + required \<le> budget
                 then create_lane a dir dev chunk_bytes count wait_us st
                 else if required > budget
                 then (Refused (''pinned lane requires '' @ show_u64 required @
                        '' bytes but UF_PINNED_MAX_BYTES='' @ show_u64 budget), st)
                 else (let (reaped, st) = reap_one_idle_lane None st in
                       (if reaped then Again else Blocked, st))))"

text \<open>Facts about the list operations of the loop.\<close>

lemma first_index_SomeD: "first_index P xs = Some i \<Longrightarrow> i < length xs \<and> P (xs ! i)"
  by (induction xs arbitrary: i) (auto split: if_splits)

lemma first_index_NoneD: "first_index P xs = None \<Longrightarrow> x \<in> set xs \<Longrightarrow> \<not> P x"
  by (induction xs) (auto split: if_splits)

lemma length_remove_at: "i < length xs \<Longrightarrow> length (remove_at i xs) < length xs"
  by (simp add: remove_at_def)

lemma reap_from_shrinks: "length (mg_lanes (reap_from ttl now i st)) \<le> length (mg_lanes st)"
proof (induction ttl now i st rule: reap_from.induct)
  case (1 ttl now i st)
  show ?case
  proof (cases "i < length (mg_lanes st)")
    case True
    have "length (mg_lanes (reap_lane_at i st)) < length (mg_lanes st)"
      using length_remove_at [OF True] by (simp add: reap_lane_at_def Let_def)
    with True 1 show ?thesis by (subst reap_from.simps) (auto split: if_splits)
  qed (simp add: reap_from.simps)
qed

lemma reap_expired_shrinks: "length (mg_lanes (reap_expired_lanes env now st)) \<le> length (mg_lanes st)"
  by (simp add: reap_expired_lanes_def reap_from_shrinks split: option.split)

lemma reap_one_shrinks:
  "reap_one_idle_lane dir st = (True, st') \<Longrightarrow> length (mg_lanes st') < length (mg_lanes st)"
  by (auto simp: reap_one_idle_lane_def reap_lane_at_def Let_def length_remove_at
      dest: first_index_SomeD split: option.splits)

lemma create_lane_settles: "fst (create_lane a dir dev n count wait_us st) \<noteq> Again"
  by (simp add: create_lane_def Let_def split: sum.split prod.split)

text \<open>The five ways a pass ends.\<close>

lemma acquire_attempt_cases:
  assumes "acquire_attempt env a dir dev hint wait_us now st = (r, st')"
  obtains (reuse) i n where "first_index (\<lambda>l. \<not> tl_busy l \<and> tl_direction l = dir \<and> tl_chunk_bytes l = n)
        (mg_lanes st) = Some i"
      and "r = Granted (fst (reuse_lane i dev wait_us st))" and "st' = snd (reuse_lane i dev wait_us st)"
  | (overflow) e where "r = Refused e" and "st' = st"
  | (sweep) d reaped where "reap_one_idle_lane d (reap_expired_lanes env now st) = (reaped, st')"
      and "r = (if reaped then Again else Blocked)"
  | (create) n required where "create_lane a dir dev n (chunk_count env) wait_us (reap_expired_lanes env now st) = (r, st')"
      and "checked_mul n (of_nat (chunk_count env)) = Some required" and "n \<le> chunk_bytes_for env dir"
      and "max_lanes_for env dir = 0 \<or> direction_lane_count (reap_expired_lanes env now st) dir < max_lanes_for env dir"
      and "max_pinned_bytes env = 0 \<or> pinned_total_bytes (reap_expired_lanes env now st) + required \<le> max_pinned_bytes env"
      and "0 < n"
  | (too_big) e where "r = Refused e" and "st' = reap_expired_lanes env now st"
proof -
  define n where "n = max 1 (min (chunk_bytes_for env dir) (max hint 1))"
  define st1 where "st1 = reap_expired_lanes env now st"
  have n: "n \<le> chunk_bytes_for env dir" by (simp add: n_def chunk_bytes_for_def)
  have pos: "0 < n" unfolding n_def by (rule less_le_trans [of _ 1]) simp_all
  note eq = assms [unfolded acquire_attempt_def Let_def, folded n_def st1_def]
  show thesis
  proof (cases "first_index (\<lambda>l. \<not> tl_busy l \<and> tl_direction l = dir \<and> tl_chunk_bytes l = n) (mg_lanes st)")
    case (Some i)
    with eq show ?thesis by (intro reuse [OF Some]) (auto simp: case_prod_beta)
  next
    case none: None
    show ?thesis
    proof (cases "checked_mul n (of_nat (chunk_count env))")
      case None
      with eq none show ?thesis by (intro overflow) auto
    next
      case (Some required)
      note eq1 = eq [unfolded none Some option.case]
      show ?thesis
      proof (cases "max_lanes_for env dir > 0 \<and> direction_lane_count st1 dir \<ge> max_lanes_for env dir")
        case True
        obtain x y where xy: "reap_one_idle_lane (Some dir) st1 = (x, y)" by fastforce
        from True eq1 xy show ?thesis by (intro sweep [of "Some dir" x]) (auto simp: st1_def)
      next
        case lanes: False
        show ?thesis
        proof (cases "max_pinned_bytes env = 0 \<or> pinned_total_bytes st1 + required \<le> max_pinned_bytes env")
          case True
          with lanes eq1 show ?thesis using pos by (intro create [OF _ Some n]) (auto simp: st1_def)
        next
          case budget: False
          show ?thesis
          proof (cases "required > max_pinned_bytes env")
            case True
            with lanes budget eq1 show ?thesis by (intro too_big) (auto simp: st1_def)
          next
            case False
            obtain x y where xy: "reap_one_idle_lane None st1 = (x, y)" by fastforce
            from False lanes budget eq1 xy show ?thesis by (intro sweep [of None x]) (auto simp: st1_def)
          qed
        qed
      qed
    qed
  qed
qed

text \<open>A pass that asks for another one has given up a lane.\<close>

lemma attempt_Again:
  assumes "acquire_attempt env a dir dev hint wait_us now st = (Again, st')"
  shows "length (mg_lanes st') < length (mg_lanes st)"
  using assms
proof (cases rule: acquire_attempt_cases)
  case (sweep d reaped)
  then have "reap_one_idle_lane d (reap_expired_lanes env now st) = (True, st')"
    by (simp split: if_splits)
  from reap_one_shrinks [OF this] reap_expired_shrinks [of env now st] show ?thesis by linarith
next
  case (create n required)
  then show ?thesis using create_lane_settles by (metis fst_conv)
qed simp_all

text \<open>The loop, with a clock: pass \<open>k\<close> reads \<open>clk k\<close>; the caller started at \<open>t0\<close>.\<close>

function acquire ::
  "environment \<Rightarrow> lane_acl \<Rightarrow> TransferDirection \<Rightarrow> int \<Rightarrow> u64 \<Rightarrow> nat \<Rightarrow> (nat \<Rightarrow> nat) \<Rightarrow> nat \<Rightarrow>
     ManagerState \<Rightarrow> LaneLeaseInfo attempt \<times> ManagerState" where
  "acquire env a dir dev hint t0 clk k st =
     (case acquire_attempt env a dir dev hint (of_nat (clk k - t0) / 1000) (clk k) st of
        (Again, st') \<Rightarrow> acquire env a dir dev hint t0 clk (Suc k) st'
      | r \<Rightarrow> r)"
  by pat_completeness auto
termination
  by (relation "measure (\<lambda>(env, a, dir, dev, hint, t0, clk, k, st). length (mg_lanes st))")
    (auto dest: attempt_Again [OF sym])

declare acquire.simps [simp del]

definition release :: "nat \<Rightarrow> u64 \<Rightarrow> ManagerState \<Rightarrow> ManagerState" where
  "release now lid st =
     (case first_index (\<lambda>l. tl_lane_id l = lid) (mg_lanes st) of
        Some i \<Rightarrow>
          st\<lparr> mg_lanes := (mg_lanes st)[i := (mg_lanes st ! i)
                \<lparr> tl_busy := False, tl_active_device_id := None, tl_idle_since := Some now \<rparr>] \<rparr>
      | None \<Rightarrow> st)"

text \<open>
  Borrowing a lane around an action on the rest of the state; \<open>None\<close> when the caller sleeps, or when
  the action does not return. The lane goes back whatever the action answers.
\<close>

definition with_lane ::
  "environment \<Rightarrow> lane_acl \<Rightarrow> TransferDirection \<Rightarrow> int \<Rightarrow> u64 \<Rightarrow> nat \<Rightarrow> (nat \<Rightarrow> nat) \<Rightarrow> nat \<Rightarrow>
     (LaneLeaseInfo \<Rightarrow> 'w \<Rightarrow> ('a result \<times> 'w) option) \<Rightarrow> ManagerState \<times> 'w \<Rightarrow>
     ('a result \<times> ManagerState \<times> 'w) option" where
  "with_lane env a dir dev hint t0 clk now f x =
     (case acquire env a dir dev hint t0 clk 0 (fst x) of
        (Granted info, st) \<Rightarrow>
          (case f info (snd x) of
             None \<Rightarrow> None
           | Some (r, w) \<Rightarrow> Some (r, release now (ll_lane_id info) st, w))
      | (Refused e, st) \<Rightarrow> Some (Inl e, st, snd x)
      | _ \<Rightarrow> None)"

record TransferChannelStats =
  cs_pinned_total_bytes :: u64
  cs_pinned_used_bytes :: u64
  cs_pinned_idle_bytes :: u64
  cs_h2d_lane_count :: nat
  cs_d2h_lane_count :: nat
  cs_h2d_busy_lanes :: nat
  cs_d2h_busy_lanes :: nat
  cs_lane_wait_count :: u64
  cs_budget_wait_us :: rat
  cs_chunk_bytes_h2d :: u64
  cs_chunk_bytes_d2h :: u64
  cs_chunk_count :: nat
  cs_total_acquires :: u64
  cs_h2d_max_lanes :: nat
  cs_d2h_max_lanes :: nat
  cs_idle_ttl_ms :: u64
  cs_idle_reaped_lanes :: u64
  cs_idle_reaped_bytes :: u64

definition count_lane :: "TransferLane \<Rightarrow> TransferChannelStats \<Rightarrow> TransferChannelStats" where
  "count_lane l out =
     (let b = (if tl_busy l then 1 else 0);
          out = (case tl_direction l of
             H2D \<Rightarrow> out\<lparr> cs_h2d_lane_count := cs_h2d_lane_count out + 1,
                         cs_h2d_busy_lanes := cs_h2d_busy_lanes out + b \<rparr>
           | D2H \<Rightarrow> out\<lparr> cs_d2h_lane_count := cs_d2h_lane_count out + 1,
                         cs_d2h_busy_lanes := cs_d2h_busy_lanes out + b \<rparr>) in
      if tl_busy l then out\<lparr> cs_pinned_used_bytes := cs_pinned_used_bytes out + footprint_bytes l \<rparr>
      else out\<lparr> cs_pinned_idle_bytes := cs_pinned_idle_bytes out + footprint_bytes l \<rparr>)"

definition channel_stats ::
  "environment \<Rightarrow> nat \<Rightarrow> ManagerState \<Rightarrow> TransferChannelStats \<times> ManagerState" where
  "channel_stats env now st0 =
     (let st = reap_expired_lanes env now st0;
          out = \<lparr> cs_pinned_total_bytes = pinned_total_bytes st, cs_pinned_used_bytes = 0,
            cs_pinned_idle_bytes = 0, cs_h2d_lane_count = 0, cs_d2h_lane_count = 0,
            cs_h2d_busy_lanes = 0, cs_d2h_busy_lanes = 0,
            cs_lane_wait_count = mg_lane_wait_count st, cs_budget_wait_us = mg_budget_wait_us st,
            cs_chunk_bytes_h2d = chunk_bytes_for env H2D, cs_chunk_bytes_d2h = chunk_bytes_for env D2H,
            cs_chunk_count = chunk_count env, cs_total_acquires = mg_total_acquires st,
            cs_h2d_max_lanes = max_lanes_for env H2D, cs_d2h_max_lanes = max_lanes_for env D2H,
            cs_idle_ttl_ms = idle_ttl_ms env, cs_idle_reaped_lanes = mg_idle_reaped_lanes st,
            cs_idle_reaped_bytes = mg_idle_reaped_bytes st \<rparr> in
      (fold count_lane (mg_lanes st) out, st))"

section \<open>Direct lanes (direct\_transfer.rs)\<close>

record DirectLaneLeaseInfo =
  dq_lane_id :: u64
  dq_direction :: TransferDirection
  dq_active_device_id :: int
  dq_lane_wait_us :: rat
  dq_stream_id :: u64
  dq_event_id :: u64
  dq_stream_create_count :: u64
  dq_event_reuse_count :: u64

record DirectLane =
  dl_lane_id :: u64
  dl_direction :: TransferDirection
  dl_device_id :: int
  dl_stream :: u64
  dl_event :: u64
  dl_busy :: bool
  dl_idle_since :: "nat option"
  dl_acquire_count :: u64

record DirectLaneManagerState =
  ds_next_lane_id :: u64
  ds_lanes :: "DirectLane list"
  ds_total_acquires :: u64
  ds_lane_wait_count :: u64
  ds_lane_wait_us_total :: rat
  ds_stream_create_count :: u64
  ds_event_create_count :: u64
  ds_event_reuse_count :: u64
  ds_idle_reaped_lanes :: u64

definition direct_manager_new :: DirectLaneManagerState where
  "direct_manager_new = \<lparr> ds_next_lane_id = 1, ds_lanes = [], ds_total_acquires = 0,
     ds_lane_wait_count = 0, ds_lane_wait_us_total = 0, ds_stream_create_count = 0,
     ds_event_create_count = 0, ds_event_reuse_count = 0, ds_idle_reaped_lanes = 0 \<rparr>"

definition direct_max_lanes_for :: "environment \<Rightarrow> TransferDirection \<Rightarrow> nat" where
  "direct_max_lanes_for env dir =
     (case dir of H2D \<Rightarrow> env_usize env ''UF_DIRECT_H2D_MAX_LANES'' 1
      | D2H \<Rightarrow> env_usize env ''UF_DIRECT_D2H_MAX_LANES'' 1)"

definition direct_idle_ttl_ms :: "environment \<Rightarrow> u64" where
  "direct_idle_ttl_ms env =
     (case env_u64 env ''UF_DIRECT_IDLE_TTL_MS'' of Some v \<Rightarrow> v | None \<Rightarrow> 30000)"

definition direct_reap_expired :: "environment \<Rightarrow> nat \<Rightarrow> DirectLaneManagerState \<Rightarrow> DirectLaneManagerState" where
  "direct_reap_expired env now st =
     (let ms = direct_idle_ttl_ms env in
      if ms = 0 then st
      else let kept = filter (\<lambda>l. dl_busy l \<or>
                   (case dl_idle_since l of Some t \<Rightarrow> now - t < unat ms * 1000000 | None \<Rightarrow> True))
                 (ds_lanes st) in
        st\<lparr> ds_lanes := kept, ds_idle_reaped_lanes :=
              ds_idle_reaped_lanes st + of_nat (length (ds_lanes st) - length kept) \<rparr>)"

text \<open>\<^verbatim>\<open>Vec::swap_remove\<close>: the last element takes the place of the removed one.\<close>

definition swap_remove :: "nat \<Rightarrow> 'a list \<Rightarrow> 'a list" where
  "swap_remove i xs = butlast (xs[i := last xs])"

definition direct_reap_one ::
  "TransferDirection option \<Rightarrow> DirectLaneManagerState \<Rightarrow> bool \<times> DirectLaneManagerState" where
  "direct_reap_one dir st =
     (case first_index (\<lambda>l. \<not> dl_busy l \<and> (case dir of Some d \<Rightarrow> dl_direction l = d | None \<Rightarrow> True))
             (ds_lanes st) of
        Some i \<Rightarrow> (True, st\<lparr> ds_lanes := swap_remove i (ds_lanes st),
                             ds_idle_reaped_lanes := ds_idle_reaped_lanes st + 1 \<rparr>)
      | None \<Rightarrow> (False, st))"

definition direct_lane_count :: "DirectLaneManagerState \<Rightarrow> TransferDirection \<Rightarrow> nat" where
  "direct_lane_count st dir = length (filter (\<lambda>l. dl_direction l = dir) (ds_lanes st))"

definition direct_note_wait :: "rat \<Rightarrow> DirectLaneManagerState \<Rightarrow> DirectLaneManagerState" where
  "direct_note_wait wait_us st =
     (if wait_us > 1
      then st\<lparr> ds_lane_wait_count := ds_lane_wait_count st + 1,
               ds_lane_wait_us_total := ds_lane_wait_us_total st + wait_us \<rparr>
      else st)"

definition direct_reuse ::
  "nat \<Rightarrow> int \<Rightarrow> rat \<Rightarrow> DirectLaneManagerState \<Rightarrow> DirectLaneLeaseInfo \<times> DirectLaneManagerState" where
  "direct_reuse i dev wait_us st =
     (let st = direct_note_wait wait_us (st\<lparr> ds_total_acquires := ds_total_acquires st + 1 \<rparr>);
          l = ds_lanes st ! i;
          l = l\<lparr> dl_busy := True, dl_idle_since := None, dl_acquire_count := dl_acquire_count l + 1 \<rparr>;
          reuse = saturating_sub (dl_acquire_count l) 1 in
      (\<lparr> dq_lane_id = dl_lane_id l, dq_direction = dl_direction l, dq_active_device_id = dev,
         dq_lane_wait_us = wait_us, dq_stream_id = dl_stream l, dq_event_id = dl_event l,
         dq_stream_create_count = 0, dq_event_reuse_count = reuse \<rparr>,
       st\<lparr> ds_lanes := (ds_lanes st)[i := l],
           ds_event_reuse_count := ds_event_reuse_count st + (if reuse > 0 then 1 else 0) \<rparr>))"

definition direct_create ::
  "lane_acl \<Rightarrow> TransferDirection \<Rightarrow> int \<Rightarrow> rat \<Rightarrow> DirectLaneManagerState \<Rightarrow>
     DirectLaneLeaseInfo attempt \<times> DirectLaneManagerState" where
  "direct_create a dir dev wait_us st =
     (let lid = ds_next_lane_id st;
          st = st\<lparr> ds_next_lane_id := lid + 1 \<rparr> in
      case rbind (create_stream a lid) (\<lambda>stream.
             rbind (create_event a lid 0) (\<lambda>event. Inr (stream, event))) of
        Inl e \<Rightarrow> (Refused e, st)
      | Inr (stream, event) \<Rightarrow>
          let l = \<lparr> dl_lane_id = lid, dl_direction = dir, dl_device_id = dev, dl_stream = stream,
                    dl_event = event, dl_busy = True, dl_idle_since = None, dl_acquire_count = 1 \<rparr>;
              st = direct_note_wait wait_us
                (st\<lparr> ds_lanes := ds_lanes st @ [l], ds_total_acquires := ds_total_acquires st + 1,
                     ds_stream_create_count := ds_stream_create_count st + 1,
                     ds_event_create_count := ds_event_create_count st + 1 \<rparr>) in
          (Granted \<lparr> dq_lane_id = lid, dq_direction = dir, dq_active_device_id = dev,
             dq_lane_wait_us = wait_us, dq_stream_id = stream, dq_event_id = event,
             dq_stream_create_count = 1, dq_event_reuse_count = 0 \<rparr>, st))"

definition direct_attempt ::
  "environment \<Rightarrow> lane_acl \<Rightarrow> TransferDirection \<Rightarrow> int \<Rightarrow> rat \<Rightarrow> nat \<Rightarrow> DirectLaneManagerState \<Rightarrow>
     DirectLaneLeaseInfo attempt \<times> DirectLaneManagerState" where
  "direct_attempt env a dir dev wait_us now st0 =
     (let st = direct_reap_expired env now st0 in
      case first_index (\<lambda>l. \<not> dl_busy l \<and> dl_direction l = dir \<and> dl_device_id l = dev) (ds_lanes st) of
        Some i \<Rightarrow> (let (info, st) = direct_reuse i dev wait_us st in (Granted info, st))
      | None \<Rightarrow>
          if direct_max_lanes_for env dir > 0 \<and> direct_lane_count st dir \<ge> direct_max_lanes_for env dir
          then (let (reaped, st) = direct_reap_one (Some dir) st in
                (if reaped then Again else Blocked, st))
          else direct_create a dir dev wait_us st)"

lemma length_swap_remove: "xs \<noteq> [] \<Longrightarrow> length (swap_remove i xs) < length xs"
  by (simp add: swap_remove_def)

lemma direct_attempt_Again:
  assumes "direct_attempt env a dir dev wait_us now st = (Again, st')"
  shows "length (ds_lanes st') < length (ds_lanes st)"
proof -
  have "direct_reap_one (Some dir) (direct_reap_expired env now st) = (True, st')"
    using assms
    by (auto simp: direct_attempt_def Let_def direct_create_def case_prod_beta prod_eq_iff
        split: option.splits if_splits sum.splits prod.splits)
  then have "length (ds_lanes st') < length (ds_lanes (direct_reap_expired env now st))"
    by (auto simp: direct_reap_one_def dest!: first_index_SomeD split: option.splits
        intro!: length_swap_remove)
  also have "\<dots> \<le> length (ds_lanes st)"
    by (simp add: direct_reap_expired_def Let_def)
  finally show ?thesis .
qed

function direct_acquire ::
  "environment \<Rightarrow> lane_acl \<Rightarrow> TransferDirection \<Rightarrow> int \<Rightarrow> nat \<Rightarrow> (nat \<Rightarrow> nat) \<Rightarrow> nat \<Rightarrow>
     DirectLaneManagerState \<Rightarrow> DirectLaneLeaseInfo attempt \<times> DirectLaneManagerState" where
  "direct_acquire env a dir dev t0 clk k st =
     (case direct_attempt env a dir dev (of_nat (clk k - t0) / 1000) (clk k) st of
        (Again, st') \<Rightarrow> direct_acquire env a dir dev t0 clk (Suc k) st'
      | r \<Rightarrow> r)"
  by pat_completeness auto
termination
  by (relation "measure (\<lambda>(env, a, dir, dev, t0, clk, k, st). length (ds_lanes st))")
    (auto dest: direct_attempt_Again [OF sym])

declare direct_acquire.simps [simp del]

definition direct_release :: "nat \<Rightarrow> u64 \<Rightarrow> DirectLaneManagerState \<Rightarrow> DirectLaneManagerState" where
  "direct_release now lid st =
     (case first_index (\<lambda>l. dl_lane_id l = lid) (ds_lanes st) of
        Some i \<Rightarrow>
          st\<lparr> ds_lanes := (ds_lanes st)[i := (ds_lanes st ! i)
                \<lparr> dl_busy := False, dl_idle_since := Some now \<rparr>] \<rparr>
      | None \<Rightarrow> st)"

definition direct_with_lane ::
  "environment \<Rightarrow> lane_acl \<Rightarrow> TransferDirection \<Rightarrow> int \<Rightarrow> nat \<Rightarrow> (nat \<Rightarrow> nat) \<Rightarrow> nat \<Rightarrow>
     (DirectLaneLeaseInfo \<Rightarrow> 'w \<Rightarrow> ('a result \<times> 'w) option) \<Rightarrow> DirectLaneManagerState \<times> 'w \<Rightarrow>
     ('a result \<times> DirectLaneManagerState \<times> 'w) option" where
  "direct_with_lane env a dir dev t0 clk now f x =
     (case direct_acquire env a dir dev t0 clk 0 (fst x) of
        (Granted info, st) \<Rightarrow>
          (case f info (snd x) of
             None \<Rightarrow> None
           | Some (r, w) \<Rightarrow> Some (r, direct_release now (dq_lane_id info) st, w))
      | (Refused e, st) \<Rightarrow> Some (Inl e, st, snd x)
      | _ \<Rightarrow> None)"

end
