(* ===== verification/LaneLaws.thy ===== *)
theory LaneLaws
  imports Lanes "HOL-Library.Multiset"
begin

text \<open>
  Both lane managers are lane pools, so no lane is ever lent twice; the staging lanes respect the
  configured number of lanes and amount of pinned memory, and lanes in use are never reaped.
\<close>

section \<open>Thinning a list of lanes\<close>

text \<open>Some lanes that are not in use are gone, in any order.\<close>

definition thinned :: "('l \<Rightarrow> bool) \<Rightarrow> 'l list \<Rightarrow> 'l list \<Rightarrow> bool" where
  "thinned busy xs ys \<longleftrightarrow>
     mset ys \<subseteq># mset xs \<and> filter_mset busy (mset ys) = filter_mset busy (mset xs)"

lemma thinned_refl [simp]: "thinned busy xs xs"
  by (simp add: thinned_def)

lemma thinned_trans: "thinned busy xs ys \<Longrightarrow> thinned busy ys zs \<Longrightarrow> thinned busy xs zs"
  by (auto simp: thinned_def intro: subset_mset.order_trans)

lemma thinned_filter: "(\<And>x. busy x \<Longrightarrow> P x) \<Longrightarrow> thinned busy xs (filter P xs)"
  by (auto simp: thinned_def mset_filter filter_filter_mset intro: filter_mset_cong)

lemma mset_split_at: "i < length xs \<Longrightarrow> mset xs = add_mset (xs ! i) (mset (remove_at i xs))"
  using arg_cong [OF id_take_nth_drop [of i xs], of mset] by (simp add: remove_at_def)

lemma mset_swap_remove: "i < length xs \<Longrightarrow> mset (swap_remove i xs) = mset (remove_at i xs)"
proof -
  assume i: "i < length xs"
  then have ne: "xs \<noteq> []" by auto
  define ys where "ys = xs[i := last xs]"
  have ys: "ys \<noteq> []" "length ys = length xs" using ne by (simp_all add: ys_def)
  have last: "last ys = last xs"
    using ne i by (auto simp: ys_def last_conv_nth nth_list_update)
  have "mset ys = add_mset (last xs) (mset (remove_at i xs))"
    using i by (simp add: ys_def upd_conv_take_nth_drop remove_at_def)
  moreover have "mset ys = add_mset (last ys) (mset (butlast ys))"
    using arg_cong [OF append_butlast_last_id [OF ys(1)], of mset] by simp
  ultimately show ?thesis using last by (simp add: swap_remove_def ys_def)
qed

lemma thinned_remove:
  assumes "i < length xs" and "\<not> busy (xs ! i)"
  shows "thinned busy xs (remove_at i xs)" and "thinned busy xs (swap_remove i xs)"
  using assms by (simp_all add: thinned_def mset_split_at mset_swap_remove)

lemma thinned_append:
  assumes "thinned busy xs ys"
  obtains zs where "mset xs = mset (ys @ zs)" and "filter busy zs = []"
proof -
  obtain M where M: "mset xs = mset ys + M"
    using assms by (auto simp: thinned_def mset_subset_eq_exists_conv)
  obtain zs where zs: "mset zs = M" using ex_mset by blast
  have "filter_mset busy M = {#}" using assms M by (simp add: thinned_def)
  then have "filter busy zs = []" by (metis mset_filter mset_zero_iff zs)
  with M zs show thesis by (intro that [of zs]) simp_all
qed

lemma thinned_ids:
  assumes "thinned busy xs ys" and "ids_ok n (map f xs)"
  shows "ids_ok n (map f ys)"
proof -
  obtain zs where zs: "mset xs = mset (ys @ zs)" using thinned_append [OF assms(1)] .
  then have "mset (map f xs) = mset (map f (ys @ zs))" by (metis mset_map)
  then have "distinct (map f (ys @ zs))" "set (map f xs) = set (map f (ys @ zs))"
    using assms(2) mset_eq_imp_distinct_iff mset_eq_setD unfolding ids_ok_def by blast+
  moreover have "set (map f ys) \<subseteq> set (map f (ys @ zs))" by auto
  ultimately show ?thesis using assms(2) by (auto simp: ids_ok_def list_all_iff simp del: set_map)
qed

lemma thinned_held: "thinned busy xs ys \<Longrightarrow> set (filter busy ys) = set (filter busy xs)"
  by (metis mset_filter set_mset_mset thinned_def)

lemma thinned_length_filter: "thinned busy xs ys \<Longrightarrow> length (filter P ys) \<le> length (filter P xs)"
  by (metis mset_filter multiset_filter_mono size_mset size_mset_mono thinned_def)

lemma thinned_sum:
  fixes g :: "'l \<Rightarrow> nat"
  assumes "thinned busy xs ys"
  shows "sum_list (map g ys) \<le> sum_list (map g xs)"
proof -
  obtain zs where "mset xs = mset (ys @ zs)" using thinned_append [OF assms] .
  then have "sum_list (map g xs) = sum_list (map g (ys @ zs))"
    by (metis mset_map sum_mset_sum_list)
  then show ?thesis by simp
qed

text \<open>Changing whether one lane is in use.\<close>

lemma held_update:
  assumes "i < length xs" and "distinct (map f xs)" and "f l = f (xs ! i)"
  shows "f ` set (filter busy (xs[i := l])) =
      (if busy l then insert (f l) else id) (f ` set (filter busy xs) - {f l})"
    and "\<not> busy (xs ! i) \<Longrightarrow> f l \<notin> f ` set (filter busy xs)"
proof -
  obtain ys zs where xs: "xs = ys @ xs ! i # zs" "length ys = i"
    using id_take_nth_drop [OF assms(1)] assms(1) by (metis length_take min.absorb4)
  have new: "xs[i := l] = ys @ l # zs" using xs by (metis list_update_length)
  have fresh: "f (xs ! i) \<notin> f ` set ys" "f (xs ! i) \<notin> f ` set zs"
    using assms(2) xs(1) by (metis distinct_append distinct.simps(2) list.simps(9) map_append
      disjoint_insert(1) image_set list.set(2) Int_iff insertI1 empty_iff)+
  have old: "set (filter busy xs) = set (filter busy ys) \<union> set (filter busy zs) \<union>
      (if busy (xs ! i) then {xs ! i} else {})"
    by (subst xs(1)) auto
  show "f ` set (filter busy (xs[i := l])) =
      (if busy l then insert (f l) else id) (f ` set (filter busy xs) - {f l})"
    unfolding new old using fresh assms(3) by (auto simp: image_iff)
  show "f l \<notin> f ` set (filter busy xs)" if "\<not> busy (xs ! i)"
    unfolding old using fresh assms(3) that by auto
qed

lemma map_update_same: "i < length xs \<Longrightarrow> f l = f (xs ! i) \<Longrightarrow> map f (xs[i := l]) = map f xs"
  by (simp add: map_update list_update_same_conv)

section \<open>Staging lanes\<close>

abbreviation lane_ids :: "ManagerState \<Rightarrow> u64 list" where
  "lane_ids st \<equiv> map tl_lane_id (mg_lanes st)"

definition lanes_held :: "ManagerState \<Rightarrow> u64 set" where
  "lanes_held st = tl_lane_id ` set (filter tl_busy (mg_lanes st))"

lemma lanes_held_thinned:
  "thinned tl_busy (mg_lanes st) (mg_lanes st') \<Longrightarrow> lanes_held st' = lanes_held st"
  unfolding lanes_held_def by (simp only: thinned_held)

lemma reap_lane_at_thinned:
  "i < length (mg_lanes st) \<Longrightarrow> \<not> tl_busy (mg_lanes st ! i) \<Longrightarrow>
     thinned tl_busy (mg_lanes st) (mg_lanes (reap_lane_at i st)) \<and>
     mg_next_lane_id (reap_lane_at i st) = mg_next_lane_id st"
  by (simp add: reap_lane_at_def Let_def thinned_remove)

lemma reap_from_thinned:
  "thinned tl_busy (mg_lanes st) (mg_lanes (reap_from ttl now i st)) \<and>
   mg_next_lane_id (reap_from ttl now i st) = mg_next_lane_id st"
proof (induction ttl now i st rule: reap_from.induct)
  case (1 ttl now i st)
  show ?case
  proof (cases "i < length (mg_lanes st) \<and> expired ttl now (mg_lanes st ! i)")
    case True
    then have "\<not> tl_busy (mg_lanes st ! i)" by (simp add: expired_def)
    with True 1(1) reap_lane_at_thinned [of i st] show ?thesis
      by (subst (1 2) reap_from.simps) (auto intro: thinned_trans)
  next
    case False
    with 1(2) show ?thesis by (subst (1 2) reap_from.simps) auto
  qed
qed

lemma reap_expired_thinned:
  "thinned tl_busy (mg_lanes st) (mg_lanes (reap_expired_lanes env now st)) \<and>
   mg_next_lane_id (reap_expired_lanes env now st) = mg_next_lane_id st"
  by (simp add: reap_expired_lanes_def reap_from_thinned split: option.split)

lemma reap_one_thinned:
  "reap_one_idle_lane d st = (b, st') \<Longrightarrow>
     thinned tl_busy (mg_lanes st) (mg_lanes st') \<and> mg_next_lane_id st' = mg_next_lane_id st"
  using reap_lane_at_thinned
  by (fastforce simp: reap_one_idle_lane_def dest: first_index_SomeD split: option.splits)

lemma note_wait_fields [simp]:
  "mg_lanes (note_wait w st) = mg_lanes st" "mg_next_lane_id (note_wait w st) = mg_next_lane_id st"
  by (simp_all add: note_wait_def)

lemma lane_lease_info_id [simp]: "ll_lane_id (lane_lease_info l dev w) = tl_lane_id l"
  by (simp add: lane_lease_info_def Let_def)

lemma reuse_lane_facts:
  assumes "i < length (mg_lanes st)" and "\<not> tl_busy (mg_lanes st ! i)" and "ids_ok n (lane_ids st)"
    and "reuse_lane i dev w st = (info, st')"
  shows "ll_lane_id info \<notin> lanes_held st" and "lanes_held st' = insert (ll_lane_id info) (lanes_held st)"
    and "lane_ids st' = lane_ids st" and "mg_next_lane_id st' = mg_next_lane_id st"
proof -
  define l where "l = (mg_lanes st ! i)\<lparr> tl_busy := True, tl_active_device_id := Some dev,
      tl_idle_since := None, tl_acquire_count := tl_acquire_count (mg_lanes st ! i) + 1 \<rparr>"
  have st': "mg_lanes st' = (mg_lanes st)[i := l]" "ll_lane_id info = tl_lane_id l"
    "mg_next_lane_id st' = mg_next_lane_id st"
    using assms(4) by (auto simp: reuse_lane_def Let_def l_def)
  have l: "tl_lane_id l = tl_lane_id (mg_lanes st ! i)" "tl_busy l" by (simp_all add: l_def)
  have d: "distinct (map tl_lane_id (mg_lanes st))" using assms(3) by (simp add: ids_ok_def)
  note u = held_update [OF assms(1) d l(1), of tl_busy, folded lanes_held_def]
  show "ll_lane_id info \<notin> lanes_held st" using u(2) assms(2) st'(2) by simp
  show "lanes_held st' = insert (ll_lane_id info) (lanes_held st)"
    using u l(2) assms(2) st' by (simp add: lanes_held_def)
  show "lane_ids st' = lane_ids st" unfolding st' by (rule map_update_same [OF assms(1) l(1)])
  show "mg_next_lane_id st' = mg_next_lane_id st" by (rule st'(3))
qed

lemma create_lane_facts:
  assumes "create_lane a dir dev n k w st = (r, st')"
  shows "mg_next_lane_id st' = mg_next_lane_id st + 1"
    and "case r of Granted info \<Rightarrow>
           (\<exists>l. mg_lanes st' = mg_lanes st @ [l] \<and> tl_lane_id l = mg_next_lane_id st \<and> tl_busy l \<and>
              tl_direction l = dir \<and> ll_lane_id info = tl_lane_id l \<and>
              (\<exists>cs. make_chunks a (mg_next_lane_id st) n 0 k = Inr cs \<and> tl_chunks l = map fst cs))
       | _ \<Rightarrow> mg_lanes st' = mg_lanes st"
  using assms by (auto simp: create_lane_def Let_def rbind_def split: sum.splits)

text \<open>What one pass, and the whole loop, does to the pool.\<close>

definition pool_step :: "ManagerState \<Rightarrow> LaneLeaseInfo attempt \<Rightarrow> ManagerState \<Rightarrow> bool" where
  "pool_step st r st' \<longleftrightarrow>
     ids_ok (mg_next_lane_id st') (lane_ids st') \<and>
     unat (mg_next_lane_id st') \<le> unat (mg_next_lane_id st) + 1 \<and>
     (case r of
        Granted info \<Rightarrow> ll_lane_id info \<notin> lanes_held st \<and>
          lanes_held st' = insert (ll_lane_id info) (lanes_held st)
      | _ \<Rightarrow> lanes_held st' = lanes_held st) \<and>
     (r = Again \<longrightarrow> mg_next_lane_id st' = mg_next_lane_id st)"

lemma pool_step_thinned:
  assumes "ids_ok (mg_next_lane_id st) (lane_ids st)" and "thinned tl_busy (mg_lanes st) (mg_lanes st')"
    and "mg_next_lane_id st' = mg_next_lane_id st" and "\<And>info. r \<noteq> Granted info"
  shows "pool_step st r st'"
  using assms(3,4) thinned_ids [OF assms(2,1)] lanes_held_thinned [OF assms(2)]
  by (cases r) (auto simp: pool_step_def)

lemma pool_step_create:
  assumes ids: "ids_ok (mg_next_lane_id st) (lane_ids st)" and max: "mg_next_lane_id st \<noteq> u64_max"
    and t: "thinned tl_busy (mg_lanes st) (mg_lanes st1)" "mg_next_lane_id st1 = mg_next_lane_id st"
    and c: "create_lane a dir dev n k w st1 = (r, st')"
  shows "pool_step st r st'"
proof -
  note f = create_lane_facts [OF c]
  note held1 = lanes_held_thinned [OF t(1)] and add = ids_ok_add [OF thinned_ids [OF t(1) ids] max]
  have le: "unat (mg_next_lane_id st') \<le> unat (mg_next_lane_id st) + 1"
    using f(1) t(2) unat_inc_u64 [OF max] by simp
  have settled: "r \<noteq> Again" using create_lane_settles c by (metis fst_conv)
  show ?thesis
  proof (cases r)
    case (Granted info)
    with f(2) obtain l where l: "mg_lanes st' = mg_lanes st1 @ [l]" "tl_lane_id l = mg_next_lane_id st"
      "tl_busy l" "ll_lane_id info = mg_next_lane_id st" by (auto simp: t(2))
    have "mg_next_lane_id st \<notin> lanes_held st" using ids_ok_fresh [OF ids] by (auto simp: lanes_held_def)
    moreover have "lanes_held st' = insert (mg_next_lane_id st) (lanes_held st1)"
      using l by (auto simp: lanes_held_def)
    ultimately show ?thesis using Granted l le add(1) held1 f(1) t(2) by (simp add: pool_step_def)
  qed (use f t le add(2) held1 settled in \<open>simp_all add: pool_step_def lanes_held_def\<close>)
qed

lemma attempt_pool:
  assumes "ids_ok (mg_next_lane_id st) (lane_ids st)" and "mg_next_lane_id st \<noteq> u64_max"
    and "acquire_attempt env a dir dev hint w now st = (r, st')"
  shows "pool_step st r st'"
  using assms(3)
proof (cases rule: acquire_attempt_cases)
  case (reuse i n)
  obtain info st1 where e: "reuse_lane i dev w st = (info, st1)" by fastforce
  have i: "i < length (mg_lanes st)" "\<not> tl_busy (mg_lanes st ! i)"
    using first_index_SomeD [OF reuse(1)] by auto
  from reuse_lane_facts [OF i assms(1) e] reuse(2,3) e assms(1) show ?thesis
    by (simp add: pool_step_def)
next
  case (sweep d reaped)
  have "thinned tl_busy (mg_lanes st) (mg_lanes st')" "mg_next_lane_id st' = mg_next_lane_id st"
    using reap_one_thinned [OF sweep(1)] reap_expired_thinned [of st env now] by (auto intro: thinned_trans)
  then show ?thesis by (rule pool_step_thinned [OF assms(1)]) (simp add: sweep(2))
next
  case (create n required)
  from pool_step_create [OF assms(1,2) _ _ create(1)] reap_expired_thinned [of st env now]
  show ?thesis by blast
qed (use assms(1) reap_expired_thinned [of st env now] in \<open>auto intro!: pool_step_thinned\<close>)

lemma acquire_pool:
  assumes "ids_ok (mg_next_lane_id st) (lane_ids st)" and "mg_next_lane_id st \<noteq> u64_max"
    and "acquire env a dir dev hint t0 clk k st = (r, st')"
  shows "pool_step st r st'"
  using assms
proof (induction env a dir dev hint t0 clk k st rule: acquire.induct)
  case (1 env a dir dev hint t0 clk k st)
  obtain r1 st1 where one: "acquire_attempt env a dir dev hint (of_nat (clk k - t0) / 1000) (clk k) st = (r1, st1)"
    by fastforce
  note p = attempt_pool [OF "1.prems"(1,2) one]
  show ?case
  proof (cases "r1 = Again")
    case True
    have eq: "acquire env a dir dev hint t0 clk (Suc k) st1 = (r, st')"
      using "1.prems"(3) one True by (simp add: acquire.simps [of env a dir dev hint t0 clk k st])
    have ids1: "ids_ok (mg_next_lane_id st1) (lane_ids st1)" "mg_next_lane_id st1 \<noteq> u64_max"
      using p True "1.prems"(2) by (auto simp: pool_step_def)
    have "pool_step st1 r st'" by (rule "1.IH" [OF one [symmetric] True ids1 eq])
    with p True show ?thesis by (auto simp: pool_step_def split: attempt.splits)
  next
    case False
    with "1.prems"(3) one p show ?thesis
      by (cases r1) (auto simp: acquire.simps [of env a dir dev hint t0 clk k st])
  qed
qed

lemma release_pool:
  "lane_ids (release now l st) = lane_ids st" "mg_next_lane_id (release now l st) = mg_next_lane_id st"
  "ids_ok n (lane_ids st) \<Longrightarrow> lanes_held (release now l st) = lanes_held st - {l}"
proof -
  show "lane_ids (release now l st) = lane_ids st"
    by (auto simp: release_def split: option.split dest!: first_index_SomeD intro!: map_update_same)
  show "mg_next_lane_id (release now l st) = mg_next_lane_id st"
    by (simp add: release_def split: option.split)
  assume ids: "ids_ok n (lane_ids st)"
  show "lanes_held (release now l st) = lanes_held st - {l}"
  proof (cases "first_index (\<lambda>x. tl_lane_id x = l) (mg_lanes st)")
    case None
    then have "l \<notin> lanes_held st" by (auto simp: lanes_held_def dest: first_index_NoneD)
    with None show ?thesis by (simp add: release_def)
  next
    case (Some i)
    have i: "i < length (mg_lanes st)" "tl_lane_id (mg_lanes st ! i) = l"
      using first_index_SomeD [OF Some] by auto
    have d: "distinct (map tl_lane_id (mg_lanes st))" using ids by (simp add: ids_ok_def)
    have "tl_lane_id ` set (filter tl_busy ((mg_lanes st)[i := (mg_lanes st ! i)
        \<lparr> tl_busy := False, tl_active_device_id := None, tl_idle_since := Some now \<rparr>])) = lanes_held st - {l}"
      using held_update(1) [OF i(1) d, of "(mg_lanes st ! i)
        \<lparr> tl_busy := False, tl_active_device_id := None, tl_idle_since := Some now \<rparr>" tl_busy] i(2) by (simp add: lanes_held_def)
    with Some show ?thesis by (simp add: release_def lanes_held_def)
  qed
qed

text \<open>The manager of the staging lanes is a lane pool.\<close>

definition channel_ask ::
  "environment \<Rightarrow> lane_acl \<Rightarrow> TransferDirection \<times> int \<times> u64 \<times> nat \<times> (nat \<Rightarrow> nat) \<Rightarrow> ManagerState \<Rightarrow>
     LaneLeaseInfo attempt \<times> ManagerState" where
  "channel_ask env a q st = (case q of (dir, dev, hint, t0, clk) \<Rightarrow> acquire env a dir dev hint t0 clk 0 st)"

interpretation channel: lane_pool lane_ids lanes_held mg_next_lane_id "channel_ask env a" ll_lane_id release
  for env a
proof unfold_locales
  fix s s' :: ManagerState and q r
  assume ids: "ids_ok (mg_next_lane_id s) (lane_ids s)" and max: "mg_next_lane_id s \<noteq> u64_max"
    and eq: "channel_ask env a q s = (r, s')"
  obtain dir dev hint t0 clk where q: "q = (dir, dev, hint, t0, clk)" by (cases q)
  from acquire_pool [OF ids max] eq show "ids_ok (mg_next_lane_id s') (lane_ids s') \<and>
      unat (mg_next_lane_id s') \<le> unat (mg_next_lane_id s) + 1 \<and>
      (case r of Granted i \<Rightarrow> ll_lane_id i \<notin> lanes_held s \<and> lanes_held s' = insert (ll_lane_id i) (lanes_held s)
       | _ \<Rightarrow> lanes_held s' = lanes_held s)"
    by (simp add: channel_ask_def q pool_step_def)
qed (simp_all add: release_pool)

section \<open>Direct lanes\<close>

abbreviation direct_ids :: "DirectLaneManagerState \<Rightarrow> u64 list" where
  "direct_ids st \<equiv> map dl_lane_id (ds_lanes st)"

definition direct_held :: "DirectLaneManagerState \<Rightarrow> u64 set" where
  "direct_held st = dl_lane_id ` set (filter dl_busy (ds_lanes st))"

lemma direct_held_thinned:
  "thinned dl_busy (ds_lanes st) (ds_lanes st') \<Longrightarrow> direct_held st' = direct_held st"
  unfolding direct_held_def by (simp only: thinned_held)

definition direct_step ::
  "DirectLaneManagerState \<Rightarrow> DirectLaneLeaseInfo attempt \<Rightarrow> DirectLaneManagerState \<Rightarrow> bool" where
  "direct_step st r st' \<longleftrightarrow>
     ids_ok (ds_next_lane_id st') (direct_ids st') \<and>
     unat (ds_next_lane_id st') \<le> unat (ds_next_lane_id st) + 1 \<and>
     (case r of
        Granted info \<Rightarrow> dq_lane_id info \<notin> direct_held st \<and>
          direct_held st' = insert (dq_lane_id info) (direct_held st)
      | _ \<Rightarrow> direct_held st' = direct_held st) \<and>
     (r = Again \<longrightarrow> ds_next_lane_id st' = ds_next_lane_id st)"

lemma direct_note_wait_fields [simp]:
  "ds_lanes (direct_note_wait w st) = ds_lanes st"
  "ds_next_lane_id (direct_note_wait w st) = ds_next_lane_id st"
  by (simp_all add: direct_note_wait_def)

lemma direct_reap_expired_thinned:
  "thinned dl_busy (ds_lanes st) (ds_lanes (direct_reap_expired env now st)) \<and>
   ds_next_lane_id (direct_reap_expired env now st) = ds_next_lane_id st"
  by (simp add: direct_reap_expired_def Let_def thinned_filter)

lemma direct_reap_one_thinned:
  "direct_reap_one d st = (b, st') \<Longrightarrow>
     thinned dl_busy (ds_lanes st) (ds_lanes st') \<and> ds_next_lane_id st' = ds_next_lane_id st"
  using thinned_remove(2) [where busy = dl_busy and xs = "ds_lanes st"]
  by (auto simp: direct_reap_one_def dest!: first_index_SomeD split: option.splits)

lemma direct_step_thinned:
  assumes "ids_ok (ds_next_lane_id st) (direct_ids st)" and "thinned dl_busy (ds_lanes st) (ds_lanes st')"
    and "ds_next_lane_id st' = ds_next_lane_id st" and "\<And>info. r \<noteq> Granted info"
  shows "direct_step st r st'"
  using assms(3,4) thinned_ids [OF assms(2,1)] direct_held_thinned [OF assms(2)]
  by (cases r) (auto simp: direct_step_def)

text \<open>A step after reaping is a step.\<close>

lemma direct_step_after:
  assumes "thinned dl_busy (ds_lanes st) (ds_lanes st1)" and "ds_next_lane_id st1 = ds_next_lane_id st"
    and "direct_step st1 r st'"
  shows "direct_step st r st'"
  using assms(2,3) direct_held_thinned [OF assms(1)] by (cases r) (auto simp: direct_step_def)

lemma direct_step_reuse:
  assumes i: "i < length (ds_lanes st)" "\<not> dl_busy (ds_lanes st ! i)"
    and ids: "ids_ok (ds_next_lane_id st) (direct_ids st)"
    and e: "direct_reuse i dev w st = (info, st')"
  shows "direct_step st (Granted info) st'"
proof -
  define l where "l = (ds_lanes st ! i)\<lparr> dl_busy := True, dl_idle_since := None,
      dl_acquire_count := dl_acquire_count (ds_lanes st ! i) + 1 \<rparr>"
  have st': "ds_lanes st' = (ds_lanes st)[i := l]" "dq_lane_id info = dl_lane_id l"
    "ds_next_lane_id st' = ds_next_lane_id st"
    using e by (auto simp: direct_reuse_def Let_def l_def)
  have l: "dl_lane_id l = dl_lane_id (ds_lanes st ! i)" "dl_busy l" by (simp_all add: l_def)
  have d: "distinct (map dl_lane_id (ds_lanes st))" using ids by (simp add: ids_ok_def)
  note u = held_update [OF i(1) d l(1), of dl_busy, folded direct_held_def]
  have "direct_held st' = insert (dl_lane_id l) (direct_held st)" "dl_lane_id l \<notin> direct_held st"
    using u l(2) i(2) st'(1) by (simp_all add: direct_held_def)
  moreover have "direct_ids st' = direct_ids st"
    unfolding st'(1) by (rule map_update_same [OF i(1) l(1)])
  ultimately show ?thesis using ids st'(2,3) by (simp add: direct_step_def)
qed

lemma direct_step_create:
  assumes ids: "ids_ok (ds_next_lane_id st) (direct_ids st)" and max: "ds_next_lane_id st \<noteq> u64_max"
    and c: "direct_create a dir dev w st = (r, st')"
  shows "direct_step st r st'"
proof -
  note add = ids_ok_add [OF ids max]
  have nxt: "ds_next_lane_id st' = ds_next_lane_id st + 1"
    using c by (auto simp: direct_create_def Let_def rbind_def split: sum.splits)
  have le: "unat (ds_next_lane_id st') \<le> unat (ds_next_lane_id st) + 1"
    using nxt unat_inc_u64 [OF max] by simp
  have fresh: "ds_next_lane_id st \<notin> direct_held st"
    using ids_ok_fresh [OF ids] by (auto simp: direct_held_def)
  consider (refused) e where "r = Refused e" "ds_lanes st' = ds_lanes st"
    | (granted) info l where "r = Granted info" "ds_lanes st' = ds_lanes st @ [l]" "dl_busy l"
        "dl_lane_id l = ds_next_lane_id st" "dq_lane_id info = ds_next_lane_id st"
    using c by (auto simp: direct_create_def Let_def rbind_def split: sum.splits)
  then show ?thesis
  proof cases
    case refused
    then show ?thesis using add(2) le nxt by (simp add: direct_step_def direct_held_def)
  next
    case granted
    have "direct_held st' = insert (ds_next_lane_id st) (direct_held st)"
      using granted by (auto simp: direct_held_def)
    with granted show ?thesis using add(1) le nxt fresh by (simp add: direct_step_def)
  qed
qed

lemma direct_attempt_pool:
  assumes "ids_ok (ds_next_lane_id st) (direct_ids st)" and "ds_next_lane_id st \<noteq> u64_max"
    and "direct_attempt env a dir dev w now st = (r, st')"
  shows "direct_step st r st'"
proof -
  define st1 where "st1 = direct_reap_expired env now st"
  have t: "thinned dl_busy (ds_lanes st) (ds_lanes st1)" "ds_next_lane_id st1 = ds_next_lane_id st"
    using direct_reap_expired_thinned [of st env now] by (simp_all add: st1_def)
  have ids1: "ids_ok (ds_next_lane_id st1) (direct_ids st1)"
    using thinned_ids [OF t(1) assms(1)] t(2) by simp
  have max1: "ds_next_lane_id st1 \<noteq> u64_max" using assms(2) t(2) by simp
  note eq = assms(3) [unfolded direct_attempt_def Let_def, folded st1_def]
  have "direct_step st1 r st'"
  proof (cases "first_index (\<lambda>l. \<not> dl_busy l \<and> dl_direction l = dir \<and> dl_device_id l = dev) (ds_lanes st1)")
    case (Some i)
    obtain info st2 where e: "direct_reuse i dev w st1 = (info, st2)" by fastforce
    have "direct_step st1 (Granted info) st2"
      using direct_step_reuse [OF _ _ ids1 e] first_index_SomeD [OF Some] by blast
    with Some e eq show ?thesis by simp
  next
    case none: None
    show ?thesis
    proof (cases "direct_max_lanes_for env dir > 0 \<and> direct_lane_count st1 dir \<ge> direct_max_lanes_for env dir")
      case True
      obtain b st2 where e: "direct_reap_one (Some dir) st1 = (b, st2)" by fastforce
      have "r = (if b then Again else Blocked)" "st' = st2" using none True e eq by auto
      then show ?thesis
        using direct_step_thinned [OF ids1, of st'] direct_reap_one_thinned [OF e] by simp
    next
      case False
      with none eq have "direct_create a dir dev w st1 = (r, st')" by auto
      then show ?thesis by (rule direct_step_create [OF ids1 max1])
    qed
  qed
  with t show ?thesis by (rule direct_step_after)
qed

lemma direct_acquire_pool:
  assumes "ids_ok (ds_next_lane_id st) (direct_ids st)" and "ds_next_lane_id st \<noteq> u64_max"
    and "direct_acquire env a dir dev t0 clk k st = (r, st')"
  shows "direct_step st r st'"
  using assms
proof (induction env a dir dev t0 clk k st rule: direct_acquire.induct)
  case (1 env a dir dev t0 clk k st)
  obtain r1 st1 where one: "direct_attempt env a dir dev (of_nat (clk k - t0) / 1000) (clk k) st = (r1, st1)"
    by fastforce
  note p = direct_attempt_pool [OF "1.prems"(1,2) one]
  show ?case
  proof (cases "r1 = Again")
    case True
    have eq: "direct_acquire env a dir dev t0 clk (Suc k) st1 = (r, st')"
      using "1.prems"(3) one True by (simp add: direct_acquire.simps [of env a dir dev t0 clk k st])
    have ids1: "ids_ok (ds_next_lane_id st1) (direct_ids st1)" "ds_next_lane_id st1 \<noteq> u64_max"
      using p True "1.prems"(2) by (auto simp: direct_step_def)
    have "direct_step st1 r st'" by (rule "1.IH" [OF one [symmetric] True ids1 eq])
    with p True show ?thesis by (auto simp: direct_step_def split: attempt.splits)
  next
    case False
    with "1.prems"(3) one p show ?thesis
      by (cases r1) (auto simp: direct_acquire.simps [of env a dir dev t0 clk k st])
  qed
qed

lemma direct_release_pool:
  "direct_ids (direct_release now l st) = direct_ids st"
  "ds_next_lane_id (direct_release now l st) = ds_next_lane_id st"
  "ids_ok n (direct_ids st) \<Longrightarrow> direct_held (direct_release now l st) = direct_held st - {l}"
proof -
  show "direct_ids (direct_release now l st) = direct_ids st"
    by (auto simp: direct_release_def split: option.split dest!: first_index_SomeD intro!: map_update_same)
  show "ds_next_lane_id (direct_release now l st) = ds_next_lane_id st"
    by (simp add: direct_release_def split: option.split)
  assume ids: "ids_ok n (direct_ids st)"
  show "direct_held (direct_release now l st) = direct_held st - {l}"
  proof (cases "first_index (\<lambda>x. dl_lane_id x = l) (ds_lanes st)")
    case None
    then have "l \<notin> direct_held st" by (auto simp: direct_held_def dest: first_index_NoneD)
    with None show ?thesis by (simp add: direct_release_def)
  next
    case (Some i)
    have i: "i < length (ds_lanes st)" "dl_lane_id (ds_lanes st ! i) = l"
      using first_index_SomeD [OF Some] by auto
    have d: "distinct (map dl_lane_id (ds_lanes st))" using ids by (simp add: ids_ok_def)
    show ?thesis
      using held_update(1) [OF i(1) d, of "(ds_lanes st ! i)\<lparr> dl_busy := False, dl_idle_since := Some now \<rparr>" dl_busy]
        i(2) Some by (simp add: direct_release_def direct_held_def)
  qed
qed

definition direct_ask ::
  "environment \<Rightarrow> lane_acl \<Rightarrow> TransferDirection \<times> int \<times> nat \<times> (nat \<Rightarrow> nat) \<Rightarrow> DirectLaneManagerState \<Rightarrow>
     DirectLaneLeaseInfo attempt \<times> DirectLaneManagerState" where
  "direct_ask env a q st = (case q of (dir, dev, t0, clk) \<Rightarrow> direct_acquire env a dir dev t0 clk 0 st)"

interpretation direct: lane_pool direct_ids direct_held ds_next_lane_id "direct_ask env a" dq_lane_id direct_release
  for env a
proof unfold_locales
  fix s s' :: DirectLaneManagerState and q r
  assume ids: "ids_ok (ds_next_lane_id s) (direct_ids s)" and max: "ds_next_lane_id s \<noteq> u64_max"
    and eq: "direct_ask env a q s = (r, s')"
  obtain dir dev t0 clk where q: "q = (dir, dev, t0, clk)" by (cases q)
  from direct_acquire_pool [OF ids max] eq show "ids_ok (ds_next_lane_id s') (direct_ids s') \<and>
      unat (ds_next_lane_id s') \<le> unat (ds_next_lane_id s) + 1 \<and>
      (case r of Granted i \<Rightarrow> dq_lane_id i \<notin> direct_held s \<and> direct_held s' = insert (dq_lane_id i) (direct_held s)
       | _ \<Rightarrow> direct_held s' = direct_held s)"
    by (simp add: direct_ask_def q direct_step_def)
qed (simp_all add: direct_release_pool)

section \<open>Exclusive lanes\<close>

text \<open>
  C20. A staging lane is never lent to two transfers: from the empty manager, whatever sequence of
  requests and returns the transfers make, the lanes that are out are pairwise different and are
  exactly the lanes marked busy.
\<close>

theorem staging_lane_exclusive:
  assumes "length evs < 2 ^ 64 - 1"
    and "lease_run (channel_ask env a) ll_lane_id release evs (manager_new, []) = (st, out)"
  shows "distinct out \<and> set out = tl_lane_id ` set (filter tl_busy (mg_lanes st))"
  using channel.lease_run_exclusive [of manager_new evs "[]" env a st out] assms
  by (simp add: manager_new_def ids_ok_def lanes_held_def)

text \<open>
  A direct lane is never lent to two transfers either, although idle lanes are swapped out of
  the middle of the table.
\<close>

theorem direct_lane_exclusive:
  assumes "length evs < 2 ^ 64 - 1"
    and "lease_run (direct_ask env a) dq_lane_id direct_release evs (direct_manager_new, []) = (st, out)"
  shows "distinct out \<and> set out = dl_lane_id ` set (filter dl_busy (ds_lanes st))"
  using direct.lease_run_exclusive [of direct_manager_new evs "[]" env a st out] assms
  by (simp add: direct_manager_new_def ids_ok_def direct_held_def)

definition demo_lane_acl :: lane_acl where
  "demo_lane_acl = \<lparr> la_create_stream = Inr, la_malloc_pinned_host = (\<lambda>l i n. Inr \<lparr> ph_ptr = 4096, ph_bytes = n \<rparr>),
     la_create_event = (\<lambda>l i. Inr (of_nat i)) \<rparr>"

text \<open>With nothing set in the environment and every lane busy, an acquisition creates a lane.\<close>

lemma default_settings:
  "chunk_bytes_for (\<lambda>_. None) H2D = 16777216" "chunk_count (\<lambda>_. None) = 2" "max_lanes_for (\<lambda>_. None) H2D = 0"
  "max_pinned_bytes (\<lambda>_. None) = 0"
  by (simp_all add: chunk_bytes_for_def chunk_count_def env_positive_def env_u64_def env_usize_def max_lanes_for_def
      max_pinned_bytes_def or_else_def)

lemma first_index_None: "\<forall>x \<in> set xs. \<not> P x \<Longrightarrow> first_index P xs = None"
  by (induction xs) auto

lemma reap_from_busy: "list_all tl_busy (mg_lanes st) \<Longrightarrow> reap_from ttl now i st = st"
  by (induction ttl now i st rule: reap_from.induct) (subst reap_from.simps, auto simp: expired_def list_all_length)

lemma attempt_all_busy:
  assumes "list_all tl_busy (mg_lanes st)"
  shows "acquire_attempt (\<lambda>_. None) a H2D dev 64 w now st = create_lane a H2D dev 64 2 w st"
proof -
  have "first_index (\<lambda>l. \<not> tl_busy l \<and> tl_direction l = H2D \<and> tl_chunk_bytes l = 64) (mg_lanes st) = None"
    using assms by (intro first_index_None) (auto simp: list_all_iff)
  then show ?thesis
    using reap_from_busy [OF assms]
    by (simp add: acquire_attempt_def default_settings checked_mul_def reap_expired_lanes_def Let_def split: option.split)
qed

lemma demo_ask:
  assumes "list_all tl_busy (mg_lanes st)"
  obtains i st' where "channel_ask (\<lambda>_. None) demo_lane_acl (H2D, dev, 64, t0, clk) st = (Granted i, st')"
    "ll_lane_id i = mg_next_lane_id st" "mg_next_lane_id st' = mg_next_lane_id st + 1" "list_all tl_busy (mg_lanes st')"
proof -
  have "\<exists>i st'. create_lane demo_lane_acl H2D dev 64 2 w st = (Granted i, st') \<and> ll_lane_id i = mg_next_lane_id st \<and>
      mg_next_lane_id st' = mg_next_lane_id st + 1 \<and> list_all tl_busy (mg_lanes st')" for w
    using assms by (simp add: create_lane_def numeral_2_eq_2 demo_lane_acl_def create_stream_def malloc_pinned_host_def
        create_event_def acl_check_def lane_lease_info_def note_wait_def Let_def)
  from this [of "of_nat (clk 0 - t0) / 1000"] show thesis
    using that attempt_all_busy [OF assms] by (auto simp: channel_ask_def acquire.simps)
qed

definition demo_asks :: "(TransferDirection \<times> int \<times> u64 \<times> nat \<times> (nat \<Rightarrow> nat)) lane_event list" where
  "demo_asks = [Ask (H2D, 0, 64, 0, \<lambda>k. k), Ask (H2D, 1, 64, 0, \<lambda>k. k), GiveBack 1 5]"

lemma demo_lease_run:
  "snd (lease_run (channel_ask (\<lambda>_. None) demo_lane_acl) ll_lane_id release demo_asks (manager_new, [])) = [2]"
proof -
  have new: "list_all tl_busy (mg_lanes manager_new)" "mg_next_lane_id manager_new = 1" by (simp_all add: manager_new_def)
  obtain i st where
    a: "channel_ask (\<lambda>_. None) demo_lane_acl (H2D, 0, 64, 0, \<lambda>k. k) manager_new = (Granted i, st)"
      "ll_lane_id i = 1" "mg_next_lane_id st = 2" "list_all tl_busy (mg_lanes st)"
    by (rule demo_ask [OF new(1), of 0 0 "\<lambda>k. k"]) (simp add: new(2))
  obtain j st' where
    "channel_ask (\<lambda>_. None) demo_lane_acl (H2D, 1, 64, 0, \<lambda>k. k) st = (Granted j, st')" "ll_lane_id j = 2"
    by (rule demo_ask [OF a(4), of 1 0 "\<lambda>k. k"]) (simp add: a(3))
  then show ?thesis using a by (simp add: demo_asks_def)
qed

theorem staging_lane_exclusive_witness:
  "distinct (snd (lease_run (channel_ask (\<lambda>_. None) demo_lane_acl) ll_lane_id release demo_asks (manager_new, []))) \<and>
   snd (lease_run (channel_ask (\<lambda>_. None) demo_lane_acl) ll_lane_id release demo_asks (manager_new, [])) = [2]"
proof -
  let ?x = "lease_run (channel_ask (\<lambda>_. None) demo_lane_acl) ll_lane_id release demo_asks (manager_new, [])"
  have "length demo_asks < 2 ^ 64 - 1" by (simp add: demo_asks_def)
  from staging_lane_exclusive [OF this, of "\<lambda>_. None" demo_lane_acl "fst ?x" "snd ?x"]
  have "distinct (snd ?x)" by simp
  then show ?thesis using demo_lease_run by simp
qed

section \<open>Limits\<close>

text \<open>The pinned memory of a lane, without wrap-around, and the configured limits.\<close>

definition lane_bytes :: "TransferLane \<Rightarrow> nat" where
  "lane_bytes l = sum_list (map (\<lambda>c. unat (ph_bytes c)) (tl_chunks l))"

definition within_limits :: "environment \<Rightarrow> ManagerState \<Rightarrow> bool" where
  "within_limits env st \<longleftrightarrow>
     (\<forall>dir. max_lanes_for env dir > 0 \<longrightarrow> direction_lane_count st dir \<le> max_lanes_for env dir) \<and>
     (max_pinned_bytes env > 0 \<longrightarrow> sum_list (map lane_bytes (mg_lanes st)) \<le> unat (max_pinned_bytes env))"

text \<open>
  The runtime allocates what was asked, and one lane more than the budget still fits 64 bits: the
  code adds the two without checking.
\<close>

definition malloc_exact :: "lane_acl \<Rightarrow> bool" where
  "malloc_exact a \<longleftrightarrow> (\<forall>l i n c. la_malloc_pinned_host a l i n = Inr c \<longrightarrow> ph_bytes c = n)"

definition sizes_fit :: "environment \<Rightarrow> bool" where
  "sizes_fit env \<longleftrightarrow>
     (\<forall>dir. unat (chunk_bytes_for env dir) * chunk_count env + unat (max_pinned_bytes env) < 2 ^ 64)"

lemma unat_pinned_total:
  assumes "sum_list (map lane_bytes (mg_lanes st)) < 2 ^ 64"
  shows "unat (pinned_total_bytes st) = sum_list (map lane_bytes (mg_lanes st))"
proof -
  have "unat (footprint_bytes l) = lane_bytes l" if "l \<in> set (mg_lanes st)" for l
  proof -
    have "lane_bytes l < 2 ^ 64"
      using assms member_le_sum_list [of "lane_bytes l" "map lane_bytes (mg_lanes st)"] that by simp
    then show ?thesis by (simp add: footprint_bytes_def lane_bytes_def unat_sum_list_u64)
  qed
  then have eq: "map (\<lambda>l. unat (footprint_bytes l)) (mg_lanes st) = map lane_bytes (mg_lanes st)"
    by (intro map_cong refl)
  show ?thesis
    using unat_sum_list_u64 [of footprint_bytes "mg_lanes st", unfolded eq, OF assms]
    by (simp only: pinned_total_bytes_def)
qed

lemma make_chunks_bytes:
  "malloc_exact a \<Longrightarrow> make_chunks a l n i k = Inr cs \<Longrightarrow>
     sum_list (map (\<lambda>c. unat (ph_bytes c)) (map fst cs)) = k * unat n"
  by (induction a l n i k arbitrary: cs rule: make_chunks.induct)
    (auto simp: rbind_def malloc_exact_def malloc_pinned_host_def acl_check_def split: sum.splits)

lemma within_limits_thinned:
  assumes "within_limits env st" and "thinned tl_busy (mg_lanes st) (mg_lanes st')"
  shows "within_limits env st'"
proof -
  have "direction_lane_count st' dir \<le> direction_lane_count st dir" for dir
    unfolding direction_lane_count_def by (rule thinned_length_filter [OF assms(2)])
  then show ?thesis
    using assms(1) thinned_sum [OF assms(2), of lane_bytes]
    unfolding within_limits_def by (meson order_trans)
qed

text \<open>Lending out a lane that exists changes no size.\<close>

lemma within_limits_update:
  assumes "within_limits env st" and "i < length (mg_lanes st)" and "mg_lanes st' = (mg_lanes st)[i := l]"
    and "tl_direction l = tl_direction (mg_lanes st ! i)" and "lane_bytes l = lane_bytes (mg_lanes st ! i)"
  shows "within_limits env st'"
proof -
  have "map tl_direction (mg_lanes st') = map tl_direction (mg_lanes st)"
    unfolding assms(3) by (rule map_update_same [OF assms(2,4)])
  moreover have count: "direction_lane_count s dir = length (filter (\<lambda>d. d = dir) (map tl_direction (mg_lanes s)))"
    for s dir by (simp add: direction_lane_count_def filter_map comp_def)
  ultimately have "direction_lane_count st' dir = direction_lane_count st dir" for dir
    by (simp only: count)
  moreover have "map lane_bytes (mg_lanes st') = map lane_bytes (mg_lanes st)"
    unfolding assms(3) by (rule map_update_same [OF assms(2,5)])
  ultimately show ?thesis using assms(1) by (simp add: within_limits_def)
qed

lemma within_limits_create:
  assumes lim: "within_limits env st1" and ex: "malloc_exact a" and fit: "sizes_fit env"
    and c: "create_lane a dir dev n (chunk_count env) w st1 = (r, st')"
    and req: "checked_mul n (of_nat (chunk_count env)) = Some required" "n \<le> chunk_bytes_for env dir"
    and lanes: "max_lanes_for env dir = 0 \<or> direction_lane_count st1 dir < max_lanes_for env dir"
    and budget: "max_pinned_bytes env = 0 \<or> pinned_total_bytes st1 + required \<le> max_pinned_bytes env"
  shows "within_limits env st'"
proof (cases "mg_lanes st' = mg_lanes st1")
  case True
  then show ?thesis using lim by (simp add: within_limits_def direction_lane_count_def)
next
  case False
  with create_lane_facts(2) [OF c] obtain l cs where l: "mg_lanes st' = mg_lanes st1 @ [l]"
      "tl_direction l = dir" "tl_chunks l = map fst cs"
      "make_chunks a (mg_next_lane_id st1) n 0 (chunk_count env) = Inr cs"
    by (auto split: attempt.splits)
  have bytes: "lane_bytes l = chunk_count env * unat n"
    using make_chunks_bytes [OF ex l(4)] l(3) by (simp add: lane_bytes_def)
  have "direction_lane_count st' d = direction_lane_count st1 d + (if d = dir then 1 else 0)" for d
    using l(1,2) by (auto simp: direction_lane_count_def)
  then have "\<forall>d. max_lanes_for env d > 0 \<longrightarrow> direction_lane_count st' d \<le> max_lanes_for env d"
    using lim lanes by (auto simp: within_limits_def)
  moreover have "sum_list (map lane_bytes (mg_lanes st')) \<le> unat (max_pinned_bytes env)"
    if pos: "max_pinned_bytes env > 0"
  proof -
    have "chunk_count env * unat n \<le> unat (chunk_bytes_for env dir) * chunk_count env"
      using req(2) by (simp add: word_le_nat_alt mult.commute)
    then have small: "chunk_count env * unat n + unat (max_pinned_bytes env) < 2 ^ 64"
      using fit unfolding sizes_fit_def by (meson add_le_mono1 order.strict_trans1)
    have total: "sum_list (map lane_bytes (mg_lanes st1)) \<le> unat (max_pinned_bytes env)"
      using lim pos by (simp add: within_limits_def)
    then have tot: "unat (pinned_total_bytes st1) = sum_list (map lane_bytes (mg_lanes st1))"
      using unat_less_u64 [of "max_pinned_bytes env"] by (intro unat_pinned_total) linarith
    have "0 < unat n \<or> n = 0" by (simp add: unat_gt_0)
    have "unat required = chunk_count env * unat n"
    proof (cases "n = 0")
      case True
      then show ?thesis using req(1) by (simp add: checked_mul_def split: if_splits)
    next
      case False
      then have "chunk_count env \<le> chunk_count env * unat n" by (simp add: unat_gt_0 Suc_le_eq)
      then have "chunk_count env < 2 ^ 64" using small by linarith
      then have "unat (of_nat (chunk_count env) :: u64) = chunk_count env" by (simp add: unat_of_nat)
      then show ?thesis
        using req(1) small by (auto simp: checked_mul_def unat_word_ariths mult.commute split: if_splits)
    qed
    moreover have "unat (pinned_total_bytes st1 + required) = unat (pinned_total_bytes st1) + unat required"
      using small total tot calculation by (simp add: unat_word_ariths)
    moreover have "unat (pinned_total_bytes st1 + required) \<le> unat (max_pinned_bytes env)"
      using budget pos by (auto simp: word_le_nat_alt)
    ultimately show ?thesis using tot bytes l(1) by simp
  qed
  ultimately show ?thesis by (simp add: within_limits_def)
qed

lemma attempt_within_limits:
  assumes "within_limits env st" and "malloc_exact a" and "sizes_fit env"
    and "acquire_attempt env a dir dev hint w now st = (r, st')"
  shows "within_limits env st'"
  using assms(4)
proof (cases rule: acquire_attempt_cases)
  case (reuse i n)
  have i: "i < length (mg_lanes st)" using first_index_SomeD [OF reuse(1)] by simp
  have "mg_lanes st' = (mg_lanes st)[i := (mg_lanes st ! i)\<lparr> tl_busy := True,
      tl_active_device_id := Some dev, tl_idle_since := None,
      tl_acquire_count := tl_acquire_count (mg_lanes st ! i) + 1 \<rparr>]"
    by (simp add: reuse(3) reuse_lane_def Let_def)
  then show ?thesis by (rule within_limits_update [OF assms(1) i]) (simp_all add: lane_bytes_def)
next
  case (sweep d reaped)
  have "thinned tl_busy (mg_lanes st) (mg_lanes st')"
    using reap_one_thinned [OF sweep(1)] reap_expired_thinned [of st env now] by (auto intro: thinned_trans)
  then show ?thesis by (rule within_limits_thinned [OF assms(1)])
next
  case (create n required)
  have "within_limits env (reap_expired_lanes env now st)"
    using within_limits_thinned [OF assms(1)] reap_expired_thinned [of st env now] by blast
  then show ?thesis using within_limits_create [OF _ assms(2,3) create(1-5)] by blast
next
  case (too_big e)
  then show ?thesis using within_limits_thinned [OF assms(1)] reap_expired_thinned [of st env now] by blast
qed (use assms(1) in simp)

lemma acquire_within_limits:
  assumes "within_limits env st" and "malloc_exact a" and "sizes_fit env"
    and "acquire env a dir dev hint t0 clk k st = (r, st')"
  shows "within_limits env st'"
  using assms
proof (induction env a dir dev hint t0 clk k st rule: acquire.induct)
  case (1 env a dir dev hint t0 clk k st)
  obtain r1 st1 where one: "acquire_attempt env a dir dev hint (of_nat (clk k - t0) / 1000) (clk k) st = (r1, st1)"
    by fastforce
  note lim = attempt_within_limits [OF "1.prems"(1-3) one]
  show ?case
  proof (cases "r1 = Again")
    case True
    have "acquire env a dir dev hint t0 clk (Suc k) st1 = (r, st')"
      using "1.prems"(4) one True by (simp add: acquire.simps [of env a dir dev hint t0 clk k st])
    then show ?thesis by (rule "1.IH" [OF one [symmetric] True lim "1.prems"(2,3)])
  next
    case False
    with "1.prems"(4) one lim show ?thesis
      by (cases r1) (auto simp: acquire.simps [of env a dir dev hint t0 clk k st])
  qed
qed

lemma release_within_limits: "within_limits env st \<Longrightarrow> within_limits env (release now l st)"
proof (cases "first_index (\<lambda>x. tl_lane_id x = l) (mg_lanes st)")
  case (Some i)
  assume lim: "within_limits env st"
  have i: "i < length (mg_lanes st)" using first_index_SomeD [OF Some] by simp
  have "mg_lanes (release now l st) = (mg_lanes st)[i := (mg_lanes st ! i)
      \<lparr> tl_busy := False, tl_active_device_id := None, tl_idle_since := Some now \<rparr>]"
    by (simp add: release_def Some)
  then show ?thesis by (rule within_limits_update [OF lim i]) (simp_all add: lane_bytes_def)
qed (simp add: release_def)

text \<open>What acquisitions and returns preserve holds throughout a run.\<close>

lemma lease_run_invariant:
  assumes "\<And>q s r s'. P s \<Longrightarrow> acq q s = (r, s') \<Longrightarrow> P s'" and "\<And>now l s. P s \<Longrightarrow> P (rel now l s)"
    and "P s" and "lease_run acq lane rel evs (s, out) = (s', out')"
  shows "P s'"
  using assms(3,4)
proof (induction evs arbitrary: s out)
  case (Cons ev evs)
  show ?case
  proof (cases ev)
    case (Ask q)
    obtain r s1 where a: "acq q s = (r, s1)" by fastforce
    have "P s1" by (rule assms(1) [OF Cons.prems(1) a])
    moreover have "\<exists>out1. lease_run acq lane rel evs (s1, out1) = (s', out')"
      using Cons.prems(2) a Ask by (cases r) auto
    ultimately show ?thesis using Cons.IH by blast
  next
    case (GiveBack l now)
    then show ?thesis
      using Cons.IH [of s out] Cons.IH [OF assms(2) [OF Cons.prems(1)], of now l "remove1 l out"] Cons.prems
      by (simp split: if_splits)
  qed
qed simp

text \<open>
  The staging lanes stay within the configured limits: however transfers come and go, the number
  of lanes per direction never exceeds its maximum and the pinned memory of all lanes together never
  exceeds the budget, for a runtime that allocates what it is asked and a configuration whose sizes
  add up within 64 bits.
\<close>

theorem staging_lanes_within_limits:
  assumes "malloc_exact a" and "sizes_fit env"
    and "lease_run (channel_ask env a) ll_lane_id release evs (manager_new, []) = (st, out)"
  shows "(\<forall>dir. max_lanes_for env dir > 0 \<longrightarrow> direction_lane_count st dir \<le> max_lanes_for env dir) \<and>
    (max_pinned_bytes env > 0 \<longrightarrow> sum_list (map lane_bytes (mg_lanes st)) \<le> unat (max_pinned_bytes env))"
proof -
  have new: "within_limits env manager_new"
    by (simp add: within_limits_def manager_new_def direction_lane_count_def)
  have ask: "within_limits env s'"
    if "within_limits env s" "channel_ask env a q s = (r, s')" for q s r s'
    using that acquire_within_limits [OF that(1) assms(1,2)]
    by (cases q) (auto simp: channel_ask_def)
  have "within_limits env st"
    by (rule lease_run_invariant [where P = "within_limits env", OF ask release_within_limits new assms(3)])
  then show ?thesis by (simp add: within_limits_def)
qed

definition demo_limits :: environment where
  "demo_limits key = (if key = ''UF_PINNED_MAX_BYTES'' then Some ''256''
     else if key = ''UF_H2D_MAX_LANES'' then Some ''1'' else None)"

end
