(* ===== verification/Copies.thy ===== *)
theory Copies
  imports Lanes Planner
begin

text \<open>
  The data movement of \<^verbatim>\<open>transfer_executor.rs\<close> and of the SSD backend, on byte lists.

  Device memory is written and read by DMA. A DMA started by an asynchronous call is complete at the
  latest when its event has been synchronized; until then nobody else touches its buffer. The
  parameter \<open>dma_eager\<close> says for each DMA (named by its offset) whether it happens at submission or
  at synchronization, and the theorems hold for every choice. Every vendor call may fail; a call
  that fails moves no data. A lane has at least one buffer (\<^verbatim>\<open>chunk_count\<close> is positive), so the
  index arithmetic modulo their number never divides by zero.
\<close>

section \<open>Byte windows\<close>

definition window :: "bytes \<Rightarrow> nat \<Rightarrow> nat \<Rightarrow> bytes" where
  "window xs off n = take n (drop off xs)"

text \<open>\<^verbatim>\<open>memcpy\<close> of \<open>ys\<close> to offset \<open>off\<close>.\<close>

definition splice :: "bytes \<Rightarrow> nat \<Rightarrow> bytes \<Rightarrow> bytes" where
  "splice xs off ys = take off xs @ ys @ drop (off + length ys) xs"

section \<open>The vendor's copy calls\<close>

record dma =
  dma_submit :: "u64 \<Rightarrow> unit result"
  dma_sync :: "u64 \<Rightarrow> unit result"
  dma_eager :: "u64 \<Rightarrow> bool"
  dma_copy :: "u64 \<Rightarrow> unit result"
  dma_d2d :: "unit result"
  dma_register :: "unit result"

text \<open>
  Staging: device memory, the mapped host memory, the pinned buffers of the lane, and for each
  buffer the DMA that was submitted on it and has not happened yet.
\<close>

record staging =
  sg_dev :: bytes
  sg_host :: bytes
  sg_pinned :: "bytes list"
  sg_pending :: "(u64 \<times> u64) option list"

text \<open>One DMA from device memory into buffer \<open>i\<close>, or from buffer \<open>i\<close> into device memory.\<close>

definition dma_in :: "nat \<Rightarrow> u64 \<Rightarrow> u64 \<Rightarrow> staging \<Rightarrow> staging" where
  "dma_in i off n sg =
     sg\<lparr> sg_pinned := (sg_pinned sg)[i := splice (sg_pinned sg ! i) 0 (window (sg_dev sg) (unat off) (unat n))] \<rparr>"

definition dma_out :: "nat \<Rightarrow> u64 \<Rightarrow> u64 \<Rightarrow> staging \<Rightarrow> staging" where
  "dma_out i off n sg =
     sg\<lparr> sg_dev := splice (sg_dev sg) (unat off) (window (sg_pinned sg ! i) 0 (unat n)) \<rparr>"

text \<open>Submission and synchronization; \<open>move\<close> is one of the two DMAs, \<open>what\<close> names the call.\<close>

definition submit_dma ::
  "(nat \<Rightarrow> u64 \<Rightarrow> u64 \<Rightarrow> staging \<Rightarrow> staging) \<Rightarrow> string \<Rightarrow> dma \<Rightarrow> nat \<Rightarrow> u64 \<Rightarrow> u64 \<Rightarrow> staging \<Rightarrow>
     unit result \<times> staging" where
  "submit_dma move what d i off n sg =
     (case acl_check what (dma_submit d off) of
        Inl e \<Rightarrow> (Inl e, sg)
      | Inr _ \<Rightarrow> (Inr (), if dma_eager d off then move i off n sg
                        else sg\<lparr> sg_pending := (sg_pending sg)[i := Some (off, n)] \<rparr>))"

definition synchronize_event ::
  "(nat \<Rightarrow> u64 \<Rightarrow> u64 \<Rightarrow> staging \<Rightarrow> staging) \<Rightarrow> dma \<Rightarrow> nat \<Rightarrow> u64 \<Rightarrow> staging \<Rightarrow> unit result \<times> staging" where
  "synchronize_event move d i off sg =
     (case acl_check ''synchronize_event'' (dma_sync d off) of
        Inl e \<Rightarrow> (Inl e, sg)
      | Inr _ \<Rightarrow> (Inr (), case sg_pending sg ! i of
            Some (o', n') \<Rightarrow> (move i o' n' sg)\<lparr> sg_pending := (sg_pending sg)[i := None] \<rparr>
          | None \<Rightarrow> sg))"

section \<open>Staged copies between device and host memory\<close>

text \<open>What the run counts: chunks transferred, events recorded, events waited for.\<close>

record copy_counts =
  cc_chunks :: u64
  cc_records :: u64
  cc_waits :: u64

definition no_counts :: copy_counts where
  "no_counts = \<lparr> cc_chunks = 0, cc_records = 0, cc_waits = 0 \<rparr>"

type_synonym copy_result = "copy_counts result \<times> staging"

text \<open>
  Device to host, asynchronous: before a buffer is used again, its DMA is awaited and its contents
  are copied to the host memory. The entry of \<open>infl\<close> for a buffer is the window it holds.
\<close>

definition d2h_collect ::
  "dma \<Rightarrow> nat \<Rightarrow> (u64 \<times> u64) option list \<Rightarrow> copy_counts \<Rightarrow> staging \<Rightarrow> copy_result" where
  "d2h_collect d i infl cnt sg =
     (case infl ! i of
        None \<Rightarrow> (Inr cnt, sg)
      | Some (copy_offset, copy_bytes) \<Rightarrow>
          (case synchronize_event dma_in d i copy_offset sg of
             (Inl e, sg) \<Rightarrow> (Inl e, sg)
           | (Inr _, sg) \<Rightarrow>
               (Inr (cnt\<lparr> cc_waits := cc_waits cnt + 1 \<rparr>),
                sg\<lparr> sg_host := splice (sg_host sg) (unat copy_offset)
                      (window (sg_pinned sg ! i) 0 (unat copy_bytes)) \<rparr>)))"

fun d2h_drain ::
  "dma \<Rightarrow> nat list \<Rightarrow> (u64 \<times> u64) option list \<Rightarrow> copy_counts \<Rightarrow> staging \<Rightarrow> copy_result" where
  "d2h_drain d [] infl cnt sg = (Inr cnt, sg)"
| "d2h_drain d (i # is) infl cnt sg =
     (case d2h_collect d i infl cnt sg of
        (Inl e, sg) \<Rightarrow> (Inl e, sg)
      | (Inr cnt, sg) \<Rightarrow> d2h_drain d is infl cnt sg)"

partial_function (option) d2h_async ::
  "dma \<Rightarrow> u64 \<Rightarrow> u64 \<Rightarrow> u64 \<Rightarrow> (u64 \<times> u64) option list \<Rightarrow> copy_counts \<Rightarrow> staging \<Rightarrow> copy_result option" where
  "d2h_async d cb n off infl cnt sg =
     (if off < n
      then let ci = unat (cc_chunks cnt) mod length infl in
        case d2h_collect d ci infl cnt sg of
          (Inl e, sg) \<Rightarrow> Some (Inl e, sg)
        | (Inr cnt, sg) \<Rightarrow>
            let chunk = min (n - off) cb in
            case submit_dma dma_in ''d2h_async_on_stream'' d ci off chunk sg of
              (Inl e, sg) \<Rightarrow> Some (Inl e, sg)
            | (Inr _, sg) \<Rightarrow>
                d2h_async d cb n (off + chunk) (infl[ci := Some (off, chunk)])
                  (cnt\<lparr> cc_records := cc_records cnt + 1, cc_chunks := cc_chunks cnt + 1 \<rparr>) sg
      else Some (d2h_drain d [0..<length infl] infl cnt sg))"

text \<open>Device to host, synchronous.\<close>

partial_function (option) d2h_sync ::
  "dma \<Rightarrow> u64 \<Rightarrow> u64 \<Rightarrow> u64 \<Rightarrow> copy_counts \<Rightarrow> staging \<Rightarrow> copy_result option" where
  "d2h_sync d cb n off cnt sg =
     (if off < n
      then let chunk = min (n - off) cb;
               i = unat (cc_chunks cnt) mod length (sg_pinned sg) in
        case acl_check ''d2h_on_device'' (dma_copy d off) of
          Inl e \<Rightarrow> Some (Inl e, sg)
        | Inr _ \<Rightarrow>
            let sg = dma_in i off chunk sg;
                sg = sg\<lparr> sg_host := splice (sg_host sg) (unat off) (window (sg_pinned sg ! i) 0 (unat chunk)) \<rparr> in
            d2h_sync d cb n (off + chunk) (cnt\<lparr> cc_chunks := cc_chunks cnt + 1 \<rparr>) sg
      else Some (Inr cnt, sg))"

text \<open>
  Host to device, asynchronous: before a buffer is filled again, the DMA that reads it is awaited.
\<close>

definition h2d_collect ::
  "dma \<Rightarrow> nat \<Rightarrow> u64 option list \<Rightarrow> copy_counts \<Rightarrow> staging \<Rightarrow> copy_result" where
  "h2d_collect d i infl cnt sg =
     (case infl ! i of
        None \<Rightarrow> (Inr cnt, sg)
      | Some off \<Rightarrow>
          (case synchronize_event dma_out d i off sg of
             (Inl e, sg) \<Rightarrow> (Inl e, sg)
           | (Inr _, sg) \<Rightarrow> (Inr (cnt\<lparr> cc_waits := cc_waits cnt + 1 \<rparr>), sg)))"

fun h2d_drain ::
  "dma \<Rightarrow> nat list \<Rightarrow> u64 option list \<Rightarrow> copy_counts \<Rightarrow> staging \<Rightarrow> copy_result" where
  "h2d_drain d [] infl cnt sg = (Inr cnt, sg)"
| "h2d_drain d (i # is) infl cnt sg =
     (case h2d_collect d i infl cnt sg of
        (Inl e, sg) \<Rightarrow> (Inl e, sg)
      | (Inr cnt, sg) \<Rightarrow> h2d_drain d is infl cnt sg)"

definition fill_pinned :: "nat \<Rightarrow> u64 \<Rightarrow> u64 \<Rightarrow> staging \<Rightarrow> staging" where
  "fill_pinned i off n sg =
     sg\<lparr> sg_pinned := (sg_pinned sg)[i := splice (sg_pinned sg ! i) 0 (window (sg_host sg) (unat off) (unat n))] \<rparr>"

partial_function (option) h2d_async ::
  "dma \<Rightarrow> u64 \<Rightarrow> u64 \<Rightarrow> u64 \<Rightarrow> u64 option list \<Rightarrow> copy_counts \<Rightarrow> staging \<Rightarrow> copy_result option" where
  "h2d_async d cb n off infl cnt sg =
     (if off < n
      then let ci = unat (cc_chunks cnt) mod length infl in
        case h2d_collect d ci infl cnt sg of
          (Inl e, sg) \<Rightarrow> Some (Inl e, sg)
        | (Inr cnt, sg) \<Rightarrow>
            let chunk = min (n - off) cb in
            case submit_dma dma_out ''h2d_async_on_stream'' d ci off chunk (fill_pinned ci off chunk sg) of
              (Inl e, sg) \<Rightarrow> Some (Inl e, sg)
            | (Inr _, sg) \<Rightarrow>
                h2d_async d cb n (off + chunk) (infl[ci := Some off])
                  (cnt\<lparr> cc_records := cc_records cnt + 1, cc_chunks := cc_chunks cnt + 1 \<rparr>) sg
      else Some (h2d_drain d [0..<length infl] infl cnt sg))"

partial_function (option) h2d_sync ::
  "dma \<Rightarrow> u64 \<Rightarrow> u64 \<Rightarrow> u64 \<Rightarrow> copy_counts \<Rightarrow> staging \<Rightarrow> copy_result option" where
  "h2d_sync d cb n off cnt sg =
     (if off < n
      then let chunk = min (n - off) cb;
               i = unat (cc_chunks cnt) mod length (sg_pinned sg);
               sg = fill_pinned i off chunk sg in
        case acl_check ''h2d_on_device'' (dma_copy d off) of
          Inl e \<Rightarrow> Some (Inl e, sg)
        | Inr _ \<Rightarrow>
            h2d_sync d cb n (off + chunk) (cnt\<lparr> cc_chunks := cc_chunks cnt + 1 \<rparr>) (dma_out i off chunk sg)
      else Some (Inr cnt, sg))"

section \<open>Files on SSD (ssd\_backend.rs)\<close>

text \<open>
  \<open>rd pos len\<close> is how many bytes \<^verbatim>\<open>read_at\<close> delivers, or its error; the bytes are those of the
  file. The inner loop reads until the buffer is full.
\<close>

type_synonym file_io = "u64 \<Rightarrow> nat \<Rightarrow> nat result"

function ssd_fill ::
  "file_io \<Rightarrow> bytes \<Rightarrow> u64 \<Rightarrow> nat \<Rightarrow> nat \<Rightarrow> nat \<Rightarrow> bytes \<Rightarrow> unit result \<times> bytes" where
  "ssd_fill rd file pos base len filled dst =
     (if filled < len
      then let p = pos + of_nat filled in
        case rd p (len - filled) of
          Inl e \<Rightarrow> (Inl (''SSD pread failed: '' @ e), dst)
        | Inr n \<Rightarrow>
            if n = 0 then (Inl ''SSD pread reached EOF'', dst)
            else ssd_fill rd file pos base len (filled + n)
              (splice dst (base + filled) (window file (unat p) n))
      else (Inr (), dst))"
  by pat_completeness auto
termination
  by (relation "measure (\<lambda>(rd, file, pos, base, len, filled, dst). len - filled)") auto

declare ssd_fill.simps [simp del]

lemma ssd_chunk_bytes_pos: "0 < ssd_chunk_bytes env"
  by (simp add: ssd_chunk_bytes_def positive_or_def split: option.split)

text \<open>Progress of a chunked loop over \<open>n\<close> bytes.\<close>

lemma chunk_step:
  fixes off n cb :: u64
  assumes "off < n" and "0 < cb"
  shows "unat (off + min (n - off) cb) = unat off + min (unat n - unat off) (unat cb)"
    and "off < off + min (n - off) cb" and "off + min (n - off) cb \<le> n" and "0 < min (n - off) cb"
    and "unat (min (n - off) cb) = min (unat n - unat off) (unat cb)"
    and "unat n - unat (off + min (n - off) cb) < unat n - unat off"
proof -
  have sub: "unat (n - off) = unat n - unat off" using assms(1) by (simp add: unat_sub_u64)
  show m: "unat (min (n - off) cb) = min (unat n - unat off) (unat cb)"
    using sub by (simp add: min_def word_le_nat_alt)
  have lt: "unat off < unat n" and pos: "0 < unat cb" using assms by (simp_all add: word_less_nat_alt)
  have "unat off + min (unat n - unat off) (unat cb) \<le> unat n" using lt by simp
  also have "\<dots> < 2 ^ 64" by (rule unat_less_u64)
  finally show e: "unat (off + min (n - off) cb) = unat off + min (unat n - unat off) (unat cb)"
    unfolding unat_word_ariths m by simp
  show "off < off + min (n - off) cb" "off + min (n - off) cb \<le> n" "0 < min (n - off) cb"
    "unat n - unat (off + min (n - off) cb) < unat n - unat off"
    using lt pos by (simp_all add: word_less_nat_alt word_le_nat_alt e m)
qed

function read_chunks ::
  "environment \<Rightarrow> file_io \<Rightarrow> bytes \<Rightarrow> u64 \<Rightarrow> u64 \<Rightarrow> nat \<Rightarrow> u64 \<Rightarrow> bytes \<Rightarrow> unit result \<times> bytes" where
  "read_chunks env rd file off n base progress dst =
     (if progress < n
      then let chunk = min (n - progress) (ssd_chunk_bytes env) in
        case ssd_fill rd file (off + progress) (base + unat progress) (unat chunk) 0 dst of
          (Inl e, dst) \<Rightarrow> (Inl e, dst)
        | (Inr _, dst) \<Rightarrow> read_chunks env rd file off n base (progress + chunk) dst
      else (Inr (), dst))"
  by pat_completeness auto
termination
  by (relation "measure (\<lambda>(env, rd, file, off, n, base, progress, dst). unat n - unat progress)")
    (auto intro: chunk_step(6) ssd_chunk_bytes_pos)

declare read_chunks.simps [simp del]

text \<open>Writing: \<open>wr pos len\<close> is how many bytes \<^verbatim>\<open>write_at\<close> takes.\<close>

function ssd_flush ::
  "file_io \<Rightarrow> bytes \<Rightarrow> nat \<Rightarrow> u64 \<Rightarrow> nat \<Rightarrow> nat \<Rightarrow> bytes \<Rightarrow> unit result \<times> bytes" where
  "ssd_flush wr src base pos len written file =
     (if written < len
      then let p = pos + of_nat written in
        case wr p (len - written) of
          Inl e \<Rightarrow> (Inl (''SSD pwrite failed: '' @ e), file)
        | Inr n \<Rightarrow>
            if n = 0 then (Inl ''SSD pwrite wrote zero bytes'', file)
            else ssd_flush wr src base pos len (written + n)
              (splice file (unat p) (window src (base + written) n))
      else (Inr (), file))"
  by pat_completeness auto
termination
  by (relation "measure (\<lambda>(wr, src, base, pos, len, written, file). len - written)") auto

declare ssd_flush.simps [simp del]

function write_chunks ::
  "environment \<Rightarrow> file_io \<Rightarrow> bytes \<Rightarrow> nat \<Rightarrow> u64 \<Rightarrow> u64 \<Rightarrow> u64 \<Rightarrow> bytes \<Rightarrow> unit result \<times> bytes" where
  "write_chunks env wr src base off n progress file =
     (if progress < n
      then let chunk = min (n - progress) (ssd_chunk_bytes env) in
        case ssd_flush wr src (base + unat progress) (off + progress) (unat chunk) 0 file of
          (Inl e, file) \<Rightarrow> (Inl e, file)
        | (Inr _, file) \<Rightarrow> write_chunks env wr src base off n (progress + chunk) file
      else (Inr (), file))"
  by pat_completeness auto
termination
  by (relation "measure (\<lambda>(env, wr, src, base, off, n, progress, file). unat n - unat progress)")
    (auto intro: chunk_step(6) ssd_chunk_bytes_pos)

declare write_chunks.simps [simp del]

record SsdIoStats =
  ss_submit_us :: rat
  ss_wait_us :: rat
  ss_bytes :: u64
  ss_read_bytes :: u64
  ss_write_bytes :: u64

definition ssd_io_default :: SsdIoStats where
  "ssd_io_default = \<lparr> ss_submit_us = 0, ss_wait_us = 0, ss_bytes = 0, ss_read_bytes = 0, ss_write_bytes = 0 \<rparr>"

definition ssd_merge :: "SsdIoStats \<Rightarrow> SsdIoStats \<Rightarrow> SsdIoStats" where
  "ssd_merge a b =
     \<lparr> ss_submit_us = ss_submit_us a + ss_submit_us b, ss_wait_us = ss_wait_us a + ss_wait_us b,
       ss_bytes = ss_bytes a + ss_bytes b, ss_read_bytes = ss_read_bytes a + ss_read_bytes b,
       ss_write_bytes = ss_write_bytes a + ss_write_bytes b \<rparr>"

text \<open>Bytes per second in GiB/s, from a duration in microseconds.\<close>

definition gib_per_s :: "u64 \<Rightarrow> rat \<Rightarrow> rat" where
  "gib_per_s n us = of_nat (unat n) / (us / 1000000) / (1024 * 1024 * 1024)"

definition ssd_bandwidth :: "SsdIoStats \<Rightarrow> rat" where
  "ssd_bandwidth s = (if ss_wait_us s \<le> 0 \<or> ss_bytes s = 0 then 0 else gib_per_s (ss_bytes s) (ss_wait_us s))"

text \<open>What the kernel answers on the data path, by path of the file.\<close>

record io =
  io_open :: "string \<Rightarrow> bool \<Rightarrow> unit result"
  io_read :: "string \<Rightarrow> file_io"
  io_write :: "string \<Rightarrow> file_io"
  io_mmap :: "string \<Rightarrow> unit result"
  io_populate :: "string \<Rightarrow> unit result"
  io_mlock :: "string \<Rightarrow> unit result"
  io_us :: "string \<Rightarrow> rat"

definition open_ssd_object :: "io \<Rightarrow> Object \<Rightarrow> bool \<Rightarrow> unit result" where
  "open_ssd_object k ob write =
     (if ob_ssd_path ob = [] then Inl ''SSD object has empty path''
      else case io_open k (ob_ssd_path ob) write of
        Inl e \<Rightarrow> Inl (''open SSD object failed: '' @ e)
      | Inr _ \<Rightarrow> Inr ())"

definition read_ssd_to_ptr ::
  "environment \<Rightarrow> io \<Rightarrow> Object \<Rightarrow> bytes \<Rightarrow> u64 \<Rightarrow> nat \<Rightarrow> u64 \<Rightarrow> bytes \<Rightarrow> SsdIoStats result \<times> bytes" where
  "read_ssd_to_ptr env k ob file off base n dst =
     (if n = 0 then (Inr ssd_io_default, dst)
      else if range_exceeds off n (ob_actual_bytes ob) then (Inl ''SSD read range out of bounds'', dst)
      else case open_ssd_object k ob False of
        Inl e \<Rightarrow> (Inl e, dst)
      | Inr _ \<Rightarrow>
          (case read_chunks env (io_read k (ob_ssd_path ob)) file off n base 0 dst of
             (Inl e, dst) \<Rightarrow> (Inl e, dst)
           | (Inr _, dst) \<Rightarrow>
               (Inr \<lparr> ss_submit_us = io_us k ''ssd_submit'', ss_wait_us = io_us k ''ssd_wait'',
                      ss_bytes = n, ss_read_bytes = n, ss_write_bytes = 0 \<rparr>, dst)))"

definition write_ptr_to_ssd ::
  "environment \<Rightarrow> io \<Rightarrow> Object \<Rightarrow> bytes \<Rightarrow> nat \<Rightarrow> u64 \<Rightarrow> u64 \<Rightarrow> bytes \<Rightarrow> SsdIoStats result \<times> bytes" where
  "write_ptr_to_ssd env k ob src base off n file =
     (if n = 0 then (Inr ssd_io_default, file)
      else if range_exceeds off n (ob_actual_bytes ob) then (Inl ''SSD write range out of bounds'', file)
      else case open_ssd_object k ob True of
        Inl e \<Rightarrow> (Inl e, file)
      | Inr _ \<Rightarrow>
          (case write_chunks env (io_write k (ob_ssd_path ob)) src base off n 0 file of
             (Inl e, file) \<Rightarrow> (Inl e, file)
           | (Inr _, file) \<Rightarrow>
               (Inr \<lparr> ss_submit_us = io_us k ''ssd_submit'', ss_wait_us = io_us k ''ssd_wait'',
                      ss_bytes = n, ss_read_bytes = 0, ss_write_bytes = n \<rparr>, file)))"

section \<open>Relays between SSD and device memory\<close>

text \<open>The staging vector holds one chunk; \<open>stg\<close> is its contents.\<close>

definition relay_capacity :: "environment \<Rightarrow> u64 \<Rightarrow> u64" where
  "relay_capacity env n = min (ssd_chunk_bytes env) (max n 1)"

lemma relay_capacity_pos: "0 < relay_capacity env n"
proof -
  have "0 < max n 1" by (rule less_le_trans [of _ 1]) simp_all
  then show ?thesis using ssd_chunk_bytes_pos [of env] by (simp add: relay_capacity_def min_def)
qed

record relay_run =
  rr_ssd :: SsdIoStats
  rr_acl_us :: rat

function ssd_hbm_relay ::
  "environment \<Rightarrow> io \<Rightarrow> dma \<Rightarrow> Object \<Rightarrow> bytes \<Rightarrow> u64 \<Rightarrow> u64 \<Rightarrow> u64 \<Rightarrow> u64 \<Rightarrow> relay_run \<Rightarrow> bytes \<Rightarrow> bytes \<Rightarrow>
     relay_run result \<times> bytes" where
  "ssd_hbm_relay env k d ob file src_off dst_off n off run stg dev =
     (if off < n
      then let chunk = min (n - off) (relay_capacity env n) in
        case read_ssd_to_ptr env k ob file (src_off + off) 0 chunk stg of
          (Inl e, stg) \<Rightarrow> (Inl e, dev)
        | (Inr st, stg) \<Rightarrow>
            (case acl_check ''h2d_on_device'' (dma_copy d (dst_off + off)) of
               Inl e \<Rightarrow> (Inl e, dev)
             | Inr _ \<Rightarrow>
                 ssd_hbm_relay env k d ob file src_off dst_off n (off + chunk)
                   \<lparr> rr_ssd = ssd_merge (rr_ssd run) st, rr_acl_us = rr_acl_us run + io_us k ''relay_acl'' \<rparr> stg
                   (splice dev (unat (dst_off + off)) (window stg 0 (unat chunk))))
      else (Inr run, dev))"
  by pat_completeness auto
termination
  by (relation "measure (\<lambda>(env, k, d, ob, file, src_off, dst_off, n, off, run, stg, dev). unat n - unat off)")
    (auto intro: chunk_step(6) relay_capacity_pos)

declare ssd_hbm_relay.simps [simp del]

function hbm_ssd_relay ::
  "environment \<Rightarrow> io \<Rightarrow> dma \<Rightarrow> Object \<Rightarrow> bytes \<Rightarrow> u64 \<Rightarrow> u64 \<Rightarrow> u64 \<Rightarrow> u64 \<Rightarrow> relay_run \<Rightarrow> bytes \<Rightarrow> bytes \<Rightarrow>
     relay_run result \<times> bytes" where
  "hbm_ssd_relay env k d ob dev src_off dst_off n off run stg file =
     (if off < n
      then let chunk = min (n - off) (relay_capacity env n) in
        case acl_check ''d2h_on_device'' (dma_copy d (src_off + off)) of
          Inl e \<Rightarrow> (Inl e, file)
        | Inr _ \<Rightarrow>
            let stg = splice stg 0 (window dev (unat (src_off + off)) (unat chunk)) in
            (case write_ptr_to_ssd env k ob stg 0 (dst_off + off) chunk file of
               (Inl e, file) \<Rightarrow> (Inl e, file)
             | (Inr st, file) \<Rightarrow>
                 hbm_ssd_relay env k d ob dev src_off dst_off n (off + chunk)
                   \<lparr> rr_ssd = ssd_merge (rr_ssd run) st, rr_acl_us = rr_acl_us run + io_us k ''relay_acl'' \<rparr> stg
                   file)
      else (Inr run, file))"
  by pat_completeness auto
termination
  by (relation "measure (\<lambda>(env, k, d, ob, dev, src_off, dst_off, n, off, run, stg, file). unat n - unat off)")
    (auto intro: chunk_step(6) relay_capacity_pos)

declare hbm_ssd_relay.simps [simp del]

definition no_relay :: relay_run where
  "no_relay = \<lparr> rr_ssd = ssd_io_default, rr_acl_us = 0 \<rparr>"

section \<open>Direct copies between SSD and device memory (ssd\_direct.rs)\<close>

record Candidate =
  cd_name :: string
  cd_use_thp :: bool
  cd_use_pretouch :: bool
  cd_use_populate :: bool
  cd_use_fadvise :: bool
  cd_use_readahead :: bool
  cd_use_madvise_populate :: bool
  cd_use_madvise_willneed :: bool
  cd_use_mlock :: bool
  cd_register :: bool
  cd_register_v2 :: bool

definition parse_candidate :: "string \<Rightarrow> Candidate result" where
  "parse_candidate name =
     (if \<not> is_implemented_candidate name then Inl (''SSD-HBM direct candidate is not implemented: '' @ name)
      else Inr \<lparr> cd_name = name, cd_use_thp = str_contains ''thp'' name,
        cd_use_pretouch = str_contains ''pretouch'' name,
        cd_use_populate = (str_contains ''_populate_'' name \<and> \<not> str_contains ''madvise_populate'' name),
        cd_use_fadvise = str_contains ''fadvise'' name, cd_use_readahead = str_contains ''readahead'' name,
        cd_use_madvise_populate = str_contains ''madvise_populate'' name,
        cd_use_madvise_willneed = str_contains ''madvise_willneed'' name,
        cd_use_mlock = str_contains ''mlock'' name, cd_register = str_contains ''hostregister'' name,
        cd_register_v2 = ends_with ''_v2'' name \<rparr>)"

record SsdHbmDirectStats =
  hd_candidate_name :: string
  hd_direct_kind :: string
  hd_setup_us :: rat
  hd_register_us :: rat
  hd_fadvise_us :: rat
  hd_readahead_us :: rat
  hd_madvise_hugepage_us :: rat
  hd_madvise_willneed_us :: rat
  hd_madvise_populate_us :: rat
  hd_pretouch_us :: rat
  hd_mlock_us :: rat
  hd_acl_us :: rat
  hd_total_us :: rat
  hd_bytes :: u64
  hd_read_bytes :: u64
  hd_write_bytes :: u64

definition direct_default :: SsdHbmDirectStats where
  "direct_default = \<lparr> hd_candidate_name = [], hd_direct_kind = [], hd_setup_us = 0, hd_register_us = 0,
     hd_fadvise_us = 0, hd_readahead_us = 0, hd_madvise_hugepage_us = 0, hd_madvise_willneed_us = 0,
     hd_madvise_populate_us = 0, hd_pretouch_us = 0, hd_mlock_us = 0, hd_acl_us = 0, hd_total_us = 0,
     hd_bytes = 0, hd_read_bytes = 0, hd_write_bytes = 0 \<rparr>"

text \<open>
  Opening, advising, mapping and pinning the file. Advice and touching have no effect on data; the
  mapping, populating, locking and registering steps can fail. The error texts of the kernel are
  part of the parameter's results.
\<close>

definition step_us :: "io \<Rightarrow> bool \<Rightarrow> string \<Rightarrow> rat" where
  "step_us k used what = (if used then io_us k what else 0)"

definition map_and_prepare ::
  "io \<Rightarrow> dma \<Rightarrow> Object \<Rightarrow> u64 \<Rightarrow> u64 \<Rightarrow> bool \<Rightarrow> Candidate \<Rightarrow> SsdHbmDirectStats result" where
  "map_and_prepare k d ob off n write c =
     (let path = ob_ssd_path ob in
      if path = [] then Inl ''SSD object has empty path''
      else if range_exceeds off n (ob_actual_bytes ob) then Inl ''SSD direct range out of bounds''
      else case io_open k path write of
        Inl e \<Rightarrow> Inl (''open SSD direct object failed: '' @ e)
      | Inr _ \<Rightarrow>
     (case io_mmap k path of
        Inl e \<Rightarrow> Inl (''mmap SSD direct object failed errno='' @ e)
      | Inr _ \<Rightarrow>
     (case (if cd_use_madvise_populate c then io_populate k path else Inr ()) of
        Inl e \<Rightarrow> Inl (''madvise_populate SSD direct mmap failed advice='' @
                   (if write then ''23'' else ''22'') @ '' errno='' @ e)
      | Inr _ \<Rightarrow>
     (case (if cd_use_mlock c then io_mlock k path else Inr ()) of
        Inl e \<Rightarrow> Inl (''mlock SSD direct mmap failed errno='' @ e)
      | Inr _ \<Rightarrow>
          rbind (if cd_register c then acl_check ''host_register'' (dma_register d) else Inr ()) (\<lambda>_.
          Inr (direct_default\<lparr> hd_candidate_name := cd_name c, hd_direct_kind := ''logical'',
            hd_fadvise_us := step_us k (cd_use_fadvise c) ''direct_fadvise'',
            hd_readahead_us := step_us k (cd_use_readahead c) ''direct_readahead'',
            hd_setup_us := io_us k ''direct_setup'',
            hd_madvise_hugepage_us := step_us k (cd_use_thp c) ''direct_madvise_hugepage'',
            hd_madvise_willneed_us := step_us k (cd_use_madvise_willneed c) ''direct_madvise_willneed'',
            hd_madvise_populate_us := step_us k (cd_use_madvise_populate c) ''direct_madvise_populate'',
            hd_pretouch_us := step_us k (cd_use_pretouch c) ''direct_pretouch'',
            hd_mlock_us := step_us k (cd_use_mlock c) ''direct_mlock'',
            hd_register_us := step_us k (cd_register c) ''direct_register'' \<rparr>))))))"

definition test_failpoint_enabled :: "bool \<Rightarrow> string \<Rightarrow> bool" where
  "test_failpoint_enabled enabled stage \<longleftrightarrow> enabled \<and> stage = ''before_acl''"

definition maybe_fail_before_acl :: "environment \<Rightarrow> unit result" where
  "maybe_fail_before_acl env =
     (if test_failpoint_enabled (env_bool env ''UF_ENABLE_TEST_FAILPOINTS'' False)
           (env_default env ''UF_TEST_SSD_DIRECT_FAIL_STAGE'' [])
      then Inl ''validation_failpoint:ssd_direct_before_acl'' else Inr ())"

definition copy_ssd_to_hbm_direct ::
  "environment \<Rightarrow> io \<Rightarrow> dma \<Rightarrow> Object \<Rightarrow> bytes \<Rightarrow> u64 \<Rightarrow> u64 \<Rightarrow> u64 \<Rightarrow> string \<Rightarrow> bytes \<Rightarrow>
     SsdHbmDirectStats result \<times> bytes" where
  "copy_ssd_to_hbm_direct env k d src file src_off dst_off n name dev =
     (case rbind (parse_candidate name) (\<lambda>c.
           rbind (map_and_prepare k d src src_off n False c) (\<lambda>stats.
           rbind (maybe_fail_before_acl env) (\<lambda>_.
           rbind (acl_check ''h2d_on_device'' (dma_copy d dst_off)) (\<lambda>_. Inr stats)))) of
        Inl e \<Rightarrow> (Inl e, dev)
      | Inr stats \<Rightarrow>
          (Inr (stats\<lparr> hd_acl_us := io_us k ''direct_acl'', hd_total_us := io_us k ''direct_total'',
                       hd_bytes := n, hd_read_bytes := n \<rparr>),
           splice dev (unat dst_off) (window file (unat src_off) (unat n))))"

definition copy_hbm_to_ssd_direct ::
  "environment \<Rightarrow> io \<Rightarrow> dma \<Rightarrow> bytes \<Rightarrow> Object \<Rightarrow> u64 \<Rightarrow> u64 \<Rightarrow> u64 \<Rightarrow> string \<Rightarrow> bytes \<Rightarrow>
     SsdHbmDirectStats result \<times> bytes" where
  "copy_hbm_to_ssd_direct env k d dev dst src_off dst_off n name file =
     (case rbind (parse_candidate name) (\<lambda>c.
           rbind (map_and_prepare k d dst dst_off n True c) (\<lambda>stats.
           rbind (maybe_fail_before_acl env) (\<lambda>_.
           rbind (acl_check ''d2h_on_device'' (dma_copy d src_off)) (\<lambda>_. Inr stats)))) of
        Inl e \<Rightarrow> (Inl e, file)
      | Inr stats \<Rightarrow>
          (Inr (stats\<lparr> hd_acl_us := io_us k ''direct_acl'', hd_total_us := io_us k ''direct_total'',
                       hd_bytes := n, hd_write_bytes := n \<rparr>),
           splice file (unat dst_off) (window dev (unat src_off) (unat n))))"

end
