(* ===== verification/CopyLaws.thy ===== *)
theory CopyLaws
  imports Copies Objects
begin

text \<open>
  The copies of \<^verbatim>\<open>transfer_executor.rs\<close> and \<^verbatim>\<open>ssd_backend.rs\<close> move exactly the bytes they are
  asked to move: whatever the number and size of the staging buffers, whenever the DMA engine
  performs the transfers, and however short the reads and writes of the kernel are. A copy that
  fails leaves every byte either as it was or already as the source has it.
\<close>

section \<open>Windows and splices\<close>

lemma length_window [simp]: "length (window xs off n) = min n (length xs - off)"
  by (simp add: window_def)

lemma nth_window [simp]: "p < n \<Longrightarrow> off + p < length xs \<Longrightarrow> window xs off n ! p = xs ! (off + p)"
  by (simp add: window_def)

lemma length_splice [simp]: "off + length ys \<le> length xs \<Longrightarrow> length (splice xs off ys) = length xs"
  by (simp add: splice_def)

lemma nth_splice:
  "off + length ys \<le> length xs \<Longrightarrow> p < length xs \<Longrightarrow>
   splice xs off ys ! p = (if off \<le> p \<and> p < off + length ys then ys ! (p - off) else xs ! p)"
  by (auto simp: splice_def nth_append)

lemma splice_empty [simp]: "splice xs off [] = xs"
  by (simp add: splice_def)

lemma window_prefix: "window (splice xs 0 ys) 0 (length ys) = ys"
  by (simp add: window_def splice_def)

text \<open>
  A copy in progress: \<open>n\<close> bytes from \<open>src\<close> at \<open>soff\<close> go to \<open>old\<close> at \<open>doff\<close>; the bytes at positions
  in \<open>P\<close> (relative to the window) have arrived.
\<close>

definition copying :: "bytes \<Rightarrow> nat \<Rightarrow> bytes \<Rightarrow> nat \<Rightarrow> nat set \<Rightarrow> bytes \<Rightarrow> bool" where
  "copying old doff src soff P got \<longleftrightarrow>
     length got = length old \<and>
     (\<forall>p < length old. got ! p =
        (if doff \<le> p \<and> p - doff \<in> P then src ! (soff + (p - doff)) else old ! p))"

lemma copying_nothing: "copying old doff src soff {} old"
  by (simp add: copying_def)

lemma copying_all:
  assumes "copying old doff src soff {..<n} got" and "doff + n \<le> length old" and "soff + n \<le> length src"
  shows "got = splice old doff (window src soff n)"
  using assms by (intro nth_equalityI) (auto simp: copying_def nth_splice)

text \<open>A piece of the window arrives.\<close>

lemma copying_piece:
  assumes "copying old doff src soff P got" and "m + n \<le> length src - soff" and "doff + (m + n) \<le> length old"
    and "ys = window src (soff + m) n"
  shows "copying old doff src soff (P \<union> {m..<m + n}) (splice got (doff + m) ys)"
proof -
  have len: "length ys = n" "length got = length old" using assms by (auto simp: copying_def)
  have s: "splice got (doff + m) ys ! p =
      (if doff \<le> p \<and> p - doff \<in> P \<union> {m..<m + n} then src ! (soff + (p - doff)) else old ! p)"
    if p: "p < length old" for p
    using assms(1,2,3) p len unfolding assms(4)
    by (auto simp: copying_def nth_splice add.assoc)
  then show ?thesis using len assms(3) unfolding copying_def by simp
qed

definition partial_copy :: "bytes \<Rightarrow> nat \<Rightarrow> bytes \<Rightarrow> nat \<Rightarrow> nat \<Rightarrow> bytes \<Rightarrow> bool" where
  "partial_copy old doff src soff n got \<longleftrightarrow>
     (\<exists>P. P \<subseteq> {..<n} \<and> copying old doff src soff P got)"

section \<open>Staging\<close>

lemma acl_check_Inr [simp]: "acl_check what r = Inr x \<longleftrightarrow> r = Inr x"
  by (cases r) (simp_all add: acl_check_def)

definition staging_ready :: "nat \<Rightarrow> u64 \<Rightarrow> staging \<Rightarrow> bool" where
  "staging_ready k cb sg \<longleftrightarrow>
     0 < k \<and> length (sg_pinned sg) = k \<and> sg_pending sg = replicate k None \<and>
     (\<forall>b \<in> set (sg_pinned sg). unat cb \<le> length b)"

text \<open>
  Device to host: \<open>live i\<close> is the window buffer \<open>i\<close> holds or is about to receive; the windows that
  are not live any more have arrived.
\<close>

definition live_window :: "(u64 \<times> u64) option \<Rightarrow> nat set" where
  "live_window v = (case v of None \<Rightarrow> {} | Some (w, m) \<Rightarrow> {unat w..<unat w + unat m})"

definition d2h_buffer :: "u64 \<Rightarrow> u64 \<Rightarrow> staging \<Rightarrow> nat \<Rightarrow> (u64 \<times> u64) option \<Rightarrow> bool" where
  "d2h_buffer cb off sg i v \<longleftrightarrow>
     (case v of
        None \<Rightarrow> sg_pending sg ! i = None
      | Some (w, m) \<Rightarrow> unat w + unat m \<le> unat off \<and> m \<le> cb \<and>
          (sg_pending sg ! i = Some (w, m) \<or>
           sg_pending sg ! i = None \<and>
             window (sg_pinned sg ! i) 0 (unat m) = window (sg_dev sg) (unat w) (unat m)))"

definition d2h_inv ::
  "u64 \<Rightarrow> staging \<Rightarrow> u64 \<Rightarrow> (nat \<Rightarrow> (u64 \<times> u64) option) \<Rightarrow> staging \<Rightarrow> bool" where
  "d2h_inv cb sg0 off live sg \<longleftrightarrow>
     sg_dev sg = sg_dev sg0 \<and> length (sg_pinned sg) = length (sg_pinned sg0) \<and>
     length (sg_pending sg) = length (sg_pinned sg0) \<and>
     (\<forall>b \<in> set (sg_pinned sg). unat cb \<le> length b) \<and>
     (\<forall>i < length (sg_pinned sg0). d2h_buffer cb off sg i (live i)) \<and>
     (\<exists>P. copying (sg_host sg0) 0 (sg_dev sg0) 0 P (sg_host sg) \<and> P \<subseteq> {..<unat off} \<and>
        {..<unat off} - P \<subseteq> (\<Union>i < length (sg_pinned sg0). live_window (live i)))"

lemma d2h_buffer_cong:
  "sg_pending sg' ! i = sg_pending sg ! i \<Longrightarrow> sg_pinned sg' ! i = sg_pinned sg ! i \<Longrightarrow> sg_dev sg' = sg_dev sg \<Longrightarrow>
   d2h_buffer cb off sg i v \<Longrightarrow> d2h_buffer cb off sg' i v"
  by (cases v) (auto simp: d2h_buffer_def)

lemma d2h_inv_cong:
  assumes "d2h_inv cb sg0 off live sg" and "\<And>i. i < length (sg_pinned sg0) \<Longrightarrow> live' i = live i"
  shows "d2h_inv cb sg0 off live' sg"
proof -
  have "(\<Union>i < length (sg_pinned sg0). live_window (live' i)) = (\<Union>i < length (sg_pinned sg0). live_window (live i))"
    using assms(2) by auto
  then show ?thesis using assms unfolding d2h_inv_def by simp
qed

lemma d2h_inv_partial: "d2h_inv cb sg0 off live sg \<Longrightarrow> off \<le> n \<Longrightarrow>
   sg_dev sg = sg_dev sg0 \<and> partial_copy (sg_host sg0) 0 (sg_dev sg0) 0 (unat n) (sg_host sg)"
  unfolding d2h_inv_def partial_copy_def word_le_nat_alt
  by (metis lessThan_subset_iff order_trans)

text \<open>The DMA into buffer \<open>i\<close>.\<close>

lemma window_dma_in:
  assumes "i < length (sg_pinned sg)" and "unat w + unat m \<le> length (sg_dev sg)"
  shows "window (sg_pinned (dma_in i w m sg) ! i) 0 (unat m) = window (sg_dev sg) (unat w) (unat m)"
  using assms window_prefix [of "sg_pinned sg ! i" "window (sg_dev sg) (unat w) (unat m)"]
  by (simp add: dma_in_def)

lemma dma_in_simps [simp]:
  "sg_dev (dma_in i w m sg) = sg_dev sg" "sg_host (dma_in i w m sg) = sg_host sg"
  "sg_pending (dma_in i w m sg) = sg_pending sg" "length (sg_pinned (dma_in i w m sg)) = length (sg_pinned sg)"
  "j \<noteq> i \<Longrightarrow> sg_pinned (dma_in i w m sg) ! j = sg_pinned sg ! j"
  by (simp_all add: dma_in_def)

lemma dma_in_sizes:
  assumes "\<forall>b \<in> set (sg_pinned sg). unat cb \<le> length b" and "i < length (sg_pinned sg)" and "m \<le> cb"
    and "unat w + unat m \<le> length (sg_dev sg)"
  shows "\<forall>b \<in> set (sg_pinned (dma_in i w m sg)). unat cb \<le> length b"
proof -
  have "unat cb \<le> length (sg_pinned sg ! i)" using assms(1,2) by simp
  then have "unat m \<le> length (sg_pinned sg ! i)" using assms(3) by (simp add: word_le_nat_alt)
  then have "length (splice (sg_pinned sg ! i) 0 (window (sg_dev sg) (unat w) (unat m))) = length (sg_pinned sg ! i)"
    using assms(4) by simp
  then show ?thesis
    using assms(1,2) set_update_subset_insert [of "sg_pinned sg" i] by (fastforce simp: dma_in_def)
qed

lemma d2h_synchronized:
  assumes inv: "d2h_inv cb sg0 off live sg" and i: "i < length (sg_pinned sg0)" and live: "live i = Some (w, m)"
    and len: "unat off \<le> length (sg_dev sg0)" and run: "synchronize_event dma_in d i w sg = (Inr u, sg1)"
  shows "window (sg_pinned sg1 ! i) 0 (unat m) = window (sg_dev sg0) (unat w) (unat m)"
    and "sg_pending sg1 ! i = None" and "d2h_inv cb sg0 off live sg1" and "sg_host sg1 = sg_host sg"
proof -
  note facts = inv [unfolded d2h_inv_def]
  have buf: "unat w + unat m \<le> unat off" "m \<le> cb"
      "sg_pending sg ! i = Some (w, m) \<or>
       sg_pending sg ! i = None \<and> window (sg_pinned sg ! i) 0 (unat m) = window (sg_dev sg) (unat w) (unat m)"
    using facts i live by (force simp: d2h_buffer_def)+
  have dev: "unat w + unat m \<le> length (sg_dev sg)" using buf(1) len facts by simp
  consider (due) "sg_pending sg ! i = Some (w, m)" "sg1 = (dma_in i w m sg)\<lparr> sg_pending := (sg_pending sg)[i := None] \<rparr>"
    | (over) "sg_pending sg ! i = None" "sg1 = sg"
        "window (sg_pinned sg ! i) 0 (unat m) = window (sg_dev sg) (unat w) (unat m)"
    using run buf(3) by (auto simp: synchronize_event_def split: sum.splits)
  then have "window (sg_pinned sg1 ! i) 0 (unat m) = window (sg_dev sg0) (unat w) (unat m) \<and>
      sg_pending sg1 ! i = None \<and> d2h_inv cb sg0 off live sg1 \<and> sg_host sg1 = sg_host sg"
  proof cases
    case due
    have w: "window (sg_pinned (dma_in i w m sg) ! i) 0 (unat m) = window (sg_dev sg) (unat w) (unat m)"
      using facts i dev by (intro window_dma_in) simp_all
    have sizes: "\<forall>b \<in> set (sg_pinned (dma_in i w m sg)). unat cb \<le> length b"
      using facts i buf(2) dev by (intro dma_in_sizes) simp_all
    have bufs: "d2h_buffer cb off sg1 j (live j)" if "j < length (sg_pinned sg0)" for j
    proof (cases "j = i")
      case True
      then show ?thesis using live buf w facts i by (simp add: d2h_buffer_def due(2))
    next
      case False
      then show ?thesis using facts that by (intro d2h_buffer_cong [of sg1 j sg]) (simp_all add: due(2))
    qed
    show ?thesis using facts w sizes bufs i unfolding d2h_inv_def due(2) by simp
  next
    case over
    then show ?thesis using inv facts by simp
  qed
  then show "window (sg_pinned sg1 ! i) 0 (unat m) = window (sg_dev sg0) (unat w) (unat m)"
    and "sg_pending sg1 ! i = None" and "d2h_inv cb sg0 off live sg1" and "sg_host sg1 = sg_host sg"
    by blast+
qed

text \<open>Copying the buffer to the host memory takes it off the live ones.\<close>

lemma d2h_arrives:
  assumes inv: "d2h_inv cb sg0 off live sg" and i: "i < length (sg_pinned sg0)" and live: "live i = Some (w, m)"
    and len: "unat off \<le> length (sg_dev sg0)" "unat off \<le> length (sg_host sg0)"
    and w: "window (sg_pinned sg ! i) 0 (unat m) = window (sg_dev sg0) (unat w) (unat m)"
    and pend: "sg_pending sg ! i = None"
  shows "d2h_inv cb sg0 off (live(i := None))
           (sg\<lparr> sg_host := splice (sg_host sg) (unat w) (window (sg_pinned sg ! i) 0 (unat m)) \<rparr>)"
proof -
  note facts = inv [unfolded d2h_inv_def]
  have le: "unat w + unat m \<le> unat off" using facts i live by (force simp: d2h_buffer_def)
  obtain P where P: "copying (sg_host sg0) 0 (sg_dev sg0) 0 P (sg_host sg)" "P \<subseteq> {..<unat off}"
      "{..<unat off} - P \<subseteq> (\<Union>i < length (sg_pinned sg0). live_window (live i))"
    using facts by blast
  have "copying (sg_host sg0) 0 (sg_dev sg0) 0 (P \<union> {unat w..<unat w + unat m})
      (splice (sg_host sg) (0 + unat w) (window (sg_pinned sg ! i) 0 (unat m)))"
    using P(1) le len w by (intro copying_piece) simp_all
  moreover have "P \<union> {unat w..<unat w + unat m} \<subseteq> {..<unat off}" using P(2) le by auto
  moreover have "{..<unat off} - (P \<union> {unat w..<unat w + unat m}) \<subseteq>
      (\<Union>j < length (sg_pinned sg0). live_window ((live(i := None)) j))"
  proof
    fix p assume p: "p \<in> {..<unat off} - (P \<union> {unat w..<unat w + unat m})"
    then obtain j where j: "j < length (sg_pinned sg0)" "p \<in> live_window (live j)" using P(3) by auto
    then have "j \<noteq> i" using p live by (auto simp: live_window_def)
    then show "p \<in> (\<Union>j < length (sg_pinned sg0). live_window ((live(i := None)) j))" using j by auto
  qed
  moreover have "d2h_buffer cb off
      (sg\<lparr> sg_host := splice (sg_host sg) (unat w) (window (sg_pinned sg ! i) 0 (unat m)) \<rparr>) j ((live(i := None)) j)"
    if "j < length (sg_pinned sg0)" for j
    using facts that pend by (cases "j = i") (auto simp: d2h_buffer_def [of _ _ _ i] intro: d2h_buffer_cong [of _ j sg])
  ultimately show ?thesis
    using facts unfolding d2h_inv_def by (auto intro: exI [of _ "P \<union> {unat w..<unat w + unat m}"])
qed

lemma d2h_collect_cases:
  assumes inv: "d2h_inv cb sg0 off live sg" and i: "i < length (sg_pinned sg0)" and live: "live i = infl ! i"
    and len: "unat off \<le> length (sg_dev sg0)" "unat off \<le> length (sg_host sg0)"
  obtains (stuck) e w where "d2h_collect d i infl cnt sg = (Inl e, sg)" "isl (dma_sync d w)"
    | (next_free) cnt' sg' where "d2h_collect d i infl cnt sg = (Inr cnt', sg')" "cc_chunks cnt' = cc_chunks cnt"
        "d2h_inv cb sg0 off (live(i := None)) sg'"
proof (cases "infl ! i")
  case None
  then have "live(i := None) = live" using live by auto
  then show ?thesis using None inv by (intro next_free [of cnt sg]) (simp_all add: d2h_collect_def)
next
  case (Some v)
  obtain w m where v: "v = (w, m)" by (cases v)
  show ?thesis
  proof (cases "dma_sync d w")
    case (Inl e)
    then show ?thesis using Some v
      by (intro stuck [of "''synchronize_event'' @ '' failed: '' @ e" w])
        (simp_all add: d2h_collect_def synchronize_event_def acl_check_def)
  next
    case (Inr u)
    obtain sg1 where run: "synchronize_event dma_in d i w sg = (Inr (), sg1)"
      using Inr by (auto simp: synchronize_event_def acl_check_def)
    have l: "live i = Some (w, m)" using live Some v by simp
    note s = d2h_synchronized [OF inv i l len(1) run]
    show ?thesis
      using Some v run d2h_arrives [OF s(3) i l len s(1,2)]
      by (intro next_free [of "cnt\<lparr> cc_waits := cc_waits cnt + 1 \<rparr>"]) (simp_all add: d2h_collect_def)
  qed
qed

text \<open>Submitting a DMA on a free buffer makes its window live.\<close>

lemma d2h_submitted:
  assumes inv: "d2h_inv cb sg0 off live sg" and i: "i < length (sg_pinned sg0)" and free: "live i = None"
    and m: "m \<le> cb" and len: "unat (off + m) = unat off + unat m" "unat (off + m) \<le> length (sg_dev sg0)"
    and run: "submit_dma dma_in what d i off m sg = (Inr u, sg')"
  shows "d2h_inv cb sg0 (off + m) (live(i := Some (off, m))) sg'"
proof -
  note facts = inv [unfolded d2h_inv_def]
  have pend: "sg_pending sg ! i = None" using facts i free by (auto simp: d2h_buffer_def)
  have dev: "unat off + unat m \<le> length (sg_dev sg)" using facts len by simp
  have grow: "d2h_buffer cb (off + m) sg j v" if "d2h_buffer cb off sg j v" for j v
    using that len(1) by (auto simp: d2h_buffer_def split: option.splits)
  obtain P where P: "copying (sg_host sg0) 0 (sg_dev sg0) 0 P (sg_host sg)" "P \<subseteq> {..<unat off}"
      "{..<unat off} - P \<subseteq> (\<Union>i < length (sg_pinned sg0). live_window (live i))"
    using facts by blast
  have cover: "{..<unat (off + m)} - P \<subseteq> (\<Union>j < length (sg_pinned sg0). live_window ((live(i := Some (off, m))) j))"
  proof
    fix p assume p: "p \<in> {..<unat (off + m)} - P"
    show "p \<in> (\<Union>j < length (sg_pinned sg0). live_window ((live(i := Some (off, m))) j))"
    proof (cases "p < unat off")
      case True
      then obtain j where j: "j < length (sg_pinned sg0)" "p \<in> live_window (live j)" using P(3) p by auto
      then have "j \<noteq> i" using free by (auto simp: live_window_def)
      then show ?thesis using j by auto
    next
      case False
      then show ?thesis using p len(1) i by (auto simp: live_window_def intro!: bexI [of _ i])
    qed
  qed
  have sub: "P \<subseteq> {..<unat (off + m)}" using P(2) len(1) by auto
  consider (eager) "sg' = dma_in i off m sg" | (lazy) "sg' = sg\<lparr> sg_pending := (sg_pending sg)[i := Some (off, m)] \<rparr>"
    using run by (auto simp: submit_dma_def split: sum.splits if_splits)
  then show ?thesis
  proof cases
    case eager
    have "window (sg_pinned sg' ! i) 0 (unat m) = window (sg_dev sg) (unat off) (unat m)"
      unfolding eager using facts i dev by (intro window_dma_in) simp_all
    moreover have "\<forall>b \<in> set (sg_pinned sg'). unat cb \<le> length b"
      unfolding eager using facts i m dev by (intro dma_in_sizes) simp_all
    moreover have "d2h_buffer cb (off + m) sg' j (live j)" if "j < length (sg_pinned sg0)" "j \<noteq> i" for j
      using facts that grow by (intro d2h_buffer_cong [of sg' j sg]) (simp_all add: eager)
    ultimately show ?thesis
      using facts pend m len P(1) sub cover unfolding d2h_inv_def
      by (auto simp: eager d2h_buffer_def [of _ _ _ i])
  next
    case lazy
    have "d2h_buffer cb (off + m) sg' j (live j)" if "j < length (sg_pinned sg0)" "j \<noteq> i" for j
      using facts that grow by (intro d2h_buffer_cong [of sg' j sg]) (simp_all add: lazy)
    then show ?thesis
      using facts i m len P(1) sub cover unfolding d2h_inv_def
      by (auto simp: lazy d2h_buffer_def [of _ _ _ i])
  qed
qed

text \<open>What a device-to-host copy of \<open>n\<close> bytes may end in.\<close>

definition d2h_outcome :: "dma \<Rightarrow> u64 \<Rightarrow> staging \<Rightarrow> copy_result \<Rightarrow> bool" where
  "d2h_outcome d n sg0 res \<longleftrightarrow>
     sg_dev (snd res) = sg_dev sg0 \<and>
     (case fst res of
        Inr _ \<Rightarrow> sg_host (snd res) = splice (sg_host sg0) 0 (window (sg_dev sg0) 0 (unat n))
      | Inl _ \<Rightarrow> partial_copy (sg_host sg0) 0 (sg_dev sg0) 0 (unat n) (sg_host (snd res)) \<and>
          (\<exists>w. isl (dma_submit d w) \<or> isl (dma_sync d w) \<or> isl (dma_copy d w)))"

lemma d2h_drain_outcome:
  assumes "d2h_inv cb sg0 n live sg" and "\<forall>i < length (sg_pinned sg0). live i = (if i \<in> set is then infl ! i else None)"
    and "set is \<subseteq> {..<length (sg_pinned sg0)}" and "distinct is"
    and "unat n \<le> length (sg_dev sg0)" "unat n \<le> length (sg_host sg0)"
  shows "d2h_outcome d n sg0 (d2h_drain d is infl cnt sg)"
  using assms(1-4)
proof (induction "is" arbitrary: live cnt sg)
  case Nil
  then obtain P where P: "copying (sg_host sg0) 0 (sg_dev sg0) 0 P (sg_host sg)" "P \<subseteq> {..<unat n}"
      "{..<unat n} - P \<subseteq> (\<Union>i < length (sg_pinned sg0). live_window (live i))" "sg_dev sg = sg_dev sg0"
    unfolding d2h_inv_def by blast
  have "(\<Union>i < length (sg_pinned sg0). live_window (live i)) = {}" using Nil(2) by (auto simp: live_window_def)
  then have "P = {..<unat n}" using P(2,3) by blast
  then show ?case using P assms(5,6) copying_all [of _ 0 _ 0 "unat n"] by (auto simp: d2h_outcome_def)
next
  case (Cons i "is")
  have i: "i < length (sg_pinned sg0)" "live i = infl ! i" using Cons.prems by auto
  show ?case
    using Cons.prems(1) i(1) i(2) assms(5,6)
  proof (cases rule: d2h_collect_cases [where d = d and cnt = cnt])
    case (stuck e w)
    then show ?thesis using d2h_inv_partial [OF Cons.prems(1) order_refl] by (auto simp: d2h_outcome_def)
  next
    case (next_free cnt' sg')
    have "d2h_outcome d n sg0 (d2h_drain d is infl cnt' sg')"
      by (rule Cons.IH [OF next_free(3)]) (use Cons.prems(2-4) in auto)
    then show ?thesis using next_free(1) by simp
  qed
qed

lemma d2h_async_outcome:
  assumes "d2h_inv cb sg0 off (\<lambda>i. infl ! i) sg" and "length infl = length (sg_pinned sg0)" and "off \<le> n"
    and "0 < cb" and "0 < length (sg_pinned sg0)"
    and "unat n \<le> length (sg_dev sg0)" "unat n \<le> length (sg_host sg0)"
  shows "\<exists>res. d2h_async d cb n off infl cnt sg = Some res \<and> d2h_outcome d n sg0 res"
  using assms(1-3)
proof (induction "unat n - unat off" arbitrary: off infl cnt sg rule: less_induct)
  case less
  have le: "unat off \<le> unat n" using less.prems(3) by (simp add: word_le_nat_alt)
  show ?case
  proof (cases "off < n")
    case True
    define ci where "ci = unat (cc_chunks cnt) mod length infl"
    define m where "m = min (n - off) cb"
    note step = chunk_step [OF True assms(4), folded m_def]
    have ci: "ci < length (sg_pinned sg0)" using assms(5) less.prems(2) by (simp add: ci_def)
    have lens: "unat off \<le> length (sg_dev sg0)" "unat off \<le> length (sg_host sg0)" using le assms(6,7) by simp_all
    show ?thesis
      using less.prems(1) ci refl lens
    proof (cases rule: d2h_collect_cases [where d = d and cnt = cnt and infl = infl])
      case (stuck e w)
      then show ?thesis using True d2h_inv_partial [OF less.prems(1,3)]
        by (subst d2h_async.simps) (auto simp: d2h_outcome_def Let_def ci_def [symmetric])
    next
      case (next_free cnt' sg')
      show ?thesis
      proof (cases "dma_submit d off")
        case (Inl e)
        then show ?thesis using True d2h_inv_partial [OF next_free(3) less.prems(3)] next_free(1)
          by (subst d2h_async.simps)
            (auto simp: d2h_outcome_def Let_def ci_def [symmetric] submit_dma_def acl_check_def intro!: exI [of _ off])
      next
        case (Inr u)
        obtain sg2 where run: "submit_dma dma_in ''d2h_async_on_stream'' d ci off m sg' = (Inr (), sg2)"
          using Inr by (auto simp: submit_dma_def acl_check_def)
        have inv: "d2h_inv cb sg0 (off + m) ((\<lambda>i. infl ! i)(ci := None, ci := Some (off, m))) sg2"
          by (rule d2h_submitted [OF next_free(3) ci _ _ _ _ run])
            (use step assms(6) le in \<open>auto simp: m_def word_le_nat_alt\<close>)
        have "d2h_inv cb sg0 (off + m) (\<lambda>i. infl[ci := Some (off, m)] ! i) sg2"
          by (rule d2h_inv_cong [OF inv]) (use less.prems(2) in \<open>auto simp: nth_list_update\<close>)
        from less.hyps [OF step(6) this _ step(3), of "cnt'\<lparr> cc_records := cc_records cnt' + 1, cc_chunks := cc_chunks cnt' + 1 \<rparr>"]
        obtain res where "d2h_async d cb n (off + m) (infl[ci := Some (off, m)])
            (cnt'\<lparr> cc_records := cc_records cnt' + 1, cc_chunks := cc_chunks cnt' + 1 \<rparr>) sg2 = Some res"
          "d2h_outcome d n sg0 res" using less.prems(2) by auto
        then show ?thesis using True next_free(1) run
          by (subst d2h_async.simps) (simp add: Let_def ci_def [symmetric] m_def [symmetric])
      qed
    qed
  next
    case False
    then have n: "off = n" using less.prems(3) by simp
    have "d2h_outcome d n sg0 (d2h_drain d [0..<length infl] infl cnt sg)"
      using less.prems n assms(6,7) by (intro d2h_drain_outcome) auto
    then show ?thesis using False by (subst d2h_async.simps) simp
  qed
qed

text \<open>One buffer used synchronously.\<close>

lemma d2h_sync_outcome:
  assumes "copying (sg_host sg0) 0 (sg_dev sg0) 0 {..<unat off} (sg_host sg)" and "sg_dev sg = sg_dev sg0"
    and "0 < length (sg_pinned sg)" and "off \<le> n" and "0 < cb"
    and "unat n \<le> length (sg_dev sg0)" "unat n \<le> length (sg_host sg0)"
  shows "\<exists>res. d2h_sync d cb n off cnt sg = Some res \<and> d2h_outcome d n sg0 res"
  using assms(1-4)
proof (induction "unat n - unat off" arbitrary: off cnt sg rule: less_induct)
  case less
  have le: "unat off \<le> unat n" using less.prems(4) by (simp add: word_le_nat_alt)
  show ?case
  proof (cases "off < n")
    case True
    define i where "i = unat (cc_chunks cnt) mod length (sg_pinned sg)"
    define m where "m = min (n - off) cb"
    note step = chunk_step [OF True assms(5), folded m_def]
    have i: "i < length (sg_pinned sg)" using less.prems(3) by (simp add: i_def)
    define sg1 where "sg1 = dma_in i off m sg"
    define sg2 where "sg2 = sg1\<lparr> sg_host := splice (sg_host sg) (unat off) (window (sg_pinned sg1 ! i) 0 (unat m)) \<rparr>"
    have off: "unat (off + m) = unat off + unat m" using step(1,5) by simp
    have bound: "unat off + unat m \<le> unat n" using step(3) off by (simp add: word_le_nat_alt)
    show ?thesis
    proof (cases "dma_copy d off")
      case (Inl e)
      have "partial_copy (sg_host sg0) 0 (sg_dev sg0) 0 (unat n) (sg_host sg)"
        using less.prems(1) le unfolding partial_copy_def by (intro exI [of _ "{..<unat off}"]) auto
      then show ?thesis using True Inl less.prems(2)
        by (subst d2h_sync.simps) (auto simp: d2h_outcome_def Let_def acl_check_def intro!: exI [of _ off])
    next
      case (Inr u)
      have "window (sg_pinned sg1 ! i) 0 (unat m) = window (sg_dev sg) (unat off) (unat m)"
        unfolding sg1_def using i bound assms(6) less.prems(2) by (intro window_dma_in) simp_all
      then have "copying (sg_host sg0) 0 (sg_dev sg0) 0 ({..<unat off} \<union> {unat off..<unat off + unat m})
          (splice (sg_host sg) (0 + unat off) (window (sg_pinned sg1 ! i) 0 (unat m)))"
        using less.prems(1,2) bound assms(6,7) by (intro copying_piece) simp_all
      moreover have "{..<unat off} \<union> {unat off..<unat off + unat m} = {..<unat (off + m)}" using off by auto
      ultimately have "copying (sg_host sg0) 0 (sg_dev sg0) 0 {..<unat (off + m)} (sg_host sg2)"
        by (simp add: sg2_def)
      from less.hyps [OF step(6) this _ _ step(3), of "cnt\<lparr> cc_chunks := cc_chunks cnt + 1 \<rparr>"]
      obtain res where "d2h_sync d cb n (off + m) (cnt\<lparr> cc_chunks := cc_chunks cnt + 1 \<rparr>) sg2 = Some res"
        "d2h_outcome d n sg0 res" using less.prems(2,3) by (auto simp: sg2_def sg1_def)
      then show ?thesis using True Inr unfolding sg2_def sg1_def
        by (subst d2h_sync.simps)
          (simp add: Let_def acl_check_def i_def [symmetric] m_def [symmetric])
    qed
  next
    case False
    then have n: "off = n" using less.prems(4) by simp
    have "sg_host sg = splice (sg_host sg0) 0 (window (sg_dev sg0) 0 (unat n))"
      using less.prems(1) assms(6,7) n by (intro copying_all) simp_all
    then show ?thesis using False less.prems(2) by (subst d2h_sync.simps) (simp add: d2h_outcome_def)
  qed
qed

text \<open>The two ways a staged read starts.\<close>

lemma staged_read_outcome:
  assumes "staging_ready k cb sg" and "0 < cb" and "unat n \<le> length (sg_dev sg)" "unat n \<le> length (sg_host sg)"
  shows "\<exists>res. d2h_async d cb n 0 (replicate k None) no_counts sg = Some res \<and> d2h_outcome d n sg res"
    and "\<exists>res. d2h_sync d cb n 0 no_counts sg = Some res \<and> d2h_outcome d n sg res"
proof -
  have r: "0 < k" "length (sg_pinned sg) = k" "sg_pending sg = replicate k None"
      "\<forall>b \<in> set (sg_pinned sg). unat cb \<le> length b"
    using assms(1) by (auto simp: staging_ready_def)
  have "d2h_inv cb sg 0 (\<lambda>i. replicate k None ! i) sg"
    using r by (auto simp: d2h_inv_def d2h_buffer_def intro!: exI [of _ "{}"] copying_nothing)
  then show "\<exists>res. d2h_async d cb n 0 (replicate k None) no_counts sg = Some res \<and> d2h_outcome d n sg res"
    using r assms(2-4) by (intro d2h_async_outcome) simp_all
  show "\<exists>res. d2h_sync d cb n 0 no_counts sg = Some res \<and> d2h_outcome d n sg res"
    using r assms(2-4) by (intro d2h_sync_outcome) (simp_all add: copying_nothing)
qed

section \<open>Host to device\<close>

text \<open>A DMA that is still due reads a buffer that holds its window of the host memory.\<close>

definition h2d_buffer :: "u64 \<Rightarrow> u64 \<Rightarrow> staging \<Rightarrow> nat \<Rightarrow> u64 option \<Rightarrow> bool" where
  "h2d_buffer cb off sg i v \<longleftrightarrow>
     (case sg_pending sg ! i of
        None \<Rightarrow> True
      | Some (w, m) \<Rightarrow> v = Some w \<and> unat w + unat m \<le> unat off \<and> m \<le> cb \<and>
          window (sg_pinned sg ! i) 0 (unat m) = window (sg_host sg) (unat w) (unat m))"

definition h2d_inv :: "u64 \<Rightarrow> staging \<Rightarrow> u64 \<Rightarrow> (nat \<Rightarrow> u64 option) \<Rightarrow> staging \<Rightarrow> bool" where
  "h2d_inv cb sg0 off live sg \<longleftrightarrow>
     sg_host sg = sg_host sg0 \<and> length (sg_pinned sg) = length (sg_pinned sg0) \<and>
     length (sg_pending sg) = length (sg_pinned sg0) \<and>
     (\<forall>b \<in> set (sg_pinned sg). unat cb \<le> length b) \<and>
     (\<forall>i < length (sg_pinned sg0). h2d_buffer cb off sg i (live i)) \<and>
     (\<exists>P. copying (sg_dev sg0) 0 (sg_host sg0) 0 P (sg_dev sg) \<and> P \<subseteq> {..<unat off} \<and>
        {..<unat off} - P \<subseteq> (\<Union>i < length (sg_pinned sg0). live_window (sg_pending sg ! i)))"

lemma h2d_buffer_cong:
  "sg_pending sg' ! i = sg_pending sg ! i \<Longrightarrow> sg_pinned sg' ! i = sg_pinned sg ! i \<Longrightarrow> sg_host sg' = sg_host sg \<Longrightarrow>
   h2d_buffer cb off sg i v \<Longrightarrow> h2d_buffer cb off sg' i v"
  by (cases "sg_pending sg ! i") (auto simp: h2d_buffer_def)

lemma h2d_inv_partial: "h2d_inv cb sg0 off live sg \<Longrightarrow> off \<le> n \<Longrightarrow>
   sg_host sg = sg_host sg0 \<and> partial_copy (sg_dev sg0) 0 (sg_host sg0) 0 (unat n) (sg_dev sg)"
  unfolding h2d_inv_def partial_copy_def word_le_nat_alt
  by (metis lessThan_subset_iff order_trans)

lemma h2d_inv_cong:
  "h2d_inv cb sg0 off live sg \<Longrightarrow> (\<And>i. i < length (sg_pinned sg0) \<Longrightarrow> live' i = live i) \<Longrightarrow>
   h2d_inv cb sg0 off live' sg"
  unfolding h2d_inv_def by simp

lemma dma_out_simps [simp]:
  "sg_host (dma_out i w m sg) = sg_host sg" "sg_pending (dma_out i w m sg) = sg_pending sg"
  "sg_pinned (dma_out i w m sg) = sg_pinned sg"
  by (simp_all add: dma_out_def)

text \<open>A DMA that happens delivers its window.\<close>

lemma h2d_delivers:
  assumes "copying (sg_dev sg0) 0 (sg_host sg0) 0 P (sg_dev sg)"
    and "window (sg_pinned sg ! i) 0 (unat m) = window (sg_host sg0) (unat w) (unat m)"
    and "unat w + unat m \<le> length (sg_dev sg0)" "unat w + unat m \<le> length (sg_host sg0)"
  shows "copying (sg_dev sg0) 0 (sg_host sg0) 0 (P \<union> {unat w..<unat w + unat m}) (sg_dev (dma_out i w m sg))"
proof -
  have "copying (sg_dev sg0) 0 (sg_host sg0) 0 (P \<union> {unat w..<unat w + unat m})
      (splice (sg_dev sg) (0 + unat w) (window (sg_pinned sg ! i) 0 (unat m)))"
    using assms by (intro copying_piece) simp_all
  then show ?thesis by (simp add: dma_out_def)
qed

lemma h2d_due:
  assumes inv: "h2d_inv cb sg0 off live sg" and i: "i < length (sg_pinned sg0)"
    and due: "sg_pending sg ! i = Some (w, m)"
    and len: "unat off \<le> length (sg_dev sg0)" "unat off \<le> length (sg_host sg0)"
  shows "h2d_inv cb sg0 off (live(i := None)) ((dma_out i w m sg)\<lparr> sg_pending := (sg_pending sg)[i := None] \<rparr>)"
    (is "h2d_inv _ _ _ _ ?sg")
proof -
  note facts = inv [unfolded h2d_inv_def]
  have "h2d_buffer cb off sg i (live i)" using facts i by blast
  then have buf: "unat w + unat m \<le> unat off"
      "window (sg_pinned sg ! i) 0 (unat m) = window (sg_host sg0) (unat w) (unat m)"
    using facts by (auto simp: h2d_buffer_def due)
  obtain P where P: "copying (sg_dev sg0) 0 (sg_host sg0) 0 P (sg_dev sg)" "P \<subseteq> {..<unat off}"
      "{..<unat off} - P \<subseteq> (\<Union>i < length (sg_pinned sg0). live_window (sg_pending sg ! i))"
    using facts by blast
  let ?Q = "P \<union> {unat w..<unat w + unat m}"
  have "copying (sg_dev sg0) 0 (sg_host sg0) 0 ?Q (sg_dev ?sg)"
    using h2d_delivers [OF P(1) buf(2)] buf(1) len by simp
  moreover have "?Q \<subseteq> {..<unat off}" using P(2) buf(1) by auto
  moreover have "{..<unat off} - ?Q \<subseteq> (\<Union>j < length (sg_pinned sg0). live_window (sg_pending ?sg ! j))"
  proof
    fix p assume p: "p \<in> {..<unat off} - ?Q"
    then obtain j where j: "j < length (sg_pinned sg0)" "p \<in> live_window (sg_pending sg ! j)" using P(3) by auto
    then have "j \<noteq> i" using p due by (auto simp: live_window_def)
    then show "p \<in> (\<Union>j < length (sg_pinned sg0). live_window (sg_pending ?sg ! j))"
      using j by (auto intro!: bexI [of _ j])
  qed
  moreover have "h2d_buffer cb off ?sg j ((live(i := None)) j)" if "j < length (sg_pinned sg0)" for j
    using facts that by (cases "j = i") (auto simp: h2d_buffer_def [of _ _ _ i] intro: h2d_buffer_cong [of _ j sg])
  ultimately show ?thesis using facts unfolding h2d_inv_def by (auto intro!: exI [of _ ?Q])
qed

lemma h2d_collect_cases:
  assumes inv: "h2d_inv cb sg0 off live sg" and i: "i < length (sg_pinned sg0)" and live: "live i = infl ! i"
    and len: "unat off \<le> length (sg_dev sg0)" "unat off \<le> length (sg_host sg0)"
  obtains (stuck) e w where "h2d_collect d i infl cnt sg = (Inl e, sg)" "isl (dma_sync d w)"
    | (next_free) cnt' sg' where "h2d_collect d i infl cnt sg = (Inr cnt', sg')"
        "h2d_inv cb sg0 off (live(i := None)) sg'"
proof (cases "infl ! i")
  case None
  then have "live(i := None) = live" using live by auto
  then show ?thesis using None inv by (intro next_free [of cnt sg]) (simp_all add: h2d_collect_def)
next
  case (Some w)
  show ?thesis
  proof (cases "dma_sync d w")
    case (Inl e)
    then show ?thesis using Some
      by (intro stuck [of "''synchronize_event'' @ '' failed: '' @ e" w])
        (simp_all add: h2d_collect_def synchronize_event_def acl_check_def)
  next
    case (Inr u)
    define sg' where "sg' = snd (synchronize_event dma_out d i w sg)"
    have "h2d_inv cb sg0 off (live(i := None)) sg'"
    proof (cases "sg_pending sg ! i")
      case None
      then have "sg' = sg" using Inr by (simp add: sg'_def synchronize_event_def acl_check_def)
      moreover have "h2d_buffer cb off sg j ((live(i := None)) j)" if "j < length (sg_pinned sg0)" for j
        using inv that None by (cases "j = i") (auto simp: h2d_inv_def h2d_buffer_def [of _ _ _ i])
      ultimately show ?thesis using inv unfolding h2d_inv_def by simp
    next
      case (Some v)
      obtain a b where v: "v = (a, b)" by (cases v)
      show ?thesis using h2d_due [OF inv i Some [unfolded v] len] Inr Some v
        by (simp add: sg'_def synchronize_event_def acl_check_def)
    qed
    moreover have "h2d_collect d i infl cnt sg = (Inr (cnt\<lparr> cc_waits := cc_waits cnt + 1 \<rparr>), sg')"
      using Some Inr by (simp add: h2d_collect_def sg'_def synchronize_event_def acl_check_def)
    ultimately show ?thesis by (rule next_free [rotated])
  qed
qed

text \<open>Filling a free buffer and submitting its DMA.\<close>

lemma fill_pinned_simps [simp]:
  "sg_dev (fill_pinned i w m sg) = sg_dev sg" "sg_host (fill_pinned i w m sg) = sg_host sg"
  "sg_pending (fill_pinned i w m sg) = sg_pending sg" "length (sg_pinned (fill_pinned i w m sg)) = length (sg_pinned sg)"
  "j \<noteq> i \<Longrightarrow> sg_pinned (fill_pinned i w m sg) ! j = sg_pinned sg ! j"
  by (simp_all add: fill_pinned_def)

lemma window_fill_pinned:
  assumes "i < length (sg_pinned sg)" and "unat w + unat m \<le> length (sg_host sg)"
  shows "window (sg_pinned (fill_pinned i w m sg) ! i) 0 (unat m) = window (sg_host sg) (unat w) (unat m)"
  using assms window_prefix [of "sg_pinned sg ! i" "window (sg_host sg) (unat w) (unat m)"]
  by (simp add: fill_pinned_def)

lemma fill_pinned_sizes:
  assumes "\<forall>b \<in> set (sg_pinned sg). unat cb \<le> length b" and "i < length (sg_pinned sg)" and "m \<le> cb"
    and "unat w + unat m \<le> length (sg_host sg)"
  shows "\<forall>b \<in> set (sg_pinned (fill_pinned i w m sg)). unat cb \<le> length b"
proof -
  have "unat cb \<le> length (sg_pinned sg ! i)" using assms(1,2) by simp
  then have "unat m \<le> length (sg_pinned sg ! i)" using assms(3) by (simp add: word_le_nat_alt)
  then have "length (splice (sg_pinned sg ! i) 0 (window (sg_host sg) (unat w) (unat m))) = length (sg_pinned sg ! i)"
    using assms(4) by simp
  then show ?thesis
    using assms(1,2) set_update_subset_insert [of "sg_pinned sg" i] by (fastforce simp: fill_pinned_def)
qed

lemma h2d_filled:
  assumes inv: "h2d_inv cb sg0 off live sg" and i: "i < length (sg_pinned sg0)" and free: "live i = None"
    and m: "m \<le> cb" and len: "unat off + unat m \<le> length (sg_host sg0)"
  shows "h2d_inv cb sg0 off live (fill_pinned i off m sg)" and "sg_pending sg ! i = None"
proof -
  note facts = inv [unfolded h2d_inv_def]
  have "h2d_buffer cb off sg i None" using facts i free by metis
  then show pend: "sg_pending sg ! i = None" by (simp add: h2d_buffer_def split: option.splits)
  have "h2d_buffer cb off (fill_pinned i off m sg) j (live j)" if "j < length (sg_pinned sg0)" for j
    using facts that pend by (cases "j = i") (auto simp: h2d_buffer_def [of _ _ _ i] intro: h2d_buffer_cong [of _ j sg])
  moreover have "\<forall>b \<in> set (sg_pinned (fill_pinned i off m sg)). unat cb \<le> length b"
    using facts i m len by (intro fill_pinned_sizes) simp_all
  ultimately show "h2d_inv cb sg0 off live (fill_pinned i off m sg)" using facts unfolding h2d_inv_def by simp
qed

lemma h2d_submitted:
  assumes inv: "h2d_inv cb sg0 off live sg" and i: "i < length (sg_pinned sg0)" and free: "live i = None"
    and pend: "sg_pending sg ! i = None"
    and full: "window (sg_pinned sg ! i) 0 (unat m) = window (sg_host sg0) (unat off) (unat m)"
    and m: "m \<le> cb" and len: "unat (off + m) = unat off + unat m" "unat (off + m) \<le> length (sg_dev sg0)"
      "unat (off + m) \<le> length (sg_host sg0)"
    and run: "submit_dma dma_out what d i off m sg = (Inr u, sg')"
  shows "h2d_inv cb sg0 (off + m) (live(i := Some off)) sg'"
proof -
  note facts = inv [unfolded h2d_inv_def]
  have grow: "h2d_buffer cb (off + m) sg j v" if "h2d_buffer cb off sg j v" for j v
    using that len(1) by (auto simp: h2d_buffer_def split: option.splits)
  obtain P where P: "copying (sg_dev sg0) 0 (sg_host sg0) 0 P (sg_dev sg)" "P \<subseteq> {..<unat off}"
      "{..<unat off} - P \<subseteq> (\<Union>i < length (sg_pinned sg0). live_window (sg_pending sg ! i))"
    using facts by blast
  consider (eager) "sg' = dma_out i off m sg" | (lazy) "sg' = sg\<lparr> sg_pending := (sg_pending sg)[i := Some (off, m)] \<rparr>"
    using run by (auto simp: submit_dma_def split: sum.splits if_splits)
  then show ?thesis
  proof cases
    case eager
    let ?Q = "P \<union> {unat off..<unat off + unat m}"
    have "copying (sg_dev sg0) 0 (sg_host sg0) 0 ?Q (sg_dev sg')"
      unfolding eager using h2d_delivers [OF P(1) full] len by simp
    moreover have "?Q \<subseteq> {..<unat (off + m)}" using P(2) len(1) by auto
    moreover have "{..<unat (off + m)} - ?Q \<subseteq> {..<unat off} - P" using len(1) by auto
    then have "{..<unat (off + m)} - ?Q \<subseteq> (\<Union>j < length (sg_pinned sg0). live_window (sg_pending sg' ! j))"
      using P(3) by (simp add: eager)
    moreover have "h2d_buffer cb (off + m) sg' j ((live(i := Some off)) j)" if "j < length (sg_pinned sg0)" for j
      using facts that grow pend
      by (cases "j = i") (auto simp: eager h2d_buffer_def [of _ _ _ i] intro: h2d_buffer_cong [of _ j sg])
    ultimately show ?thesis using facts unfolding h2d_inv_def by (auto simp: eager intro!: exI [of _ ?Q])
  next
    case lazy
    have "{..<unat (off + m)} - P \<subseteq> (\<Union>j < length (sg_pinned sg0). live_window (sg_pending sg' ! j))"
    proof
      fix p assume p: "p \<in> {..<unat (off + m)} - P"
      show "p \<in> (\<Union>j < length (sg_pinned sg0). live_window (sg_pending sg' ! j))"
      proof (cases "p < unat off")
        case True
        then obtain j where j: "j < length (sg_pinned sg0)" "p \<in> live_window (sg_pending sg ! j)" using P(3) p by auto
        then have "j \<noteq> i" using pend by (auto simp: live_window_def)
        then show ?thesis using j by (auto simp: lazy intro!: bexI [of _ j])
      next
        case False
        then show ?thesis using p len(1) i facts by (auto simp: lazy live_window_def intro!: bexI [of _ i])
      qed
    qed
    moreover have "P \<subseteq> {..<unat (off + m)}" using P(2) len(1) by auto
    moreover have "h2d_buffer cb (off + m) sg' j ((live(i := Some off)) j)" if "j < length (sg_pinned sg0)" for j
      using facts that grow full m len i
      by (cases "j = i") (auto simp: lazy h2d_buffer_def [of _ _ _ i] intro: h2d_buffer_cong [of _ j sg])
    ultimately show ?thesis using facts P(1) unfolding h2d_inv_def by (auto simp: lazy intro!: exI [of _ P])
  qed
qed

definition h2d_outcome :: "dma \<Rightarrow> u64 \<Rightarrow> staging \<Rightarrow> copy_result \<Rightarrow> bool" where
  "h2d_outcome d n sg0 res \<longleftrightarrow>
     sg_host (snd res) = sg_host sg0 \<and>
     (case fst res of
        Inr _ \<Rightarrow> sg_dev (snd res) = splice (sg_dev sg0) 0 (window (sg_host sg0) 0 (unat n))
      | Inl _ \<Rightarrow> partial_copy (sg_dev sg0) 0 (sg_host sg0) 0 (unat n) (sg_dev (snd res)) \<and>
          (\<exists>w. isl (dma_submit d w) \<or> isl (dma_sync d w) \<or> isl (dma_copy d w)))"

lemma h2d_drain_outcome:
  assumes "h2d_inv cb sg0 n live sg" and "\<forall>i < length (sg_pinned sg0). live i = (if i \<in> set is then infl ! i else None)"
    and "set is \<subseteq> {..<length (sg_pinned sg0)}" and "distinct is"
    and "unat n \<le> length (sg_dev sg0)" "unat n \<le> length (sg_host sg0)"
  shows "h2d_outcome d n sg0 (h2d_drain d is infl cnt sg)"
  using assms(1-4)
proof (induction "is" arbitrary: live cnt sg)
  case Nil
  then obtain P where P: "copying (sg_dev sg0) 0 (sg_host sg0) 0 P (sg_dev sg)" "P \<subseteq> {..<unat n}"
      "{..<unat n} - P \<subseteq> (\<Union>i < length (sg_pinned sg0). live_window (sg_pending sg ! i))" "sg_host sg = sg_host sg0"
    unfolding h2d_inv_def by blast
  have "sg_pending sg ! i = None" if "i < length (sg_pinned sg0)" for i
  proof -
    have "h2d_buffer cb n sg i None" using Nil(1,2) that unfolding h2d_inv_def by simp
    then show ?thesis by (simp add: h2d_buffer_def split: option.splits)
  qed
  then have "(\<Union>i < length (sg_pinned sg0). live_window (sg_pending sg ! i)) = {}" by (auto simp: live_window_def)
  then have "P = {..<unat n}" using P(2,3) by blast
  then show ?case using P assms(5,6) copying_all [of _ 0 _ 0 "unat n"] by (auto simp: h2d_outcome_def)
next
  case (Cons i "is")
  have i: "i < length (sg_pinned sg0)" "live i = infl ! i" using Cons.prems by auto
  show ?case
    using Cons.prems(1) i(1) i(2) assms(5,6)
  proof (cases rule: h2d_collect_cases [where d = d and cnt = cnt])
    case (stuck e w)
    then show ?thesis using h2d_inv_partial [OF Cons.prems(1) order_refl] by (auto simp: h2d_outcome_def)
  next
    case (next_free cnt' sg')
    have "h2d_outcome d n sg0 (h2d_drain d is infl cnt' sg')"
      by (rule Cons.IH [OF next_free(2)]) (use Cons.prems(2-4) in auto)
    then show ?thesis using next_free(1) by simp
  qed
qed

lemma h2d_async_outcome:
  assumes "h2d_inv cb sg0 off (\<lambda>i. infl ! i) sg" and "length infl = length (sg_pinned sg0)" and "off \<le> n"
    and "0 < cb" and "0 < length (sg_pinned sg0)"
    and "unat n \<le> length (sg_dev sg0)" "unat n \<le> length (sg_host sg0)"
  shows "\<exists>res. h2d_async d cb n off infl cnt sg = Some res \<and> h2d_outcome d n sg0 res"
  using assms(1-3)
proof (induction "unat n - unat off" arbitrary: off infl cnt sg rule: less_induct)
  case less
  have le: "unat off \<le> unat n" using less.prems(3) by (simp add: word_le_nat_alt)
  show ?case
  proof (cases "off < n")
    case True
    define ci where "ci = unat (cc_chunks cnt) mod length infl"
    define m where "m = min (n - off) cb"
    note step = chunk_step [OF True assms(4), folded m_def]
    have ci: "ci < length (sg_pinned sg0)" using assms(5) less.prems(2) by (simp add: ci_def)
    have lens: "unat off \<le> length (sg_dev sg0)" "unat off \<le> length (sg_host sg0)" using le assms(6,7) by simp_all
    have off: "unat (off + m) = unat off + unat m" "m \<le> cb" using step(1,5) by (simp_all add: m_def)
    have bound: "unat off + unat m \<le> unat n" using step(3) off by (simp add: word_le_nat_alt)
    show ?thesis
      using less.prems(1) ci refl lens
    proof (cases rule: h2d_collect_cases [where d = d and cnt = cnt and infl = infl])
      case (stuck e w)
      then show ?thesis using True h2d_inv_partial [OF less.prems(1,3)]
        by (subst h2d_async.simps) (auto simp: h2d_outcome_def Let_def ci_def [symmetric])
    next
      case (next_free cnt' sg')
      define sg1 where "sg1 = fill_pinned ci off m sg'"
      have sg1: "h2d_inv cb sg0 off ((\<lambda>i. infl ! i)(ci := None)) sg1" "sg_pending sg1 ! ci = None"
        using h2d_filled [OF next_free(2) ci _ off(2)] bound assms(7) by (simp_all add: sg1_def)
      have full: "window (sg_pinned sg1 ! ci) 0 (unat m) = window (sg_host sg0) (unat off) (unat m)"
        using next_free(2) ci bound assms(7) window_fill_pinned [of ci sg' off m]
        by (simp add: sg1_def h2d_inv_def)
      show ?thesis
      proof (cases "dma_submit d off")
        case (Inl e)
        then show ?thesis using True h2d_inv_partial [OF sg1(1) less.prems(3)] next_free(1)
          by (subst h2d_async.simps)
            (auto simp: h2d_outcome_def Let_def ci_def [symmetric] m_def [symmetric] sg1_def [symmetric]
              submit_dma_def acl_check_def intro!: exI [of _ off])
      next
        case (Inr u)
        obtain sg2 where run: "submit_dma dma_out ''h2d_async_on_stream'' d ci off m sg1 = (Inr (), sg2)"
          using Inr by (auto simp: submit_dma_def acl_check_def)
        have inv: "h2d_inv cb sg0 (off + m) ((\<lambda>i. infl ! i)(ci := None, ci := Some off)) sg2"
          by (rule h2d_submitted [OF sg1(1) ci _ sg1(2) full off(2,1) _ _ run])
            (use bound off assms(6,7) in simp_all)
        have "h2d_inv cb sg0 (off + m) (\<lambda>i. infl[ci := Some off] ! i) sg2"
          by (rule h2d_inv_cong [OF inv]) (use less.prems(2) in \<open>auto simp: nth_list_update\<close>)
        from less.hyps [OF step(6) this _ step(3), of "cnt'\<lparr> cc_records := cc_records cnt' + 1, cc_chunks := cc_chunks cnt' + 1 \<rparr>"]
        obtain res where "h2d_async d cb n (off + m) (infl[ci := Some off])
            (cnt'\<lparr> cc_records := cc_records cnt' + 1, cc_chunks := cc_chunks cnt' + 1 \<rparr>) sg2 = Some res"
          "h2d_outcome d n sg0 res" using less.prems(2) by auto
        then show ?thesis using True next_free(1) run
          by (subst h2d_async.simps) (simp add: Let_def ci_def [symmetric] m_def [symmetric] sg1_def)
      qed
    qed
  next
    case False
    then have n: "off = n" using less.prems(3) by simp
    have "h2d_outcome d n sg0 (h2d_drain d [0..<length infl] infl cnt sg)"
      using less.prems n assms(6,7) by (intro h2d_drain_outcome) auto
    then show ?thesis using False by (subst h2d_async.simps) simp
  qed
qed

lemma h2d_sync_outcome:
  assumes "copying (sg_dev sg0) 0 (sg_host sg0) 0 {..<unat off} (sg_dev sg)" and "sg_host sg = sg_host sg0"
    and "0 < length (sg_pinned sg)" and "off \<le> n" and "0 < cb"
    and "unat n \<le> length (sg_dev sg0)" "unat n \<le> length (sg_host sg0)"
  shows "\<exists>res. h2d_sync d cb n off cnt sg = Some res \<and> h2d_outcome d n sg0 res"
  using assms(1-4)
proof (induction "unat n - unat off" arbitrary: off cnt sg rule: less_induct)
  case less
  have le: "unat off \<le> unat n" using less.prems(4) by (simp add: word_le_nat_alt)
  show ?case
  proof (cases "off < n")
    case True
    define i where "i = unat (cc_chunks cnt) mod length (sg_pinned sg)"
    define m where "m = min (n - off) cb"
    note step = chunk_step [OF True assms(5), folded m_def]
    have i: "i < length (sg_pinned sg)" using less.prems(3) by (simp add: i_def)
    define sg1 where "sg1 = fill_pinned i off m sg"
    have off: "unat (off + m) = unat off + unat m" using step(1,5) by simp
    have bound: "unat off + unat m \<le> unat n" using step(3) off by (simp add: word_le_nat_alt)
    show ?thesis
    proof (cases "dma_copy d off")
      case (Inl e)
      have "partial_copy (sg_dev sg0) 0 (sg_host sg0) 0 (unat n) (sg_dev sg)"
        using less.prems(1) le unfolding partial_copy_def by (intro exI [of _ "{..<unat off}"]) auto
      then show ?thesis using True Inl less.prems(2)
        by (subst h2d_sync.simps) (auto simp: h2d_outcome_def Let_def acl_check_def intro!: exI [of _ off])
    next
      case (Inr u)
      have "window (sg_pinned sg1 ! i) 0 (unat m) = window (sg_host sg0) (unat off) (unat m)"
        using i bound assms(7) less.prems(2) window_fill_pinned [of i sg off m] by (simp add: sg1_def)
      then have "copying (sg_dev sg0) 0 (sg_host sg0) 0 ({..<unat off} \<union> {unat off..<unat off + unat m})
          (sg_dev (dma_out i off m sg1))"
        using less.prems(1) bound assms(6,7) by (intro h2d_delivers) (simp_all add: sg1_def)
      moreover have "{..<unat off} \<union> {unat off..<unat off + unat m} = {..<unat (off + m)}" using off by auto
      ultimately have "copying (sg_dev sg0) 0 (sg_host sg0) 0 {..<unat (off + m)} (sg_dev (dma_out i off m sg1))"
        by simp
      from less.hyps [OF step(6) this _ _ step(3), of "cnt\<lparr> cc_chunks := cc_chunks cnt + 1 \<rparr>"]
      obtain res where "h2d_sync d cb n (off + m) (cnt\<lparr> cc_chunks := cc_chunks cnt + 1 \<rparr>) (dma_out i off m sg1) = Some res"
        "h2d_outcome d n sg0 res" using less.prems(2,3) by (auto simp: sg1_def)
      then show ?thesis using True Inr unfolding sg1_def
        by (subst h2d_sync.simps) (simp add: Let_def acl_check_def i_def [symmetric] m_def [symmetric])
    qed
  next
    case False
    then have n: "off = n" using less.prems(4) by simp
    have "sg_dev sg = splice (sg_dev sg0) 0 (window (sg_host sg0) 0 (unat n))"
      using less.prems(1) assms(6,7) n by (intro copying_all) simp_all
    then show ?thesis using False less.prems(2) by (subst h2d_sync.simps) (simp add: h2d_outcome_def)
  qed
qed

lemma staged_write_outcome:
  assumes "staging_ready k cb sg" and "0 < cb" and "unat n \<le> length (sg_dev sg)" "unat n \<le> length (sg_host sg)"
  shows "\<exists>res. h2d_async d cb n 0 (replicate k None) no_counts sg = Some res \<and> h2d_outcome d n sg res"
    and "\<exists>res. h2d_sync d cb n 0 no_counts sg = Some res \<and> h2d_outcome d n sg res"
proof -
  have r: "0 < k" "length (sg_pinned sg) = k" "sg_pending sg = replicate k None"
      "\<forall>b \<in> set (sg_pinned sg). unat cb \<le> length b"
    using assms(1) by (auto simp: staging_ready_def)
  have "h2d_inv cb sg 0 (\<lambda>i. replicate k None ! i) sg"
    using r by (auto simp: h2d_inv_def h2d_buffer_def intro!: exI [of _ "{}"] copying_nothing)
  then show "\<exists>res. h2d_async d cb n 0 (replicate k None) no_counts sg = Some res \<and> h2d_outcome d n sg res"
    using r assms(2-4) by (intro h2d_async_outcome) simp_all
  show "\<exists>res. h2d_sync d cb n 0 no_counts sg = Some res \<and> h2d_outcome d n sg res"
    using r assms(2-4) by (intro h2d_sync_outcome) (simp_all add: copying_nothing)
qed

section \<open>Files\<close>

text \<open>
  What the kernel promises of \<^verbatim>\<open>pread\<close> and \<^verbatim>\<open>pwrite\<close>: at most the requested bytes, and a read
  delivers only bytes the file has.
\<close>

definition reads_ok :: "file_io \<Rightarrow> bytes \<Rightarrow> bool" where
  "reads_ok rd file \<longleftrightarrow> (\<forall>p len n. rd p len = Inr n \<longrightarrow> n \<le> len \<and> (n = 0 \<or> unat p + n \<le> length file))"

definition writes_ok :: "file_io \<Rightarrow> bool" where
  "writes_ok wr \<longleftrightarrow> (\<forall>p len n. wr p len = Inr n \<longrightarrow> n \<le> len)"

text \<open>A chunk of the window, read in pieces.\<close>

lemma add_of_nat_u64:
  fixes pos :: u64
  assumes "unat pos + m < 2 ^ 64"
  shows "unat (pos + of_nat m) = unat pos + m"
  using assms by (simp add: unat_word_ariths unat_of_nat)

lemma copying_prefix:
  assumes "copying old doff src soff {..<k} got" and "k + n \<le> length src - soff" and "doff + (k + n) \<le> length old"
    and "ys = window src (soff + k) n" and "d = doff + k" and "k' = k + n"
  shows "copying old doff src soff {..<k'} (splice got d ys)"
proof -
  have "{..<k} \<union> {k..<k + n} = {..<k'}" using assms(6) by auto
  then show ?thesis using copying_piece [OF assms(1-4)] assms(5) by simp
qed

lemma ssd_fill_outcome:
  assumes "reads_ok rd file" and "base = doff + prog" and "unat pos = soff + prog" and "unat pos + len \<le> 2 ^ 64"
    and "doff + prog + len \<le> length old"
    and "filled \<le> len" and "copying old doff file soff {..<prog + filled} dst"
    and "prog + filled = 0 \<or> soff + (prog + filled) \<le> length file"
  shows "case ssd_fill rd file pos base len filled dst of
      (Inr _, dst') \<Rightarrow> copying old doff file soff {..<prog + len} dst' \<and>
        (prog + len = 0 \<or> soff + (prog + len) \<le> length file)
    | (Inl _, dst') \<Rightarrow> \<exists>m \<le> prog + len. copying old doff file soff {..<m} dst'"
  using assms(6-8)
proof (induction "len - filled" arbitrary: filled dst rule: less_induct)
  case less
  show ?case
  proof (cases "filled < len")
    case True
    define p where "p = pos + (of_nat filled :: u64)"
    have p: "unat p = soff + (prog + filled)"
      using assms(3,4) True unfolding p_def by (subst add_of_nat_u64) simp_all
    show ?thesis
    proof (cases "rd p (len - filled)")
      case (Inl e)
      then show ?thesis using True less.prems
        by (subst ssd_fill.simps) (auto simp: Let_def p_def [symmetric] intro: exI [of _ "prog + filled"])
    next
      case (Inr n)
      show ?thesis
      proof (cases "n = 0")
        case True
        then show ?thesis using Inr less.prems
          by (subst ssd_fill.simps) (auto simp: Let_def p_def [symmetric] intro: exI [of _ "prog + filled"])
      next
        case False
        have n: "n \<le> len - filled" "unat p + n \<le> length file"
          using assms(1) Inr False unfolding reads_ok_def by blast+
        have "copying old doff file soff {..<prog + (filled + n)} (splice dst (base + filled) (window file (unat p) n))"
          using less.prems n True assms(2,5) p by (intro copying_prefix [where k = "prog + filled" and n = n]) simp_all
        then have "case ssd_fill rd file pos base len (filled + n) (splice dst (base + filled) (window file (unat p) n)) of
            (Inr _, dst') \<Rightarrow> copying old doff file soff {..<prog + len} dst' \<and>
              (prog + len = 0 \<or> soff + (prog + len) \<le> length file)
          | (Inl _, dst') \<Rightarrow> \<exists>m \<le> prog + len. copying old doff file soff {..<m} dst'"
          using n True False p by (intro less.hyps) simp_all
        then show ?thesis using True Inr False
          by (subst ssd_fill.simps) (simp add: Let_def p_def [symmetric])
      qed
    qed
  next
    case False
    then show ?thesis using less.prems by (subst ssd_fill.simps) simp
  qed
qed

lemma read_chunks_outcome:
  assumes "reads_ok rd file" and "unat off + unat n \<le> 2 ^ 64" and "base + unat n \<le> length old"
    and "prog \<le> n" and "copying old base file (unat off) {..<unat prog} dst"
    and "prog = 0 \<or> unat off + unat prog \<le> length file"
  shows "case read_chunks env rd file off n base prog dst of
      (Inr _, dst') \<Rightarrow> copying old base file (unat off) {..<unat n} dst' \<and> (n = 0 \<or> unat off + unat n \<le> length file)
    | (Inl _, dst') \<Rightarrow> \<exists>m \<le> unat n. copying old base file (unat off) {..<m} dst'"
  using assms(4-6)
proof (induction "unat n - unat prog" arbitrary: prog dst rule: less_induct)
  case less
  show ?case
  proof (cases "prog < n")
    case True
    define m where "m = min (n - prog) (ssd_chunk_bytes env)"
    note step = chunk_step [OF True ssd_chunk_bytes_pos [of env], folded m_def]
    have off: "unat (prog + m) = unat prog + unat m" using step(1,5) by simp
    have bound: "unat prog + unat m \<le> unat n" using step(3) off by (simp add: word_le_nat_alt)
    have lt: "unat prog < unat n" using True by (simp add: word_less_nat_alt)
    have "unat (off + of_nat (unat prog)) = unat off + unat prog"
      using assms(2) lt by (intro add_of_nat_u64) simp
    then have pos: "unat (off + prog) = unat off + unat prog" by simp
    obtain r dst' where fill: "ssd_fill rd file (off + prog) (base + unat prog) (unat m) 0 dst = (r, dst')"
      by (cases "ssd_fill rd file (off + prog) (base + unat prog) (unat m) 0 dst")
    have out: "case ssd_fill rd file (off + prog) (base + unat prog) (unat m) 0 dst of
        (Inr _, dst') \<Rightarrow> copying old base file (unat off) {..<unat prog + unat m} dst' \<and>
          (unat prog + unat m = 0 \<or> unat off + (unat prog + unat m) \<le> length file)
      | (Inl _, dst') \<Rightarrow> \<exists>k \<le> unat prog + unat m. copying old base file (unat off) {..<k} dst'"
      using assms(1-3) pos bound less.prems
      by (intro ssd_fill_outcome) (simp_all add: unat_eq_0)
    show ?thesis
    proof (cases r)
      case (Inl e)
      then show ?thesis using out fill True bound
        by (subst read_chunks.simps) (auto simp: Let_def m_def [symmetric] intro: order_trans)
    next
      case (Inr u)
      have "case read_chunks env rd file off n base (prog + m) dst' of
          (Inr _, dst') \<Rightarrow> copying old base file (unat off) {..<unat n} dst' \<and> (n = 0 \<or> unat off + unat n \<le> length file)
        | (Inl _, dst') \<Rightarrow> \<exists>m \<le> unat n. copying old base file (unat off) {..<m} dst'"
        using out fill Inr step(3,4) off
        by (intro less.hyps [OF step(6)]) (auto simp: word_less_nat_alt)
      then show ?thesis using True fill Inr by (subst read_chunks.simps) (simp add: Let_def m_def [symmetric])
    qed
  next
    case False
    then have "prog = n" using less.prems(1) by simp
    then show ?thesis using False less.prems by (subst read_chunks.simps) simp
  qed
qed

text \<open>Writing: the source is complete, the file has room.\<close>

lemma ssd_flush_outcome:
  assumes "writes_ok wr" and "base = soff + prog" and "unat pos = doff + prog" and "unat pos + len \<le> 2 ^ 64"
    and "doff + prog + len \<le> length old" and "soff + prog + len \<le> length src"
    and "written \<le> len" and "copying old doff src soff {..<prog + written} fl"
  shows "case ssd_flush wr src base pos len written fl of
      (Inr _, fl') \<Rightarrow> copying old doff src soff {..<prog + len} fl'
    | (Inl _, fl') \<Rightarrow> \<exists>m \<le> prog + len. copying old doff src soff {..<m} fl'"
  using assms(7,8)
proof (induction "len - written" arbitrary: written fl rule: less_induct)
  case less
  show ?case
  proof (cases "written < len")
    case True
    define p where "p = pos + (of_nat written :: u64)"
    have p: "unat p = doff + (prog + written)"
      using assms(3,4) True unfolding p_def by (subst add_of_nat_u64) simp_all
    show ?thesis
    proof (cases "wr p (len - written)")
      case (Inl e)
      then show ?thesis using True less.prems
        by (subst ssd_flush.simps) (auto simp: Let_def p_def [symmetric] intro: exI [of _ "prog + written"])
    next
      case (Inr n)
      show ?thesis
      proof (cases "n = 0")
        case True
        then show ?thesis using Inr less.prems
          by (subst ssd_flush.simps) (auto simp: Let_def p_def [symmetric] intro: exI [of _ "prog + written"])
      next
        case False
        have n: "n \<le> len - written" using assms(1) Inr unfolding writes_ok_def by blast
        have "copying old doff src soff {..<prog + (written + n)} (splice fl (unat p) (window src (base + written) n))"
          using less.prems n True assms(2,5,6) p
          by (intro copying_prefix [where k = "prog + written" and n = n]) (simp_all add: add.assoc)
        then have "case ssd_flush wr src base pos len (written + n) (splice fl (unat p) (window src (base + written) n)) of
            (Inr _, fl') \<Rightarrow> copying old doff src soff {..<prog + len} fl'
          | (Inl _, fl') \<Rightarrow> \<exists>m \<le> prog + len. copying old doff src soff {..<m} fl'"
          using n True False by (intro less.hyps) simp_all
        then show ?thesis using True Inr False
          by (subst ssd_flush.simps) (simp add: Let_def p_def [symmetric])
      qed
    qed
  next
    case False
    then show ?thesis using less.prems by (subst ssd_flush.simps) simp
  qed
qed

lemma write_chunks_outcome:
  assumes "writes_ok wr" and "unat off + unat n \<le> 2 ^ 64" and "unat off + unat n \<le> length old"
    and "base + unat n \<le> length src" and "prog \<le> n" and "copying old (unat off) src base {..<unat prog} fl"
  shows "case write_chunks env wr src base off n prog fl of
      (Inr _, fl') \<Rightarrow> copying old (unat off) src base {..<unat n} fl'
    | (Inl _, fl') \<Rightarrow> \<exists>m \<le> unat n. copying old (unat off) src base {..<m} fl'"
  using assms(5,6)
proof (induction "unat n - unat prog" arbitrary: prog fl rule: less_induct)
  case less
  show ?case
  proof (cases "prog < n")
    case True
    define m where "m = min (n - prog) (ssd_chunk_bytes env)"
    note step = chunk_step [OF True ssd_chunk_bytes_pos [of env], folded m_def]
    have off: "unat (prog + m) = unat prog + unat m" using step(1,5) by simp
    have bound: "unat prog + unat m \<le> unat n" using step(3) off by (simp add: word_le_nat_alt)
    have lt: "unat prog < unat n" using True by (simp add: word_less_nat_alt)
    have "unat (off + of_nat (unat prog)) = unat off + unat prog"
      using assms(2) lt by (intro add_of_nat_u64) simp
    then have pos: "unat (off + prog) = unat off + unat prog" by simp
    obtain r fl' where flush: "ssd_flush wr src (base + unat prog) (off + prog) (unat m) 0 fl = (r, fl')"
      by (cases "ssd_flush wr src (base + unat prog) (off + prog) (unat m) 0 fl")
    have out: "case ssd_flush wr src (base + unat prog) (off + prog) (unat m) 0 fl of
        (Inr _, fl') \<Rightarrow> copying old (unat off) src base {..<unat prog + unat m} fl'
      | (Inl _, fl') \<Rightarrow> \<exists>k \<le> unat prog + unat m. copying old (unat off) src base {..<k} fl'"
      using assms(1-4) pos bound less.prems by (intro ssd_flush_outcome) simp_all
    show ?thesis
    proof (cases r)
      case (Inl e)
      then show ?thesis using out flush True bound
        by (subst write_chunks.simps) (auto simp: Let_def m_def [symmetric] intro: order_trans)
    next
      case (Inr u)
      have "case write_chunks env wr src base off n (prog + m) fl' of
          (Inr _, fl') \<Rightarrow> copying old (unat off) src base {..<unat n} fl'
        | (Inl _, fl') \<Rightarrow> \<exists>m \<le> unat n. copying old (unat off) src base {..<m} fl'"
        using out flush Inr step(3) off by (intro less.hyps [OF step(6)]) auto
      then show ?thesis using True flush Inr by (subst write_chunks.simps) (simp add: Let_def m_def [symmetric])
    qed
  next
    case False
    then have "prog = n" using less.prems(1) by simp
    then show ?thesis using False less.prems by (subst write_chunks.simps) simp
  qed
qed

lemma copying_partial: "copying old doff src soff {..<m} got \<Longrightarrow> m \<le> n \<Longrightarrow> partial_copy old doff src soff n got"
  unfolding partial_copy_def by (rule exI [of _ "{..<m}"]) auto

lemma partial_nothing: "partial_copy old doff src soff n old"
  unfolding partial_copy_def by (rule exI [of _ "{}"]) (simp add: copying_nothing)

lemma range_in_u64: "b \<noteq> u64_max \<Longrightarrow> \<not> range_exceeds off n b \<Longrightarrow> unat off + unat n \<le> unat b"
  by (simp add: range_exceeds_iff)

lemma open_ssd_object_cases: "open_ssd_object k ob wr = Inr () \<or> (\<exists>e. open_ssd_object k ob wr = Inl e)"
  by (cases "open_ssd_object k ob wr") auto

lemma read_ssd_outcome:
  assumes "reads_ok (io_read k (ob_ssd_path ob)) file" and "ob_actual_bytes ob \<noteq> u64_max"
    and "base + unat n \<le> length dst"
  shows "case read_ssd_to_ptr env k ob file off base n dst of
      (Inr st, dst') \<Rightarrow> dst' = splice dst base (window file (unat off) (unat n)) \<and>
        (n = 0 \<or> unat off + unat n \<le> length file) \<and> ss_bytes st = n \<and> ss_read_bytes st = n
    | (Inl _, dst') \<Rightarrow> partial_copy dst base file (unat off) (unat n) dst'"
proof (cases "n = 0 \<or> range_exceeds off n (ob_actual_bytes ob) \<or> (\<exists>e. open_ssd_object k ob False = Inl e)")
  case True
  then show ?thesis
    by (auto simp: read_ssd_to_ptr_def ssd_io_default_def window_def partial_nothing)
next
  case False
  obtain r dst' where run: "read_chunks env (io_read k (ob_ssd_path ob)) file off n base 0 dst = (r, dst')"
    by (cases "read_chunks env (io_read k (ob_ssd_path ob)) file off n base 0 dst")
  have "unat off + unat n \<le> unat (ob_actual_bytes ob)" using False assms(2) by (intro range_in_u64) simp_all
  then have "unat off + unat n \<le> 2 ^ 64" using unat_less_u64 [of "ob_actual_bytes ob"] by simp
  then have out: "case read_chunks env (io_read k (ob_ssd_path ob)) file off n base 0 dst of
      (Inr _, dst') \<Rightarrow> copying dst base file (unat off) {..<unat n} dst' \<and> (n = 0 \<or> unat off + unat n \<le> length file)
    | (Inl _, dst') \<Rightarrow> \<exists>m \<le> unat n. copying dst base file (unat off) {..<m} dst'"
    using assms by (intro read_chunks_outcome) (simp_all add: copying_nothing)
  show ?thesis
  proof (cases r)
    case (Inl e)
    then show ?thesis using False open_ssd_object_cases [of k ob False] run out copying_partial
      by (auto simp: read_ssd_to_ptr_def)
  next
    case (Inr u)
    then show ?thesis
      using False open_ssd_object_cases [of k ob False] run out assms(3) copying_all [of dst base "file" "unat off" "unat n"]
      by (auto simp: read_ssd_to_ptr_def)
  qed
qed

lemma write_ssd_outcome:
  assumes "writes_ok (io_write k (ob_ssd_path ob))" and "ob_actual_bytes ob \<noteq> u64_max"
    and "unat (ob_actual_bytes ob) \<le> length fl" and "base + unat n \<le> length src"
  shows "case write_ptr_to_ssd env k ob src base off n fl of
      (Inr st, fl') \<Rightarrow> fl' = splice fl (unat off) (window src base (unat n)) \<and>
        (n = 0 \<or> unat off + unat n \<le> length fl) \<and> ss_bytes st = n \<and> ss_write_bytes st = n
    | (Inl _, fl') \<Rightarrow> partial_copy fl (unat off) src base (unat n) fl'"
proof (cases "n = 0 \<or> range_exceeds off n (ob_actual_bytes ob) \<or> (\<exists>e. open_ssd_object k ob True = Inl e)")
  case True
  then show ?thesis
    by (auto simp: write_ptr_to_ssd_def ssd_io_default_def window_def partial_nothing)
next
  case False
  obtain r fl' where run: "write_chunks env (io_write k (ob_ssd_path ob)) src base off n 0 fl = (r, fl')"
    by (cases "write_chunks env (io_write k (ob_ssd_path ob)) src base off n 0 fl")
  have le: "unat off + unat n \<le> unat (ob_actual_bytes ob)" using False assms(2) by (intro range_in_u64) simp_all
  then have "unat off + unat n \<le> 2 ^ 64" using unat_less_u64 [of "ob_actual_bytes ob"] by simp
  then have out: "case write_chunks env (io_write k (ob_ssd_path ob)) src base off n 0 fl of
      (Inr _, fl') \<Rightarrow> copying fl (unat off) src base {..<unat n} fl'
    | (Inl _, fl') \<Rightarrow> \<exists>m \<le> unat n. copying fl (unat off) src base {..<m} fl'"
    using assms le by (intro write_chunks_outcome) (simp_all add: copying_nothing)
  show ?thesis
  proof (cases r)
    case (Inl e)
    then show ?thesis using False open_ssd_object_cases [of k ob True] run out copying_partial
      by (auto simp: write_ptr_to_ssd_def)
  next
    case (Inr u)
    then show ?thesis
      using False open_ssd_object_cases [of k ob True] run out assms(3,4) le
        copying_all [of fl "unat off" src base "unat n"]
      by (auto simp: write_ptr_to_ssd_def)
  qed
qed

section \<open>Relays\<close>

lemma partial_extends:
  assumes "copying old doff src soff {..<k} got" and "partial_copy got (doff + k) stg 0 m got'"
    and "window stg 0 m = window src (soff + k) m" and "m \<le> length stg" and "soff + k + m \<le> length src"
  shows "partial_copy old doff src soff (k + m) got'"
proof -
  obtain P where P: "P \<subseteq> {..<m}" "copying got (doff + k) stg 0 P got'" using assms(2) by (auto simp: partial_copy_def)
  let ?Q = "{..<k} \<union> (\<lambda>i. i + k) ` P"
  have stg: "stg ! p = src ! (soff + k + p)" if "p < m" for p
    using arg_cong [OF assms(3), of "\<lambda>xs. xs ! p"] that assms(4,5) by simp
  have "got' ! p = (if doff \<le> p \<and> p - doff \<in> ?Q then src ! (soff + (p - doff)) else old ! p)"
    if p: "p < length old" for p
  proof (cases "doff + k \<le> p \<and> p - (doff + k) \<in> P")
    case True
    then have "p - doff = (p - (doff + k)) + k" by simp
    then have "p - doff \<in> ?Q" using True by blast
    moreover have "got' ! p = src ! (soff + k + (p - (doff + k)))"
      using True P p assms(1) stg [of "p - (doff + k)"] by (auto simp: copying_def)
    ultimately show ?thesis using True by (simp add: add.assoc)
  next
    case False
    have "p - doff \<notin> (\<lambda>i. i + k) ` P" if dle: "doff \<le> p"
    proof
      assume "p - doff \<in> (\<lambda>i. i + k) ` P"
      then obtain i where "i \<in> P" "p = doff + k + i" using dle by auto
      then show False using False by simp
    qed
    then have "doff \<le> p \<and> p - doff \<in> ?Q \<longleftrightarrow> doff \<le> p \<and> p - doff < k" by auto
    then show ?thesis using False P(2) p assms(1) by (auto simp: copying_def)
  qed
  then have "copying old doff src soff ?Q got'" using P(2) assms(1) by (auto simp: copying_def)
  moreover have "?Q \<subseteq> {..<k + m}" using P(1) by auto
  ultimately show ?thesis unfolding partial_copy_def by blast
qed

text \<open>From the file through the staging vector into device memory.\<close>

lemma ssd_hbm_relay_outcome:
  assumes "reads_ok (io_read k (ob_ssd_path ob)) file" and "ob_actual_bytes ob \<noteq> u64_max"
    and "unat src_off + unat n \<le> 2 ^ 64" and "unat dst_off + unat n \<le> length dev0" and "length dev0 \<le> 2 ^ 64"
    and "off \<le> n" and "copying dev0 (unat dst_off) file (unat src_off) {..<unat off} dev"
    and "off = 0 \<or> unat src_off + unat off \<le> length file"
    and "unat (relay_capacity env n) \<le> length stg" and "ss_bytes (rr_ssd run) = off"
  shows "case ssd_hbm_relay env k d ob file src_off dst_off n off run stg dev of
      (Inr run', dev') \<Rightarrow> dev' = splice dev0 (unat dst_off) (window file (unat src_off) (unat n)) \<and>
        ss_bytes (rr_ssd run') = n
    | (Inl _, dev') \<Rightarrow> partial_copy dev0 (unat dst_off) file (unat src_off) (unat n) dev'"
  using assms(6-10)
proof (induction "unat n - unat off" arbitrary: off run stg dev rule: less_induct)
  case less
  have le: "unat off \<le> unat n" using less.prems(1) by (simp add: word_le_nat_alt)
  note partial = copying_partial [OF less.prems(2) le]
  show ?case
  proof (cases "off < n")
    case True
    define m where "m = min (n - off) (relay_capacity env n)"
    note step = chunk_step [OF True relay_capacity_pos [of env n], folded m_def]
    have off: "unat (off + m) = unat off + unat m" using step(1,5) by simp
    have bound: "unat off + unat m \<le> unat n" using step(3) off by (simp add: word_le_nat_alt)
    have lt: "unat off < unat n" using True by (simp add: word_less_nat_alt)
    have pos: "unat (src_off + off) = unat src_off + unat off" "unat (dst_off + off) = unat dst_off + unat off"
      using add_of_nat_u64 [of src_off "unat off"] add_of_nat_u64 [of dst_off "unat off"] assms(3-5) lt by simp_all
    have room: "0 + unat m \<le> length stg"
      using less.prems(4) by (simp add: m_def min_def word_le_nat_alt split: if_splits)
    obtain r stg' where run: "read_ssd_to_ptr env k ob file (src_off + off) 0 m stg = (r, stg')"
      by (cases "read_ssd_to_ptr env k ob file (src_off + off) 0 m stg")
    note out = read_ssd_outcome [OF assms(1,2) room, where env = env and off = "src_off + off", unfolded run]
    show ?thesis
    proof (cases r)
      case (Inl e)
      then show ?thesis using True run partial
        by (subst ssd_hbm_relay.simps) (simp add: Let_def m_def [symmetric])
    next
      case (Inr st)
      then have o: "stg' = splice stg 0 (window file (unat src_off + unat off) (unat m))"
          "unat src_off + unat off + unat m \<le> length file" "ss_bytes st = m"
        using out step(4) pos(1) by auto
      have len: "length (window file (unat src_off + unat off) (unat m)) = unat m" using o(2) by simp
      have win: "window stg' 0 (unat m) = window file (unat src_off + unat off) (unat m)"
        using window_prefix [of stg "window file (unat src_off + unat off) (unat m)"] unfolding o(1) len .
      have stg': "unat (relay_capacity env n) \<le> length stg'"
        using less.prems(4) room len by (simp add: o(1))
      show ?thesis
      proof (cases "dma_copy d (dst_off + off)")
        case (Inl e)
        then show ?thesis using True run Inr partial
          by (subst ssd_hbm_relay.simps) (simp add: Let_def m_def [symmetric] acl_check_def)
      next
        case ok: (Inr u)
        define dev' where "dev' = splice dev (unat (dst_off + off)) (window stg' 0 (unat m))"
        define run' where "run' = \<lparr> rr_ssd = ssd_merge (rr_ssd run) st, rr_acl_us = rr_acl_us run + io_us k ''relay_acl'' \<rparr>"
        have "copying dev0 (unat dst_off) file (unat src_off) {..<unat (off + m)} dev'"
          using less.prems(2) o(2) bound assms(4) pos(2) win off unfolding dev'_def
          by (intro copying_prefix [where k = "unat off" and n = "unat m"]) simp_all
        then have "case ssd_hbm_relay env k d ob file src_off dst_off n (off + m) run' stg' dev' of
            (Inr run', dev') \<Rightarrow> dev' = splice dev0 (unat dst_off) (window file (unat src_off) (unat n)) \<and>
              ss_bytes (rr_ssd run') = n
          | (Inl _, dev') \<Rightarrow> partial_copy dev0 (unat dst_off) file (unat src_off) (unat n) dev'"
          using step(3) off o(2,3) stg' less.prems(5)
          by (intro less.hyps [OF step(6)]) (simp_all add: run'_def ssd_merge_def)
        then show ?thesis using True run Inr ok unfolding dev'_def run'_def
          by (subst ssd_hbm_relay.simps) (simp add: Let_def m_def [symmetric] acl_check_def)
      qed
    qed
  next
    case False
    then have n: "off = n" using less.prems(1) by simp
    have "dev = splice dev0 (unat dst_off) (window file (unat src_off) (unat n))"
      using less.prems(2,3) n assms(4) copying_all [of dev0 "unat dst_off" "file" "unat src_off" "unat n" dev]
        copying_all [of dev0 "unat dst_off" "[]" 0 0 dev]
      by (cases "n = 0") (auto simp: copying_def window_def intro: nth_equalityI)
    then show ?thesis using False less.prems(5) n by (subst ssd_hbm_relay.simps) simp
  qed
qed

text \<open>From device memory through the staging vector into the file.\<close>

lemma hbm_ssd_relay_outcome:
  assumes "writes_ok (io_write k (ob_ssd_path ob))" and "ob_actual_bytes ob \<noteq> u64_max"
    and "unat (ob_actual_bytes ob) \<le> length fl0" and "unat dst_off + unat n \<le> unat (ob_actual_bytes ob)"
    and "unat src_off + unat n \<le> length dev" and "length dev \<le> 2 ^ 64"
    and "off \<le> n" and "copying fl0 (unat dst_off) dev (unat src_off) {..<unat off} fl"
    and "unat (relay_capacity env n) \<le> length stg" and "ss_bytes (rr_ssd run) = off"
  shows "case hbm_ssd_relay env k d ob dev src_off dst_off n off run stg fl of
      (Inr run', fl') \<Rightarrow> fl' = splice fl0 (unat dst_off) (window dev (unat src_off) (unat n)) \<and>
        ss_bytes (rr_ssd run') = n
    | (Inl _, fl') \<Rightarrow> partial_copy fl0 (unat dst_off) dev (unat src_off) (unat n) fl'"
  using assms(7-10)
proof (induction "unat n - unat off" arbitrary: off run stg fl rule: less_induct)
  case less
  have le: "unat off \<le> unat n" using less.prems(1) by (simp add: word_le_nat_alt)
  note partial = copying_partial [OF less.prems(2) le]
  show ?case
  proof (cases "off < n")
    case True
    define m where "m = min (n - off) (relay_capacity env n)"
    note step = chunk_step [OF True relay_capacity_pos [of env n], folded m_def]
    have off: "unat (off + m) = unat off + unat m" using step(1,5) by simp
    have bound: "unat off + unat m \<le> unat n" using step(3) off by (simp add: word_le_nat_alt)
    have lt: "unat off < unat n" using True by (simp add: word_less_nat_alt)
    have pos: "unat (src_off + off) = unat src_off + unat off" "unat (dst_off + off) = unat dst_off + unat off"
      using add_of_nat_u64 [of src_off "unat off"] add_of_nat_u64 [of dst_off "unat off"] assms(4-6) lt
        unat_less_u64 [of "ob_actual_bytes ob"] by simp_all
    have cap: "unat m \<le> length stg"
      using less.prems(3) by (simp add: m_def min_def word_le_nat_alt split: if_splits)
    show ?thesis
    proof (cases "dma_copy d (src_off + off)")
      case (Inl e)
      then show ?thesis using True partial
        by (subst hbm_ssd_relay.simps) (simp add: Let_def m_def [symmetric] acl_check_def)
    next
      case ok: (Inr u)
      define stg' where "stg' = splice stg 0 (window dev (unat (src_off + off)) (unat m))"
      have len: "length (window dev (unat src_off + unat off) (unat m)) = unat m" using assms(5) bound by simp
      have win: "window stg' 0 (unat m) = window dev (unat src_off + unat off) (unat m)"
        using window_prefix [of stg "window dev (unat src_off + unat off) (unat m)"] unfolding stg'_def pos len .
      have stg': "unat (relay_capacity env n) \<le> length stg'" "0 + unat m \<le> length stg'"
        using less.prems(3) cap len by (simp_all add: stg'_def pos)
      have fl: "length fl = length fl0" using less.prems(2) by (simp add: copying_def)
      obtain r fl' where run: "write_ptr_to_ssd env k ob stg' 0 (dst_off + off) m fl = (r, fl')"
        by (cases "write_ptr_to_ssd env k ob stg' 0 (dst_off + off) m fl")
      have out: "case (r, fl') of
          (Inr st, fl') \<Rightarrow> fl' = splice fl (unat (dst_off + off)) (window stg' 0 (unat m)) \<and>
            (m = 0 \<or> unat (dst_off + off) + unat m \<le> length fl) \<and> ss_bytes st = m \<and> ss_write_bytes st = m
        | (Inl _, fl') \<Rightarrow> partial_copy fl (unat (dst_off + off)) stg' 0 (unat m) fl'"
        using write_ssd_outcome [OF assms(1,2) _ stg'(2), where env = env and off = "dst_off + off" and fl = fl] fl assms(3) unfolding run by simp
      show ?thesis
      proof (cases r)
        case (Inl e)
        have "partial_copy fl0 (unat dst_off) dev (unat src_off) (unat off + unat m) fl'"
          using out Inl pos(2) win stg'(2) assms(5) bound by (intro partial_extends [OF less.prems(2)]) simp_all
        then have "partial_copy fl0 (unat dst_off) dev (unat src_off) (unat n) fl'"
          using bound unfolding partial_copy_def by (meson lessThan_subset_iff order_trans)
        then show ?thesis using True ok run Inl unfolding stg'_def
          by (subst hbm_ssd_relay.simps) (simp add: Let_def m_def [symmetric] acl_check_def)
      next
        case (Inr st)
        define run' where "run' = \<lparr> rr_ssd = ssd_merge (rr_ssd run) st, rr_acl_us = rr_acl_us run + io_us k ''relay_acl'' \<rparr>"
        have "copying fl0 (unat dst_off) dev (unat src_off) {..<unat (off + m)} fl'"
          using less.prems(2) out Inr bound assms(3-5) pos(2) win off
          by (auto intro!: copying_prefix [where k = "unat off" and n = "unat m"])
        then have "case hbm_ssd_relay env k d ob dev src_off dst_off n (off + m) run' stg' fl' of
            (Inr run', fl') \<Rightarrow> fl' = splice fl0 (unat dst_off) (window dev (unat src_off) (unat n)) \<and>
              ss_bytes (rr_ssd run') = n
          | (Inl _, fl') \<Rightarrow> partial_copy fl0 (unat dst_off) dev (unat src_off) (unat n) fl'"
          using step(3) out Inr stg'(1) less.prems(4)
          by (intro less.hyps [OF step(6)]) (simp_all add: run'_def ssd_merge_def)
        then show ?thesis using True run Inr ok unfolding stg'_def run'_def
          by (subst hbm_ssd_relay.simps) (simp add: Let_def m_def [symmetric] acl_check_def)
      qed
    qed
  next
    case False
    then have n: "off = n" using less.prems(1) by simp
    have "fl = splice fl0 (unat dst_off) (window dev (unat src_off) (unat n))"
      using less.prems(2) n assms(3-5) by (intro copying_all) simp_all
    then show ?thesis using False less.prems(4) n by (subst hbm_ssd_relay.simps) simp
  qed
qed

section \<open>Properties\<close>

text \<open>
  C10. A staged copy from device to host memory ends, and is a \<^verbatim>\<open>memcpy\<close>: both the pipelined loop
  (several buffers in flight, whether the DMA engine moves the data at submission or only when the
  event is awaited) and the synchronous loop return; on success the host memory has the first \<open>n\<close>
  bytes of device memory and is otherwise unchanged. An error is reported only when a vendor call
  failed, and then every byte is still the old one or already the device's.
\<close>
theorem staged_read_is_memcpy:
  assumes "staging_ready k cb sg" and "0 < cb" and "unat n \<le> length (sg_dev sg)" and "unat n \<le> length (sg_host sg)"
    and "run \<in> {d2h_async d cb n 0 (replicate k None) no_counts sg, d2h_sync d cb n 0 no_counts sg}"
  shows "\<exists>r sg'. run = Some (r, sg') \<and> sg_dev sg' = sg_dev sg \<and>
     (case r of
        Inr _ \<Rightarrow> sg_host sg' = splice (sg_host sg) 0 (window (sg_dev sg) 0 (unat n))
      | Inl _ \<Rightarrow> partial_copy (sg_host sg) 0 (sg_dev sg) 0 (unat n) (sg_host sg') \<and>
          (\<exists>w. isl (dma_submit d w) \<or> isl (dma_sync d w) \<or> isl (dma_copy d w)))"
proof -
  obtain r sg' where "run = Some (r, sg')" "d2h_outcome d n sg (r, sg')"
    using staged_read_outcome [OF assms(1-4), of d] assms(5) by (metis empty_iff insertE surj_pair)
  then show ?thesis by (cases r) (simp_all add: d2h_outcome_def)
qed

definition demo_dma :: dma where
  "demo_dma = \<lparr> dma_submit = (\<lambda>_. Inr ()), dma_sync = (\<lambda>_. Inr ()), dma_eager = (\<lambda>off. off = 2),
     dma_copy = (\<lambda>_. Inr ()), dma_d2d = Inr (), dma_register = Inr () \<rparr>"

definition demo_staging :: staging where
  "demo_staging = \<lparr> sg_dev = [1, 2, 3, 4, 5, 6], sg_host = [9, 9, 9, 9, 9, 9, 9],
     sg_pinned = [[0, 0], [0, 0]], sg_pending = [None, None] \<rparr>"

lemma demo_staging_ready: "staging_ready 2 2 demo_staging"
  by (simp add: staging_ready_def demo_staging_def numeral_2_eq_2)

lemma demo_simps:
  "sg_dev demo_staging = [1, 2, 3, 4, 5, 6]" "sg_host demo_staging = [9, 9, 9, 9, 9, 9, 9]"
  "dma_submit demo_dma w = Inr ()" "dma_sync demo_dma w = Inr ()" "dma_copy demo_dma w = Inr ()"
  by (simp_all add: demo_staging_def demo_dma_def)

text \<open>Two buffers of two bytes carry five bytes; the error branch is impossible.\<close>

theorem staged_read_is_memcpy_witness:
  "\<exists>cnt sg'. d2h_async demo_dma 2 5 0 (replicate 2 None) no_counts demo_staging = Some (Inr cnt, sg') \<and>
     sg_host sg' = [1, 2, 3, 4, 5, 9, 9]"
proof -
  obtain r sg' where "d2h_async demo_dma 2 5 0 (replicate 2 None) no_counts demo_staging = Some (r, sg') \<and>
     sg_dev sg' = sg_dev demo_staging \<and>
     (case r of
        Inr _ \<Rightarrow> sg_host sg' = splice (sg_host demo_staging) 0 (window (sg_dev demo_staging) 0 (unat (5 :: u64)))
      | Inl _ \<Rightarrow> partial_copy (sg_host demo_staging) 0 (sg_dev demo_staging) 0 (unat (5 :: u64)) (sg_host sg') \<and>
          (\<exists>w. isl (dma_submit demo_dma w) \<or> isl (dma_sync demo_dma w) \<or> isl (dma_copy demo_dma w)))"
    using staged_read_is_memcpy [OF demo_staging_ready, of 5 _ demo_dma] by (force simp: demo_simps)
  then show ?thesis by (cases r) (auto simp: splice_def window_def demo_simps)
qed

text \<open>
  C11. A staged copy from host to device memory ends, and is a \<^verbatim>\<open>memcpy\<close>, for the pipelined and the
  synchronous loop and whenever the DMA engine reads the buffers: no buffer is refilled while a DMA
  that reads it is outstanding.
\<close>
theorem staged_write_is_memcpy:
  assumes "staging_ready k cb sg" and "0 < cb" and "unat n \<le> length (sg_dev sg)" and "unat n \<le> length (sg_host sg)"
    and "run \<in> {h2d_async d cb n 0 (replicate k None) no_counts sg, h2d_sync d cb n 0 no_counts sg}"
  shows "\<exists>r sg'. run = Some (r, sg') \<and> sg_host sg' = sg_host sg \<and>
     (case r of
        Inr _ \<Rightarrow> sg_dev sg' = splice (sg_dev sg) 0 (window (sg_host sg) 0 (unat n))
      | Inl _ \<Rightarrow> partial_copy (sg_dev sg) 0 (sg_host sg) 0 (unat n) (sg_dev sg') \<and>
          (\<exists>w. isl (dma_submit d w) \<or> isl (dma_sync d w) \<or> isl (dma_copy d w)))"
proof -
  obtain r sg' where "run = Some (r, sg')" "h2d_outcome d n sg (r, sg')"
    using staged_write_outcome [OF assms(1-4), of d] assms(5) by (metis empty_iff insertE surj_pair)
  then show ?thesis by (cases r) (simp_all add: h2d_outcome_def)
qed

theorem staged_write_is_memcpy_witness:
  "\<exists>cnt sg'. h2d_async demo_dma 2 5 0 (replicate 2 None) no_counts demo_staging = Some (Inr cnt, sg') \<and>
     sg_dev sg' = [9, 9, 9, 9, 9, 6]"
proof -
  obtain r sg' where "h2d_async demo_dma 2 5 0 (replicate 2 None) no_counts demo_staging = Some (r, sg') \<and>
     sg_host sg' = sg_host demo_staging \<and>
     (case r of
        Inr _ \<Rightarrow> sg_dev sg' = splice (sg_dev demo_staging) 0 (window (sg_host demo_staging) 0 (unat (5 :: u64)))
      | Inl _ \<Rightarrow> partial_copy (sg_dev demo_staging) 0 (sg_host demo_staging) 0 (unat (5 :: u64)) (sg_dev sg') \<and>
          (\<exists>w. isl (dma_submit demo_dma w) \<or> isl (dma_sync demo_dma w) \<or> isl (dma_copy demo_dma w)))"
    using staged_write_is_memcpy [OF demo_staging_ready, of 5 _ demo_dma] by (force simp: demo_simps)
  then show ?thesis by (cases r) (auto simp: splice_def window_def demo_simps)
qed

text \<open>
  C25. The relay from SSD to device memory and the direct copy agree: with a kernel that may deliver
  fewer bytes than asked for, a relay that succeeds leaves the device memory with the file's window
  at the destination offset, which is what the direct copy of any candidate leaves, and reports the
  bytes it moved.
\<close>
theorem relay_equals_direct:
  assumes "reads_ok (io_read k (ob_ssd_path ob)) file" and "ob_actual_bytes ob \<noteq> u64_max"
    and "unat src_off + unat n \<le> 2 ^ 64" and "unat dst_off + unat n \<le> length dev" and "length dev \<le> 2 ^ 64"
    and "unat (relay_capacity env n) \<le> length stg"
    and "ssd_hbm_relay env k d ob file src_off dst_off n 0 no_relay stg dev = (Inr run, dev1)"
    and "copy_ssd_to_hbm_direct env k d ob file src_off dst_off n name dev = (Inr stats, dev2)"
  shows "dev1 = dev2 \<and> dev1 = splice dev (unat dst_off) (window file (unat src_off) (unat n)) \<and>
     ss_bytes (rr_ssd run) = hd_bytes stats"
proof -
  have "case ssd_hbm_relay env k d ob file src_off dst_off n 0 no_relay stg dev of
      (Inr run', dev') \<Rightarrow> dev' = splice dev (unat dst_off) (window file (unat src_off) (unat n)) \<and>
        ss_bytes (rr_ssd run') = n
    | (Inl _, dev') \<Rightarrow> partial_copy dev (unat dst_off) file (unat src_off) (unat n) dev'"
    using assms(1-6)
    by (intro ssd_hbm_relay_outcome) (simp_all add: copying_nothing no_relay_def ssd_io_default_def)
  moreover have "dev2 = splice dev (unat dst_off) (window file (unat src_off) (unat n))" "hd_bytes stats = n"
    using assms(8) by (auto simp: copy_ssd_to_hbm_direct_def split: sum.splits)
  ultimately show ?thesis using assms(7) by simp
qed

definition demo_file :: bytes where
  "demo_file = [10, 11, 12, 13, 14, 15, 16, 17]"

definition demo_ssd :: Object where
  "demo_ssd = (blank_object [] 7 70 1)\<lparr> ob_ssd_path := ''/ssd/7'', ob_actual_bytes := 8 \<rparr>"

text \<open>A kernel that never transfers more than two bytes at once.\<close>

definition demo_io :: io where
  "demo_io = \<lparr> io_open = (\<lambda>_ _. Inr ()), io_read = (\<lambda>_ p len. Inr (min (min len 2) (8 - unat p))),
     io_write = (\<lambda>_ p len. Inr (min len 2)), io_mmap = (\<lambda>_. Inr ()), io_populate = (\<lambda>_. Inr ()),
     io_mlock = (\<lambda>_. Inr ()), io_us = (\<lambda>_. 1) \<rparr>"

lemma demo_relay:
  "ssd_hbm_relay (\<lambda>_. None) demo_io demo_dma demo_ssd demo_file 3 1 4 0 no_relay (replicate 4 0) [1, 2, 3, 4, 5, 6] =
     (Inr \<lparr> rr_ssd = \<lparr> ss_submit_us = 1, ss_wait_us = 1, ss_bytes = 4, ss_read_bytes = 4, ss_write_bytes = 0 \<rparr>,
            rr_acl_us = 1 \<rparr>, [1, 13, 14, 15, 16, 6])"
  by code_simp

lemma demo_direct:
  "\<exists>stats. copy_ssd_to_hbm_direct (\<lambda>_. None) demo_io demo_dma demo_ssd demo_file 3 1 4 DEFAULT_CANDIDATE [1, 2, 3, 4, 5, 6] =
     (Inr stats, [1, 13, 14, 15, 16, 6])"
proof -
  have "snd (copy_ssd_to_hbm_direct (\<lambda>_. None) demo_io demo_dma demo_ssd demo_file 3 1 4 DEFAULT_CANDIDATE [1, 2, 3, 4, 5, 6]) =
      [1, 13, 14, 15, 16, 6]"
    "isl (fst (copy_ssd_to_hbm_direct (\<lambda>_. None) demo_io demo_dma demo_ssd demo_file 3 1 4 DEFAULT_CANDIDATE [1, 2, 3, 4, 5, 6])) = False"
    by code_simp+
  then show ?thesis by (metis isl_def prod.collapse sum.exhaust)
qed

theorem relay_equals_direct_witness:
  "\<exists>run stats. ssd_hbm_relay (\<lambda>_. None) demo_io demo_dma demo_ssd demo_file 3 1 4 0 no_relay (replicate 4 0) [1, 2, 3, 4, 5, 6] =
       (Inr run, [1, 13, 14, 15, 16, 6]) \<and>
     copy_ssd_to_hbm_direct (\<lambda>_. None) demo_io demo_dma demo_ssd demo_file 3 1 4 DEFAULT_CANDIDATE [1, 2, 3, 4, 5, 6] =
       (Inr stats, [1, 13, 14, 15, 16, 6]) \<and>
     ss_bytes (rr_ssd run) = hd_bytes stats"
proof -
  have rd: "reads_ok (io_read demo_io (ob_ssd_path demo_ssd)) demo_file"
    by (auto simp: reads_ok_def demo_io_def demo_file_def)
  have cap: "unat (relay_capacity (\<lambda>_. None) 4) \<le> length (replicate 4 (0 :: 8 word))" by code_simp
  obtain stats where stats: "copy_ssd_to_hbm_direct (\<lambda>_. None) demo_io demo_dma demo_ssd demo_file 3 1 4 DEFAULT_CANDIDATE
      [1, 2, 3, 4, 5, 6] = (Inr stats, [1, 13, 14, 15, 16, 6])"
    using demo_direct by blast
  show ?thesis
    using relay_equals_direct [OF rd _ _ _ _ cap demo_relay stats] demo_relay stats
    by (auto simp: demo_ssd_def u64_max_def)
qed

end
