(* ===== verification/Executor.thy ===== *)
theory Executor
  imports Copies
begin

text \<open>
  Executing a transfer (\<^verbatim>\<open>transfer_executor.rs\<close>, \<^verbatim>\<open>execute_transfer_work\<close> and what it calls).

  The world holds the bytes: device memory by device and service address, the shared memory of a DDR
  object by object, files by path, and the two lane managers. A \<^verbatim>\<open>MAP_SHARED\<close> mapping of a DDR
  object shows the same bytes wherever it is mapped. The record \<open>vendor\<close> collects what the vendor
  runtime, the kernel and the clock answer. A run is \<open>None\<close> when its thread sleeps for a lane.
\<close>

section \<open>World and vendor\<close>

record world =
  w_hbm :: "int \<times> u64 \<Rightarrow> bytes"
  w_ddr :: "u64 \<Rightarrow> bytes"
  w_ssd :: "string \<Rightarrow> bytes"
  w_channel :: ManagerState
  w_direct :: DirectLaneManagerState

record vendor =
  vn_dma :: dma
  vn_io :: io
  vn_lane :: lane_acl
  vn_clk :: "nat \<Rightarrow> nat"
  vn_start :: nat
  vn_now :: nat
  vn_pinned :: "u64 \<Rightarrow> bytes"
  vn_ddr_open :: "string \<Rightarrow> unit result"
  vn_ddr_mmap :: "string \<Rightarrow> bool"
  vn_us :: "string \<Rightarrow> rat"

type_synonym 'a run = "('a result \<times> world) option"

definition and_then :: "'a run \<Rightarrow> ('a \<Rightarrow> world \<Rightarrow> 'b run) \<Rightarrow> 'b run" where
  "and_then m f =
     (case m of None \<Rightarrow> None
      | Some (Inl e, w) \<Rightarrow> Some (Inl e, w)
      | Some (Inr x, w) \<Rightarrow> f x w)"

definition with_ddr_mapping :: "vendor \<Rightarrow> Object \<Rightarrow> (nat \<Rightarrow> world \<Rightarrow> 'a run) \<Rightarrow> world \<Rightarrow> 'a run" where
  "with_ddr_mapping v ob f w =
     (if ob_ddr_service_ptr ob \<noteq> 0 \<and> 0 < ob_ddr_service_len ob then f (unat (ob_ddr_service_len ob)) w
      else if ob_ddr_path ob = [] then Some (Inl ''DDR object has empty path'', w)
      else if ob_actual_bytes ob = 0 then Some (Inl ''DDR object size is zero'', w)
      else case vn_ddr_open v (ob_ddr_path ob) of
        Inl e \<Rightarrow> Some (Inl (''open DDR object failed: '' @ e), w)
      | Inr _ \<Rightarrow>
          if \<not> vn_ddr_mmap v (ob_ddr_path ob) then Some (Inl ''mmap DDR object failed'', w)
          else f (unat (ob_actual_bytes ob)) w)"

text \<open>Borrowing a lane of either manager.\<close>

definition in_lane ::
  "environment \<Rightarrow> vendor \<Rightarrow> TransferDirection \<Rightarrow> int \<Rightarrow> u64 \<Rightarrow> (LaneLeaseInfo \<Rightarrow> world \<Rightarrow> 'a run) \<Rightarrow> world \<Rightarrow> 'a run" where
  "in_lane env v dir dev hint f w =
     (case with_lane env (vn_lane v) dir dev hint (vn_start v) (vn_clk v) (vn_now v) f (w_channel w, w) of
        None \<Rightarrow> None
      | Some (r, st, w') \<Rightarrow> Some (r, w'\<lparr> w_channel := st \<rparr>))"

definition in_direct_lane ::
  "environment \<Rightarrow> vendor \<Rightarrow> TransferDirection \<Rightarrow> int \<Rightarrow> (DirectLaneLeaseInfo \<Rightarrow> world \<Rightarrow> 'a run) \<Rightarrow> world \<Rightarrow> 'a run" where
  "in_direct_lane env v dir dev f w =
     (case direct_with_lane env (vn_lane v) dir dev (vn_start v) (vn_clk v) (vn_now v) f (w_direct w, w) of
        None \<Rightarrow> None
      | Some (r, st, w') \<Rightarrow> Some (r, w'\<lparr> w_direct := st \<rparr>))"

section \<open>Runtime objects\<close>

record RuntimeObject =
  ro_object :: Object
  ro_hbm :: "HbmAllocation option"

definition runtime_object :: "'p Catalog \<Rightarrow> Object \<Rightarrow> RuntimeObject result" where
  "runtime_object st ob =
     (if ob_placement ob = ''hbm''
      then case find (\<lambda>b. bl_block_id b = ob_block_id ob) (c_blocks st) of
             None \<Rightarrow> Inl ''HBM block not found''
           | Some b \<Rightarrow>
               if al_service_device_ptr (bl_allocation b) = 0 then Inl ''HBM service_device_ptr is not mapped''
               else Inr \<lparr> ro_object = ob, ro_hbm = Some (bl_allocation b) \<rparr>
      else Inr \<lparr> ro_object = ob, ro_hbm = None \<rparr>)"

definition hbm_key :: "HbmAllocation \<Rightarrow> int \<times> u64" where
  "hbm_key a = (al_device_id a, al_service_device_ptr a)"

definition ddr_fast_profile :: "RuntimeObject \<Rightarrow> string" where
  "ddr_fast_profile ro =
     (if ob_placement (ro_object ro) = ''ddr'' then ob_ddr_fast_profile (ro_object ro) else [])"

definition direct_engine_name :: "RuntimeObject \<Rightarrow> string" where
  "direct_engine_name ddr =
     (if ddr_fast_profile ddr = ''thp_pretouched'' then ''acl_direct_async_thp'' else ''acl_direct_async'')"

definition direct_path_name :: "string \<Rightarrow> RuntimeObject \<Rightarrow> string" where
  "direct_path_name direction ddr =
     (let suffix = if ddr_fast_profile ddr = ''thp_pretouched'' then ''direct_thp'' else ''direct_mmap'' in
      if direction = ''h2d'' then ''ddr_hbm_'' @ suffix
      else if direction = ''d2h'' then ''hbm_ddr_'' @ suffix
      else suffix)"

definition engine_requests_direct :: "string \<Rightarrow> bool" where
  "engine_requests_direct engine = str_contains ''direct'' engine"

definition direct_candidate_from_engine :: "string \<Rightarrow> string" where
  "direct_candidate_from_engine engine =
     (case strip_prefix ''ssd_hbm_auto_'' engine of
        Some s \<Rightarrow> s
      | None \<Rightarrow> (case strip_prefix ''ssd_hbm_'' engine of Some s \<Rightarrow> s | None \<Rightarrow> ''file_mmap_acl_direct''))"

definition engine_requests_auto_ssd_hbm :: "string \<Rightarrow> bool" where
  "engine_requests_auto_ssd_hbm engine = prefix ''ssd_hbm_auto_'' engine"

definition auto_direct_fallback_reason :: "string \<Rightarrow> string \<Rightarrow> string" where
  "auto_direct_fallback_reason candidate reason =
     ''auto SSD-HBM direct candidate '' @ candidate @
     '' failed, fell back to SSD-DDR-HBM relay: '' @ reason"

definition ensure_transfer_bounds ::
  "RuntimeObject \<Rightarrow> RuntimeObject \<Rightarrow> u64 \<Rightarrow> u64 \<Rightarrow> u64 \<Rightarrow> unit result" where
  "ensure_transfer_bounds src dst src_off dst_off n =
     (if n = 0 then Inl ''transfer nbytes must be positive''
      else if range_exceeds src_off n (ob_requested_bytes (ro_object src)) \<or>
              range_exceeds dst_off n (ob_requested_bytes (ro_object dst))
      then Inl ''transfer size exceeds source or destination object''
      else if \<not> (ob_state (ro_object src) = ''Ready'' \<or> ob_state (ro_object src) = ''Modified'')
      then Inl (''source object '' @ show_u64 (ob_object_id (ro_object src)) @ '' is not ready, state='' @
                ob_state (ro_object src))
      else Inr ())"

section \<open>Copies between device memory and DDR\<close>

text \<open>The statistics of a channel run have the fields the event reports.\<close>

type_synonym TransferChannelRunStats = ChannelMetrics

definition channel_default :: ChannelMetrics where
  "channel_default = \<lparr> ch_direction = [], ch_lane_id = 0, ch_device_id = 0, ch_chunk_bytes = 0,
     ch_chunk_count = 0, ch_pinned_footprint_bytes = 0, ch_lane_wait_us = f0, ch_chunks_transferred = 0,
     ch_cpu_copy_us = f0, ch_acl_copy_us = f0, ch_acl_submit_us = f0, ch_acl_wait_us = f0,
     ch_wall_us = f0, ch_queue_wait_us = f0, ch_worker_execute_us = f0, ch_overlap_ratio = f0,
     ch_stream_create_count = 0, ch_event_reuse_count = 0, ch_event_record_count = 0,
     ch_event_wait_count = 0, ch_pipeline_overlap = False \<rparr>"

definition clamp01 :: "rat \<Rightarrow> rat" where
  "clamp01 x = max 0 (min 1 x)"

definition staged_stats :: "vendor \<Rightarrow> LaneLeaseInfo \<Rightarrow> bool \<Rightarrow> copy_counts \<Rightarrow> ChannelMetrics" where
  "staged_stats v lane use_async cnt =
     (let submit = if use_async then vn_us v ''acl_submit'' else 0;
          wait = vn_us v ''acl_wait'';
          cpu = vn_us v ''cpu_copy'';
          acl = submit + wait;
          wall = vn_us v ''wall'';
          serial = cpu + acl in
      channel_default
        \<lparr> ch_direction := direction_str (ll_direction lane), ch_lane_id := ll_lane_id lane,
          ch_device_id := ll_active_device_id lane, ch_chunk_bytes := ll_chunk_bytes lane,
          ch_chunk_count := of_nat (ll_chunk_count lane),
          ch_pinned_footprint_bytes := ll_pinned_footprint_bytes lane,
          ch_lane_wait_us := F64 (ll_lane_wait_us lane), ch_chunks_transferred := cc_chunks cnt,
          ch_event_record_count := cc_records cnt, ch_event_wait_count := cc_waits cnt,
          ch_acl_submit_us := F64 submit, ch_acl_wait_us := F64 wait, ch_acl_copy_us := F64 acl,
          ch_cpu_copy_us := F64 cpu, ch_wall_us := F64 wall,
          ch_overlap_ratio := (if 0 < serial then F64 (clamp01 (1 - wall / serial)) else f0),
          ch_pipeline_overlap := (use_async \<and> 1 < cc_chunks cnt), ch_stream_create_count := 1 \<rparr>)"

definition direct_stats :: "vendor \<Rightarrow> DirectLaneLeaseInfo \<Rightarrow> u64 \<Rightarrow> ChannelMetrics" where
  "direct_stats v lane n =
     channel_default
       \<lparr> ch_direction := direction_str (dq_direction lane), ch_lane_id := dq_lane_id lane,
         ch_device_id := dq_active_device_id lane, ch_chunk_bytes := n, ch_chunk_count := 1,
         ch_stream_create_count := dq_stream_create_count lane,
         ch_event_reuse_count := dq_event_reuse_count lane, ch_lane_wait_us := F64 (dq_lane_wait_us lane),
         ch_acl_submit_us := F64 (vn_us v ''acl_submit''), ch_event_record_count := 1,
         ch_acl_wait_us := F64 (vn_us v ''acl_wait''), ch_event_wait_count := 1, ch_chunks_transferred := 1,
         ch_acl_copy_us := F64 (vn_us v ''acl_submit'' + vn_us v ''acl_wait''),
         ch_wall_us := F64 (vn_us v ''wall'') \<rparr>"

definition stage :: "vendor \<Rightarrow> LaneLeaseInfo \<Rightarrow> bytes \<Rightarrow> bytes \<Rightarrow> staging" where
  "stage v lane dev host =
     \<lparr> sg_dev = dev, sg_host = host, sg_pinned = map (\<lambda>c. vn_pinned v (pv_ptr c)) (ll_chunks lane),
       sg_pending = replicate (length (ll_chunks lane)) None \<rparr>"

definition need_hbm :: "string \<Rightarrow> RuntimeObject \<Rightarrow> (HbmAllocation \<Rightarrow> world \<Rightarrow> 'a run) \<Rightarrow> world \<Rightarrow> 'a run" where
  "need_hbm what ro f w =
     (case ro_hbm ro of None \<Rightarrow> Some (Inl (what @ '' is not HBM''), w) | Some a \<Rightarrow> f a w)"

text \<open>The single DMA of a direct copy: submitted, then awaited.\<close>

definition one_dma :: "vendor \<Rightarrow> string \<Rightarrow> (world \<Rightarrow> world) \<Rightarrow> world \<Rightarrow> unit run" where
  "one_dma v what move w =
     (let d = vn_dma v in
      case acl_check what (dma_submit d 0) of
        Inl e \<Rightarrow> Some (Inl e, w)
      | Inr _ \<Rightarrow>
          let w' = if dma_eager d 0 then move w else w in
          (case acl_check ''synchronize_event'' (dma_sync d 0) of
             Inl e \<Rightarrow> Some (Inl e, w')
           | Inr _ \<Rightarrow> Some (Inr (), if dma_eager d 0 then w' else move w')))"

definition set_ddr :: "Object \<Rightarrow> bytes \<Rightarrow> world \<Rightarrow> world" where
  "set_ddr ob bs w = w\<lparr> w_ddr := (w_ddr w)(ob_object_id ob := bs) \<rparr>"

definition set_hbm :: "HbmAllocation \<Rightarrow> bytes \<Rightarrow> world \<Rightarrow> world" where
  "set_hbm a bs w = w\<lparr> w_hbm := (w_hbm w)(hbm_key a := bs) \<rparr>"

definition set_ssd :: "Object \<Rightarrow> bytes \<Rightarrow> world \<Rightarrow> world" where
  "set_ssd ob bs w = w\<lparr> w_ssd := (w_ssd w)(ob_ssd_path ob := bs) \<rparr>"

definition ddr_of :: "Object \<Rightarrow> world \<Rightarrow> bytes" where
  "ddr_of ob w = w_ddr w (ob_object_id ob)"

definition hbm_of :: "HbmAllocation \<Rightarrow> world \<Rightarrow> bytes" where
  "hbm_of a w = w_hbm w (hbm_key a)"

definition ssd_of :: "Object \<Rightarrow> world \<Rightarrow> bytes" where
  "ssd_of ob w = w_ssd w (ob_ssd_path ob)"

definition copy_hbm_to_ddr_direct ::
  "environment \<Rightarrow> vendor \<Rightarrow> RuntimeObject \<Rightarrow> RuntimeObject \<Rightarrow> u64 \<Rightarrow> world \<Rightarrow> ChannelMetrics run" where
  "copy_hbm_to_ddr_direct env v src dst n =
     need_hbm ''source'' src (\<lambda>a.
     in_direct_lane env v D2H (al_device_id a) (\<lambda>lane.
     with_ddr_mapping v (ro_object dst) (\<lambda>len w.
       if len < unat n then Some (Inl ''transfer size exceeds mapped DDR destination'', w)
       else case (if env_bool env ''UF_D2H_REGISTER_DDR'' False
                  then acl_check ''host_register'' (dma_register (vn_dma v)) else Inr ()) of
         Inl e \<Rightarrow> Some (Inl e, w)
       | Inr _ \<Rightarrow>
           and_then (one_dma v ''d2h_async_on_stream''
               (\<lambda>w. set_ddr (ro_object dst)
                  (splice (ddr_of (ro_object dst) w) 0 (window (hbm_of a w) 0 (unat n))) w) w)
             (\<lambda>_ w. Some (Inr (direct_stats v lane n), w)))))"

definition copy_ddr_to_hbm_direct ::
  "environment \<Rightarrow> vendor \<Rightarrow> RuntimeObject \<Rightarrow> RuntimeObject \<Rightarrow> u64 \<Rightarrow> world \<Rightarrow> ChannelMetrics run" where
  "copy_ddr_to_hbm_direct env v src dst n =
     need_hbm ''destination'' dst (\<lambda>a.
     in_direct_lane env v H2D (al_device_id a) (\<lambda>lane.
     with_ddr_mapping v (ro_object src) (\<lambda>len w.
       if len < unat n then Some (Inl ''transfer size exceeds mapped DDR source'', w)
       else and_then (one_dma v ''h2d_async_on_stream''
               (\<lambda>w. set_hbm a (splice (hbm_of a w) 0 (window (ddr_of (ro_object src) w) 0 (unat n))) w) w)
             (\<lambda>_ w. Some (Inr (direct_stats v lane n), w)))))"

definition copy_hbm_to_ddr ::
  "environment \<Rightarrow> vendor \<Rightarrow> RuntimeObject \<Rightarrow> RuntimeObject \<Rightarrow> u64 \<Rightarrow> bool \<Rightarrow> string \<Rightarrow> world \<Rightarrow> ChannelMetrics run" where
  "copy_hbm_to_ddr env v src dst n use_async engine =
     (if use_async \<and> engine_requests_direct engine then copy_hbm_to_ddr_direct env v src dst n
      else
        need_hbm ''source'' src (\<lambda>a.
        in_lane env v D2H (al_device_id a) n (\<lambda>lane.
        with_ddr_mapping v (ro_object dst) (\<lambda>len w.
          if len < unat n then Some (Inl ''transfer size exceeds mapped DDR destination'', w)
          else
            let sg = stage v lane (hbm_of a w) (ddr_of (ro_object dst) w);
                cb = ll_chunk_bytes lane in
            case (if use_async then d2h_async (vn_dma v) cb n 0 (replicate (length (ll_chunks lane)) None) no_counts sg
                  else d2h_sync (vn_dma v) cb n 0 no_counts sg) of
              None \<Rightarrow> None
            | Some (r, sg') \<Rightarrow>
                Some (map_sum id (staged_stats v lane use_async) r, set_ddr (ro_object dst) (sg_host sg') w)))))"

definition copy_ddr_to_hbm ::
  "environment \<Rightarrow> vendor \<Rightarrow> RuntimeObject \<Rightarrow> RuntimeObject \<Rightarrow> u64 \<Rightarrow> bool \<Rightarrow> string \<Rightarrow> world \<Rightarrow> ChannelMetrics run" where
  "copy_ddr_to_hbm env v src dst n use_async engine =
     need_hbm ''destination'' dst (\<lambda>a.
       if use_async \<and> engine_requests_direct engine then copy_ddr_to_hbm_direct env v src dst n
       else
        in_lane env v H2D (al_device_id a) n (\<lambda>lane.
        with_ddr_mapping v (ro_object src) (\<lambda>len w.
          if len < unat n then Some (Inl ''transfer size exceeds mapped DDR source'', w)
          else
            let sg = stage v lane (hbm_of a w) (ddr_of (ro_object src) w);
                cb = ll_chunk_bytes lane in
            case (if use_async then h2d_async (vn_dma v) cb n 0 (replicate (length (ll_chunks lane)) None) no_counts sg
                  else h2d_sync (vn_dma v) cb n 0 no_counts sg) of
              None \<Rightarrow> None
            | Some (r, sg') \<Rightarrow>
                Some (map_sum id (staged_stats v lane use_async) r, set_hbm a (sg_dev sg') w))))"

definition copy_hbm_to_hbm :: "vendor \<Rightarrow> RuntimeObject \<Rightarrow> RuntimeObject \<Rightarrow> u64 \<Rightarrow> world \<Rightarrow> unit run" where
  "copy_hbm_to_hbm v src dst n =
     need_hbm ''source'' src (\<lambda>a. need_hbm ''destination'' dst (\<lambda>b w.
       case acl_check ''d2d_on_devices'' (dma_d2d (vn_dma v)) of
         Inl e \<Rightarrow> Some (Inl e, w)
       | Inr _ \<Rightarrow> Some (Inr (), set_hbm b (splice (hbm_of b w) 0 (window (hbm_of a w) 0 (unat n))) w)))"

definition copy_ddr_to_ddr :: "vendor \<Rightarrow> RuntimeObject \<Rightarrow> RuntimeObject \<Rightarrow> u64 \<Rightarrow> world \<Rightarrow> unit run" where
  "copy_ddr_to_ddr v src dst n =
     with_ddr_mapping v (ro_object src) (\<lambda>src_len w.
       if src_len < unat n then Some (Inl ''transfer size exceeds mapped DDR source'', w)
       else with_ddr_mapping v (ro_object dst) (\<lambda>dst_len w.
         if dst_len < unat n then Some (Inl ''transfer size exceeds mapped DDR destination'', w)
         else Some (Inr (), set_ddr (ro_object dst)
                (splice (ddr_of (ro_object dst) w) 0 (window (ddr_of (ro_object src) w) 0 (unat n))) w)) w)"

section \<open>Copies that touch files\<close>

definition copy_ssd_to_ddr ::
  "environment \<Rightarrow> vendor \<Rightarrow> RuntimeObject \<Rightarrow> RuntimeObject \<Rightarrow> u64 \<Rightarrow> u64 \<Rightarrow> u64 \<Rightarrow> world \<Rightarrow> SsdIoStats run" where
  "copy_ssd_to_ddr env v src dst src_off dst_off n =
     with_ddr_mapping v (ro_object dst) (\<lambda>len w.
       if range_exceeds dst_off n (of_nat len) then Some (Inl ''transfer size exceeds mapped DDR destination'', w)
       else let (r, bs) = read_ssd_to_ptr env (vn_io v) (ro_object src) (ssd_of (ro_object src) w) src_off
                            (unat dst_off) n (ddr_of (ro_object dst) w) in
         Some (r, set_ddr (ro_object dst) bs w))"

definition copy_ddr_to_ssd ::
  "environment \<Rightarrow> vendor \<Rightarrow> RuntimeObject \<Rightarrow> RuntimeObject \<Rightarrow> u64 \<Rightarrow> u64 \<Rightarrow> u64 \<Rightarrow> world \<Rightarrow> SsdIoStats run" where
  "copy_ddr_to_ssd env v src dst src_off dst_off n =
     with_ddr_mapping v (ro_object src) (\<lambda>len w.
       if range_exceeds src_off n (of_nat len) then Some (Inl ''transfer size exceeds mapped DDR source'', w)
       else let (r, fl) = write_ptr_to_ssd env (vn_io v) (ro_object dst) (ddr_of (ro_object src) w)
                            (unat src_off) dst_off n (ssd_of (ro_object dst) w) in
         Some (r, set_ssd (ro_object dst) fl w))"

text \<open>Statistics of a relay: the SSD part, the time in device copies, the whole time.\<close>

definition copy_ssd_to_hbm_via_ddr ::
  "environment \<Rightarrow> vendor \<Rightarrow> RuntimeObject \<Rightarrow> RuntimeObject \<Rightarrow> u64 \<Rightarrow> u64 \<Rightarrow> u64 \<Rightarrow> world \<Rightarrow>
     (SsdIoStats \<times> rat \<times> rat) run" where
  "copy_ssd_to_hbm_via_ddr env v src dst src_off dst_off n =
     need_hbm ''destination'' dst (\<lambda>a w.
       let (r, dev) = ssd_hbm_relay env (vn_io v) (vn_dma v) (ro_object src) (ssd_of (ro_object src) w)
                        src_off dst_off n 0 no_relay (replicate (unat (relay_capacity env n)) 0) (hbm_of a w) in
       Some (map_sum id (\<lambda>run. (rr_ssd run, rr_acl_us run, vn_us v ''relay_total'')) r, set_hbm a dev w))"

definition copy_hbm_to_ssd_via_ddr ::
  "environment \<Rightarrow> vendor \<Rightarrow> RuntimeObject \<Rightarrow> RuntimeObject \<Rightarrow> u64 \<Rightarrow> u64 \<Rightarrow> u64 \<Rightarrow> world \<Rightarrow>
     (SsdIoStats \<times> rat \<times> rat) run" where
  "copy_hbm_to_ssd_via_ddr env v src dst src_off dst_off n =
     need_hbm ''source'' src (\<lambda>a w.
       let (r, fl) = hbm_ssd_relay env (vn_io v) (vn_dma v) (ro_object dst) (hbm_of a w)
                       src_off dst_off n 0 no_relay (replicate (unat (relay_capacity env n)) 0) (ssd_of (ro_object dst) w) in
       Some (map_sum id (\<lambda>run. (rr_ssd run, rr_acl_us run, vn_us v ''relay_total'')) r, set_ssd (ro_object dst) fl w))"

definition run_ssd_to_hbm_direct ::
  "environment \<Rightarrow> vendor \<Rightarrow> RuntimeObject \<Rightarrow> HbmAllocation \<Rightarrow> u64 \<Rightarrow> u64 \<Rightarrow> u64 \<Rightarrow> string \<Rightarrow> world \<Rightarrow>
     SsdHbmDirectStats run" where
  "run_ssd_to_hbm_direct env v src a src_off dst_off n candidate w =
     (let (r, dev) = copy_ssd_to_hbm_direct env (vn_io v) (vn_dma v) (ro_object src) (ssd_of (ro_object src) w)
                       src_off dst_off n candidate (hbm_of a w) in
      Some (r, set_hbm a dev w))"

definition run_hbm_to_ssd_direct ::
  "environment \<Rightarrow> vendor \<Rightarrow> HbmAllocation \<Rightarrow> RuntimeObject \<Rightarrow> u64 \<Rightarrow> u64 \<Rightarrow> u64 \<Rightarrow> string \<Rightarrow> world \<Rightarrow>
     SsdHbmDirectStats run" where
  "run_hbm_to_ssd_direct env v a dst src_off dst_off n candidate w =
     (let (r, fl) = copy_hbm_to_ssd_direct env (vn_io v) (vn_dma v) (hbm_of a w) (ro_object dst)
                      src_off dst_off n candidate (ssd_of (ro_object dst) w) in
      Some (r, set_ssd (ro_object dst) fl w))"

section \<open>Executing the work\<close>

record TransferWork =
  tw_event_id :: u64
  tw_plan :: TransferPlanRecord
  tw_src :: RuntimeObject
  tw_dst :: RuntimeObject

record ActualTransfer =
  at_bytes_done :: u64
  at_actual_engine :: string
  at_actual_path :: string
  at_fallback_used :: bool
  at_fallback_reason :: string
  at_channel :: "ChannelMetrics option"
  at_ssd :: SsdIoStats
  at_direct :: SsdHbmDirectStats
  at_relay_stage_count :: u64
  at_relay_ddr_hbm_us :: rat
  at_relay_total_us :: rat

definition actual_new :: "u64 \<Rightarrow> string \<Rightarrow> string \<Rightarrow> bool \<Rightarrow> string \<Rightarrow> ActualTransfer" where
  "actual_new n engine path used reason =
     \<lparr> at_bytes_done = n, at_actual_engine = engine, at_actual_path = path, at_fallback_used = used,
       at_fallback_reason = reason, at_channel = None, at_ssd = ssd_io_default, at_direct = direct_default,
       at_relay_stage_count = 0, at_relay_ddr_hbm_us = 0, at_relay_total_us = 0 \<rparr>"

text \<open>The local variables the paths fill in; an override replaces the reported engine and path.\<close>

record path_outcome =
  po_channel :: "ChannelMetrics option"
  po_ssd :: SsdIoStats
  po_direct :: SsdHbmDirectStats
  po_stages :: u64
  po_ddr_hbm_us :: rat
  po_total_us :: rat
  po_fallback :: "string option"
  po_override :: "(string \<times> string) option"

definition no_outcome :: path_outcome where
  "no_outcome = \<lparr> po_channel = None, po_ssd = ssd_io_default, po_direct = direct_default, po_stages = 0,
     po_ddr_hbm_us = 0, po_total_us = 0, po_fallback = None, po_override = None \<rparr>"

definition relay_outcome :: "SsdIoStats \<times> rat \<times> rat \<Rightarrow> path_outcome" where
  "relay_outcome s = no_outcome\<lparr> po_ssd := fst s, po_stages := 2, po_ddr_hbm_us := fst (snd s),
     po_total_us := snd (snd s) \<rparr>"

definition fallback_outcome :: "string \<Rightarrow> string \<Rightarrow> string \<Rightarrow> SsdIoStats \<times> rat \<times> rat \<Rightarrow> path_outcome" where
  "fallback_outcome path candidate reason s =
     (relay_outcome s)
       \<lparr> po_direct := direct_default\<lparr> hd_candidate_name := candidate, hd_direct_kind := ''logical'' \<rparr>,
         po_fallback := Some (auto_direct_fallback_reason candidate reason),
         po_override := Some (''ssd_hbm_relay_ddr'', path) \<rparr>"

definition run_path :: "environment \<Rightarrow> vendor \<Rightarrow> TransferWork \<Rightarrow> world \<Rightarrow> path_outcome run" where
  "run_path env v work w =
     (let p = tw_plan work; src = tw_src work; dst = tw_dst work; n = tp_nbytes p;
          so = tp_src_offset_bytes p; do = tp_dst_offset_bytes p; engine = tp_engine p;
          use_async = str_contains ''async'' engine; path = tp_path p;
          channel = (\<lambda>c w. Some (Inr (no_outcome\<lparr> po_channel := Some c \<rparr>), w));
          plain = (\<lambda>_ w. Some (Inr no_outcome, w));
          ssd = (\<lambda>s w. Some (Inr (no_outcome\<lparr> po_ssd := s \<rparr>), w));
          relay = (\<lambda>s w. Some (Inr (relay_outcome s), w));
          candidate = direct_candidate_from_engine engine in
      if path = ''direct_ref'' then Some (Inr no_outcome, w)
      else if path = ''hbm_to_ddr'' then and_then (copy_hbm_to_ddr env v src dst n use_async engine w) channel
      else if path = ''ddr_to_hbm'' then and_then (copy_ddr_to_hbm env v src dst n use_async engine w) channel
      else if path = ''hbm_to_hbm'' then and_then (copy_hbm_to_hbm v src dst n w) plain
      else if path = ''ddr_to_ddr'' then and_then (copy_ddr_to_ddr v src dst n w) plain
      else if path = ''ssd_to_ddr'' then and_then (copy_ssd_to_ddr env v src dst so do n w) ssd
      else if path = ''ddr_to_ssd'' then and_then (copy_ddr_to_ssd env v src dst so do n w) ssd
      else if path = ''ssd_to_hbm_via_ddr''
      then and_then (copy_ssd_to_hbm_via_ddr env v src dst so do n w) relay
      else if path = ''hbm_to_ssd_via_ddr''
      then and_then (copy_hbm_to_ssd_via_ddr env v src dst so do n w) relay
      else if path = ''ssd_to_hbm_direct''
      then need_hbm ''destination'' dst (\<lambda>a w.
             case run_ssd_to_hbm_direct env v src a so do n candidate w of
               Some (Inr s, w) \<Rightarrow>
                 Some (Inr (no_outcome\<lparr> po_direct := s,
                   po_ssd := ssd_io_default\<lparr> ss_read_bytes := hd_read_bytes s, ss_bytes := hd_bytes s \<rparr> \<rparr>), w)
             | Some (Inl reason, w) \<Rightarrow>
                 if engine_requests_auto_ssd_hbm engine
                 then and_then (copy_ssd_to_hbm_via_ddr env v src dst so do n w)
                        (\<lambda>s w. Some (Inr (fallback_outcome ''ssd_to_hbm_via_ddr'' candidate reason s), w))
                 else Some (Inl reason, w)
             | None \<Rightarrow> None) w
      else if path = ''hbm_to_ssd_direct''
      then need_hbm ''source'' src (\<lambda>a w.
             case run_hbm_to_ssd_direct env v a dst so do n candidate w of
               Some (Inr s, w) \<Rightarrow>
                 Some (Inr (no_outcome\<lparr> po_direct := s,
                   po_ssd := ssd_io_default\<lparr> ss_write_bytes := hd_write_bytes s, ss_bytes := hd_bytes s \<rparr> \<rparr>), w)
             | Some (Inl reason, w) \<Rightarrow>
                 if engine_requests_auto_ssd_hbm engine
                 then and_then (copy_hbm_to_ssd_via_ddr env v src dst so do n w)
                        (\<lambda>s w. Some (Inr (fallback_outcome ''hbm_to_ssd_via_ddr'' candidate reason s), w))
                 else Some (Inl reason, w)
             | None \<Rightarrow> None) w
      else Some (Inl (''unsupported transfer path '' @ path), w))"

text \<open>The engine and path that are reported.\<close>

definition direct_channel :: "ChannelMetrics option \<Rightarrow> bool" where
  "direct_channel c =
     (case c of
        None \<Rightarrow> False
      | Some m \<Rightarrow> (ch_direction m = ''h2d'' \<or> ch_direction m = ''d2h'') \<and> ch_pinned_footprint_bytes m = 0 \<and>
          0 < ch_event_record_count m)"

definition ddr_side :: "TransferWork \<Rightarrow> RuntimeObject" where
  "ddr_side work = (if tp_path (tw_plan work) = ''ddr_to_hbm'' then tw_src work else tw_dst work)"

definition actual_engine :: "TransferWork \<Rightarrow> path_outcome \<Rightarrow> string" where
  "actual_engine work po =
     (let engine = tp_engine (tw_plan work) in
      case po_override po of
        Some (e, _) \<Rightarrow> e
      | None \<Rightarrow>
          if direct_channel (po_channel po) then direct_engine_name (ddr_side work)
          else if po_channel po \<noteq> None \<and> str_contains ''pinned'' engine
          then (if str_contains ''async'' engine then ''acl_pinned_async_channel'' else ''acl_pinned_sync_channel'')
          else engine)"

definition actual_path :: "TransferWork \<Rightarrow> path_outcome \<Rightarrow> string" where
  "actual_path work po =
     (case po_override po of
        Some (_, path) \<Rightarrow> path
      | None \<Rightarrow>
          if direct_channel (po_channel po)
          then direct_path_name (case po_channel po of Some m \<Rightarrow> ch_direction m | None \<Rightarrow> []) (ddr_side work)
          else if po_channel po \<noteq> None then ''memfd_pinned_hbm_channel''
          else tp_path (tw_plan work))"

definition execute_transfer_work :: "environment \<Rightarrow> vendor \<Rightarrow> TransferWork \<Rightarrow> world \<Rightarrow> ActualTransfer run" where
  "execute_transfer_work env v work w =
     (let p = tw_plan work in
      case ensure_transfer_bounds (tw_src work) (tw_dst work) (tp_src_offset_bytes p) (tp_dst_offset_bytes p) (tp_nbytes p) of
        Inl e \<Rightarrow> Some (Inl e, w)
      | Inr _ \<Rightarrow>
          and_then (run_path env v work w) (\<lambda>po w.
            Some (Inr ((actual_new (tp_nbytes p) (actual_engine work po) (actual_path work po)
                    (po_fallback po \<noteq> None \<or> tp_fallback_used p)
                    (case po_fallback po of Some reason \<Rightarrow> reason | None \<Rightarrow> tp_fallback_reason p))
                \<lparr> at_channel := po_channel po, at_ssd := po_ssd po, at_direct := po_direct po,
                  at_relay_stage_count := po_stages po, at_relay_ddr_hbm_us := po_ddr_hbm_us po,
                  at_relay_total_us := po_total_us po \<rparr>), w)))"

end
