(* ===== verification/ExecutorLaws.thy ===== *)
theory ExecutorLaws
  imports Executor CopyLaws LaneLaws
begin

text \<open>
  What an executed transfer does to the bytes of the system: it changes the destination of its plan
  only, and when it succeeds the destination holds the planned window of the source.
\<close>

section \<open>Places\<close>

datatype place = AtHbm "int \<times> u64" | AtDdr u64 | AtSsd string

fun bytes_at :: "place \<Rightarrow> world \<Rightarrow> bytes" where
  "bytes_at (AtHbm k) w = w_hbm w k"
| "bytes_at (AtDdr i) w = w_ddr w i"
| "bytes_at (AtSsd p) w = w_ssd w p"

lemma bytes_at_sets [simp]:
  "bytes_at l (set_ddr ob bs w) = (if l = AtDdr (ob_object_id ob) then bs else bytes_at l w)"
  "bytes_at l (set_hbm a bs w) = (if l = AtHbm (hbm_key a) then bs else bytes_at l w)"
  "bytes_at l (set_ssd ob bs w) = (if l = AtSsd (ob_ssd_path ob) then bs else bytes_at l w)"
  by (cases l; simp add: set_ddr_def set_hbm_def set_ssd_def)+

lemma bytes_at_of:
  "ddr_of ob w = bytes_at (AtDdr (ob_object_id ob)) w" "hbm_of a w = bytes_at (AtHbm (hbm_key a)) w"
  "ssd_of ob w = bytes_at (AtSsd (ob_ssd_path ob)) w"
  by (simp_all add: ddr_of_def hbm_of_def ssd_of_def)

lemma bytes_at_lanes [simp]: "bytes_at l (w\<lparr> w_channel := c \<rparr>) = bytes_at l w" "bytes_at l (w\<lparr> w_direct := d \<rparr>) = bytes_at l w"
  by (cases l; simp)+

declare bytes_at.simps [simp del]

text \<open>
  A run that copies \<open>n\<close> bytes from place \<open>s\<close> at \<open>soff\<close> to place \<open>d\<close> at \<open>doff\<close>: only \<open>d\<close> changes; on
  success by the whole window, on failure by a part of it. Without a result the thread is asleep (\<open>B\<close>).
\<close>

definition copies :: "bool \<Rightarrow> place \<Rightarrow> nat \<Rightarrow> place \<Rightarrow> nat \<Rightarrow> nat \<Rightarrow> world \<Rightarrow> 'a run \<Rightarrow> bool" where
  "copies B d doff s soff n w m \<longleftrightarrow>
     (case m of
        None \<Rightarrow> B
      | Some (r, w') \<Rightarrow>
          (\<forall>l. l \<noteq> d \<longrightarrow> bytes_at l w' = bytes_at l w) \<and>
          (case r of
             Inr _ \<Rightarrow> bytes_at d w' = splice (bytes_at d w) doff (window (bytes_at s w) soff n)
           | Inl _ \<Rightarrow> partial_copy (bytes_at d w) doff (bytes_at s w) soff n (bytes_at d w')))"

lemma copies_error [simp]: "copies B d doff s soff n w (Some (Inl e, w))"
  by (simp add: copies_def partial_nothing)

lemma copies_and_then:
  assumes "copies B d doff s soff n w m" and "\<And>x w'. \<exists>y. k x w' = Some (Inr y, w')"
  shows "copies B d doff s soff n w (and_then m k)"
proof (cases m)
  case None
  then show ?thesis using assms(1) by (simp add: copies_def and_then_def)
next
  case (Some p)
  obtain r w' where p: "p = (r, w')" by (cases p)
  show ?thesis
  proof (cases r)
    case (Inl e)
    then show ?thesis using assms(1) Some p by (simp add: copies_def and_then_def)
  next
    case (Inr x)
    obtain y where "k x w' = Some (Inr y, w')" using assms(2) by blast
    then show ?thesis using assms(1) Some p Inr by (simp add: copies_def and_then_def)
  qed
qed

lemma copies_mapping:
  assumes "\<And>len. copies B d doff s soff n w (f len w)"
  shows "copies B d doff s soff n w (with_ddr_mapping v ob f w)"
  using assms by (simp add: with_ddr_mapping_def split: sum.split)

lemma copies_need_hbm:
  assumes "\<And>a. ro_hbm ro = Some a \<Longrightarrow> copies B d doff s soff n w (f a w)"
  shows "copies B d doff s soff n w (need_hbm what ro f w)"
  using assms by (simp add: need_hbm_def split: option.split)

text \<open>A copy that is done in one go.\<close>

lemma copies_at_once:
  assumes "\<And>l. bytes_at l w' = (if l = d then splice (bytes_at d w) doff (window (bytes_at s w) soff n) else bytes_at l w)"
  shows "copies B d doff s soff n w (Some (Inr x, w'))"
  using assms by (simp add: copies_def)

lemma partial_whole:
  assumes "doff + n \<le> length old" and "soff + n \<le> length src"
  shows "partial_copy old doff src soff n (splice old doff (window src soff n))"
proof -
  have "copying old doff src soff ({} \<union> {0..<0 + n}) (splice old (doff + 0) (window src soff n))"
    using assms by (intro copying_piece) (simp_all add: copying_nothing)
  then have "copying old doff src soff {0..<n} (splice old doff (window src soff n))" by simp
  then show ?thesis unfolding partial_copy_def by (intro exI [of _ "{0..<n}"]) auto
qed

lemma copies_one_dma:
  assumes "\<And>l. bytes_at l (move w) = (if l = d then splice (bytes_at d w) doff (window (bytes_at s w) soff n) else bytes_at l w)"
    and "doff + n \<le> length (bytes_at d w)" and "soff + n \<le> length (bytes_at s w)"
  shows "copies B d doff s soff n w (one_dma v what move w)"
proof -
  have "copies B d doff s soff n w (Some (Inl e, move w))" for e
    using partial_whole [OF assms(2,3)] by (simp add: copies_def assms(1))
  then show ?thesis
    using copies_at_once [OF assms(1), where B = B]
    by (cases "dma_submit (vn_dma v) 0"; cases "dma_sync (vn_dma v) 0") (auto simp: one_dma_def Let_def acl_check_def)
qed

section \<open>Lanes\<close>

text \<open>What the vendor promises of a pinned allocation, and what the lanes therefore have.\<close>

definition pinned_ok :: "vendor \<Rightarrow> bool" where
  "pinned_ok v \<longleftrightarrow>
     (\<forall>lid i n c. la_malloc_pinned_host (vn_lane v) lid i n = Inr c \<longrightarrow> unat n \<le> length (vn_pinned v (ph_ptr c)))"

definition lane_ok :: "vendor \<Rightarrow> TransferLane \<Rightarrow> bool" where
  "lane_ok v l \<longleftrightarrow>
     0 < tl_chunk_bytes l \<and> tl_chunks l \<noteq> [] \<and> length (tl_events l) = length (tl_chunks l) \<and>
     (\<forall>c \<in> set (tl_chunks l). unat (tl_chunk_bytes l) \<le> length (vn_pinned v (ph_ptr c)))"

definition lanes_ok :: "vendor \<Rightarrow> ManagerState \<Rightarrow> bool" where
  "lanes_ok v st \<longleftrightarrow> (\<forall>l \<in> set (mg_lanes st). lane_ok v l)"

definition lease_ok :: "vendor \<Rightarrow> LaneLeaseInfo \<Rightarrow> bool" where
  "lease_ok v info \<longleftrightarrow>
     0 < ll_chunk_bytes info \<and> ll_chunks info \<noteq> [] \<and>
     (\<forall>c \<in> set (ll_chunks info). unat (ll_chunk_bytes info) \<le> length (vn_pinned v (pv_ptr c)))"

lemma lease_of_lane: "lane_ok v l \<Longrightarrow> lease_ok v (lane_lease_info l dev t)"
  by (cases "tl_events l"; cases "tl_chunks l")
    (auto simp: lane_ok_def lease_ok_def lane_lease_info_def Let_def dest: set_zip_leftD)

lemma lanes_ok_thinned: "lanes_ok v st \<Longrightarrow> thinned tl_busy (mg_lanes st) (mg_lanes st') \<Longrightarrow> lanes_ok v st'"
  unfolding lanes_ok_def thinned_def by (metis mset_subset_eqD set_mset_mset)

lemma chunk_count_pos: "0 < chunk_count env"
  by (simp add: chunk_count_def env_usize_def split: option.split)

lemma make_chunks_ok:
  "pinned_ok v \<Longrightarrow> make_chunks (vn_lane v) lid n i k = Inr cs \<Longrightarrow>
   length cs = k \<and> (\<forall>c \<in> set cs. unat n \<le> length (vn_pinned v (ph_ptr (fst c))))"
proof (induction "vn_lane v" lid n i k arbitrary: cs rule: make_chunks.induct)
  case (2 lid n i k)
  obtain c e rest where "malloc_pinned_host (vn_lane v) lid i n = Inr c" "make_chunks (vn_lane v) lid n (Suc i) k = Inr rest"
      "cs = (c, e) # rest"
    using "2.prems"(2) by (auto simp: rbind_def split: sum.splits)
  then show ?case using "2.hyps" "2.prems"(1) by (auto simp: malloc_pinned_host_def pinned_ok_def rbind_def split: sum.splits)
qed simp

lemma attempt_lanes_ok:
  assumes "lanes_ok v st" and "pinned_ok v" and "acquire_attempt env (vn_lane v) dir dev hint t now st = (r, st')"
  shows "lanes_ok v st'" and "r = Granted info \<Longrightarrow> lease_ok v info"
proof -
  have swept: "lanes_ok v (reap_expired_lanes env now st)"
    using lanes_ok_thinned [OF assms(1)] reap_expired_thinned by blast
  have "lanes_ok v st' \<and> (r = Granted info \<longrightarrow> lease_ok v info)"
    using assms(3)
  proof (cases rule: acquire_attempt_cases)
    case (reuse i n)
    have i: "i < length (mg_lanes st)" using first_index_SomeD [OF reuse(1)] by simp
    let ?l = "(mg_lanes st ! i)\<lparr> tl_busy := True, tl_active_device_id := Some dev, tl_idle_since := None,
        tl_acquire_count := tl_acquire_count (mg_lanes st ! i) + 1 \<rparr>"
    have l: "lane_ok v ?l" using assms(1) i by (auto simp: lanes_ok_def lane_ok_def)
    have "mg_lanes st' = (mg_lanes st)[i := ?l]" using reuse(3) by (simp add: reuse_lane_def Let_def)
    then have "lanes_ok v st'"
      using assms(1) l set_update_subset_insert [of "mg_lanes st" i] by (auto simp: lanes_ok_def)
    moreover have "r = Granted (lane_lease_info ?l dev t)" using reuse(2) by (simp add: reuse_lane_def Let_def)
    ultimately show ?thesis using lease_of_lane [OF l] by auto
  next
    case (sweep d reaped)
    then show ?thesis using lanes_ok_thinned [OF swept] reap_one_thinned by (auto split: if_splits)
  next
    case (create n required)
    show ?thesis
    proof (cases r)
      case (Granted x)
      let ?s = "reap_expired_lanes env now st"
      obtain l cs where cs: "make_chunks (vn_lane v) (mg_next_lane_id ?s) n 0 (chunk_count env) = Inr cs"
        and st': "mg_lanes st' = mg_lanes ?s @ [l]" and x: "x = lane_lease_info l dev t"
        and l: "tl_chunk_bytes l = n" "tl_events l = map snd cs" "tl_chunks l = map fst cs"
        using create(1) Granted by (auto simp: create_lane_def Let_def rbind_def split: sum.splits)
      have "lane_ok v l"
        using make_chunks_ok [OF assms(2) cs] chunk_count_pos [of env] create(6) l by (auto simp: lane_ok_def)
      then show ?thesis using swept st' x Granted lease_of_lane by (auto simp: lanes_ok_def)
    next
      case (Refused e)
      then show ?thesis using create_lane_facts(2) [OF create(1)] swept by (simp add: lanes_ok_def)
    next
      case Again
      then show ?thesis using create_lane_facts(2) [OF create(1)] swept by (simp add: lanes_ok_def)
    next
      case Blocked
      then show ?thesis using create_lane_facts(2) [OF create(1)] swept by (simp add: lanes_ok_def)
    qed
  qed (use assms(1) swept in simp_all)
  then show "lanes_ok v st'" and "r = Granted info \<Longrightarrow> lease_ok v info" by blast+
qed

lemma acquire_lanes_ok:
  assumes "lanes_ok v st" and "pinned_ok v" and "acquire env (vn_lane v) dir dev hint t0 clk k st = (r, st')"
  shows "lanes_ok v st'" and "r = Granted info \<Longrightarrow> lease_ok v info" and "r \<noteq> Again"
proof -
  have "lanes_ok v st' \<and> (r = Granted info \<longrightarrow> lease_ok v info) \<and> r \<noteq> Again"
    using assms
  proof (induction env "vn_lane v" dir dev hint t0 clk k st rule: acquire.induct)
    case (1 env dir dev hint t0 clk k st)
    obtain r1 st1 where one: "acquire_attempt env (vn_lane v) dir dev hint (of_nat (clk k - t0) / 1000) (clk k) st = (r1, st1)"
      by fastforce
    note ok = attempt_lanes_ok [OF "1.prems"(1,2) one]
    show ?case
    proof (cases "r1 = Again")
      case True
      have "acquire env (vn_lane v) dir dev hint t0 clk (Suc k) st1 = (r, st')"
        using "1.prems"(3) one True by (simp add: acquire.simps [of env "vn_lane v" dir dev hint t0 clk k st])
      then show ?thesis using "1.hyps" [OF one [symmetric] True ok(1) "1.prems"(2)] by blast
    next
      case False
      with "1.prems"(3) one ok show ?thesis
        by (cases r1) (auto simp: acquire.simps [of env "vn_lane v" dir dev hint t0 clk k st])
    qed
  qed
  then show "lanes_ok v st'" and "r = Granted info \<Longrightarrow> lease_ok v info" and "r \<noteq> Again" by blast+
qed

lemma direct_acquire_settles: "fst (direct_acquire env a dir dev t0 clk k st) \<noteq> Again"
proof (induction env a dir dev t0 clk k st rule: direct_acquire.induct)
  case (1 env a dir dev t0 clk k st)
  obtain r1 st1 where one: "direct_attempt env a dir dev (of_nat (clk k - t0) / 1000) (clk k) st = (r1, st1)"
    by fastforce
  then show ?case using 1 [OF one [symmetric]]
    by (cases r1) (simp_all add: direct_acquire.simps [of env a dir dev t0 clk k st])
qed

text \<open>A thread that gets no result sleeps for a lane of one of the managers.\<close>

definition waits_for_lane :: "environment \<Rightarrow> vendor \<Rightarrow> world \<Rightarrow> bool" where
  "waits_for_lane env v w \<longleftrightarrow>
     (\<exists>dir dev hint. fst (acquire env (vn_lane v) dir dev hint (vn_start v) (vn_clk v) 0 (w_channel w)) = Blocked) \<or>
     (\<exists>dir dev. fst (direct_acquire env (vn_lane v) dir dev (vn_start v) (vn_clk v) 0 (w_direct w)) = Blocked)"

lemma copies_in_lane:
  assumes "lanes_ok v (w_channel w)" and "pinned_ok v"
    and "\<And>lane. lease_ok v lane \<Longrightarrow> copies (waits_for_lane env v w) d doff s soff n w (f lane w)"
  shows "copies (waits_for_lane env v w) d doff s soff n w (in_lane env v dir dev hint f w)"
proof -
  obtain r st where run: "acquire env (vn_lane v) dir dev hint (vn_start v) (vn_clk v) 0 (w_channel w) = (r, st)"
    by fastforce
  note ok = acquire_lanes_ok [OF assms(1,2) run]
  show ?thesis
  proof (cases r)
    case (Granted info)
    have c: "copies (waits_for_lane env v w) d doff s soff n w (f info w)" using assms(3) ok(2) [OF Granted] by blast
    then show ?thesis using run Granted
      by (cases "f info w") (auto simp: in_lane_def with_lane_def copies_def split: sum.splits)
  next
    case (Refused e)
    then show ?thesis using run by (simp add: in_lane_def with_lane_def copies_def partial_nothing)
  next
    case Again
    then show ?thesis using ok(3) by simp
  next
    case Blocked
    then show ?thesis using run
      by (simp add: in_lane_def with_lane_def copies_def waits_for_lane_def) (metis fst_conv)
  qed
qed

lemma copies_in_direct_lane:
  assumes "\<And>lane. copies (waits_for_lane env v w) d doff s soff n w (f lane w)"
  shows "copies (waits_for_lane env v w) d doff s soff n w (in_direct_lane env v dir dev f w)"
proof -
  obtain r st where run: "direct_acquire env (vn_lane v) dir dev (vn_start v) (vn_clk v) 0 (w_direct w) = (r, st)"
    by fastforce
  show ?thesis
  proof (cases r)
    case (Granted info)
    then show ?thesis using run assms [of info]
      by (cases "f info w") (auto simp: in_direct_lane_def direct_with_lane_def copies_def split: sum.splits)
  next
    case (Refused e)
    then show ?thesis using run by (simp add: in_direct_lane_def direct_with_lane_def copies_def partial_nothing)
  next
    case Again
    then show ?thesis
      using run direct_acquire_settles [of env "vn_lane v" dir dev "vn_start v" "vn_clk v" 0 "w_direct w"] by simp
  next
    case Blocked
    then show ?thesis using run
      by (simp add: in_direct_lane_def direct_with_lane_def copies_def waits_for_lane_def) (metis fst_conv)
  qed
qed

section \<open>The copies\<close>

lemma staging_of_lease:
  "lease_ok v lane \<Longrightarrow> staging_ready (length (ll_chunks lane)) (ll_chunk_bytes lane) (stage v lane dev host)"
  by (auto simp: lease_ok_def staging_ready_def stage_def)

lemma copies_hbm_ddr:
  assumes "lanes_ok v (w_channel w)" and "pinned_ok v" and "ro_hbm src = Some a"
    and "unat n \<le> length (hbm_of a w)" and "unat n \<le> length (ddr_of (ro_object dst) w)"
  shows "copies (waits_for_lane env v w) (AtDdr (ob_object_id (ro_object dst))) 0 (AtHbm (hbm_key a)) 0 (unat n) w
     (copy_hbm_to_ddr env v src dst n use_async engine w)"
proof (cases "use_async \<and> engine_requests_direct engine")
  case True
  have "copies B (AtDdr (ob_object_id (ro_object dst))) 0 (AtHbm (hbm_key a)) 0 (unat n) w
      (one_dma v what (\<lambda>w. set_ddr (ro_object dst) (splice (ddr_of (ro_object dst) w) 0 (window (hbm_of a w) 0 (unat n))) w) w)"
    for B what using assms(4,5) by (intro copies_one_dma) (simp_all add: bytes_at_of)
  then show ?thesis using True assms(3)
    by (auto simp: copy_hbm_to_ddr_def copy_hbm_to_ddr_direct_def need_hbm_def
        intro!: copies_in_direct_lane copies_mapping copies_and_then split: sum.split)
next
  case False
  let ?sg = "\<lambda>lane. stage v lane (hbm_of a w) (ddr_of (ro_object dst) w)"
  let ?run = "\<lambda>lane. if use_async
      then d2h_async (vn_dma v) (ll_chunk_bytes lane) n 0 (replicate (length (ll_chunks lane)) None) no_counts (?sg lane)
      else d2h_sync (vn_dma v) (ll_chunk_bytes lane) n 0 no_counts (?sg lane)"
  have "copies (waits_for_lane env v w) (AtDdr (ob_object_id (ro_object dst))) 0 (AtHbm (hbm_key a)) 0 (unat n) w
      (case ?run lane of None \<Rightarrow> None
       | Some (r, sg') \<Rightarrow> Some (map_sum id (staged_stats v lane use_async) r, set_ddr (ro_object dst) (sg_host sg') w))"
    if lane: "lease_ok v lane" for lane
  proof -
    have cb: "0 < ll_chunk_bytes lane" using lane by (simp add: lease_ok_def)
    have len: "unat n \<le> length (sg_dev (?sg lane))" "unat n \<le> length (sg_host (?sg lane))"
      using assms(4,5) by (simp_all add: stage_def)
    have "\<exists>res. ?run lane = Some res \<and> d2h_outcome (vn_dma v) n (?sg lane) res"
      using staged_read_outcome [OF staging_of_lease [OF lane] cb len, of "vn_dma v"] by (cases use_async) simp_all
    then obtain r sg' where "?run lane = Some (r, sg')" "d2h_outcome (vn_dma v) n (?sg lane) (r, sg')" by auto
    then show ?thesis by (cases r) (simp_all add: copies_def d2h_outcome_def stage_def bytes_at_of)
  qed
  then show ?thesis using False assms(1-3)
    by (auto simp only: copy_hbm_to_ddr_def need_hbm_def Let_def option.case if_False simp_thms
        intro!: copies_in_lane copies_mapping copies_error split: if_splits)
qed

lemma copies_ddr_hbm:
  assumes "lanes_ok v (w_channel w)" and "pinned_ok v" and "ro_hbm dst = Some a"
    and "unat n \<le> length (hbm_of a w)" and "unat n \<le> length (ddr_of (ro_object src) w)"
  shows "copies (waits_for_lane env v w) (AtHbm (hbm_key a)) 0 (AtDdr (ob_object_id (ro_object src))) 0 (unat n) w
     (copy_ddr_to_hbm env v src dst n use_async engine w)"
proof (cases "use_async \<and> engine_requests_direct engine")
  case True
  have "copies B (AtHbm (hbm_key a)) 0 (AtDdr (ob_object_id (ro_object src))) 0 (unat n) w
      (one_dma v what (\<lambda>w. set_hbm a (splice (hbm_of a w) 0 (window (ddr_of (ro_object src) w) 0 (unat n))) w) w)"
    for B what using assms(4,5) by (intro copies_one_dma) (simp_all add: bytes_at_of)
  then show ?thesis using True assms(3)
    by (auto simp: copy_ddr_to_hbm_def copy_ddr_to_hbm_direct_def need_hbm_def
        intro!: copies_in_direct_lane copies_mapping copies_and_then split: sum.split)
next
  case False
  let ?sg = "\<lambda>lane. stage v lane (hbm_of a w) (ddr_of (ro_object src) w)"
  let ?run = "\<lambda>lane. if use_async
      then h2d_async (vn_dma v) (ll_chunk_bytes lane) n 0 (replicate (length (ll_chunks lane)) None) no_counts (?sg lane)
      else h2d_sync (vn_dma v) (ll_chunk_bytes lane) n 0 no_counts (?sg lane)"
  have "copies (waits_for_lane env v w) (AtHbm (hbm_key a)) 0 (AtDdr (ob_object_id (ro_object src))) 0 (unat n) w
      (case ?run lane of None \<Rightarrow> None
       | Some (r, sg') \<Rightarrow> Some (map_sum id (staged_stats v lane use_async) r, set_hbm a (sg_dev sg') w))"
    if lane: "lease_ok v lane" for lane
  proof -
    have cb: "0 < ll_chunk_bytes lane" using lane by (simp add: lease_ok_def)
    have len: "unat n \<le> length (sg_dev (?sg lane))" "unat n \<le> length (sg_host (?sg lane))"
      using assms(4,5) by (simp_all add: stage_def)
    have "\<exists>res. ?run lane = Some res \<and> h2d_outcome (vn_dma v) n (?sg lane) res"
      using staged_write_outcome [OF staging_of_lease [OF lane] cb len, of "vn_dma v"] by (cases use_async) simp_all
    then obtain r sg' where "?run lane = Some (r, sg')" "h2d_outcome (vn_dma v) n (?sg lane) (r, sg')" by auto
    then show ?thesis by (cases r) (simp_all add: copies_def h2d_outcome_def stage_def bytes_at_of)
  qed
  then show ?thesis using False assms(1-3)
    by (auto simp only: copy_ddr_to_hbm_def need_hbm_def Let_def option.case if_False simp_thms
        intro!: copies_in_lane copies_mapping copies_error split: if_splits)
qed

lemma copies_hbm_hbm:
  assumes "ro_hbm src = Some a" and "ro_hbm dst = Some b"
  shows "copies B (AtHbm (hbm_key b)) 0 (AtHbm (hbm_key a)) 0 (unat n) w (copy_hbm_to_hbm v src dst n w)"
  using assms by (auto simp: copy_hbm_to_hbm_def need_hbm_def bytes_at_of intro!: copies_at_once split: sum.split)

lemma copies_ddr_ddr:
  "copies B (AtDdr (ob_object_id (ro_object dst))) 0 (AtDdr (ob_object_id (ro_object src))) 0 (unat n) w
     (copy_ddr_to_ddr v src dst n w)"
  by (auto simp: copy_ddr_to_ddr_def bytes_at_of intro!: copies_mapping copies_at_once)

text \<open>Files: the hypotheses on the kernel and on the sizes, by object.\<close>

definition file_ok :: "vendor \<Rightarrow> Object \<Rightarrow> world \<Rightarrow> bool" where
  "file_ok v ob w \<longleftrightarrow>
     reads_ok (io_read (vn_io v) (ob_ssd_path ob)) (ssd_of ob w) \<and> writes_ok (io_write (vn_io v) (ob_ssd_path ob)) \<and>
     ob_actual_bytes ob \<noteq> u64_max \<and> unat (ob_actual_bytes ob) \<le> length (ssd_of ob w)"

lemma copies_ssd_ddr:
  assumes "file_ok v (ro_object src) w" and "unat dst_off + unat n \<le> length (ddr_of (ro_object dst) w)"
  shows "copies B (AtDdr (ob_object_id (ro_object dst))) (unat dst_off) (AtSsd (ob_ssd_path (ro_object src))) (unat src_off)
     (unat n) w (copy_ssd_to_ddr env v src dst src_off dst_off n w)"
proof -
  let ?read = "read_ssd_to_ptr env (vn_io v) (ro_object src) (ssd_of (ro_object src) w) src_off (unat dst_off) n
      (ddr_of (ro_object dst) w)"
  obtain r bs where run: "?read = (r, bs)" by fastforce
  have "case ?read of
      (Inr st, dst') \<Rightarrow> dst' = splice (ddr_of (ro_object dst) w) (unat dst_off) (window (ssd_of (ro_object src) w) (unat src_off) (unat n)) \<and>
        (n = 0 \<or> unat src_off + unat n \<le> length (ssd_of (ro_object src) w)) \<and> ss_bytes st = n \<and> ss_read_bytes st = n
    | (Inl _, dst') \<Rightarrow> partial_copy (ddr_of (ro_object dst) w) (unat dst_off) (ssd_of (ro_object src) w) (unat src_off) (unat n) dst'"
    using assms by (intro read_ssd_outcome) (simp_all add: file_ok_def)
  then have "copies B (AtDdr (ob_object_id (ro_object dst))) (unat dst_off) (AtSsd (ob_ssd_path (ro_object src)))
      (unat src_off) (unat n) w (Some (r, set_ddr (ro_object dst) bs w))"
    unfolding run by (cases r) (simp_all add: copies_def bytes_at_of)
  then show ?thesis using run by (auto simp: copy_ssd_to_ddr_def intro!: copies_mapping)
qed

lemma copies_ddr_ssd:
  assumes "file_ok v (ro_object dst) w" and "unat src_off + unat n \<le> length (ddr_of (ro_object src) w)"
  shows "copies B (AtSsd (ob_ssd_path (ro_object dst))) (unat dst_off) (AtDdr (ob_object_id (ro_object src))) (unat src_off)
     (unat n) w (copy_ddr_to_ssd env v src dst src_off dst_off n w)"
proof -
  let ?flush = "write_ptr_to_ssd env (vn_io v) (ro_object dst) (ddr_of (ro_object src) w) (unat src_off) dst_off n
      (ssd_of (ro_object dst) w)"
  obtain r fl where run: "?flush = (r, fl)" by fastforce
  have "case ?flush of
      (Inr st, fl') \<Rightarrow> fl' = splice (ssd_of (ro_object dst) w) (unat dst_off) (window (ddr_of (ro_object src) w) (unat src_off) (unat n)) \<and>
        (n = 0 \<or> unat dst_off + unat n \<le> length (ssd_of (ro_object dst) w)) \<and> ss_bytes st = n \<and> ss_write_bytes st = n
    | (Inl _, fl') \<Rightarrow> partial_copy (ssd_of (ro_object dst) w) (unat dst_off) (ddr_of (ro_object src) w) (unat src_off) (unat n) fl'"
    using assms by (intro write_ssd_outcome) (simp_all add: file_ok_def)
  then have "copies B (AtSsd (ob_ssd_path (ro_object dst))) (unat dst_off) (AtDdr (ob_object_id (ro_object src)))
      (unat src_off) (unat n) w (Some (r, set_ssd (ro_object dst) fl w))"
    unfolding run by (cases r) (simp_all add: copies_def bytes_at_of)
  then show ?thesis using run by (auto simp: copy_ddr_to_ssd_def intro!: copies_mapping)
qed

lemma copies_ssd_hbm:
  assumes "file_ok v (ro_object src) w" and "unat src_off + unat n \<le> unat (ob_actual_bytes (ro_object src))"
    and "ro_hbm dst = Some a" and "unat dst_off + unat n \<le> length (hbm_of a w)" and "length (hbm_of a w) \<le> 2 ^ 64"
  shows "copies B (AtHbm (hbm_key a)) (unat dst_off) (AtSsd (ob_ssd_path (ro_object src))) (unat src_off) (unat n) w
     (copy_ssd_to_hbm_via_ddr env v src dst src_off dst_off n w)"
proof -
  let ?relay = "ssd_hbm_relay env (vn_io v) (vn_dma v) (ro_object src) (ssd_of (ro_object src) w) src_off dst_off n 0
      no_relay (replicate (unat (relay_capacity env n)) 0) (hbm_of a w)"
  obtain r dev where run: "?relay = (r, dev)" by fastforce
  have "case ?relay of
      (Inr run', dev') \<Rightarrow> dev' = splice (hbm_of a w) (unat dst_off) (window (ssd_of (ro_object src) w) (unat src_off) (unat n)) \<and>
        ss_bytes (rr_ssd run') = n
    | (Inl _, dev') \<Rightarrow> partial_copy (hbm_of a w) (unat dst_off) (ssd_of (ro_object src) w) (unat src_off) (unat n) dev'"
    using assms unat_less_u64 [of "ob_actual_bytes (ro_object src)"]
    by (intro ssd_hbm_relay_outcome) (simp_all add: file_ok_def copying_nothing no_relay_def ssd_io_default_def)
  then show ?thesis using run assms(3)
    by (cases r) (simp_all add: copy_ssd_to_hbm_via_ddr_def need_hbm_def copies_def bytes_at_of)
qed

lemma copies_hbm_ssd:
  assumes "file_ok v (ro_object dst) w" and "unat dst_off + unat n \<le> unat (ob_actual_bytes (ro_object dst))"
    and "ro_hbm src = Some a" and "unat src_off + unat n \<le> length (hbm_of a w)" and "length (hbm_of a w) \<le> 2 ^ 64"
  shows "copies B (AtSsd (ob_ssd_path (ro_object dst))) (unat dst_off) (AtHbm (hbm_key a)) (unat src_off) (unat n) w
     (copy_hbm_to_ssd_via_ddr env v src dst src_off dst_off n w)"
proof -
  let ?relay = "hbm_ssd_relay env (vn_io v) (vn_dma v) (ro_object dst) (hbm_of a w) src_off dst_off n 0
      no_relay (replicate (unat (relay_capacity env n)) 0) (ssd_of (ro_object dst) w)"
  obtain r fl where run: "?relay = (r, fl)" by fastforce
  have "case ?relay of
      (Inr run', fl') \<Rightarrow> fl' = splice (ssd_of (ro_object dst) w) (unat dst_off) (window (hbm_of a w) (unat src_off) (unat n)) \<and>
        ss_bytes (rr_ssd run') = n
    | (Inl _, fl') \<Rightarrow> partial_copy (ssd_of (ro_object dst) w) (unat dst_off) (hbm_of a w) (unat src_off) (unat n) fl'"
    using assms by (intro hbm_ssd_relay_outcome) (simp_all add: file_ok_def copying_nothing no_relay_def ssd_io_default_def)
  then show ?thesis using run assms(3)
    by (cases r) (simp_all add: copy_hbm_to_ssd_via_ddr_def need_hbm_def copies_def bytes_at_of)
qed

text \<open>A direct copy that fails has changed nothing, so the relay can start over.\<close>

lemma set_same: "set_hbm a (hbm_of a w) w = w" "set_ssd ob (ssd_of ob w) w = w"
  by (simp_all add: set_hbm_def hbm_of_def set_ssd_def ssd_of_def)

lemma ssd_to_hbm_direct_cases:
  obtains (failed) e where "run_ssd_to_hbm_direct env v src a so dof n c w = Some (Inl e, w)"
    | (copied) st where "run_ssd_to_hbm_direct env v src a so dof n c w =
        Some (Inr st, set_hbm a (splice (hbm_of a w) (unat dof) (window (ssd_of (ro_object src) w) (unat so) (unat n))) w)"
proof -
  obtain r dev where run: "copy_ssd_to_hbm_direct env (vn_io v) (vn_dma v) (ro_object src) (ssd_of (ro_object src) w) so dof n c
      (hbm_of a w) = (r, dev)" by fastforce
  show thesis
    using run failed copied
    by (cases r) (auto simp: run_ssd_to_hbm_direct_def copy_ssd_to_hbm_direct_def set_same split: sum.splits)
qed

lemma hbm_to_ssd_direct_cases:
  obtains (failed) e where "run_hbm_to_ssd_direct env v a dst so dof n c w = Some (Inl e, w)"
    | (copied) st where "run_hbm_to_ssd_direct env v a dst so dof n c w =
        Some (Inr st, set_ssd (ro_object dst) (splice (ssd_of (ro_object dst) w) (unat dof) (window (hbm_of a w) (unat so) (unat n))) w)"
proof -
  obtain r fl where run: "copy_hbm_to_ssd_direct env (vn_io v) (vn_dma v) (hbm_of a w) (ro_object dst) so dof n c
      (ssd_of (ro_object dst) w) = (r, fl)" by fastforce
  show thesis
    using run failed copied
    by (cases r) (auto simp: run_hbm_to_ssd_direct_def copy_hbm_to_ssd_direct_def set_same split: sum.splits)
qed

section \<open>The whole work\<close>

text \<open>Where a plan's path takes its bytes from and puts them.\<close>

definition src_place :: "TransferWork \<Rightarrow> place option" where
  "src_place work =
     (let path = tp_path (tw_plan work); ob = ro_object (tw_src work) in
      if path \<in> {''hbm_to_ddr'', ''hbm_to_hbm'', ''hbm_to_ssd_via_ddr'', ''hbm_to_ssd_direct''}
      then map_option (\<lambda>a. AtHbm (hbm_key a)) (ro_hbm (tw_src work))
      else if path \<in> {''ddr_to_hbm'', ''ddr_to_ddr'', ''ddr_to_ssd''} then Some (AtDdr (ob_object_id ob))
      else if path \<in> {''ssd_to_ddr'', ''ssd_to_hbm_via_ddr'', ''ssd_to_hbm_direct''} then Some (AtSsd (ob_ssd_path ob))
      else None)"

definition dst_place :: "TransferWork \<Rightarrow> place option" where
  "dst_place work =
     (let path = tp_path (tw_plan work); ob = ro_object (tw_dst work) in
      if path \<in> {''ddr_to_hbm'', ''hbm_to_hbm'', ''ssd_to_hbm_via_ddr'', ''ssd_to_hbm_direct''}
      then map_option (\<lambda>a. AtHbm (hbm_key a)) (ro_hbm (tw_dst work))
      else if path \<in> {''hbm_to_ddr'', ''ddr_to_ddr'', ''ssd_to_ddr''} then Some (AtDdr (ob_object_id ob))
      else if path \<in> {''ddr_to_ssd'', ''hbm_to_ssd_via_ddr'', ''hbm_to_ssd_direct''} then Some (AtSsd (ob_ssd_path ob))
      else None)"

text \<open>The offsets of a plan count only on the paths that touch a file.\<close>

definition effective_offset :: "TransferWork \<Rightarrow> u64 \<Rightarrow> nat" where
  "effective_offset work off =
     (if tp_path (tw_plan work) \<in> {''hbm_to_ddr'', ''ddr_to_hbm'', ''hbm_to_hbm'', ''ddr_to_ddr''} then 0 else unat off)"

definition holds_object :: "vendor \<Rightarrow> RuntimeObject \<Rightarrow> place \<Rightarrow> world \<Rightarrow> bool" where
  "holds_object v ro l w \<longleftrightarrow>
     ob_requested_bytes (ro_object ro) \<noteq> u64_max \<and>
     unat (ob_requested_bytes (ro_object ro)) \<le> length (bytes_at l w) \<and> length (bytes_at l w) \<le> 2 ^ 64 \<and>
     (case l of AtSsd _ \<Rightarrow> file_ok v (ro_object ro) w \<and> ob_requested_bytes (ro_object ro) \<le> ob_actual_bytes (ro_object ro)
      | _ \<Rightarrow> True)"

definition work_ready :: "vendor \<Rightarrow> TransferWork \<Rightarrow> place \<Rightarrow> place \<Rightarrow> world \<Rightarrow> bool" where
  "work_ready v work s d w \<longleftrightarrow>
     pinned_ok v \<and> lanes_ok v (w_channel w) \<and> holds_object v (tw_src work) s w \<and> holds_object v (tw_dst work) d w"

text \<open>What a ready work within its objects gives the copies.\<close>

lemma work_fits:
  assumes "work_ready v work s d w"
    and "unat so + unat n \<le> unat (ob_requested_bytes (ro_object (tw_src work)))"
    and "unat dof + unat n \<le> unat (ob_requested_bytes (ro_object (tw_dst work)))"
  shows "unat so + unat n \<le> length (bytes_at s w)" "unat dof + unat n \<le> length (bytes_at d w)"
    "unat n \<le> length (bytes_at s w)" "unat n \<le> length (bytes_at d w)"
    "length (bytes_at s w) \<le> 2 ^ 64" "length (bytes_at d w) \<le> 2 ^ 64"
    "s = AtSsd f \<Longrightarrow> file_ok v (ro_object (tw_src work)) w \<and> unat so + unat n \<le> unat (ob_actual_bytes (ro_object (tw_src work)))"
    "d = AtSsd f \<Longrightarrow> file_ok v (ro_object (tw_dst work)) w \<and> unat dof + unat n \<le> unat (ob_actual_bytes (ro_object (tw_dst work)))"
  using assms by (auto simp: work_ready_def holds_object_def word_le_nat_alt)

lemmas work_path_simps = run_path_def Let_def effective_offset_def src_place_def dst_place_def

definition path_copies :: "environment \<Rightarrow> vendor \<Rightarrow> TransferWork \<Rightarrow> place \<Rightarrow> place \<Rightarrow> world \<Rightarrow> 'a run \<Rightarrow> bool" where
  "path_copies env v work s d w m \<longleftrightarrow>
     copies (waits_for_lane env v w) d (effective_offset work (tp_dst_offset_bytes (tw_plan work))) s
       (effective_offset work (tp_src_offset_bytes (tw_plan work))) (unat (tp_nbytes (tw_plan work))) w m"

lemma run_path_memory:
  assumes ready: "work_ready v work s d w" and p: "p = tw_plan work"
    and so: "unat (tp_src_offset_bytes p) + unat (tp_nbytes p) \<le> unat (ob_requested_bytes (ro_object (tw_src work)))"
    and dof: "unat (tp_dst_offset_bytes p) + unat (tp_nbytes p) \<le> unat (ob_requested_bytes (ro_object (tw_dst work)))"
    and places: "src_place work = Some s" "dst_place work = Some d"
    and path: "tp_path p \<in> {''hbm_to_ddr'', ''ddr_to_hbm'', ''hbm_to_hbm'', ''ddr_to_ddr''}"
  shows "path_copies env v work s d w (run_path env v work w)"
proof -
  note fit = work_fits [OF ready so dof]
  have ok: "pinned_ok v" "lanes_ok v (w_channel w)" using ready by (simp_all add: work_ready_def)
  let ?src = "tw_src work" and ?dst = "tw_dst work" and ?n = "tp_nbytes p"
  let ?async = "str_contains ''async'' (tp_engine p)"
  consider a where "tp_path p = ''hbm_to_ddr''" "ro_hbm ?src = Some a" "s = AtHbm (hbm_key a)" "d = AtDdr (ob_object_id (ro_object ?dst))"
    | a where "tp_path p = ''ddr_to_hbm''" "ro_hbm ?dst = Some a" "d = AtHbm (hbm_key a)" "s = AtDdr (ob_object_id (ro_object ?src))"
    | a b where "tp_path p = ''hbm_to_hbm''" "ro_hbm ?src = Some a" "s = AtHbm (hbm_key a)" "ro_hbm ?dst = Some b" "d = AtHbm (hbm_key b)"
    | "tp_path p = ''ddr_to_ddr''" "s = AtDdr (ob_object_id (ro_object ?src))" "d = AtDdr (ob_object_id (ro_object ?dst))"
    using path places by (auto simp: work_path_simps p)
  then show ?thesis
  proof cases
    case (1 a)
    have "copies (waits_for_lane env v w) d 0 s 0 (unat ?n) w (copy_hbm_to_ddr env v ?src ?dst ?n ?async (tp_engine p) w)"
      unfolding 1(3,4) using ok fit(3,4) 1 by (intro copies_hbm_ddr) (simp_all add: bytes_at_of)
    then show ?thesis using 1(1) by (auto simp: path_copies_def work_path_simps p intro: copies_and_then)
  next
    case (2 a)
    have "copies (waits_for_lane env v w) d 0 s 0 (unat ?n) w (copy_ddr_to_hbm env v ?src ?dst ?n ?async (tp_engine p) w)"
      unfolding 2(3,4) using ok fit(3,4) 2 by (intro copies_ddr_hbm) (simp_all add: bytes_at_of)
    then show ?thesis using 2(1) by (auto simp: path_copies_def work_path_simps p intro: copies_and_then)
  next
    case (3 a b)
    then show ?thesis using copies_hbm_hbm [OF 3(2,4)]
      by (auto simp: path_copies_def work_path_simps p intro: copies_and_then)
  next
    case 4
    then show ?thesis using copies_ddr_ddr by (auto simp: path_copies_def work_path_simps p intro: copies_and_then)
  qed
qed

lemma run_path_files:
  assumes ready: "work_ready v work s d w" and p: "p = tw_plan work"
    and so: "unat (tp_src_offset_bytes p) + unat (tp_nbytes p) \<le> unat (ob_requested_bytes (ro_object (tw_src work)))"
    and dof: "unat (tp_dst_offset_bytes p) + unat (tp_nbytes p) \<le> unat (ob_requested_bytes (ro_object (tw_dst work)))"
    and places: "src_place work = Some s" "dst_place work = Some d"
    and path: "tp_path p \<in> {''ssd_to_ddr'', ''ddr_to_ssd'', ''ssd_to_hbm_via_ddr'', ''hbm_to_ssd_via_ddr''}"
  shows "path_copies env v work s d w (run_path env v work w)"
proof -
  note fit = work_fits [OF ready so dof]
  have ok: "pinned_ok v" "lanes_ok v (w_channel w)" using ready by (simp_all add: work_ready_def)
  let ?src = "tw_src work" and ?dst = "tw_dst work" and ?n = "tp_nbytes p"
  let ?so = "tp_src_offset_bytes p" and ?do = "tp_dst_offset_bytes p"
  let ?ok = "\<lambda>m. copies (waits_for_lane env v w) d (unat ?do) s (unat ?so) (unat ?n) w m"
  consider "tp_path p = ''ssd_to_ddr''" "s = AtSsd (ob_ssd_path (ro_object ?src))" "d = AtDdr (ob_object_id (ro_object ?dst))"
    | "tp_path p = ''ddr_to_ssd''" "s = AtDdr (ob_object_id (ro_object ?src))" "d = AtSsd (ob_ssd_path (ro_object ?dst))"
    | a where "tp_path p = ''ssd_to_hbm_via_ddr''" "ro_hbm ?dst = Some a" "s = AtSsd (ob_ssd_path (ro_object ?src))" "d = AtHbm (hbm_key a)"
    | a where "tp_path p = ''hbm_to_ssd_via_ddr''" "ro_hbm ?src = Some a" "s = AtHbm (hbm_key a)" "d = AtSsd (ob_ssd_path (ro_object ?dst))"
    using path places by (auto simp: work_path_simps p)
  then show ?thesis
  proof cases
    case 1
    have "?ok (copy_ssd_to_ddr env v ?src ?dst ?so ?do ?n w)"
      unfolding 1(2,3) using fit(2,7) 1 by (intro copies_ssd_ddr) (simp_all add: bytes_at_of)
    then show ?thesis using 1(1) by (auto simp: path_copies_def work_path_simps p intro: copies_and_then)
  next
    case 2
    have "?ok (copy_ddr_to_ssd env v ?src ?dst ?so ?do ?n w)"
      unfolding 2(2,3) using fit(1,8) 2 by (intro copies_ddr_ssd) (simp_all add: bytes_at_of)
    then show ?thesis using 2(1) by (auto simp: path_copies_def work_path_simps p intro: copies_and_then)
  next
    case (3 a)
    have "?ok (copy_ssd_to_hbm_via_ddr env v ?src ?dst ?so ?do ?n w)"
      unfolding 3(3,4) using fit(2,6,7) 3 by (intro copies_ssd_hbm) (simp_all add: bytes_at_of)
    then show ?thesis using 3(1) by (auto simp: path_copies_def work_path_simps p intro: copies_and_then)
  next
    case (4 a)
    have "?ok (copy_hbm_to_ssd_via_ddr env v ?src ?dst ?so ?do ?n w)"
      unfolding 4(3,4) using fit(1,5,8) 4 by (intro copies_hbm_ssd) (simp_all add: bytes_at_of)
    then show ?thesis using 4(1) by (auto simp: path_copies_def work_path_simps p intro: copies_and_then)
  qed
qed

lemma run_path_direct:
  assumes ready: "work_ready v work s d w" and p: "p = tw_plan work"
    and so: "unat (tp_src_offset_bytes p) + unat (tp_nbytes p) \<le> unat (ob_requested_bytes (ro_object (tw_src work)))"
    and dof: "unat (tp_dst_offset_bytes p) + unat (tp_nbytes p) \<le> unat (ob_requested_bytes (ro_object (tw_dst work)))"
    and places: "src_place work = Some s" "dst_place work = Some d"
    and path: "tp_path p \<in> {''ssd_to_hbm_direct'', ''hbm_to_ssd_direct''}"
  shows "path_copies env v work s d w (run_path env v work w)"
proof -
  note fit = work_fits [OF ready so dof]
  have ok: "pinned_ok v" "lanes_ok v (w_channel w)" using ready by (simp_all add: work_ready_def)
  let ?src = "tw_src work" and ?dst = "tw_dst work" and ?n = "tp_nbytes p"
  let ?so = "tp_src_offset_bytes p" and ?do = "tp_dst_offset_bytes p"
  let ?c = "direct_candidate_from_engine (tp_engine p)"
  let ?ok = "\<lambda>m. copies (waits_for_lane env v w) d (unat ?do) s (unat ?so) (unat ?n) w m"
  consider a where "tp_path p = ''ssd_to_hbm_direct''" "ro_hbm ?dst = Some a" "s = AtSsd (ob_ssd_path (ro_object ?src))" "d = AtHbm (hbm_key a)"
    | a where "tp_path p = ''hbm_to_ssd_direct''" "ro_hbm ?src = Some a" "s = AtHbm (hbm_key a)" "d = AtSsd (ob_ssd_path (ro_object ?dst))"
    using path places by (auto simp: work_path_simps p)
  then show ?thesis
  proof cases
    case (1 a)
    have relay: "?ok (copy_ssd_to_hbm_via_ddr env v ?src ?dst ?so ?do ?n w)"
      unfolding 1(3,4) using fit(2,6,7) 1 by (intro copies_ssd_hbm) (simp_all add: bytes_at_of)
    show ?thesis
    proof (cases rule: ssd_to_hbm_direct_cases [of env v ?src a ?so ?do ?n ?c w])
      case (failed e)
      then show ?thesis using 1(1,2) relay
        by (auto simp: path_copies_def work_path_simps p need_hbm_def intro: copies_and_then)
    next
      case (copied st)
      then show ?thesis using 1
        by (auto simp: path_copies_def work_path_simps p need_hbm_def bytes_at_of intro: copies_at_once)
    qed
  next
    case (2 a)
    have relay: "?ok (copy_hbm_to_ssd_via_ddr env v ?src ?dst ?so ?do ?n w)"
      unfolding 2(3,4) using fit(1,5,8) 2 by (intro copies_hbm_ssd) (simp_all add: bytes_at_of)
    show ?thesis
    proof (cases rule: hbm_to_ssd_direct_cases [of env v a ?dst ?so ?do ?n ?c w])
      case (failed e)
      then show ?thesis using 2(1,2) relay
        by (auto simp: path_copies_def work_path_simps p need_hbm_def intro: copies_and_then)
    next
      case (copied st)
      then show ?thesis using 2
        by (auto simp: path_copies_def work_path_simps p need_hbm_def bytes_at_of intro: copies_at_once)
    qed
  qed
qed

lemma run_path_copies:
  assumes "work_ready v work s d w" and "p = tw_plan work"
    and "unat (tp_src_offset_bytes p) + unat (tp_nbytes p) \<le> unat (ob_requested_bytes (ro_object (tw_src work)))"
    and "unat (tp_dst_offset_bytes p) + unat (tp_nbytes p) \<le> unat (ob_requested_bytes (ro_object (tw_dst work)))"
    and "src_place work = Some s" "dst_place work = Some d"
  shows "path_copies env v work s d w (run_path env v work w)"
proof -
  have "tp_path p \<in> {''hbm_to_ddr'', ''ddr_to_hbm'', ''hbm_to_hbm'', ''ddr_to_ddr''} \<or>
      tp_path p \<in> {''ssd_to_ddr'', ''ddr_to_ssd'', ''ssd_to_hbm_via_ddr'', ''hbm_to_ssd_via_ddr''} \<or>
      tp_path p \<in> {''ssd_to_hbm_direct'', ''hbm_to_ssd_direct''}"
    using assms(2,5) by (auto simp: src_place_def Let_def split: if_splits)
  then show ?thesis
    using run_path_memory [OF assms] run_path_files [OF assms] run_path_direct [OF assms] by blast
qed

section \<open>Property\<close>

lemma transfer_bounds:
  assumes "ensure_transfer_bounds src dst so dof n = Inr u"
    and "ob_requested_bytes (ro_object src) \<noteq> u64_max" and "ob_requested_bytes (ro_object dst) \<noteq> u64_max"
  shows "unat so + unat n \<le> unat (ob_requested_bytes (ro_object src))"
    and "unat dof + unat n \<le> unat (ob_requested_bytes (ro_object dst))"
  using assms by (auto simp: ensure_transfer_bounds_def intro!: range_in_u64 split: if_splits)


definition demo_vendor :: vendor where
  "demo_vendor = \<lparr> vn_dma = demo_dma, vn_io = demo_io,
     vn_lane = \<lparr> la_create_stream = (\<lambda>_. Inr 1), la_malloc_pinned_host = (\<lambda>_ _ _. Inl ''no memory''),
       la_create_event = (\<lambda>_ _. Inr 1) \<rparr>,
     vn_clk = (\<lambda>k. k), vn_start = 0, vn_now = 0, vn_pinned = (\<lambda>_. []), vn_ddr_open = (\<lambda>_. Inr ()),
     vn_ddr_mmap = (\<lambda>_. True), vn_us = (\<lambda>_. 1) \<rparr>"

definition demo_world :: world where
  "demo_world = \<lparr> w_hbm = (\<lambda>_. []), w_ddr = (\<lambda>i. if i = 9 then [1, 2, 3, 4, 5, 6] else []),
     w_ssd = (\<lambda>f. if f = ''/ssd/7'' then demo_file else []), w_channel = manager_new, w_direct = direct_manager_new \<rparr>"

definition demo_copy_plan :: TransferPlanRecord where
  "demo_copy_plan = \<lparr> tp_external = False, tp_plan_id = 1, tp_request_id = 1, tp_client_id = 1, tp_src_object_id = 7,
     tp_src_placement_id = 70, tp_src_medium = ''ssd'', tp_dst_object_id = 9, tp_dst_placement_id = 90,
     tp_dst_medium = ''ddr'', tp_operation = ''copy'', tp_requested_mode = ''auto'', tp_path = ''ssd_to_ddr'',
     tp_engine = ''ssd_buffered_pread'', tp_completion_kind = ''thread_event'', tp_wait_policy = [],
     tp_src_offset_bytes = 3, tp_dst_offset_bytes = 1, tp_nbytes = 4, tp_effort = f0,
     tp_estimated_latency_us = f0, tp_estimated_bandwidth_gib_s = f0, tp_setup_cost_us = f0, tp_hop_count = 1,
     tp_fallback_used = False, tp_fallback_reason = [], tp_explanation = [] \<rparr>"

definition demo_work :: TransferWork where
  "demo_work = \<lparr> tw_event_id = 1, tw_plan = demo_copy_plan,
     tw_src = \<lparr> ro_object = demo_ssd\<lparr> ob_requested_bytes := 8, ob_state := ''Ready'' \<rparr>, ro_hbm = None \<rparr>,
     tw_dst = \<lparr> ro_object = (blank_object [] 9 90 1)\<lparr> ob_ddr_service_ptr := 0x1000, ob_ddr_service_len := 6,
       ob_requested_bytes := 6, ob_actual_bytes := 6 \<rparr>, ro_hbm = None \<rparr> \<rparr>"

lemma demo_execution:
  "map_option (\<lambda>(r, w). (isl r, w_ddr w 9)) (execute_transfer_work (\<lambda>_. None) demo_vendor demo_work demo_world) =
     Some (False, [1, 13, 14, 15, 16, 6])"
  by code_simp

lemma demo_work_ready:
  "work_ready demo_vendor demo_work (AtSsd ''/ssd/7'') (AtDdr 9) demo_world"
  by (auto simp: work_ready_def pinned_ok_def lanes_ok_def manager_new_def holds_object_def file_ok_def reads_ok_def
      writes_ok_def demo_vendor_def demo_work_def demo_world_def demo_ssd_def demo_io_def demo_file_def ssd_of_def
      blank_object_def u64_max_def bytes_at.simps)


end
