(* ===== verification/Events.thy ===== *)
theory Events
  imports Executor
begin

text \<open>
  Transfer events (\<^verbatim>\<open>transfer_executor.rs\<close>, \<^verbatim>\<open>common.rs\<close>): submitting a plan, finishing, cancelling,
  polling, waiting for and listing events. A request handler reads the clock once, as \<open>now\<close>. The
  worker pool is the argument \<open>queued\<close> of a submission: whether it accepted the job. The trace
  records and the log lines are not modelled. Where a payload has an external part
  (\<^verbatim>\<open>external.payload()\<close>), it is the argument \<open>external\<close>.
\<close>

section \<open>Payloads\<close>

definition channel_payload :: "ChannelMetrics \<Rightarrow> (string \<times> string) list" where
  "channel_payload c =
     [(''channel_direction'', ch_direction c), (''channel_lane_id'', show_u64 (ch_lane_id c)),
      (''channel_device_id'', show_int (ch_device_id c)),
      (''channel_chunk_bytes'', show_u64 (ch_chunk_bytes c)),
      (''channel_chunk_count'', show_u64 (ch_chunk_count c)),
      (''channel_pinned_footprint_bytes'', show_u64 (ch_pinned_footprint_bytes c)),
      (''channel_lane_wait_us'', fmt3 (ch_lane_wait_us c)),
      (''channel_chunks_transferred'', show_u64 (ch_chunks_transferred c)),
      (''channel_cpu_copy_us'', fmt3 (ch_cpu_copy_us c)),
      (''channel_acl_copy_us'', fmt3 (ch_acl_copy_us c)),
      (''channel_acl_submit_us'', fmt3 (ch_acl_submit_us c)),
      (''channel_acl_wait_us'', fmt3 (ch_acl_wait_us c)), (''channel_wall_us'', fmt3 (ch_wall_us c)),
      (''channel_queue_wait_us'', fmt3 (ch_queue_wait_us c)),
      (''channel_worker_execute_us'', fmt3 (ch_worker_execute_us c)),
      (''channel_overlap_ratio'', fmt6 (ch_overlap_ratio c)),
      (''channel_stream_create_count'', show_u64 (ch_stream_create_count c)),
      (''channel_event_reuse_count'', show_u64 (ch_event_reuse_count c)),
      (''channel_event_record_count'', show_u64 (ch_event_record_count c)),
      (''channel_event_wait_count'', show_u64 (ch_event_wait_count c)),
      (''channel_pipeline_overlap'', show_bool (ch_pipeline_overlap c))]"

definition direct_payload :: "DirectMetrics \<Rightarrow> (string \<times> string) list" where
  "direct_payload d =
     [(''direct_candidate'', dm_candidate d), (''direct_kind'', dm_kind d),
      (''direct_setup_us'', fmt3 (dm_setup_us d)), (''direct_register_us'', fmt3 (dm_register_us d)),
      (''direct_fadvise_us'', fmt3 (dm_fadvise_us d)), (''direct_readahead_us'', fmt3 (dm_readahead_us d)),
      (''direct_madvise_hugepage_us'', fmt3 (dm_madvise_hugepage_us d)),
      (''direct_madvise_willneed_us'', fmt3 (dm_madvise_willneed_us d)),
      (''direct_madvise_populate_us'', fmt3 (dm_madvise_populate_us d)),
      (''direct_pretouch_us'', fmt3 (dm_pretouch_us d)), (''direct_mlock_us'', fmt3 (dm_mlock_us d)),
      (''direct_acl_us'', fmt3 (dm_acl_us d)), (''direct_total_us'', fmt3 (dm_total_us d))]"

definition event_payload :: "(string \<times> string) list \<Rightarrow> TransferEventRecord \<Rightarrow> (string \<times> string) list" where
  "event_payload external e =
     [(''event_id'', show_u64 (ev_event_id e)), (''plan_id'', show_u64 (ev_plan_id e)),
      (''client_id'', show_u64 (ev_client_id e)), (''event_status'', ev_status e),
      (''completion_kind'', ev_completion_kind e), (''submitted_at_ns'', show_nat (ev_submitted_at_ns e)),
      (''started_at_ns'', show_nat (ev_started_at_ns e)),
      (''completed_at_ns'', show_nat (ev_completed_at_ns e)), (''bytes_done'', show_u64 (ev_bytes_done e)),
      (''actual_latency_us'', fmt3 (ev_actual_latency_us e)),
      (''actual_bandwidth_gib_s'', fmt3 (ev_actual_bandwidth_gib_s e)),
      (''actual_engine'', ev_actual_engine e), (''actual_path'', ev_actual_path e)] @
     channel_payload (ev_channel e) @
     [(''ssd_io_submit_us'', fmt3 (sm_io_submit_us (ev_ssd e))),
      (''ssd_io_wait_us'', fmt3 (sm_io_wait_us (ev_ssd e))),
      (''ssd_io_bytes'', show_u64 (sm_io_bytes (ev_ssd e))),
      (''ssd_io_bandwidth_gib_s'', fmt3 (sm_io_bandwidth_gib_s (ev_ssd e))),
      (''ssd_read_bytes'', show_u64 (sm_read_bytes (ev_ssd e))),
      (''ssd_write_bytes'', show_u64 (sm_write_bytes (ev_ssd e))),
      (''relay_stage_count'', show_u64 (rm_stage_count (ev_relay e))),
      (''relay_ddr_hbm_us'', fmt3 (rm_ddr_hbm_us (ev_relay e))),
      (''relay_total_us'', fmt3 (rm_total_us (ev_relay e)))] @
     direct_payload (ev_direct e) @
     [(''fallback_used'', show_bool (ev_fallback_used e)), (''fallback_reason'', ev_fallback_reason e),
      (''error_code'', ev_error_code e), (''error_message'', ev_error_message e)] @
     (if ev_external e then external else [])"

definition transfer_direction :: "string \<Rightarrow> string \<Rightarrow> string" where
  "transfer_direction src dst =
     (if (src = ''ddr'' \<or> src = ''ssd'') \<and> dst = ''hbm'' then ''h2d''
      else if src = ''hbm'' \<and> (dst = ''ddr'' \<or> dst = ''ssd'') then ''d2h''
      else src @ ''_to_'' @ dst)"

definition monitor_event_payload ::
  "(string \<times> string) list \<Rightarrow> 'p Catalog \<Rightarrow> TransferEventRecord \<Rightarrow> (string \<times> string) list" where
  "monitor_event_payload external st e =
     event_payload external e @
     (case hm_get (c_transfer_plans st) (ev_plan_id e) of
        None \<Rightarrow> []
      | Some p \<Rightarrow>
          [(''src_object_id'', show_u64 (tp_src_object_id p)), (''dst_object_id'', show_u64 (tp_dst_object_id p)),
           (''src_medium'', tp_src_medium p), (''dst_medium'', tp_dst_medium p),
           (''direction'', transfer_direction (tp_src_medium p) (tp_dst_medium p)),
           (''operation'', tp_operation p), (''requested_mode'', tp_requested_mode p),
           (''nbytes'', show_u64 (tp_nbytes p)), (''planned_path'', tp_path p),
           (''planned_engine'', tp_engine p)])"

section \<open>Listing events\<close>

definition DEFAULT_TRANSFER_EVENT_LIMIT :: nat where "DEFAULT_TRANSFER_EVENT_LIMIT = 50"

definition MAX_TRANSFER_EVENT_LIMIT :: nat where "MAX_TRANSFER_EVENT_LIMIT = 200"

record TransferEventListQuery =
  lq_limit :: nat
  lq_before_event_id :: "u64 option"
  lq_status :: string
  lq_client_id :: "u64 option"
  lq_actual_path :: string
  lq_actual_engine :: string

definition parse_optional_positive_u64 :: "kv \<Rightarrow> string \<Rightarrow> u64 option result" where
  "parse_optional_positive_u64 req key =
     (let raw = get req key in
      if raw = [] then Inr None
      else case parse_u64 raw of
        None \<Rightarrow> Inl (key @ '' must be a positive integer'')
      | Some n \<Rightarrow> if n = 0 then Inl (key @ '' must be a positive integer'') else Inr (Some n))"

definition parse_transfer_event_list_query :: "kv \<Rightarrow> TransferEventListQuery result" where
  "parse_transfer_event_list_query req =
     rbind (if get req ''limit'' = [] then Inr DEFAULT_TRANSFER_EVENT_LIMIT
            else case parse_unsigned 64 (get req ''limit'') of
              None \<Rightarrow> Inl ''limit must be a positive integer''
            | Some n \<Rightarrow> Inr n) (\<lambda>limit.
     if \<not> (1 \<le> limit \<and> limit \<le> MAX_TRANSFER_EVENT_LIMIT)
     then Inl (''limit must be between 1 and '' @ show_nat MAX_TRANSFER_EVENT_LIMIT)
     else
       let status = get req ''status'' in
       if status \<noteq> [] \<and> status \<notin> set [''pending'', ''running'', ''complete'', ''failed'', ''cancelled'']
       then Inl (''unsupported transfer status '' @ status)
       else
         rbind (parse_optional_positive_u64 req ''before_event_id'') (\<lambda>before.
         rbind (parse_optional_positive_u64 req ''client_id'') (\<lambda>client.
         Inr \<lparr> lq_limit = limit, lq_before_event_id = before, lq_status = status, lq_client_id = client,
               lq_actual_path = (if get req ''actual_path'' = [] then get req ''path'' else get req ''actual_path''),
               lq_actual_engine = (if get req ''actual_engine'' = [] then get req ''engine'' else get req ''actual_engine'') \<rparr>)))"

definition event_matches :: "TransferEventListQuery \<Rightarrow> TransferEventRecord \<Rightarrow> bool" where
  "event_matches q e \<longleftrightarrow>
     (case lq_before_event_id q of Some b \<Rightarrow> ev_event_id e < b | None \<Rightarrow> True) \<and>
     (lq_status q = [] \<or> ev_status e = lq_status q) \<and>
     (case lq_client_id q of Some c \<Rightarrow> ev_client_id e = c | None \<Rightarrow> True) \<and>
     (lq_actual_path q = [] \<or> ev_actual_path e = lq_actual_path q) \<and>
     (lq_actual_engine q = [] \<or> ev_actual_engine e = lq_actual_engine q)"

text \<open>Event identifiers, largest first, cut at the limit; the flag says whether some were cut.\<close>

definition selected_transfer_event_ids ::
  "(u64, TransferEventRecord) hashmap \<Rightarrow> TransferEventListQuery \<Rightarrow> u64 list \<times> bool" where
  "selected_transfer_event_ids events q =
     (let ids = rev (sort (map ev_event_id (filter (event_matches q) (hm_values events)))) in
      (take (lq_limit q) ids, lq_limit q < length ids))"

definition list_transfer_events :: "kv \<Rightarrow> 'p Catalog \<Rightarrow> kv" where
  "list_transfer_events req st =
     (case parse_transfer_event_list_query req of
        Inl e \<Rightarrow> err e
      | Inr q \<Rightarrow>
          let (ids, more_left) = selected_transfer_event_ids (c_transfer_events st) q in
          ok [(''event_ids'', join '','' (map show_u64 ids)), (''returned'', show_nat (length ids)),
              (''has_more'', show_bool more_left),
              (''next_before_event_id'', if more_left \<and> ids \<noteq> [] then show_u64 (last ids) else []),
              (''limit'', show_nat (lq_limit q))])"

section \<open>Submitting a plan\<close>

definition no_direct_metrics :: DirectMetrics where
  "no_direct_metrics = \<lparr> dm_candidate = [], dm_kind = [], dm_setup_us = f0, dm_register_us = f0,
     dm_fadvise_us = f0, dm_readahead_us = f0, dm_madvise_hugepage_us = f0, dm_madvise_willneed_us = f0,
     dm_madvise_populate_us = f0, dm_pretouch_us = f0, dm_mlock_us = f0, dm_acl_us = f0, dm_total_us = f0 \<rparr>"

definition new_event :: "nat \<Rightarrow> u64 \<Rightarrow> TransferPlanRecord \<Rightarrow> u64 \<Rightarrow> TransferEventRecord" where
  "new_event now eid p plan_id =
     (let immediate = tp_completion_kind p = ''immediate'' in
      \<lparr> ev_external = False, ev_event_id = eid, ev_plan_id = plan_id, ev_client_id = tp_client_id p,
        ev_status = (if immediate then ''complete'' else ''running''),
        ev_completion_kind = tp_completion_kind p, ev_submitted_at_ns = now, ev_started_at_ns = now,
        ev_completed_at_ns = (if immediate then now else 0),
        ev_bytes_done = (if immediate then tp_nbytes p else 0), ev_actual_latency_us = f0,
        ev_actual_bandwidth_gib_s = f0, ev_actual_engine = tp_engine p, ev_actual_path = tp_path p,
        ev_fallback_used = tp_fallback_used p, ev_fallback_reason = tp_fallback_reason p,
        ev_error_code = [], ev_error_message = [], ev_channel = channel_default,
        ev_ssd = \<lparr> sm_io_submit_us = f0, sm_io_wait_us = f0, sm_io_bytes = 0, sm_io_bandwidth_gib_s = f0,
          sm_read_bytes = 0, sm_write_bytes = 0 \<rparr>,
        ev_relay = \<lparr> rm_stage_count = 0, rm_ddr_hbm_us = f0, rm_total_us = f0 \<rparr>,
        ev_direct = no_direct_metrics \<rparr>)"

definition event_is_terminal :: "TransferEventRecord \<Rightarrow> bool" where
  "event_is_terminal e \<longleftrightarrow> ev_status e \<in> set [''complete'', ''failed'', ''cancelled'']"

text \<open>Finishing: what a successful and a failed execution write into the event.\<close>

definition completed_event :: "ActualTransfer \<Rightarrow> TransferEventRecord \<Rightarrow> TransferEventRecord" where
  "completed_event a e =
     (let s = at_ssd a; d = at_direct a in
      e\<lparr> ev_status := ''complete'', ev_bytes_done := at_bytes_done a,
         ev_actual_engine := at_actual_engine a, ev_actual_path := at_actual_path a,
         ev_fallback_used := at_fallback_used a, ev_fallback_reason := at_fallback_reason a,
         ev_ssd := \<lparr> sm_io_submit_us = F64 (ss_submit_us s), sm_io_wait_us = F64 (ss_wait_us s),
           sm_io_bytes = ss_bytes s, sm_io_bandwidth_gib_s = F64 (ssd_bandwidth s),
           sm_read_bytes = ss_read_bytes s, sm_write_bytes = ss_write_bytes s \<rparr>,
         ev_relay := \<lparr> rm_stage_count = at_relay_stage_count a, rm_ddr_hbm_us = F64 (at_relay_ddr_hbm_us a),
           rm_total_us = F64 (at_relay_total_us a) \<rparr>,
         ev_direct := \<lparr> dm_candidate = hd_candidate_name d, dm_kind = hd_direct_kind d,
           dm_setup_us = F64 (hd_setup_us d), dm_register_us = F64 (hd_register_us d),
           dm_fadvise_us = F64 (hd_fadvise_us d), dm_readahead_us = F64 (hd_readahead_us d),
           dm_madvise_hugepage_us = F64 (hd_madvise_hugepage_us d),
           dm_madvise_willneed_us = F64 (hd_madvise_willneed_us d),
           dm_madvise_populate_us = F64 (hd_madvise_populate_us d), dm_pretouch_us = F64 (hd_pretouch_us d),
           dm_mlock_us = F64 (hd_mlock_us d), dm_acl_us = F64 (hd_acl_us d), dm_total_us = F64 (hd_total_us d) \<rparr>,
         ev_channel := (case at_channel a of Some c \<Rightarrow> c | None \<Rightarrow> ev_channel e),
         ev_error_code := [], ev_error_message := [] \<rparr>)"

definition failed_event :: "TransferPlanRecord \<Rightarrow> string \<Rightarrow> TransferEventRecord \<Rightarrow> TransferEventRecord" where
  "failed_event p message e =
     (let e = e\<lparr> ev_status := ''failed'', ev_bytes_done := 0, ev_actual_engine := tp_engine p,
                 ev_actual_path := tp_path p, ev_fallback_used := tp_fallback_used p,
                 ev_fallback_reason := tp_fallback_reason p \<rparr>;
          e = (if tp_path p \<in> set [''ssd_to_hbm_direct'', ''hbm_to_ssd_direct'']
               then e\<lparr> ev_direct := (ev_direct e)\<lparr> dm_candidate := direct_candidate_from_engine (tp_engine p),
                      dm_kind := ''logical'' \<rparr> \<rparr>
               else e) in
      e\<lparr> ev_error_code := ''TransferExecutorError'',
         ev_error_message := replace_char (CHR ''='') (CHR '':'') (replace_char (CHR '';'') (CHR '','') message) \<rparr>)"

definition elapsed_us :: "TransferEventRecord \<Rightarrow> rat" where
  "elapsed_us e =
     (if ev_started_at_ns e < ev_completed_at_ns e
      then of_nat (ev_completed_at_ns e - ev_started_at_ns e) / 1000 else 0)"

definition timed_event :: "TransferEventRecord \<Rightarrow> TransferEventRecord" where
  "timed_event e =
     e\<lparr> ev_actual_latency_us := F64 (elapsed_us e),
        ev_actual_bandwidth_gib_s :=
          (if 0 < elapsed_us e \<and> 0 < ev_bytes_done e then F64 (gib_per_s (ev_bytes_done e) (elapsed_us e)) else f0) \<rparr>"

definition finished_event ::
  "nat \<Rightarrow> TransferPlanRecord \<Rightarrow> ActualTransfer result \<Rightarrow> TransferEventRecord \<Rightarrow> TransferEventRecord" where
  "finished_event now p result e =
     timed_event (case result of
        Inr a \<Rightarrow> completed_event a (e\<lparr> ev_completed_at_ns := now \<rparr>)
      | Inl m \<Rightarrow> failed_event p m (e\<lparr> ev_completed_at_ns := now \<rparr>))"

definition count_ssd :: "ActualTransfer result \<Rightarrow> SsdCounters \<Rightarrow> SsdCounters" where
  "count_ssd result c =
     (case result of
        Inl _ \<Rightarrow> c
      | Inr a \<Rightarrow>
          let rd = ss_read_bytes (at_ssd a); wr = ss_write_bytes (at_ssd a);
              c = (if 0 < rd then c\<lparr> sc_read_bytes := sc_read_bytes c + rd, sc_read_ops := sc_read_ops c + 1 \<rparr> else c) in
          (if 0 < wr then c\<lparr> sc_write_bytes := sc_write_bytes c + wr, sc_write_ops := sc_write_ops c + 1 \<rparr> else c))"

definition finish_transfer_event ::
  "(string \<times> string) list \<Rightarrow> nat \<Rightarrow> u64 \<Rightarrow> ActualTransfer result \<Rightarrow> 'p Catalog \<Rightarrow> kv \<times> 'p Catalog" where
  "finish_transfer_event external now eid result st =
     (case hm_get (c_transfer_events st) eid of
        None \<Rightarrow> (err ''transfer event not found'', st)
      | Some e \<Rightarrow>
          if event_is_terminal e then (ok (event_payload external e), st)
          else case hm_get (c_transfer_plans st) (ev_plan_id e) of
            None \<Rightarrow> (err ''transfer plan not found'', st)
          | Some p \<Rightarrow>
              let e' = finished_event now p result e;
                  st = st\<lparr> c_transfer_events := hm_modify eid (\<lambda>_. e') (c_transfer_events st),
                           c_ssd := count_ssd result (c_ssd st) \<rparr>;
                  st = (case result of
                          Inr _ \<Rightarrow> st\<lparr> c_objects := hm_modify (tp_dst_object_id p) (\<lambda>ob. ob\<lparr> ob_state := ''Ready'' \<rparr>)
                                              (c_objects st) \<rparr>
                        | Inl _ \<Rightarrow> st) in
              (ok (event_payload external e'), st))"

text \<open>The job a submission hands to the worker pool, if any.\<close>

definition plan_work :: "'p Catalog \<Rightarrow> TransferPlanRecord \<Rightarrow> Object \<Rightarrow> Object \<Rightarrow> (RuntimeObject \<times> RuntimeObject) option result" where
  "plan_work st p src dst =
     (if tp_completion_kind p = ''immediate'' then Inr None
      else rbind (runtime_object st src) (\<lambda>s. rbind (runtime_object st dst) (\<lambda>d. Inr (Some (s, d)))))"

definition submit_transfer ::
  "(string \<times> string) list \<Rightarrow> nat \<Rightarrow> unit result \<Rightarrow> kv \<Rightarrow> 'p Catalog \<Rightarrow> kv \<times> TransferWork option \<times> 'p Catalog" where
  "submit_transfer external now queued req st =
     (let plan_id = get_u64 req ''plan_id'' in
      case hm_get (c_transfer_plans st) plan_id of
        None \<Rightarrow> (err ''transfer plan not found'', None, st)
      | Some p \<Rightarrow>
          if tp_external p then (err ''external transfer requires authenticated external DDR endpoint'', None, st)
          else case hm_get (c_objects st) (tp_src_object_id p) of
            None \<Rightarrow> (err ''source object not found'', None, st)
          | Some src \<Rightarrow>
              (case hm_get (c_objects st) (tp_dst_object_id p) of
                 None \<Rightarrow> (err ''destination object not found'', None, st)
               | Some dst \<Rightarrow>
                   (case plan_work st p src dst of
                      Inl e \<Rightarrow> (err e, None, st)
                    | Inr objects \<Rightarrow>
                        let (eid, st) = take_next_transfer_event_id st;
                            e = new_event now eid p plan_id;
                            st = st\<lparr> c_transfer_events := hm_insert eid e (c_transfer_events st) \<rparr>;
                            response = ok (event_payload external e) in
                        case objects of
                          None \<Rightarrow> (response, None, st)
                        | Some (s, d) \<Rightarrow>
                            (case queued of
                               Inr _ \<Rightarrow> (response, Some \<lparr> tw_event_id = eid, tw_plan = p, tw_src = s, tw_dst = d \<rparr>, st)
                             | Inl m \<Rightarrow> (response, None, snd (finish_transfer_event external now eid (Inl m) st))))))"

text \<open>The worker's part: run the job, then finish the event with its result.\<close>

definition with_worker_times :: "rat \<Rightarrow> rat \<Rightarrow> ActualTransfer result \<Rightarrow> ActualTransfer result" where
  "with_worker_times queue_us execute_us r =
     map_sum id (\<lambda>a. a\<lparr> at_channel := map_option (\<lambda>c. c\<lparr> ch_queue_wait_us := F64 queue_us,
                              ch_worker_execute_us := F64 execute_us \<rparr>) (at_channel a) \<rparr>) r"

definition run_job ::
  "environment \<Rightarrow> vendor \<Rightarrow> (string \<times> string) list \<Rightarrow> nat \<Rightarrow> TransferWork \<Rightarrow> world \<times> 'p Catalog \<Rightarrow> (world \<times> 'p Catalog) option" where
  "run_job env v external now work x =
     (case execute_transfer_work env v work (fst x) of
        None \<Rightarrow> None
      | Some (r, w) \<Rightarrow>
          Some (w, snd (finish_transfer_event external now (tw_event_id work)
                          (with_worker_times (vn_us v ''queue_wait'') (vn_us v ''execute'') r) (snd x))))"

section \<open>Polling, waiting, cancelling\<close>

definition poll_event :: "(string \<times> string) list \<Rightarrow> kv \<Rightarrow> 'p Catalog \<Rightarrow> kv" where
  "poll_event external req st =
     (case hm_get (c_transfer_events st) (get_u64 req ''event_id'') of
        None \<Rightarrow> err ''transfer event not found''
      | Some e \<Rightarrow> ok (monitor_event_payload external st e))"

text \<open>
  Waiting: the caller sees the catalog whenever it wakes up, each time with the clock (in
  milliseconds since it started). Without a further wake-up it is still asleep (\<open>None\<close>).
\<close>

fun wait_event :: "(string \<times> string) list \<Rightarrow> u64 \<Rightarrow> u64 \<Rightarrow> (nat \<times> 'p Catalog) list \<Rightarrow> kv option" where
  "wait_event external eid timeout_ms [] = None"
| "wait_event external eid timeout_ms ((now, st) # seen) =
     (case hm_get (c_transfer_events st) eid of
        None \<Rightarrow> Some (err ''transfer event not found'')
      | Some e \<Rightarrow>
          if ev_status e \<notin> set [''pending'', ''running''] then Some (ok (event_payload external e))
          else if c_shutdown_requested st then Some (err ''daemon shutdown in progress'')
          else if timeout_ms = 0 \<or> unat timeout_ms \<le> now then Some (err ''wait timeout'')
          else wait_event external eid timeout_ms seen)"

definition cancelled_event :: "nat \<Rightarrow> TransferEventRecord \<Rightarrow> TransferEventRecord" where
  "cancelled_event now e =
     (let e = e\<lparr> ev_status := ''cancelled'', ev_completed_at_ns := now \<rparr> in
      e\<lparr> ev_actual_latency_us := F64 (elapsed_us e), ev_actual_bandwidth_gib_s := f0, ev_bytes_done := 0,
         ev_error_code := ''cancelled'', ev_error_message := ''cancelled by client'' \<rparr>)"

definition cancel_event :: "(string \<times> string) list \<Rightarrow> nat \<Rightarrow> kv \<Rightarrow> 'p Catalog \<Rightarrow> kv \<times> 'p Catalog" where
  "cancel_event external now req st =
     (let eid = get_u64 req ''event_id'' in
      case hm_get (c_transfer_events st) eid of
        None \<Rightarrow> (err ''transfer event not found'', st)
      | Some e \<Rightarrow>
          if ev_external e then (err ''external cancel requires authenticated external DDR endpoint'', st)
          else if event_is_terminal e then (ok (event_payload external e), st)
          else case hm_get (c_transfer_plans st) (ev_plan_id e) of
            None \<Rightarrow> (err ''transfer plan not found'', st)
          | Some p \<Rightarrow>
              if hm_get (c_objects st) (tp_src_object_id p) = None then (err ''source object not found'', st)
              else if hm_get (c_objects st) (tp_dst_object_id p) = None
              then (err ''destination object not found'', st)
              else (ok (event_payload external (cancelled_event now e)),
                    st\<lparr> c_transfer_events := hm_modify eid (\<lambda>_. cancelled_event now e) (c_transfer_events st) \<rparr>))"

end
