(* ===== verification/EventLaws.thy ===== *)
theory EventLaws
  imports Events PlannerProps ExecutorLaws
begin

text \<open>
  The life of transfer events. The system state is the catalog, the bytes and the queue of jobs the
  worker pool has accepted; workers take jobs in any order. A terminal event never changes again, an
  event that is not terminal has a job in the queue, and the listing pages through the events exactly.
\<close>

section \<open>The system\<close>

record 'p transfer_system =
  ts_catalog :: "'p Catalog"
  ts_world :: world
  ts_jobs :: "TransferWork list"

text \<open>
  Steps: a submission, a worker that runs a job to its end, a cancellation, and anything else the daemon
  does, which leaves the events alone and may add plans but neither changes nor removes one.
\<close>

definition transfer_frame :: "'p Catalog \<Rightarrow> 'p Catalog \<Rightarrow> bool" where
  "transfer_frame st st' \<longleftrightarrow>
     c_transfer_events st' = c_transfer_events st \<and>
     next_transfer_event_id (c_ids st') = next_transfer_event_id (c_ids st) \<and>
     (\<forall>k p. hm_get (c_transfer_plans st) k = Some p \<longrightarrow> hm_get (c_transfer_plans st') k = Some p)"

inductive transfer_step :: "'p transfer_system \<Rightarrow> 'p transfer_system \<Rightarrow> bool" where
  submit: "submit_transfer ext now queued req (ts_catalog s) = (resp, job, st) \<Longrightarrow>
    transfer_step s (s\<lparr> ts_catalog := st, ts_jobs := ts_jobs s @ (case job of None \<Rightarrow> [] | Some j \<Rightarrow> [j]) \<rparr>)"
| work: "j \<in> set (ts_jobs s) \<Longrightarrow> run_job env v ext now j (ts_world s, ts_catalog s) = Some (w, st) \<Longrightarrow>
    transfer_step s (s\<lparr> ts_catalog := st, ts_world := w, ts_jobs := remove1 j (ts_jobs s) \<rparr>)"
| cancel: "cancel_event ext now req (ts_catalog s) = (resp, st) \<Longrightarrow> transfer_step s (s\<lparr> ts_catalog := st \<rparr>)"
| other: "transfer_frame (ts_catalog s) st \<Longrightarrow> transfer_step s (s\<lparr> ts_catalog := st, ts_world := w \<rparr>)"

inductive transfer_run :: "nat \<Rightarrow> 'p transfer_system \<Rightarrow> 'p transfer_system \<Rightarrow> bool" where
  start: "transfer_run 0 s s"
| further: "transfer_run n s s' \<Longrightarrow> transfer_step s' s'' \<Longrightarrow> transfer_run (Suc n) s s''"

text \<open>Planning is one of the other steps.\<close>

lemma plan_transfer_frame:
  assumes "plans_ok st" and "plan_room st" and "plan_transfer env req st = (r, st')"
  shows "transfer_frame st st'"
proof (cases "get r ''status'' = ''ok''")
  case True
  let ?st = "snd (take_request_id req st)"
  have same: "c_transfer_plans ?st = c_transfer_plans st" "c_transfer_events ?st = c_transfer_events st"
      "next_transfer_event_id (c_ids ?st) = next_transfer_event_id (c_ids st)"
    by (simp_all add: take_request_id_def take_next_transfer_plan_id_def Let_def)
  have "keys_below (next_transfer_plan_id (c_ids ?st)) (c_transfer_plans st)"
  proof -
    have "next_transfer_plan_id (c_ids st) \<le> next_transfer_plan_id (c_ids st) + 1"
      using plan_room_nat [OF assms(2)] by (simp add: word_le_nat_alt unat_word_ariths)
    then have "next_transfer_plan_id (c_ids st) \<le> next_transfer_plan_id (c_ids ?st)"
      by (simp add: take_request_id_def take_next_transfer_plan_id_def Let_def)
    then show ?thesis using assms(1) keys_below_mono unfolding plans_ok_def by blast
  qed
  then have fresh: "hm_get (c_transfer_plans st) (next_transfer_plan_id (c_ids ?st)) = None"
    by (rule keys_below_fresh)
  from assms(3) True show ?thesis
    by (rule plan_transfer_okE)
      (use fresh same in \<open>auto simp: transfer_frame_def hm_get_insert take_next_transfer_plan_id_def\<close>)
next
  case False
  with assms(3) show ?thesis
    by (rule plan_transfer_errE)
      (auto simp: transfer_frame_def take_request_id_def take_next_transfer_plan_id_def Let_def)
qed

section \<open>What the operations do to the events\<close>

lemma finish_cases:
  assumes "finish_transfer_event ext now eid result st = (r, st')"
  obtains (same) "st' = st" "\<forall>e. hm_get (c_transfer_events st) eid = Some e \<longrightarrow> event_is_terminal e \<or>
      hm_get (c_transfer_plans st) (ev_plan_id e) = None"
    | (finished) e p where "hm_get (c_transfer_events st) eid = Some e" "\<not> event_is_terminal e"
        "hm_get (c_transfer_plans st) (ev_plan_id e) = Some p"
        "c_transfer_events st' = hm_modify eid (\<lambda>_. finished_event now p result e) (c_transfer_events st)"
        "c_transfer_plans st' = c_transfer_plans st" "c_ids st' = c_ids st"
proof (cases "hm_get (c_transfer_events st) eid")
  case None
  then show ?thesis using assms by (intro same) (simp_all add: finish_transfer_event_def)
next
  case ev: (Some e)
  show ?thesis
  proof (cases "event_is_terminal e \<or> hm_get (c_transfer_plans st) (ev_plan_id e) = None")
    case True
    then show ?thesis using assms ev by (intro same) (auto simp: finish_transfer_event_def split: if_splits)
  next
    case False
    then obtain p where p: "hm_get (c_transfer_plans st) (ev_plan_id e) = Some p" by auto
    show ?thesis
    proof (rule finished [OF ev _ p])
      have st': "st' = snd (finish_transfer_event ext now eid result st)" using assms by simp
      show "c_transfer_events st' = hm_modify eid (\<lambda>_. finished_event now p result e) (c_transfer_events st)"
        "c_transfer_plans st' = c_transfer_plans st" "c_ids st' = c_ids st"
        unfolding st' using ev p False by (simp_all add: finish_transfer_event_def Let_def split: sum.split)
    qed (use False in simp)
  qed
qed

lemma finish_ids: "c_ids (snd (finish_transfer_event ext now eid result st)) = c_ids st"
  by (cases rule: finish_cases [OF prod.collapse [symmetric, of "finish_transfer_event ext now eid result st"]]) simp_all

lemma finish_keeps_terminal:
  assumes "finish_transfer_event ext now eid result st = (r, st')"
    and "hm_get (c_transfer_events st) k = Some e" and "event_is_terminal e"
  shows "hm_get (c_transfer_events st') k = Some e"
  using assms(2,3) by (cases rule: finish_cases [OF assms(1)]) (auto simp: hm_get_modify)

lemma finished_event_fields [simp]:
  "ev_event_id (finished_event now p result e) = ev_event_id e" "ev_plan_id (finished_event now p result e) = ev_plan_id e"
  "ev_status (finished_event now p result e) = (case result of Inr _ \<Rightarrow> ''complete'' | Inl _ \<Rightarrow> ''failed'')"
  "ev_bytes_done (finished_event now p result e) = (case result of Inr a \<Rightarrow> at_bytes_done a | Inl _ \<Rightarrow> 0)"
  by (simp_all add: finished_event_def timed_event_def completed_event_def failed_event_def Let_def split: sum.split)

lemma cancelled_event_fields [simp]:
  "ev_event_id (cancelled_event now e) = ev_event_id e" "ev_plan_id (cancelled_event now e) = ev_plan_id e"
  "ev_status (cancelled_event now e) = ''cancelled''" "ev_bytes_done (cancelled_event now e) = 0"
  by (simp_all add: cancelled_event_def Let_def)

lemma cancel_cases:
  assumes "cancel_event ext now req st = (r, st')"
  obtains (same) "st' = st"
    | (cancelled) e p where "hm_get (c_transfer_events st) (get_u64 req ''event_id'') = Some e" "\<not> event_is_terminal e"
        "hm_get (c_transfer_plans st) (ev_plan_id e) = Some p"
        "st' = st\<lparr> c_transfer_events := hm_modify (get_u64 req ''event_id'') (\<lambda>_. cancelled_event now e) (c_transfer_events st) \<rparr>"
proof (cases "hm_get (c_transfer_events st) (get_u64 req ''event_id'')")
  case None
  then show ?thesis using assms by (intro same) (simp add: cancel_event_def)
next
  case ev: (Some e)
  show ?thesis
  proof (cases "ev_external e \<or> event_is_terminal e \<or> hm_get (c_transfer_plans st) (ev_plan_id e) = None")
    case True
    then show ?thesis using assms ev by (intro same) (auto simp: cancel_event_def split: if_splits)
  next
    case False
    then obtain p where p: "hm_get (c_transfer_plans st) (ev_plan_id e) = Some p" by auto
    show ?thesis
    proof (cases "hm_get (c_objects st) (tp_src_object_id p) = None \<or> hm_get (c_objects st) (tp_dst_object_id p) = None")
      case True
      then show ?thesis using assms ev False p by (intro same) (auto simp: cancel_event_def split: if_splits)
    next
      case live: False
      then show ?thesis using assms ev False p by (intro cancelled [OF ev _ p]) (auto simp: cancel_event_def)
    qed
  qed
qed

lemma submit_cases:
  assumes "submit_transfer ext now queued req st = (r, job, st')"
  obtains (same) "st' = st" "job = None"
    | (submitted) p eid st1 where "hm_get (c_transfer_plans st) (get_u64 req ''plan_id'') = Some p"
        "eid = next_transfer_event_id (c_ids st)"
        "st1 = st\<lparr> c_ids := (c_ids st)\<lparr> next_transfer_event_id := eid + 1 \<rparr>,
          c_transfer_events := hm_insert eid (new_event now eid p (get_u64 req ''plan_id'')) (c_transfer_events st) \<rparr>"
        "tp_completion_kind p = ''immediate'' \<and> job = None \<and> st' = st1 \<or>
         tp_completion_kind p \<noteq> ''immediate'' \<and> (\<exists>s d. job = Some \<lparr> tw_event_id = eid, tw_plan = p, tw_src = s, tw_dst = d \<rparr>) \<and> st' = st1 \<or>
         tp_completion_kind p \<noteq> ''immediate'' \<and> job = None \<and> (\<exists>m. st' = snd (finish_transfer_event ext now eid (Inl m) st1))"
proof (cases "hm_get (c_transfer_plans st) (get_u64 req ''plan_id'')")
  case None
  then show ?thesis using assms by (intro same) (simp_all add: submit_transfer_def)
next
  case p: (Some p)
  show ?thesis
  proof (cases "tp_external p \<or> hm_get (c_objects st) (tp_src_object_id p) = None \<or> hm_get (c_objects st) (tp_dst_object_id p) = None")
    case True
    then show ?thesis using assms p by (intro same) (auto simp: submit_transfer_def split: option.splits if_splits)
  next
    case False
    then obtain src dst where ob: "hm_get (c_objects st) (tp_src_object_id p) = Some src"
        "hm_get (c_objects st) (tp_dst_object_id p) = Some dst" by auto
    show ?thesis
    proof (cases "plan_work st p src dst")
      case (Inl e)
      then show ?thesis using assms p False ob by (intro same) (auto simp: submit_transfer_def)
    next
      case (Inr objects)
      have kind: "objects = None \<longleftrightarrow> tp_completion_kind p = ''immediate''"
        using Inr by (auto simp: plan_work_def rbind_def split: if_splits sum.splits)
      show ?thesis
      proof (rule submitted [OF p refl refl])
      qed (use assms p False ob Inr kind in \<open>cases objects; cases queued;
          auto simp: submit_transfer_def take_next_transfer_event_id_def Let_def\<close>)
    qed
  qed
qed

section \<open>The invariant\<close>

definition event_ok :: "TransferWork list \<Rightarrow> (u64, TransferPlanRecord) hashmap \<Rightarrow> u64 \<Rightarrow> TransferEventRecord \<Rightarrow> bool" where
  "event_ok jobs plans k e \<longleftrightarrow>
     ev_event_id e = k \<and>
     (\<exists>p. hm_get plans (ev_plan_id e) = Some p \<and>
        (ev_status e = ''running'' \<and> ev_bytes_done e = 0 \<and> (\<exists>j \<in> set jobs. tw_event_id j = k) \<or>
         ev_status e = ''complete'' \<and> ev_bytes_done e = tp_nbytes p \<or>
         ev_status e \<in> {''failed'', ''cancelled''} \<and> ev_bytes_done e = 0))"

definition job_ok :: "'p Catalog \<Rightarrow> TransferWork \<Rightarrow> bool" where
  "job_ok st j \<longleftrightarrow>
     (\<exists>e. hm_get (c_transfer_events st) (tw_event_id j) = Some e \<and>
          hm_get (c_transfer_plans st) (ev_plan_id e) = Some (tw_plan j))"

definition transfers_ok :: "'p transfer_system \<Rightarrow> bool" where
  "transfers_ok s \<longleftrightarrow>
     keys_below (next_transfer_event_id (c_ids (ts_catalog s))) (c_transfer_events (ts_catalog s)) \<and>
     (\<forall>k e. hm_get (c_transfer_events (ts_catalog s)) k = Some e \<longrightarrow>
        event_ok (ts_jobs s) (c_transfer_plans (ts_catalog s)) k e) \<and>
     (\<forall>j \<in> set (ts_jobs s). job_ok (ts_catalog s) j)"

text \<open>Two states in which the events that were there are the same, or the same and still fine.\<close>

lemma event_ok_mono:
  assumes "event_ok jobs plans k e" and "\<And>k p. hm_get plans k = Some p \<Longrightarrow> hm_get plans' k = Some p"
    and "event_is_terminal e \<or> (\<forall>j \<in> set jobs. tw_event_id j = k \<longrightarrow> j \<in> set jobs')"
  shows "event_ok jobs' plans' k e"
  using assms unfolding event_ok_def event_is_terminal_def by fastforce

lemma transfers_ok_settle:
  assumes ok: "transfers_ok s" and e: "hm_get (c_transfer_events (ts_catalog s)) k = Some e"
    and st': "c_transfer_events st' = hm_modify k (\<lambda>_. e') (c_transfer_events (ts_catalog s))"
      "c_transfer_plans st' = c_transfer_plans (ts_catalog s)" "c_ids st' = c_ids (ts_catalog s)"
    and jobs: "set jobs \<subseteq> set (ts_jobs s)" "\<And>j. j \<in> set (ts_jobs s) \<Longrightarrow> tw_event_id j \<noteq> k \<Longrightarrow> j \<in> set jobs"
    and e': "event_ok [] (c_transfer_plans (ts_catalog s)) k e'" "ev_plan_id e' = ev_plan_id e"
  shows "transfers_ok (s\<lparr> ts_catalog := st', ts_world := w, ts_jobs := jobs \<rparr>)"
proof -
  have "event_ok jobs (c_transfer_plans st') k' x" if "hm_get (c_transfer_events st') k' = Some x" for k' x
  proof (cases "k' = k")
    case True
    then have "x = e'" using that e by (simp add: st'(1) hm_get_modify)
    then show ?thesis using e'(1) True by (auto simp: event_ok_def st'(2))
  next
    case False
    then have "event_ok (ts_jobs s) (c_transfer_plans (ts_catalog s)) k' x"
      using ok that by (simp add: transfers_ok_def st'(1) hm_get_modify)
    then show ?thesis by (rule event_ok_mono) (use False jobs(2) in \<open>auto simp: st'(2)\<close>)
  qed
  moreover have "job_ok st' j" if "j \<in> set jobs" for j
    using ok that jobs(1) e e'(2) by (fastforce simp: transfers_ok_def job_ok_def st' hm_get_modify)
  ultimately show ?thesis using ok by (simp add: transfers_ok_def st')
qed

lemma transfers_ok_finish:
  assumes ok: "transfers_ok s" and run: "finish_transfer_event ext now k result (ts_catalog s) = (r, st')"
    and jobs: "set jobs \<subseteq> set (ts_jobs s)" "\<And>j. j \<in> set (ts_jobs s) \<Longrightarrow> tw_event_id j \<noteq> k \<Longrightarrow> j \<in> set jobs"
    and bytes: "\<And>e p a. hm_get (c_transfer_events (ts_catalog s)) k = Some e \<Longrightarrow>
      hm_get (c_transfer_plans (ts_catalog s)) (ev_plan_id e) = Some p \<Longrightarrow> result = Inr a \<Longrightarrow> at_bytes_done a = tp_nbytes p"
  shows "transfers_ok (s\<lparr> ts_catalog := st', ts_world := w, ts_jobs := jobs \<rparr>)"
  using run
proof (cases rule: finish_cases)
  case same
  have "event_ok jobs (c_transfer_plans (ts_catalog s)) k' x"
    if x: "hm_get (c_transfer_events (ts_catalog s)) k' = Some x" for k' x
  proof -
    have old: "event_ok (ts_jobs s) (c_transfer_plans (ts_catalog s)) k' x" using ok x by (simp add: transfers_ok_def)
    have "event_is_terminal x" if "k' = k" using same(2) x old that by (auto simp: event_ok_def)
    then have "event_is_terminal x \<or> (\<forall>j \<in> set (ts_jobs s). tw_event_id j = k' \<longrightarrow> j \<in> set jobs)"
      using jobs(2) by (cases "k' = k") auto
    then show ?thesis using old by (intro event_ok_mono [OF old])
  qed
  then show ?thesis using ok same(1) jobs(1) by (auto simp: transfers_ok_def)
next
  case (finished e p)
  have "event_ok [] (c_transfer_plans (ts_catalog s)) k (finished_event now p result e)"
    using ok finished(1,3) bytes [OF finished(1,3)]
    by (cases result) (auto simp: transfers_ok_def event_ok_def)
  then show ?thesis
    by (intro transfers_ok_settle [OF ok finished(1,4-6) jobs]) simp_all
qed

lemma transfers_ok_submit:
  assumes ok: "transfers_ok s" and room: "next_transfer_event_id (c_ids (ts_catalog s)) \<noteq> u64_max"
    and run: "submit_transfer ext now queued req (ts_catalog s) = (r, job, st')"
  shows "transfers_ok (s\<lparr> ts_catalog := st', ts_jobs := ts_jobs s @ (case job of None \<Rightarrow> [] | Some j \<Rightarrow> [j]) \<rparr>)"
  using run
proof (cases rule: submit_cases)
  case same
  then show ?thesis using ok by (simp add: transfers_ok_def)
next
  case (submitted p eid st1)
  let ?e = "new_event now eid p (get_u64 req ''plan_id'')"
  have below: "keys_below eid (c_transfer_events (ts_catalog s))" using ok submitted(2) by (simp add: transfers_ok_def)
  have inc: "eid < eid + 1" using room submitted(2) by (simp add: word_less_nat_alt unat_inc_u64)
  have st1: "c_transfer_events st1 = hm_insert eid ?e (c_transfer_events (ts_catalog s))"
      "c_transfer_plans st1 = c_transfer_plans (ts_catalog s)" "next_transfer_event_id (c_ids st1) = eid + 1"
    using submitted(3) by simp_all
  have e: "ev_event_id ?e = eid" "ev_plan_id ?e = get_u64 req ''plan_id''"
      "ev_status ?e = (if tp_completion_kind p = ''immediate'' then ''complete'' else ''running'')"
      "ev_bytes_done ?e = (if tp_completion_kind p = ''immediate'' then tp_nbytes p else 0)"
    by (simp_all add: new_event_def Let_def)
  have base: "transfers_ok (s\<lparr> ts_catalog := st1, ts_jobs := ts_jobs s @ js \<rparr>)"
    if js: "js = [] \<and> tp_completion_kind p = ''immediate'' \<or> (\<exists>j. js = [j] \<and> tw_event_id j = eid \<and> tw_plan j = p)" for js
  proof -
    have "event_ok (ts_jobs s @ js) (c_transfer_plans st1) k x" if x: "hm_get (c_transfer_events st1) k = Some x" for k x
    proof (cases "k = eid")
      case True
      then show ?thesis using x js e submitted(1) by (auto simp: st1 hm_get_insert event_ok_def)
    next
      case False
      then have "event_ok (ts_jobs s) (c_transfer_plans (ts_catalog s)) k x"
        using ok x by (simp add: st1 hm_get_insert transfers_ok_def)
      then show ?thesis by (rule event_ok_mono) (simp_all add: st1)
    qed
    moreover have "job_ok st1 j" if "j \<in> set (ts_jobs s @ js)" for j
      using that ok js e submitted(1) keys_below_fresh [OF below]
      by (auto simp: transfers_ok_def job_ok_def st1 hm_get_insert)
    ultimately show ?thesis using keys_below_insert [OF below inc] by (simp add: transfers_ok_def st1)
  qed
  show ?thesis using submitted(4)
  proof (elim disjE conjE exE)
    fix m assume m: "job = None" "st' = snd (finish_transfer_event ext now eid (Inl m) st1)"
      "tp_completion_kind p \<noteq> ''immediate''"
    obtain s0 d0 :: RuntimeObject where True by simp
    let ?j = "\<lparr> tw_event_id = eid, tw_plan = p, tw_src = s0, tw_dst = d0 \<rparr>"
    let ?s = "s\<lparr> ts_catalog := st1, ts_jobs := ts_jobs s @ [?j] \<rparr>"
    have "transfers_ok ?s" by (rule base) simp
    moreover obtain r' where "finish_transfer_event ext now eid (Inl m) (ts_catalog ?s) = (r', st')"
      using m(2) by (cases "finish_transfer_event ext now eid (Inl m) st1") simp
    ultimately have "transfers_ok (?s\<lparr> ts_catalog := st', ts_world := ts_world s, ts_jobs := ts_jobs s \<rparr>)"
      by (rule transfers_ok_finish) auto
    then show ?thesis using m(1) by simp
  qed (use base [of "[]"] base in auto)
qed

lemma run_job_ok:
  assumes ok: "transfers_ok s" and j: "j \<in> set (ts_jobs s)"
    and run: "run_job env v ext now j (ts_world s, ts_catalog s) = Some (w, st)"
  shows "transfers_ok (s\<lparr> ts_catalog := st, ts_world := w, ts_jobs := remove1 j (ts_jobs s) \<rparr>)"
proof -
  obtain r resp where r: "execute_transfer_work env v j (ts_world s) = Some (r, w)"
    and fin: "finish_transfer_event ext now (tw_event_id j)
        (with_worker_times (vn_us v ''queue_wait'') (vn_us v ''execute'') r) (ts_catalog s) = (resp, st)"
    using run by (auto simp: run_job_def split: option.splits prod.splits intro: prod.collapse [symmetric])
  have moved: "at_bytes_done a = tp_nbytes (tw_plan j)" if "r = Inr a" for a
    using r that by (auto simp: execute_transfer_work_def and_then_def actual_new_def Let_def split: sum.splits option.splits)
  have plan: "p = tw_plan j" if "hm_get (c_transfer_events (ts_catalog s)) (tw_event_id j) = Some e"
      "hm_get (c_transfer_plans (ts_catalog s)) (ev_plan_id e) = Some p" for e p
    using ok j that by (auto simp: transfers_ok_def job_ok_def)
  show ?thesis
  proof (rule transfers_ok_finish [OF ok fin])
    show "set (remove1 j (ts_jobs s)) \<subseteq> set (ts_jobs s)" by (rule set_remove1_subset)
    show "j' \<in> set (remove1 j (ts_jobs s))" if "j' \<in> set (ts_jobs s)" "tw_event_id j' \<noteq> tw_event_id j" for j'
      using that by (metis in_set_remove1)
    show "at_bytes_done a = tp_nbytes p"
      if "hm_get (c_transfer_events (ts_catalog s)) (tw_event_id j) = Some e"
        "hm_get (c_transfer_plans (ts_catalog s)) (ev_plan_id e) = Some p"
        "with_worker_times (vn_us v ''queue_wait'') (vn_us v ''execute'') r = Inr a" for e p a
      using plan [OF that(1,2)] that(3) moved by (cases r) (auto simp: with_worker_times_def)
  qed
qed

lemma transfer_step_ok:
  assumes "transfers_ok s" and "transfer_step s s'" and "next_transfer_event_id (c_ids (ts_catalog s)) \<noteq> u64_max"
  shows "transfers_ok s'"
  using assms(2)
proof cases
  case (submit ext now queued req resp job st)
  then show ?thesis using transfers_ok_submit [OF assms(1,3)] by simp
next
  case (work j env v ext now w st)
  then show ?thesis using run_job_ok [OF assms(1)] by simp
next
  case (cancel ext now req resp st)
  from cancel(2) show ?thesis
  proof (cases rule: cancel_cases)
    case same
    then show ?thesis using cancel(1) assms(1) by simp
  next
    case (cancelled e p)
    have "event_ok [] (c_transfer_plans (ts_catalog s)) (get_u64 req ''event_id'') (cancelled_event now e)"
      using assms(1) cancelled by (auto simp: transfers_ok_def event_ok_def)
    then have "transfers_ok (s\<lparr> ts_catalog := st, ts_world := ts_world s, ts_jobs := ts_jobs s \<rparr>)"
      by (intro transfers_ok_settle [OF assms(1) cancelled(1), where e' = "cancelled_event now e"])
        (simp_all add: cancelled(4))
    then show ?thesis using cancel(1) by simp
  qed
next
  case (other st w)
  have "event_ok (ts_jobs s) (c_transfer_plans st) k e"
    if "hm_get (c_transfer_events (ts_catalog s)) k = Some e" for k e
  proof (rule event_ok_mono)
    show "event_ok (ts_jobs s) (c_transfer_plans (ts_catalog s)) k e" using assms(1) that by (simp add: transfers_ok_def)
    show "hm_get (c_transfer_plans st) k' = Some p" if "hm_get (c_transfer_plans (ts_catalog s)) k' = Some p" for k' p
      using that other(2) by (simp add: transfer_frame_def)
  qed simp
  moreover have "job_ok st j" if j: "j \<in> set (ts_jobs s)" for j
  proof -
    obtain e where "hm_get (c_transfer_events (ts_catalog s)) (tw_event_id j) = Some e"
        "hm_get (c_transfer_plans (ts_catalog s)) (ev_plan_id e) = Some (tw_plan j)"
      using assms(1) j unfolding transfers_ok_def job_ok_def by blast
    then show ?thesis using other(2) by (simp add: job_ok_def transfer_frame_def)
  qed
  ultimately show ?thesis
    using assms(1) other by (simp add: transfers_ok_def transfer_frame_def)
qed

text \<open>A step gives out at most one identifier, and leaves terminal events alone.\<close>

lemma transfer_step_next:
  assumes "transfer_step s s'"
  shows "next_transfer_event_id (c_ids (ts_catalog s')) \<in>
     {next_transfer_event_id (c_ids (ts_catalog s)), next_transfer_event_id (c_ids (ts_catalog s)) + 1}"
  using assms
proof cases
  case (submit ext now queued req resp job st)
  show ?thesis using submit(1) by (cases rule: submit_cases [OF submit(2)]) (auto simp: finish_ids)
next
  case (work j env v ext now w st)
  obtain r resp where "finish_transfer_event ext now (tw_event_id j) r (ts_catalog s) = (resp, st)"
    using work(3) by (auto simp: run_job_def split: option.splits prod.splits intro: prod.collapse [symmetric])
  then show ?thesis using work(1) by (cases rule: finish_cases) simp_all
next
  case (cancel ext now req resp st)
  then show ?thesis by (cases rule: cancel_cases [OF cancel(2)]) simp_all
next
  case (other st w)
  then show ?thesis by (simp add: transfer_frame_def)
qed

lemma transfer_step_terminal:
  assumes ok: "transfers_ok s" and "transfer_step s s'"
    and e: "hm_get (c_transfer_events (ts_catalog s)) k = Some e" and final: "event_is_terminal e"
  shows "hm_get (c_transfer_events (ts_catalog s')) k = Some e"
proof -
  show ?thesis using assms(2)
  proof cases
    case (submit ext now queued req resp job st)
    have k: "k \<noteq> next_transfer_event_id (c_ids (ts_catalog s))"
      using ok e keys_belowD by (fastforce simp: transfers_ok_def)
    from submit(2) show ?thesis
    proof (cases rule: submit_cases)
      case same
      then show ?thesis using submit(1) e by simp
    next
      case (submitted p eid st1)
      have st1: "hm_get (c_transfer_events st1) k = Some e" using submitted(2,3) e k by (simp add: hm_get_insert)
      then show ?thesis using submitted(4) submit(1) finish_keeps_terminal [OF prod.collapse [symmetric] st1 final] by auto
    qed
  next
    case (work j env v ext now w st)
    obtain r resp where "finish_transfer_event ext now (tw_event_id j) r (ts_catalog s) = (resp, st)"
      using work(3) by (auto simp: run_job_def split: option.splits prod.splits intro: prod.collapse [symmetric])
    then show ?thesis using work(1) finish_keeps_terminal e final by fastforce
  next
    case (cancel ext now req resp st)
    then show ?thesis using e final by (cases rule: cancel_cases [OF cancel(2)]) (auto simp: hm_get_modify)
  next
    case (other st w)
    then show ?thesis using e by (simp add: transfer_frame_def)
  qed
qed

section \<open>Runs\<close>

abbreviation next_event :: "'p transfer_system \<Rightarrow> u64" where
  "next_event s \<equiv> next_transfer_event_id (c_ids (ts_catalog s))"

lemma transfer_run_ok:
  assumes "transfer_run n s s'" and "transfers_ok s" and "unat (next_event s) + n < 2 ^ 64"
  shows "transfers_ok s' \<and> unat (next_event s') \<le> unat (next_event s) + n"
  using assms
proof (induction rule: transfer_run.induct)
  case (start s)
  then show ?case by simp
next
  case (further n s s' s'')
  then have ok: "transfers_ok s'" and bound: "unat (next_event s') \<le> unat (next_event s) + n" by simp_all
  have room: "next_event s' \<noteq> u64_max" using bound further.prems(2) by (auto simp: u64_max_def)
  have "unat (next_event s'') \<le> unat (next_event s') + 1"
    using transfer_step_next [OF further.hyps(2)] unat_inc_u64 [OF room] by auto
  then show ?case using transfer_step_ok [OF ok further.hyps(2) room] bound by simp
qed

lemma transfer_run_terminal:
  assumes "transfer_run n s s'" and "transfers_ok s" and "unat (next_event s) + n < 2 ^ 64"
    and "hm_get (c_transfer_events (ts_catalog s)) k = Some e" and "event_is_terminal e"
  shows "hm_get (c_transfer_events (ts_catalog s')) k = Some e"
  using assms
proof (induction rule: transfer_run.induct)
  case (start s)
  then show ?case by simp
next
  case (further n s s' s'')
  then have "transfers_ok s'" using transfer_run_ok [OF further.hyps(1)] by simp
  then show ?case using further by (intro transfer_step_terminal [OF _ further.hyps(2)]) simp_all
qed

lemma transfers_ok_start: "c_transfer_events (ts_catalog s) = [] \<Longrightarrow> ts_jobs s = [] \<Longrightarrow> transfers_ok s"
  by (simp add: transfers_ok_def)

text \<open>
  C18. Start with no transfer events and no queued jobs and let clients submit and cancel, workers run
  jobs in any order and the rest of the daemon do what it does, as long as the event counter does not
  wrap. Every event then carries its own key and belongs to a stored plan, and it is in one of three
  situations: running, with a job for it in the queue and no bytes reported; complete, with exactly the
  plan's bytes reported; or failed or cancelled, with none reported. So no event waits for a job that
  does not exist, also when the worker pool refused it.
\<close>
theorem transfer_events_accounted:
  assumes "transfer_run n s s'" and "c_transfer_events (ts_catalog s) = []" and "ts_jobs s = []"
    and "unat (next_transfer_event_id (c_ids (ts_catalog s))) + n < 2 ^ 64"
    and "hm_get (c_transfer_events (ts_catalog s')) k = Some e"
  shows "ev_event_id e = k \<and>
    (\<exists>p. hm_get (c_transfer_plans (ts_catalog s')) (ev_plan_id e) = Some p \<and>
       (ev_status e = ''running'' \<and> ev_bytes_done e = 0 \<and> (\<exists>j \<in> set (ts_jobs s'). tw_event_id j = k) \<or>
        ev_status e = ''complete'' \<and> ev_bytes_done e = tp_nbytes p \<or>
        ev_status e \<in> {''failed'', ''cancelled''} \<and> ev_bytes_done e = 0))"
proof -
  have "transfers_ok s'" using transfer_run_ok [OF assms(1) transfers_ok_start [OF assms(2,3)] assms(4)] by simp
  then show ?thesis using assms(5) by (simp add: transfers_ok_def event_ok_def)
qed

text \<open>
  C17. Once an event is complete, failed or cancelled its record never changes again: a job that ends
  after its event was cancelled does not turn the event complete, a late cancellation does not touch a
  completed event, and no new submission overwrites it.
\<close>
theorem terminal_event_is_final:
  assumes "transfer_run m s0 s" and "c_transfer_events (ts_catalog s0) = []" and "ts_jobs s0 = []"
    and "transfer_run n s s'" and "unat (next_transfer_event_id (c_ids (ts_catalog s0))) + m + n < 2 ^ 64"
    and "hm_get (c_transfer_events (ts_catalog s)) k = Some e" and "event_is_terminal e"
  shows "hm_get (c_transfer_events (ts_catalog s')) k = Some e"
proof -
  have "transfers_ok s" "unat (next_event s) \<le> unat (next_event s0) + m"
    using transfer_run_ok [OF assms(1) transfers_ok_start [OF assms(2,3)]] assms(5) by simp_all
  then show ?thesis using transfer_run_terminal [OF assms(4) _ _ assms(6,7)] assms(5) by simp
qed

section \<open>Paging through the events\<close>

lemma sorted_rev_desc: "sorted xs \<Longrightarrow> distinct xs \<Longrightarrow> sorted_wrt (>) (rev (xs :: 'a :: linorder list))"
  by (simp add: sorted_wrt_rev strict_sorted_iff)

text \<open>Filtering a strictly descending list below its \<open>n\<close>-th element drops the first \<open>n\<close>.\<close>

lemma filter_below_last:
  assumes "sorted_wrt (>) (xs :: 'a :: linorder list)" and "take n xs \<noteq> []"
  shows "filter (\<lambda>x. x < last (take n xs)) xs = drop n xs"
proof -
  obtain ys y where t: "take n xs = ys @ [y]" using assms(2) by (metis append_butlast_last_id)
  have split: "xs = (ys @ [y]) @ drop n xs" by (metis t append_take_drop_id)
  have "sorted_wrt (>) ((ys @ [y]) @ drop n xs)" using assms(1) split by simp
  then have "\<forall>x \<in> set (ys @ [y]). \<not> x < y" "\<forall>x \<in> set (drop n xs). x < y"
    by (auto simp: sorted_wrt_append)
  then have "filter (\<lambda>x. x < y) ((ys @ [y]) @ drop n xs) = drop n xs"
    by (simp only: filter_append) (simp add: filter_id_conv filter_empty_conv)
  then show ?thesis using t by (metis append_take_drop_id last_snoc)
qed

definition descending_ids :: "(u64, TransferEventRecord) hashmap \<Rightarrow> TransferEventListQuery \<Rightarrow> u64 list" where
  "descending_ids events q = rev (sort (map ev_event_id (filter (event_matches q) (hm_values events))))"

lemma descending_ids_props:
  assumes "hm_wf events" and "\<And>k e. hm_get events k = Some e \<Longrightarrow> ev_event_id e = k"
  shows "sorted_wrt (>) (descending_ids events q)"
    "set (descending_ids events q) = {k. \<exists>e. hm_get events k = Some e \<and> event_matches q e}"
proof -
  have key: "ev_event_id e = k" if "(k, e) \<in> set events" for k e
    using that assms unfolding hm_wf_def hm_get_def by simp
  have "map ev_event_id (hm_values events) = map fst events"
    using key unfolding hm_values_def by (auto intro!: map_cong)
  then have "distinct (map ev_event_id (filter (event_matches q) (hm_values events)))"
    using assms(1) unfolding hm_wf_def by (metis distinct_map_filter)
  then show "sorted_wrt (>) (descending_ids events q)"
    unfolding descending_ids_def by (intro sorted_rev_desc) simp_all
  show "set (descending_ids events q) = {k. \<exists>e. hm_get events k = Some e \<and> event_matches q e}"
    (is "?ids = ?keys")
  proof (rule set_eqI)
    fix k
    have "k \<in> ?ids \<longleftrightarrow> (\<exists>e \<in> set (hm_values events). event_matches q e \<and> ev_event_id e = k)"
      unfolding descending_ids_def by auto
    also have "\<dots> \<longleftrightarrow> k \<in> ?keys"
    proof
      assume "\<exists>e \<in> set (hm_values events). event_matches q e \<and> ev_event_id e = k"
      then obtain e k' where "hm_get events k' = Some e" "event_matches q e" "ev_event_id e = k"
        using hm_values_get [OF assms(1)] by blast
      then show "k \<in> ?keys" using assms(2) by auto
    qed (use assms(2) hm_get_in_values in \<open>fastforce\<close>)
    finally show "k \<in> ?ids \<longleftrightarrow> k \<in> ?keys" .
  qed
qed

lemma matches_next_page:
  "event_matches (q\<lparr> lq_before_event_id := Some b \<rparr>) e \<longleftrightarrow> event_matches q e \<and> ev_event_id e < b"
  if "\<And>c. lq_before_event_id q = Some c \<Longrightarrow> b \<le> c"
  using that by (cases "lq_before_event_id q") (auto simp: event_matches_def)

lemma descending_ids_filter:
  assumes "\<And>x. event_matches q' x \<longleftrightarrow> event_matches q x \<and> ev_event_id x < b"
  shows "descending_ids events q' = filter (\<lambda>k. k < b) (descending_ids events q)"
proof -
  have "filter (event_matches q') (hm_values events) =
      filter (\<lambda>x. ev_event_id x < b) (filter (event_matches q) (hm_values events))"
    using assms by (simp add: conj_commute cong: filter_cong)
  then show ?thesis by (simp add: descending_ids_def filter_map filter_sort rev_filter [symmetric] comp_def)
qed

lemma descending_ids_next_page:
  assumes wf: "hm_wf events" "\<And>k e. hm_get events k = Some e \<Longrightarrow> ev_event_id e = k"
    and page: "take n (descending_ids events q) \<noteq> []"
  shows "descending_ids events (q\<lparr> lq_before_event_id := Some (last (take n (descending_ids events q))) \<rparr>) =
     drop n (descending_ids events q)"
proof -
  let ?b = "last (take n (descending_ids events q))"
  have "?b \<in> set (descending_ids events q)" using last_in_set [OF page] by (rule in_set_takeD)
  then obtain e where "hm_get events ?b = Some e" "event_matches q e" "ev_event_id e = ?b"
    using descending_ids_props(2) [OF wf] wf(2) by blast
  then have "?b \<le> c" if "lq_before_event_id q = Some c" for c using that by (auto simp: event_matches_def)
  then have "event_matches (q\<lparr> lq_before_event_id := Some ?b \<rparr>) x \<longleftrightarrow> event_matches q x \<and> ev_event_id x < ?b" for x
    by (rule matches_next_page)
  then have "descending_ids events (q\<lparr> lq_before_event_id := Some ?b \<rparr>) = filter (\<lambda>k. k < ?b) (descending_ids events q)"
    by (rule descending_ids_filter)
  then show ?thesis using filter_below_last [OF descending_ids_props(1) [OF wf] page] by simp
qed

text \<open>
  C28. The listing of events is a correct cursor. The identifiers returned are the first \<open>limit\<close> of all
  matching events in strictly descending order, the flag says exactly whether matches are left, and
  asking again with the last identifier returned as \<^verbatim>\<open>before_event_id\<close> gives the next \<open>limit\<close> of the same
  sequence: no event is repeated and none is skipped.
\<close>
theorem listing_is_a_cursor:
  assumes "hm_wf events" and "\<And>k e. hm_get events k = Some e \<Longrightarrow> ev_event_id e = k"
    and "selected_transfer_event_ids events q = (ids, left)" and "ids \<noteq> []"
    and "selected_transfer_event_ids events (q\<lparr> lq_before_event_id := Some (last ids) \<rparr>) = (ids', left')"
  shows "\<exists>all. sorted_wrt (>) all \<and> set all = {k. \<exists>e. hm_get events k = Some e \<and> event_matches q e} \<and>
    ids = take (lq_limit q) all \<and> left = (lq_limit q < length all) \<and>
    ids' = take (lq_limit q) (drop (lq_limit q) all) \<and> left' = (2 * lq_limit q < length all)"
proof -
  let ?all = "descending_ids events q"
  have ids: "ids = take (lq_limit q) ?all" "left = (lq_limit q < length ?all)"
    using assms(3) by (simp_all add: selected_transfer_event_ids_def descending_ids_def Let_def)
  then have nxt: "descending_ids events (q\<lparr> lq_before_event_id := Some (last ids) \<rparr>) = drop (lq_limit q) ?all"
    using descending_ids_next_page [OF assms(1,2)] assms(4) by blast
  have "ids' = take (lq_limit q) (drop (lq_limit q) ?all)" "left' = (lq_limit q < length (drop (lq_limit q) ?all))"
    using assms(5) unfolding selected_transfer_event_ids_def Let_def descending_ids_def [symmetric] nxt by simp_all
  then show ?thesis
    using descending_ids_props [OF assms(1,2), where q = q] ids by (intro exI [of _ ?all]) auto
qed

section \<open>Examples\<close>

text \<open>Two objects, a plan that has nothing to move and one that copies from the file to host memory.\<close>

definition demo_events_catalog :: "unit Catalog" where
  "demo_events_catalog = (catalog_new 0 [] [])\<lparr>
     c_objects := [(7, demo_ssd), (9, (blank_object [] 9 90 1)\<lparr> ob_placement := ''ddr'' \<rparr>)],
     c_transfer_plans := [(1, demo_copy_plan)] \<rparr>"

definition demo_system :: "unit transfer_system" where
  "demo_system = \<lparr> ts_catalog = demo_events_catalog, ts_world = demo_world, ts_jobs = [] \<rparr>"

definition demo_job :: TransferWork where
  "demo_job = \<lparr> tw_event_id = 30000, tw_plan = demo_copy_plan, tw_src = \<lparr> ro_object = demo_ssd, ro_hbm = None \<rparr>,
     tw_dst = \<lparr> ro_object = (blank_object [] 9 90 1)\<lparr> ob_placement := ''ddr'' \<rparr>, ro_hbm = None \<rparr> \<rparr>"

definition demo_submit :: "kv \<times> TransferWork option \<times> unit Catalog" where
  "demo_submit = submit_transfer [] 5 (Inr ()) (kv_of [(''plan_id'', ''1'')]) demo_events_catalog"

definition demo_cancel :: "kv \<times> unit Catalog" where
  "demo_cancel = cancel_event [] 6 (kv_of [(''event_id'', ''30000'')]) (snd (snd demo_submit))"

definition demo_submitted :: "unit transfer_system" where
  "demo_submitted = demo_system\<lparr> ts_catalog := snd (snd demo_submit), ts_jobs := [demo_job] \<rparr>"

definition demo_cancelled :: "unit transfer_system" where
  "demo_cancelled = demo_submitted\<lparr> ts_catalog := snd demo_cancel \<rparr>"

lemma demo_ids: "get_u64 (kv_of [(''plan_id'', ''1'')]) ''plan_id'' = 1" "get_u64 (kv_of [(''event_id'', ''30000'')]) ''event_id'' = 30000"
  by code_simp+

lemma demo_submit_eval:
  "demo_submit = (ok (event_payload [] (new_event 5 30000 demo_copy_plan 1)), Some demo_job,
     demo_events_catalog\<lparr> c_ids := (c_ids demo_events_catalog)\<lparr> next_transfer_event_id := 30001 \<rparr>,
       c_transfer_events := [(30000, new_event 5 30000 demo_copy_plan 1)] \<rparr>)"
  by (simp add: demo_submit_def submit_transfer_def demo_ids demo_events_catalog_def catalog_new_def hm_get_def
      hm_insert_def demo_copy_plan_def plan_work_def runtime_object_def demo_ssd_def blank_object_def rbind_def
      take_next_transfer_event_id_def demo_job_def Let_def)

lemma demo_cancel_eval:
  "demo_cancel = (ok (event_payload [] (cancelled_event 6 (new_event 5 30000 demo_copy_plan 1))),
     demo_events_catalog\<lparr> c_ids := (c_ids demo_events_catalog)\<lparr> next_transfer_event_id := 30001 \<rparr>,
       c_transfer_events := [(30000, cancelled_event 6 (new_event 5 30000 demo_copy_plan 1))] \<rparr>)"
  by (simp add: demo_cancel_def demo_submit_eval cancel_event_def demo_ids demo_events_catalog_def catalog_new_def
      hm_get_def hm_modify_def demo_copy_plan_def new_event_def event_is_terminal_def Let_def)

lemma demo_event_facts:
  "map_option ev_status (hm_get (c_transfer_events (ts_catalog demo_submitted)) 30000) = Some ''running''"
  "map_option ev_status (hm_get (c_transfer_events (ts_catalog demo_cancelled)) 30000) = Some ''cancelled''"
  by (simp_all add: demo_submitted_def demo_cancelled_def demo_submit_eval demo_cancel_eval hm_get_def new_event_def
      demo_copy_plan_def Let_def)

lemma demo_job_runs: "\<exists>w st. run_job (\<lambda>_. None) demo_vendor [] 7 demo_job (demo_world, st0) = Some (w, st)"
proof -
  have "map_option (\<lambda>_. ()) (execute_transfer_work (\<lambda>_. None) demo_vendor demo_job demo_world) = Some ()" by code_simp
  then show ?thesis by (auto simp: run_job_def)
qed

lemma demo_runs: "transfer_run 1 demo_system demo_submitted" "transfer_run 2 demo_system demo_cancelled"
proof -
  have "transfer_step demo_system (demo_system\<lparr> ts_catalog := snd (snd demo_submit),
      ts_jobs := ts_jobs demo_system @ (case Some demo_job of None \<Rightarrow> [] | Some j \<Rightarrow> [j]) \<rparr>)"
    by (rule transfer_step.submit [of "[]" 5 "Inr ()" "kv_of [(''plan_id'', ''1'')]" _ "fst demo_submit"])
      (use demo_submit_eval in \<open>simp add: demo_submit_def demo_system_def\<close>)
  then have "transfer_step demo_system demo_submitted" by (simp add: demo_submitted_def demo_system_def)
  then show one: "transfer_run 1 demo_system demo_submitted"
    using transfer_run.further [OF transfer_run.start] by simp
  have "transfer_step demo_submitted demo_cancelled"
    using transfer_step.cancel [of "[]" 6 "kv_of [(''event_id'', ''30000'')]" demo_submitted "fst demo_cancel" "snd demo_cancel"]
    by (simp add: demo_cancelled_def demo_cancel_def demo_submitted_def)
  then show "transfer_run 2 demo_system demo_cancelled"
    using transfer_run.further [OF one] by (simp add: numeral_2_eq_2)
qed

lemma demo_start:
  "c_transfer_events (ts_catalog demo_system) = []" "ts_jobs demo_system = []"
  "next_transfer_event_id (c_ids (ts_catalog demo_system)) = 30000"
  by (simp_all add: demo_system_def demo_events_catalog_def catalog_new_def)

theorem transfer_events_accounted_witness:
  "\<exists>e. hm_get (c_transfer_events (ts_catalog demo_submitted)) 30000 = Some e \<and> ev_event_id e = 30000 \<and>
     (\<exists>j \<in> set (ts_jobs demo_submitted). tw_event_id j = 30000)"
proof -
  obtain e where e: "hm_get (c_transfer_events (ts_catalog demo_submitted)) 30000 = Some e" "ev_status e = ''running''"
    using demo_event_facts(1) by auto
  then show ?thesis
    using transfer_events_accounted [OF demo_runs(1) demo_start(1,2) _ e(1)] by (auto simp: demo_start(3))
qed

theorem terminal_event_is_final_witness:
  "\<exists>s e. transfer_run 1 demo_cancelled s \<and> ts_jobs s = [] \<and>
     hm_get (c_transfer_events (ts_catalog s)) 30000 = Some e \<and> ev_status e = ''cancelled''"
proof -
  obtain e where e: "hm_get (c_transfer_events (ts_catalog demo_cancelled)) 30000 = Some e" "ev_status e = ''cancelled''"
    using demo_event_facts(2) by auto
  have sys: "ts_jobs demo_cancelled = [demo_job]" "ts_world demo_cancelled = demo_world"
    by (simp_all add: demo_cancelled_def demo_submitted_def demo_system_def)
  obtain w st where "run_job (\<lambda>_. None) demo_vendor [] 7 demo_job (ts_world demo_cancelled, ts_catalog demo_cancelled) = Some (w, st)"
    using demo_job_runs sys(2) by metis
  then have "transfer_step demo_cancelled (demo_cancelled\<lparr> ts_catalog := st, ts_world := w, ts_jobs := [] \<rparr>)"
    using transfer_step.work [of demo_job demo_cancelled] sys(1) by simp
  then have run: "transfer_run 1 demo_cancelled (demo_cancelled\<lparr> ts_catalog := st, ts_world := w, ts_jobs := [] \<rparr>)"
    using transfer_run.further [OF transfer_run.start] by simp
  have "event_is_terminal e" using e(2) by (simp add: event_is_terminal_def)
  then show ?thesis
    using terminal_event_is_final [OF demo_runs(2) demo_start(1,2) run _ e(1)] run e(2) by (auto simp: demo_start(3))
qed

definition demo_listing :: "(u64, TransferEventRecord) hashmap" where
  "demo_listing = map (\<lambda>k. (k, new_event 0 k demo_copy_plan 1)) [4, 9, 2, 7, 5]"

definition demo_query :: TransferEventListQuery where
  "demo_query = \<lparr> lq_limit = 2, lq_before_event_id = Some 9, lq_status = ''running'', lq_client_id = None,
     lq_actual_path = [], lq_actual_engine = [] \<rparr>"

theorem listing_is_a_cursor_witness:
  "\<exists>all. sorted_wrt (>) all \<and> take 2 all = [7, 5] \<and> take 2 (drop 2 all) = [4, 2 :: u64] \<and> length all \<le> 4"
proof -
  have wf: "hm_wf demo_listing" by code_simp
  have key: "ev_event_id e = k" if "hm_get demo_listing k = Some e" for k e
    using that by (auto simp: demo_listing_def hm_get_def new_event_def Let_def split: if_splits)
  have pages: "selected_transfer_event_ids demo_listing demo_query = ([7, 5], True)"
      "selected_transfer_event_ids demo_listing (demo_query\<lparr> lq_before_event_id := Some (last [7, 5]) \<rparr>) = ([4, 2], False)"
    by code_simp+
  show ?thesis
    using listing_is_a_cursor [OF wf key pages(1) _ pages(2)] by (fastforce simp: demo_query_def)
qed

end
