(* ===== verification/Journal.thy ===== *)
theory Journal
  imports Bridge Wire
begin

text \<open>
  The recovery journal (\<^verbatim>\<open>ddr_recovery_journal.rs\<close>): frames chained by a CRC, a head file that names
  the last frame, and the append that writes and synchronises the frame first and the head second. The
  two files are byte strings; what the kernel answers (opening, inode identities, seeks, writes cut
  short, synchronisation) is an argument, so every failure the code handles is a value of that argument.
\<close>

section \<open>Checksum\<close>

definition CRC_POLY :: u64 where "CRC_POLY = 0x42f0e1eba9ea3693"

definition crc_bit :: "u64 \<Rightarrow> u64" where
  "crc_bit crc = (if bit crc 63 then push_bit 1 crc XOR CRC_POLY else push_bit 1 crc)"

definition crc_entry :: "u64 \<Rightarrow> u64" where
  "crc_entry i = (crc_bit ^^ 8) (push_bit 56 i)"

definition CRC_TABLE :: "u64 list" where
  "CRC_TABLE = map (\<lambda>i. crc_entry (of_nat i)) [0..<256]"

definition crc_step :: "u64 \<Rightarrow> u8 \<Rightarrow> u64" where
  "crc_step crc byte = push_bit 8 crc XOR CRC_TABLE ! unat (ucast (drop_bit 56 crc) XOR byte)"

definition crc64 :: "bytes \<Rightarrow> u64" where
  "crc64 bs = foldl crc_step 0 bs"

section \<open>Frames\<close>

datatype Kind =
    KSessionRegisterIntent | KRegisterCommit | KViewIntent | KViewCommit | KAbort | KCloseIntent | KCloseDone
  | KPeerTerminated | KReserveIntent | KCopyIntent | KCancelRequest | KWorkDrained | KPublishIntent | KPublishDone
  | KBrokerDrained | KCleanCheckpoint | KRecoveryAudit | KRecoveryCommit | KNotSent | KRetire | KWorkVerified
  | KBrokerBirth | KWorkIoCompleted

fun kind_code :: "Kind \<Rightarrow> nat" where
  "kind_code KSessionRegisterIntent = 1"
| "kind_code KRegisterCommit = 2"
| "kind_code KViewIntent = 3"
| "kind_code KViewCommit = 4"
| "kind_code KAbort = 5"
| "kind_code KCloseIntent = 6"
| "kind_code KCloseDone = 7"
| "kind_code KPeerTerminated = 8"
| "kind_code KReserveIntent = 9"
| "kind_code KCopyIntent = 10"
| "kind_code KCancelRequest = 11"
| "kind_code KWorkDrained = 12"
| "kind_code KPublishIntent = 13"
| "kind_code KPublishDone = 14"
| "kind_code KBrokerDrained = 15"
| "kind_code KCleanCheckpoint = 16"
| "kind_code KRecoveryAudit = 17"
| "kind_code KRecoveryCommit = 18"
| "kind_code KNotSent = 19"
| "kind_code KRetire = 20"
| "kind_code KWorkVerified = 21"
| "kind_code KBrokerBirth = 22"
| "kind_code KWorkIoCompleted = 23"

definition all_kinds :: "Kind list" where
  "all_kinds = [KSessionRegisterIntent, KRegisterCommit, KViewIntent, KViewCommit, KAbort, KCloseIntent, KCloseDone,
     KPeerTerminated, KReserveIntent, KCopyIntent, KCancelRequest, KWorkDrained, KPublishIntent, KPublishDone,
     KBrokerDrained, KCleanCheckpoint, KRecoveryAudit, KRecoveryCommit, KNotSent, KRetire, KWorkVerified, KBrokerBirth,
     KWorkIoCompleted]"

definition kind_decode :: "nat \<Rightarrow> Kind result" where
  "kind_decode n = (if 1 \<le> n \<and> n \<le> 23 then Inr (all_kinds ! (n - 1)) else Inl ''unknown recovery event type'')"

definition FRAME_MAGIC :: bytes where "FRAME_MAGIC = [0x55, 0x44, 0x52, 0x4A]"

definition END_MAGIC :: bytes where "END_MAGIC = [0x4A, 0x45, 0x4E, 0x44]"

definition FORMAT_VERSION :: nat where "FORMAT_VERSION = 1"

definition MAX_PAYLOAD :: nat where "MAX_PAYLOAD = 8192"

definition MAX_JOURNAL :: u64 where "MAX_JOURNAL = 64 * 1024 * 1024"

definition MAX_STATE :: nat where "MAX_STATE = 4096"

definition HEADER_LEN :: nat where "HEADER_LEN = 28"

definition TRAILER_LEN :: nat where "TRAILER_LEN = 12"

record Frame =
  fr_kind :: Kind
  fr_sequence :: u64
  fr_previous :: u64
  fr_payload :: bytes
  fr_checksum :: u64

definition encoded_len :: "Frame \<Rightarrow> nat" where
  "encoded_len f = HEADER_LEN + length (fr_payload f) + TRAILER_LEN"

definition frame_body :: "Kind \<Rightarrow> u64 \<Rightarrow> u64 \<Rightarrow> bytes \<Rightarrow> bytes" where
  "frame_body kind sequence previous payload =
     FRAME_MAGIC @ be_bytes 2 FORMAT_VERSION @ be_bytes 2 (kind_code kind) @ be_bytes 8 (unat sequence) @
     be_bytes 8 (unat previous) @ be_bytes 4 (length payload) @ payload"

definition frame_encode :: "Kind \<Rightarrow> u64 \<Rightarrow> u64 \<Rightarrow> bytes \<Rightarrow> bytes result" where
  "frame_encode kind sequence previous payload =
     (if sequence = 0 \<or> payload = [] \<or> MAX_PAYLOAD < length payload
      then Inl ''invalid recovery frame sequence or payload length''
      else Inr (frame_body kind sequence previous payload @
                be_bytes 8 (unat (crc64 (frame_body kind sequence previous payload))) @ END_MAGIC))"

section \<open>The head\<close>

datatype Mode = Clean | Dirty

record Head =
  hd_mode :: Mode
  hd_broker :: string
  hd_sequence :: u64
  hd_offset :: u64
  hd_checksum :: u64
  hd_clean_sequence :: u64

definition genesis :: Head where
  "genesis = \<lparr> hd_mode = Clean, hd_broker = ''none'', hd_sequence = 0, hd_offset = 0, hd_checksum = 0,
     hd_clean_sequence = 0 \<rparr>"

definition STATE_VERSION :: string where "STATE_VERSION = ''uflow-ddr-recovery-head-v1''"

definition hex_char :: "nat \<Rightarrow> char" where
  "hex_char n = (if n < 10 then char_of (48 + n) else char_of (87 + n))"

fun hex_digits :: "nat \<Rightarrow> nat \<Rightarrow> string" where
  "hex_digits 0 x = []"
| "hex_digits (Suc n) x = hex_digits n (x div 16) @ [hex_char (x mod 16)]"

definition hex_val :: "char \<Rightarrow> nat option" where
  "hex_val c =
     (let n = of_char c :: nat in
      if 48 \<le> n \<and> n \<le> 57 then Some (n - 48)
      else if 97 \<le> n \<and> n \<le> 102 then Some (n - 87)
      else if 65 \<le> n \<and> n \<le> 70 then Some (n - 55)
      else None)"

fun hex_value :: "nat \<Rightarrow> string \<Rightarrow> nat option" where
  "hex_value acc [] = Some acc"
| "hex_value acc (c # cs) = (case hex_val c of None \<Rightarrow> None | Some d \<Rightarrow> hex_value (16 * acc + d) cs)"

text \<open>\<^verbatim>\<open>u64::from_str_radix(text, 16)\<close>: a plus sign may lead, the digits must fit.\<close>

definition parse_hex :: "string \<Rightarrow> u64 option" where
  "parse_hex s =
     (let ds = (case s of c # cs \<Rightarrow> if c = CHR ''+'' \<and> cs \<noteq> [] then cs else s | [] \<Rightarrow> []) in
      if ds = [] then None
      else case hex_value 0 ds of None \<Rightarrow> None | Some n \<Rightarrow> if n < 2 ^ 64 then Some (of_nat n) else None)"

definition mode_name :: "Mode \<Rightarrow> string" where
  "mode_name m = (case m of Clean \<Rightarrow> ''clean'' | Dirty \<Rightarrow> ''dirty'')"

definition head_lines :: "Head \<Rightarrow> string list" where
  "head_lines h =
     [STATE_VERSION, ''mode='' @ mode_name (hd_mode h), ''broker='' @ hd_broker h,
      ''sequence='' @ show_u64 (hd_sequence h), ''offset='' @ show_u64 (hd_offset h),
      ''checksum='' @ hex_digits 16 (unat (hd_checksum h)), ''clean_sequence='' @ show_u64 (hd_clean_sequence h)]"

definition head_encode :: "Head \<Rightarrow> string" where
  "head_encode h = concat (map (\<lambda>l. l @ [newline]) (head_lines h))"

text \<open>\<^verbatim>\<open>str::lines\<close>: split at newlines, drop a last empty piece, strip one carriage return.\<close>

definition strip_cr :: "string \<Rightarrow> string" where
  "strip_cr l = (if l \<noteq> [] \<and> last l = CHR 0x0D then butlast l else l)"

definition text_lines :: "string \<Rightarrow> string list" where
  "text_lines t =
     (let ls = split_on newline t in map strip_cr (if last ls = [] then butlast ls else ls))"

definition valid_broker :: "string \<Rightarrow> bool" where
  "valid_broker v \<longleftrightarrow> v \<noteq> [] \<and> length v \<le> 96 \<and>
     (\<forall>c \<in> set v. CHR ''0'' \<le> c \<and> c \<le> CHR ''9'' \<or> CHR ''A'' \<le> c \<and> c \<le> CHR ''Z'' \<or>
        CHR ''a'' \<le> c \<and> c \<le> CHR ''z'' \<or> c \<in> set ''._-'')"

text \<open>The next line without its prefix, and the lines after it.\<close>

definition head_field :: "string \<Rightarrow> string list \<Rightarrow> (string \<times> string list) result" where
  "head_field pre ls =
     (case ls of
        [] \<Rightarrow> Inl ''missing or malformed recovery head field''
      | l # rest \<Rightarrow>
          (case strip_prefix pre l of
             None \<Rightarrow> Inl ''missing or malformed recovery head field''
           | Some v \<Rightarrow> Inr (v, rest)))"

definition head_number :: "string \<Rightarrow> u64 result" where
  "head_number v = (case parse_u64 v of None \<Rightarrow> Inl ''invalid recovery head integer'' | Some n \<Rightarrow> Inr n)"

definition head_consistent :: "Head \<Rightarrow> bool" where
  "head_consistent h \<longleftrightarrow>
     valid_broker (hd_broker h) \<and> hd_offset h \<le> MAX_JOURNAL \<and> hd_clean_sequence h \<le> hd_sequence h \<and>
     (hd_sequence h = 0 \<longrightarrow> h = genesis) \<and> (hd_sequence h > 0 \<longrightarrow> hd_offset h \<noteq> 0) \<and>
     (hd_sequence h > 0 \<longrightarrow> hd_broker h \<noteq> ''none'') \<and>
     (hd_mode h = Clean \<longrightarrow> hd_clean_sequence h = hd_sequence h)"

definition head_parse :: "string \<Rightarrow> Head result" where
  "head_parse text =
     (case text_lines text of
        [] \<Rightarrow> Inl ''invalid recovery head version''
      | v # ls \<Rightarrow>
          if v \<noteq> STATE_VERSION then Inl ''invalid recovery head version''
          else
            rbind (head_field ''mode='' ls) (\<lambda>(m, ls).
            rbind (if m = ''clean'' then Inr Clean else if m = ''dirty'' then Inr Dirty
                   else Inl ''invalid recovery head mode'') (\<lambda>mode.
            rbind (head_field ''broker='' ls) (\<lambda>(broker, ls).
            rbind (head_field ''sequence='' ls) (\<lambda>(s, ls). rbind (head_number s) (\<lambda>sequence.
            rbind (head_field ''offset='' ls) (\<lambda>(s, ls). rbind (head_number s) (\<lambda>offset.
            rbind (head_field ''checksum='' ls) (\<lambda>(s, ls).
            rbind (case parse_hex s of None \<Rightarrow> Inl ''invalid recovery head checksum'' | Some c \<Rightarrow> Inr c) (\<lambda>checksum.
            rbind (head_field ''clean_sequence='' ls) (\<lambda>(s, ls). rbind (head_number s) (\<lambda>clean_sequence.
              let h = \<lparr> hd_mode = mode, hd_broker = broker, hd_sequence = sequence, hd_offset = offset,
                        hd_checksum = checksum, hd_clean_sequence = clean_sequence \<rparr> in
              if ls \<noteq> [] \<or> head_encode h \<noteq> text \<or> \<not> head_consistent h
              then Inl ''noncanonical or inconsistent recovery head'' else Inr h))))))))))))"

section \<open>Scanning the journal\<close>

definition frame_kind_field :: "bytes \<Rightarrow> nat" where "frame_kind_field bs = from_be (take 2 (drop 6 bs))"

text \<open>The first frame of a byte string, which must carry the given sequence number and link.\<close>

definition parse_frame :: "u64 \<Rightarrow> u64 \<Rightarrow> bytes \<Rightarrow> Frame result" where
  "parse_frame sequence previous bs =
     (if length bs < HEADER_LEN + TRAILER_LEN \<or> take 4 bs \<noteq> FRAME_MAGIC
      then Inl ''truncated or invalid recovery frame''
      else rbind (kind_decode (frame_kind_field bs)) (\<lambda>kind.
        let len = from_be (take 4 (drop 24 bs)) in
        if from_be (take 2 (drop 4 bs)) \<noteq> FORMAT_VERSION \<or> len = 0 \<or> MAX_PAYLOAD < len
        then Inl ''invalid recovery frame version or length''
        else if length bs < HEADER_LEN + len + TRAILER_LEN then Inl ''truncated recovery frame payload''
        else if sequence = u64_max then Inl ''recovery sequence overflow''
        else if from_be (take 8 (drop 8 bs)) \<noteq> unat (sequence + 1) \<or> from_be (take 8 (drop 16 bs)) \<noteq> unat previous
        then Inl ''recovery frame sequence or chain mismatch''
        else
          let at_sum = HEADER_LEN + len; checksum = from_be (take 8 (drop at_sum bs)) in
          if take 4 (drop (at_sum + 8) bs) \<noteq> END_MAGIC \<or> checksum \<noteq> unat (crc64 (take at_sum bs))
          then Inl ''recovery frame checksum or terminator mismatch''
          else Inr \<lparr> fr_kind = kind, fr_sequence = sequence + 1, fr_previous = previous,
                     fr_payload = take len (drop HEADER_LEN bs), fr_checksum = of_nat checksum \<rparr>))"

function scan_frames :: "u64 \<Rightarrow> u64 \<Rightarrow> bytes \<Rightarrow> (Frame list \<times> u64 \<times> u64) result" where
  "scan_frames sequence previous bs =
     (if bs = [] then Inr ([], sequence, previous)
      else case parse_frame sequence previous bs of
        Inl e \<Rightarrow> Inl e
      | Inr f \<Rightarrow>
          rbind (scan_frames (fr_sequence f) (fr_checksum f) (drop (encoded_len f) bs)) (\<lambda>(fs, s, p). Inr (f # fs, s, p)))"
  by pat_completeness auto

termination
  by (relation "measure (\<lambda>(s, p, bs). length bs)") (auto simp: encoded_len_def HEADER_LEN_def)

declare scan_frames.simps [simp del]

definition parse_frames :: "bytes \<Rightarrow> Head \<Rightarrow> Frame list result" where
  "parse_frames bs h =
     (if length bs \<noteq> unat (hd_offset h) \<or> MAX_JOURNAL < hd_offset h
      then Inl ''journal length does not match durable head''
      else rbind (scan_frames 0 0 bs) (\<lambda>(fs, sequence, previous).
        if sequence \<noteq> hd_sequence h \<or> previous \<noteq> hd_checksum h then Inl ''journal frames do not match durable head''
        else if hd_clean_sequence h \<noteq> 0 \<and>
          (length fs < unat (hd_clean_sequence h) \<or> fr_kind (fs ! (unat (hd_clean_sequence h) - 1)) \<noteq> KCleanCheckpoint)
        then Inl ''referenced clean checkpoint is absent''
        else if hd_mode h = Clean \<and> sequence \<noteq> 0 \<and> (fs = [] \<or> fr_kind (last fs) \<noteq> KCleanCheckpoint)
        then Inl ''clean head is not a clean checkpoint''
        else Inr fs))"

section \<open>The two files and the kernel\<close>

record disk =
  dk_journal :: bytes
  dk_state :: string

text \<open>
  What the kernel answers while files are checked: opening a path as a private file, the inode behind
  a path and behind the descriptor opened at the start, link counts, and reads that fail.
\<close>

record journal_os =
  jo_open :: "string \<Rightarrow> unit result"
  jo_entry :: "string \<Rightarrow> (u64 \<times> u64) result"
  jo_pinned :: "string \<Rightarrow> (u64 \<times> u64) result"
  jo_nlink :: "string \<Rightarrow> u64 result"
  jo_read :: "string \<Rightarrow> unit result"

record AnchoredJournal =
  aj_journal_path :: string
  aj_state_path :: string
  aj_journal_identity :: "u64 \<times> u64"
  aj_state_identity :: "u64 \<times> u64"
  aj_head :: Head
  aj_poisoned :: bool

definition text_bytes :: "string \<Rightarrow> bytes" where "text_bytes s = map of_char s"

definition read_head :: "journal_os \<Rightarrow> string \<Rightarrow> disk \<Rightarrow> Head result" where
  "read_head os path d =
     (if MAX_STATE < length (dk_state d) then Inl ''recovery head exceeds size limit''
      else rbind (jo_read os path) (\<lambda>_.
        if \<not> valid_utf8 (text_bytes (dk_state d)) then Inl ''stream did not contain valid UTF-8''
        else head_parse (dk_state d)))"

text \<open>A disjunction whose operands may fail, evaluated from the left.\<close>

definition or_differs :: "'a result \<Rightarrow> 'a \<Rightarrow> bool result \<Rightarrow> bool result" where
  "or_differs r x rest = rbind r (\<lambda>y. if y \<noteq> x then Inr True else rest)"

definition journal_open ::
  "journal_os \<Rightarrow> string \<Rightarrow> string \<Rightarrow> u64 \<times> u64 \<Rightarrow> u64 \<times> u64 \<Rightarrow> disk \<Rightarrow> AnchoredJournal result" where
  "journal_open os jp sp jid sid d =
     rbind (jo_open os jp) (\<lambda>_. rbind (jo_open os sp) (\<lambda>_.
     rbind (or_differs (jo_entry os jp) jid (or_differs (jo_entry os sp) sid (Inr False))) (\<lambda>bad.
       if bad then Inl ''recovery file inode mismatch''
       else rbind (read_head os sp d) (\<lambda>h.
         if length (dk_journal d) \<noteq> unat (hd_offset h) \<or> MAX_JOURNAL < hd_offset h
         then Inl ''journal length does not match durable head''
         else rbind (jo_read os jp) (\<lambda>_. rbind (parse_frames (dk_journal d) h) (\<lambda>_.
           Inr \<lparr> aj_journal_path = jp, aj_state_path = sp, aj_journal_identity = jid, aj_state_identity = sid,
                 aj_head = h, aj_poisoned = False \<rparr>))))))"

definition verify_inner :: "journal_os \<Rightarrow> AnchoredJournal \<Rightarrow> disk \<Rightarrow> Frame list result" where
  "verify_inner os j d =
     (let jp = aj_journal_path j; sp = aj_state_path j in
      rbind (jo_open os jp) (\<lambda>_. rbind (jo_open os sp) (\<lambda>_.
      rbind (or_differs (jo_entry os jp) (aj_journal_identity j)
            (or_differs (jo_pinned os jp) (aj_journal_identity j)
            (or_differs (jo_entry os sp) (aj_state_identity j)
            (or_differs (jo_pinned os sp) (aj_state_identity j)
            (or_differs (jo_nlink os jp) 1 (or_differs (jo_nlink os sp) 1 (Inr False))))))) (\<lambda>bad.
        if bad then Inl ''pinned recovery file replaced or unlinked''
        else rbind (read_head os sp d) (\<lambda>h.
          if h \<noteq> aj_head j \<or> length (dk_journal d) \<noteq> unat (hd_offset (aj_head j))
          then Inl ''recovery head or journal changed''
          else rbind (jo_read os jp) (\<lambda>_. parse_frames (dk_journal d) (aj_head j)))))))"

definition journal_verify :: "journal_os \<Rightarrow> AnchoredJournal \<Rightarrow> disk \<Rightarrow> Frame list result \<times> AnchoredJournal" where
  "journal_verify os j d =
     (if aj_poisoned j then (Inl ''recovery journal poisoned'', j)
      else case verify_inner os j d of
        Inl e \<Rightarrow> (Inl e, j\<lparr> aj_poisoned := True \<rparr>)
      | Inr fs \<Rightarrow> (Inr fs, j))"

section \<open>Appending\<close>

datatype WriteStage =
    BeforeJournalWrite | AfterPartialJournalWrite | BeforeJournalSync | AfterJournalSync | AfterHeadTruncate
  | BeforeHeadSync | AfterHeadSync

datatype WriteCall = WriteHeader | WritePayload | WriteHead

text \<open>
  The kernel during an append: the test hook, seeks, the number of bytes after which a write failed
  (\<open>None\<close> when it wrote everything), the truncation and the two synchronisations.
\<close>

record append_io =
  ai_hook :: "WriteStage \<Rightarrow> unit result"
  ai_seek :: "bool \<Rightarrow> unit result"
  ai_write :: "WriteCall \<Rightarrow> nat option"
  ai_truncate :: "unit result"
  ai_sync :: "bool \<Rightarrow> unit result"

type_synonym disk_run = "unit result \<times> disk"

definition then_do :: "disk_run \<Rightarrow> (disk \<Rightarrow> disk_run) \<Rightarrow> disk_run" where
  "then_do r f = (case r of (Inl e, d) \<Rightarrow> (Inl e, d) | (Inr _, d) \<Rightarrow> f d)"

definition write_at :: "nat \<Rightarrow> 'a list \<Rightarrow> 'a list \<Rightarrow> 'a list" where
  "write_at pos new old = take pos old @ new @ drop (pos + length new) old"

definition write_journal :: "append_io \<Rightarrow> WriteCall \<Rightarrow> nat \<Rightarrow> bytes \<Rightarrow> disk \<Rightarrow> disk_run" where
  "write_journal io c pos bs d =
     (case ai_write io c of
        None \<Rightarrow> (Inr (), d\<lparr> dk_journal := write_at pos bs (dk_journal d) \<rparr>)
      | Some n \<Rightarrow> (Inl ''write failed'', d\<lparr> dk_journal := write_at pos (take n bs) (dk_journal d) \<rparr>))"

definition write_state :: "append_io \<Rightarrow> string \<Rightarrow> disk \<Rightarrow> disk_run" where
  "write_state io text d =
     (case ai_write io WriteHead of
        None \<Rightarrow> (Inr (), d\<lparr> dk_state := write_at 0 text (dk_state d) \<rparr>)
      | Some n \<Rightarrow> (Inl ''write failed'', d\<lparr> dk_state := write_at 0 (take n text) (dk_state d) \<rparr>))"

definition write_frame :: "append_io \<Rightarrow> nat \<Rightarrow> bytes \<Rightarrow> string \<Rightarrow> disk \<Rightarrow> disk_run" where
  "write_frame io pos frame text d =
     then_do (ai_seek io True, d) (\<lambda>d.
     then_do (ai_hook io BeforeJournalWrite, d) (\<lambda>d.
     then_do (write_journal io WriteHeader pos (take HEADER_LEN frame) d) (\<lambda>d.
     then_do (ai_hook io AfterPartialJournalWrite, d) (\<lambda>d.
     then_do (write_journal io WritePayload (pos + HEADER_LEN) (drop HEADER_LEN frame) d) (\<lambda>d.
     then_do (ai_hook io BeforeJournalSync, d) (\<lambda>d.
     then_do (ai_sync io True, d) (\<lambda>d.
     then_do (ai_hook io AfterJournalSync, d) (\<lambda>d.
     then_do (ai_truncate io, if isl (ai_truncate io) then d else d\<lparr> dk_state := [] \<rparr>) (\<lambda>d.
     then_do (ai_hook io AfterHeadTruncate, d) (\<lambda>d.
     then_do (ai_seek io False, d) (\<lambda>d.
     then_do (write_state io text d) (\<lambda>d.
     then_do (ai_hook io BeforeHeadSync, d) (\<lambda>d.
     then_do (ai_sync io False, d) (\<lambda>d. (ai_hook io AfterHeadSync, d)))))))))))))))"

definition checkpoint_misplaced :: "bool \<Rightarrow> string \<Rightarrow> Kind \<Rightarrow> Head \<Rightarrow> Frame list \<Rightarrow> bool" where
  "checkpoint_misplaced recovery broker kind h fs \<longleftrightarrow>
     kind \<noteq> KCleanCheckpoint \<or> hd_mode h \<noteq> Dirty \<or> hd_broker h \<noteq> broker \<or>
     fs = [] \<or> fr_kind (last fs) \<noteq> (if recovery then KRecoveryCommit else KBrokerDrained)"

definition next_head :: "bool \<Rightarrow> string \<Rightarrow> u64 \<Rightarrow> u64 \<Rightarrow> Head \<Rightarrow> Head" where
  "next_head clean broker offset checksum h =
     \<lparr> hd_mode = (if clean then Clean else Dirty), hd_broker = broker, hd_sequence = hd_sequence h + 1,
       hd_offset = offset, hd_checksum = checksum,
       hd_clean_sequence = (if clean then hd_sequence h + 1 else hd_clean_sequence h) \<rparr>"

definition commit_frame ::
  "journal_os \<Rightarrow> append_io \<Rightarrow> bytes \<Rightarrow> Head \<Rightarrow> AnchoredJournal \<times> disk \<Rightarrow> Head result \<times> AnchoredJournal \<times> disk" where
  "commit_frame after io frame next_h x =
     (let (j, d) = x in
      case write_frame io (unat (hd_offset (aj_head j))) frame (head_encode next_h) d of
        (Inl e, d) \<Rightarrow> (Inl e, j\<lparr> aj_poisoned := True \<rparr>, d)
      | (Inr _, d) \<Rightarrow>
          (case journal_verify after (j\<lparr> aj_head := next_h \<rparr>) d of
             (Inl e, j) \<Rightarrow> (Inl e, j, d)
           | (Inr _, j) \<Rightarrow> (Inr next_h, j, d)))"

definition append_inner ::
  "journal_os \<Rightarrow> journal_os \<Rightarrow> append_io \<Rightarrow> string \<Rightarrow> Kind \<Rightarrow> bytes \<Rightarrow> bool \<Rightarrow> bool \<Rightarrow>
     AnchoredJournal \<times> disk \<Rightarrow> Head result \<times> AnchoredJournal \<times> disk" where
  "append_inner before after io broker kind payload clean recovery x =
     (let (j, d) = x; h = aj_head j in
      if \<not> valid_broker broker \<or> broker = ''none'' then (Inl ''invalid broker incarnation'', j, d)
      else if hd_mode h = Dirty \<and> hd_broker h \<noteq> broker then (Inl ''dirty head belongs to another broker'', j, d)
      else case journal_verify before j d of
        (Inl e, j) \<Rightarrow> (Inl e, j, d)
      | (Inr fs, j) \<Rightarrow>
          if clean \<and> checkpoint_misplaced recovery broker kind h fs
          then (Inl ''clean checkpoint is not after this broker's drain'', j, d)
          else if hd_sequence h = u64_max then (Inl ''recovery sequence overflow'', j, d)
          else case frame_encode kind (hd_sequence h + 1) (hd_checksum h) payload of
            Inl e \<Rightarrow> (Inl e, j, d)
          | Inr frame \<Rightarrow>
              (case checked_add (hd_offset h) (of_nat (length frame)) of
                 None \<Rightarrow> (Inl ''recovery journal limit reached'', j\<lparr> aj_poisoned := True \<rparr>, d)
               | Some offset \<Rightarrow>
                   if MAX_JOURNAL < offset then (Inl ''recovery journal limit reached'', j\<lparr> aj_poisoned := True \<rparr>, d)
                   else
                     let checksum = of_nat (from_be (take 8 (drop (length frame - TRAILER_LEN) frame)));
                         h' = next_head clean broker offset checksum h in
                     commit_frame after io frame h' (j, d)))"

definition append_dirty ::
  "journal_os \<Rightarrow> journal_os \<Rightarrow> append_io \<Rightarrow> string \<Rightarrow> Kind \<Rightarrow> bytes \<Rightarrow>
     AnchoredJournal \<times> disk \<Rightarrow> Head result \<times> AnchoredJournal \<times> disk" where
  "append_dirty before after io broker kind payload x =
     (if kind \<in> set [KCleanCheckpoint, KRecoveryAudit, KRecoveryCommit]
      then (Inl ''checkpoint or recovery requires its dedicated path'', fst x, snd x)
      else append_inner before after io broker kind payload False False x)"

definition append_clean_after_drain ::
  "journal_os \<Rightarrow> journal_os \<Rightarrow> append_io \<Rightarrow> string \<Rightarrow> bytes \<Rightarrow>
     AnchoredJournal \<times> disk \<Rightarrow> Head result \<times> AnchoredJournal \<times> disk" where
  "append_clean_after_drain before after io broker payload x =
     append_inner before after io broker KCleanCheckpoint payload True False x"

end
