(* ===== verification/RecoveryAudit.thy ===== *)
theory RecoveryAudit
  imports Wire
begin

text \<open>
  The replay of recovery obligations (\<^verbatim>\<open>ddr_recovery_audit.rs\<close>): the durable events of one broker
  incarnation, and the state machine that checks their order and keeps what may still be held. Every
  branch of \<^verbatim>\<open>apply\<close> makes its checks before it writes, so a refused event leaves the state alone and
  the model returns either the error or the next state.
\<close>

section \<open>Identities and events\<close>

text \<open>A process as the kernel saw it born (\<^verbatim>\<open>ddr_process_identity.rs\<close>); \<^verbatim>\<open>i32\<close> is \<^typ>\<open>int\<close>.\<close>

record ProcessBirth =
  pb_pid :: int
  pb_uid :: u32
  pb_gid :: u32
  pb_pid_namespace_dev :: u64
  pb_pid_namespace_ino :: u64
  pb_starttime_ticks :: u64

record Domain =
  do_host :: string
  do_boot :: string
  do_domain :: string
  do_cap_revision :: u64
  do_broker :: string
  do_owner_limit :: u64
  do_total_limit :: u64

datatype Purpose = Immutable | Staging | ProbeOnly

record BackingIdentity =
  bi_owner :: ProcessBirth
  bi_owner_incarnation :: string
  bi_pool_generation :: u64
  bi_object_id :: u64
  bi_resource_generation :: u64
  bi_placement_id :: u64
  bi_binding_id :: u64
  bi_binding_generation :: u64
  bi_owner_lease_id :: u64
  bi_reservation_id :: u64
  bi_bytes :: u64
  bi_memfd_dev :: u64
  bi_memfd_ino :: u64
  bi_memfd_seals :: int
  bi_purpose :: Purpose

record ViewIdentity =
  vi_object_id :: u64
  vi_resource_generation :: u64
  vi_accessor :: ProcessBirth
  vi_accessor_incarnation :: string
  vi_client_id :: u64
  vi_view_id :: u64
  vi_lease_id :: u64
  vi_handoff_id :: u64
  vi_parent_view_id :: "u64 option"
  vi_offset :: u64
  vi_bytes :: u64

record WorkIdentity =
  wi_work_id :: u64
  wi_source_id :: u64
  wi_source_generation :: u64
  wi_target_id :: u64
  wi_target_generation :: u64
  wi_src_offset :: u64
  wi_dst_offset :: u64
  wi_bytes :: u64
  wi_snapshot_version :: string
  wi_evidence_version :: string
  wi_cost_version :: string
  wi_worker_id :: string
  wi_purpose :: Purpose

record DrainSnapshot =
  dr_handlers :: u64
  dr_pending_handoffs :: u64
  dr_retained_backings :: u64
  dr_active_views :: u64
  dr_reservations :: u64
  dr_in_flight :: u64
  dr_potential_holders :: u64

text \<open>Events: those on a backing carry its identifier and generation, those on a view its identifier and lease.\<close>

datatype EventKind =
    BrokerBirth ProcessBirth
  | RegisterIntent BackingIdentity
  | RegisterCommit u64 u64
  | RegisterAbort u64 u64
  | Revoke u64 u64
  | BackingCloseIntent u64 u64
  | BackingCloseDone u64 u64
  | ViewIntent ViewIdentity
  | ViewCommit u64 u64
  | ViewAbort u64 u64
  | ViewCommitUnconfirmed u64 u64
  | ViewNotSent u64 u64
  | ViewPeerTerminated u64 u64
  | ViewCloseIntent u64 u64
  | ViewCloseDone u64 u64
  | WorkIntent WorkIdentity
  | CancelRequest u64
  | WorkDrained u64
  | WorkIoCompleted u64 u64
  | WorkVerified u64 u64 u64
  | PublishIntent u64
  | PublishDone u64 u32
  | PublishAbort u64
  | PeerTerminated ProcessBirth
  | BrokerDrained DrainSnapshot
  | CleanCheckpoint DrainSnapshot

record Event =
  au_domain :: Domain
  au_epoch :: u64
  au_kind :: EventKind

section \<open>The replay state\<close>

datatype BackingState = BProvisional | BActive | BPending | BPublishing | BRetired | BClosing | BClosed

datatype ViewState = VIntent | VActive | VPossiblyExposed | VClosing | VClosed | VNotSent

record Backing =
  ba_identity :: BackingIdentity
  ba_state :: BackingState
  ba_publishing_work :: "u64 option"

record View =
  vw_identity :: ViewIdentity
  vw_state :: ViewState

record Work =
  wk_identity :: WorkIdentity
  wk_cancelled :: bool
  wk_drained :: bool
  wk_verified :: bool
  wk_io_completed :: bool

record AuditReplay =
  ar_domain :: Domain
  ar_epoch :: u64
  ar_broker_birth :: "ProcessBirth option"
  ar_backings :: "(u64, Backing) btreemap"
  ar_views :: "(u64, View) btreemap"
  ar_works :: "(u64, Work) btreemap"
  ar_terminated :: "ProcessBirth list"
  ar_drained :: bool
  ar_drained_snapshot :: "DrainSnapshot option"
  ar_checkpointed :: bool

definition backings :: "AuditReplay \<Rightarrow> Backing list" where "backings st = map snd (ar_backings st)"

definition views :: "AuditReplay \<Rightarrow> View list" where "views st = map snd (ar_views st)"

definition works :: "AuditReplay \<Rightarrow> Work list" where "works st = map snd (ar_works st)"

section \<open>Validity\<close>

definition is_alnum :: "char \<Rightarrow> bool" where
  "is_alnum c \<longleftrightarrow> CHR ''0'' \<le> c \<and> c \<le> CHR ''9'' \<or> CHR ''A'' \<le> c \<and> c \<le> CHR ''Z'' \<or> CHR ''a'' \<le> c \<and> c \<le> CHR ''z''"

definition valid_name :: "string \<Rightarrow> bool" where
  "valid_name v \<longleftrightarrow> v \<noteq> [] \<and> length v \<le> 96 \<and> (\<forall>c \<in> set v. is_alnum c \<or> c \<in> set ''._-'')"

definition valid_birth :: "ProcessBirth \<Rightarrow> bool" where
  "valid_birth b \<longleftrightarrow> 0 < pb_pid b \<and> pb_pid_namespace_ino b \<noteq> 0 \<and> pb_starttime_ticks b \<noteq> 0"

definition in_range :: "u64 \<Rightarrow> u64 \<Rightarrow> u64 \<Rightarrow> bool" where
  "in_range off n bound \<longleftrightarrow> n \<noteq> 0 \<and> (case checked_add off n of Some e \<Rightarrow> e \<le> bound | None \<Rightarrow> False)"

definition audit_new :: "Domain \<Rightarrow> AuditReplay result" where
  "audit_new d =
     (if \<not> valid_name (do_host d) \<or> \<not> valid_name (do_boot d) \<or> \<not> valid_name (do_domain d) \<or>
         \<not> valid_name (do_broker d) \<or> do_cap_revision d = 0 \<or> do_owner_limit d = 0 \<or>
         do_total_limit d < do_owner_limit d
      then Inl ''invalid audit domain''
      else Inr \<lparr> ar_domain = d, ar_epoch = 0, ar_broker_birth = None, ar_backings = [], ar_views = [],
                 ar_works = [], ar_terminated = [], ar_drained = False, ar_drained_snapshot = None,
                 ar_checkpointed = False \<rparr>)"

section \<open>Lookups and projections\<close>

definition backing :: "u64 \<Rightarrow> u64 \<Rightarrow> AuditReplay \<Rightarrow> Backing result" where
  "backing oid gen st =
     (case bt_get (ar_backings st) oid of
        None \<Rightarrow> Inl ''unknown backing''
      | Some b \<Rightarrow> if bi_resource_generation (ba_identity b) \<noteq> gen then Inl ''backing generation mismatch'' else Inr b)"

definition view_mut :: "u64 \<Rightarrow> u64 \<Rightarrow> AuditReplay \<Rightarrow> View result" where
  "view_mut vid lid st =
     (case bt_get (ar_views st) vid of
        None \<Rightarrow> Inl ''unknown view''
      | Some v \<Rightarrow> if vi_lease_id (vw_identity v) \<noteq> lid then Inl ''view lease mismatch'' else Inr v)"

definition work_of :: "u64 \<Rightarrow> AuditReplay \<Rightarrow> Work result" where
  "work_of wid st = (case bt_get (ar_works st) wid of None \<Rightarrow> Inl ''unknown work'' | Some w \<Rightarrow> Inr w)"

definition charged_bytes :: "AuditReplay \<Rightarrow> u64" where
  "charged_bytes st = sum_list (map (bi_bytes \<circ> ba_identity) (filter (\<lambda>b. ba_state b \<noteq> BClosed) (backings st)))"

definition owner_charged :: "string \<Rightarrow> AuditReplay \<Rightarrow> u64" where
  "owner_charged owner st = sum_list (map (bi_bytes \<circ> ba_identity)
     (filter (\<lambda>b. ba_state b \<noteq> BClosed \<and> bi_owner_incarnation (ba_identity b) = owner) (backings st)))"

definition add_new :: "'a list \<Rightarrow> 'a list \<Rightarrow> 'a list" where
  "add_new xs acc = fold (\<lambda>x acc. if x \<in> set acc then acc else acc @ [x]) xs acc"

definition view_resolved :: "View \<Rightarrow> bool" where
  "view_resolved v \<longleftrightarrow> vw_state v = VClosed \<or> vw_state v = VNotSent"

definition unresolved_holders :: "AuditReplay \<Rightarrow> ProcessBirth list" where
  "unresolved_holders st =
     add_new (ar_terminated st)
       (add_new (map (vi_accessor \<circ> vw_identity) (filter (\<lambda>v. \<not> view_resolved v) (views st)))
          (add_new (map (bi_owner \<circ> ba_identity) (filter (\<lambda>b. ba_state b \<noteq> BClosed) (backings st))) []))"

definition active_work :: "AuditReplay \<Rightarrow> nat" where
  "active_work st = length (filter (\<lambda>w. \<not> wk_drained w) (works st))"

definition observed_drain :: "u64 \<Rightarrow> u64 \<Rightarrow> AuditReplay \<Rightarrow> DrainSnapshot" where
  "observed_drain handlers reservations st =
     \<lparr> dr_handlers = handlers,
       dr_pending_handoffs = of_nat (length (filter (\<lambda>b. ba_state b = BProvisional) (backings st))) +
         of_nat (length (filter (\<lambda>v. vw_state v = VIntent) (views st))),
       dr_retained_backings = of_nat (length (filter (\<lambda>b. ba_state b \<noteq> BClosed) (backings st))),
       dr_active_views = of_nat (length (filter (\<lambda>v. vw_state v = VActive \<or> vw_state v = VClosing) (views st))),
       dr_reservations = reservations,
       dr_in_flight = of_nat (active_work st),
       dr_potential_holders = of_nat (length (unresolved_holders st)) \<rparr>"

definition unresolved_use :: "u64 \<Rightarrow> AuditReplay \<Rightarrow> bool" where
  "unresolved_use oid st \<longleftrightarrow>
     list_ex (\<lambda>v. vi_object_id (vw_identity v) = oid \<and> \<not> view_resolved v) (views st) \<or>
     list_ex (\<lambda>w. \<not> wk_drained w \<and> (wi_source_id (wk_identity w) = oid \<or> wi_target_id (wk_identity w) = oid)) (works st)"

definition backing_can_close :: "u64 \<Rightarrow> u64 \<Rightarrow> AuditReplay \<Rightarrow> bool" where
  "backing_can_close oid gen st \<longleftrightarrow>
     (case backing oid gen st of Inr b \<Rightarrow> ba_state b = BRetired | Inl _ \<Rightarrow> False) \<and> \<not> unresolved_use oid st"

section \<open>Events on backings\<close>

definition set_backing :: "u64 \<Rightarrow> (Backing \<Rightarrow> Backing) \<Rightarrow> AuditReplay \<Rightarrow> AuditReplay" where
  "set_backing oid f st = st\<lparr> ar_backings := bt_modify oid f (ar_backings st) \<rparr>"

definition backing_state :: "BackingState \<Rightarrow> Backing \<Rightarrow> Backing" where
  "backing_state s b = b\<lparr> ba_state := s \<rparr>"

definition broker_birth :: "u64 \<Rightarrow> ProcessBirth \<Rightarrow> AuditReplay \<Rightarrow> AuditReplay result" where
  "broker_birth epoch birth st =
     (if \<not> valid_birth birth \<or> ar_broker_birth st \<noteq> None \<or> epoch \<noteq> 0 \<or> ar_backings st \<noteq> [] \<or>
         ar_views st \<noteq> [] \<or> ar_works st \<noteq> [] \<or> ar_terminated st \<noteq> []
      then Inl ''invalid or late broker birth''
      else Inr (st\<lparr> ar_broker_birth := Some birth \<rparr>))"

definition reuses_backing :: "BackingIdentity \<Rightarrow> Backing \<Rightarrow> bool" where
  "reuses_backing i b \<longleftrightarrow>
     (let x = ba_identity b in
      bi_reservation_id x = bi_reservation_id i \<or> bi_placement_id x = bi_placement_id i \<or>
      bi_binding_id x = bi_binding_id i \<or> bi_owner_lease_id x = bi_owner_lease_id i \<or>
      ba_state b \<noteq> BClosed \<and> bi_memfd_dev x = bi_memfd_dev i \<and> bi_memfd_ino x = bi_memfd_ino i)"

definition foreign_pool :: "BackingIdentity \<Rightarrow> Backing \<Rightarrow> bool" where
  "foreign_pool i b \<longleftrightarrow>
     (let x = ba_identity b in
      bi_owner_incarnation x = bi_owner_incarnation i \<and>
        (bi_owner x \<noteq> bi_owner i \<or> bi_pool_generation x \<noteq> bi_pool_generation i) \<or>
      bi_owner_incarnation x \<noteq> bi_owner_incarnation i \<and> bi_pool_generation x = bi_pool_generation i)"

definition register_intent :: "BackingIdentity \<Rightarrow> AuditReplay \<Rightarrow> AuditReplay result" where
  "register_intent i st =
     (if \<not> valid_birth (bi_owner i) \<or> \<not> valid_name (bi_owner_incarnation i) \<or> bi_pool_generation i = 0 \<or>
         bi_object_id i = 0 \<or> bi_resource_generation i = 0 \<or> bi_placement_id i = 0 \<or> bi_binding_id i = 0 \<or>
         bi_binding_generation i = 0 \<or> bi_owner_lease_id i = 0 \<or> bi_reservation_id i = 0 \<or> bi_bytes i = 0 \<or>
         bi_memfd_ino i = 0 \<or> bt_get (ar_backings st) (bi_object_id i) \<noteq> None \<or> bi_owner i \<in> set (ar_terminated st)
      then Inl ''invalid or duplicate backing intent''
      else if list_ex (reuses_backing i) (backings st) then Inl ''backing identity or reservation reused''
      else if list_ex (foreign_pool i) (backings st) then Inl ''owner incarnation or pool identity mismatch''
      else case checked_add (charged_bytes st) (bi_bytes i) of
        None \<Rightarrow> Inl ''total overflow''
      | Some sum_total \<Rightarrow>
          (case checked_add (owner_charged (bi_owner_incarnation i) st) (bi_bytes i) of
             None \<Rightarrow> Inl ''owner overflow''
           | Some owner_total \<Rightarrow>
               if do_total_limit (ar_domain st) < sum_total \<or> do_owner_limit (ar_domain st) < owner_total
               then Inl ''audit budget exceeded''
               else Inr (st\<lparr> ar_backings := bt_insert (bi_object_id i)
                      \<lparr> ba_identity = i, ba_state = BProvisional, ba_publishing_work = None \<rparr> (ar_backings st) \<rparr>)))"

definition register_commit :: "u64 \<Rightarrow> u64 \<Rightarrow> AuditReplay \<Rightarrow> AuditReplay result" where
  "register_commit oid gen st =
     rbind (backing oid gen st) (\<lambda>b.
       if bi_owner (ba_identity b) \<in> set (ar_terminated st) then Inl ''registration owner terminated''
       else if ba_state b \<noteq> BProvisional then Inl ''invalid registration commit''
       else Inr (set_backing oid (backing_state (if bi_purpose (ba_identity b) = Immutable then BActive else BPending)) st))"

text \<open>The other events on one backing move it from an expected state to the next.\<close>

definition move_backing ::
  "u64 \<Rightarrow> u64 \<Rightarrow> BackingState list \<Rightarrow> BackingState \<Rightarrow> string \<Rightarrow> AuditReplay \<Rightarrow> AuditReplay result" where
  "move_backing oid gen from to complaint st =
     rbind (backing oid gen st) (\<lambda>b.
       if ba_state b \<notin> set from then Inl complaint else Inr (set_backing oid (backing_state to) st))"

definition register_abort :: "u64 \<Rightarrow> u64 \<Rightarrow> AuditReplay \<Rightarrow> AuditReplay result" where
  "register_abort oid gen = move_backing oid gen [BProvisional] BRetired ''invalid registration abort''"

definition revoke :: "u64 \<Rightarrow> u64 \<Rightarrow> AuditReplay \<Rightarrow> AuditReplay result" where
  "revoke oid gen = move_backing oid gen [BActive, BPending] BRetired ''invalid revoke''"

definition backing_close_intent :: "u64 \<Rightarrow> u64 \<Rightarrow> AuditReplay \<Rightarrow> AuditReplay result" where
  "backing_close_intent oid gen = move_backing oid gen [BRetired] BClosing ''invalid backing close intent''"

definition backing_close_done :: "u64 \<Rightarrow> u64 \<Rightarrow> AuditReplay \<Rightarrow> AuditReplay result" where
  "backing_close_done oid gen st =
     (if unresolved_use oid st then Inl ''backing has unresolved views or work''
      else move_backing oid gen [BClosing] BClosed ''missing backing close intent'' st)"

section \<open>Events on views\<close>

definition duplicate_view :: "ViewIdentity \<Rightarrow> View \<Rightarrow> bool" where
  "duplicate_view i v \<longleftrightarrow> vi_lease_id (vw_identity v) = vi_lease_id i \<or> vi_handoff_id (vw_identity v) = vi_handoff_id i"

definition foreign_client :: "ViewIdentity \<Rightarrow> View \<Rightarrow> bool" where
  "foreign_client i v \<longleftrightarrow>
     (let x = vw_identity v in
      vi_client_id x = vi_client_id i \<and>
        (vi_accessor x \<noteq> vi_accessor i \<or> vi_accessor_incarnation x \<noteq> vi_accessor_incarnation i) \<or>
      vi_accessor_incarnation x = vi_accessor_incarnation i \<and>
        (vi_accessor x \<noteq> vi_accessor i \<or> vi_client_id x \<noteq> vi_client_id i))"

definition bad_parent :: "ViewIdentity \<Rightarrow> View \<Rightarrow> bool" where
  "bad_parent i parent \<longleftrightarrow>
     (let v = vw_identity parent in
      vw_state parent \<noteq> VActive \<or> vi_object_id v \<noteq> vi_object_id i \<or>
      vi_resource_generation v \<noteq> vi_resource_generation i \<or> vi_accessor v \<noteq> vi_accessor i \<or>
      vi_client_id v \<noteq> vi_client_id i \<or> vi_accessor_incarnation v \<noteq> vi_accessor_incarnation i \<or>
      vi_offset i < vi_offset v \<or>
      (case checked_add (vi_offset i) (vi_bytes i) of None \<Rightarrow> True | Some e \<Rightarrow> vi_offset v + vi_bytes v < e))"

definition view_intent :: "ViewIdentity \<Rightarrow> AuditReplay \<Rightarrow> AuditReplay result" where
  "view_intent i st =
     (if \<not> valid_birth (vi_accessor i) \<or> \<not> valid_name (vi_accessor_incarnation i) \<or> vi_client_id i = 0 \<or>
         vi_view_id i = 0 \<or> vi_lease_id i = 0 \<or> vi_handoff_id i = 0 \<or> bt_get (ar_views st) (vi_view_id i) \<noteq> None \<or>
         list_ex (duplicate_view i) (views st) \<or>
         list_ex (\<lambda>b. bi_owner_lease_id (ba_identity b) = vi_lease_id i) (backings st)
      then Inl ''invalid or duplicate view intent''
      else if list_ex (foreign_client i) (views st) then Inl ''accessor incarnation or client identity mismatch''
      else rbind (backing (vi_object_id i) (vi_resource_generation i) st) (\<lambda>b.
        if ba_state b \<noteq> BActive \<or> bi_owner (ba_identity b) \<in> set (ar_terminated st) \<or>
           vi_accessor i \<in> set (ar_terminated st) \<or> \<not> in_range (vi_offset i) (vi_bytes i) (bi_bytes (ba_identity b))
        then Inl ''view source or range invalid''
        else rbind (case vi_parent_view_id i of
                      None \<Rightarrow> Inr ()
                    | Some pid \<Rightarrow>
                        (case bt_get (ar_views st) pid of
                           None \<Rightarrow> Inl ''missing parent view''
                         | Some parent \<Rightarrow> if bad_parent i parent then Inl ''invalid parent view'' else Inr ())) (\<lambda>_.
          Inr (st\<lparr> ar_views := bt_insert (vi_view_id i) \<lparr> vw_identity = i, vw_state = VIntent \<rparr> (ar_views st) \<rparr>))))"

definition set_view :: "u64 \<Rightarrow> ViewState \<Rightarrow> AuditReplay \<Rightarrow> AuditReplay" where
  "set_view vid s st = st\<lparr> ar_views := bt_modify vid (\<lambda>v. v\<lparr> vw_state := s \<rparr>) (ar_views st) \<rparr>"

definition move_view ::
  "u64 \<Rightarrow> u64 \<Rightarrow> ViewState list \<Rightarrow> ViewState \<Rightarrow> string \<Rightarrow> AuditReplay \<Rightarrow> AuditReplay result" where
  "move_view vid lid from to complaint st =
     rbind (view_mut vid lid st) (\<lambda>v. if vw_state v \<notin> set from then Inl complaint else Inr (set_view vid to st))"

definition view_commit :: "u64 \<Rightarrow> u64 \<Rightarrow> AuditReplay \<Rightarrow> AuditReplay result" where
  "view_commit vid lid st =
     (case bt_get (ar_views st) vid of
        None \<Rightarrow> Inl ''unknown view''
      | Some v \<Rightarrow>
          rbind (backing (vi_object_id (vw_identity v)) (vi_resource_generation (vw_identity v)) st) (\<lambda>b.
            if vi_lease_id (vw_identity v) \<noteq> lid \<or> ba_state b \<noteq> BActive \<or>
               bi_owner (ba_identity b) \<in> set (ar_terminated st) \<or> vi_accessor (vw_identity v) \<in> set (ar_terminated st)
            then Inl ''view source retired or lease mismatched''
            else move_view vid lid [VIntent] VActive ''invalid view commit'' st))"

definition view_abort :: "u64 \<Rightarrow> u64 \<Rightarrow> AuditReplay \<Rightarrow> AuditReplay result" where
  "view_abort vid lid = move_view vid lid [VIntent] VPossiblyExposed ''invalid view abort''"

definition view_commit_unconfirmed :: "u64 \<Rightarrow> u64 \<Rightarrow> AuditReplay \<Rightarrow> AuditReplay result" where
  "view_commit_unconfirmed vid lid = move_view vid lid [VActive] VPossiblyExposed ''view was not committed''"

definition view_not_sent :: "u64 \<Rightarrow> u64 \<Rightarrow> AuditReplay \<Rightarrow> AuditReplay result" where
  "view_not_sent vid lid = move_view vid lid [VIntent] VNotSent ''not-sent proof is too late''"

definition view_peer_terminated :: "u64 \<Rightarrow> u64 \<Rightarrow> AuditReplay \<Rightarrow> AuditReplay result" where
  "view_peer_terminated vid lid st =
     (case bt_get (ar_views st) vid of
        None \<Rightarrow> Inl ''unknown view''
      | Some v \<Rightarrow>
          if vi_accessor (vw_identity v) \<notin> set (ar_terminated st) then Inl ''view accessor termination was not observed''
          else move_view vid lid [VIntent, VActive] VPossiblyExposed ''terminated view is not live'' st)"

definition view_close_intent :: "u64 \<Rightarrow> u64 \<Rightarrow> AuditReplay \<Rightarrow> AuditReplay result" where
  "view_close_intent vid lid = move_view vid lid [VActive] VClosing ''view has no committed release''"

definition view_close_done :: "u64 \<Rightarrow> u64 \<Rightarrow> AuditReplay \<Rightarrow> AuditReplay result" where
  "view_close_done vid lid = move_view vid lid [VClosing] VClosed ''missing view close intent''"

section \<open>Events on work\<close>

definition set_work :: "u64 \<Rightarrow> (Work \<Rightarrow> Work) \<Rightarrow> AuditReplay \<Rightarrow> AuditReplay" where
  "set_work wid f st = st\<lparr> ar_works := bt_modify wid f (ar_works st) \<rparr>"

definition memfd :: "Backing \<Rightarrow> u64 \<times> u64" where
  "memfd b = (bi_memfd_dev (ba_identity b), bi_memfd_ino (ba_identity b))"

definition work_intent :: "WorkIdentity \<Rightarrow> AuditReplay \<Rightarrow> AuditReplay result" where
  "work_intent i st =
     (if wi_work_id i = 0 \<or> bt_get (ar_works st) (wi_work_id i) \<noteq> None \<or> \<not> valid_name (wi_worker_id i) \<or>
         \<not> valid_name (wi_snapshot_version i) \<or> \<not> valid_name (wi_evidence_version i) \<or>
         \<not> valid_name (wi_cost_version i) \<or> \<not> (wi_purpose i = Staging \<or> wi_purpose i = ProbeOnly) \<or>
         wi_source_id i = wi_target_id i
      then Inl ''invalid work identity''
      else
        rbind (backing (wi_source_id i) (wi_source_generation i) st) (\<lambda>s.
        rbind (backing (wi_target_id i) (wi_target_generation i) st) (\<lambda>t.
          if ba_state s \<noteq> BActive \<or> ba_state t \<noteq> BPending \<or> bi_purpose (ba_identity t) \<noteq> wi_purpose i \<or>
             bi_owner (ba_identity s) \<in> set (ar_terminated st) \<or> bi_owner (ba_identity t) \<in> set (ar_terminated st) \<or>
             memfd s = memfd t \<or>
             \<not> in_range (wi_src_offset i) (wi_bytes i) (bi_bytes (ba_identity s)) \<or>
             \<not> in_range (wi_dst_offset i) (wi_bytes i) (bi_bytes (ba_identity t)) \<or>
             list_ex (\<lambda>w. wi_target_id (wk_identity w) = wi_target_id i) (works st)
          then Inl ''invalid source, target, range or exclusive writer''
          else Inr (st\<lparr> ar_works := bt_insert (wi_work_id i)
                 \<lparr> wk_identity = i, wk_cancelled = False, wk_drained = False, wk_verified = False,
                   wk_io_completed = False \<rparr> (ar_works st) \<rparr>))))"

definition cancel_request :: "u64 \<Rightarrow> AuditReplay \<Rightarrow> AuditReplay result" where
  "cancel_request wid st = rbind (work_of wid st) (\<lambda>_. Inr (set_work wid (\<lambda>w. w\<lparr> wk_cancelled := True \<rparr>) st))"

definition work_drained :: "u64 \<Rightarrow> AuditReplay \<Rightarrow> AuditReplay result" where
  "work_drained wid st =
     rbind (work_of wid st) (\<lambda>w.
       if wk_drained w then Inl ''duplicate work drain''
       else Inr (set_work wid (\<lambda>w. w\<lparr> wk_drained := True \<rparr>) st))"

text \<open>Both ends of a work are live: the source active, the target in the given state, no owner terminated.\<close>

definition ends_live :: "Work \<Rightarrow> BackingState \<Rightarrow> AuditReplay \<Rightarrow> bool result" where
  "ends_live w target_state st =
     rbind (backing (wi_source_id (wk_identity w)) (wi_source_generation (wk_identity w)) st) (\<lambda>s.
     rbind (backing (wi_target_id (wk_identity w)) (wi_target_generation (wk_identity w)) st) (\<lambda>t.
       Inr (ba_state s = BActive \<and> ba_state t = target_state \<and>
            bi_owner (ba_identity s) \<notin> set (ar_terminated st) \<and> bi_owner (ba_identity t) \<notin> set (ar_terminated st))))"

definition work_io_completed :: "u64 \<Rightarrow> u64 \<Rightarrow> AuditReplay \<Rightarrow> AuditReplay result" where
  "work_io_completed wid copied st =
     rbind (work_of wid st) (\<lambda>w. rbind (ends_live w BPending st) (\<lambda>live.
       if \<not> wk_drained w \<or> wk_cancelled w \<or> wk_io_completed w \<or> copied \<noteq> wi_bytes (wk_identity w) \<or> \<not> live
       then Inl ''work is not eligible for I/O completion''
       else Inr (set_work wid (\<lambda>w. w\<lparr> wk_io_completed := True \<rparr>) st)))"

definition work_verified :: "u64 \<Rightarrow> u64 \<Rightarrow> u64 \<Rightarrow> AuditReplay \<Rightarrow> AuditReplay result" where
  "work_verified wid copied verified st =
     rbind (work_of wid st) (\<lambda>w. rbind (ends_live w BPending st) (\<lambda>live.
       if \<not> wk_drained w \<or> wk_cancelled w \<or> wk_verified w \<or> copied \<noteq> wi_bytes (wk_identity w) \<or>
          verified \<noteq> wi_bytes (wk_identity w) \<or> \<not> live
       then Inl ''work is not eligible for verified completion''
       else Inr (set_work wid (\<lambda>w. w\<lparr> wk_verified := True \<rparr>) st)))"

definition may_publish :: "Work \<Rightarrow> bool" where
  "may_publish w \<longleftrightarrow> wk_drained w \<and> (wk_verified w \<or> wk_io_completed w) \<and> \<not> wk_cancelled w \<and>
     wi_purpose (wk_identity w) = Staging"

definition publish_intent :: "u64 \<Rightarrow> AuditReplay \<Rightarrow> AuditReplay result" where
  "publish_intent wid st =
     rbind (work_of wid st) (\<lambda>w.
       if \<not> may_publish w then Inl ''work cannot publish''
       else rbind (ends_live w BPending st) (\<lambda>live.
         if \<not> live then Inl ''publication identities became stale''
         else Inr (set_backing (wi_target_id (wk_identity w))
                (\<lambda>b. b\<lparr> ba_state := BPublishing, ba_publishing_work := Some wid \<rparr>) st)))"

text \<open>\<^verbatim>\<open>F_SEAL_SEAL | F_SEAL_SHRINK | F_SEAL_GROW | F_SEAL_WRITE\<close> are the bits 1, 2, 4 and 8.\<close>

definition required_seals :: u32 where "required_seals = 15"

definition publish_done :: "u64 \<Rightarrow> u32 \<Rightarrow> AuditReplay \<Rightarrow> AuditReplay result" where
  "publish_done wid seals st =
     rbind (work_of wid st) (\<lambda>w.
       if \<not> may_publish w then Inl ''work cannot finish publication''
       else if and seals required_seals \<noteq> required_seals then Inl ''published target is not fully sealed''
       else rbind (ends_live w BPublishing st) (\<lambda>live.
            rbind (backing (wi_target_id (wk_identity w)) (wi_target_generation (wk_identity w)) st) (\<lambda>t.
         if \<not> live \<or> ba_publishing_work t \<noteq> Some wid then Inl ''publication identities became stale''
         else Inr (set_backing (wi_target_id (wk_identity w))
                (\<lambda>b. b\<lparr> ba_state := BActive, ba_publishing_work := None \<rparr>) st))))"

definition publish_abort :: "u64 \<Rightarrow> AuditReplay \<Rightarrow> AuditReplay result" where
  "publish_abort wid st =
     rbind (work_of wid st) (\<lambda>w.
     rbind (backing (wi_target_id (wk_identity w)) (wi_target_generation (wk_identity w)) st) (\<lambda>t.
       if ba_state t \<noteq> BPublishing \<or> ba_publishing_work t \<noteq> Some wid
       then Inl ''publication intent missing or belongs to another work''
       else Inr (set_backing (wi_target_id (wk_identity w))
              (\<lambda>b. b\<lparr> ba_state := BPending, ba_publishing_work := None \<rparr>) st)))"

section \<open>Peers, drain and checkpoint\<close>

definition peer_terminated :: "ProcessBirth \<Rightarrow> AuditReplay \<Rightarrow> AuditReplay result" where
  "peer_terminated birth st =
     (if \<not> list_ex (\<lambda>b. bi_owner (ba_identity b) = birth) (backings st) \<and>
         \<not> list_ex (\<lambda>v. vi_accessor (vw_identity v) = birth) (views st)
      then Inl ''unknown terminated peer birth''
      else Inr (if birth \<in> set (ar_terminated st) then st
                else st\<lparr> ar_terminated := ar_terminated st @ [birth] \<rparr>))"

definition broker_drained :: "DrainSnapshot \<Rightarrow> AuditReplay \<Rightarrow> AuditReplay result" where
  "broker_drained snap st =
     (if snap \<noteq> observed_drain (dr_handlers snap) (dr_reservations snap) st \<or> dr_handlers snap \<noteq> 0 \<or>
         dr_pending_handoffs snap \<noteq> 0 \<or> dr_in_flight snap \<noteq> 0
      then Inl ''broker drain counts mismatch or unfinished work''
      else Inr (st\<lparr> ar_drained := True, ar_drained_snapshot := Some snap \<rparr>))"

definition clean_checkpoint :: "DrainSnapshot \<Rightarrow> AuditReplay \<Rightarrow> AuditReplay result" where
  "clean_checkpoint snap st =
     (if \<not> ar_drained st \<or> ar_drained_snapshot st \<noteq> Some snap \<or> snap \<noteq> observed_drain 0 0 st \<or>
         dr_handlers snap \<noteq> 0 \<or> dr_pending_handoffs snap \<noteq> 0 \<or> dr_retained_backings snap \<noteq> 0 \<or>
         dr_active_views snap \<noteq> 0 \<or> dr_reservations snap \<noteq> 0 \<or> dr_in_flight snap \<noteq> 0 \<or>
         dr_potential_holders snap \<noteq> 0
      then Inl ''clean checkpoint requires a verified zero-obligation drain''
      else Inr (st\<lparr> ar_checkpointed := True \<rparr>))"

section \<open>Applying an event\<close>

fun apply_kind :: "u64 \<Rightarrow> EventKind \<Rightarrow> AuditReplay \<Rightarrow> AuditReplay result" where
  "apply_kind epoch (BrokerBirth b) = broker_birth epoch b"
| "apply_kind epoch (RegisterIntent i) = register_intent i"
| "apply_kind epoch (RegisterCommit oid gen) = register_commit oid gen"
| "apply_kind epoch (RegisterAbort oid gen) = register_abort oid gen"
| "apply_kind epoch (Revoke oid gen) = revoke oid gen"
| "apply_kind epoch (BackingCloseIntent oid gen) = backing_close_intent oid gen"
| "apply_kind epoch (BackingCloseDone oid gen) = backing_close_done oid gen"
| "apply_kind epoch (ViewIntent i) = view_intent i"
| "apply_kind epoch (ViewCommit vid lid) = view_commit vid lid"
| "apply_kind epoch (ViewAbort vid lid) = view_abort vid lid"
| "apply_kind epoch (ViewCommitUnconfirmed vid lid) = view_commit_unconfirmed vid lid"
| "apply_kind epoch (ViewNotSent vid lid) = view_not_sent vid lid"
| "apply_kind epoch (ViewPeerTerminated vid lid) = view_peer_terminated vid lid"
| "apply_kind epoch (ViewCloseIntent vid lid) = view_close_intent vid lid"
| "apply_kind epoch (ViewCloseDone vid lid) = view_close_done vid lid"
| "apply_kind epoch (WorkIntent i) = work_intent i"
| "apply_kind epoch (CancelRequest wid) = cancel_request wid"
| "apply_kind epoch (WorkDrained wid) = work_drained wid"
| "apply_kind epoch (WorkIoCompleted wid copied) = work_io_completed wid copied"
| "apply_kind epoch (WorkVerified wid copied verified) = work_verified wid copied verified"
| "apply_kind epoch (PublishIntent wid) = publish_intent wid"
| "apply_kind epoch (PublishDone wid seals) = publish_done wid seals"
| "apply_kind epoch (PublishAbort wid) = publish_abort wid"
| "apply_kind epoch (PeerTerminated b) = peer_terminated b"
| "apply_kind epoch (BrokerDrained snap) = broker_drained snap"
| "apply_kind epoch (CleanCheckpoint snap) = clean_checkpoint snap"

definition audit_apply :: "Event \<Rightarrow> AuditReplay \<Rightarrow> AuditReplay result" where
  "audit_apply e st =
     (if au_domain e \<noteq> ar_domain st \<or> au_epoch e < ar_epoch st \<or> ar_checkpointed st \<or>
         ar_drained st \<and> (case au_kind e of CleanCheckpoint _ \<Rightarrow> False | _ \<Rightarrow> True)
      then Inl ''audit domain or epoch mismatch''
      else rbind (apply_kind (au_epoch e) (au_kind e) st) (\<lambda>st. Inr (st\<lparr> ar_epoch := au_epoch e \<rparr>)))"

text \<open>A whole journal replayed.\<close>

fun audit_replay :: "Event list \<Rightarrow> AuditReplay \<Rightarrow> AuditReplay result" where
  "audit_replay [] st = Inr st"
| "audit_replay (e # es) st = rbind (audit_apply e st) (audit_replay es)"

end
