(* ===== verification/RecoveryCodec.thy ===== *)
theory RecoveryCodec
  imports Journal RecoveryAudit
begin

text \<open>
  The text of a recovery event (\<^verbatim>\<open>ddr_recovery_codec.rs\<close>): \<^verbatim>\<open>key=value\<close> fields in key order, separated by
  semicolons and ended by a newline. The fields are a \<^verbatim>\<open>BTreeMap\<close>; \<^verbatim>\<open>decode\<close> removes them one by one and
  refuses what is left over. The strings are bytes, so the payload is the text with its characters cast.
\<close>

section \<open>Fields\<close>

type_synonym Fields = "(string, string) btreemap"

definition SCHEMA :: string where "SCHEMA = ''uflow-ddr-audit-event-v1''"

definition token :: "string \<Rightarrow> bool" where
  "token v \<longleftrightarrow> v \<noteq> [] \<and> length v \<le> 96 \<and> (\<forall>c \<in> set v. is_alnum c \<or> c \<in> set ''._-'')"

text \<open>\<^verbatim>\<open>put\<close> asserts that the key is new.\<close>

definition put :: "Fields \<Rightarrow> string \<Rightarrow> string \<Rightarrow> Fields result" where
  "put fs key value =
     (if bt_get fs key = None then Inr (bt_insert key value fs) else Inl ''panic: duplicate audit field'')"

fun put_all :: "Fields \<Rightarrow> (string \<times> string) list \<Rightarrow> Fields result" where
  "put_all fs [] = Inr fs"
| "put_all fs ((k, v) # kvs) = rbind (put fs k v) (\<lambda>fs. put_all fs kvs)"

definition show_u32 :: "u32 \<Rightarrow> string" where "show_u32 w = show_nat (unat w)"

definition put_birth :: "string \<Rightarrow> ProcessBirth \<Rightarrow> (string \<times> string) list" where
  "put_birth pre b =
     [(pre @ ''_pid'', show_int (pb_pid b)), (pre @ ''_uid'', show_u32 (pb_uid b)), (pre @ ''_gid'', show_u32 (pb_gid b)),
      (pre @ ''_pidns_dev'', show_u64 (pb_pid_namespace_dev b)), (pre @ ''_pidns_ino'', show_u64 (pb_pid_namespace_ino b)),
      (pre @ ''_starttime'', show_u64 (pb_starttime_ticks b))]"

fun purpose_name :: "Purpose \<Rightarrow> string" where
  "purpose_name Immutable = ''immutable''"
| "purpose_name Staging = ''staging''"
| "purpose_name ProbeOnly = ''probe_only''"

fun kind_name :: "EventKind \<Rightarrow> string \<times> Kind" where
  "kind_name (BrokerBirth _) = (''broker_birth'', KBrokerBirth)"
| "kind_name (RegisterIntent _) = (''register_intent'', KSessionRegisterIntent)"
| "kind_name (RegisterCommit _ _) = (''register_commit'', KRegisterCommit)"
| "kind_name (RegisterAbort _ _) = (''register_abort'', KAbort)"
| "kind_name (Revoke _ _) = (''revoke'', KRetire)"
| "kind_name (BackingCloseIntent _ _) = (''backing_close_intent'', KCloseIntent)"
| "kind_name (BackingCloseDone _ _) = (''backing_close_done'', KCloseDone)"
| "kind_name (ViewIntent _) = (''view_intent'', KViewIntent)"
| "kind_name (ViewCommit _ _) = (''view_commit'', KViewCommit)"
| "kind_name (ViewAbort _ _) = (''view_abort'', KAbort)"
| "kind_name (ViewCommitUnconfirmed _ _) = (''view_commit_unconfirmed'', KAbort)"
| "kind_name (ViewNotSent _ _) = (''view_not_sent'', KNotSent)"
| "kind_name (ViewPeerTerminated _ _) = (''view_peer_terminated'', KPeerTerminated)"
| "kind_name (ViewCloseIntent _ _) = (''view_close_intent'', KCloseIntent)"
| "kind_name (ViewCloseDone _ _) = (''view_close_done'', KCloseDone)"
| "kind_name (WorkIntent _) = (''work_intent'', KCopyIntent)"
| "kind_name (CancelRequest _) = (''cancel_request'', KCancelRequest)"
| "kind_name (WorkDrained _) = (''work_drained'', KWorkDrained)"
| "kind_name (WorkIoCompleted _ _) = (''work_io_completed'', KWorkIoCompleted)"
| "kind_name (WorkVerified _ _ _) = (''work_verified'', KWorkVerified)"
| "kind_name (PublishIntent _) = (''publish_intent'', KPublishIntent)"
| "kind_name (PublishDone _ _) = (''publish_done'', KPublishDone)"
| "kind_name (PublishAbort _) = (''publish_abort'', KAbort)"
| "kind_name (PeerTerminated _) = (''peer_terminated'', KPeerTerminated)"
| "kind_name (BrokerDrained _) = (''broker_drained'', KBrokerDrained)"
| "kind_name (CleanCheckpoint _) = (''clean_checkpoint'', KCleanCheckpoint)"

definition encode_fields :: "Fields \<Rightarrow> bytes result" where
  "encode_fields fs =
     (if fs = [] \<or> (\<exists>(k, v) \<in> set fs. \<not> token k \<or> \<not> token v) then Inl ''invalid audit event token''
      else
        let text = join '';'' (map (\<lambda>(k, v). k @ ''='' @ v) fs) @ [newline] in
        if 8192 < length text then Inl ''audit event exceeds frame limit'' else Inr (text_bytes text))"

section \<open>The fields of an event, in the order they are put\<close>

definition put_backing :: "BackingIdentity \<Rightarrow> (string \<times> string) list" where
  "put_backing b =
     put_birth ''owner'' (bi_owner b) @
     [(''owner_incarnation'', bi_owner_incarnation b), (''pool_generation'', show_u64 (bi_pool_generation b)),
      (''object_id'', show_u64 (bi_object_id b)), (''resource_generation'', show_u64 (bi_resource_generation b)),
      (''placement_id'', show_u64 (bi_placement_id b)), (''binding_id'', show_u64 (bi_binding_id b)),
      (''binding_generation'', show_u64 (bi_binding_generation b)), (''owner_lease_id'', show_u64 (bi_owner_lease_id b)),
      (''reservation_id'', show_u64 (bi_reservation_id b)), (''bytes'', show_u64 (bi_bytes b)),
      (''memfd_dev'', show_u64 (bi_memfd_dev b)), (''memfd_ino'', show_u64 (bi_memfd_ino b)),
      (''memfd_seals'', show_int (bi_memfd_seals b)), (''purpose'', purpose_name (bi_purpose b))]"

definition put_view :: "ViewIdentity \<Rightarrow> (string \<times> string) list" where
  "put_view v =
     put_birth ''accessor'' (vi_accessor v) @
     [(''object_id'', show_u64 (vi_object_id v)), (''resource_generation'', show_u64 (vi_resource_generation v)),
      (''accessor_incarnation'', vi_accessor_incarnation v), (''client_id'', show_u64 (vi_client_id v)),
      (''view_id'', show_u64 (vi_view_id v)), (''lease_id'', show_u64 (vi_lease_id v)),
      (''handoff_id'', show_u64 (vi_handoff_id v)),
      (''parent_view_id'', show_u64 (case vi_parent_view_id v of None \<Rightarrow> 0 | Some p \<Rightarrow> p)),
      (''offset'', show_u64 (vi_offset v)), (''bytes'', show_u64 (vi_bytes v))]"

definition put_work :: "WorkIdentity \<Rightarrow> (string \<times> string) list" where
  "put_work w =
     [(''work_id'', show_u64 (wi_work_id w)), (''source_id'', show_u64 (wi_source_id w)),
      (''source_generation'', show_u64 (wi_source_generation w)), (''target_id'', show_u64 (wi_target_id w)),
      (''target_generation'', show_u64 (wi_target_generation w)), (''src_offset'', show_u64 (wi_src_offset w)),
      (''dst_offset'', show_u64 (wi_dst_offset w)), (''bytes'', show_u64 (wi_bytes w)),
      (''snapshot_version'', wi_snapshot_version w), (''evidence_version'', wi_evidence_version w),
      (''cost_version'', wi_cost_version w), (''worker_id'', wi_worker_id w), (''purpose'', purpose_name (wi_purpose w))]"

definition put_snapshot :: "DrainSnapshot \<Rightarrow> (string \<times> string) list" where
  "put_snapshot s =
     [(''handlers'', show_u64 (dr_handlers s)), (''pending_handoffs'', show_u64 (dr_pending_handoffs s)),
      (''retained_backings'', show_u64 (dr_retained_backings s)), (''active_views'', show_u64 (dr_active_views s)),
      (''reservations'', show_u64 (dr_reservations s)), (''in_flight'', show_u64 (dr_in_flight s)),
      (''potential_holders'', show_u64 (dr_potential_holders s))]"

definition put_backing_id :: "u64 \<Rightarrow> u64 \<Rightarrow> (string \<times> string) list" where
  "put_backing_id i g = [(''object_id'', show_u64 i), (''resource_generation'', show_u64 g)]"

definition put_view_id :: "u64 \<Rightarrow> u64 \<Rightarrow> (string \<times> string) list" where
  "put_view_id i l = [(''view_id'', show_u64 i), (''lease_id'', show_u64 l)]"

fun put_kind :: "EventKind \<Rightarrow> (string \<times> string) list" where
  "put_kind (BrokerBirth b) = put_birth ''broker_birth'' b"
| "put_kind (RegisterIntent b) = put_backing b"
| "put_kind (RegisterCommit i g) = put_backing_id i g"
| "put_kind (RegisterAbort i g) = put_backing_id i g"
| "put_kind (Revoke i g) = put_backing_id i g"
| "put_kind (BackingCloseIntent i g) = put_backing_id i g"
| "put_kind (BackingCloseDone i g) = put_backing_id i g"
| "put_kind (ViewIntent v) = put_view v"
| "put_kind (ViewCommit i l) = put_view_id i l"
| "put_kind (ViewAbort i l) = put_view_id i l"
| "put_kind (ViewCommitUnconfirmed i l) = put_view_id i l"
| "put_kind (ViewNotSent i l) = put_view_id i l"
| "put_kind (ViewPeerTerminated i l) = put_view_id i l"
| "put_kind (ViewCloseIntent i l) = put_view_id i l"
| "put_kind (ViewCloseDone i l) = put_view_id i l"
| "put_kind (WorkIntent w) = put_work w"
| "put_kind (CancelRequest i) = [(''work_id'', show_u64 i)]"
| "put_kind (WorkDrained i) = [(''work_id'', show_u64 i)]"
| "put_kind (PublishIntent i) = [(''work_id'', show_u64 i)]"
| "put_kind (PublishAbort i) = [(''work_id'', show_u64 i)]"
| "put_kind (PublishDone i s) = [(''work_id'', show_u64 i), (''seals'', show_u32 s)]"
| "put_kind (WorkIoCompleted i c) = [(''work_id'', show_u64 i), (''copied'', show_u64 c)]"
| "put_kind (WorkVerified i c v) = [(''work_id'', show_u64 i), (''copied'', show_u64 c), (''verified'', show_u64 v)]"
| "put_kind (PeerTerminated b) = put_birth ''peer'' b"
| "put_kind (BrokerDrained s) = put_snapshot s"
| "put_kind (CleanCheckpoint s) = put_snapshot s"

definition put_domain :: "Domain \<Rightarrow> (string \<times> string) list" where
  "put_domain d =
     [(''host'', do_host d), (''boot'', do_boot d), (''domain'', do_domain d), (''broker'', do_broker d),
      (''cap_revision'', show_u64 (do_cap_revision d)), (''owner_limit'', show_u64 (do_owner_limit d)),
      (''total_limit'', show_u64 (do_total_limit d))]"

definition put_event :: "Event \<Rightarrow> (string \<times> string) list" where
  "put_event e =
     [(''schema'', SCHEMA), (''type'', fst (kind_name (au_kind e)))] @ put_domain (au_domain e) @
     [(''epoch'', show_u64 (au_epoch e))] @ put_kind (au_kind e)"

section \<open>Reading fields\<close>

fun insert_parts :: "Fields \<Rightarrow> string list \<Rightarrow> Fields result" where
  "insert_parts fs [] = Inr fs"
| "insert_parts fs (part # parts) =
     (case split_once (CHR ''='') part of
        None \<Rightarrow> Inl ''malformed audit field''
      | Some (key, value) \<Rightarrow>
          if \<not> token key \<or> \<not> token value \<or> bt_get fs key \<noteq> None then Inl ''invalid or duplicate audit field''
          else insert_parts (bt_insert key value fs) parts)"

definition bytes_text :: "bytes \<Rightarrow> string" where "bytes_text bs = map (\<lambda>b. char_of (unat b)) bs"

definition parse_fields :: "bytes \<Rightarrow> Fields result" where
  "parse_fields payload =
     (if 8192 < length payload then Inl ''audit event exceeds frame limit''
      else if \<not> valid_utf8 payload then Inl ''audit event is not UTF-8''
      else
        let text = bytes_text payload in
        if text = [] \<or> last text \<noteq> newline then Inl ''audit event missing newline''
        else rbind (insert_parts [] (split_on (CHR '';'') (butlast text))) (\<lambda>fs.
          rbind (encode_fields fs) (\<lambda>canonical.
            if canonical \<noteq> payload then Inl ''noncanonical audit event'' else Inr fs)))"

text \<open>A reader takes its fields out of the map and passes on the rest.\<close>

type_synonym 'a reader = "Fields \<Rightarrow> ('a \<times> Fields) result"

definition read_then :: "'a reader \<Rightarrow> ('a \<Rightarrow> 'b reader) \<Rightarrow> 'b reader" where
  "read_then r f fs = rbind (r fs) (\<lambda>(x, fs). f x fs)"

definition give :: "'a \<Rightarrow> 'a reader" where "give x fs = Inr (x, fs)"

definition take_field :: "string \<Rightarrow> string reader" where
  "take_field key fs =
     (case bt_get fs key of None \<Rightarrow> Inl ''missing audit field'' | Some v \<Rightarrow> Inr (v, bt_remove key fs))"

definition take_u64 :: "string \<Rightarrow> u64 reader" where
  "take_u64 key = read_then (take_field key) (\<lambda>value fs.
     case parse_u64 value of
       None \<Rightarrow> Inl ''invalid audit integer''
     | Some n \<Rightarrow> if show_u64 n \<noteq> value then Inl ''noncanonical audit integer'' else Inr (n, fs))"

definition take_u32 :: "string \<Rightarrow> u32 reader" where
  "take_u32 key = read_then (take_u64 key) (\<lambda>n fs.
     if unat n < 2 ^ 32 then Inr (ucast n, fs) else Inl ''audit integer exceeds u32'')"

definition take_i32 :: "string \<Rightarrow> int reader" where
  "take_i32 key = read_then (take_u64 key) (\<lambda>n fs.
     if unat n < 2 ^ 31 then Inr (uint n, fs) else Inl ''audit integer exceeds i32'')"

definition take_birth :: "string \<Rightarrow> ProcessBirth reader" where
  "take_birth pre =
     read_then (take_i32 (pre @ ''_pid'')) (\<lambda>pid. read_then (take_u32 (pre @ ''_uid'')) (\<lambda>uid.
     read_then (take_u32 (pre @ ''_gid'')) (\<lambda>gid. read_then (take_u64 (pre @ ''_pidns_dev'')) (\<lambda>dev.
     read_then (take_u64 (pre @ ''_pidns_ino'')) (\<lambda>ino. read_then (take_u64 (pre @ ''_starttime'')) (\<lambda>start.
       give \<lparr> pb_pid = pid, pb_uid = uid, pb_gid = gid, pb_pid_namespace_dev = dev, pb_pid_namespace_ino = ino,
              pb_starttime_ticks = start \<rparr>))))))"

definition take_purpose :: "Purpose reader" where
  "take_purpose = read_then (take_field ''purpose'') (\<lambda>p fs.
     if p = ''immutable'' then Inr (Immutable, fs)
     else if p = ''staging'' then Inr (Staging, fs)
     else if p = ''probe_only'' then Inr (ProbeOnly, fs)
     else Inl ''unknown audit purpose'')"

definition take_backing :: "BackingIdentity reader" where
  "take_backing =
     read_then (take_birth ''owner'') (\<lambda>owner. read_then (take_field ''owner_incarnation'') (\<lambda>incarnation.
     read_then (take_u64 ''pool_generation'') (\<lambda>pool. read_then (take_u64 ''object_id'') (\<lambda>object.
     read_then (take_u64 ''resource_generation'') (\<lambda>resource. read_then (take_u64 ''placement_id'') (\<lambda>placement.
     read_then (take_u64 ''binding_id'') (\<lambda>binding. read_then (take_u64 ''binding_generation'') (\<lambda>binding_generation.
     read_then (take_u64 ''owner_lease_id'') (\<lambda>lease. read_then (take_u64 ''reservation_id'') (\<lambda>reservation.
     read_then (take_u64 ''bytes'') (\<lambda>n. read_then (take_u64 ''memfd_dev'') (\<lambda>dev.
     read_then (take_u64 ''memfd_ino'') (\<lambda>ino. read_then (take_i32 ''memfd_seals'') (\<lambda>seals.
     read_then take_purpose (\<lambda>purpose.
       give \<lparr> bi_owner = owner, bi_owner_incarnation = incarnation, bi_pool_generation = pool, bi_object_id = object,
              bi_resource_generation = resource, bi_placement_id = placement, bi_binding_id = binding,
              bi_binding_generation = binding_generation, bi_owner_lease_id = lease, bi_reservation_id = reservation,
              bi_bytes = n, bi_memfd_dev = dev, bi_memfd_ino = ino, bi_memfd_seals = seals,
              bi_purpose = purpose \<rparr>)))))))))))))))"

definition take_view :: "ViewIdentity reader" where
  "take_view =
     read_then (take_birth ''accessor'') (\<lambda>accessor. read_then (take_u64 ''object_id'') (\<lambda>object.
     read_then (take_u64 ''resource_generation'') (\<lambda>resource. read_then (take_field ''accessor_incarnation'') (\<lambda>incarnation.
     read_then (take_u64 ''client_id'') (\<lambda>client. read_then (take_u64 ''view_id'') (\<lambda>view.
     read_then (take_u64 ''lease_id'') (\<lambda>lease. read_then (take_u64 ''handoff_id'') (\<lambda>handoff.
     read_then (take_u64 ''parent_view_id'') (\<lambda>parent. read_then (take_u64 ''offset'') (\<lambda>off.
     read_then (take_u64 ''bytes'') (\<lambda>n.
       give \<lparr> vi_object_id = object, vi_resource_generation = resource, vi_accessor = accessor,
              vi_accessor_incarnation = incarnation, vi_client_id = client, vi_view_id = view, vi_lease_id = lease,
              vi_handoff_id = handoff, vi_parent_view_id = (if parent = 0 then None else Some parent),
              vi_offset = off, vi_bytes = n \<rparr>)))))))))))"

definition take_work :: "WorkIdentity reader" where
  "take_work =
     read_then (take_u64 ''work_id'') (\<lambda>work. read_then (take_u64 ''source_id'') (\<lambda>source.
     read_then (take_u64 ''source_generation'') (\<lambda>source_generation. read_then (take_u64 ''target_id'') (\<lambda>target.
     read_then (take_u64 ''target_generation'') (\<lambda>target_generation. read_then (take_u64 ''src_offset'') (\<lambda>src.
     read_then (take_u64 ''dst_offset'') (\<lambda>dst. read_then (take_u64 ''bytes'') (\<lambda>n.
     read_then (take_field ''snapshot_version'') (\<lambda>snapshot. read_then (take_field ''evidence_version'') (\<lambda>evidence.
     read_then (take_field ''cost_version'') (\<lambda>cost. read_then (take_field ''worker_id'') (\<lambda>worker.
     read_then take_purpose (\<lambda>purpose.
       give \<lparr> wi_work_id = work, wi_source_id = source, wi_source_generation = source_generation, wi_target_id = target,
              wi_target_generation = target_generation, wi_src_offset = src, wi_dst_offset = dst, wi_bytes = n,
              wi_snapshot_version = snapshot, wi_evidence_version = evidence, wi_cost_version = cost,
              wi_worker_id = worker, wi_purpose = purpose \<rparr>)))))))))))))"

definition take_snapshot :: "DrainSnapshot reader" where
  "take_snapshot =
     read_then (take_u64 ''handlers'') (\<lambda>handlers. read_then (take_u64 ''pending_handoffs'') (\<lambda>handoffs.
     read_then (take_u64 ''retained_backings'') (\<lambda>retained. read_then (take_u64 ''active_views'') (\<lambda>active.
     read_then (take_u64 ''reservations'') (\<lambda>reservations. read_then (take_u64 ''in_flight'') (\<lambda>flight.
     read_then (take_u64 ''potential_holders'') (\<lambda>holders.
       give \<lparr> dr_handlers = handlers, dr_pending_handoffs = handoffs, dr_retained_backings = retained,
              dr_active_views = active, dr_reservations = reservations, dr_in_flight = flight,
              dr_potential_holders = holders \<rparr>)))))))"

definition take_pair :: "string \<Rightarrow> string \<Rightarrow> (u64 \<Rightarrow> u64 \<Rightarrow> 'a) \<Rightarrow> 'a reader" where
  "take_pair k k' f = read_then (take_u64 k) (\<lambda>x. read_then (take_u64 k') (\<lambda>y. give (f x y)))"

definition take_work_id :: "(u64 \<Rightarrow> 'a) \<Rightarrow> 'a reader" where
  "take_work_id f = read_then (take_u64 ''work_id'') (\<lambda>i. give (f i))"

text \<open>The \<^verbatim>\<open>match\<close> on the type field.\<close>

definition take_kind :: "string \<Rightarrow> EventKind reader" where
  "take_kind name =
     (if name = ''broker_birth'' then read_then (take_birth ''broker_birth'') (\<lambda>b. give (BrokerBirth b))
      else if name = ''register_intent'' then read_then take_backing (\<lambda>b. give (RegisterIntent b))
      else if name = ''register_commit'' then take_pair ''object_id'' ''resource_generation'' RegisterCommit
      else if name = ''register_abort'' then take_pair ''object_id'' ''resource_generation'' RegisterAbort
      else if name = ''revoke'' then take_pair ''object_id'' ''resource_generation'' Revoke
      else if name = ''backing_close_intent'' then take_pair ''object_id'' ''resource_generation'' BackingCloseIntent
      else if name = ''backing_close_done'' then take_pair ''object_id'' ''resource_generation'' BackingCloseDone
      else if name = ''view_intent'' then read_then take_view (\<lambda>v. give (ViewIntent v))
      else if name = ''view_commit'' then take_pair ''view_id'' ''lease_id'' ViewCommit
      else if name = ''view_abort'' then take_pair ''view_id'' ''lease_id'' ViewAbort
      else if name = ''view_commit_unconfirmed'' then take_pair ''view_id'' ''lease_id'' ViewCommitUnconfirmed
      else if name = ''view_not_sent'' then take_pair ''view_id'' ''lease_id'' ViewNotSent
      else if name = ''view_peer_terminated'' then take_pair ''view_id'' ''lease_id'' ViewPeerTerminated
      else if name = ''view_close_intent'' then take_pair ''view_id'' ''lease_id'' ViewCloseIntent
      else if name = ''view_close_done'' then take_pair ''view_id'' ''lease_id'' ViewCloseDone
      else if name = ''work_intent'' then read_then take_work (\<lambda>w. give (WorkIntent w))
      else if name = ''cancel_request'' then take_work_id CancelRequest
      else if name = ''work_drained'' then take_work_id WorkDrained
      else if name = ''work_io_completed'' then take_pair ''work_id'' ''copied'' WorkIoCompleted
      else if name = ''work_verified'' then
        read_then (take_u64 ''work_id'') (\<lambda>i. read_then (take_u64 ''copied'') (\<lambda>c.
        read_then (take_u64 ''verified'') (\<lambda>v. give (WorkVerified i c v))))
      else if name = ''publish_intent'' then take_work_id PublishIntent
      else if name = ''publish_done'' then
        read_then (take_u64 ''work_id'') (\<lambda>i. read_then (take_u32 ''seals'') (\<lambda>s. give (PublishDone i s)))
      else if name = ''publish_abort'' then take_work_id PublishAbort
      else if name = ''peer_terminated'' then read_then (take_birth ''peer'') (\<lambda>b. give (PeerTerminated b))
      else if name = ''broker_drained'' then read_then take_snapshot (\<lambda>s. give (BrokerDrained s))
      else if name = ''clean_checkpoint'' then read_then take_snapshot (\<lambda>s. give (CleanCheckpoint s))
      else (\<lambda>fs. Inl ''unsupported audit event type''))"

definition take_domain :: "Domain reader" where
  "take_domain =
     read_then (take_field ''host'') (\<lambda>host. read_then (take_field ''boot'') (\<lambda>boot.
     read_then (take_field ''domain'') (\<lambda>dom. read_then (take_field ''broker'') (\<lambda>broker.
     read_then (take_u64 ''cap_revision'') (\<lambda>cap. read_then (take_u64 ''owner_limit'') (\<lambda>owner_limit.
     read_then (take_u64 ''total_limit'') (\<lambda>total_limit.
       give \<lparr> do_host = host, do_boot = boot, do_domain = dom, do_cap_revision = cap, do_broker = broker,
              do_owner_limit = owner_limit, do_total_limit = total_limit \<rparr>)))))))"

definition take_event :: "Event reader" where
  "take_event =
     read_then (take_field ''schema'') (\<lambda>schema.
       if schema \<noteq> SCHEMA then (\<lambda>fs. Inl ''unknown audit schema'')
       else
         read_then (take_field ''type'') (\<lambda>name. read_then take_domain (\<lambda>domain.
         read_then (take_u64 ''epoch'') (\<lambda>epoch. read_then (take_kind name) (\<lambda>kind.
           give \<lparr> au_domain = domain, au_epoch = epoch, au_kind = kind \<rparr>)))))"

definition decode_event :: "Frame \<Rightarrow> Event result" where
  "decode_event frame =
     rbind (parse_fields (fr_payload frame)) (\<lambda>fs.
     rbind (take_event fs) (\<lambda>(e, fs).
       if fs \<noteq> [] \<or> snd (kind_name (au_kind e)) \<noteq> fr_kind frame
       then Inl ''unexpected audit fields or frame type mismatch'' else Inr e))"

definition encode_event :: "Event \<Rightarrow> (Kind \<times> bytes) result" where
  "encode_event e =
     (let kind = snd (kind_name (au_kind e)) in
      rbind (put_all [] (put_event e)) (\<lambda>fs.
      rbind (encode_fields fs) (\<lambda>payload.
      rbind (decode_event \<lparr> fr_kind = kind, fr_sequence = 1, fr_previous = 0, fr_payload = payload, fr_checksum = 0 \<rparr>)
        (\<lambda>e'. if e' \<noteq> e then Inl ''non-roundtripping audit event'' else Inr (kind, payload)))))"

end
