(* ===== verification/Durable.thy ===== *)
theory Durable
  imports RecoveryCodec
begin

text \<open>
  The durable audit (\<^verbatim>\<open>ddr_recovery_durable.rs\<close>): the writer that checks an event against the replay,
  appends its frame and only then adopts the new replay, and the readers that replay a whole journal
  before a broker may start. The model is that of the production build, in which a recovery boundary is
  always refused; every journal operation gets the kernel's answers and returns the files it leaves.
\<close>

section \<open>State\<close>

record DurableAudit =
  du_journal :: AnchoredJournal
  du_replay :: AuditReplay
  du_broker :: string
  du_domain :: Domain
  du_poisoned :: bool

record SemanticCheckpoint =
  ck_broker :: string
  ck_payload :: bytes

record SemanticClean =
  sc_domain :: Domain
  sc_head :: Head
  sc_file_identities :: "(u64 \<times> u64) \<times> (u64 \<times> u64)"

record JoinedDrain =
  jd_broker :: string

record VerifiedRecovery =
  vr_input_head :: Head
  vr_prefix :: "Frame list"
  vr_suffix :: "Frame list"
  vr_file_identities :: "(u64 \<times> u64) \<times> (u64 \<times> u64)"

definition file_identities :: "AnchoredJournal \<Rightarrow> (u64 \<times> u64) \<times> (u64 \<times> u64)" where
  "file_identities j = (aj_journal_identity j, aj_state_identity j)"

section \<open>Replaying a journal\<close>

record history =
  hs_replay :: "AuditReplay option"
  hs_current :: "Domain option"
  hs_brokers :: "string set"
  hs_latest_clean :: u64
  hs_last_broker :: string
  hs_ended_clean :: bool

definition history_start :: history where
  "history_start = \<lparr> hs_replay = None, hs_current = None, hs_brokers = {}, hs_latest_clean = 0,
     hs_last_broker = ''none'', hs_ended_clean = True \<rparr>"

fun sum_offsets :: "u64 \<Rightarrow> Frame list \<Rightarrow> u64 option" where
  "sum_offsets off [] = Some off"
| "sum_offsets off (f # fs) =
     (case checked_add off (of_nat (encoded_len f)) of None \<Rightarrow> None | Some off' \<Rightarrow> sum_offsets off' fs)"

definition generation_open :: "history \<Rightarrow> bool" where
  "generation_open h \<longleftrightarrow> (case hs_replay h of None \<Rightarrow> False | Some st \<Rightarrow> \<not> ar_checkpointed st)"

definition boundary_mismatch :: "Frame list \<Rightarrow> VerifiedRecovery \<Rightarrow> nat \<Rightarrow> u64 \<Rightarrow> history \<Rightarrow> bool" where
  "boundary_mismatch frames proof_of i off h \<longleftrightarrow>
     (let input = vr_input_head proof_of; suffix = take 3 (drop i frames) in
      hd_mode input \<noteq> Dirty \<or> hd_sequence input \<noteq> of_nat i \<or> hd_offset input \<noteq> off \<or>
      hd_clean_sequence input \<noteq> hs_latest_clean h \<or>
      i = 0 \<or> fr_kind (frames ! (i - 1)) \<noteq> KBrokerDrained \<or> fr_sequence (frames ! (i - 1)) \<noteq> hd_sequence input \<or>
      fr_checksum (frames ! (i - 1)) \<noteq> hd_checksum input \<or>
      (case hs_current h of None \<Rightarrow> True | Some d \<Rightarrow> do_broker d \<noteq> hd_broker input) \<or> \<not> generation_open h \<or>
      hs_ended_clean h \<or> take i frames \<noteq> vr_prefix proof_of \<or> suffix \<noteq> vr_suffix proof_of \<or>
      map fr_kind suffix \<noteq> [KRecoveryAudit, KRecoveryCommit, KCleanCheckpoint])"

definition recovery_refusal :: "Frame list \<Rightarrow> VerifiedRecovery list \<Rightarrow> nat \<Rightarrow> history \<Rightarrow> string" where
  "recovery_refusal frames recoveries i h =
     (case filter (\<lambda>p. hd_sequence (vr_input_head p) = of_nat i) recoveries of
        [] \<Rightarrow> ''recovery requires verified evidence''
      | proof_of # others \<Rightarrow>
          if others \<noteq> [] then ''ambiguous recovery evidence''
          else if length frames < i + 3 then ''incomplete recovery suffix''
          else case sum_offsets 0 (take i frames) of
            None \<Rightarrow> ''recovery input offset overflow''
          | Some off \<Rightarrow>
              if boundary_mismatch frames proof_of i off h
              then ''recovery boundary does not match verified input and audit''
              else ''production recovery evidence verifier not yet available'')"

definition same_budget :: "Domain \<Rightarrow> Domain \<Rightarrow> bool" where
  "same_budget d expected \<longleftrightarrow>
     do_host d = do_host expected \<and> do_boot d = do_boot expected \<and> do_domain d = do_domain expected \<and>
     do_cap_revision d = do_cap_revision expected \<and> do_owner_limit d = do_owner_limit expected \<and>
     do_total_limit d = do_total_limit expected"

definition is_birth :: "EventKind \<Rightarrow> bool" where
  "is_birth k \<longleftrightarrow> (case k of BrokerBirth _ \<Rightarrow> True | _ \<Rightarrow> False)"

definition is_checkpoint :: "EventKind \<Rightarrow> bool" where
  "is_checkpoint k \<longleftrightarrow> (case k of CleanCheckpoint _ \<Rightarrow> True | _ \<Rightarrow> False)"

text \<open>The first event of a generation opens a fresh replay, the others must name the current domain.\<close>

definition enter_generation :: "VerifiedRecovery list \<Rightarrow> Event \<Rightarrow> history \<Rightarrow> (AuditReplay \<times> history) result" where
  "enter_generation recoveries e h =
     (let d = au_domain e in
      case hs_replay h of
        Some st \<Rightarrow>
          if \<not> ar_checkpointed st then
            (if hs_current h \<noteq> Some d then Inl ''broker changed without a clean checkpoint'' else Inr (st, h))
          else if recoveries \<noteq> [] \<and> \<not> is_birth (au_kind e) then Inl ''verified recovery history lacks broker birth''
          else if do_broker d \<in> hs_brokers h then Inl ''audit history reused a broker incarnation''
          else rbind (audit_new d) (\<lambda>st.
            Inr (st, h\<lparr> hs_current := Some d, hs_brokers := insert (do_broker d) (hs_brokers h) \<rparr>))
      | None \<Rightarrow>
          if recoveries \<noteq> [] \<and> \<not> is_birth (au_kind e) then Inl ''verified recovery history lacks broker birth''
          else if do_broker d \<in> hs_brokers h then Inl ''audit history reused a broker incarnation''
          else rbind (audit_new d) (\<lambda>st.
            Inr (st, h\<lparr> hs_current := Some d, hs_brokers := insert (do_broker d) (hs_brokers h) \<rparr>)))"

definition history_event :: "VerifiedRecovery list \<Rightarrow> Domain \<Rightarrow> u64 \<Rightarrow> Event \<Rightarrow> history \<Rightarrow> history result" where
  "history_event recoveries expected sequence e h =
     (if \<not> same_budget (au_domain e) expected then Inl ''audit history domain or budget mismatch''
      else rbind (enter_generation recoveries e h) (\<lambda>(st, h).
        rbind (audit_apply e st) (\<lambda>st.
          Inr (h\<lparr> hs_replay := Some st, hs_last_broker := do_broker (au_domain e),
                  hs_ended_clean := is_checkpoint (au_kind e),
                  hs_latest_clean := (if is_checkpoint (au_kind e) then sequence else hs_latest_clean h) \<rparr>))))"

fun history_loop :: "VerifiedRecovery list \<Rightarrow> Domain \<Rightarrow> Frame list \<Rightarrow> nat \<Rightarrow> Frame list \<Rightarrow> history \<Rightarrow> history result" where
  "history_loop recoveries expected frames i [] h = Inr h"
| "history_loop recoveries expected frames i (f # rest) h =
     (if fr_kind f = KRecoveryAudit then Inl (recovery_refusal frames recoveries i h)
      else rbind (decode_event f) (\<lambda>e. rbind (history_event recoveries expected (fr_sequence f) e h) (\<lambda>h.
        history_loop recoveries expected frames (Suc i) rest h)))"

definition replay_history ::
  "Frame list \<Rightarrow> Head \<Rightarrow> Domain \<Rightarrow> VerifiedRecovery list \<Rightarrow> (AuditReplay option \<times> string set) result" where
  "replay_history frames head expected recoveries =
     rbind (history_loop recoveries expected frames 0 frames history_start) (\<lambda>h.
       if recoveries \<noteq> [] \<or> hs_latest_clean h \<noteq> hd_clean_sequence head \<or> hs_last_broker h \<noteq> hd_broker head \<or>
          (hd_mode head = Clean \<and> \<not> hs_ended_clean h) \<or> (hd_mode head = Dirty \<and> hs_ended_clean h)
       then Inl ''audit history and durable head disagree''
       else Inr (hs_replay h, hs_brokers h))"

section \<open>Starting\<close>

definition start_inner ::
  "journal_os \<Rightarrow> Domain \<Rightarrow> VerifiedRecovery list \<Rightarrow> AnchoredJournal \<Rightarrow> disk \<Rightarrow> DurableAudit result" where
  "start_inner os domain recoveries j d =
     (if hd_mode (aj_head j) \<noteq> Clean then Inl ''dirty recovery journal requires trusted recovery''
      else case journal_verify os j d of
        (Inl e, j) \<Rightarrow> Inl e
      | (Inr frames, j) \<Rightarrow>
          if \<exists>p \<in> set recoveries. vr_file_identities p \<noteq> file_identities j
          then Inl ''recovery proof belongs to different journal files''
          else rbind (replay_history frames (aj_head j) domain recoveries) (\<lambda>(_, brokers).
            if do_broker domain \<in> brokers then Inl ''broker incarnation was already used''
            else rbind (audit_new domain) (\<lambda>st.
              Inr \<lparr> du_journal = j, du_replay = st, du_broker = do_broker domain, du_domain = domain,
                    du_poisoned = False \<rparr>)))"

definition start :: "journal_os \<Rightarrow> Domain \<Rightarrow> AnchoredJournal \<Rightarrow> disk \<Rightarrow> DurableAudit result" where
  "start os domain j d = start_inner os domain [] j d"

section \<open>Recording\<close>

text \<open>The kernel around one append: the check before, the writes, the check after.\<close>

record kernel =
  kn_before :: journal_os
  kn_after :: journal_os
  kn_io :: append_io

definition poison :: "DurableAudit \<Rightarrow> DurableAudit" where
  "poison a = a\<lparr> du_poisoned := True \<rparr>"

definition record_transition :: "kernel \<Rightarrow> Event \<Rightarrow> DurableAudit \<times> disk \<Rightarrow> unit result \<times> DurableAudit \<times> disk" where
  "record_transition kn e x =
     (let (a, d) = x in
      if du_poisoned a then (Inl ''durable audit poisoned'', a, d)
      else case audit_apply e (du_replay a) of
        Inl msg \<Rightarrow> (Inl msg, poison a, d)
      | Inr candidate \<Rightarrow>
          (case encode_event e of
             Inl msg \<Rightarrow> (Inl msg, poison a, d)
           | Inr (kind, payload) \<Rightarrow>
               (case append_dirty (kn_before kn) (kn_after kn) (kn_io kn) (du_broker a) kind payload (du_journal a, d) of
                  (Inl msg, j, d) \<Rightarrow> (Inl msg, poison (a\<lparr> du_journal := j \<rparr>), d)
                | (Inr _, j, d) \<Rightarrow> (Inr (), a\<lparr> du_journal := j, du_replay := candidate \<rparr>, d))))"

definition durable_record :: "kernel \<Rightarrow> Event \<Rightarrow> DurableAudit \<times> disk \<Rightarrow> unit result \<times> DurableAudit \<times> disk" where
  "durable_record kn e x =
     (case au_kind e of
        CleanCheckpoint _ \<Rightarrow> (Inl ''drain and checkpoint require the joined path'', poison (fst x), snd x)
      | BrokerDrained _ \<Rightarrow> (Inl ''drain and checkpoint require the joined path'', poison (fst x), snd x)
      | _ \<Rightarrow> record_transition kn e x)"

definition record_joined_drain ::
  "kernel \<Rightarrow> JoinedDrain \<Rightarrow> u64 \<Rightarrow> DrainSnapshot \<Rightarrow> DurableAudit \<times> disk \<Rightarrow> unit result \<times> DurableAudit \<times> disk" where
  "record_joined_drain kn joined epoch snapshot x =
     (if jd_broker joined \<noteq> du_broker (fst x) then (Inl ''joined drain belongs to another broker'', poison (fst x), snd x)
      else record_transition kn
        \<lparr> au_domain = du_domain (fst x), au_epoch = epoch, au_kind = BrokerDrained snapshot \<rparr> x)"

definition checkpoint_after_drain ::
  "kernel \<Rightarrow> JoinedDrain \<Rightarrow> DurableAudit \<times> disk \<Rightarrow> SemanticClean result \<times> DurableAudit \<times> disk" where
  "checkpoint_after_drain kn joined x =
     (let (a, d) = x in
      if du_poisoned a then (Inl ''durable audit poisoned'', a, d)
      else if jd_broker joined \<noteq> du_broker a then (Inl ''joined checkpoint belongs to another broker'', poison a, d)
      else
        let e = \<lparr> au_domain = du_domain a, au_epoch = ar_epoch (du_replay a),
                  au_kind = CleanCheckpoint (observed_drain 0 0 (du_replay a)) \<rparr> in
        case audit_apply e (du_replay a) of
          Inl msg \<Rightarrow> (Inl msg, a, d)
        | Inr candidate \<Rightarrow>
            (case encode_event e of
               Inl msg \<Rightarrow> (Inl msg, a, d)
             | Inr (kind, payload) \<Rightarrow>
                 if kind \<noteq> KCleanCheckpoint then (Inl ''unexpected checkpoint kind'', a, d)
                 else
                   let ck = \<lparr> ck_broker = du_broker a, ck_payload = payload \<rparr> in
                   (case append_clean_after_drain (kn_before kn) (kn_after kn) (kn_io kn) (ck_broker ck) (ck_payload ck)
                           (du_journal a, d) of
                      (Inl msg, j, d) \<Rightarrow> (Inl msg, poison (a\<lparr> du_journal := j \<rparr>), d)
                    | (Inr head, j, d) \<Rightarrow>
                        (Inr \<lparr> sc_domain = du_domain a, sc_head = head, sc_file_identities = file_identities j \<rparr>,
                         a\<lparr> du_journal := j, du_replay := candidate \<rparr>, d))))"

section \<open>Readers\<close>

definition inspect :: "journal_os \<Rightarrow> Domain \<Rightarrow> AnchoredJournal \<Rightarrow> disk \<Rightarrow> AuditReplay result" where
  "inspect os domain j d =
     (if hd_sequence (aj_head j) \<noteq> 0 \<and> hd_broker (aj_head j) \<noteq> do_broker domain
      then Inl ''head broker does not match audit domain''
      else case journal_verify os j d of
        (Inl e, j) \<Rightarrow> Inl e
      | (Inr frames, j) \<Rightarrow>
          rbind (replay_history frames (aj_head j) domain []) (\<lambda>(replay, _).
            case replay of None \<Rightarrow> audit_new domain | Some st \<Rightarrow> Inr st))"

fun births_and_checkpoints :: "bool \<Rightarrow> Frame list \<Rightarrow> unit result" where
  "births_and_checkpoints at_birth [] = (if at_birth then Inr () else Inl ''normal generation lacks final checkpoint'')"
| "births_and_checkpoints at_birth (f # fs) =
     rbind (decode_event f) (\<lambda>e.
       if at_birth \<and> \<not> is_birth (au_kind e) then Inl ''normal generation lacks broker birth''
       else births_and_checkpoints (is_checkpoint (au_kind e)) fs)"

definition verify_normal_restart ::
  "journal_os \<Rightarrow> Domain \<Rightarrow> AnchoredJournal \<Rightarrow> disk \<Rightarrow> Frame list result \<times> AnchoredJournal" where
  "verify_normal_restart os domain j d =
     (if hd_mode (aj_head j) \<noteq> Clean then (Inl ''normal restart requires a clean head'', j)
      else case journal_verify os j d of
        (Inl e, j) \<Rightarrow> (Inl e, j)
      | (Inr frames, j) \<Rightarrow>
          (rbind (births_and_checkpoints True frames) (\<lambda>_.
             rbind (replay_history frames (aj_head j) domain []) (\<lambda>_. Inr frames)), j))"

end
