(* ===== verification/JournalLaws.thy ===== *)
theory JournalLaws
  imports Journal
begin

text \<open>
  The journal is read exactly as it was written: the table-driven CRC is the bit-by-bit one, a scan
  accepts a byte string if and only if it is the concatenation of a chain of frames, the head text has
  one reading, and an append that is interrupted anywhere leaves files that are either refused or read
  as the journal before or after it.
\<close>

section \<open>The checksum table\<close>

definition crc_bitwise :: "bytes \<Rightarrow> u64" where
  "crc_bitwise bs = foldl (\<lambda>crc byte. (crc_bit ^^ 8) (crc XOR push_bit 56 (ucast byte))) 0 bs"

lemma crc_bit_feedback: "crc_bit x = push_bit 1 x XOR (if bit x 63 then CRC_POLY else 0)"
  by (simp add: crc_bit_def)

lemma crc_bit_xor: "crc_bit (a XOR b) = crc_bit a XOR crc_bit b"
  unfolding crc_bit_feedback push_bit_xor bit_xor_iff by (rule bit_eqI) (auto simp: bit_xor_iff)

lemma crc_bits_xor: "(crc_bit ^^ n) (a XOR b) = (crc_bit ^^ n) a XOR (crc_bit ^^ n) b"
  by (induction n) (simp_all add: crc_bit_xor)

text \<open>As long as no bit reaches the top, the register only shifts.\<close>

lemma crc_bits_shift:
  assumes "k \<le> 64" and "\<And>j. 64 - k \<le> j \<Longrightarrow> j < 64 \<Longrightarrow> \<not> bit x j"
  shows "(crc_bit ^^ k) x = push_bit k x"
  using assms
proof (induction k)
  case (Suc k)
  have "(crc_bit ^^ k) x = push_bit k x" using Suc by simp
  then have "(crc_bit ^^ Suc k) x = crc_bit (push_bit k x)" by simp
  also have "\<not> bit (push_bit k x) 63" using Suc.prems by (auto simp: bit_push_bit_iff)
  then have "crc_bit (push_bit k x) = push_bit (Suc k) x" by (simp add: crc_bit_def)
  finally show ?case .
qed simp

lemma crc_table_lookup: "CRC_TABLE ! unat (b :: u8) = crc_entry (ucast b)"
proof -
  have "unat b < 256" by (rule unat_u8_less)
  then show ?thesis by (simp add: CRC_TABLE_def unsigned_of_nat)
qed

lemma crc_step_bitwise: "crc_step crc byte = (crc_bit ^^ 8) (crc XOR push_bit 56 (ucast byte))"
proof -
  let ?i = "ucast (ucast (drop_bit 56 crc) XOR byte :: u8) :: u64"
  have split: "crc XOR push_bit 56 (ucast byte) = take_bit 56 crc XOR push_bit 56 ?i"
    by (rule bit_eqI) (auto simp: bit_xor_iff bit_push_bit_iff bit_take_bit_iff bit_drop_bit_eq bit_ucast_iff
        dest: bit_imp_le_length)
  have "(crc_bit ^^ 8) (take_bit 56 crc) = push_bit 8 (take_bit 56 crc)"
    by (rule crc_bits_shift) (simp_all add: bit_take_bit_iff)
  also have "\<dots> = push_bit 8 crc"
    by (rule bit_eqI) (auto simp: bit_push_bit_iff bit_take_bit_iff)
  finally show ?thesis
    unfolding split crc_bits_xor crc_step_def crc_table_lookup crc_entry_def by simp
qed

section \<open>Frames\<close>

lemma kind_decode_code [simp]: "kind_decode (kind_code k) = Inr k"
  by (cases k) (simp_all add: kind_decode_def all_kinds_def)

lemma kind_code_decode: "kind_decode n = Inr k \<Longrightarrow> kind_code k = n"
proof -
  assume k: "kind_decode n = Inr k"
  then have n: "n - 1 < 23" "n = Suc (n - 1)" "k = all_kinds ! (n - 1)" by (auto simp: kind_decode_def split: if_splits)
  have "\<forall>i < 23. kind_code (all_kinds ! i) = Suc i" by code_simp
  then show "kind_code k = n" using n by simp
qed

lemma kind_code_small: "kind_code k < 65536"
  by (cases k) simp_all

definition frame_sum :: "Frame \<Rightarrow> u64" where
  "frame_sum f = crc64 (frame_body (fr_kind f) (fr_sequence f) (fr_previous f) (fr_payload f))"

definition frame_bytes :: "Frame \<Rightarrow> bytes" where
  "frame_bytes f = frame_body (fr_kind f) (fr_sequence f) (fr_previous f) (fr_payload f) @
     be_bytes 8 (unat (fr_checksum f)) @ END_MAGIC"

definition frame_ok :: "Frame \<Rightarrow> bool" where
  "frame_ok f \<longleftrightarrow> fr_sequence f \<noteq> 0 \<and> fr_payload f \<noteq> [] \<and> length (fr_payload f) \<le> MAX_PAYLOAD \<and> fr_checksum f = frame_sum f"

lemma frame_encode_iff:
  "frame_encode k s p bs = Inr frame \<longleftrightarrow>
     (let f = \<lparr> fr_kind = k, fr_sequence = s, fr_previous = p, fr_payload = bs, fr_checksum = crc64 (frame_body k s p bs) \<rparr> in
      frame_ok f \<and> frame = frame_bytes f)"
  by (auto simp: frame_encode_def frame_ok_def frame_bytes_def frame_sum_def Let_def)

lemma length_frame_body [simp]: "length (frame_body k s p bs) = HEADER_LEN + length bs"
  by (simp add: frame_body_def FRAME_MAGIC_def HEADER_LEN_def)

lemma length_frame_bytes: "length (frame_bytes f) = encoded_len f"
  by (simp add: frame_bytes_def encoded_len_def TRAILER_LEN_def END_MAGIC_def)

text \<open>The fields of a frame sit where the scan looks for them.\<close>

lemma frame_fields:
  fixes payload rest :: bytes
  assumes bs_def: "bs = frame_body k s p payload @ rest"
  shows "take 4 bs = FRAME_MAGIC" "from_be (take 2 (drop 4 bs)) = FORMAT_VERSION" "frame_kind_field bs = kind_code k"
    "from_be (take 8 (drop 8 bs)) = unat s" "from_be (take 8 (drop 16 bs)) = unat p"
    "length payload < 2 ^ 32 \<Longrightarrow> from_be (take 4 (drop 24 bs)) = length payload"
    "take (HEADER_LEN + length payload) bs = frame_body k s p payload" "drop (HEADER_LEN + length payload) bs = rest"
    "take (length payload) (drop HEADER_LEN bs) = payload"
proof -
  show "take (HEADER_LEN + length payload) bs = frame_body k s p payload" "drop (HEADER_LEN + length payload) bs = rest"
    unfolding bs_def by (metis append_eq_conv_conj length_frame_body)+
qed (use kind_code_small [of k] unat_less_u64 [of s] unat_less_u64 [of p] in \<open>simp_all add: bs_def frame_kind_field_def
    frame_body_def FRAME_MAGIC_def FORMAT_VERSION_def HEADER_LEN_def from_be_be_bytes\<close>)

lemma parse_frame_bytes:
  assumes "frame_ok f" and "fr_sequence f = s + 1" and "fr_previous f = p"
  shows "parse_frame s p (frame_bytes f @ rest) = Inr f"
proof -
  let ?body = "frame_body (fr_kind f) (fr_sequence f) (fr_previous f) (fr_payload f)"
  let ?tail = "be_bytes 8 (unat (fr_checksum f)) @ END_MAGIC @ rest"
  define bs where "bs = frame_bytes f @ rest"
  have eq: "bs = ?body @ ?tail" by (simp add: bs_def frame_bytes_def)
  have len: "length (fr_payload f) < 2 ^ 32" using assms(1) by (simp add: frame_ok_def MAX_PAYLOAD_def)
  have s: "s \<noteq> u64_max" using assms(1,2) by (auto simp: frame_ok_def u64_max_def)
  have sum: "from_be (be_bytes 8 (unat (fr_checksum f))) = unat (fr_checksum f)"
    using unat_less_u64 [of "fr_checksum f"] by (simp add: from_be_be_bytes)
  note fields = frame_fields [OF eq]
  have tail: "from_be (take 8 (drop (HEADER_LEN + length (fr_payload f)) bs)) = unat (fr_checksum f)"
      "take 4 (drop (HEADER_LEN + length (fr_payload f) + 8) bs) = END_MAGIC"
    unfolding drop_drop [symmetric, of 8 "HEADER_LEN + length (fr_payload f)", unfolded add.commute [of 8]] fields(8)
    by (simp_all add: sum END_MAGIC_def)
  have long: "HEADER_LEN + length (fr_payload f) + TRAILER_LEN \<le> length bs"
    unfolding eq by (simp add: END_MAGIC_def TRAILER_LEN_def)
  have "crc64 (take (HEADER_LEN + length (fr_payload f)) bs) = fr_checksum f"
    unfolding fields(7) using assms(1) by (simp add: frame_ok_def frame_sum_def)
  then have "parse_frame s p bs = Inr f"
    using assms s long fields(1-5) fields(6) [OF len] fields(9) tail
    by (simp add: parse_frame_def Let_def frame_ok_def not_less)
  then show ?thesis by (simp add: bs_def)
qed

text \<open>Conversely, what the scan reads as a frame are the bytes of that frame.\<close>

lemma take_fields:
  fixes bs :: bytes
  shows "take (HEADER_LEN + n) bs = take 4 bs @ take 2 (drop 4 bs) @ take 2 (drop 6 bs) @ take 8 (drop 8 bs) @
     take 8 (drop 16 bs) @ take 4 (drop 24 bs) @ take n (drop HEADER_LEN bs)"
proof -
  have "HEADER_LEN + n = 4 + (2 + (2 + (8 + (8 + (4 + n)))))" by (simp add: HEADER_LEN_def)
  then show ?thesis by (simp only: take_add drop_drop) (simp add: HEADER_LEN_def)
qed

lemma field_bytes:
  fixes bs :: bytes
  assumes "from_be (take n (drop k bs)) = x" and "k + n \<le> length bs"
  shows "take n (drop k bs) = be_bytes n x"
  using be_bytes_from_be [of "take n (drop k bs)" n] assms by simp

lemma parse_frame_shape:
  assumes "parse_frame s p bs = Inr f"
  shows "frame_ok f" "fr_sequence f = s + 1" "fr_previous f = p" "s \<noteq> u64_max" "bs = frame_bytes f @ drop (encoded_len f) bs"
proof -
  define len where "len = from_be (take 4 (drop 24 bs))"
  define sum where "sum = from_be (take 8 (drop (HEADER_LEN + len) bs))"
  obtain kind where kind: "kind_decode (frame_kind_field bs) = Inr kind"
    and f: "f = \<lparr> fr_kind = kind, fr_sequence = s + 1, fr_previous = p, fr_payload = take len (drop HEADER_LEN bs), fr_checksum = of_nat sum \<rparr>"
    and magic: "take 4 bs = FRAME_MAGIC" and ver: "from_be (take 2 (drop 4 bs)) = FORMAT_VERSION"
    and len: "len \<noteq> 0" "len \<le> MAX_PAYLOAD" "HEADER_LEN + len + TRAILER_LEN \<le> length bs" and s: "s \<noteq> u64_max"
    and seq: "from_be (take 8 (drop 8 bs)) = unat (s + 1)" and prev: "from_be (take 8 (drop 16 bs)) = unat p"
    and fin: "take 4 (drop (HEADER_LEN + len + 8) bs) = END_MAGIC" and sum: "sum = unat (crc64 (take (HEADER_LEN + len) bs))"
    using assms by (auto simp: parse_frame_def Let_def not_less len_def sum_def rbind_Inr_iff split: if_splits)
  have long: "HEADER_LEN + len + TRAILER_LEN \<le> length bs" by (fact len(3))
  have payload: "length (take len (drop HEADER_LEN bs)) = len" using long by (simp add: TRAILER_LEN_def)
  have room: "40 \<le> length bs" using long by (simp add: HEADER_LEN_def TRAILER_LEN_def)
  have code: "from_be (take 2 (drop 6 bs)) = kind_code kind" using kind_code_decode [OF kind] by (simp add: frame_kind_field_def)
  have fields: "take 2 (drop 4 bs) = be_bytes 2 FORMAT_VERSION" "take 2 (drop 6 bs) = be_bytes 2 (kind_code kind)"
      "take 8 (drop 8 bs) = be_bytes 8 (unat (s + 1))" "take 8 (drop 16 bs) = be_bytes 8 (unat p)" "take 4 (drop 24 bs) = be_bytes 4 len"
    by (rule field_bytes [OF ver] field_bytes [OF code] field_bytes [OF seq] field_bytes [OF prev] field_bytes [OF len_def [symmetric]],
        use room in simp)+
  have body: "take (HEADER_LEN + len) bs = frame_body kind (s + 1) p (take len (drop HEADER_LEN bs))"
    unfolding take_fields frame_body_def magic fields payload by simp
  have "u64_max = - 1" by (simp add: u64_max_def)
  then have "s + 1 \<noteq> 0" using s by (simp flip: eq_neg_iff_add_eq_0)
  then show ok: "frame_ok f" using len(1,2) payload body by (simp add: frame_ok_def f frame_sum_def sum)
  show "fr_sequence f = s + 1" "fr_previous f = p" "s \<noteq> u64_max" using s by (simp_all add: f)
  have enc: "encoded_len f = HEADER_LEN + len + 8 + 4" using payload by (simp add: encoded_len_def f TRAILER_LEN_def)
  have sumb: "take 8 (drop (HEADER_LEN + len) bs) = be_bytes 8 (unat (fr_checksum f))"
    using long by (intro field_bytes) (simp_all add: f sum_def [symmetric] sum TRAILER_LEN_def)
  have "take (encoded_len f) bs = frame_bytes f"
    unfolding enc take_add [of "HEADER_LEN + len + 8" 4] take_add [of "HEADER_LEN + len" 8] sumb fin body by (simp add: frame_bytes_def f)
  then show "bs = frame_bytes f @ drop (encoded_len f) bs" by (metis append_take_drop_id)
qed

section \<open>Chains\<close>

text \<open>A chain of frames: consecutive sequence numbers, each frame linked to the checksum before it.\<close>

fun chained :: "u64 \<Rightarrow> u64 \<Rightarrow> Frame list \<Rightarrow> bool" where
  "chained s p [] \<longleftrightarrow> True"
| "chained s p (f # fs) \<longleftrightarrow> s \<noteq> u64_max \<and> fr_sequence f = s + 1 \<and> fr_previous f = p \<and> frame_ok f \<and>
     chained (fr_sequence f) (fr_checksum f) fs"

fun chain_end :: "u64 \<Rightarrow> u64 \<Rightarrow> Frame list \<Rightarrow> u64 \<times> u64" where
  "chain_end s p [] = (s, p)"
| "chain_end s p (f # fs) = chain_end (fr_sequence f) (fr_checksum f) fs"

definition chain_bytes :: "Frame list \<Rightarrow> bytes" where
  "chain_bytes fs = concat (map frame_bytes fs)"

lemma chain_bytes_simps [simp]:
  "chain_bytes [] = []" "chain_bytes (f # fs) = frame_bytes f @ chain_bytes fs" "chain_bytes (fs @ gs) = chain_bytes fs @ chain_bytes gs"
  by (simp_all add: chain_bytes_def)

lemma frame_bytes_nonempty [simp]: "frame_bytes f \<noteq> []"
  by (simp add: frame_bytes_def END_MAGIC_def)

lemma chained_append: "chained s p (fs @ gs) \<longleftrightarrow> chained s p fs \<and> (case chain_end s p fs of (s', p') \<Rightarrow> chained s' p' gs)"
  by (induction s p fs rule: chained.induct) auto

lemma chain_end_append: "chain_end s p (fs @ gs) = (case chain_end s p fs of (s', p') \<Rightarrow> chain_end s' p' gs)"
  by (induction s p fs rule: chained.induct) auto

lemma scan_frames_chain:
  "chained s p fs \<Longrightarrow> chain_end s p fs = (s', p') \<Longrightarrow> scan_frames s p (chain_bytes fs) = Inr (fs, s', p')"
proof (induction s p fs rule: chained.induct)
  case (1 s p)
  then show ?case by (simp add: scan_frames.simps)
next
  case (2 s p f fs)
  have "parse_frame s p (chain_bytes (f # fs)) = Inr f" using 2 by (simp add: parse_frame_bytes)
  moreover have "drop (encoded_len f) (chain_bytes (f # fs)) = chain_bytes fs" by (simp flip: length_frame_bytes)
  moreover have "chain_bytes (f # fs) \<noteq> []" by simp
  moreover have "scan_frames (fr_sequence f) (fr_checksum f) (chain_bytes fs) = Inr (fs, s', p')" using "2.IH" "2.prems" by (metis chained.simps(2) chain_end.simps(2))
  ultimately show ?case unfolding scan_frames.simps [of s p "chain_bytes (f # fs)"] by (simp del: chain_bytes_simps)
qed

lemma scan_frames_inv:
  "scan_frames s p bs = Inr (fs, s', p') \<Longrightarrow> chained s p fs \<and> chain_end s p fs = (s', p') \<and> bs = chain_bytes fs"
proof (induction s p bs arbitrary: fs rule: scan_frames.induct)
  case (1 s p bs)
  show ?case
  proof (cases "bs = []")
    case True
    then show ?thesis using "1.prems" by (simp add: scan_frames.simps)
  next
    case False
    then obtain f gs where f: "parse_frame s p bs = Inr f" and fs: "fs = f # gs"
      and rest: "scan_frames (fr_sequence f) (fr_checksum f) (drop (encoded_len f) bs) = Inr (gs, s', p')"
      using "1.prems" by (auto simp: scan_frames.simps [of s p] rbind_Inr_iff split: sum.splits)
    show ?thesis using "1.IH" [OF False f rest] parse_frame_shape [OF f] by (simp add: fs)
  qed
qed

lemma scan_frames_iff:
  "scan_frames s p bs = Inr (fs, s', p') \<longleftrightarrow> chained s p fs \<and> chain_end s p fs = (s', p') \<and> bs = chain_bytes fs"
  using scan_frames_inv scan_frames_chain by blast

section \<open>Head and journal together\<close>

text \<open>What ties a chain of frames to the head that names its end.\<close>

definition names_chain :: "Head \<Rightarrow> Frame list \<Rightarrow> bool" where
  "names_chain h fs \<longleftrightarrow>
     chained 0 0 fs \<and> chain_end 0 0 fs = (hd_sequence h, hd_checksum h) \<and>
     length (chain_bytes fs) = unat (hd_offset h) \<and> hd_offset h \<le> MAX_JOURNAL \<and>
     (hd_clean_sequence h \<noteq> 0 \<longrightarrow> unat (hd_clean_sequence h) \<le> length fs \<and>
        fr_kind (fs ! (unat (hd_clean_sequence h) - 1)) = KCleanCheckpoint) \<and>
     (hd_mode h = Clean \<and> hd_sequence h \<noteq> 0 \<longrightarrow> fs \<noteq> [] \<and> fr_kind (last fs) = KCleanCheckpoint)"

lemma parse_frames_iff: "parse_frames bs h = Inr fs \<longleftrightarrow> bs = chain_bytes fs \<and> names_chain h fs"
proof -
  have "parse_frames bs h = Inr fs \<longleftrightarrow>
      length bs = unat (hd_offset h) \<and> hd_offset h \<le> MAX_JOURNAL \<and>
      scan_frames 0 0 bs = Inr (fs, hd_sequence h, hd_checksum h) \<and>
      (hd_clean_sequence h \<noteq> 0 \<longrightarrow> unat (hd_clean_sequence h) \<le> length fs \<and>
         fr_kind (fs ! (unat (hd_clean_sequence h) - 1)) = KCleanCheckpoint) \<and>
      (hd_mode h = Clean \<and> hd_sequence h \<noteq> 0 \<longrightarrow> fs \<noteq> [] \<and> fr_kind (last fs) = KCleanCheckpoint)"
    by (auto simp: parse_frames_def rbind_Inr_iff not_less not_le split: if_splits)
  then show ?thesis unfolding scan_frames_iff names_chain_def by auto
qed

text \<open>The sequence number of the head counts the frames.\<close>

lemma chain_end_sequence: "chained s p fs \<Longrightarrow> unat (fst (chain_end s p fs)) = unat s + length fs"
proof (induction s p fs rule: chained.induct)
  case (2 s p f fs)
  then have "unat (s + 1) = unat s + 1" using unat_neq_max [of s] by (simp add: unat_word_ariths)
  then show ?case using 2 by auto
qed simp

lemma names_chain_length: "names_chain h fs \<Longrightarrow> unat (hd_sequence h) = length fs"
  using chain_end_sequence [of 0 0 fs] by (simp add: names_chain_def)

section \<open>The text of a head\<close>

lemma hex_val_char: "n < 16 \<Longrightarrow> hex_val (hex_char n) = Some n"
proof -
  have "\<forall>n < 16. hex_val (hex_char n) = Some n" by code_simp
  then show "n < 16 \<Longrightarrow> hex_val (hex_char n) = Some n" by blast
qed

lemma hex_value_append: "hex_value a (cs @ ds) = (case hex_value a cs of None \<Rightarrow> None | Some b \<Rightarrow> hex_value b ds)"
  by (induction a cs rule: hex_value.induct) (auto split: option.splits)

lemma hex_value_digits: "hex_value a (hex_digits n x) = Some (16 ^ n * a + x mod 16 ^ n)"
proof (induction n x rule: hex_digits.induct)
  case (2 n x)
  have "x mod 16 ^ Suc n = 16 * (x div 16 mod 16 ^ n) + x mod 16"
    using mod_mult2_eq [of x 16 "16 ^ n"] by simp
  then show ?case using 2 by (simp add: hex_value_append hex_val_char)
qed simp

lemma length_hex_digits [simp]: "length (hex_digits n x) = n"
  by (induction n x rule: hex_digits.induct) auto

lemma hex_char_cases: "n < 16 \<Longrightarrow> hex_char n \<in> set ''0123456789abcdef''"
proof -
  have "\<forall>n < 16. hex_char n \<in> set ''0123456789abcdef''" by code_simp
  then show "n < 16 \<Longrightarrow> hex_char n \<in> set ''0123456789abcdef''" by blast
qed

lemma hex_digits_chars: "set (hex_digits n x) \<subseteq> set ''0123456789abcdef''"
  by (induction n x rule: hex_digits.induct) (use hex_char_cases in auto)

lemma parse_hex_digits: "parse_hex (hex_digits 16 (unat w)) = Some w"
proof -
  obtain c cs where cs: "hex_digits 16 (unat w) = c # cs"
    by (metis length_hex_digits length_Suc_conv numeral_eq_Suc)
  then have "c \<in> set ''0123456789abcdef''" using hex_digits_chars [of 16 "unat w"] by auto
  then have "c \<noteq> CHR ''+''" by auto
  then show ?thesis
    using cs hex_value_digits [of 0 16 "unat w"] unat_less_u64 [of w] by (simp add: parse_hex_def)
qed

text \<open>No line of a head holds a line break, so the text splits into the seven lines it was made of.\<close>

lemma valid_broker_char:
  assumes "valid_broker v" and "c \<in> set v"
  shows "c \<noteq> newline" "c \<noteq> CHR 0x0D"
proof -
  have "\<forall>d \<in> {newline, CHR 0x0D}. \<not> (CHR ''0'' \<le> d \<and> d \<le> CHR ''9'' \<or> CHR ''A'' \<le> d \<and> d \<le> CHR ''Z'' \<or>
        CHR ''a'' \<le> d \<and> d \<le> CHR ''z'' \<or> d \<in> set ''._-'')" by code_simp
  then show "c \<noteq> newline" "c \<noteq> CHR 0x0D" using assms by (auto simp: valid_broker_def)
qed

lemma head_lines_break_free:
  assumes "valid_broker (hd_broker h)" and "l \<in> set (head_lines h)" and "c \<in> {newline, CHR 0x0D}"
  shows "c \<notin> set l"
proof -
  have num: "c \<notin> set (show_u64 w)" for w by (rule show_u64_avoids) (use assms(3) in auto)
  have hex: "c \<notin> set (hex_digits 16 w)" for w using hex_digits_chars [of 16 w] assms(3) by auto
  have "c \<notin> set (hd_broker h)" using valid_broker_char [OF assms(1)] assms(3) by auto
  then show ?thesis
    using assms(2,3) num hex by (cases "hd_mode h") (auto simp: head_lines_def STATE_VERSION_def mode_name_def)
qed

lemma split_on_lines: "\<forall>l \<in> set ls. d \<notin> set l \<Longrightarrow> split_on d (concat (map (\<lambda>l. l @ [d]) ls)) = ls @ [[]]"
  by (induction ls) (simp_all add: split_on_append_sep)

lemma text_lines_head:
  assumes "valid_broker (hd_broker h)"
  shows "text_lines (head_encode h) = head_lines h"
proof -
  have "split_on newline (head_encode h) = head_lines h @ [[]]"
    unfolding head_encode_def by (rule split_on_lines) (use head_lines_break_free [OF assms] in blast)
  moreover have "map strip_cr (head_lines h) = head_lines h"
    by (rule map_idI) (use head_lines_break_free [OF assms] last_in_set in \<open>fastforce simp: strip_cr_def\<close>)
  ultimately show ?thesis by (simp add: text_lines_def)
qed

lemma head_field_prefix [simp]: "head_field pre ((pre @ v) # ls) = Inr (v, ls)"
  by (simp add: head_field_def strip_prefix_def)

lemma head_parse_encode: "head_consistent h \<Longrightarrow> head_parse (head_encode h) = Inr h"
proof -
  assume ok: "head_consistent h"
  then have "text_lines (head_encode h) = head_lines h" by (simp add: text_lines_head head_consistent_def)
  then show ?thesis
    using ok by (cases h; cases "hd_mode h")
      (simp_all add: head_parse_def head_lines_def mode_name_def head_number_def parse_hex_digits Let_def del: append_Cons)
qed

lemma head_parse_inv: "head_parse text = Inr h \<Longrightarrow> text = head_encode h \<and> head_consistent h"
  by (auto simp: head_parse_def Let_def rbind_Inr_iff split: list.splits if_splits)

lemma head_parse_iff: "head_parse text = Inr h \<longleftrightarrow> text = head_encode h \<and> head_consistent h"
  using head_parse_inv head_parse_encode by blast

text \<open>A head text has seven line breaks, the last at its end: no other head text begins it.\<close>

lemma count_breaks: "\<forall>l \<in> set ls. d \<notin> set l \<Longrightarrow> length (filter ((=) d) (concat (map (\<lambda>l. l @ [d]) ls))) = length ls"
  by (induction ls) (auto simp: filter_empty_conv)

lemma head_encode_breaks:
  assumes "head_consistent h"
  shows "length (filter ((=) newline) (head_encode h)) = 7"
proof -
  have "valid_broker (hd_broker h)" using assms by (simp add: head_consistent_def)
  then have "\<forall>l \<in> set (head_lines h). newline \<notin> set l" using head_lines_break_free by blast
  then show ?thesis unfolding head_encode_def by (simp add: count_breaks) (simp add: head_lines_def)
qed

lemma head_encode_snoc: "\<exists>t. head_encode h = t @ [newline]"
  by (simp add: head_encode_def head_lines_def)

lemma head_prefix_eq:
  assumes "head_consistent h" and "head_consistent g" and "head_encode h = head_encode g @ rest"
  shows "rest = []"
proof (rule ccontr)
  assume "rest \<noteq> []"
  then obtain rest' where "rest = rest' @ [newline]"
    using head_encode_snoc [of h] assms(3) by (metis append_butlast_last_id last_appendR last_snoc)
  then have "length (filter ((=) newline) (head_encode h)) > length (filter ((=) newline) (head_encode g))"
    using assms(3) by simp
  then show False using head_encode_breaks assms(1,2) by simp
qed

lemma head_parse_prefix:
  assumes "head_consistent h" and "head_parse (take n (head_encode h)) = Inr g"
  shows "g = h"
proof -
  have g: "take n (head_encode h) = head_encode g" "head_consistent g" using head_parse_inv [OF assms(2)] by simp_all
  then have "head_encode h = head_encode g @ drop n (head_encode h)" by (metis append_take_drop_id)
  then have "head_encode g = head_encode h" using head_prefix_eq [OF assms(1) g(2)] by fastforce
  then show ?thesis using head_parse_encode assms(1) g(2) by (metis sum.inject(2))
qed

section \<open>Reading the two files\<close>

text \<open>Opening and verifying both read the same pair: the head in the one file, its chain in the other.\<close>

definition holds_chain :: "disk \<Rightarrow> Head \<Rightarrow> Frame list \<Rightarrow> bool" where
  "holds_chain d h fs \<longleftrightarrow>
     dk_state d = head_encode h \<and> head_consistent h \<and> dk_journal d = chain_bytes fs \<and> names_chain h fs"

lemma read_head_inv: "read_head os path d = Inr h \<Longrightarrow> dk_state d = head_encode h \<and> head_consistent h"
  by (auto simp: read_head_def rbind_Inr_iff head_parse_iff split: if_splits)

lemma verify_inner_inv: "verify_inner os j d = Inr fs \<Longrightarrow> holds_chain d (aj_head j) fs"
  by (auto simp: verify_inner_def Let_def rbind_Inr_iff parse_frames_iff holds_chain_def dest!: read_head_inv split: if_splits)

lemma journal_verify_inv:
  assumes "journal_verify os j d = (Inr fs, j')"
  shows "j' = j" "\<not> aj_poisoned j" "holds_chain d (aj_head j) fs"
  using assms verify_inner_inv [of os j d fs] by (auto simp: journal_verify_def split: if_splits sum.splits)

lemma journal_open_inv: "journal_open os jp sp jid sid d = Inr j \<Longrightarrow> \<exists>fs. holds_chain d (aj_head j) fs"
  by (auto simp: journal_open_def rbind_Inr_iff parse_frames_iff holds_chain_def dest!: read_head_inv split: if_splits)

lemma holds_chain_unique:
  assumes "holds_chain d h fs" and "holds_chain d g gs"
  shows "h = g" "fs = gs"
proof -
  show eq: "h = g" using assms head_parse_encode unfolding holds_chain_def by (metis sum.inject(2))
  have "parse_frames (dk_journal d) h = Inr fs" "parse_frames (dk_journal d) h = Inr gs"
    using assms unfolding eq parse_frames_iff holds_chain_def by auto
  then show "fs = gs" by simp
qed

section \<open>Appending a frame\<close>

text \<open>
  Where a write sequence can stop: \<open>leaves r E Q\<close> says that a run ends in a disk satisfying \<open>E\<close> when it
  fails and \<open>Q\<close> when it does not.
\<close>

definition leaves :: "disk_run \<Rightarrow> (disk \<Rightarrow> bool) \<Rightarrow> (disk \<Rightarrow> bool) \<Rightarrow> bool" where
  "leaves r E Q \<longleftrightarrow> (case r of (Inl e, d) \<Rightarrow> E d | (Inr _, d) \<Rightarrow> Q d)"

lemma leaves_then: "leaves r E M \<Longrightarrow> (\<And>d. M d \<Longrightarrow> leaves (f d) E Q) \<Longrightarrow> leaves (then_do r f) E Q"
  by (cases r; cases "fst r") (auto simp: leaves_def then_do_def)

lemma leaves_pure: "E d \<Longrightarrow> Q d \<Longrightarrow> leaves (e, d) E Q"
  by (auto simp: leaves_def split: sum.splits)

definition stopped_in_frame :: "bytes \<Rightarrow> disk \<Rightarrow> disk \<Rightarrow> bool" where
  "stopped_in_frame frame d d' \<longleftrightarrow> dk_state d' = dk_state d \<and> (\<exists>n. dk_journal d' = dk_journal d @ take n frame)"

definition stopped_in_head :: "bytes \<Rightarrow> string \<Rightarrow> disk \<Rightarrow> disk \<Rightarrow> bool" where
  "stopped_in_head frame text d d' \<longleftrightarrow> dk_journal d' = dk_journal d @ frame \<and> (\<exists>n. dk_state d' = take n text)"

definition stopped :: "bytes \<Rightarrow> string \<Rightarrow> disk \<Rightarrow> disk \<Rightarrow> bool" where
  "stopped frame text d d' \<longleftrightarrow> stopped_in_frame frame d d' \<or> stopped_in_head frame text d d'"

definition at_stage :: "disk \<Rightarrow> bytes \<Rightarrow> string \<Rightarrow> disk \<Rightarrow> bool" where
  "at_stage d bs text d' \<longleftrightarrow> dk_journal d' = dk_journal d @ bs \<and> dk_state d' = text"

lemma at_stage_stopped:
  "at_stage d (take n frame) (dk_state d) d' \<Longrightarrow> stopped frame text d d'"
  "at_stage d frame (dk_state d) d' \<Longrightarrow> stopped frame text d d'"
  "at_stage d frame [] d' \<Longrightarrow> stopped frame text d d'"
  "at_stage d frame (take n text) d' \<Longrightarrow> stopped frame text d d'"
  "at_stage d frame text d' \<Longrightarrow> stopped frame text d d'"
  unfolding at_stage_def stopped_def stopped_in_frame_def stopped_in_head_def
  by (auto intro: exI [of _ n] exI [of _ "length frame"] exI [of _ 0] exI [of _ "length text"])

lemma leaves_write_journal:
  assumes "at_stage d old (dk_state d) d1" and "pos = length (dk_journal d1)"
    and "\<And>n. E (d1\<lparr> dk_journal := dk_journal d1 @ take n bs \<rparr>)"
  shows "leaves (write_journal io c pos bs d1) E (at_stage d (old @ bs) (dk_state d))"
  using assms by (auto simp: leaves_def write_journal_def write_at_def at_stage_def split: option.splits)

lemma leaves_write_state:
  assumes "at_stage d frame [] d1"
  shows "leaves (write_state io text d1) (stopped frame text d) (at_stage d frame text)"
  using assms at_stage_stopped(4) [of d frame _ "text"]
  by (auto simp: leaves_def write_state_def write_at_def at_stage_def split: option.splits)

text \<open>A call that touches no file keeps the stage, and every stage may be the last.\<close>

lemma leaves_call:
  "at_stage d bs t d1 \<Longrightarrow> stopped frame text d d1 \<Longrightarrow>
   (\<And>d2. at_stage d bs t d2 \<Longrightarrow> leaves (f d2) (stopped frame text d) Q) \<Longrightarrow>
   leaves (then_do (e, d1) f) (stopped frame text d) Q"
  by (rule leaves_then [OF leaves_pure])

lemma write_frame_leaves:
  assumes "HEADER_LEN \<le> length frame"
  shows "leaves (write_frame io (length (dk_journal d)) frame text d) (stopped frame text d) (at_stage d frame text)"
proof -
  let ?E = "stopped frame text d"
  let ?hdr = "take HEADER_LEN frame"
  let ?Q = "at_stage d frame text"
  have head: "leaves (then_do (ai_truncate io, if isl (ai_truncate io) then d1 else d1\<lparr> dk_state := [] \<rparr>) (\<lambda>d.
     then_do (ai_hook io AfterHeadTruncate, d) (\<lambda>d.
     then_do (ai_seek io False, d) (\<lambda>d.
     then_do (write_state io text d) (\<lambda>d.
     then_do (ai_hook io BeforeHeadSync, d) (\<lambda>d.
     then_do (ai_sync io False, d) (\<lambda>d. (ai_hook io AfterHeadSync, d))))))) ) ?E ?Q"
    if "at_stage d frame (dk_state d) d1" for d1
    apply (rule leaves_then [where M = "at_stage d frame []"])
    subgoal using that at_stage_stopped(2) [OF that, of "text"] by (auto simp: leaves_def at_stage_def split: sum.splits)
    apply (rule leaves_call, assumption, erule at_stage_stopped(3))+
    apply (erule leaves_then [OF leaves_write_state])
    apply (rule leaves_call, assumption, erule at_stage_stopped(5))+
    apply (rule leaves_pure, erule at_stage_stopped, assumption)
    done
  have none: "at_stage d (take 0 frame) (dk_state d) d" by (simp add: at_stage_def)
  have first: "leaves (write_journal io WriteHeader (length (dk_journal d)) ?hdr d1) ?E (at_stage d ?hdr (dk_state d))"
    if stage: "at_stage d (take 0 frame) (dk_state d) d1" for d1
    using that
    by (intro leaves_write_journal [where old = "[]", simplified]) 
      (auto simp: at_stage_def intro!: at_stage_stopped(1) [where n = "min n HEADER_LEN" for n])
  have second: "leaves (write_journal io WritePayload (length (dk_journal d) + HEADER_LEN) (drop HEADER_LEN frame) d1) ?E
      (at_stage d (?hdr @ drop HEADER_LEN frame) (dk_state d))"
    if stage: "at_stage d ?hdr (dk_state d) d1" for d1
    using that assms
    by (intro leaves_write_journal) (auto simp: at_stage_def take_add intro!: at_stage_stopped(1) [where n = "HEADER_LEN + n" for n])
  show ?thesis
    unfolding write_frame_def
    apply (rule leaves_call [OF none], rule at_stage_stopped(1) [OF none])
    apply (rule leaves_call, assumption, erule at_stage_stopped(1))
    apply (rule leaves_then, erule first)
    apply (rule leaves_call, assumption, erule at_stage_stopped(1))
    apply (rule leaves_then, erule second [unfolded append_take_drop_id])
    apply (rule leaves_call, assumption, erule at_stage_stopped(2))+
    apply (erule head)
    done
qed

text \<open>The frame that an append writes, and the head that names it.\<close>

definition new_frame :: "Kind \<Rightarrow> Head \<Rightarrow> bytes \<Rightarrow> Frame" where
  "new_frame kind h payload =
     \<lparr> fr_kind = kind, fr_sequence = hd_sequence h + 1, fr_previous = hd_checksum h, fr_payload = payload,
       fr_checksum = crc64 (frame_body kind (hd_sequence h + 1) (hd_checksum h) payload) \<rparr>"

lemma new_frame_sel [simp]:
  "fr_kind (new_frame k h p) = k" "fr_payload (new_frame k h p) = p" "fr_sequence (new_frame k h p) = hd_sequence h + 1"
  "fr_previous (new_frame k h p) = hd_checksum h"
  by (simp_all add: new_frame_def)

lemma frame_encode_new:
  "frame_encode k (hd_sequence h + 1) (hd_checksum h) payload = Inr frame \<longleftrightarrow>
     frame_ok (new_frame k h payload) \<and> frame = frame_bytes (new_frame k h payload)"
  by (simp add: frame_encode_iff Let_def new_frame_def)

lemma checksum_field: "of_nat (from_be (take 8 (drop (length (frame_bytes f) - TRAILER_LEN) (frame_bytes f)))) = fr_checksum f"
proof -
  have "drop (length (frame_bytes f) - TRAILER_LEN) (frame_bytes f) = be_bytes 8 (unat (fr_checksum f)) @ END_MAGIC"
    by (simp add: frame_bytes_def TRAILER_LEN_def END_MAGIC_def)
  then show ?thesis using unat_less_u64 [of "fr_checksum f"] by (simp add: from_be_be_bytes)
qed

lemma unat_succ: "s \<noteq> u64_max \<Longrightarrow> unat (s + 1) = unat s + 1"
  using unat_neq_max [of s] by (simp add: unat_word_ariths)

definition extends :: "bool \<Rightarrow> string \<Rightarrow> Kind \<Rightarrow> bytes \<Rightarrow> Head \<Rightarrow> Frame list \<Rightarrow> Head \<Rightarrow> Frame list \<Rightarrow> bool" where
  "extends clean broker kind payload h fs h' fs' \<longleftrightarrow>
     fs' = fs @ [new_frame kind h payload] \<and>
     h' = next_head clean broker (of_nat (length (chain_bytes fs'))) (fr_checksum (new_frame kind h payload)) h"

lemma next_head_names:
  assumes h: "head_consistent h" "names_chain h fs" and b: "valid_broker broker" "broker \<noteq> ''none''"
    and f: "frame_ok (new_frame kind h payload)" and s: "hd_sequence h \<noteq> u64_max" and clean: "clean \<Longrightarrow> kind = KCleanCheckpoint"
    and off: "checked_add (hd_offset h) (of_nat (length (frame_bytes (new_frame kind h payload)))) = Some offset" "offset \<le> MAX_JOURNAL"
    and h': "h' = next_head clean broker offset (fr_checksum (new_frame kind h payload)) h" and fs': "fs' = fs @ [new_frame kind h payload]"
  shows "head_consistent h'" "names_chain h' fs'" "extends clean broker kind payload h fs h' fs'"
proof -
  let ?f = "new_frame kind h payload"
  have len: "length (frame_bytes ?f) < 2 ^ 64" "0 < length (frame_bytes ?f)"
    using f by (simp_all add: length_frame_bytes encoded_len_def frame_ok_def MAX_PAYLOAD_def HEADER_LEN_def TRAILER_LEN_def)
  then have offset: "unat offset = unat (hd_offset h) + length (frame_bytes ?f)"
    using off(1) by (simp add: checked_add_Some_iff unat_of_nat)
  then have total: "length (chain_bytes fs') = unat offset" using h(2) by (simp add: fs' names_chain_def)
  have nz: "offset \<noteq> 0" using offset len(2) by auto
  have seq: "unat (hd_sequence h + 1) = unat (hd_sequence h) + 1" using s by (rule unat_succ)
  then have "hd_clean_sequence h \<le> hd_sequence h + 1" "hd_sequence h + 1 \<noteq> 0"
    using h(1) by (auto simp: head_consistent_def word_le_nat_alt)
  then show "head_consistent h'"
    using b off(2) nz by (auto simp: head_consistent_def h' next_head_def word_neq_0_conv)
  have fs: "unat (hd_sequence h) = length fs" using h(2) by (rule names_chain_length)
  have old: "unat (hd_clean_sequence h) - 1 < length fs" if "hd_clean_sequence h \<noteq> 0"
    using that h(2) unat_eq_0 [of "hd_clean_sequence h"] by (auto simp: names_chain_def)
  show "names_chain h' fs'"
    using h(2) f s off(2) total clean fs seq old
    by (auto simp: names_chain_def h' fs' next_head_def chained_append chain_end_append nth_append)
  show "extends clean broker kind payload h fs h' fs'"
    using total by (simp add: extends_def fs' h' del: of_nat_add flip: length_append)
qed

lemma at_stage_holds:
  assumes "holds_chain d h fs" and "extends clean broker kind payload h fs h' fs'" and "head_consistent h'" and "names_chain h' fs'"
    and "at_stage d (frame_bytes (new_frame kind h payload)) (head_encode h') d'"
  shows "holds_chain d' h' fs'"
  using assms by (simp add: holds_chain_def at_stage_def extends_def)

text \<open>Every way an append can end.\<close>

lemma append_inner_outcome:
  assumes run: "append_inner before after io broker kind payload clean recovery (j, d) = (r, j', d')"
    and chain: "holds_chain d (aj_head j) fs"
  obtains (unchanged) "isl r" "d' = d"
  | (wrote) h' fs' where "extends clean broker kind payload (aj_head j) fs h' fs'" "head_consistent h'" "names_chain h' fs'"
      "isl r \<and> stopped (frame_bytes (new_frame kind (aj_head j) payload)) (head_encode h') d d' \<or>
       at_stage d (frame_bytes (new_frame kind (aj_head j) payload)) (head_encode h') d' \<and> (\<not> isl r \<longrightarrow> r = Inr h')"
proof (cases "d' = d \<and> isl r")
  case False
  let ?h = "aj_head j" and ?f = "new_frame kind (aj_head j) payload"
  obtain gs offset where b: "valid_broker broker" "broker \<noteq> ''none''" and v: "journal_verify before j d = (Inr gs, j)"
    and cl: "\<not> (clean \<and> checkpoint_misplaced recovery broker kind ?h gs)" and s: "hd_sequence ?h \<noteq> u64_max"
    and f: "frame_ok ?f" and off: "checked_add (hd_offset ?h) (of_nat (length (frame_bytes ?f))) = Some offset" "offset \<le> MAX_JOURNAL"
    and rest: "commit_frame after io (frame_bytes ?f) (next_head clean broker offset (fr_checksum ?f) ?h) (j, d) = (r, j', d')"
    using run False
    by (auto simp: append_inner_def Let_def frame_encode_new checksum_field not_less
        dest!: journal_verify_inv(1) split: if_splits prod.splits sum.splits option.splits)
  have pos: "unat (hd_offset ?h) = length (dk_journal d)" using chain by (simp add: holds_chain_def names_chain_def)
  have gs: "gs = fs" using holds_chain_unique(2) [OF journal_verify_inv(3) [OF v] chain] .
  have long: "HEADER_LEN \<le> length (frame_bytes ?f)" by (simp add: length_frame_bytes encoded_len_def)
  define h' where "h' = next_head clean broker offset (fr_checksum ?f) ?h"
  note h' = next_head_names [OF _ _ b f s _ off h'_def refl, of fs]
  have "isl r \<and> stopped (frame_bytes ?f) (head_encode h') d d' \<or>
       at_stage d (frame_bytes ?f) (head_encode h') d' \<and> (\<not> isl r \<longrightarrow> r = Inr h')"
    using write_frame_leaves [OF long, of io d "head_encode h'"] rest
    by (auto simp: commit_frame_def leaves_def pos h'_def split: prod.splits sum.splits)
  then show thesis
    using wrote [of h' "fs @ [?f]"] h' chain cl by (auto simp: holds_chain_def checkpoint_misplaced_def)
qed (use unchanged in simp)

lemma stopped_holds:
  assumes d: "holds_chain d h fs" and h': "extends clean broker kind payload h fs h' fs'" "head_consistent h'" "names_chain h' fs'"
    and stop: "stopped (frame_bytes (new_frame kind h payload)) (head_encode h') d d'" and k: "holds_chain d' k gs"
  shows "k = h \<and> gs = fs \<or> k = h' \<and> gs = fs'"
  using stop unfolding stopped_def
proof
  assume "stopped_in_frame (frame_bytes (new_frame kind h payload)) d d'"
  then obtain n where st: "dk_state d' = head_encode h" and j: "dk_journal d' = dk_journal d @ take n (frame_bytes (new_frame kind h payload))"
    using d by (auto simp: stopped_in_frame_def holds_chain_def)
  have eq: "k = h" using st d k head_parse_encode unfolding holds_chain_def by (metis sum.inject(2))
  have "length (dk_journal d') = length (dk_journal d)" using d k unfolding eq holds_chain_def names_chain_def by simp
  then have "take n (frame_bytes (new_frame kind h payload)) = []"
    unfolding j length_append by (simp only: add_cancel_left_right length_0_conv)
  then have "d' = d" using j st d by (simp only: append_Nil2) (simp add: holds_chain_def)
  then show ?thesis using holds_chain_unique [OF d] k by simp
next
  assume "stopped_in_head (frame_bytes (new_frame kind h payload)) (head_encode h') d d'"
  then obtain n where st: "dk_state d' = take n (head_encode h')" and j: "dk_journal d' = chain_bytes fs'"
    using d h'(1) by (auto simp: stopped_in_head_def holds_chain_def extends_def)
  have "head_parse (dk_state d') = Inr k" using k by (simp add: holds_chain_def head_parse_encode)
  then have eq: "k = h'" using head_parse_prefix [OF h'(2)] st by simp
  have "holds_chain \<lparr> dk_journal = dk_journal d', dk_state = head_encode h' \<rparr> h' fs'"
      "holds_chain \<lparr> dk_journal = dk_journal d', dk_state = head_encode h' \<rparr> h' gs"
    using h' j k unfolding eq holds_chain_def by simp_all
  then have "gs = fs'" using holds_chain_unique(2) by blast
  then show ?thesis using eq by blast
qed

lemma append_inner_reads:
  assumes run: "append_inner before after io broker kind payload clean recovery (j, d) = (r, j', d')"
    and d: "holds_chain d (aj_head j) fs" and k: "holds_chain d' k gs"
  shows "isl r \<and> k = aj_head j \<and> gs = fs \<or>
     extends clean broker kind payload (aj_head j) fs k gs \<and> (isl r \<or> r = Inr k)"
  using run d
proof (cases rule: append_inner_outcome)
  case unchanged
  then show ?thesis using holds_chain_unique [OF d] k by simp
next
  case (wrote h' fs')
  from wrote(4) show ?thesis
  proof
    assume "isl r \<and> stopped (frame_bytes (new_frame kind (aj_head j) payload)) (head_encode h') d d'"
    then show ?thesis using stopped_holds [OF d wrote(1-3) _ k] wrote(1) by blast
  next
    assume whole: "at_stage d (frame_bytes (new_frame kind (aj_head j) payload)) (head_encode h') d' \<and> (\<not> isl r \<longrightarrow> r = Inr h')"
    then have "holds_chain d' h' fs'" using at_stage_holds [OF d wrote(1-3)] by blast
    then show ?thesis using holds_chain_unique [OF _ k] wrote(1) whole by blast
  qed
qed

lemma commit_frame_ends:
  assumes "commit_frame after io frame h' (j, d) = (r, j', d')"
  shows "isl r \<and> aj_poisoned j' \<or> r = Inr h' \<and> aj_head j' = h' \<and> \<not> isl (verify_inner after j' d')"
  using assms by (auto simp: commit_frame_def journal_verify_def split: prod.splits sum.splits if_splits)

lemma append_inner_ends:
  assumes "append_inner before after io broker kind payload clean recovery (j, d) = (r, j', d')"
  shows "isl r \<and> (d' = d \<or> aj_poisoned j') \<or> r = Inr (aj_head j') \<and> \<not> isl (verify_inner after j' d')"
  using assms by (auto simp: append_inner_def Let_def dest!: commit_frame_ends split: prod.splits sum.splits if_splits option.splits)

lemma append_inner_writes:
  assumes "append_inner before after io broker kind payload clean recovery (j, d) = (r, j', d')" and "holds_chain d (aj_head j) fs"
  shows "\<exists>n. dk_journal d' = dk_journal d @ take n (frame_bytes (new_frame kind (aj_head j) payload))"
  using assms
proof (cases rule: append_inner_outcome)
  case unchanged
  then show ?thesis by (intro exI [of _ 0]) simp
next
  case (wrote h' fs')
  then show ?thesis by (auto simp: stopped_def stopped_in_frame_def stopped_in_head_def at_stage_def intro: exI [of _ "length (frame_bytes (new_frame kind (aj_head j) payload))"])
qed

section \<open>A healthy append\<close>

text \<open>The head text is short ASCII, so reading it back never meets the size or the encoding check.\<close>

lemma length_show_nat: "n < 10 ^ k \<Longrightarrow> 0 < k \<Longrightarrow> length (show_nat n) \<le> k"
proof (induction k arbitrary: n)
  case (Suc k)
  show ?case
  proof (cases "n < 10")
    case False
    then have "n div 10 < 10 ^ k" "0 < k" using Suc.prems(1) by (auto intro!: Nat.gr0I)
    then show ?thesis using Suc.IH [of "n div 10"] False by (simp add: show_nat.simps [of n])
  qed (simp add: show_nat.simps)
qed simp

lemma length_show_u64: "length (show_u64 w) \<le> 20"
  unfolding show_u64_def by (rule length_show_nat) (use unat_less_u64 [of w] in simp_all)

lemma ascii_text: "(\<And>c. c \<in> set t \<Longrightarrow> of_char c < (128 :: nat)) \<Longrightarrow> valid_utf8 (text_bytes t)"
  unfolding text_bytes_def by (rule valid_utf8_ascii) (auto intro: ascii_char)

lemma head_encode_short:
  assumes "head_consistent h"
  shows "length (head_encode h) \<le> MAX_STATE"
proof -
  have "length (hd_broker h) \<le> 96" using assms by (simp add: head_consistent_def valid_broker_def)
  then show ?thesis
    using length_show_u64 [of "hd_sequence h"] length_show_u64 [of "hd_offset h"] length_show_u64 [of "hd_clean_sequence h"]
    by (cases "hd_mode h") (simp_all add: head_encode_def head_lines_def STATE_VERSION_def mode_name_def MAX_STATE_def)
qed

lemma head_encode_utf8:
  assumes "head_consistent h"
  shows "valid_utf8 (text_bytes (head_encode h))"
proof -
  have num: "of_char c < (128 :: nat)" if "c \<in> set (show_u64 w)" for c w
    using show_nat_digits [of c "unat w"] that by (simp add: show_u64_def)
  have hex: "of_char c < (128 :: nat)" if "c \<in> set (hex_digits 16 w)" for c w
    using hex_digits_chars [of 16 w] that by auto
  have broker: "of_char c < (128 :: nat)" if "c \<in> set (hd_broker h)" for c
    using assms that by (auto simp: head_consistent_def valid_broker_def less_eq_char_def)
  show ?thesis
    using num hex broker by (cases "hd_mode h"; intro ascii_text)
      (auto simp: head_encode_def head_lines_def STATE_VERSION_def mode_name_def)
qed

text \<open>A kernel that finds the pinned files in place and reads them.\<close>

definition files_in_place :: "journal_os \<Rightarrow> AnchoredJournal \<Rightarrow> bool" where
  "files_in_place os j \<longleftrightarrow>
     (\<forall>(p, i) \<in> {(aj_journal_path j, aj_journal_identity j), (aj_state_path j, aj_state_identity j)}.
        jo_open os p = Inr () \<and> jo_entry os p = Inr i \<and> jo_pinned os p = Inr i \<and> jo_nlink os p = Inr 1 \<and> jo_read os p = Inr ())"

definition io_succeeds :: "append_io \<Rightarrow> bool" where
  "io_succeeds io \<longleftrightarrow>
     ai_hook io = (\<lambda>_. Inr ()) \<and> ai_seek io = (\<lambda>_. Inr ()) \<and> ai_write io = (\<lambda>_. None) \<and> ai_truncate io = Inr () \<and> ai_sync io = (\<lambda>_. Inr ())"

lemma read_head_ok:
  assumes "files_in_place os j" and "holds_chain d (aj_head j) fs"
  shows "read_head os (aj_state_path j) d = Inr (aj_head j)"
  using assms head_encode_short [of "aj_head j"] head_encode_utf8 [of "aj_head j"]
  by (simp add: read_head_def files_in_place_def holds_chain_def head_parse_encode)

lemma verify_inner_ok:
  assumes "files_in_place os j" and "holds_chain d (aj_head j) fs"
  shows "verify_inner os j d = Inr fs"
proof -
  have "read_head os (aj_state_path j) d = Inr (aj_head j)" using assms(1,2) read_head_ok by blast
  moreover have "length (dk_journal d) = unat (hd_offset (aj_head j))" "parse_frames (dk_journal d) (aj_head j) = Inr fs"
    using assms(2) by (simp_all add: holds_chain_def names_chain_def parse_frames_iff)
  ultimately show ?thesis using assms(1) by (simp add: verify_inner_def Let_def or_differs_def files_in_place_def)
qed

text \<open>Opening such files gives the same anchored journal again.\<close>

lemma journal_open_ok:
  assumes "holds_chain d (aj_head j) fs" and "files_in_place os j" and "\<not> aj_poisoned j"
  shows "journal_open os (aj_journal_path j) (aj_state_path j) (aj_journal_identity j) (aj_state_identity j) d = Inr j"
proof -
  have "read_head os (aj_state_path j) d = Inr (aj_head j)" using assms(1,2) read_head_ok by blast
  moreover have "length (dk_journal d) = unat (hd_offset (aj_head j))" "parse_frames (dk_journal d) (aj_head j) = Inr fs"
      "hd_offset (aj_head j) \<le> MAX_JOURNAL"
    using assms(1) by (simp_all add: holds_chain_def names_chain_def parse_frames_iff)
  ultimately show ?thesis using assms(2,3) by (simp add: journal_open_def or_differs_def files_in_place_def not_less leD)
qed

lemma write_frame_succeeds:
  assumes "io_succeeds io" and "HEADER_LEN \<le> length frame"
  shows "\<exists>d'. write_frame io (length (dk_journal d)) frame text d = (Inr (), d') \<and> at_stage d frame text d'"
proof -
  have "fst (write_frame io (length (dk_journal d)) frame text d) = Inr ()"
    using assms(1) by (simp add: write_frame_def then_do_def io_succeeds_def write_journal_def write_state_def)
  then show ?thesis using write_frame_leaves [OF assms(2), of io d "text"]
    by (auto simp: leaves_def split: prod.splits sum.splits)
qed

lemma chain_bytes_length: "length fs \<le> length (chain_bytes fs)"
proof (induction fs)
  case (Cons f fs)
  moreover have "1 \<le> length (frame_bytes f)" by (simp add: Suc_leI)
  ultimately show ?case by simp
qed simp

lemma commit_frame_succeeds:
  assumes d: "holds_chain d (aj_head j) fs" and j: "\<not> aj_poisoned j" "files_in_place after j" "io_succeeds io"
    and h': "extends clean broker kind payload (aj_head j) fs h' fs'" "head_consistent h'" "names_chain h' fs'"
  shows "\<exists>d'. commit_frame after io (frame_bytes (new_frame kind (aj_head j) payload)) h' (j, d) = (Inr h', j\<lparr> aj_head := h' \<rparr>, d') \<and>
     verify_inner after (j\<lparr> aj_head := h' \<rparr>) d' = Inr fs'"
proof -
  have pos: "unat (hd_offset (aj_head j)) = length (dk_journal d)" using d by (simp add: holds_chain_def names_chain_def)
  have long: "HEADER_LEN \<le> length (frame_bytes (new_frame kind (aj_head j) payload))" by (simp add: length_frame_bytes encoded_len_def)
  obtain d' where d': "write_frame io (unat (hd_offset (aj_head j))) (frame_bytes (new_frame kind (aj_head j) payload)) (head_encode h') d = (Inr (), d')"
      and stage: "at_stage d (frame_bytes (new_frame kind (aj_head j) payload)) (head_encode h') d'"
    using write_frame_succeeds [OF j(3) long, of d "head_encode h'"] unfolding pos by blast
  have ok: "verify_inner after (j\<lparr> aj_head := h' \<rparr>) d' = Inr fs'"
    using at_stage_holds [OF d h' stage] j(2) by (intro verify_inner_ok) (simp_all add: files_in_place_def)
  then show ?thesis using d' j(1) by (simp add: commit_frame_def journal_verify_def)
qed

text \<open>An append past its checks only commits.\<close>

lemma append_commits:
  assumes v: "verify_inner before j d = Inr fs" and j: "\<not> aj_poisoned j"
    and b: "valid_broker broker" "broker \<noteq> ''none''" "hd_mode (aj_head j) = Dirty \<longrightarrow> hd_broker (aj_head j) = broker"
    and p: "payload \<noteq> []" "length payload \<le> MAX_PAYLOAD"
    and room: "length (dk_journal d) + HEADER_LEN + length payload + TRAILER_LEN \<le> unat MAX_JOURNAL"
  obtains h' where "append_inner before after io broker kind payload False recovery (j, d) =
      commit_frame after io (frame_bytes (new_frame kind (aj_head j) payload)) h' (j, d)"
    "head_consistent h'" "names_chain h' (fs @ [new_frame kind (aj_head j) payload])"
    "extends False broker kind payload (aj_head j) fs h' (fs @ [new_frame kind (aj_head j) payload])"
proof -
  let ?h = "aj_head j" and ?f = "new_frame kind (aj_head j) payload"
  have d: "holds_chain d ?h fs" using v by (rule verify_inner_inv)
  then have h: "head_consistent ?h" "names_chain ?h fs" "length (dk_journal d) = unat (hd_offset ?h)" "length fs \<le> length (dk_journal d)"
    using chain_bytes_length [of fs] by (simp_all add: holds_chain_def names_chain_def)
  have "unat (hd_sequence ?h) = length fs" using h(2) by (rule names_chain_length)
  then have s: "hd_sequence ?h \<noteq> u64_max" using h(4) room by (auto simp: MAX_JOURNAL_def unat_u64_max)
  have f: "frame_ok ?f" using p unat_succ [OF s] by (auto simp: frame_ok_def new_frame_def frame_sum_def)
  have len: "length (frame_bytes ?f) = HEADER_LEN + length payload + TRAILER_LEN" by (simp add: length_frame_bytes encoded_len_def)
  have sum: "unat (hd_offset ?h) + unat (of_nat (length (frame_bytes ?f)) :: u64) \<le> unat MAX_JOURNAL"
  proof -
    have "unat (of_nat n :: u64) \<le> n" for n by (simp add: unat_of_nat)
    from this [of "length (frame_bytes ?f)"] show ?thesis using room h(3) len by linarith
  qed
  define offset where "offset = hd_offset ?h + of_nat (length (frame_bytes ?f))"
  have off: "checked_add (hd_offset ?h) (of_nat (length (frame_bytes ?f))) = Some offset" "offset \<le> MAX_JOURNAL"
    using sum by (simp_all add: checked_add_def offset_def MAX_JOURNAL_def word_le_nat_alt unat_word_ariths)
  define h' where "h' = next_head False broker offset (fr_checksum ?f) ?h"
  note next_h = next_head_names [OF h(1,2) b(1,2) f s _ off h'_def refl, simplified]
  have "append_inner before after io broker kind payload False recovery (j, d) = commit_frame after io (frame_bytes ?f) h' (j, d)"
    using v j b s f off leD [OF off(2)]
    by (auto simp: append_inner_def Let_def journal_verify_def checksum_field h'_def not_less
        frame_encode_new [THEN iffD2, OF conjI])
  then show thesis using that next_h by blast
qed

lemma append_dirty_succeeds:
  assumes v: "verify_inner before j d = Inr fs" and j: "\<not> aj_poisoned j" "files_in_place after j" "io_succeeds io"
    and b: "valid_broker broker" "broker \<noteq> ''none''" "hd_mode (aj_head j) = Dirty \<longrightarrow> hd_broker (aj_head j) = broker"
    and k: "kind \<notin> {KCleanCheckpoint, KRecoveryAudit, KRecoveryCommit}"
    and p: "payload \<noteq> []" "length payload \<le> MAX_PAYLOAD"
    and room: "length (dk_journal d) + HEADER_LEN + length payload + TRAILER_LEN \<le> unat MAX_JOURNAL"
  shows "\<exists>h' d'. append_dirty before after io broker kind payload (j, d) = (Inr h', j\<lparr> aj_head := h' \<rparr>, d') \<and>
     verify_inner after (j\<lparr> aj_head := h' \<rparr>) d' = Inr (fs @ [new_frame kind (aj_head j) payload]) \<and>
     extends False broker kind payload (aj_head j) fs h' (fs @ [new_frame kind (aj_head j) payload])"
proof (rule append_commits [OF v j(1) b p room, of after io kind False])
  fix h'
  assume run: "append_inner before after io broker kind payload False False (j, d) =
      commit_frame after io (frame_bytes (new_frame kind (aj_head j) payload)) h' (j, d)"
    and h': "head_consistent h'" "names_chain h' (fs @ [new_frame kind (aj_head j) payload])"
      "extends False broker kind payload (aj_head j) fs h' (fs @ [new_frame kind (aj_head j) payload])"
  then show ?thesis
    using commit_frame_succeeds [OF verify_inner_inv [OF v] j h'(3,1,2)] k by (auto simp: append_dirty_def)
qed

section \<open>The journal's promises\<close>

text \<open>
  C40. The table-driven CRC used on every frame computes exactly the value of the bit-by-bit register over
  the ECMA polynomial, for every byte string.\<close>

theorem crc64_bitwise: "crc64 bs = crc_bitwise bs"
  unfolding crc64_def crc_bitwise_def by (simp add: crc_step_bitwise cong: foldl_cong)

lemma chained_encodes:
  assumes "chained s p fs"
  shows "list_all2 (\<lambda>f b. frame_encode (fr_kind f) (fr_sequence f) (fr_previous f) (fr_payload f) = Inr b) fs bss \<longleftrightarrow>
     bss = map frame_bytes fs"
  using assms
proof (induction s p fs arbitrary: bss rule: chained.induct)
  case (2 s p f fs)
  have "frame_encode (fr_kind f) (fr_sequence f) (fr_previous f) (fr_payload f) = Inr b \<longleftrightarrow> b = frame_bytes f" for b
    using 2 by (cases f) (auto simp: frame_encode_iff frame_sum_def frame_ok_def Let_def frame_bytes_def)
  then show ?case using 2 by (auto simp: list_all2_Cons1)
qed simp

text \<open>
  C38. A journal file is accepted under a head, and read as a list of frames, if and only if the file is the
  concatenation of the encodings of these frames, they number and link one another without a gap from the
  start, and the head names their end, the file's length and the checkpoint it refers to.\<close>

theorem parse_frames_exactly:
  "parse_frames bs h = Inr fs \<longleftrightarrow>
     names_chain h fs \<and>
     (\<exists>bss. list_all2 (\<lambda>f b. frame_encode (fr_kind f) (fr_sequence f) (fr_previous f) (fr_payload f) = Inr b) fs bss \<and>
            bs = concat bss)"
proof (cases "names_chain h fs")
  case True
  then show ?thesis unfolding parse_frames_iff by (auto simp: names_chain_def chained_encodes chain_bytes_def)
next
  case False
  then show ?thesis unfolding parse_frames_iff by simp
qed


definition demo_files :: journal_os where
  "demo_files = \<lparr> jo_open = (\<lambda>_. Inr ()), jo_entry = (\<lambda>_. Inr (7, 9)), jo_pinned = (\<lambda>_. Inr (7, 9)), jo_nlink = (\<lambda>_. Inr 1),
     jo_read = (\<lambda>_. Inr ()) \<rparr>"

definition demo_anchor :: AnchoredJournal where
  "demo_anchor = \<lparr> aj_journal_path = ''journal'', aj_state_path = ''state'', aj_journal_identity = (7, 9),
     aj_state_identity = (7, 9), aj_head = genesis, aj_poisoned = False \<rparr>"

definition demo_disk :: disk where
  "demo_disk = \<lparr> dk_journal = [], dk_state = head_encode genesis \<rparr>"

definition demo_io :: append_io where
  "demo_io = \<lparr> ai_hook = (\<lambda>_. Inr ()), ai_seek = (\<lambda>_. Inr ()), ai_write = (\<lambda>_. None), ai_truncate = Inr (), ai_sync = (\<lambda>_. Inr ()) \<rparr>"

lemma genesis_consistent: "head_consistent genesis"
  by (simp add: head_consistent_def genesis_def valid_broker_def MAX_JOURNAL_def)

lemma demo_verify: "verify_inner demo_files demo_anchor demo_disk = Inr []"
  by (rule verify_inner_ok) (simp_all add: files_in_place_def demo_files_def demo_anchor_def holds_chain_def demo_disk_def
      genesis_consistent names_chain_def, simp_all add: genesis_def MAX_JOURNAL_def)

definition failing_sync :: append_io where
  "failing_sync = demo_io\<lparr> ai_sync := (\<lambda>journal. if journal then Inr () else Inl ''sync failed'') \<rparr>"

lemma failing_sync_writes:
  assumes "HEADER_LEN \<le> length frame"
  shows "\<exists>d'. write_frame failing_sync (length (dk_journal d)) frame text d = (Inl ''sync failed'', d') \<and> at_stage d frame text d'"
  using assms by (simp add: write_frame_def then_do_def failing_sync_def demo_io_def write_journal_def write_state_def write_at_def at_stage_def)

lemma demo_late_failure:
  "\<exists>h' j' d'. append_inner demo_files demo_files failing_sync ''b1'' KBrokerBirth [1] False False (demo_anchor, demo_disk) = (Inl ''sync failed'', j', d') \<and>
     d' \<noteq> demo_disk \<and> verify_inner demo_files (demo_anchor\<lparr> aj_head := h' \<rparr>) d' = Inr [new_frame KBrokerBirth genesis [1]]"
proof (rule append_commits [OF demo_verify, of "''b1''" "[1]" demo_files failing_sync KBrokerBirth False])
  show "valid_broker ''b1''" by code_simp
  let ?f = "new_frame KBrokerBirth genesis [1]"
  have head: "aj_head demo_anchor = genesis" by (simp add: demo_anchor_def)
  fix h'
  assume run: "append_inner demo_files demo_files failing_sync ''b1'' KBrokerBirth [1] False False (demo_anchor, demo_disk) =
      commit_frame demo_files failing_sync (frame_bytes (new_frame KBrokerBirth (aj_head demo_anchor) [1])) h' (demo_anchor, demo_disk)"
    and h': "head_consistent h'" "names_chain h' ([] @ [new_frame KBrokerBirth (aj_head demo_anchor) [1]])"
      "extends False ''b1'' KBrokerBirth [1] (aj_head demo_anchor) [] h' ([] @ [new_frame KBrokerBirth (aj_head demo_anchor) [1]])"
  have pos: "unat (hd_offset genesis) = length (dk_journal demo_disk)" by (simp add: genesis_def demo_disk_def)
  obtain d' where d': "write_frame failing_sync (length (dk_journal demo_disk)) (frame_bytes ?f) (head_encode h') demo_disk = (Inl ''sync failed'', d')"
      "at_stage demo_disk (frame_bytes ?f) (head_encode h') d'"
    using failing_sync_writes [of "frame_bytes ?f" demo_disk "head_encode h'"] by (auto simp: length_frame_bytes encoded_len_def)
  have "holds_chain d' h' [?f]" using at_stage_holds [OF verify_inner_inv [OF demo_verify] h'(3,1,2)] d'(2) head by simp
  then have "verify_inner demo_files (demo_anchor\<lparr> aj_head := h' \<rparr>) d' = Inr [?f]"
    by (intro verify_inner_ok) (simp_all add: files_in_place_def demo_files_def demo_anchor_def)
  moreover have "d' \<noteq> demo_disk" using d'(2) length_frame_bytes [of ?f] by (auto simp: at_stage_def demo_disk_def encoded_len_def HEADER_LEN_def)
  ultimately show ?thesis using run d'(1) head pos by (auto simp: commit_frame_def)
qed (simp_all add: demo_anchor_def genesis_def MAX_PAYLOAD_def demo_disk_def HEADER_LEN_def TRAILER_LEN_def MAX_JOURNAL_def)


text \<open>
  C39. With the files in place and a kernel that does not fail, an append to an intact journal that has room
  for the frame succeeds: it returns the new head, the files verify under it, and the frames read back are
  the old ones followed by the new one.\<close>

theorem append_dirty_appends:
  assumes "verify_inner before j d = Inr fs" and "\<not> aj_poisoned j" and "files_in_place after j" and "io_succeeds io"
    and "valid_broker broker" and "broker \<noteq> ''none''" and "hd_mode (aj_head j) = Dirty \<longrightarrow> hd_broker (aj_head j) = broker"
    and "kind \<notin> {KCleanCheckpoint, KRecoveryAudit, KRecoveryCommit}"
    and "payload \<noteq> []" and "length payload \<le> MAX_PAYLOAD"
    and "length (dk_journal d) + HEADER_LEN + length payload + TRAILER_LEN \<le> unat MAX_JOURNAL"
  shows "\<exists>h' d'. append_dirty before after io broker kind payload (j, d) = (Inr h', j\<lparr> aj_head := h' \<rparr>, d') \<and>
     verify_inner after (j\<lparr> aj_head := h' \<rparr>) d' = Inr (fs @ [new_frame kind (aj_head j) payload]) \<and>
     extends False broker kind payload (aj_head j) fs h' (fs @ [new_frame kind (aj_head j) payload])"
  using append_dirty_succeeds assms by blast

theorem append_dirty_appends_witness:
  "\<exists>h' d'. append_dirty demo_files demo_files demo_io ''b1'' KBrokerBirth [1] (demo_anchor, demo_disk) =
       (Inr h', demo_anchor\<lparr> aj_head := h' \<rparr>, d') \<and>
     verify_inner demo_files (demo_anchor\<lparr> aj_head := h' \<rparr>) d' = Inr ([] @ [new_frame KBrokerBirth (aj_head demo_anchor) [1]]) \<and>
     extends False ''b1'' KBrokerBirth [1] (aj_head demo_anchor) [] h' ([] @ [new_frame KBrokerBirth (aj_head demo_anchor) [1]])"
proof (rule append_dirty_appends [OF demo_verify])
  show "valid_broker ''b1''" by code_simp
qed (simp_all add: demo_anchor_def genesis_def files_in_place_def demo_files_def io_succeeds_def demo_io_def MAX_PAYLOAD_def
    demo_disk_def HEADER_LEN_def TRAILER_LEN_def MAX_JOURNAL_def)

end
