(* ===== verification/CodecLaws.thy ===== *)
theory CodecLaws
  imports RecoveryCodec JournalLaws
begin

text \<open>
  Recovery events have one text each. Every reader of the codec takes out of the map exactly the fields
  that the matching writer puts there, a law composed from the readers of single fields up to the whole
  event; the map and its text determine each other. So \<^const>\<open>encode_event\<close> and \<^const>\<open>decode_event\<close> are
  inverse to one another, and encoding fails only for events that have no text.
\<close>

section \<open>Readers and writers of fields\<close>

text \<open>Taking the listed fields one after another out of a map leaves another.\<close>

fun splits :: "Fields \<Rightarrow> (string \<times> string) list \<Rightarrow> Fields \<Rightarrow> bool" where
  "splits fs [] fs' \<longleftrightarrow> fs' = fs"
| "splits fs ((k, v) # kvs) fs' \<longleftrightarrow> bt_get fs k = Some v \<and> splits (bt_remove k fs) kvs fs'"

lemma splits_append: "splits fs (xs @ ys) fs'' \<longleftrightarrow> (\<exists>fs'. splits fs xs fs' \<and> splits fs' ys fs'')"
  by (induction fs xs fs'' rule: splits.induct) auto

locale field_codec =
  fixes puts :: "'a \<Rightarrow> (string \<times> string) list" and takes :: "'a reader" and ok :: "'a \<Rightarrow> bool"
  assumes law: "takes fs = Inr (x, fs') \<longleftrightarrow> ok x \<and> splits fs (puts x) fs'"
begin

lemma reads_put: "ok x \<Longrightarrow> splits fs (puts x) fs' \<Longrightarrow> takes fs = Inr (x, fs')"
  using law by blast

lemma read_then_iff:
  "read_then takes f fs = Inr (y, fs'') \<longleftrightarrow> (\<exists>x fs'. ok x \<and> splits fs (puts x) fs' \<and> f x fs' = Inr (y, fs''))"
  by (auto simp: read_then_def rbind_Inr_iff law)

end

lemma give_iff: "give x fs = Inr (y, fs') \<longleftrightarrow> y = x \<and> fs' = fs"
  by (auto simp: give_def)

interpretation field: field_codec "\<lambda>v. [(key, v)]" "take_field key" "\<lambda>v. True" for key
  by unfold_locales (auto simp: take_field_def split: option.splits)

interpretation u64: field_codec "\<lambda>n. [(key, show_u64 n)]" "take_u64 key" "\<lambda>n. True" for key
proof unfold_locales
  fix fs fs' :: Fields and n :: u64
  show "take_u64 key fs = Inr (n, fs') \<longleftrightarrow> True \<and> splits fs [(key, show_u64 n)] fs'"
  proof (cases "bt_get fs key")
    case (Some v)
    then show ?thesis
      by (auto simp: take_u64_def read_then_def take_field_def split: option.splits if_splits)
  qed (simp add: take_u64_def read_then_def take_field_def)
qed

lemma unat_u32_less: "unat (n :: u32) < 2 ^ 32"
  by (rule order_less_le_trans [OF unsigned_less]) simp

lemma unat_up: "unat (ucast (n :: u32) :: u64) = unat n"
  using unat_u32_less [of n] by (simp add: unsigned_ucast_eq take_bit_nat_eq_self_iff)

lemma ucast_down: "unat m < 2 ^ 32 \<Longrightarrow> unat (ucast (m :: u64) :: u32) = unat m"
  by (simp add: unsigned_ucast_eq take_bit_nat_eq_self_iff)

interpretation u32: field_codec "\<lambda>n. [(key, show_u32 n)]" "take_u32 key" "\<lambda>n. True" for key
proof unfold_locales
  fix fs fs' :: Fields and n :: u32
  have "show_u64 (ucast n) = show_u32 n" by (simp add: show_u64_def show_u32_def unat_up)
  moreover have "unat (ucast n :: u64) < 2 ^ 32" unfolding unat_up by (rule unat_u32_less)
  moreover have "ucast (ucast n :: u64) = n" by (simp add: word_unat_eq_iff ucast_down unat_up unat_u32_less [simplified])
  moreover have "show_u64 m = show_u32 (ucast m)" if "unat m < 2 ^ 32" for m :: u64
    using that by (simp add: show_u64_def show_u32_def ucast_down)
  ultimately show "take_u32 key fs = Inr (n, fs') \<longleftrightarrow> True \<and> splits fs [(key, show_u32 n)] fs'"
    by (auto simp: take_u32_def u64.read_then_iff split: if_splits intro!: exI [of _ "ucast n"])
qed

definition i32_ok :: "int \<Rightarrow> bool" where "i32_ok i \<longleftrightarrow> 0 \<le> i \<and> i < 2 ^ 31"

lemma show_int_uint: "show_int (uint m) = show_u64 m"
  by (simp add: show_int_def show_u64_def)

interpretation i32: field_codec "\<lambda>i. [(key, show_int i)]" "take_i32 key" i32_ok for key
proof unfold_locales
  fix fs fs' :: Fields and i :: int
  have i: "uint (word_of_int i :: u64) = i" "unat (word_of_int i :: u64) < 2 ^ 31" if "i32_ok i"
    using that by (simp_all add: i32_ok_def unsigned_of_int take_bit_int_eq_self nat_less_iff)
  have m: "i32_ok (uint m)" if "unat m < 2 ^ 31" for m :: u64
    using that by (simp add: i32_ok_def) (metis int_less_real_le of_nat_less_numeral_iff uint_nat)
  show "take_i32 key fs = Inr (i, fs') \<longleftrightarrow> i32_ok i \<and> splits fs [(key, show_int i)] fs'"
  proof
    assume "i32_ok i \<and> splits fs [(key, show_int i)] fs'"
    then have "i32_ok i" "splits fs [(key, show_u64 (word_of_int i))] fs'" using i(1) show_int_uint [of "word_of_int i"] by auto
    then show "take_i32 key fs = Inr (i, fs')"
      unfolding take_i32_def u64.read_then_iff using i by (intro exI [of _ "word_of_int i"]) auto
  qed (use m in \<open>auto simp: take_i32_def u64.read_then_iff show_int_uint split: if_splits\<close>)
qed

lemma purpose_name_inject [simp]: "purpose_name p = purpose_name q \<longleftrightarrow> p = q"
  by (cases p; cases q) simp_all

interpretation purpose: field_codec "\<lambda>p. [(''purpose'', purpose_name p)]" take_purpose "\<lambda>p. True"
proof unfold_locales
  fix fs fs' :: Fields and p :: Purpose
  show "take_purpose fs = Inr (p, fs') \<longleftrightarrow> True \<and> splits fs [(''purpose'', purpose_name p)] fs'"
  proof (cases "bt_get fs ''purpose''")
    case (Some v)
    then show ?thesis
      by (cases p) (auto simp: take_purpose_def read_then_def take_field_def)
  qed (simp add: take_purpose_def read_then_def take_field_def)
qed

text \<open>Composite readers: the law follows from the laws of the parts.\<close>

lemmas codec_iff = field.read_then_iff u64.read_then_iff u32.read_then_iff i32.read_then_iff purpose.read_then_iff give_iff

definition birth_ok :: "ProcessBirth \<Rightarrow> bool" where "birth_ok b \<longleftrightarrow> i32_ok (pb_pid b)"

interpretation birth: field_codec "put_birth pre" "take_birth pre" birth_ok for pre
proof unfold_locales
  fix fs fs' :: Fields and b
  show "take_birth pre fs = Inr (b, fs') \<longleftrightarrow> birth_ok b \<and> splits fs (put_birth pre b) fs'"
    by (cases b) (auto simp: take_birth_def codec_iff put_birth_def birth_ok_def)
qed

definition backing_ok :: "BackingIdentity \<Rightarrow> bool" where
  "backing_ok b \<longleftrightarrow> birth_ok (bi_owner b) \<and> i32_ok (bi_memfd_seals b)"

interpretation backing: field_codec put_backing take_backing backing_ok
proof unfold_locales
  fix fs fs' :: Fields and b
  show "take_backing fs = Inr (b, fs') \<longleftrightarrow> backing_ok b \<and> splits fs (put_backing b) fs'"
    by (cases b) (auto simp: take_backing_def codec_iff birth.read_then_iff put_backing_def backing_ok_def splits_append)
qed

text \<open>A parent identifier of zero is written as an absent parent, so it cannot be read back.\<close>

definition view_ok :: "ViewIdentity \<Rightarrow> bool" where
  "view_ok v \<longleftrightarrow> birth_ok (vi_accessor v) \<and> vi_parent_view_id v \<noteq> Some 0"

lemma parent_field:
  "q = (if p = 0 then None else Some (p :: u64)) \<longleftrightarrow> q \<noteq> Some 0 \<and> p = (case q of None \<Rightarrow> 0 | Some p \<Rightarrow> p)"
  by (cases q) auto

interpretation view: field_codec put_view take_view view_ok
proof unfold_locales
  fix fs fs' :: Fields and v
  show "take_view fs = Inr (v, fs') \<longleftrightarrow> view_ok v \<and> splits fs (put_view v) fs'"
    by (cases v) (auto simp: take_view_def codec_iff birth.read_then_iff put_view_def view_ok_def splits_append parent_field)
qed

interpretation work: field_codec put_work take_work "\<lambda>w. True"
proof unfold_locales
  fix fs fs' :: Fields and w
  show "take_work fs = Inr (w, fs') \<longleftrightarrow> True \<and> splits fs (put_work w) fs'"
    by (cases w) (auto simp: take_work_def codec_iff put_work_def)
qed

interpretation snapshot: field_codec put_snapshot take_snapshot "\<lambda>s. True"
proof unfold_locales
  fix fs fs' :: Fields and s
  show "take_snapshot fs = Inr (s, fs') \<longleftrightarrow> True \<and> splits fs (put_snapshot s) fs'"
    by (cases s) (auto simp: take_snapshot_def codec_iff put_snapshot_def)
qed

interpretation domain: field_codec put_domain take_domain "\<lambda>d. True"
proof unfold_locales
  fix fs fs' :: Fields and d
  show "take_domain fs = Inr (d, fs') \<longleftrightarrow> True \<and> splits fs (put_domain d) fs'"
    by (cases d) (auto simp: take_domain_def codec_iff put_domain_def)
qed

fun kind_ok :: "EventKind \<Rightarrow> bool" where
  "kind_ok (BrokerBirth b) = birth_ok b"
| "kind_ok (RegisterIntent b) = backing_ok b"
| "kind_ok (ViewIntent v) = view_ok v"
| "kind_ok (PeerTerminated b) = birth_ok b"
| "kind_ok _ = True"

lemmas part_iff = codec_iff birth.read_then_iff backing.read_then_iff view.read_then_iff work.read_then_iff snapshot.read_then_iff

lemma take_pair_iff:
  "take_pair k k' f fs = Inr (y, fs') \<longleftrightarrow> (\<exists>a b. y = f a b \<and> splits fs [(k, show_u64 a), (k', show_u64 b)] fs')"
  by (auto simp: take_pair_def codec_iff)

lemma take_work_id_iff: "take_work_id f fs = Inr (y, fs') \<longleftrightarrow> (\<exists>a. y = f a \<and> splits fs [(''work_id'', show_u64 a)] fs')"
  by (auto simp: take_work_id_def codec_iff)

text \<open>The reader chosen by a type name reads the events of that type.\<close>

lemma take_kind_own: "take_kind (fst (kind_name k)) fs = Inr (k, fs') \<longleftrightarrow> kind_ok k \<and> splits fs (put_kind k) fs'"
  by (cases k) (auto simp: take_kind_def part_iff take_pair_iff take_work_id_iff put_backing_id_def put_view_id_def)

lemma take_kind_name: "take_kind name fs = Inr (k, fs') \<Longrightarrow> fst (kind_name k) = name"
  by (auto simp: take_kind_def part_iff take_pair_iff take_work_id_iff split: if_splits)

lemma take_kind_then:
  "read_then (take_kind name) f fs = Inr (y, fs'') \<longleftrightarrow>
     (\<exists>k fs'. fst (kind_name k) = name \<and> kind_ok k \<and> splits fs (put_kind k) fs' \<and> f k fs' = Inr (y, fs''))"
proof -
  have "take_kind name fs = Inr (k, fs') \<longleftrightarrow> fst (kind_name k) = name \<and> kind_ok k \<and> splits fs (put_kind k) fs'" for k fs'
    using take_kind_own [of k] take_kind_name [of name] by metis
  then show ?thesis by (auto simp: read_then_def rbind_Inr_iff)
qed

interpretation event: field_codec put_event take_event "\<lambda>e. kind_ok (au_kind e)"
proof unfold_locales
  fix fs fs' :: Fields and e :: Event
  show "take_event fs = Inr (e, fs') \<longleftrightarrow> kind_ok (au_kind e) \<and> splits fs (put_event e) fs'"
    by (cases e) (auto simp: take_event_def codec_iff domain.read_then_iff take_kind_then put_event_def splits_append split: if_splits)
qed

section \<open>The map and its text\<close>

lemma bt_remove_commute: "bt_remove k (bt_remove k' m) = bt_remove k' (bt_remove k m)"
  by (simp add: bt_remove_def conj_commute)

lemma bt_insert_remove:
  assumes "bt_wf fs" and "bt_wf g"
  shows "fs = bt_insert k v g \<and> bt_get g k = None \<longleftrightarrow> bt_get fs k = Some v \<and> g = bt_remove k fs"
proof
  assume "fs = bt_insert k v g \<and> bt_get g k = None"
  then show "bt_get fs k = Some v \<and> g = bt_remove k fs"
    using assms by (auto simp: store_laws intro!: bt_ext [OF assms(2)])
next
  assume "bt_get fs k = Some v \<and> g = bt_remove k fs"
  then show "fs = bt_insert k v g \<and> bt_get g k = None"
    using assms by (auto simp: store_laws intro!: bt_ext [OF assms(1)])
qed

lemma splits_insert:
  assumes "bt_wf fs" and "bt_wf g"
  shows "splits fs kvs (bt_insert k v g) \<and> bt_get g k = None \<longleftrightarrow> bt_get fs k = Some v \<and> splits (bt_remove k fs) kvs g"
  using assms(1)
proof (induction kvs arbitrary: fs)
  case Nil
  then show ?case using bt_insert_remove [OF Nil assms(2), of k v] by (metis splits.simps(1))
next
  case (Cons kv kvs)
  obtain k1 v1 where kv: "kv = (k1, v1)" by fastforce
  show ?case
    using Cons.IH [OF bt_wf_remove [OF Cons.prems]] by (auto simp: kv store_laws bt_remove_commute split: if_splits)
qed

lemma put_all_iff: "bt_wf g \<Longrightarrow> put_all g kvs = Inr fs \<longleftrightarrow> bt_wf fs \<and> splits fs kvs g"
proof (induction g kvs rule: put_all.induct)
  case (2 g k v kvs)
  show ?case
  proof (cases "bt_get g k = None")
    case True
    then have "put_all g ((k, v) # kvs) = Inr fs \<longleftrightarrow> bt_wf fs \<and> splits fs kvs (bt_insert k v g)"
      using 2 by (simp add: put_def)
    then show ?thesis using splits_insert [OF _ 2(2), of fs kvs k v] True by auto
  next
    case False
    then show ?thesis using splits_insert [OF _ 2(2), of fs kvs k v] by (auto simp: put_def)
  qed
qed auto

lemma insert_parts_wf: "insert_parts g parts = Inr fs \<Longrightarrow> bt_wf g \<Longrightarrow> bt_wf fs"
  by (induction g parts rule: insert_parts.induct) (auto split: option.splits if_splits)

lemma token_avoids:
  assumes "token v" and "c \<in> set v"
  shows "c \<noteq> CHR ''=''" "c \<noteq> CHR '';''" "of_char c < (128 :: nat)"
proof -
  have c: "is_alnum c \<or> c \<in> set ''._-''" using assms by (auto simp: token_def)
  show "c \<noteq> CHR ''=''" "c \<noteq> CHR '';''" using c by (auto simp: is_alnum_def less_eq_char_def)
  show "of_char c < (128 :: nat)" using c by (auto simp: is_alnum_def less_eq_char_def)
qed

lemma insert_parts_pairs:
  "bt_wf (g @ kvs) \<Longrightarrow> \<forall>(k, v) \<in> set kvs. token k \<and> token v \<Longrightarrow>
   insert_parts g (map (\<lambda>(k, v). k @ ''='' @ v) kvs) = Inr (g @ kvs)"
proof (induction kvs arbitrary: g)
  case (Cons kv kvs)
  obtain k v where kv: "kv = (k, v)" by fastforce
  have below: "\<forall>x \<in> set g. fst x < k" using Cons.prems kv by (auto simp: bt_wf_def sorted_wrt_append)
  then have "bt_insert k v g = g @ [(k, v)]" by (rule bt_insert_snoc)
  moreover have "bt_get g k = None" using below by (auto simp: bt_get_def map_of_eq_None_iff)
  moreover have "split_once (CHR ''='') (k @ CHR ''='' # v) = Some (k, v)"
    using Cons.prems(2) token_avoids(1) [of k] by (intro split_once_append) (auto simp: kv)
  ultimately show ?case using Cons kv by simp
qed simp

lemma bytes_text_bytes: "bytes_text (text_bytes t) = t"
proof -
  have "char_of (unat (of_char c :: u8)) = c" for c
  proof -
    have "of_char c < (256 :: nat)" by (cases c) simp
    then have "unat (of_nat (of_char c) :: u8) = of_char c" by (simp add: unat_of_nat)
    then show ?thesis by (simp add: of_nat_of_char)
  qed
  then show ?thesis by (simp add: bytes_text_def text_bytes_def comp_def)
qed

lemma parse_fields_iff: "parse_fields p = Inr fs \<longleftrightarrow> bt_wf fs \<and> encode_fields fs = Inr p"
proof
  assume "parse_fields p = Inr fs"
  then show "bt_wf fs \<and> encode_fields fs = Inr p"
    by (auto simp: parse_fields_def Let_def rbind_Inr_iff bt_wf_def [of "[]"] dest: insert_parts_wf split: if_splits)
next
  assume asm: "bt_wf fs \<and> encode_fields fs = Inr p"
  let ?parts = "map (\<lambda>(k, v). k @ ''='' @ v) fs"
  have p: "p = text_bytes (join '';'' ?parts @ [newline])" "length p \<le> 8192" and tok: "fs \<noteq> []" "\<forall>(k, v) \<in> set fs. token k \<and> token v"
    using asm by (auto simp: encode_fields_def Let_def text_bytes_def split: if_splits)
  have free: "CHR '';'' \<notin> set w" "\<forall>c \<in> set w. of_char c < (128 :: nat)" if "w \<in> set ?parts" for w
    using that tok(2) token_avoids by fastforce+
  have "split_on (CHR '';'') (join '';'' ?parts) = ?parts" using free(1) tok(1) by (intro split_on_join) auto
  moreover have "insert_parts [] ?parts = Inr fs" using insert_parts_pairs [of "[]" fs] asm tok(2) by simp
  moreover have "of_char c < (128 :: nat)" if c: "c \<in> set (join '';'' ?parts)" for c
    using set_join [OF c] free(2) by (auto simp del: set_map)
  then have "valid_utf8 p" unfolding p(1) by (intro ascii_text) auto
  ultimately show "parse_fields p = Inr fs"
    using asm p(2) unfolding parse_fields_def by (simp add: p(1) bytes_text_bytes not_less)
qed

section \<open>Events and their text\<close>

lemma decode_event_iff:
  "decode_event f = Inr e \<longleftrightarrow>
     kind_ok (au_kind e) \<and> snd (kind_name (au_kind e)) = fr_kind f \<and>
     (\<exists>fs. put_all [] (put_event e) = Inr fs \<and> encode_fields fs = Inr (fr_payload f))"
proof -
  have wf: "bt_wf ([] :: Fields)" by (simp add: bt_wf_def)
  have "decode_event f = Inr e \<longleftrightarrow>
      (\<exists>fs. parse_fields (fr_payload f) = Inr fs \<and> take_event fs = Inr (e, []) \<and> snd (kind_name (au_kind e)) = fr_kind f)"
    by (auto simp: decode_event_def rbind_Inr_iff split: if_splits)
  then show ?thesis unfolding parse_fields_iff event.law put_all_iff [OF wf] by blast
qed

lemma encode_event_iff:
  "encode_event e = Inr (k, p) \<longleftrightarrow>
     kind_ok (au_kind e) \<and> snd (kind_name (au_kind e)) = k \<and>
     (\<exists>fs. put_all [] (put_event e) = Inr fs \<and> encode_fields fs = Inr p)"
  by (auto simp: encode_event_def Let_def rbind_Inr_iff decode_event_iff split: if_splits)

text \<open>No two keys of an event agree, so \<^const>\<open>put\<close> never finds its key taken, and all keys are tokens.\<close>

lemmas put_defs = put_event_def put_domain_def put_birth_def put_backing_def put_view_def put_work_def put_snapshot_def
  put_backing_id_def put_view_id_def

lemma put_event_distinct: "distinct (map fst (put_event e))"
  by (cases "au_kind e") (simp_all add: put_defs)

lemma put_event_count: "length (put_event e) \<le> 31"
  by (cases "au_kind e") (simp_all add: put_defs)

lemma put_event_keys: "list_all token (map fst (put_event e))"
  by (cases "au_kind e") (simp_all add: put_defs, code_simp+)

lemma length_bt_insert_new: "bt_get m k = None \<Longrightarrow> length (bt_insert k v m) = Suc (length m)"
  by (induction k v m rule: bt_insert.induct) (auto simp: bt_get_def split: if_splits)

lemma set_bt_insert: "bt_get m k = None \<Longrightarrow> set (bt_insert k v m) = insert (k, v) (set m)"
  by (induction k v m rule: bt_insert.induct) (auto simp: bt_get_def split: if_splits)

lemma put_all_distinct:
  "bt_wf g \<Longrightarrow> distinct (map fst kvs) \<Longrightarrow> \<forall>kv \<in> set kvs. bt_get g (fst kv) = None \<Longrightarrow>
   \<exists>fs. put_all g kvs = Inr fs \<and> set fs = set g \<union> set kvs \<and> length fs = length g + length kvs"
proof (induction g kvs rule: put_all.induct)
  case (2 g k v kvs)
  have new: "bt_get g k = None" using 2 by simp
  then have "put_all g ((k, v) # kvs) = put_all (bt_insert k v g) kvs" by (simp add: put_def)
  moreover have "\<forall>kv \<in> set kvs. bt_get (bt_insert k v g) (fst kv) = None" using 2 by (auto simp: bt_get_insert)
  ultimately show ?case
    using "2.IH" [of "bt_insert k v g"] 2 new by (auto simp: put_def length_bt_insert_new set_bt_insert)
qed simp

lemma length_join: "length (join [d] ws) \<le> sum_list (map (\<lambda>w. length w + 1) ws)"
  by (induction "[d]" ws rule: join.induct) auto

lemma encode_fields_short:
  assumes "fs \<noteq> []" and "\<forall>(k, v) \<in> set fs. token k \<and> token v" and "length fs \<le> 42"
  shows "\<exists>p. encode_fields fs = Inr p"
proof -
  have "length (k @ ''='' @ v) + 1 \<le> 194" if "(k, v) \<in> set fs" for k v using that assms(2) by (fastforce simp: token_def)
  then have "sum_list (map (\<lambda>w. length w + 1) (map (\<lambda>(k, v). k @ ''='' @ v) fs)) \<le> sum_list (map (\<lambda>_. 194) fs)"
    unfolding map_map comp_def by (intro sum_list_mono) (auto simp: case_prod_beta)
  then have "length (join '';'' (map (\<lambda>(k, v). k @ ''='' @ v) fs)) < 8192"
    using length_join [of "CHR '';''" "map (\<lambda>(k, v). k @ ''='' @ v) fs"] assms(3) by (simp add: sum_list_triv)
  then show ?thesis using assms(1,2) by (auto simp: encode_fields_def Let_def)
qed

text \<open>The values of an event that are free text; all others are printed numbers and names.\<close>

fun kind_texts :: "EventKind \<Rightarrow> string list" where
  "kind_texts (RegisterIntent b) = [bi_owner_incarnation b]"
| "kind_texts (ViewIntent v) = [vi_accessor_incarnation v]"
| "kind_texts (WorkIntent w) = [wi_snapshot_version w, wi_evidence_version w, wi_cost_version w, wi_worker_id w]"
| "kind_texts _ = []"

definition event_texts :: "Event \<Rightarrow> string list" where
  "event_texts e =
     [do_host (au_domain e), do_boot (au_domain e), do_domain (au_domain e), do_broker (au_domain e)] @ kind_texts (au_kind e)"

lemma token_digits: "n < 10 ^ 96 \<Longrightarrow> token (show_nat n)"
proof -
  assume "n < 10 ^ 96"
  then have "length (show_nat n) \<le> 96" by (rule length_show_nat) simp
  moreover have "is_alnum c" if "c \<in> set (show_nat n)" for c
    using show_nat_digits [OF that] by (simp add: is_alnum_def less_eq_char_def)
  ultimately show "token (show_nat n)" by (auto simp: token_def)
qed

lemma token_u64 [simp]: "token (show_u64 w)"
  unfolding show_u64_def by (rule token_digits) (rule order_less_trans [OF unat_less_u64], simp)

lemma token_u32 [simp]: "token (show_u32 w)"
  unfolding show_u32_def by (rule token_digits) (rule order_less_trans [OF unat_u32_less], simp)

lemma token_i32: "i32_ok i \<Longrightarrow> token (show_int i)"
proof -
  assume "i32_ok i"
  then have "nat i < 2 ^ 31" "\<not> i < 0" by (auto simp: i32_ok_def nat_less_iff)
  then show "token (show_int i)" unfolding show_int_def
    by simp (rule token_digits, rule order_less_trans, assumption, simp)
qed

lemma token_purpose [simp]: "token (purpose_name p)"
  by (cases p) (simp_all, code_simp+)

lemma token_type [simp]: "token (fst (kind_name k))"
  by (cases k) (simp_all, code_simp+)

lemma token_schema [simp]: "token SCHEMA"
  by code_simp

lemma put_event_values:
  assumes "kind_ok (au_kind e)"
  shows "list_all token (map snd (put_event e)) \<longleftrightarrow> list_all token (event_texts e)"
  using assms token_type [of "au_kind e"]
  by (cases "au_kind e") (auto simp: put_defs event_texts_def token_i32 birth_ok_def backing_ok_def view_ok_def)

section \<open>The codec's promises\<close>

text \<open>
  C37. Encoding and decoding recovery events are inverse to one another: an event encodes to a frame kind
  and a payload if and only if a frame with that kind and payload, wherever it stands in the journal,
  decodes to the event. In particular every accepted payload is the one canonical text of its event.\<close>

theorem encode_decode_event:
  "encode_event e = Inr (k, p) \<longleftrightarrow>
     decode_event \<lparr> fr_kind = k, fr_sequence = s, fr_previous = q, fr_payload = p, fr_checksum = c \<rparr> = Inr e"
  unfolding encode_event_iff decode_event_iff by simp

text \<open>
  Encoding succeeds exactly on the events whose free texts are tokens, whose process identifiers and seals
  are not negative and whose view parent is not the reserved zero: no event has two fields of one name and
  no such event exceeds the frame limit.
\<close>

lemma encode_event_total:
  "(\<exists>p. encode_event e = Inr (k, p)) \<longleftrightarrow>
     k = snd (kind_name (au_kind e)) \<and> kind_ok (au_kind e) \<and> list_all token (event_texts e)"
proof -
  have wf: "bt_wf ([] :: Fields)" by (simp add: bt_wf_def)
  obtain fs where fs: "put_all [] (put_event e) = Inr fs" "set fs = set (put_event e)" "length fs = length (put_event e)"
    using put_all_distinct [OF wf put_event_distinct, of e] by (auto simp: bt_get_def)
  have nonempty: "fs \<noteq> []" using fs(3) by (auto simp: put_event_def)
  have keys: "\<forall>(k, v) \<in> set fs. token k" using put_event_keys [of e] fs(2) by (auto simp: list_all_iff)
  have "(\<exists>p. encode_fields fs = Inr p) \<longleftrightarrow> (\<forall>(k, v) \<in> set fs. token v)"
  proof
    assume "\<forall>(k, v) \<in> set fs. token v"
    then have "\<forall>(k, v) \<in> set fs. token k \<and> token v" using keys by fastforce
    then show "\<exists>p. encode_fields fs = Inr p" using encode_fields_short [OF nonempty] fs(3) put_event_count [of e] by simp
  qed (auto simp: encode_fields_def split: if_splits)
  also have "\<dots> \<longleftrightarrow> list_all token (map snd (put_event e))" by (auto simp: fs(2) list_all_iff)
  finally show ?thesis using put_event_values [of e] fs(1) unfolding encode_event_iff by auto
qed

lemma encode_event_size: "encode_event e = Inr (k, p) \<Longrightarrow> p \<noteq> [] \<and> length p \<le> MAX_PAYLOAD"
  by (auto simp: encode_event_iff encode_fields_def Let_def text_bytes_def MAX_PAYLOAD_def split: if_splits)

end
