(* ===== verification/AuditLaws.thy ===== *)
theory AuditLaws
  imports RecoveryAudit
begin

text \<open>
  What a replayed journal guarantees. A small protocol (\<open>obligation_step\<close>) says how backings, views and
  work may evolve; every accepted event is one of its steps, and its invariants give the properties:
  the budget is never exceeded, an exposure that was possible once is never forgotten, published
  targets were copied, and a clean checkpoint leaves nothing behind.
\<close>

section \<open>Replays as runs of a partial machine\<close>

text \<open>
  A machine whose step may refuse: what one accepted step keeps, an accepted run keeps.
\<close>

locale replay_machine =
  fixes step :: "'e \<Rightarrow> 's \<Rightarrow> 's result" and run :: "'e list \<Rightarrow> 's \<Rightarrow> 's result"
  assumes run_Nil: "run [] s = Inr s" and run_Cons: "run (e # es) s = rbind (step e s) (run es)"
begin

lemma run_append: "run (es @ es') s = rbind (run es s) (run es')"
  by (induction es arbitrary: s) (auto simp: run_Nil run_Cons rbind_def split: sum.split)

lemma run_invariant:
  assumes "run es s = Inr s'" and "P s" and "\<And>e s s'. P s \<Longrightarrow> step e s = Inr s' \<Longrightarrow> P s'"
  shows "P s'"
  using assms(1,2)
proof (induction es arbitrary: s)
  case Nil
  then show ?case by (simp add: run_Nil)
next
  case (Cons e es)
  then obtain s1 where "step e s = Inr s1" "run es s1 = Inr s'" by (auto simp: run_Cons rbind_Inr_iff)
  then show ?case using Cons assms(3) by blast
qed

text \<open>The same with a measure that one step raises by at most one.\<close>

lemma run_counts:
  assumes "run es s = Inr s'" and "\<And>e s s'. step e s = Inr s' \<Longrightarrow> (m s' :: nat) \<le> m s + 1"
  shows "m s' \<le> m s + length es"
  using assms(1)
proof (induction es arbitrary: s)
  case Nil
  then show ?case by (simp add: run_Nil)
next
  case (Cons e es)
  then obtain s1 where s1: "step e s = Inr s1" "run es s1 = Inr s'" by (auto simp: run_Cons rbind_Inr_iff)
  show ?case using Cons.IH [OF s1(2)] assms(2) [OF s1(1)] by simp
qed

end

interpretation audit: replay_machine audit_apply audit_replay
  by unfold_locales simp_all

section \<open>The protocol\<close>

text \<open>How one backing may move; \<open>oid\<close> is its identifier.\<close>

inductive backing_move :: "AuditReplay \<Rightarrow> u64 \<Rightarrow> Backing \<Rightarrow> BackingState \<Rightarrow> bool" for st oid where
  activate: "ba_state b = BProvisional \<Longrightarrow> bi_purpose (ba_identity b) = Immutable \<Longrightarrow> backing_move st oid b BActive"
| prepare: "ba_state b = BProvisional \<Longrightarrow> bi_purpose (ba_identity b) \<noteq> Immutable \<Longrightarrow> backing_move st oid b BPending"
| retire: "ba_state b \<in> {BProvisional, BActive, BPending} \<Longrightarrow> backing_move st oid b BRetired"
| closing: "ba_state b = BRetired \<Longrightarrow> backing_move st oid b BClosing"
| closed: "ba_state b = BClosing \<Longrightarrow> \<not> unresolved_use oid st \<Longrightarrow> backing_move st oid b BClosed"
| publish: "ba_state b = BPending \<and> s = BPublishing \<or> ba_state b = BPublishing \<and> s = BActive \<Longrightarrow>
    bt_get (ar_works st) wid = Some w \<Longrightarrow> wi_target_id (wk_identity w) = oid \<Longrightarrow> may_publish w \<Longrightarrow> backing_move st oid b s"
| unpublish: "ba_state b = BPublishing \<Longrightarrow> backing_move st oid b BPending"

inductive_cases backing_moveE: "backing_move st oid b s"

definition view_moves :: "(ViewState \<times> ViewState) set" where
  "view_moves = {(VIntent, VActive), (VIntent, VPossiblyExposed), (VActive, VPossiblyExposed), (VIntent, VNotSent),
     (VActive, VClosing), (VClosing, VClosed)}"

definition view_fits :: "AuditReplay \<Rightarrow> ViewIdentity \<Rightarrow> bool" where
  "view_fits st i \<longleftrightarrow>
     (\<exists>b. bt_get (ar_backings st) (vi_object_id i) = Some b \<and>
        bi_resource_generation (ba_identity b) = vi_resource_generation i \<and>
        vi_bytes i \<noteq> 0 \<and> unat (vi_offset i) + unat (vi_bytes i) \<le> unat (bi_bytes (ba_identity b))) \<and>
     (\<forall>p. vi_parent_view_id i = Some p \<longrightarrow>
        (\<exists>v. bt_get (ar_views st) p = Some v \<and> vi_object_id (vw_identity v) = vi_object_id i \<and>
           vi_accessor (vw_identity v) = vi_accessor i \<and> unat (vi_offset (vw_identity v)) \<le> unat (vi_offset i) \<and>
           unat (vi_offset i) + unat (vi_bytes i) \<le> unat (vi_offset (vw_identity v)) + unat (vi_bytes (vw_identity v))))"

definition work_fits :: "AuditReplay \<Rightarrow> WorkIdentity \<Rightarrow> bool" where
  "work_fits st i \<longleftrightarrow>
     (\<exists>s t. bt_get (ar_backings st) (wi_source_id i) = Some s \<and> bt_get (ar_backings st) (wi_target_id i) = Some t \<and>
        memfd s \<noteq> memfd t \<and>
        unat (wi_src_offset i) + unat (wi_bytes i) \<le> unat (bi_bytes (ba_identity s)) \<and>
        unat (wi_dst_offset i) + unat (wi_bytes i) \<le> unat (bi_bytes (ba_identity t)))"

text \<open>How a work may move: its identity stays, cancellation and drain are permanent, results follow the drain.\<close>

definition work_move :: "Work \<Rightarrow> Work \<Rightarrow> bool" where
  "work_move w w' \<longleftrightarrow>
     wk_identity w' = wk_identity w \<and> (wk_cancelled w \<longrightarrow> wk_cancelled w') \<and> (wk_drained w \<longrightarrow> wk_drained w') \<and>
     (wk_verified w \<longrightarrow> wk_verified w') \<and> (wk_io_completed w \<longrightarrow> wk_io_completed w') \<and>
     (wk_verified w' \<and> \<not> wk_verified w \<or> wk_io_completed w' \<and> \<not> wk_io_completed w \<longrightarrow> wk_drained w \<and> \<not> wk_cancelled w)"

definition charge :: "Backing \<Rightarrow> nat" where
  "charge b = (if ba_state b = BClosed then 0 else unat (bi_bytes (ba_identity b)))"

definition owner_charge :: "string \<Rightarrow> Backing \<Rightarrow> nat" where
  "owner_charge owner b = (if bi_owner_incarnation (ba_identity b) = owner then charge b else 0)"

definition total_charge :: "AuditReplay \<Rightarrow> nat" where
  "total_charge st = sum_list (map charge (backings st))"

definition owner_total :: "string \<Rightarrow> AuditReplay \<Rightarrow> nat" where
  "owner_total owner st = sum_list (map (owner_charge owner) (backings st))"

definition audit_frame :: "AuditReplay \<Rightarrow> AuditReplay \<Rightarrow> bool" where
  "audit_frame st st' \<longleftrightarrow> ar_domain st' = ar_domain st \<and> set (ar_terminated st) \<subseteq> set (ar_terminated st')"

inductive obligation_step :: "AuditReplay \<Rightarrow> AuditReplay \<Rightarrow> bool" where
  bookkeeping: "audit_frame st st' \<Longrightarrow> ar_backings st' = ar_backings st \<Longrightarrow> ar_views st' = ar_views st \<Longrightarrow>
    ar_works st' = ar_works st \<Longrightarrow> obligation_step st st'"
| register: "audit_frame st st' \<Longrightarrow> ar_views st' = ar_views st \<Longrightarrow> ar_works st' = ar_works st \<Longrightarrow>
    bt_get (ar_backings st) (bi_object_id i) = None \<Longrightarrow>
    (total_charge st < 2 ^ 64 \<Longrightarrow> total_charge st + unat (bi_bytes i) \<le> unat (do_total_limit (ar_domain st))) \<Longrightarrow>
    (owner_total (bi_owner_incarnation i) st < 2 ^ 64 \<Longrightarrow>
      owner_total (bi_owner_incarnation i) st + unat (bi_bytes i) \<le> unat (do_owner_limit (ar_domain st))) \<Longrightarrow>
    ar_backings st' = bt_insert (bi_object_id i)
      \<lparr> ba_identity = i, ba_state = BProvisional, ba_publishing_work = None \<rparr> (ar_backings st) \<Longrightarrow>
    obligation_step st st'"
| move_backing: "audit_frame st st' \<Longrightarrow> ar_views st' = ar_views st \<Longrightarrow> ar_works st' = ar_works st \<Longrightarrow>
    bt_get (ar_backings st) oid = Some b \<Longrightarrow> backing_move st oid b (ba_state (f b)) \<Longrightarrow>
    (\<And>b. ba_identity (f b) = ba_identity b) \<Longrightarrow> ar_backings st' = bt_modify oid f (ar_backings st) \<Longrightarrow> obligation_step st st'"
| open_view: "audit_frame st st' \<Longrightarrow> ar_backings st' = ar_backings st \<Longrightarrow> ar_works st' = ar_works st \<Longrightarrow>
    bt_get (ar_views st) (vi_view_id i) = None \<Longrightarrow> view_fits st i \<Longrightarrow>
    bt_get (ar_backings st) (vi_object_id i) = Some b \<Longrightarrow> ba_state b = BActive \<Longrightarrow>
    ar_views st' = bt_insert (vi_view_id i) \<lparr> vw_identity = i, vw_state = VIntent \<rparr> (ar_views st) \<Longrightarrow> obligation_step st st'"
| move_view: "audit_frame st st' \<Longrightarrow> ar_backings st' = ar_backings st \<Longrightarrow> ar_works st' = ar_works st \<Longrightarrow>
    bt_get (ar_views st) vid = Some v \<Longrightarrow> (vw_state v, s) \<in> view_moves \<Longrightarrow>
    ar_views st' = bt_modify vid (\<lambda>v. v\<lparr> vw_state := s \<rparr>) (ar_views st) \<Longrightarrow> obligation_step st st'"
| start_work: "audit_frame st st' \<Longrightarrow> ar_backings st' = ar_backings st \<Longrightarrow> ar_views st' = ar_views st \<Longrightarrow>
    bt_get (ar_works st) (wi_work_id i) = None \<Longrightarrow> work_fits st i \<Longrightarrow>
    bt_get (ar_backings st) (wi_source_id i) = Some a \<Longrightarrow> ba_state a = BActive \<Longrightarrow>
    bt_get (ar_backings st) (wi_target_id i) = Some b \<Longrightarrow> ba_state b = BPending \<Longrightarrow>
    (\<And>k w. bt_get (ar_works st) k = Some w \<Longrightarrow> wi_target_id (wk_identity w) \<noteq> wi_target_id i) \<Longrightarrow>
    ar_works st' = bt_insert (wi_work_id i) \<lparr> wk_identity = i, wk_cancelled = False, wk_drained = False,
      wk_verified = False, wk_io_completed = False \<rparr> (ar_works st) \<Longrightarrow> obligation_step st st'"
| move_work: "audit_frame st st' \<Longrightarrow> ar_backings st' = ar_backings st \<Longrightarrow> ar_views st' = ar_views st \<Longrightarrow>
    bt_get (ar_works st) wid = Some w \<Longrightarrow> work_move w (f w) \<Longrightarrow>
    ar_works st' = bt_modify wid f (ar_works st) \<Longrightarrow> obligation_step st st'"

section \<open>Every accepted event is a step of the protocol\<close>

text \<open>The part of the invariant the refinement needs: ordered maps, and windows that do not wrap.\<close>

definition maps_ok :: "AuditReplay \<Rightarrow> bool" where
  "maps_ok st \<longleftrightarrow>
     bt_wf (ar_backings st) \<and> bt_wf (ar_views st) \<and> bt_wf (ar_works st) \<and>
     (\<forall>k b. bt_get (ar_backings st) k = Some b \<longrightarrow> bi_object_id (ba_identity b) = k) \<and>
     (\<forall>k v. bt_get (ar_views st) k = Some v \<longrightarrow> vi_view_id (vw_identity v) = k) \<and>
     (\<forall>k w. bt_get (ar_works st) k = Some w \<longrightarrow> wi_work_id (wk_identity w) = k)"

definition views_ok :: "AuditReplay \<Rightarrow> bool" where
  "views_ok st \<longleftrightarrow> (\<forall>k v. bt_get (ar_views st) k = Some v \<longrightarrow> view_fits st (vw_identity v))"

lemma in_range_nat: "in_range off n bound \<longleftrightarrow> n \<noteq> 0 \<and> unat off + unat n \<le> unat bound"
proof -
  have "unat off + unat n \<le> unat bound \<Longrightarrow> unat off + unat n < 2 ^ 64" using unat_less_u64 [of bound] by linarith
  then show ?thesis
    by (auto simp: in_range_def checked_add_def word_le_nat_alt unat_word_ariths split: if_splits)
qed

lemma backing_InrD: "backing oid gen st = Inr b \<Longrightarrow> bt_get (ar_backings st) oid = Some b \<and> bi_resource_generation (ba_identity b) = gen"
  by (auto simp: backing_def split: option.splits if_splits)

lemma view_mut_InrD: "view_mut vid lid st = Inr v \<Longrightarrow> bt_get (ar_views st) vid = Some v"
  by (auto simp: view_mut_def split: option.splits if_splits)

lemma work_of_InrD: "work_of wid st = Inr w \<Longrightarrow> bt_get (ar_works st) wid = Some w"
  by (auto simp: work_of_def split: option.splits)

lemma charged_bytes_nat: "total_charge st < 2 ^ 64 \<Longrightarrow> unat (charged_bytes st) = total_charge st"
proof -
  have "charged_bytes st = sum_list (map (\<lambda>b. if ba_state b \<noteq> BClosed then bi_bytes (ba_identity b) else 0) (backings st))"
    unfolding charged_bytes_def comp_def by (rule sum_list_map_filter')
  moreover have "(\<lambda>b. unat (if ba_state b \<noteq> BClosed then bi_bytes (ba_identity b) else 0)) = charge"
    by (auto simp: charge_def)
  ultimately show "total_charge st < 2 ^ 64 \<Longrightarrow> unat (charged_bytes st) = total_charge st"
    using unat_sum_list_u64 [of "\<lambda>b. if ba_state b \<noteq> BClosed then bi_bytes (ba_identity b) else 0" "backings st"]
    by (simp add: total_charge_def)
qed

lemma owner_charged_nat: "owner_total owner st < 2 ^ 64 \<Longrightarrow> unat (owner_charged owner st) = owner_total owner st"
proof -
  let ?f = "\<lambda>b. if ba_state b \<noteq> BClosed \<and> bi_owner_incarnation (ba_identity b) = owner then bi_bytes (ba_identity b) else 0"
  have "owner_charged owner st = sum_list (map ?f (backings st))"
    unfolding owner_charged_def comp_def by (rule sum_list_map_filter')
  moreover have "(\<lambda>b. unat (?f b)) = owner_charge owner" by (auto simp: owner_charge_def charge_def)
  ultimately show "owner_total owner st < 2 ^ 64 \<Longrightarrow> unat (owner_charged owner st) = owner_total owner st"
    using unat_sum_list_u64 [of ?f "backings st"] by (simp add: owner_total_def)
qed

lemma audit_frame_simps [simp]:
  "audit_frame st st" "audit_frame st (st\<lparr> ar_backings := bs \<rparr>)" "audit_frame st (st\<lparr> ar_views := vs \<rparr>)"
  "audit_frame st (st\<lparr> ar_works := ws \<rparr>)" "audit_frame st (st'\<lparr> ar_epoch := e \<rparr>) = audit_frame st st'"
  by (simp_all add: audit_frame_def)

lemma step_register:
  assumes "register_intent i st = Inr st'"
  shows "obligation_step st st'"
proof -
  obtain x y where x: "checked_add (charged_bytes st) (bi_bytes i) = Some x"
    and y: "checked_add (owner_charged (bi_owner_incarnation i) st) (bi_bytes i) = Some y"
    and fits: "x \<le> do_total_limit (ar_domain st)" "y \<le> do_owner_limit (ar_domain st)"
    and fresh: "bt_get (ar_backings st) (bi_object_id i) = None"
    and st': "st' = st\<lparr> ar_backings := bt_insert (bi_object_id i)
        \<lparr> ba_identity = i, ba_state = BProvisional, ba_publishing_work = None \<rparr> (ar_backings st) \<rparr>"
    using assms by (auto simp: register_intent_def split: if_splits option.splits)
  show ?thesis
  proof (rule obligation_step.register [of st st' i])
    show "total_charge st + unat (bi_bytes i) \<le> unat (do_total_limit (ar_domain st))" if "total_charge st < 2 ^ 64"
      using x fits(1) charged_bytes_nat [OF that] by (simp add: checked_add_Some_iff word_le_nat_alt)
    show "owner_total (bi_owner_incarnation i) st + unat (bi_bytes i) \<le> unat (do_owner_limit (ar_domain st))"
      if "owner_total (bi_owner_incarnation i) st < 2 ^ 64"
      using y fits(2) owner_charged_nat [OF that] by (simp add: checked_add_Some_iff word_le_nat_alt)
  qed (use fresh st' in simp_all)
qed

text \<open>The moves of a backing, by the function that rewrites it.\<close>

lemma step_set_backing:
  assumes "bt_get (ar_backings st) oid = Some b" and "backing_move st oid b (ba_state (f b))"
    and "\<And>b. ba_identity (f b) = ba_identity b"
  shows "obligation_step st (set_backing oid f st)"
  by (rule obligation_step.move_backing [OF _ _ _ assms]) (simp_all add: set_backing_def)

lemma backing_state_fields [simp]: "ba_identity (backing_state s b) = ba_identity b" "ba_state (backing_state s b) = s"
  by (simp_all add: backing_state_def)

lemma step_register_commit: "register_commit oid gen st = Inr st' \<Longrightarrow> obligation_step st st'"
  by (auto simp: register_commit_def rbind_Inr_iff dest!: backing_InrD split: if_splits
      intro!: step_set_backing intro: backing_move.activate backing_move.prepare)

lemma step_move_backing:
  assumes "move_backing oid gen from s m st = Inr st'"
    and "\<And>b. ba_state b \<in> set from \<Longrightarrow> backing_move st oid b s"
  shows "obligation_step st st'"
  using assms by (auto simp: RecoveryAudit.move_backing_def rbind_Inr_iff dest!: backing_InrD split: if_splits intro!: step_set_backing)

lemma steps_on_backings:
  "register_abort oid gen st = Inr st' \<Longrightarrow> obligation_step st st'"
  "revoke oid gen st = Inr st' \<Longrightarrow> obligation_step st st'"
  "backing_close_intent oid gen st = Inr st' \<Longrightarrow> obligation_step st st'"
  "backing_close_done oid gen st = Inr st' \<Longrightarrow> obligation_step st st'"
  unfolding register_abort_def revoke_def backing_close_intent_def backing_close_done_def
  by (auto elim!: step_move_backing split: if_splits
      intro: backing_move.retire backing_move.closing backing_move.closed)

lemma step_move_view:
  assumes "move_view vid lid from s m st = Inr st'" and "set from \<times> {s} \<subseteq> view_moves"
  shows "obligation_step st st'"
proof -
  obtain v where v: "bt_get (ar_views st) vid = Some v" "vw_state v \<in> set from" "st' = set_view vid s st"
    using assms(1) by (auto simp: RecoveryAudit.move_view_def rbind_Inr_iff dest!: view_mut_InrD split: if_splits)
  show ?thesis
    by (rule obligation_step.move_view [OF _ _ _ v(1)]) (use v assms(2) in \<open>auto simp: set_view_def\<close>)
qed

lemma steps_on_views:
  "view_commit vid lid st = Inr st' \<Longrightarrow> obligation_step st st'"
  "view_abort vid lid st = Inr st' \<Longrightarrow> obligation_step st st'"
  "view_commit_unconfirmed vid lid st = Inr st' \<Longrightarrow> obligation_step st st'"
  "view_not_sent vid lid st = Inr st' \<Longrightarrow> obligation_step st st'"
  "view_peer_terminated vid lid st = Inr st' \<Longrightarrow> obligation_step st st'"
  "view_close_intent vid lid st = Inr st' \<Longrightarrow> obligation_step st st'"
  "view_close_done vid lid st = Inr st' \<Longrightarrow> obligation_step st st'"
  unfolding view_commit_def view_abort_def view_commit_unconfirmed_def view_not_sent_def view_peer_terminated_def
    view_close_intent_def view_close_done_def
  by (auto simp: rbind_Inr_iff view_moves_def elim!: step_move_view split: option.splits if_splits)

text \<open>A new view fits its backing, and its parent's window, which does not wrap.\<close>

lemma good_parent:
  assumes "\<not> bad_parent i v" and "view_fits st (vw_identity v)"
  shows "vi_object_id (vw_identity v) = vi_object_id i \<and> vi_accessor (vw_identity v) = vi_accessor i \<and>
    unat (vi_offset (vw_identity v)) \<le> unat (vi_offset i) \<and>
    unat (vi_offset i) + unat (vi_bytes i) \<le> unat (vi_offset (vw_identity v)) + unat (vi_bytes (vw_identity v))"
proof -
  let ?p = "vw_identity v"
  obtain b :: Backing where "unat (vi_offset ?p) + unat (vi_bytes ?p) \<le> unat (bi_bytes (ba_identity b))"
    using assms(2) unfolding view_fits_def by blast
  then have "unat (vi_offset ?p + vi_bytes ?p) = unat (vi_offset ?p) + unat (vi_bytes ?p)"
    using unat_less_u64 [of "bi_bytes (ba_identity b)"] by (intro unat_add_u64) linarith
  then show ?thesis
    using assms(1) by (auto simp: bad_parent_def Let_def checked_add_Some_iff word_le_nat_alt not_less split: option.splits)
qed

lemma step_view_intent:
  assumes "view_intent i st = Inr st'" and "views_ok st"
  shows "obligation_step st st'"
proof -
  obtain b where b: "backing (vi_object_id i) (vi_resource_generation i) st = Inr b" "ba_state b = BActive"
    and fits: "in_range (vi_offset i) (vi_bytes i) (bi_bytes (ba_identity b))"
    and parent: "\<And>p. vi_parent_view_id i = Some p \<Longrightarrow> \<exists>v. bt_get (ar_views st) p = Some v \<and> \<not> bad_parent i v"
    and fresh: "bt_get (ar_views st) (vi_view_id i) = None"
    and st': "st' = st\<lparr> ar_views := bt_insert (vi_view_id i) \<lparr> vw_identity = i, vw_state = VIntent \<rparr> (ar_views st) \<rparr>"
    using assms(1) by (auto simp: view_intent_def rbind_Inr_iff split: if_splits option.splits)
  have "view_fits st i"
    unfolding view_fits_def
    using backing_InrD [OF b(1)] fits parent good_parent assms(2) by (fastforce simp: in_range_nat views_ok_def)
  then show ?thesis
    using backing_InrD [OF b(1)] b(2) fresh st' by (intro obligation_step.open_view [of st st' i b]) simp_all
qed

lemma step_work_intent:
  assumes "work_intent i st = Inr st'" and "maps_ok st"
  shows "obligation_step st st'"
proof -
  obtain a b where ends: "backing (wi_source_id i) (wi_source_generation i) st = Inr a" "ba_state a = BActive"
      "backing (wi_target_id i) (wi_target_generation i) st = Inr b" "ba_state b = BPending" "memfd a \<noteq> memfd b"
    and fits: "in_range (wi_src_offset i) (wi_bytes i) (bi_bytes (ba_identity a))"
      "in_range (wi_dst_offset i) (wi_bytes i) (bi_bytes (ba_identity b))"
    and fresh: "bt_get (ar_works st) (wi_work_id i) = None"
      "\<not> list_ex (\<lambda>w. wi_target_id (wk_identity w) = wi_target_id i) (works st)"
    and st': "st' = st\<lparr> ar_works := bt_insert (wi_work_id i) \<lparr> wk_identity = i, wk_cancelled = False, wk_drained = False,
        wk_verified = False, wk_io_completed = False \<rparr> (ar_works st) \<rparr>"
    using assms(1) by (auto simp: work_intent_def rbind_Inr_iff split: if_splits)
  show ?thesis
  proof (rule obligation_step.start_work [of st st' i a b])
    show "work_fits st i"
      using backing_InrD [OF ends(1)] backing_InrD [OF ends(3)] ends(5) fits by (auto simp: work_fits_def in_range_nat)
    show "wi_target_id (wk_identity w) \<noteq> wi_target_id i" if "bt_get (ar_works st) k = Some w" for k w
      using fresh(2) that assms(2) by (auto simp: works_def bt_list_ex maps_ok_def)
  qed (use backing_InrD [OF ends(1)] backing_InrD [OF ends(3)] ends fresh st' in simp_all)
qed

lemma step_set_work:
  assumes "bt_get (ar_works st) wid = Some w" and "work_move w (f w)"
  shows "obligation_step st (set_work wid f st)"
  by (rule obligation_step.move_work [where wid = wid and w = w and f = f]) (simp_all add: assms set_work_def)

lemma steps_on_work:
  "cancel_request wid st = Inr st' \<Longrightarrow> obligation_step st st'"
  "work_drained wid st = Inr st' \<Longrightarrow> obligation_step st st'"
  "work_io_completed wid n st = Inr st' \<Longrightarrow> obligation_step st st'"
  "work_verified wid n m st = Inr st' \<Longrightarrow> obligation_step st st'"
  unfolding cancel_request_def work_drained_def work_io_completed_def work_verified_def
  by (auto simp: rbind_Inr_iff work_move_def dest!: work_of_InrD split: if_splits intro!: step_set_work)

lemma ends_live_InrD:
  assumes "ends_live w s st = Inr True"
  shows "\<exists>t. backing (wi_target_id (wk_identity w)) (wi_target_generation (wk_identity w)) st = Inr t \<and> ba_state t = s"
  using assms by (auto simp: ends_live_def rbind_Inr_iff)

lemma steps_of_publication:
  "publish_intent wid st = Inr st' \<Longrightarrow> obligation_step st st'"
  "publish_done wid seals st = Inr st' \<Longrightarrow> obligation_step st st'"
  "publish_abort wid st = Inr st' \<Longrightarrow> obligation_step st st'"
proof -
  assume "publish_intent wid st = Inr st'"
  then obtain w where w: "bt_get (ar_works st) wid = Some w" "may_publish w" "ends_live w BPending st = Inr True"
      "st' = set_backing (wi_target_id (wk_identity w)) (\<lambda>b. b\<lparr> ba_state := BPublishing, ba_publishing_work := Some wid \<rparr>) st"
    by (auto simp: publish_intent_def rbind_Inr_iff dest!: work_of_InrD split: if_splits)
  then show "obligation_step st st'"
    using ends_live_InrD [OF w(3)] backing_move.publish [OF _ w(1) refl w(2)] by (auto dest!: backing_InrD intro!: step_set_backing)
next
  assume "publish_done wid seals st = Inr st'"
  then obtain w where w: "bt_get (ar_works st) wid = Some w" "may_publish w" "ends_live w BPublishing st = Inr True"
      "st' = set_backing (wi_target_id (wk_identity w)) (\<lambda>b. b\<lparr> ba_state := BActive, ba_publishing_work := None \<rparr>) st"
    by (auto simp: publish_done_def rbind_Inr_iff dest!: work_of_InrD split: if_splits)
  then show "obligation_step st st'"
    using ends_live_InrD [OF w(3)] backing_move.publish [OF _ w(1) refl w(2)] by (auto dest!: backing_InrD intro!: step_set_backing)
next
  assume "publish_abort wid st = Inr st'"
  then show "obligation_step st st'"
    by (auto simp: publish_abort_def rbind_Inr_iff dest!: work_of_InrD backing_InrD split: if_splits
        intro!: step_set_backing backing_move.unpublish)
qed

lemma steps_of_bookkeeping:
  "broker_birth epoch b st = Inr st' \<Longrightarrow> obligation_step st st'"
  "peer_terminated b st = Inr st' \<Longrightarrow> obligation_step st st'"
  "broker_drained snap st = Inr st' \<Longrightarrow> obligation_step st st'"
  "clean_checkpoint snap st = Inr st' \<Longrightarrow> obligation_step st st'"
  unfolding broker_birth_def peer_terminated_def broker_drained_def clean_checkpoint_def
  by (auto split: if_splits intro!: obligation_step.bookkeeping simp: audit_frame_def)

lemmas kind_steps = step_register step_register_commit steps_on_backings steps_on_views step_view_intent step_work_intent
  steps_on_work steps_of_publication steps_of_bookkeeping

lemma apply_kind_step:
  assumes "apply_kind epoch k st = Inr st'" and "maps_ok st" and "views_ok st"
  shows "obligation_step st st'"
  using assms by (cases k) (auto dest: kind_steps)

lemma obligation_step_epoch: "obligation_step st st' \<Longrightarrow> obligation_step st (st'\<lparr> ar_epoch := e \<rparr>)"
  by (erule obligation_step.cases)
    (auto intro: obligation_step.intros)

section \<open>Invariants of the protocol\<close>

text \<open>Closed backings have no unresolved use; published ones have a work that copied them.\<close>

definition closed_ok :: "AuditReplay \<Rightarrow> bool" where
  "closed_ok st \<longleftrightarrow>
     (\<forall>oid b. bt_get (ar_backings st) oid = Some b \<and> ba_state b = BClosed \<longrightarrow>
        (\<forall>k v. bt_get (ar_views st) k = Some v \<and> vi_object_id (vw_identity v) = oid \<longrightarrow> view_resolved v) \<and>
        (\<forall>k w. bt_get (ar_works st) k = Some w \<and> (wi_source_id (wk_identity w) = oid \<or> wi_target_id (wk_identity w) = oid) \<longrightarrow>
           wk_drained w))"

definition copied_into :: "AuditReplay \<Rightarrow> u64 \<Rightarrow> bool" where
  "copied_into st oid \<longleftrightarrow>
     (\<exists>k w. bt_get (ar_works st) k = Some w \<and> wi_target_id (wk_identity w) = oid \<and> wk_drained w \<and>
        (wk_verified w \<or> wk_io_completed w) \<and> wi_purpose (wk_identity w) = Staging)"

definition published_ok :: "AuditReplay \<Rightarrow> bool" where
  "published_ok st \<longleftrightarrow>
     (\<forall>oid b. bt_get (ar_backings st) oid = Some b \<and> ba_state b \<in> {BActive, BPublishing} \<and>
        bi_purpose (ba_identity b) \<noteq> Immutable \<longrightarrow> copied_into st oid)"

definition works_ok :: "AuditReplay \<Rightarrow> bool" where
  "works_ok st \<longleftrightarrow>
     (\<forall>k w. bt_get (ar_works st) k = Some w \<longrightarrow> work_fits st (wk_identity w)) \<and>
     (\<forall>k w k' w'. bt_get (ar_works st) k = Some w \<and> bt_get (ar_works st) k' = Some w' \<and>
        wi_target_id (wk_identity w) = wi_target_id (wk_identity w') \<longrightarrow> k = k')"

definition budget_ok :: "AuditReplay \<Rightarrow> bool" where
  "budget_ok st \<longleftrightarrow> total_charge st \<le> unat (do_total_limit (ar_domain st)) \<and>
     (\<forall>owner. owner_total owner st \<le> unat (do_owner_limit (ar_domain st)))"

definition audit_ok :: "AuditReplay \<Rightarrow> bool" where
  "audit_ok st \<longleftrightarrow> maps_ok st \<and> views_ok st \<and> works_ok st \<and> closed_ok st \<and> published_ok st \<and> budget_ok st"

lemma maps_ok_step:
  assumes "maps_ok st" and "obligation_step st st'"
  shows "maps_ok st'"
  using assms(2,1)
  by (cases rule: obligation_step.cases)
    (auto simp: maps_ok_def bt_get_insert bt_get_modify work_move_def)

text \<open>Backings are never dropped, and their identities never change.\<close>

lemma backings_stay:
  assumes "maps_ok st" and "obligation_step st st'" and "bt_get (ar_backings st) k = Some b"
  shows "\<exists>b'. bt_get (ar_backings st') k = Some b' \<and> ba_identity b' = ba_identity b"
  using assms(2,1,3)
  by (cases rule: obligation_step.cases) (auto simp: maps_ok_def bt_get_insert bt_get_modify)

lemma views_stay:
  assumes "maps_ok st" and "obligation_step st st'" and "bt_get (ar_views st) k = Some v"
  shows "\<exists>v'. bt_get (ar_views st') k = Some v' \<and> vw_identity v' = vw_identity v \<and>
    (vw_state v' = vw_state v \<or> (vw_state v, vw_state v') \<in> view_moves)"
  using assms(2,1,3)
  by (cases rule: obligation_step.cases) (auto simp: maps_ok_def bt_get_insert bt_get_modify)

lemma works_stay:
  assumes "maps_ok st" and "obligation_step st st'" and "bt_get (ar_works st) k = Some w"
  shows "\<exists>w'. bt_get (ar_works st') k = Some w' \<and> (w' = w \<or> work_move w w')"
  using assms(2,1,3)
  by (cases rule: obligation_step.cases) (auto simp: maps_ok_def bt_get_insert bt_get_modify)

lemma view_fits_step:
  assumes "maps_ok st" and "obligation_step st st'" and "view_fits st i"
  shows "view_fits st' i"
proof -
  obtain b where b: "bt_get (ar_backings st) (vi_object_id i) = Some b"
      "bi_resource_generation (ba_identity b) = vi_resource_generation i" "vi_bytes i \<noteq> 0"
      "unat (vi_offset i) + unat (vi_bytes i) \<le> unat (bi_bytes (ba_identity b))"
    using assms(3) unfolding view_fits_def by blast
  obtain b' where b': "bt_get (ar_backings st') (vi_object_id i) = Some b'" "ba_identity b' = ba_identity b"
    using backings_stay [OF assms(1,2) b(1)] by blast
  have parent: "\<exists>v'. bt_get (ar_views st') p = Some v' \<and> vw_identity v' = vw_identity v"
    if "bt_get (ar_views st) p = Some v" for p v
    using views_stay [OF assms(1,2) that] by blast
  show ?thesis
    unfolding view_fits_def
  proof (intro conjI allI impI)
    show "\<exists>b. bt_get (ar_backings st') (vi_object_id i) = Some b \<and>
        bi_resource_generation (ba_identity b) = vi_resource_generation i \<and>
        vi_bytes i \<noteq> 0 \<and> unat (vi_offset i) + unat (vi_bytes i) \<le> unat (bi_bytes (ba_identity b))"
      using b b' by simp
    fix p assume "vi_parent_view_id i = Some p"
    then obtain v where v: "bt_get (ar_views st) p = Some v" "vi_object_id (vw_identity v) = vi_object_id i"
        "vi_accessor (vw_identity v) = vi_accessor i" "unat (vi_offset (vw_identity v)) \<le> unat (vi_offset i)"
        "unat (vi_offset i) + unat (vi_bytes i) \<le> unat (vi_offset (vw_identity v)) + unat (vi_bytes (vw_identity v))"
      using assms(3) unfolding view_fits_def by blast
    obtain v' where "bt_get (ar_views st') p = Some v'" "vw_identity v' = vw_identity v"
      using parent [OF v(1)] by blast
    then show "\<exists>v. bt_get (ar_views st') p = Some v \<and> vi_object_id (vw_identity v) = vi_object_id i \<and>
        vi_accessor (vw_identity v) = vi_accessor i \<and> unat (vi_offset (vw_identity v)) \<le> unat (vi_offset i) \<and>
        unat (vi_offset i) + unat (vi_bytes i) \<le> unat (vi_offset (vw_identity v)) + unat (vi_bytes (vw_identity v))"
      using v by simp
  qed
qed

lemma views_ok_step:
  assumes "maps_ok st" and "obligation_step st st'" and "views_ok st"
  shows "views_ok st'"
  unfolding views_ok_def
proof (intro allI impI)
  fix k v assume v: "bt_get (ar_views st') k = Some v"
  have "view_fits st (vw_identity v)"
    using assms(2) v assms(1,3)
    by (cases rule: obligation_step.cases) (auto simp: maps_ok_def views_ok_def bt_get_insert bt_get_modify split: if_splits)
  then show "view_fits st' (vw_identity v)" by (rule view_fits_step [OF assms(1,2)])
qed

lemma work_fits_step:
  assumes "maps_ok st" and "obligation_step st st'" and "work_fits st i"
  shows "work_fits st' i"
proof -
  obtain s t where st: "bt_get (ar_backings st) (wi_source_id i) = Some s" "bt_get (ar_backings st) (wi_target_id i) = Some t"
      "memfd s \<noteq> memfd t" "unat (wi_src_offset i) + unat (wi_bytes i) \<le> unat (bi_bytes (ba_identity s))"
      "unat (wi_dst_offset i) + unat (wi_bytes i) \<le> unat (bi_bytes (ba_identity t))"
    using assms(3) unfolding work_fits_def by blast
  obtain s' t' where "bt_get (ar_backings st') (wi_source_id i) = Some s'" "ba_identity s' = ba_identity s"
      "bt_get (ar_backings st') (wi_target_id i) = Some t'" "ba_identity t' = ba_identity t"
    using backings_stay [OF assms(1,2) st(1)] backings_stay [OF assms(1,2) st(2)] by blast
  then show ?thesis using st by (auto simp: work_fits_def memfd_def)
qed

lemma works_ok_step:
  assumes maps: "maps_ok st" and step: "obligation_step st st'" and ok: "works_ok st"
  shows "works_ok st'"
proof -
  have old: "work_fits st (wk_identity w)" if "bt_get (ar_works st) k = Some w" for k w
    using ok that unfolding works_ok_def by blast
  have wf: "bt_wf (ar_works st)" using maps by (simp add: maps_ok_def)
  have "work_fits st (wk_identity w)" if "bt_get (ar_works st') k = Some w" for k w
    using step that old wf
    by (cases rule: obligation_step.cases) (auto simp: bt_get_insert bt_get_modify work_move_def split: if_splits)
  then have "work_fits st' (wk_identity w)" if "bt_get (ar_works st') k = Some w" for k w
    using work_fits_step [OF maps step] that by blast
  moreover have "k = k'" if two: "bt_get (ar_works st') k = Some w" "bt_get (ar_works st') k' = Some w'"
      "wi_target_id (wk_identity w) = wi_target_id (wk_identity w')" for k w k' w'
    using step
  proof (cases rule: obligation_step.cases)
    case (start_work i a b)
    have get: "bt_get (ar_works st') x = (if x = wi_work_id i then Some \<lparr> wk_identity = i, wk_cancelled = False,
        wk_drained = False, wk_verified = False, wk_io_completed = False \<rparr> else bt_get (ar_works st) x)" for x
      using maps unfolding start_work(11) maps_ok_def by (simp add: bt_get_insert)
    have old: "wi_target_id (wk_identity y) \<noteq> wi_target_id i" if "bt_get (ar_works st) x = Some y" for x y
      using that by (rule start_work(10))
    show ?thesis
    proof (cases "k = wi_work_id i \<or> k' = wi_work_id i")
      case True
      then show ?thesis using that old [of k w] old [of k' w'] by (auto simp: get split: if_splits)
    next
      case False
      then show ?thesis using that ok unfolding works_ok_def by (auto simp: get)
    qed
  next
    case (move_work wid w0 f)
    have same: "\<exists>y. bt_get (ar_works st) x = Some y \<and> wk_identity y = wk_identity z" if "bt_get (ar_works st') x = Some z" for x z
      using that move_work(4-6) by (auto simp: bt_get_modify work_move_def split: if_splits)
    obtain y y' where "bt_get (ar_works st) k = Some y" "wk_identity y = wk_identity w"
        "bt_get (ar_works st) k' = Some y'" "wk_identity y' = wk_identity w'"
      using same [OF two(1)] same [OF two(2)] by blast
    moreover from this two(3) have "wi_target_id (wk_identity y) = wi_target_id (wk_identity y')" by simp
    ultimately show ?thesis using ok unfolding works_ok_def by blast
  qed (use that ok in \<open>auto simp: works_ok_def\<close>)
  ultimately show ?thesis unfolding works_ok_def by blast
qed

text \<open>The two uses the closing of a backing asks about, on the maps.\<close>

lemma unresolved_use_iff:
  assumes "maps_ok st"
  shows "unresolved_use oid st \<longleftrightarrow>
    (\<exists>k v. bt_get (ar_views st) k = Some v \<and> vi_object_id (vw_identity v) = oid \<and> \<not> view_resolved v) \<or>
    (\<exists>k w. bt_get (ar_works st) k = Some w \<and> \<not> wk_drained w \<and>
       (wi_source_id (wk_identity w) = oid \<or> wi_target_id (wk_identity w) = oid))"
  using assms unfolding unresolved_use_def views_def works_def maps_ok_def by (simp only: bt_list_ex)

lemma resolved_stays: "view_resolved v \<Longrightarrow> (vw_state v, s) \<notin> view_moves"
  by (auto simp: view_resolved_def view_moves_def)

lemma not_backing_move_closed: "ba_state b = BClosed \<Longrightarrow> \<not> backing_move st oid b s"
  by (auto elim: backing_moveE)

lemma backing_move_closed: "backing_move st oid b BClosed \<Longrightarrow> \<not> unresolved_use oid st"
  by (auto elim: backing_moveE)

lemma closed_ok_step:
  assumes maps: "maps_ok st" and step: "obligation_step st st'" and ok: "closed_ok st"
  shows "closed_ok st'"
  using step
proof (cases rule: obligation_step.cases)
  case (move_backing oid b f)
  have "view_resolved v" if "bt_get (ar_backings st') x = Some y" "ba_state y = BClosed"
      "bt_get (ar_views st') k = Some v" "vi_object_id (vw_identity v) = x" for x y k v
  proof (cases "x = oid")
    case True
    then have "\<not> unresolved_use oid st"
      using that(1,2) move_backing by (auto simp: bt_get_modify dest: backing_move_closed)
    then show ?thesis using that(3,4) True move_backing(2) maps by (auto simp: unresolved_use_iff)
  next
    case False
    then show ?thesis using that ok move_backing by (auto simp: closed_ok_def bt_get_modify)
  qed
  moreover have "wk_drained w" if "bt_get (ar_backings st') x = Some y" "ba_state y = BClosed"
      "bt_get (ar_works st') k = Some w" "wi_source_id (wk_identity w) = x \<or> wi_target_id (wk_identity w) = x" for x y k w
  proof (cases "x = oid")
    case True
    then have "\<not> unresolved_use oid st"
      using that(1,2) move_backing by (auto simp: bt_get_modify dest: backing_move_closed)
    then show ?thesis using that(3,4) True move_backing(3) maps by (auto simp: unresolved_use_iff)
  next
    case False
    then show ?thesis using that ok move_backing by (auto simp: closed_ok_def bt_get_modify)
  qed
  ultimately show ?thesis unfolding closed_ok_def by blast
next
  case (register i)
  have none: "bt_get (ar_backings st) x \<noteq> None" if "bt_get (ar_backings st') x = Some y" "ba_state y = BClosed" for x y
    using that register(7) maps by (auto simp: maps_ok_def bt_get_insert split: if_splits)
  then show ?thesis using ok register maps unfolding closed_ok_def maps_ok_def by (auto simp: bt_get_insert split: if_splits)
next
  case (open_view i b)
  then show ?thesis using ok maps unfolding closed_ok_def maps_ok_def by (auto simp: bt_get_insert split: if_splits)
next
  case (move_view vid v s)
  then show ?thesis
    using ok resolved_stays [of v s] unfolding closed_ok_def by (auto simp: bt_get_modify split: if_splits)
next
  case (start_work i a b)
  have "bt_wf (ar_works st)" using maps by (simp add: maps_ok_def)
  then have get: "bt_get (ar_works st') k = (if k = wi_work_id i then Some \<lparr> wk_identity = i, wk_cancelled = False,
      wk_drained = False, wk_verified = False, wk_io_completed = False \<rparr> else bt_get (ar_works st) k)" for k
    unfolding start_work(11) by (simp add: bt_get_insert)
  have "wi_source_id i \<noteq> x \<and> wi_target_id i \<noteq> x" if "bt_get (ar_backings st) x = Some y" "ba_state y = BClosed" for x y
    using that start_work(6-9) by auto
  then show ?thesis using ok unfolding closed_ok_def start_work(2,3) get by auto
next
  case (move_work wid w f)
  have "\<exists>y. bt_get (ar_works st) k = Some y \<and> wk_identity y = wk_identity z \<and> (wk_drained y \<longrightarrow> wk_drained z)"
    if "bt_get (ar_works st') k = Some z" for k z
    using that move_work(4-6) by (auto simp: bt_get_modify work_move_def split: if_splits)
  then show ?thesis using ok unfolding closed_ok_def move_work(2,3) by metis
qed (use ok in \<open>simp add: closed_ok_def\<close>)

lemma copied_into_step:
  assumes "maps_ok st" and "obligation_step st st'" and "copied_into st oid"
  shows "copied_into st' oid"
proof -
  obtain k w where w: "bt_get (ar_works st) k = Some w" "wi_target_id (wk_identity w) = oid" "wk_drained w"
      "wk_verified w \<or> wk_io_completed w" "wi_purpose (wk_identity w) = Staging"
    using assms(3) unfolding copied_into_def by blast
  obtain w' where "bt_get (ar_works st') k = Some w'" "w' = w \<or> work_move w w'"
    using works_stay [OF assms(1,2) w(1)] by blast
  then show ?thesis using w unfolding copied_into_def work_move_def by metis
qed

lemma copied_intoI: "bt_get (ar_works st) k = Some w \<Longrightarrow> may_publish w \<Longrightarrow> copied_into st (wi_target_id (wk_identity w))"
  unfolding copied_into_def may_publish_def by blast

lemma published_ok_step:
  assumes maps: "maps_ok st" and step: "obligation_step st st'" and ok: "published_ok st"
  shows "published_ok st'"
proof -
  have "copied_into st oid" if b: "bt_get (ar_backings st') oid = Some b" "ba_state b \<in> {BActive, BPublishing}"
      "bi_purpose (ba_identity b) \<noteq> Immutable" for oid b
    using step
  proof (cases rule: obligation_step.cases)
    case (move_backing x y f)
    show ?thesis
    proof (cases "oid = x")
      case True
      then have "b = f y" using b(1) move_backing by (simp add: bt_get_modify)
      then show ?thesis
        using move_backing(5,6) b(2,3) True by (auto elim!: backing_moveE intro: copied_intoI)
    next
      case False
      then show ?thesis using b move_backing ok by (auto simp: published_ok_def bt_get_modify)
    qed
  next
    case (register i)
    then show ?thesis using b ok maps by (auto simp: published_ok_def maps_ok_def bt_get_insert split: if_splits)
  qed (use b ok in \<open>auto simp: published_ok_def\<close>)
  then show ?thesis using copied_into_step [OF maps step] unfolding published_ok_def by blast
qed

lemma budget_ok_step:
  assumes maps: "maps_ok st" and step: "obligation_step st st'" and ok: "budget_ok st"
  shows "budget_ok st'"
  using step
proof (cases rule: obligation_step.cases)
  case (register i)
  let ?b = "\<lparr> ba_identity = i, ba_state = BProvisional, ba_publishing_work = None \<rparr>"
  have small: "total_charge st < 2 ^ 64" "owner_total o1 st < 2 ^ 64" for o1
    using ok unat_less_u64 [of "do_total_limit (ar_domain st)"] unat_less_u64 [of "do_owner_limit (ar_domain st)"]
    by (auto simp: budget_ok_def intro: le_less_trans)
  have charges: "charge ?b = unat (bi_bytes i)" "owner_charge o1 ?b = (if o1 = bi_owner_incarnation i then unat (bi_bytes i) else 0)" for o1
    by (simp_all add: charge_def owner_charge_def)
  have "total_charge st' = unat (bi_bytes i) + total_charge st"
    "owner_total o1 st' = (if o1 = bi_owner_incarnation i then unat (bi_bytes i) else 0) + owner_total o1 st" for o1
    using register(4) unfolding total_charge_def owner_total_def backings_def register(7)
    by (simp_all only: sum_bt_insert charges)
  then show ?thesis
    using register(1) register(5) [OF small(1)] register(6) [OF small(2)] ok
    by (auto simp: budget_ok_def audit_frame_def)
next
  case (move_backing oid b f)
  have "charge (f y) \<le> charge y" if "(oid, y) \<in> set (ar_backings st)" for y
  proof -
    have "y = b" using bt_get_mem [OF _ that] maps move_backing(4) by (simp add: maps_ok_def)
    then show ?thesis using move_backing(5,6) not_backing_move_closed by (auto simp: charge_def)
  qed
  then have "total_charge st' \<le> total_charge st" "owner_total o1 st' \<le> owner_total o1 st" for o1
    unfolding total_charge_def owner_total_def backings_def move_backing(7)
    by (auto intro!: sum_bt_modify_le simp del: map_map simp: owner_charge_def move_backing(6))
  then show ?thesis using ok move_backing(1) unfolding budget_ok_def audit_frame_def by (metis order_trans)
qed (use ok in \<open>simp_all add: budget_ok_def audit_frame_def total_charge_def owner_total_def backings_def\<close>)

lemma audit_ok_step:
  assumes "audit_ok st" and "obligation_step st st'"
  shows "audit_ok st'"
proof -
  have "maps_ok st" using assms(1) by (simp add: audit_ok_def)
  note steps = this assms(2)
  show ?thesis
    using assms(1) maps_ok_step [OF steps] views_ok_step [OF steps] works_ok_step [OF steps] closed_ok_step [OF steps]
      published_ok_step [OF steps] budget_ok_step [OF steps]
    by (simp add: audit_ok_def)
qed

text \<open>Accepted events are steps of the protocol, and so keep the invariant.\<close>

lemma audit_apply_step:
  assumes "audit_apply e st = Inr st'" and "audit_ok st"
  shows "obligation_step st st'"
  using assms apply_kind_step obligation_step_epoch
  by (auto simp: audit_apply_def audit_ok_def rbind_Inr_iff split: if_splits)

lemma audit_apply_domain: "audit_apply e st = Inr st' \<Longrightarrow> audit_ok st \<Longrightarrow> ar_domain st' = ar_domain st"
  using audit_apply_step by (force elim: obligation_step.cases simp: audit_frame_def)

lemma audit_new_ok: "audit_new d = Inr st \<Longrightarrow> audit_ok st \<and> ar_domain st = d"
  by (auto simp: audit_new_def audit_ok_def maps_ok_def views_ok_def works_ok_def closed_ok_def published_ok_def
      budget_ok_def total_charge_def owner_total_def backings_def bt_wf_def bt_get_def split: if_splits)

lemma audit_replay_ok: "audit_replay es st = Inr st' \<Longrightarrow> audit_ok st \<Longrightarrow> audit_ok st'"
  using audit.run_invariant [of es st st' audit_ok] audit_apply_step audit_ok_step by blast

section \<open>What is still held\<close>

lemma set_add_new [simp]: "set (add_new xs acc) = set xs \<union> set acc"
  unfolding add_new_def by (induction xs arbitrary: acc) auto

lemma length_add_new: "length (add_new xs acc) \<le> length xs + length acc"
  unfolding add_new_def
proof (induction xs arbitrary: acc)
  case (Cons x xs)
  show ?case using Cons [of "if x \<in> set acc then acc else acc @ [x]"] by (cases "x \<in> set acc") simp_all
qed simp

lemma set_unresolved_holders:
  "set (unresolved_holders st) = set (ar_terminated st) \<union> (vi_accessor \<circ> vw_identity) ` {v \<in> set (views st). \<not> view_resolved v} \<union>
     (bi_owner \<circ> ba_identity) ` {b \<in> set (backings st). ba_state b \<noteq> BClosed}"
  unfolding unresolved_holders_def by auto

text \<open>A view that may be exposed keeps its backing open and its accessor among the holders.\<close>

lemma exposed_view_holds:
  assumes ok: "audit_ok st" and v: "bt_get (ar_views st) k = Some v" "vw_state v = VPossiblyExposed"
  shows "\<exists>b. bt_get (ar_backings st) (vi_object_id (vw_identity v)) = Some b \<and> ba_state b \<noteq> BClosed"
    and "vi_accessor (vw_identity v) \<in> set (unresolved_holders st)"
proof -
  have open_: "\<not> view_resolved v" using v(2) by (simp add: view_resolved_def)
  obtain b where b: "bt_get (ar_backings st) (vi_object_id (vw_identity v)) = Some b"
    using ok v(1) unfolding audit_ok_def views_ok_def view_fits_def by blast
  then have "ba_state b \<noteq> BClosed"
    using ok v(1) open_ unfolding audit_ok_def closed_ok_def by blast
  then show "\<exists>b. bt_get (ar_backings st) (vi_object_id (vw_identity v)) = Some b \<and> ba_state b \<noteq> BClosed" using b by blast
  have "v \<in> set (views st)" using bt_get_values [OF v(1)] by (simp add: views_def)
  then show "vi_accessor (vw_identity v) \<in> set (unresolved_holders st)"
    using open_ by (force simp: set_unresolved_holders)
qed

lemma exposed_stays:
  assumes "audit_replay es st = Inr st'" and "audit_ok st"
    and "bt_get (ar_views st) k = Some v" and "vw_state v = VPossiblyExposed"
  shows "bt_get (ar_views st') k = Some v"
proof -
  let ?P = "\<lambda>st. audit_ok st \<and> bt_get (ar_views st) k = Some v"
  have "?P st2" if "?P st1" "audit_apply e st1 = Inr st2" for e st1 st2
  proof -
    have step: "obligation_step st1 st2" using audit_apply_step that by blast
    have maps: "maps_ok st1" and get: "bt_get (ar_views st1) k = Some v" using that(1) by (simp_all add: audit_ok_def)
    obtain v' where "bt_get (ar_views st2) k = Some v'" "vw_identity v' = vw_identity v"
        "vw_state v' = vw_state v \<or> (vw_state v, vw_state v') \<in> view_moves"
      using views_stay [OF maps step get] by blast
    then have "bt_get (ar_views st2) k = Some v" using assms(4) by (auto simp: view_moves_def)
    then show ?thesis using audit_ok_step that step by blast
  qed
  then show ?thesis using audit.run_invariant [of es st st' ?P] assms by blast
qed

text \<open>Each event adds at most one entry to what the replay keeps.\<close>

definition kept :: "AuditReplay \<Rightarrow> nat" where
  "kept st = length (ar_backings st) + length (ar_views st) + length (ar_works st) + length (ar_terminated st)"

lemma length_bt_insert: "length (bt_insert k v m) \<le> Suc (length m)"
  by (induction k v m rule: bt_insert.induct) auto

lemma length_bt_modify [simp]: "length (bt_modify k f m) = length m"
  by (simp add: bt_modify_def)

lemma kept_simps [simp]:
  "kept (st\<lparr> ar_checkpointed := c \<rparr>) = kept st" "kept (st\<lparr> ar_drained := d, ar_drained_snapshot := sn \<rparr>) = kept st"
  "kept (st\<lparr> ar_broker_birth := bb \<rparr>) = kept st" "kept (st\<lparr> ar_epoch := e \<rparr>) = kept st"
  "kept (st\<lparr> ar_terminated := ar_terminated st @ [b] \<rparr>) = Suc (kept st)"
  by (simp_all add: kept_def)

lemmas handler_defs = register_commit_def RecoveryAudit.move_backing_def RecoveryAudit.move_view_def
  register_abort_def revoke_def backing_close_intent_def backing_close_done_def view_commit_def view_abort_def
  view_commit_unconfirmed_def view_not_sent_def view_peer_terminated_def view_close_intent_def view_close_done_def
  cancel_request_def work_drained_def work_io_completed_def work_verified_def publish_intent_def publish_done_def
  publish_abort_def broker_birth_def peer_terminated_def broker_drained_def clean_checkpoint_def

lemma kept_apply_kind:
  assumes "apply_kind epoch k st = Inr st'"
  shows "kept st' \<le> kept st + 1"
proof -
  have add: "kept (st\<lparr> ar_backings := bt_insert x b (ar_backings st) \<rparr>) \<le> kept st + 1"
    "kept (st\<lparr> ar_views := bt_insert x v (ar_views st) \<rparr>) \<le> kept st + 1"
    "kept (st\<lparr> ar_works := bt_insert x w (ar_works st) \<rparr>) \<le> kept st + 1" for x b v w
    using length_bt_insert [of x b "ar_backings st"] length_bt_insert [of x v "ar_views st"]
      length_bt_insert [of x w "ar_works st"] by (simp_all add: kept_def)
  have same: "kept (set_backing x f st) = kept st" "kept (set_view x s st) = kept st" "kept (set_work x g st) = kept st" for x f s g
    by (simp_all add: kept_def set_backing_def set_view_def set_work_def)
  show ?thesis
  proof (cases k)
    case (RegisterIntent i)
    then show ?thesis using assms add(1) by (auto simp: register_intent_def split: if_splits option.splits)
  next
    case (ViewIntent i)
    then show ?thesis using assms add(2) by (auto simp: view_intent_def rbind_Inr_iff split: if_splits option.splits)
  next
    case (WorkIntent i)
    then show ?thesis using assms add(3) by (auto simp: work_intent_def rbind_Inr_iff split: if_splits)
  qed (use assms in \<open>auto simp: same handler_defs rbind_Inr_iff split: if_splits option.splits\<close>)
qed

lemma kept_replay:
  assumes "audit_new d = Inr st0" and "audit_replay es st0 = Inr st"
  shows "kept st \<le> length es"
proof -
  have "kept s' \<le> kept s + 1" if "audit_apply e s = Inr s'" for e s s'
    using that kept_apply_kind by (auto simp: audit_apply_def rbind_Inr_iff split: if_splits)
  moreover have "kept st0 = 0" using assms(1) by (auto simp: audit_new_def kept_def split: if_splits)
  ultimately show ?thesis using audit.run_counts [OF assms(2), of kept] by simp
qed

section \<open>What the journal says of a publication\<close>

text \<open>The reports of a finished copy name all the bytes of the work.\<close>

definition reports :: "WorkIdentity \<Rightarrow> EventKind set" where
  "reports i = {WorkIoCompleted (wi_work_id i) (wi_bytes i), WorkVerified (wi_work_id i) (wi_bytes i) (wi_bytes i)}"

text \<open>The journal has, in this order, the intent of the work, its drain, a full report and the given events.\<close>

definition copy_logged :: "EventKind list \<Rightarrow> WorkIdentity \<Rightarrow> EventKind list \<Rightarrow> bool" where
  "copy_logged ks i evs \<longleftrightarrow> (\<exists>rep \<in> reports i. subseq ([WorkIntent i, WorkDrained (wi_work_id i), rep] @ evs) ks)"

definition work_logged :: "EventKind list \<Rightarrow> Work \<Rightarrow> bool" where
  "work_logged ks w \<longleftrightarrow> subseq [WorkIntent (wk_identity w)] ks \<and>
     (wk_drained w \<longrightarrow> subseq [WorkIntent (wk_identity w), WorkDrained (wi_work_id (wk_identity w))] ks) \<and>
     (wk_verified w \<or> wk_io_completed w \<longrightarrow> copy_logged ks (wk_identity w) [])"

definition backing_logged :: "EventKind list \<Rightarrow> AuditReplay \<Rightarrow> u64 \<Rightarrow> Backing \<Rightarrow> bool" where
  "backing_logged ks st oid b \<longleftrightarrow>
     (ba_state b = BPublishing \<longrightarrow>
        (\<exists>k w. ba_publishing_work b = Some k \<and> bt_get (ar_works st) k = Some w \<and> wi_target_id (wk_identity w) = oid \<and>
           copy_logged ks (wk_identity w) [PublishIntent k])) \<and>
     (ba_state b = BActive \<and> bi_purpose (ba_identity b) \<noteq> Immutable \<longrightarrow>
        (\<exists>k w seals. bt_get (ar_works st) k = Some w \<and> wi_target_id (wk_identity w) = oid \<and>
           and seals required_seals = required_seals \<and> copy_logged ks (wk_identity w) [PublishIntent k, PublishDone k seals]))"

definition audit_logged :: "EventKind list \<Rightarrow> AuditReplay \<Rightarrow> bool" where
  "audit_logged ks st \<longleftrightarrow>
     (\<forall>k w. bt_get (ar_works st) k = Some w \<longrightarrow> work_logged ks w) \<and>
     (\<forall>oid b. bt_get (ar_backings st) oid = Some b \<longrightarrow> backing_logged ks st oid b)"

lemma subseq_grow: "subseq xs ks \<Longrightarrow> subseq xs (ks @ [x])"
  by (rule list_emb_prefix)

lemma subseq_snoc: "subseq xs ks \<Longrightarrow> subseq (xs @ [x]) (ks @ [x])"
  by (rule list_emb_append_mono) simp_all

lemma copy_logged_grow: "copy_logged ks i evs \<Longrightarrow> copy_logged (ks @ [x]) i evs"
  unfolding copy_logged_def using subseq_grow by blast

lemma copy_logged_snoc:
  assumes "copy_logged ks i evs"
  shows "copy_logged (ks @ [x]) i (evs @ [x])"
proof -
  obtain rep where rep: "rep \<in> reports i" "subseq ([WorkIntent i, WorkDrained (wi_work_id i), rep] @ evs) ks"
    using assms unfolding copy_logged_def by (rule bexE)
  from subseq_snoc [OF rep(2), of x] show ?thesis unfolding copy_logged_def append_assoc by (rule bexI [OF _ rep(1)])
qed

lemma work_logged_grow: "work_logged ks w \<Longrightarrow> work_logged (ks @ [x]) w"
  unfolding work_logged_def by (simp add: subseq_grow copy_logged_grow)

text \<open>Each event on a work writes what it then claims of the work.\<close>

lemma work_logged_report:
  assumes "work_logged ks w" and "wk_drained w" and "rep \<in> reports (wk_identity w)"
  shows "copy_logged (ks @ [rep]) (wk_identity w) []"
  using subseq_snoc [of "[WorkIntent (wk_identity w), WorkDrained (wi_work_id (wk_identity w))]" ks rep] assms
  by (auto simp: work_logged_def copy_logged_def)

lemma changed_work:
  assumes "st' = set_work wid f st" and "bt_get (ar_works st') k = Some w" and "bt_get (ar_works st) k \<noteq> Some w"
  obtains v where "k = wid" "bt_get (ar_works st) wid = Some v" "w = f v"
  using assms by (auto simp: set_work_def bt_get_modify split: if_splits)

lemma works_kept:
  "apply_kind epoch x st = Inr st' \<Longrightarrow>
     (\<exists>i. x = WorkIntent i) \<or> (\<exists>k. x = CancelRequest k) \<or> (\<exists>k. x = WorkDrained k) \<or> (\<exists>k n. x = WorkIoCompleted k n) \<or>
     (\<exists>k n m. x = WorkVerified k n m) \<or> ar_works st' = ar_works st"
  by (cases x) (auto simp: handler_defs register_intent_def view_intent_def set_backing_def set_view_def rbind_Inr_iff
      split: if_splits option.splits)

lemma works_logged_step:
  assumes run: "apply_kind epoch x st = Inr st'" and maps: "maps_ok st"
    and ok: "\<And>k w. bt_get (ar_works st) k = Some w \<Longrightarrow> work_logged ks w" and w: "bt_get (ar_works st') k = Some w"
  shows "work_logged (ks @ [x]) w"
proof (cases "bt_get (ar_works st) k = Some w")
  case True
  then show ?thesis using ok work_logged_grow by blast
next
  case False
  have wf: "bt_wf (ar_works st)" and key: "\<And>k w. bt_get (ar_works st) k = Some w \<Longrightarrow> wi_work_id (wk_identity w) = k"
    using maps by (simp_all add: maps_ok_def)
  have grown: "work_logged (ks @ [x]) v" if "bt_get (ar_works st) k = Some v" for v k using ok that work_logged_grow by blast
  consider (WorkIntent) i where "x = WorkIntent i" | (CancelRequest) wid where "x = CancelRequest wid"
    | (WorkDrained) wid where "x = WorkDrained wid" | (WorkIoCompleted) wid copied where "x = WorkIoCompleted wid copied"
    | (WorkVerified) wid copied verified where "x = WorkVerified wid copied verified" | (same) "ar_works st' = ar_works st"
    using works_kept [OF run] by blast
  then show ?thesis
  proof cases
    case (WorkIntent i)
    then have "w = \<lparr> wk_identity = i, wk_cancelled = False, wk_drained = False, wk_verified = False, wk_io_completed = False \<rparr>"
      using run w False wf by (auto simp: work_intent_def rbind_Inr_iff bt_get_insert split: if_splits)
    then show ?thesis using WorkIntent subseq_snoc [of "[]" ks x] by (simp add: work_logged_def)
  next
    case (CancelRequest wid)
    then have "st' = set_work wid (\<lambda>w. w\<lparr> wk_cancelled := True \<rparr>) st" using run by (auto simp: cancel_request_def rbind_Inr_iff)
    from this w False obtain v where "bt_get (ar_works st) wid = Some v" "w = v\<lparr> wk_cancelled := True \<rparr>" by (rule changed_work)
    then show ?thesis using grown by (simp add: work_logged_def)
  next
    case (WorkDrained wid)
    then have "st' = set_work wid (\<lambda>w. w\<lparr> wk_drained := True \<rparr>) st" using run by (auto simp: work_drained_def rbind_Inr_iff split: if_splits)
    from this w False obtain v where v0: "k = wid" "bt_get (ar_works st) wid = Some v" "w = v\<lparr> wk_drained := True \<rparr>" by (rule changed_work)
    note v = v0(2,3)
    have "subseq [WorkIntent (wk_identity v), x] (ks @ [x])"
      using subseq_snoc [of "[WorkIntent (wk_identity v)]" ks x] ok [OF v(1)] by (simp add: work_logged_def)
    then show ?thesis using grown [OF v(1)] v key [OF v(1)] WorkDrained by (simp add: work_logged_def)
  next
    case (WorkIoCompleted wid copied)
    then obtain u where u: "bt_get (ar_works st) wid = Some u" "wk_drained u" "copied = wi_bytes (wk_identity u)"
        and st': "st' = set_work wid (\<lambda>w. w\<lparr> wk_io_completed := True \<rparr>) st"
      using run by (auto simp: work_io_completed_def rbind_Inr_iff dest!: work_of_InrD split: if_splits)
    from st' w False obtain v where v: "k = wid" "bt_get (ar_works st) wid = Some v" "w = v\<lparr> wk_io_completed := True \<rparr>" by (rule changed_work)
    then have "x \<in> reports (wk_identity v)" "wk_drained v" using WorkIoCompleted key [OF v(2)] u by (simp_all add: reports_def)
    from work_logged_report [OF ok [OF v(2)] this(2,1)] show ?thesis using grown [OF v(2)] v(3) by (simp add: work_logged_def)
  next
    case (WorkVerified wid copied verified)
    then obtain u where u: "bt_get (ar_works st) wid = Some u" "wk_drained u" "copied = wi_bytes (wk_identity u)" "verified = wi_bytes (wk_identity u)"
        and st': "st' = set_work wid (\<lambda>w. w\<lparr> wk_verified := True \<rparr>) st"
      using run by (auto simp: work_verified_def rbind_Inr_iff dest!: work_of_InrD split: if_splits)
    from st' w False obtain v where v: "k = wid" "bt_get (ar_works st) wid = Some v" "w = v\<lparr> wk_verified := True \<rparr>" by (rule changed_work)
    then have "x \<in> reports (wk_identity v)" "wk_drained v" using WorkVerified key [OF v(2)] u by (simp_all add: reports_def)
    from work_logged_report [OF ok [OF v(2)] this(2,1)] show ?thesis using grown [OF v(2)] v(3) by (simp add: work_logged_def)
  next
    case same
    then show ?thesis using w False by simp
  qed
qed

text \<open>What is logged of a backing survives, as works are kept with their identities.\<close>

lemma backing_logged_grow:
  assumes "backing_logged ks st oid b"
    and stay: "\<And>k w. bt_get (ar_works st) k = Some w \<Longrightarrow> \<exists>w'. bt_get (ar_works st') k = Some w' \<and> wk_identity w' = wk_identity w"
  shows "backing_logged (ks @ [x]) st' oid b"
proof -
  have "\<exists>k w. P k \<and> bt_get (ar_works st') k = Some w \<and> wi_target_id (wk_identity w) = oid \<and> copy_logged (ks @ [x]) (wk_identity w) (evs k)"
    if "P k" "bt_get (ar_works st) k = Some w" "wi_target_id (wk_identity w) = oid" "copy_logged ks (wk_identity w) (evs k)" for P k w evs
    using stay [OF that(2)] that copy_logged_grow by metis
  note kept = this
  show ?thesis
    unfolding backing_logged_def
  proof (intro conjI impI; (elim conjE)?)
    assume "ba_state b = BPublishing"
    then show "\<exists>k w. ba_publishing_work b = Some k \<and> bt_get (ar_works st') k = Some w \<and> wi_target_id (wk_identity w) = oid \<and>
        copy_logged (ks @ [x]) (wk_identity w) [PublishIntent k]"
      using assms(1) kept [of "\<lambda>k. ba_publishing_work b = Some k" _ _ "\<lambda>k. [PublishIntent k]"] unfolding backing_logged_def by blast
  next
    assume "ba_state b = BActive" "bi_purpose (ba_identity b) \<noteq> Immutable"
    then obtain k w seals where "bt_get (ar_works st) k = Some w" "wi_target_id (wk_identity w) = oid"
        "and seals required_seals = required_seals" "copy_logged ks (wk_identity w) [PublishIntent k, PublishDone k seals]"
      using assms(1) unfolding backing_logged_def by blast
    then show "\<exists>k w seals. bt_get (ar_works st') k = Some w \<and> wi_target_id (wk_identity w) = oid \<and>
        and seals required_seals = required_seals \<and> copy_logged (ks @ [x]) (wk_identity w) [PublishIntent k, PublishDone k seals]"
      using kept [of "\<lambda>_. True" k w "\<lambda>k. [PublishIntent k, PublishDone k seals]"] by blast
  qed
qed

lemma backing_logged_quiet: "ba_state b \<notin> {BActive, BPublishing} \<Longrightarrow> backing_logged ks st oid b"
  by (simp add: backing_logged_def)

lemma publish_logged:
  assumes works: "\<And>k w. bt_get (ar_works st) k = Some w \<Longrightarrow> work_logged ks w"
    and log: "\<And>oid b. bt_get (ar_backings st) oid = Some b \<Longrightarrow> backing_logged ks st oid b"
    and b: "bt_get (ar_backings st') oid = Some b" "bt_get (ar_backings st) oid \<noteq> Some b" and ws: "ar_works st' = ar_works st"
  shows "publish_intent wid st = Inr st' \<Longrightarrow> backing_logged (ks @ [PublishIntent wid]) st' oid b"
    and "publish_done wid seals st = Inr st' \<Longrightarrow> backing_logged (ks @ [PublishDone wid seals]) st' oid b"
proof -
  assume "publish_intent wid st = Inr st'"
  then obtain w where w: "bt_get (ar_works st) wid = Some w" "may_publish w"
      "st' = set_backing (wi_target_id (wk_identity w)) (\<lambda>b. b\<lparr> ba_state := BPublishing, ba_publishing_work := Some wid \<rparr>) st"
    by (auto simp: publish_intent_def rbind_Inr_iff dest!: work_of_InrD split: if_splits)
  have "copy_logged ks (wk_identity w) []" using works [OF w(1)] w(2) by (auto simp: work_logged_def may_publish_def)
  from copy_logged_snoc [OF this, of "PublishIntent wid"] show "backing_logged (ks @ [PublishIntent wid]) st' oid b"
    using b w ws by (auto simp: set_backing_def bt_get_modify backing_logged_def split: if_splits)
next
  assume "publish_done wid seals st = Inr st'"
  then obtain w t where w: "bt_get (ar_works st) wid = Some w" "and seals required_seals = required_seals"
      "bt_get (ar_backings st) (wi_target_id (wk_identity w)) = Some t" "ba_state t = BPublishing" "ba_publishing_work t = Some wid"
      "st' = set_backing (wi_target_id (wk_identity w)) (\<lambda>b. b\<lparr> ba_state := BActive, ba_publishing_work := None \<rparr>) st"
    by (auto simp: publish_done_def ends_live_def rbind_Inr_iff dest!: work_of_InrD backing_InrD split: if_splits)
  have "copy_logged ks (wk_identity w) [PublishIntent wid]" using log [OF w(3)] w(1,4,5) by (auto simp: backing_logged_def)
  from copy_logged_snoc [OF this, of "PublishDone wid seals"] show "backing_logged (ks @ [PublishDone wid seals]) st' oid b"
    using b w ws by (auto simp: set_backing_def bt_get_modify backing_logged_def split: if_splits)
qed

text \<open>Every other event leaves the backings, or moves one to a state in which it is not readable.\<close>

lemma changed_backing:
  assumes "st' = set_backing oid f st" and "bt_get (ar_backings st') k = Some b" and "bt_get (ar_backings st) k \<noteq> Some b"
  obtains b0 where "k = oid" "bt_get (ar_backings st) oid = Some b0" "b = f b0"
  using assms by (auto simp: set_backing_def bt_get_modify split: if_splits)

lemma backings_kept:
  "apply_kind epoch x st = Inr st' \<Longrightarrow>
     (\<exists>i. x = RegisterIntent i) \<or> (\<exists>k g. x = RegisterCommit k g) \<or> (\<exists>k. x = PublishIntent k) \<or> (\<exists>k seals. x = PublishDone k seals) \<or>
     ar_backings st' = ar_backings st \<or>
     (\<exists>oid f. st' = set_backing oid f st \<and> (\<forall>b. ba_state (f b) \<notin> {BActive, BPublishing}))"
  by (cases x; simp add: handler_defs view_intent_def work_intent_def set_view_def set_work_def rbind_Inr_iff
      split: if_splits option.splits; force)

lemma backings_logged_step:
  assumes run: "apply_kind epoch x st = Inr st'" and maps: "maps_ok st" and log: "audit_logged ks st"
    and stay: "\<And>k w. bt_get (ar_works st) k = Some w \<Longrightarrow> \<exists>w'. bt_get (ar_works st') k = Some w' \<and> wk_identity w' = wk_identity w"
    and b: "bt_get (ar_backings st') oid = Some b"
  shows "backing_logged (ks @ [x]) st' oid b"
proof (cases "bt_get (ar_backings st) oid = Some b")
  case True
  then have "backing_logged ks st oid b" using log by (simp add: audit_logged_def)
  then show ?thesis using stay by (rule backing_logged_grow)
next
  case new: False
  have wf: "bt_wf (ar_backings st)" using maps by (simp add: maps_ok_def)
  have works: "\<And>k w. bt_get (ar_works st) k = Some w \<Longrightarrow> work_logged ks w"
      and old: "\<And>oid b. bt_get (ar_backings st) oid = Some b \<Longrightarrow> backing_logged ks st oid b"
    using log by (simp_all add: audit_logged_def)
  note pub = publish_logged [OF works old b new]
  consider (RegisterIntent) i where "x = RegisterIntent i" | (RegisterCommit) oid' gen where "x = RegisterCommit oid' gen"
    | (PublishIntent) wid where "x = PublishIntent wid" | (PublishDone) wid seals where "x = PublishDone wid seals"
    | (same) "ar_backings st' = ar_backings st"
    | (moved) oid' f where "st' = set_backing oid' f st" "\<And>b. ba_state (f b) \<notin> {BActive, BPublishing}"
    using backings_kept [OF run] by blast
  then show ?thesis
  proof cases
    case (RegisterIntent i)
    then have "ba_state b = BProvisional"
      using run b new wf by (auto simp: register_intent_def bt_get_insert split: if_splits option.splits)
    then show ?thesis by (simp add: backing_logged_def)
  next
    case (RegisterCommit oid' gen)
    then have "ba_state b = BPending \<or> bi_purpose (ba_identity b) = Immutable \<and> ba_state b = BActive"
      using run b new by (auto simp: register_commit_def set_backing_def bt_get_modify rbind_Inr_iff dest!: backing_InrD split: if_splits)
    then show ?thesis by (auto simp: backing_logged_def)
  next
    case (PublishIntent wid)
    then have "publish_intent wid st = Inr st'" "ar_works st' = ar_works st" using run works_kept [OF run] by simp_all
    then show ?thesis using pub(1) PublishIntent by simp
  next
    case (PublishDone wid seals)
    then have "publish_done wid seals st = Inr st'" "ar_works st' = ar_works st" using run works_kept [OF run] by simp_all
    then show ?thesis using pub(2) PublishDone by simp
  next
    case same
    then show ?thesis using b new by simp
  next
    case (moved oid' f)
    from moved(1) b new obtain b0 where "b = f b0" by (rule changed_backing)
    then show ?thesis using moved(2) backing_logged_quiet by blast
  qed
qed

lemma audit_logged_step:
  assumes "audit_apply e st = Inr st'" and "audit_ok st" and "audit_logged ks st"
  shows "audit_logged (ks @ [au_kind e]) st'"
proof -
  obtain st1 where k: "apply_kind (au_epoch e) (au_kind e) st = Inr st1" "st' = st1\<lparr> ar_epoch := au_epoch e \<rparr>"
    using assms(1) by (auto simp: audit_apply_def rbind_Inr_iff split: if_splits)
  have maps: "maps_ok st" using assms(2) by (simp add: audit_ok_def)
  have stay: "\<exists>w'. bt_get (ar_works st1) k = Some w' \<and> wk_identity w' = wk_identity w" if "bt_get (ar_works st) k = Some w" for k w
    using works_stay [OF maps audit_apply_step [OF assms(1,2)] that] k(2) by (auto simp: work_move_def)
  have "backing_logged ks' (st1\<lparr> ar_epoch := n \<rparr>) oid b = backing_logged ks' st1 oid b" for ks' n oid b by (simp add: backing_logged_def)
  then show ?thesis
    using works_logged_step [OF k(1) maps] backings_logged_step [OF k(1) maps assms(3) stay] assms(3) k(2)
    by (simp add: audit_logged_def)
qed

lemma audit_replay_logged:
  assumes "audit_new d = Inr st0" and "audit_replay es st0 = Inr st"
  shows "audit_logged (map au_kind es) st"
  using assms(2)
proof (induction es arbitrary: st rule: rev_induct)
  case Nil
  then show ?case using assms(1) by (auto simp: audit_new_def audit_logged_def bt_get_def split: if_splits)
next
  case (snoc e es)
  then obtain st1 where "audit_replay es st0 = Inr st1" "audit_apply e st1 = Inr st"
    by (auto simp: audit.run_append rbind_Inr_iff)
  moreover from this(1) have "audit_ok st1" using audit_replay_ok audit_new_ok assms(1) by blast
  ultimately show ?case using audit_logged_step snoc.IH by simp
qed

section \<open>Clean checkpoints\<close>

definition settled :: "AuditReplay \<Rightarrow> bool" where
  "settled st \<longleftrightarrow>
     (\<forall>b \<in> set (backings st). ba_state b = BClosed) \<and> (\<forall>v \<in> set (views st). view_resolved v) \<and>
     (\<forall>w \<in> set (works st). wk_drained w) \<and> ar_terminated st = []"

lemma of_nat_u64_0:
  assumes "n < 2 ^ 64"
  shows "(of_nat n :: u64) = 0 \<longleftrightarrow> n = 0"
proof
  assume "(of_nat n :: u64) = 0"
  then have "unat (of_nat n :: u64) = 0" by simp
  then show "n = 0" using assms by (simp add: unat_of_nat)
qed simp

lemma drain_settles:
  assumes "kept st < 2 ^ 64" and "snap = observed_drain h r st" and "dr_retained_backings snap = 0"
    and "dr_in_flight snap = 0" and "dr_potential_holders snap = 0"
  shows "settled st"
proof -
  have sizes: "length (filter p (backings st)) < 2 ^ 64" "length (filter q (works st)) < 2 ^ 64"
      "length (unresolved_holders st) < 2 ^ 64" for p q
  proof -
    have sub: "length (filter p (backings st)) \<le> length (ar_backings st)" "length (filter q (works st)) \<le> length (ar_works st)"
        "length (filter q' (views st)) \<le> length (ar_views st)" for p q q'
      by (rule order_trans [OF length_filter_le], simp add: backings_def works_def views_def)+
    then have "length (filter p (backings st)) \<le> kept st" "length (filter q (works st)) \<le> kept st"
      unfolding kept_def by (auto intro: order_trans [OF sub(1)] order_trans [OF sub(2)])
    moreover have "length (unresolved_holders st) \<le> kept st"
    proof -
      let ?os = "map (bi_owner \<circ> ba_identity) (filter (\<lambda>b. ba_state b \<noteq> BClosed) (backings st))"
      let ?as = "map (vi_accessor \<circ> vw_identity) (filter (\<lambda>v. \<not> view_resolved v) (views st))"
      have "length (unresolved_holders st) \<le> length (ar_terminated st) + (length ?as + (length ?os + 0))"
        unfolding unresolved_holders_def
        using length_add_new [of ?os "[]"] length_add_new [of ?as "add_new ?os []"]
          length_add_new [of "ar_terminated st" "add_new ?as (add_new ?os [])"] by (simp only: list.size)
      also have "\<dots> \<le> kept st"
        using sub(1) [of "\<lambda>b. ba_state b \<noteq> BClosed"] sub(3) [of "\<lambda>v. \<not> view_resolved v"] by (simp add: kept_def)
      finally show ?thesis .
    qed
    ultimately show "length (filter p (backings st)) < 2 ^ 64" "length (filter q (works st)) < 2 ^ 64"
        "length (unresolved_holders st) < 2 ^ 64"
      using assms(1) by linarith+
  qed
  have "filter (\<lambda>b. ba_state b \<noteq> BClosed) (backings st) = []" "filter (\<lambda>w. \<not> wk_drained w) (works st) = []"
      "unresolved_holders st = []"
    using assms(3-5) sizes unfolding assms(2) observed_drain_def active_work_def
    by (simp_all add: of_nat_u64_0 del: of_nat_eq_0_iff)
  moreover from this(3) have "ar_terminated st = []" "\<forall>v \<in> set (views st). view_resolved v"
    using set_unresolved_holders [of st] by auto
  ultimately show ?thesis by (auto simp: settled_def filter_empty_conv)
qed

lemma apply_kind_checkpointed:
  assumes "apply_kind epoch k st = Inr st'" and "\<And>snap. k \<noteq> CleanCheckpoint snap"
  shows "ar_checkpointed st' = ar_checkpointed st"
  using assms
  by (cases k) (auto simp: handler_defs register_intent_def view_intent_def work_intent_def set_backing_def set_view_def
      set_work_def rbind_Inr_iff split: if_splits option.splits)

lemma checkpoint_settles:
  assumes "audit_apply e st = Inr st'" and "\<not> ar_checkpointed st" and "ar_checkpointed st'" and "kept st < 2 ^ 64"
  shows "settled st'"
proof -
  obtain st1 where k: "apply_kind (au_epoch e) (au_kind e) st = Inr st1" "st' = st1\<lparr> ar_epoch := au_epoch e \<rparr>"
    using assms(1) by (auto simp: audit_apply_def rbind_Inr_iff split: if_splits)
  then obtain snap where snap: "au_kind e = CleanCheckpoint snap"
    using apply_kind_checkpointed [OF k(1)] assms(2,3) by auto
  then have "snap = observed_drain 0 0 st" "dr_retained_backings snap = 0" "dr_in_flight snap = 0"
      "dr_potential_holders snap = 0" "st1 = st\<lparr> ar_checkpointed := True \<rparr>"
    using k(1) by (auto simp: clean_checkpoint_def split: if_splits)
  moreover from drain_settles [OF assms(4) this(1-4)] have "settled st" .
  ultimately show ?thesis using k(2) by (simp add: settled_def backings_def views_def works_def)
qed

lemma checkpointed_settled:
  assumes "audit_new d = Inr st0" and "audit_replay es st0 = Inr st" and "length es < 2 ^ 64" and "ar_checkpointed st"
  shows "settled st"
proof (cases es rule: rev_cases)
  case Nil
  then show ?thesis using assms by (auto simp: audit_new_def split: if_splits)
next
  case (snoc es1 e)
  then obtain st1 where st1: "audit_replay es1 st0 = Inr st1" "audit_apply e st1 = Inr st"
    using assms(2) by (auto simp: audit.run_append rbind_Inr_iff)
  moreover have "\<not> ar_checkpointed st1" using st1(2) by (auto simp: audit_apply_def split: if_splits)
  moreover have "kept st1 < 2 ^ 64" using kept_replay [OF assms(1) st1(1)] assms(3) snoc by simp
  ultimately show ?thesis using checkpoint_settles assms(4) by blast
qed

section \<open>Properties\<close>

text \<open>
  C36. The replay never admits more memory than the domain allows. Whatever events a journal holds, the
  bytes of the backings that are not closed stay within the total limit and those of one owner within
  the owner limit, and the 64-bit sum the code forms is the true sum: it does not wrap.
\<close>
theorem audit_budget_holds:
  assumes "audit_new d = Inr st0" and "audit_replay es st0 = Inr st"
  shows "unat (charged_bytes st) = sum_list (map (\<lambda>b. unat (bi_bytes (ba_identity b))) (filter (\<lambda>b. ba_state b \<noteq> BClosed) (backings st))) \<and>
    unat (charged_bytes st) \<le> unat (do_total_limit d) \<and>
    unat (owner_charged owner st) = sum_list (map (\<lambda>b. unat (bi_bytes (ba_identity b)))
      (filter (\<lambda>b. ba_state b \<noteq> BClosed \<and> bi_owner_incarnation (ba_identity b) = owner) (backings st))) \<and>
    unat (owner_charged owner st) \<le> unat (do_owner_limit d)"
proof -
  have ok: "audit_ok st" using audit_replay_ok audit_new_ok assms by blast
  have d: "ar_domain st = d"
    using audit.run_invariant [of es st0 st "\<lambda>s. audit_ok s \<and> ar_domain s = d"] assms audit_new_ok audit_apply_step audit_ok_step
      audit_apply_domain by metis
  have sums: "total_charge st = sum_list (map (\<lambda>b. unat (bi_bytes (ba_identity b))) (filter (\<lambda>b. ba_state b \<noteq> BClosed) (backings st)))"
    "owner_total owner st = sum_list (map (\<lambda>b. unat (bi_bytes (ba_identity b)))
      (filter (\<lambda>b. ba_state b \<noteq> BClosed \<and> bi_owner_incarnation (ba_identity b) = owner) (backings st)))"
    unfolding total_charge_def owner_total_def sum_list_map_filter' by (auto simp: charge_def owner_charge_def intro!: arg_cong [where f = sum_list])
  have small: "total_charge st \<le> unat (do_total_limit d)" "owner_total owner st \<le> unat (do_owner_limit d)"
    using ok d by (auto simp: audit_ok_def budget_ok_def)
  then have "total_charge st < 2 ^ 64" "owner_total owner st < 2 ^ 64"
    using unat_less_u64 [of "do_total_limit d"] unat_less_u64 [of "do_owner_limit d"] by linarith+
  then show ?thesis using charged_bytes_nat owner_charged_nat small sums by simp
qed

text \<open>
  C33. A possible exposure is never forgotten. Once the journal says that an accessor may hold the file
  descriptor of a view, no further event changes that view, closes its backing, takes its accessor off
  the list of holders, or produces a clean checkpoint.
\<close>
theorem exposure_never_forgotten:
  assumes "audit_new d = Inr st0" and "audit_replay es st0 = Inr st"
    and "bt_get (ar_views st) k = Some v" and "vw_state v = VPossiblyExposed"
    and "audit_replay es' st = Inr st'" and "length es + length es' < 2 ^ 64"
  shows "bt_get (ar_views st') k = Some v \<and>
    (\<exists>b. bt_get (ar_backings st') (vi_object_id (vw_identity v)) = Some b \<and> ba_state b \<noteq> BClosed) \<and>
    vi_accessor (vw_identity v) \<in> set (unresolved_holders st') \<and> \<not> ar_checkpointed st'"
proof -
  have ok: "audit_ok st" "audit_ok st'" using audit_replay_ok audit_new_ok assms by blast+
  have v: "bt_get (ar_views st') k = Some v" using exposed_stays [OF assms(5) ok(1) assms(3,4)] .
  have "audit_replay (es @ es') st0 = Inr st'" using assms(2,5) by (simp add: audit.run_append)
  then have "ar_checkpointed st' \<Longrightarrow> settled st'" using checkpointed_settled [OF assms(1)] assms(6) by simp
  then have "\<not> ar_checkpointed st'"
    using bt_get_values [OF v] assms(4) by (fastforce simp: settled_def views_def view_resolved_def)
  then show ?thesis using v exposed_view_holds [OF ok(2) v assms(4)] by simp
qed

text \<open>
  C34. A clean checkpoint is clean. If a replayed journal ends checkpointed, every backing is closed,
  every view is closed or was never sent, every work is drained and no terminated peer is left over.
\<close>
theorem checkpoint_leaves_nothing:
  assumes "audit_new d = Inr st0" and "audit_replay es st0 = Inr st" and "length es < 2 ^ 64"
    and "ar_checkpointed st"
  shows "(\<forall>b \<in> set (backings st). ba_state b = BClosed) \<and> (\<forall>v \<in> set (views st). view_resolved v) \<and>
    (\<forall>w \<in> set (works st). wk_drained w) \<and> unresolved_holders st = []"
proof -
  have "settled st" using checkpointed_settled [OF assms] .
  then have "set (unresolved_holders st) = {}" by (auto simp: settled_def set_unresolved_holders)
  then show ?thesis using \<open>settled st\<close> by (simp add: settled_def)
qed

text \<open>
  C35. Nothing is read before it was written. If a backing that was not registered as immutable is active,
  so that views may be opened on it, then exactly one work targets it and the journal holds, in this order,
  that work's intent, its drain, a report that all its bytes were copied, or copied and verified, its
  intent to publish and the publication under all required seals. The work reads another file, and its two
  windows lie inside the two backings.
\<close>
theorem published_after_copy:
  assumes "audit_new d = Inr st0" and "audit_replay es st0 = Inr st"
    and "bt_get (ar_backings st) oid = Some b" and "ba_state b = BActive" and "bi_purpose (ba_identity b) \<noteq> Immutable"
  shows "(\<exists>!k. \<exists>w. bt_get (ar_works st) k = Some w \<and> wi_target_id (wk_identity w) = oid) \<and>
    (\<exists>w i rep seals s. bt_get (ar_works st) (wi_work_id i) = Some w \<and> wk_identity w = i \<and> wi_target_id i = oid \<and> wk_drained w \<and>
      subseq [WorkIntent i, WorkDrained (wi_work_id i), rep, PublishIntent (wi_work_id i), PublishDone (wi_work_id i) seals]
        (map au_kind es) \<and>
      rep \<in> {WorkIoCompleted (wi_work_id i) (wi_bytes i), WorkVerified (wi_work_id i) (wi_bytes i) (wi_bytes i)} \<and>
      and seals required_seals = required_seals \<and>
      bt_get (ar_backings st) (wi_source_id i) = Some s \<and> memfd s \<noteq> memfd b \<and>
      unat (wi_src_offset i) + unat (wi_bytes i) \<le> unat (bi_bytes (ba_identity s)) \<and>
      unat (wi_dst_offset i) + unat (wi_bytes i) \<le> unat (bi_bytes (ba_identity b)))"
proof
  have ok: "audit_ok st" using audit_replay_ok audit_new_ok assms by blast
  have "backing_logged (map au_kind es) st oid b" using audit_replay_logged [OF assms(1,2)] assms(3) by (simp add: audit_logged_def)
  then obtain k w rep seals where w: "bt_get (ar_works st) k = Some w" "wi_target_id (wk_identity w) = oid"
      and log: "and seals required_seals = required_seals" "rep \<in> reports (wk_identity w)"
        "subseq [WorkIntent (wk_identity w), WorkDrained (wi_work_id (wk_identity w)), rep, PublishIntent k, PublishDone k seals] (map au_kind es)"
    using assms(4,5) by (auto simp: backing_logged_def copy_logged_def)
  then show one: "\<exists>!k. \<exists>w. bt_get (ar_works st) k = Some w \<and> wi_target_id (wk_identity w) = oid"
    using ok unfolding audit_ok_def works_ok_def by blast
  have k: "wi_work_id (wk_identity w) = k" using ok w(1) by (simp add: audit_ok_def maps_ok_def)
  have "copied_into st oid" using ok assms(3-5) by (auto simp: audit_ok_def published_ok_def)
  then have drained: "wk_drained w" using one w unfolding copied_into_def by (metis option.inject)
  have "work_fits st (wk_identity w)" using ok w(1) by (auto simp: audit_ok_def works_ok_def)
  then obtain s where s: "bt_get (ar_backings st) (wi_source_id (wk_identity w)) = Some s" "memfd s \<noteq> memfd b"
      "unat (wi_src_offset (wk_identity w)) + unat (wi_bytes (wk_identity w)) \<le> unat (bi_bytes (ba_identity s))"
      "unat (wi_dst_offset (wk_identity w)) + unat (wi_bytes (wk_identity w)) \<le> unat (bi_bytes (ba_identity b))"
    using w(2) assms(3) unfolding work_fits_def by auto
  show "\<exists>w i rep seals s. bt_get (ar_works st) (wi_work_id i) = Some w \<and> wk_identity w = i \<and> wi_target_id i = oid \<and> wk_drained w \<and>
      subseq [WorkIntent i, WorkDrained (wi_work_id i), rep, PublishIntent (wi_work_id i), PublishDone (wi_work_id i) seals]
        (map au_kind es) \<and>
      rep \<in> {WorkIoCompleted (wi_work_id i) (wi_bytes i), WorkVerified (wi_work_id i) (wi_bytes i) (wi_bytes i)} \<and>
      and seals required_seals = required_seals \<and>
      bt_get (ar_backings st) (wi_source_id i) = Some s \<and> memfd s \<noteq> memfd b \<and>
      unat (wi_src_offset i) + unat (wi_bytes i) \<le> unat (bi_bytes (ba_identity s)) \<and>
      unat (wi_dst_offset i) + unat (wi_bytes i) \<le> unat (bi_bytes (ba_identity b))"
    by (intro exI [of _ w] exI [of _ "wk_identity w"] exI [of _ rep] exI [of _ seals] exI [of _ s])
      (use w log k s drained in \<open>simp_all add: reports_def\<close>)
qed

section \<open>Examples\<close>

definition demo_domain :: Domain where
  "demo_domain = \<lparr> do_host = ''h'', do_boot = ''b'', do_domain = ''d'', do_cap_revision = 1, do_broker = ''k'',
     do_owner_limit = 8192, do_total_limit = 8192 \<rparr>"

definition demo_birth :: "int \<Rightarrow> ProcessBirth" where
  "demo_birth pid = \<lparr> pb_pid = pid, pb_uid = 1, pb_gid = 1, pb_pid_namespace_dev = 1, pb_pid_namespace_ino = 2,
     pb_starttime_ticks = 3 \<rparr>"

definition demo_backing :: "u64 \<Rightarrow> Purpose \<Rightarrow> BackingIdentity" where
  "demo_backing n p = \<lparr> bi_owner = demo_birth 10, bi_owner_incarnation = ''o'', bi_pool_generation = 1, bi_object_id = n,
     bi_resource_generation = 1, bi_placement_id = n, bi_binding_id = n, bi_binding_generation = 1, bi_owner_lease_id = n,
     bi_reservation_id = n, bi_bytes = 4096, bi_memfd_dev = 1, bi_memfd_ino = n, bi_memfd_seals = 0, bi_purpose = p \<rparr>"

definition demo_view :: ViewIdentity where
  "demo_view = \<lparr> vi_object_id = 1, vi_resource_generation = 1, vi_accessor = demo_birth 20, vi_accessor_incarnation = ''a'',
     vi_client_id = 1, vi_view_id = 5, vi_lease_id = 50, vi_handoff_id = 7, vi_parent_view_id = None, vi_offset = 16,
     vi_bytes = 32 \<rparr>"

definition demo_copy :: WorkIdentity where
  "demo_copy = \<lparr> wi_work_id = 9, wi_source_id = 1, wi_source_generation = 1, wi_target_id = 2, wi_target_generation = 1,
     wi_src_offset = 0, wi_dst_offset = 0, wi_bytes = 4096, wi_snapshot_version = ''s'', wi_evidence_version = ''e'',
     wi_cost_version = ''c'', wi_worker_id = ''w'', wi_purpose = Staging \<rparr>"

definition demo_event :: "EventKind \<Rightarrow> Event" where
  "demo_event k = \<lparr> au_domain = demo_domain, au_epoch = 0, au_kind = k \<rparr>"

definition demo_journal :: "Event list" where
  "demo_journal = map demo_event [RegisterIntent (demo_backing 1 Immutable), RegisterCommit 1 1,
     RegisterIntent (demo_backing 2 Staging), RegisterCommit 2 1, WorkIntent demo_copy, WorkDrained 9,
     WorkIoCompleted 9 4096, PublishIntent 9, PublishDone 9 15]"

definition demo_exposure :: "Event list" where
  "demo_exposure = map demo_event [RegisterIntent (demo_backing 1 Immutable), RegisterCommit 1 1, ViewIntent demo_view, ViewAbort 5 50]"

definition demo_replay :: "Event list \<Rightarrow> AuditReplay option" where
  "demo_replay es = (case audit_new demo_domain of Inl _ \<Rightarrow> None
     | Inr st \<Rightarrow> (case audit_replay es st of Inl _ \<Rightarrow> None | Inr st \<Rightarrow> Some st))"

lemma demo_replayD: "demo_replay es = Some st \<Longrightarrow> \<exists>st0. audit_new demo_domain = Inr st0 \<and> audit_replay es st0 = Inr st"
  by (auto simp: demo_replay_def split: sum.splits)

lemma demo_replay_facts:
  "map_option (\<lambda>st. (charged_bytes st, map_option (\<lambda>b. (ba_state b, bi_purpose (ba_identity b))) (bt_get (ar_backings st) 2)))
     (demo_replay demo_journal) = Some (8192, Some (BActive, Staging))"
  by code_simp

lemma demo_exposure_facts:
  "map_option (\<lambda>st. (map_option (\<lambda>v. (vw_state v, vi_accessor (vw_identity v))) (bt_get (ar_views st) 5)))
     (demo_replay demo_exposure) = Some (Some (VPossiblyExposed, demo_birth 20))"
  "\<not> Option.is_none (demo_replay (demo_exposure @ [demo_event (Revoke 1 1)]))"
  by code_simp+

theorem audit_budget_holds_witness:
  "\<exists>st. demo_replay demo_journal = Some st \<and> unat (charged_bytes st) = 8192 \<and> unat (owner_charged ''o'' st) \<le> 8192"
proof -
  obtain st where st: "demo_replay demo_journal = Some st" "charged_bytes st = 8192" using demo_replay_facts by auto
  obtain st0 where "audit_new demo_domain = Inr st0" "audit_replay demo_journal st0 = Inr st" using demo_replayD [OF st(1)] by blast
  from audit_budget_holds [OF this, of "''o''"] show ?thesis using st by (simp add: demo_domain_def)
qed

theorem exposure_never_forgotten_witness:
  "\<exists>st. demo_replay (demo_exposure @ [demo_event (Revoke 1 1)]) = Some st \<and> \<not> ar_checkpointed st \<and>
     demo_birth 20 \<in> set (unresolved_holders st)"
proof -
  obtain st v where st: "demo_replay demo_exposure = Some st" "bt_get (ar_views st) 5 = Some v" "vw_state v = VPossiblyExposed"
      "vi_accessor (vw_identity v) = demo_birth 20"
    using demo_exposure_facts(1) by auto
  obtain st' where more: "demo_replay (demo_exposure @ [demo_event (Revoke 1 1)]) = Some st'"
    using demo_exposure_facts(2) by (auto simp: Option.is_none_def)
  obtain st0 where run: "audit_new demo_domain = Inr st0" "audit_replay demo_exposure st0 = Inr st" using demo_replayD [OF st(1)] by blast
  have st': "audit_replay [demo_event (Revoke 1 1)] st = Inr st'"
    using run more by (simp add: demo_replay_def audit.run_append split: sum.splits)
  have "length demo_exposure + length [demo_event (Revoke 1 1)] < 2 ^ 64" by (simp add: demo_exposure_def)
  then show ?thesis using exposure_never_forgotten [OF run st(2,3) st'] st(4) more by auto
qed

definition demo_clean :: "Event list" where
  "demo_clean = map demo_event [RegisterIntent (demo_backing 1 Immutable), RegisterAbort 1 1, BackingCloseIntent 1 1, BackingCloseDone 1 1,
     BrokerDrained \<lparr> dr_handlers = 0, dr_pending_handoffs = 0, dr_retained_backings = 0, dr_active_views = 0,
       dr_reservations = 0, dr_in_flight = 0, dr_potential_holders = 0 \<rparr>,
     CleanCheckpoint \<lparr> dr_handlers = 0, dr_pending_handoffs = 0, dr_retained_backings = 0, dr_active_views = 0,
       dr_reservations = 0, dr_in_flight = 0, dr_potential_holders = 0 \<rparr>]"

theorem checkpoint_leaves_nothing_witness:
  "\<exists>st. demo_replay demo_clean = Some st \<and> ar_checkpointed st \<and> unresolved_holders st = []"
proof -
  have "map_option ar_checkpointed (demo_replay demo_clean) = Some True" by code_simp
  then obtain st where st: "demo_replay demo_clean = Some st" "ar_checkpointed st" by auto
  obtain st0 where run: "audit_new demo_domain = Inr st0" "audit_replay demo_clean st0 = Inr st" using demo_replayD [OF st(1)] by blast
  have "length demo_clean < 2 ^ 64" by (simp add: demo_clean_def)
  from checkpoint_leaves_nothing [OF run this st(2)] show ?thesis using st by simp
qed

theorem published_after_copy_witness:
  "\<exists>st i rep seals. demo_replay demo_journal = Some st \<and> wi_target_id i = 2 \<and>
     subseq [WorkIntent i, WorkDrained (wi_work_id i), rep, PublishIntent (wi_work_id i), PublishDone (wi_work_id i) seals]
       (map au_kind demo_journal) \<and>
     rep \<in> {WorkIoCompleted (wi_work_id i) (wi_bytes i), WorkVerified (wi_work_id i) (wi_bytes i) (wi_bytes i)}"
proof -
  obtain st b where st: "demo_replay demo_journal = Some st" "bt_get (ar_backings st) 2 = Some b" "ba_state b = BActive"
      "bi_purpose (ba_identity b) \<noteq> Immutable"
    using demo_replay_facts by auto
  obtain st0 where run: "audit_new demo_domain = Inr st0" "audit_replay demo_journal st0 = Inr st" using demo_replayD [OF st(1)] by blast
  show ?thesis using published_after_copy [OF run st(2-4)] st(1) by blast
qed

end
