(* ===== verification/DurableLaws.thy ===== *)
theory DurableLaws
  imports Durable CodecLaws AuditLaws
begin

text \<open>
  The durable audit is write-ahead. The journal on disk, decoded and replayed, is the replay in memory;
  a failed or interrupted append leaves a journal that replays to the state before or after the event;
  and a broker starts only over generations that each ended in a clean checkpoint with nothing held.
\<close>

section \<open>Replaying a journal as a run\<close>

definition history_step :: "Domain \<Rightarrow> Frame \<Rightarrow> history \<Rightarrow> history result" where
  "history_step expected f h =
     (if fr_kind f = KRecoveryAudit then Inl ''recovery requires verified evidence''
      else rbind (decode_event f) (\<lambda>e. history_event [] expected (fr_sequence f) e h))"

definition history_run :: "Domain \<Rightarrow> Frame list \<Rightarrow> history \<Rightarrow> history result" where
  "history_run expected fs h = history_loop [] expected [] 0 fs h"

lemma history_loop_run: "history_loop [] expected frames i fs h = history_run expected fs h"
proof -
  have "history_loop [] expected frames i fs h = history_loop [] expected frames' i' fs h" for frames' i'
    by (induction fs arbitrary: i i' h) (auto simp: recovery_refusal_def rbind_def split: sum.splits)
  then show ?thesis by (simp add: history_run_def)
qed

interpretation hist: replay_machine "history_step expected" "history_run expected" for expected
proof unfold_locales
  fix f fs h
  show "history_run expected (f # fs) h = rbind (history_step expected f h) (history_run expected fs)"
    unfolding history_run_def [of _ "f # fs"] history_loop.simps history_step_def history_loop_run
    by (auto simp: recovery_refusal_def rbind_def split: sum.splits)
qed (simp add: history_run_def)

text \<open>An event is accepted in the open generation, or as the first of a new one.\<close>

lemma enter_generation_cases:
  assumes "enter_generation [] e h = Inr (st, h')"
  shows "generation_open h \<and> hs_replay h = Some st \<and> hs_current h = Some (au_domain e) \<and> h' = h \<or>
     \<not> generation_open h \<and> audit_new (au_domain e) = Inr st \<and> do_broker (au_domain e) \<notin> hs_brokers h \<and>
       h' = h\<lparr> hs_current := Some (au_domain e), hs_brokers := insert (do_broker (au_domain e)) (hs_brokers h) \<rparr>"
  using assms by (auto simp: enter_generation_def generation_open_def Let_def rbind_Inr_iff split: if_splits option.splits)

lemma history_eventE:
  assumes "history_event [] expected s e h = Inr h'"
  obtains st st' where "same_budget (au_domain e) expected" "audit_apply e st = Inr st'" "hs_replay h' = Some st'"
    "hs_last_broker h' = do_broker (au_domain e)" "hs_ended_clean h' = is_checkpoint (au_kind e)"
    "hs_latest_clean h' = (if is_checkpoint (au_kind e) then s else hs_latest_clean h)" "hs_current h' = Some (au_domain e)"
    "generation_open h \<and> hs_replay h = Some st \<and> hs_current h = Some (au_domain e) \<and> hs_brokers h' = hs_brokers h \<or>
     \<not> generation_open h \<and> audit_new (au_domain e) = Inr st \<and> do_broker (au_domain e) \<notin> hs_brokers h \<and>
       hs_brokers h' = insert (do_broker (au_domain e)) (hs_brokers h)"
proof -
  have budget: "same_budget (au_domain e) expected" using assms by (auto simp: history_event_def split: if_splits)
  then obtain st h1 st' where st: "enter_generation [] e h = Inr (st, h1)" "audit_apply e st = Inr st'"
      "h' = h1\<lparr> hs_replay := Some st', hs_last_broker := do_broker (au_domain e), hs_ended_clean := is_checkpoint (au_kind e),
         hs_latest_clean := (if is_checkpoint (au_kind e) then s else hs_latest_clean h1) \<rparr>"
    using assms by (auto simp: history_event_def rbind_Inr_iff simp del: if_split)
  show thesis
    using enter_generation_cases [OF st(1)] st(2,3) by (intro that [OF budget st(2)]) auto
qed

lemma history_stepE:
  assumes "history_step expected f h = Inr h'"
  obtains e where "decode_event f = Inr e" "history_event [] expected (fr_sequence f) e h = Inr h'" "fr_kind f \<noteq> KRecoveryAudit"
  using assms by (auto simp: history_step_def rbind_Inr_iff split: if_splits)

lemma audit_apply_checkpointed:
  assumes "audit_apply e st = Inr st'"
  shows "\<not> ar_checkpointed st" "ar_checkpointed st' \<longleftrightarrow> is_checkpoint (au_kind e)"
proof -
  obtain st1 where st1: "apply_kind (au_epoch e) (au_kind e) st = Inr st1" "st' = st1\<lparr> ar_epoch := au_epoch e \<rparr>" and no: "\<not> ar_checkpointed st"
    using assms by (auto simp: audit_apply_def rbind_Inr_iff split: if_splits)
  show "\<not> ar_checkpointed st" by (fact no)
  show "ar_checkpointed st' \<longleftrightarrow> is_checkpoint (au_kind e)"
  proof (cases "is_checkpoint (au_kind e)")
    case True
    then obtain snap where "au_kind e = CleanCheckpoint snap" by (auto simp: is_checkpoint_def split: EventKind.splits)
    then show ?thesis using st1 True by (auto simp: clean_checkpoint_def split: if_splits)
  next
    case False
    then have "au_kind e \<noteq> CleanCheckpoint snap" for snap by (auto simp: is_checkpoint_def)
    then show ?thesis using apply_kind_checkpointed [OF st1(1)] st1(2) False no by simp
  qed
qed

section \<open>Generations\<close>

text \<open>The events of one broker incarnation, replayed from its domain.\<close>

definition generation_of :: "Event list \<Rightarrow> AuditReplay \<Rightarrow> bool" where
  "generation_of es st \<longleftrightarrow> es \<noteq> [] \<and> (\<exists>st0. audit_new (au_domain (hd es)) = Inr st0 \<and> audit_replay es st0 = Inr st)"

definition broker_of :: "Event list \<Rightarrow> string" where
  "broker_of es = do_broker (au_domain (hd es))"

definition in_generations :: "history \<Rightarrow> Event list \<Rightarrow> bool" where
  "in_generations h es \<longleftrightarrow>
     (case hs_replay h of
        None \<Rightarrow> es = [] \<and> hs_brokers h = {}
      | Some st \<Rightarrow>
          \<exists>gens cur. es = concat gens @ cur \<and> (\<forall>g \<in> set gens. \<exists>st. generation_of g st \<and> ar_checkpointed st) \<and>
            generation_of cur st \<and> distinct (map broker_of (gens @ [cur])) \<and> hs_brokers h = broker_of ` set (gens @ [cur]))"

lemma in_generationsI:
  assumes "hs_replay h = Some st" and "es = concat gens @ cur" and "\<forall>g \<in> set gens. \<exists>st. generation_of g st \<and> ar_checkpointed st"
    and "generation_of cur st" and "distinct (map broker_of (gens @ [cur]))" and "hs_brokers h = broker_of ` set (gens @ [cur])"
  shows "in_generations h es"
  unfolding in_generations_def assms(1) option.case using assms(2-6) by blast

lemma generation_snoc: "generation_of es st \<Longrightarrow> audit_apply e st = Inr st' \<Longrightarrow> generation_of (es @ [e]) st' \<and> broker_of (es @ [e]) = broker_of es"
  by (auto simp: generation_of_def broker_of_def audit.run_append)

lemma in_generations_step:
  assumes "in_generations h es" and "history_event [] expected s e h = Inr h'"
  shows "in_generations h' (es @ [e])"
  using assms(2)
proof (cases rule: history_eventE)
  case (1 st st')
  have one: "generation_of [e] st' \<and> broker_of [e] = do_broker (au_domain e)" if "audit_new (au_domain e) = Inr st"
    using that 1(2) by (simp add: generation_of_def broker_of_def)
  show ?thesis
  proof (cases "hs_replay h")
    case None
    then have "es = []" "hs_brokers h = {}" and new: "audit_new (au_domain e) = Inr st" "hs_brokers h' = {do_broker (au_domain e)}"
      using 1(8) assms(1) by (auto simp: in_generations_def generation_open_def)
    then show ?thesis using one by (intro in_generationsI [OF 1(3), of _ "[]" "[e]"]) auto
  next
    case (Some st1)
    then obtain gens cur where g: "es = concat gens @ cur" "\<forall>g \<in> set gens. \<exists>st. generation_of g st \<and> ar_checkpointed st"
        "generation_of cur st1" "distinct (map broker_of (gens @ [cur]))" "hs_brokers h = broker_of ` set (gens @ [cur])"
      using assms(1) by (auto simp: in_generations_def)
    from 1(8) show ?thesis
    proof
      assume opened: "generation_open h \<and> hs_replay h = Some st \<and> hs_current h = Some (au_domain e) \<and> hs_brokers h' = hs_brokers h"
      then have "generation_of (cur @ [e]) st'" "broker_of (cur @ [e]) = broker_of cur" using generation_snoc g(3) 1(2) Some by auto
      then show ?thesis
        using g opened by (intro in_generationsI [OF 1(3), of _ gens "cur @ [e]"]) simp_all
    next
      assume fresh: "\<not> generation_open h \<and> audit_new (au_domain e) = Inr st \<and> do_broker (au_domain e) \<notin> hs_brokers h \<and>
        hs_brokers h' = insert (do_broker (au_domain e)) (hs_brokers h)"
      then have "ar_checkpointed st1" using Some by (simp add: generation_open_def)
      then have "\<forall>g \<in> set (gens @ [cur]). \<exists>st. generation_of g st \<and> ar_checkpointed st" using g(2,3) by auto
      moreover have "do_broker (au_domain e) \<notin> broker_of ` set (gens @ [cur])" using fresh g(5) by simp
      ultimately show ?thesis
        using g fresh one by (intro in_generationsI [OF 1(3), of _ "gens @ [cur]" "[e]"]) auto
    qed
  qed
qed

text \<open>What a replayed journal is made of.\<close>

definition history_ok :: "history \<Rightarrow> bool" where
  "history_ok h \<longleftrightarrow> (hs_ended_clean h \<longleftrightarrow> \<not> generation_open h) \<and>
     (hs_replay h \<noteq> None \<longrightarrow> (\<exists>d. hs_current h = Some d \<and> do_broker d = hs_last_broker h \<and> do_broker d \<in> hs_brokers h))"

lemma history_ok_step:
  assumes "history_event [] expected s e h = Inr h'" and "history_ok h"
  shows "history_ok h'"
  using assms(1)
proof (cases rule: history_eventE)
  case (1 st st')
  have "do_broker (au_domain e) \<in> hs_brokers h'"
    using 1(8) assms(2) by (auto simp: history_ok_def)
  then show ?thesis
    using 1(3-5,7) audit_apply_checkpointed(2) [OF 1(2)] by (simp add: history_ok_def generation_open_def)
qed

definition decodes :: "Frame list \<Rightarrow> Event list \<Rightarrow> bool" where
  "decodes fs es \<longleftrightarrow> list_all2 (\<lambda>f e. decode_event f = Inr e) fs es"

lemma history_run_facts:
  "history_run expected fs history_start = Inr h \<Longrightarrow> history_ok h \<and> (\<exists>es. decodes fs es \<and> in_generations h es)"
proof (induction fs arbitrary: h rule: rev_induct)
  case Nil
  then show ?case
    by (auto simp: history_run_def history_start_def history_ok_def generation_open_def in_generations_def decodes_def)
next
  case (snoc f fs)
  then obtain h1 where h1: "history_run expected fs history_start = Inr h1" "history_step expected f h1 = Inr h"
    by (auto simp: hist.run_append hist.run_Cons hist.run_Nil rbind_Inr_iff)
  then obtain e es where e: "decode_event f = Inr e" "history_event [] expected (fr_sequence f) e h1 = Inr h"
      and es: "decodes fs es" "in_generations h1 es" "history_ok h1"
    using snoc.IH by (metis history_stepE)
  have "decodes (fs @ [f]) (es @ [e])" using es(1) e(1) by (simp add: decodes_def list_all2_appendI)
  then show ?case using in_generations_step [OF es(2) e(2)] history_ok_step [OF e(2) es(3)] by blast
qed

lemma generation_settled:
  assumes "generation_of es st" and "ar_checkpointed st" and "length es < 2 ^ 64"
  shows "settled st"
  using assms checkpointed_settled by (auto simp: generation_of_def)

section \<open>Starting\<close>

lemma replay_history_iff:
  "replay_history fs head expected [] = Inr (replay, brokers) \<longleftrightarrow>
     (\<exists>h. history_run expected fs history_start = Inr h \<and> replay = hs_replay h \<and> brokers = hs_brokers h \<and>
        hs_latest_clean h = hd_clean_sequence head \<and> hs_last_broker h = hd_broker head \<and>
        (hd_mode head = Clean \<longleftrightarrow> hs_ended_clean h))"
  unfolding replay_history_def history_loop_run
  by (cases "hd_mode head") (auto simp: rbind_Inr_iff split: if_splits)

lemma start_inv:
  assumes "start os domain j d = Inr a"
  obtains fs h where "verify_inner os j d = Inr fs" "\<not> aj_poisoned j" "holds_chain d (aj_head j) fs" "hd_mode (aj_head j) = Clean"
    "history_run domain fs history_start = Inr h" "hs_latest_clean h = hd_clean_sequence (aj_head j)"
    "hs_last_broker h = hd_broker (aj_head j)" "hs_ended_clean h" "do_broker domain \<notin> hs_brokers h"
    "audit_new domain = Inr (du_replay a)" "a = \<lparr> du_journal = j, du_replay = du_replay a, du_broker = do_broker domain,
       du_domain = domain, du_poisoned = False \<rparr>"
proof -
  obtain fs j1 where v: "journal_verify os j d = (Inr fs, j1)" and mode: "hd_mode (aj_head j) = Clean"
    using assms by (auto simp: start_def start_inner_def split: if_splits prod.splits sum.splits)
  note j1 = journal_verify_inv [OF v]
  obtain replay brokers st where r: "replay_history fs (aj_head j) domain [] = Inr (replay, brokers)" "do_broker domain \<notin> brokers"
      "audit_new domain = Inr st" "a = \<lparr> du_journal = j, du_replay = st, du_broker = do_broker domain, du_domain = domain, du_poisoned = False \<rparr>"
    using assms v mode j1(1) by (auto simp: start_def start_inner_def rbind_Inr_iff split: if_splits)
  have "verify_inner os j d = Inr fs" using v j1(2) by (auto simp: journal_verify_def split: sum.splits)
  then show thesis using that j1 r mode unfolding replay_history_iff by auto
qed

section \<open>The replay in memory and the journal on disk\<close>

lemma commit_frame_success:
  "commit_frame after io frame h' (j, d) = (Inr h, j', d') \<Longrightarrow> h = h' \<and> j' = j\<lparr> aj_head := h' \<rparr>"
  by (auto simp: commit_frame_def dest!: journal_verify_inv(1) split: prod.splits sum.splits)

lemma append_inner_success:
  assumes run: "append_inner before after io broker kind payload clean recovery (j, d) = (Inr h', j', d')"
    and d: "holds_chain d (aj_head j) fs"
  shows "j' = j\<lparr> aj_head := h' \<rparr>" "\<not> aj_poisoned j" "holds_chain d' h' (fs @ [new_frame kind (aj_head j) payload])"
    "extends clean broker kind payload (aj_head j) fs h' (fs @ [new_frame kind (aj_head j) payload])"
proof -
  obtain gs j1 where v: "journal_verify before j d = (Inr gs, j1)"
    using run by (auto simp: append_inner_def Let_def split: if_splits prod.splits sum.splits)
  note j1 = journal_verify_inv [OF v]
  show "\<not> aj_poisoned j" by (fact j1(2))
  show "j' = j\<lparr> aj_head := h' \<rparr>"
    using run v j1(1) by (auto simp: append_inner_def Let_def dest!: commit_frame_success split: if_splits sum.splits option.splits)
  obtain fs' where x: "extends clean broker kind payload (aj_head j) fs h' fs'" "head_consistent h'" "names_chain h' fs'"
      "at_stage d (frame_bytes (new_frame kind (aj_head j) payload)) (head_encode h') d'"
    by (rule append_inner_outcome [OF run d]) auto
  then have "fs' = fs @ [new_frame kind (aj_head j) payload]" by (simp add: extends_def)
  then show "holds_chain d' h' (fs @ [new_frame kind (aj_head j) payload])"
      "extends clean broker kind payload (aj_head j) fs h' (fs @ [new_frame kind (aj_head j) payload])"
    using x at_stage_holds [OF d x] by simp_all
qed

definition agrees :: "history \<Rightarrow> Head \<Rightarrow> bool" where
  "agrees h head \<longleftrightarrow> hs_latest_clean h = hd_clean_sequence head \<and> hs_last_broker h = hd_broker head \<and>
     (hd_mode head = Clean \<longleftrightarrow> hs_ended_clean h)"

text \<open>
  A journal replays to \<open>st\<close> for a domain: either its last generation is this domain's and reached \<open>st\<close>, or
  the domain has no event yet and \<open>st\<close> is its empty replay.
\<close>

definition replays_to :: "Domain \<Rightarrow> Head \<Rightarrow> Frame list \<Rightarrow> AuditReplay \<Rightarrow> bool" where
  "replays_to domain head fs st \<longleftrightarrow>
     (\<exists>h. history_run domain fs history_start = Inr h \<and> agrees h head \<and>
        (hs_replay h = Some st \<and> hs_current h = Some domain \<or>
         \<not> generation_open h \<and> do_broker domain \<notin> hs_brokers h \<and> audit_new domain = Inr st))"

definition mirrored :: "DurableAudit \<Rightarrow> disk \<Rightarrow> bool" where
  "mirrored a d \<longleftrightarrow>
     (\<exists>fs. holds_chain d (aj_head (du_journal a)) fs \<and> replays_to (du_domain a) (aj_head (du_journal a)) fs (du_replay a)) \<and>
     \<not> aj_poisoned (du_journal a) \<and> du_broker a = do_broker (du_domain a) \<and> ar_domain (du_replay a) = du_domain a \<and>
     audit_ok (du_replay a)"

lemma start_mirrored: "start os domain j d = Inr a \<Longrightarrow> mirrored a d \<and> \<not> du_poisoned a \<and> du_domain a = domain \<and> du_journal a = j"
proof (erule start_inv)
  fix fs h
  assume x: "\<not> aj_poisoned j" "holds_chain d (aj_head j) fs" "hd_mode (aj_head j) = Clean" "history_run domain fs history_start = Inr h"
    "hs_latest_clean h = hd_clean_sequence (aj_head j)" "hs_last_broker h = hd_broker (aj_head j)" "hs_ended_clean h"
    "do_broker domain \<notin> hs_brokers h" "audit_new domain = Inr (du_replay a)"
    and a: "a = \<lparr> du_journal = j, du_replay = du_replay a, du_broker = do_broker domain, du_domain = domain, du_poisoned = False \<rparr>"
  have sel: "du_journal a = j" "du_broker a = do_broker domain" "du_domain a = domain" "\<not> du_poisoned a" by (subst a, simp)+
  have "\<not> generation_open h" using history_run_facts [OF x(4)] x(7) by (simp add: history_ok_def)
  then have "replays_to domain (aj_head j) fs (du_replay a)" using x unfolding replays_to_def agrees_def by blast
  then show ?thesis using x sel audit_new_ok [OF x(9)] by (auto simp: mirrored_def)
qed

text \<open>One accepted event, encoded and appended, moves both sides alike.\<close>

lemma replays_to_step:
  assumes r: "replays_to domain head fs st" and st': "audit_apply e st = Inr st'" and dom: "ar_domain st = domain"
    and enc: "encode_event e = Inr (kind, payload)" and ext: "extends clean broker kind payload head fs head' fs'"
    and clean: "clean \<longleftrightarrow> is_checkpoint (au_kind e)" and broker: "broker = do_broker domain" and kind: "kind \<noteq> KRecoveryAudit"
  shows "replays_to domain head' fs' st'"
proof -
  let ?f = "new_frame kind head payload"
  have dec: "decode_event ?f = Inr e" using enc unfolding encode_event_iff decode_event_iff by simp
  have d: "au_domain e = domain" using st' dom by (auto simp: audit_apply_def split: if_splits)
  have "\<not> ar_checkpointed st" using audit_apply_checkpointed(1) [OF st'] .
  obtain h where h: "history_run domain fs history_start = Inr h" "agrees h head"
      "hs_replay h = Some st \<and> hs_current h = Some domain \<or> \<not> generation_open h \<and> do_broker domain \<notin> hs_brokers h \<and> audit_new domain = Inr st"
    using r by (auto simp: replays_to_def)
  then obtain h1 where h1: "enter_generation [] e h = Inr (st, h1)" "hs_latest_clean h1 = hs_latest_clean h" "hs_current h1 = Some domain"
    using d \<open>\<not> ar_checkpointed st\<close> by (auto simp: enter_generation_def generation_open_def Let_def split: option.splits)
  define h2 where "h2 = h1\<lparr> hs_replay := Some st', hs_last_broker := do_broker domain, hs_ended_clean := is_checkpoint (au_kind e),
     hs_latest_clean := (if is_checkpoint (au_kind e) then fr_sequence ?f else hs_latest_clean h1) \<rparr>"
  have "history_event [] domain (fr_sequence ?f) e h = Inr h2"
    using h1(1) st' d by (simp add: history_event_def same_budget_def h2_def)
  then have "history_step domain ?f h = Inr h2" using dec kind by (simp add: history_step_def)
  then have run: "history_run domain fs' history_start = Inr h2"
    using h(1) ext by (simp add: extends_def hist.run_append hist.run_Cons hist.run_Nil)
  have "agrees h2 head'" using ext h(2) h1(2) clean broker by (auto simp: agrees_def h2_def extends_def next_head_def)
  then show ?thesis using run h1(3) by (auto simp: replays_to_def h2_def)
qed

lemma extended_mirrored:
  assumes m: "mirrored a d" and fs: "holds_chain d (aj_head (du_journal a)) fs"
    and st': "audit_apply e (du_replay a) = Inr st'" and enc: "encode_event e = Inr (kind, payload)"
    and x: "holds_chain d' h' fs'" "extends clean (du_broker a) kind payload (aj_head (du_journal a)) fs h' fs'"
    and clean: "clean \<longleftrightarrow> is_checkpoint (au_kind e)" and kind: "kind \<noteq> KRecoveryAudit"
  shows "mirrored (a\<lparr> du_journal := (du_journal a)\<lparr> aj_head := h' \<rparr>, du_replay := st' \<rparr>) d' \<and> hd_broker h' = du_broker a"
proof -
  have r: "replays_to (du_domain a) (aj_head (du_journal a)) fs (du_replay a)" and a: "du_broker a = do_broker (du_domain a)"
      "ar_domain (du_replay a) = du_domain a" "audit_ok (du_replay a)" "\<not> aj_poisoned (du_journal a)"
    using m holds_chain_unique(2) [OF fs] by (auto simp: mirrored_def)
  have "audit_ok st'" using audit_ok_step audit_apply_step [OF st' a(3)] a(3) by blast
  moreover have "ar_domain st' = du_domain a" using audit_apply_domain [OF st' a(3)] a(2) by simp
  moreover have "hd_broker h' = du_broker a" using x(2) by (simp add: extends_def next_head_def)
  ultimately show ?thesis
    using x(1) replays_to_step [OF r st' a(2) enc x(2) clean a(1) kind] a(1,4) unfolding mirrored_def by auto
qed

lemma append_mirrored:
  assumes m: "mirrored a d" and st': "audit_apply e (du_replay a) = Inr st'" and enc: "encode_event e = Inr (kind, payload)"
    and run: "append_inner before after io (du_broker a) kind payload clean False (du_journal a, d) = (Inr h', j', d')"
    and clean: "clean \<longleftrightarrow> is_checkpoint (au_kind e)" and kind: "kind \<noteq> KRecoveryAudit"
  shows "mirrored (a\<lparr> du_journal := j', du_replay := st' \<rparr>) d' \<and> hd_broker (aj_head j') = du_broker a"
proof -
  obtain fs where fs: "holds_chain d (aj_head (du_journal a)) fs" using m by (auto simp: mirrored_def)
  note x = append_inner_success [OF run fs]
  show ?thesis using extended_mirrored [OF m fs st' enc x(3,4) clean kind] x(1) by simp
qed

lemma not_recovery: "encode_event e = Inr (kind, payload) \<Longrightarrow> kind \<noteq> KRecoveryAudit"
  by (cases "au_kind e") (auto simp: encode_event_iff)

lemma record_transition_outcome:
  assumes run: "record_transition kn e (a, d) = (r, a', d')"
  obtains (refused) "isl r" "du_poisoned a'" "du_replay a' = du_replay a" "d' = d"
  | (appended) st' kind payload r2 j' where "audit_apply e (du_replay a) = Inr st'" "encode_event e = Inr (kind, payload)"
      "append_dirty (kn_before kn) (kn_after kn) (kn_io kn) (du_broker a) kind payload (du_journal a, d) = (r2, j', d')"
      "isl r2 \<and> isl r \<and> a' = poison (a\<lparr> du_journal := j' \<rparr>) \<or> \<not> isl r2 \<and> r = Inr () \<and> a' = a\<lparr> du_journal := j', du_replay := st' \<rparr>"
proof (cases "du_poisoned a")
  case True
  then show thesis using run refused by (auto simp: record_transition_def)
next
  case live: False
  show thesis
  proof (cases "audit_apply e (du_replay a)")
    case (Inl msg)
    then show thesis using run live refused by (auto simp: record_transition_def poison_def)
  next
    case (Inr st')
    note st' = Inr
    show thesis
    proof (cases "encode_event e")
      case (Inl msg)
      then show thesis using run live st' refused by (auto simp: record_transition_def poison_def)
    next
      case (Inr kp)
      obtain kind payload where kp: "kp = (kind, payload)" by fastforce
      obtain r2 j' d2 where ap: "append_dirty (kn_before kn) (kn_after kn) (kn_io kn) (du_broker a) kind payload (du_journal a, d) = (r2, j', d2)"
        by (metis prod_cases3)
      have "d2 = d'" "isl r2 \<and> isl r \<and> a' = poison (a\<lparr> du_journal := j' \<rparr>) \<or> \<not> isl r2 \<and> r = Inr () \<and> a' = a\<lparr> du_journal := j', du_replay := st' \<rparr>"
        using run live st' Inr kp ap by (cases r2; auto simp: record_transition_def)+
      then show thesis using appended st' Inr kp ap by metis
    qed
  qed
qed

lemma append_dirty_inner:
  assumes "append_dirty before after io broker kind payload (j, d) = (r, j', d')"
  shows "isl r \<and> j' = j \<and> d' = d \<or> kind \<noteq> KCleanCheckpoint \<and>
     append_inner before after io broker kind payload False False (j, d) = (r, j', d')"
  using assms by (auto simp: append_dirty_def split: if_splits)

lemma dirty_not_checkpoint: "encode_event e = Inr (kind, payload) \<Longrightarrow> kind \<noteq> KCleanCheckpoint \<Longrightarrow> \<not> is_checkpoint (au_kind e)"
  by (auto simp: encode_event_iff is_checkpoint_def split: EventKind.splits)

lemma record_transition_inv:
  assumes m: "mirrored a d" and run: "record_transition kn e (a, d) = (r, a', d')"
  shows "du_poisoned a' \<and> isl r \<or> r = Inr () \<and> mirrored a' d' \<and> du_domain a' = du_domain a \<and>
     audit_apply e (du_replay a) = Inr (du_replay a') \<and> hd_broker (aj_head (du_journal a')) = do_broker (du_domain a)"
  using run
proof (cases rule: record_transition_outcome)
  case (appended st' kind payload r2 j')
  show ?thesis
  proof (cases r2)
    case (Inr h')
    then have ap: "kind \<noteq> KCleanCheckpoint" "append_inner (kn_before kn) (kn_after kn) (kn_io kn) (du_broker a) kind payload False False
        (du_journal a, d) = (Inr h', j', d')"
      using append_dirty_inner [OF appended(3)] by simp_all
    show ?thesis
      using append_mirrored [OF m appended(1,2) ap(2) _ not_recovery [OF appended(2)]] dirty_not_checkpoint [OF appended(2) ap(1)]
        appended(1,4) Inr m by (simp add: mirrored_def)
  qed (use appended(4) in \<open>auto simp: poison_def\<close>)
qed simp

lemma record_succeeded_live:
  "\<not> du_poisoned a \<Longrightarrow> record_transition kn e (a, d) = (r, a', d') \<Longrightarrow> \<not> isl r \<Longrightarrow> \<not> du_poisoned a'"
  by (auto elim!: record_transition_outcome)

lemma checkpoint_inv:
  assumes m: "mirrored a d" and run: "checkpoint_after_drain kn joined (a, d) = (r, a', d')"
  shows "du_poisoned a' \<and> isl r \<or> a' = a \<and> d' = d \<and> isl r \<or>
     \<not> isl r \<and> mirrored a' d' \<and> du_domain a' = du_domain a \<and> ar_checkpointed (du_replay a') \<and>
       hd_broker (aj_head (du_journal a')) = do_broker (du_domain a)"
proof (cases "isl r \<and> (du_poisoned a' \<or> a' = a \<and> d' = d)")
  case False
  define e where "e = \<lparr> au_domain = du_domain a, au_epoch = ar_epoch (du_replay a),
                  au_kind = CleanCheckpoint (observed_drain 0 0 (du_replay a)) \<rparr>"
  have open_: "\<not> du_poisoned a" "jd_broker joined = du_broker a"
    using run False by (auto simp: checkpoint_after_drain_def poison_def split: if_splits)
  obtain st' where st': "audit_apply e (du_replay a) = Inr st'"
    using run False open_ by (cases "audit_apply e (du_replay a)") (auto simp: checkpoint_after_drain_def e_def)
  obtain kind payload where enc: "encode_event e = Inr (kind, payload)"
    using run False open_ st' by (cases "encode_event e") (auto simp: checkpoint_after_drain_def Let_def simp flip: e_def)
  then have kind: "kind = KCleanCheckpoint" by (auto simp: encode_event_iff e_def)
  obtain r2 j' d2 where ap: "append_inner (kn_before kn) (kn_after kn) (kn_io kn) (du_broker a) KCleanCheckpoint payload True False
      (du_journal a, d) = (r2, j', d2)"
    by (metis prod_cases3)
  obtain h' where h': "r2 = Inr h'" "d2 = d'" "\<not> isl r" "a' = a\<lparr> du_journal := j', du_replay := st' \<rparr>"
    using run False open_ st' enc kind ap
    by (cases r2) (auto simp: checkpoint_after_drain_def append_clean_after_drain_def poison_def Let_def simp flip: e_def)
  have ck: "is_checkpoint (au_kind e)" by (simp add: e_def is_checkpoint_def)
  show ?thesis
    using append_mirrored [OF m st' enc [unfolded kind] ap [unfolded h'(1,2)]] ck audit_apply_checkpointed(2) [OF st'] h' m
    by (simp add: mirrored_def)
qed auto

section \<open>Runs of the writer\<close>

datatype durable_op = Record Event | JoinDrain JoinedDrain u64 DrainSnapshot | Checkpoint JoinedDrain

definition durable_step :: "kernel \<times> durable_op \<Rightarrow> DurableAudit \<times> disk \<Rightarrow> DurableAudit \<times> disk" where
  "durable_step ko x =
     (case ko of
        (kn, Record e) \<Rightarrow> snd (durable_record kn e x)
      | (kn, JoinDrain joined epoch snap) \<Rightarrow> snd (record_joined_drain kn joined epoch snap x)
      | (kn, Checkpoint joined) \<Rightarrow> snd (checkpoint_after_drain kn joined x))"

definition durable_run :: "(kernel \<times> durable_op) list \<Rightarrow> DurableAudit \<times> disk \<Rightarrow> DurableAudit \<times> disk" where
  "durable_run kos x = fold durable_step kos x"

lemma record_transition_poisoned: "du_poisoned a \<Longrightarrow> record_transition kn e (a, d) = (Inl ''durable audit poisoned'', a, d)"
  by (simp add: record_transition_def)

text \<open>A step poisons the audit, does nothing, or writes an event of its own broker.\<close>

definition stepped :: "Domain \<Rightarrow> DurableAudit \<times> disk \<Rightarrow> DurableAudit \<times> disk \<Rightarrow> bool" where
  "stepped domain x y \<longleftrightarrow> du_poisoned (fst y) \<or> y = x \<or>
     mirrored (fst y) (snd y) \<and> du_domain (fst y) = domain \<and> hd_broker (aj_head (du_journal (fst y))) = do_broker domain"

lemma durable_step_stepped:
  assumes "du_poisoned a \<or> mirrored a d \<and> du_domain a = domain"
  shows "stepped domain (a, d) (durable_step ko (a, d))"
proof -
  obtain kn op where ko: "ko = (kn, op)" by fastforce
  have recorded: "stepped domain (a, d) (snd (record_transition kn e (a, d)))" for e
  proof (cases "du_poisoned a")
    case False
    obtain r a' d' where run: "record_transition kn e (a, d) = (r, a', d')" by (metis prod_cases3)
    then show ?thesis using record_transition_inv [OF _ run] assms False by (auto simp: stepped_def)
  qed (simp add: record_transition_poisoned stepped_def)
  have checkpoint: "stepped domain (a, d) (snd (checkpoint_after_drain kn joined (a, d)))" for joined
  proof (cases "du_poisoned a")
    case False
    obtain r a' d' where run: "checkpoint_after_drain kn joined (a, d) = (r, a', d')" by (metis prod_cases3)
    then show ?thesis using checkpoint_inv [OF _ run] assms False by (auto simp: stepped_def)
  qed (simp add: checkpoint_after_drain_def stepped_def)
  have "stepped domain (a, d) (poison a, d)" by (simp add: stepped_def poison_def)
  then show ?thesis
    using recorded checkpoint
    by (cases op) (auto simp: ko durable_step_def durable_record_def record_joined_drain_def split: EventKind.splits)
qed

lemma durable_run_stepped:
  assumes "mirrored a0 d0" and "du_domain a0 = domain"
  shows "stepped domain (a0, d0) (durable_run kos (a0, d0))"
  unfolding durable_run_def
proof (induction kos rule: rev_induct)
  case Nil
  then show ?case by (simp add: stepped_def)
next
  case (snoc ko kos)
  obtain a d where x: "fold durable_step kos (a0, d0) = (a, d)" by fastforce
  have "du_poisoned a \<or> mirrored a d \<and> du_domain a = domain" using snoc.IH assms by (auto simp: x stepped_def)
  from durable_step_stepped [OF this, of ko] show ?case using snoc.IH by (auto simp: x stepped_def)
qed

lemma start_run:
  assumes "start os domain j d = Inr a0" and "durable_run kos (a0, d) = (a, d')" and "\<not> du_poisoned a"
  shows "mirrored a d'" "du_domain a = domain" "(a, d') = (a0, d) \<or> hd_broker (aj_head (du_journal a)) = do_broker domain"
  using durable_run_stepped [of a0 d domain kos] start_mirrored [OF assms(1)] assms(2,3) by (auto simp: stepped_def)

text \<open>A broker that starts over frames is not the broker of the last of them.\<close>

lemma start_other_broker:
  assumes "start os domain j d = Inr a" and "hd_sequence (aj_head j) \<noteq> 0"
  shows "hd_broker (aj_head j) \<noteq> do_broker domain"
  using assms(1)
proof (cases rule: start_inv)
  case (1 fs h)
  have "fs \<noteq> []" using 1(3) assms(2) names_chain_length [of "aj_head j" fs] by (auto simp: holds_chain_def unat_eq_0)
  then have "hs_replay h \<noteq> None" using history_run_facts [OF 1(5)] by (auto simp: in_generations_def decodes_def split: option.splits)
  then have "hd_broker (aj_head j) \<in> hs_brokers h" using history_run_facts [OF 1(5)] 1(7) by (auto simp: history_ok_def)
  then show ?thesis using 1(9) by auto
qed

text \<open>What an inspection of a journal that replays to a state returns.\<close>

lemma inspect_inv:
  assumes "inspect os domain k d = Inr st"
  obtains fs h where "holds_chain d (aj_head k) fs" "history_run domain fs history_start = Inr h" "agrees h (aj_head k)"
    "hs_replay h = Some st \<or> hs_replay h = None \<and> audit_new domain = Inr st"
    "hd_sequence (aj_head k) = 0 \<or> hd_broker (aj_head k) = do_broker domain"
proof -
  obtain fs k1 where v: "journal_verify os k d = (Inr fs, k1)" and b: "hd_sequence (aj_head k) = 0 \<or> hd_broker (aj_head k) = do_broker domain"
    using assms by (auto simp: inspect_def split: if_splits prod.splits sum.splits)
  note k1 = journal_verify_inv [OF v]
  obtain replay brokers where r: "replay_history fs (aj_head k) domain [] = Inr (replay, brokers)"
      "(case replay of None \<Rightarrow> audit_new domain | Some st \<Rightarrow> Inr st) = Inr st"
    using assms v b k1(1) by (auto simp: inspect_def rbind_Inr_iff split: if_splits)
  then obtain h where h: "history_run domain fs history_start = Inr h" "agrees h (aj_head k)" "replay = hs_replay h"
    unfolding replay_history_iff agrees_def by auto
  have "hs_replay h = Some st \<or> hs_replay h = None \<and> audit_new domain = Inr st" using r(2) h(3) by (auto split: option.splits)
  then show thesis using that [OF k1(3) h(1,2) _ b] by blast
qed

lemma replays_to_inspect:
  assumes r: "replays_to domain head fs st" and h: "history_run domain fs history_start = Inr h" "agrees h head"
    and st': "hs_replay h = Some st' \<or> hs_replay h = None \<and> audit_new domain = Inr st'" and b: "fs = [] \<or> hd_broker head = do_broker domain"
  shows "st' = st"
proof -
  have start: "fs = [] \<Longrightarrow> h = history_start" using h(1) by (simp add: hist.run_Nil)
  consider "hs_replay h = Some st" | "do_broker domain \<notin> hs_brokers h" "audit_new domain = Inr st"
    using r h(1) by (auto simp: replays_to_def)
  then show ?thesis
  proof cases
    case 2
    show ?thesis
    proof (cases "hs_replay h")
      case (Some s)
      then have "fs \<noteq> []" using start by (auto simp: history_start_def)
      then have "do_broker domain \<in> hs_brokers h"
        using b h(2) history_run_facts [OF h(1)] Some by (auto simp: history_ok_def agrees_def)
      then show ?thesis using 2 by simp
    qed (use st' 2 in auto)
  qed (use st' in auto)
qed

lemma record_reads:
  assumes m: "mirrored a d" and domain: "du_domain a = domain" and run: "record_transition kn e (a, d) = (r, a', d')"
    and insp: "inspect os domain k d' = Inr st"
  shows "isl r \<and> st = du_replay a \<or> audit_apply e (du_replay a) = Inr st \<and> (r = Inr () \<longrightarrow> du_replay a' = st)"
proof -
  let ?h = "aj_head (du_journal a)"
  obtain fs where fs: "holds_chain d ?h fs" "replays_to domain ?h fs (du_replay a)" and a: "du_broker a = do_broker domain" "ar_domain (du_replay a) = domain"
    using m domain by (auto simp: mirrored_def)
  obtain gs h where k: "holds_chain d' (aj_head k) gs" "history_run domain gs history_start = Inr h" "agrees h (aj_head k)"
      "hs_replay h = Some st \<or> hs_replay h = None \<and> audit_new domain = Inr st" "hd_sequence (aj_head k) = 0 \<or> hd_broker (aj_head k) = do_broker domain"
    using insp by (rule inspect_inv)
  have empty: "gs = [] \<or> hd_broker (aj_head k) = do_broker domain"
    using k(1,5) names_chain_length [of "aj_head k" gs] by (auto simp: holds_chain_def)
  have reads: "st = s" if "replays_to domain (aj_head k) gs s" for s using replays_to_inspect [OF that k(2-4) empty] .
  have same: "st = du_replay a" if "aj_head k = ?h" "gs = fs" using reads fs(2) that by simp
  show ?thesis
    using run
  proof (cases rule: record_transition_outcome)
    case refused
    then show ?thesis using same holds_chain_unique [OF k(1)] fs(1) by simp
  next
    case (appended st' kind payload r2 j')
    from append_dirty_inner [OF appended(3)] show ?thesis
    proof
      assume "isl r2 \<and> j' = du_journal a \<and> d' = d"
      then show ?thesis using same holds_chain_unique [OF k(1)] fs(1) appended(4) by simp
    next
      assume ap: "kind \<noteq> KCleanCheckpoint \<and> append_inner (kn_before kn) (kn_after kn) (kn_io kn) (du_broker a) kind payload False False
        (du_journal a, d) = (r2, j', d')"
      have step: "replays_to domain (aj_head k) gs st'" if "extends False (du_broker a) kind payload ?h fs (aj_head k) gs"
        using replays_to_step [OF fs(2) appended(1) a(2) appended(2) that _ a(1) not_recovery [OF appended(2)]]
          dirty_not_checkpoint [OF appended(2)] ap by simp
      show ?thesis
        using append_inner_reads [OF conjunct2 [OF ap] fs(1) k(1)] same reads [OF step] appended(1,4) by auto
    qed
  qed
qed

lemma mirrored_inspect:
  assumes m: "mirrored a d" "du_domain a = domain" and b: "hd_sequence (aj_head (du_journal a)) = 0 \<or> hd_broker (aj_head (du_journal a)) = do_broker domain"
    and os: "files_in_place os (du_journal a)"
  shows "inspect os domain (du_journal a) d = Inr (du_replay a)"
proof -
  let ?j = "du_journal a"
  obtain fs h where fs: "holds_chain d (aj_head ?j) fs" "replays_to domain (aj_head ?j) fs (du_replay a)"
      and h: "history_run domain fs history_start = Inr h" "agrees h (aj_head ?j)" "audit_new domain = Inr (du_replay a) \<or> hs_replay h \<noteq> None"
    using m by (auto simp: mirrored_def replays_to_def)
  have b': "fs = [] \<or> hd_broker (aj_head ?j) = do_broker domain"
    using b fs(1) names_chain_length [of "aj_head ?j" fs] by (auto simp: holds_chain_def)
  have "verify_inner os ?j d = Inr fs" using verify_inner_ok os fs(1) by blast
  then have v: "journal_verify os ?j d = (Inr fs, ?j)" using m(1) by (simp add: journal_verify_def mirrored_def)
  have r: "replay_history fs (aj_head ?j) domain [] = Inr (hs_replay h, hs_brokers h)"
    unfolding replay_history_iff using h by (auto simp: agrees_def)
  show ?thesis
  proof (cases "hs_replay h")
    case None
    then show ?thesis using r v h(3) b by (auto simp: inspect_def)
  next
    case (Some st)
    then have "st = du_replay a" using replays_to_inspect [OF fs(2) h(1,2)] b' by simp
    then show ?thesis using r v Some b by (auto simp: inspect_def)
  qed
qed

section \<open>The durable audit's promises\<close>



text \<open>
  C3. A broker starts only over a settled past. When start succeeds, the journal decodes into complete
  generations, each opened by a fresh replay of its domain and closed by a clean checkpoint at which every
  backing was closed, every view resolved and every work drained, and the brokers of these generations
  and the new one all differ.\<close>

theorem start_after_settled_generations:
  assumes "start os domain j d = Inr a"
  shows "\<exists>fs gens. verify_inner os j d = Inr fs \<and> decodes fs (concat gens) \<and>
     (\<forall>g \<in> set gens. \<exists>st. generation_of g st \<and> ar_checkpointed st \<and> settled st) \<and>
     distinct (map broker_of gens @ [do_broker domain])"
  using assms
proof (cases rule: start_inv)
  case (1 fs h)
  obtain es where es: "decodes fs es" "in_generations h es" and ok: "history_ok h" using history_run_facts [OF 1(5)] by blast
  have "length fs \<le> unat (hd_offset (aj_head j))" using 1(3) chain_bytes_length [of fs] by (simp add: holds_chain_def names_chain_def)
  then have len: "length es < 2 ^ 64"
    using es(1) unat_less_u64 [of "hd_offset (aj_head j)"] by (simp add: decodes_def list_all2_lengthD)
  obtain gens where g: "es = concat gens" "\<forall>g \<in> set gens. \<exists>st. generation_of g st \<and> ar_checkpointed st" "distinct (map broker_of gens)"
      "hs_brokers h = broker_of ` set gens"
  proof (cases "hs_replay h")
    case None
    then show thesis using that [of "[]"] es(2) by (simp add: in_generations_def)
  next
    case (Some st)
    then obtain gens cur where c: "es = concat gens @ cur" "\<forall>g \<in> set gens. \<exists>st. generation_of g st \<and> ar_checkpointed st"
        "generation_of cur st" "distinct (map broker_of (gens @ [cur]))" "hs_brokers h = broker_of ` set (gens @ [cur])"
      using es(2) by (auto simp: in_generations_def)
    have "ar_checkpointed st" using ok 1(8) Some by (simp add: history_ok_def generation_open_def)
    then show thesis using that [of "gens @ [cur]"] c by auto
  qed
  have "length g < 2 ^ 64" if "g \<in> set gens" for g
  proof -
    have "length g \<le> length es" using that unfolding g(1) length_concat by (simp add: member_le_sum_list)
    then show ?thesis using len by simp
  qed
  then have "\<forall>g \<in> set gens. \<exists>st. generation_of g st \<and> ar_checkpointed st \<and> settled st" using g(2) generation_settled by blast
  then show ?thesis using 1(1,9) es(1) g by auto
qed

section \<open>Examples\<close>

text \<open>With a healthy kernel and room in the journal, an accepted event with a text is recorded.\<close>

lemma record_transition_succeeds:
  assumes m: "mirrored a d" and live: "\<not> du_poisoned a" and st': "audit_apply e (du_replay a) = Inr st'"
    and texts: "kind_ok (au_kind e)" "list_all token (event_texts e)" "\<not> is_checkpoint (au_kind e)"
    and kn: "files_in_place (kn_before kn) (du_journal a)" "files_in_place (kn_after kn) (du_journal a)" "io_succeeds (kn_io kn)"
    and b: "valid_broker (du_broker a)" "du_broker a \<noteq> ''none''"
      "hd_mode (aj_head (du_journal a)) = Dirty \<longrightarrow> hd_broker (aj_head (du_journal a)) = du_broker a"
    and room: "length (dk_journal d) + HEADER_LEN + MAX_PAYLOAD + TRAILER_LEN \<le> unat MAX_JOURNAL"
  shows "\<exists>a' d'. record_transition kn e (a, d) = (Inr (), a', d') \<and> \<not> du_poisoned a' \<and> files_in_place os (du_journal a') = files_in_place os (du_journal a)"
proof -
  obtain fs where fs: "holds_chain d (aj_head (du_journal a)) fs" and j: "\<not> aj_poisoned (du_journal a)" using m by (auto simp: mirrored_def)
  obtain kind payload where enc: "encode_event e = Inr (kind, payload)" using encode_event_total [of e] texts(1,2) by blast
  note p = encode_event_size [OF enc]
  have kind: "kind \<notin> {KCleanCheckpoint, KRecoveryAudit, KRecoveryCommit}"
    using enc texts(3) by (cases "au_kind e") (auto simp: encode_event_iff is_checkpoint_def)
  have v: "verify_inner (kn_before kn) (du_journal a) d = Inr fs" using verify_inner_ok kn(1) fs by blast
  obtain h' d' where ap: "append_dirty (kn_before kn) (kn_after kn) (kn_io kn) (du_broker a) kind payload (du_journal a, d) =
      (Inr h', (du_journal a)\<lparr> aj_head := h' \<rparr>, d')"
    using append_dirty_succeeds [OF v j kn(2,3) b kind conjunct1 [OF p] conjunct2 [OF p]] room p by force
  show ?thesis using live st' enc ap by (simp add: record_transition_def files_in_place_def)
qed

definition demo_start :: DurableAudit where
  "demo_start = \<lparr> du_journal = demo_anchor, du_replay = projr (audit_new demo_domain), du_broker = do_broker demo_domain,
     du_domain = demo_domain, du_poisoned = False \<rparr>"

definition demo_kernel :: kernel where
  "demo_kernel = \<lparr> kn_before = demo_files, kn_after = demo_files, kn_io = demo_io \<rparr>"

definition demo_first :: Event where "demo_first = demo_event (BrokerBirth (demo_birth 7))"

lemma demo_accepts: "\<not> isl (audit_new demo_domain) \<and> \<not> isl (audit_apply demo_first (projr (audit_new demo_domain)))"
  by code_simp

lemma demo_texts: "kind_ok (au_kind demo_first) \<and> list_all token (event_texts demo_first)"
    "valid_broker (do_broker demo_domain) \<and> do_broker demo_domain \<noteq> ''none''"
  by code_simp+

lemma demo_moves: "ar_broker_birth (projr (audit_apply demo_first (du_replay demo_start))) \<noteq> ar_broker_birth (du_replay demo_start)"
  by code_simp

lemma demo_starts: "start demo_files demo_domain demo_anchor demo_disk = Inr demo_start"
proof -
  have v: "journal_verify demo_files demo_anchor demo_disk = (Inr [], demo_anchor)" "hd_mode (aj_head demo_anchor) = Clean"
    using demo_verify by (simp_all add: journal_verify_def demo_anchor_def genesis_def)
  have r: "replay_history [] (aj_head demo_anchor) demo_domain [] = Inr (None, {})"
    by (simp add: replay_history_def history_start_def demo_anchor_def genesis_def)
  obtain st where "audit_new demo_domain = Inr st" using demo_accepts by (cases "audit_new demo_domain") auto
  then show ?thesis using v r by (simp add: start_def start_inner_def demo_start_def)
qed

lemma demo_recorded:
  "\<exists>a d. record_transition demo_kernel demo_first (demo_start, demo_disk) = (Inr (), a, d) \<and> \<not> du_poisoned a \<and>
     files_in_place demo_files (du_journal a)"
proof -
  obtain st where st: "audit_apply demo_first (du_replay demo_start) = Inr st"
    using demo_accepts by (cases "audit_apply demo_first (du_replay demo_start)") (auto simp: demo_start_def)
  have m: "mirrored demo_start demo_disk" "\<not> du_poisoned demo_start" using start_mirrored [OF demo_starts] by simp_all
  have sel: "kn_before demo_kernel = demo_files" "kn_after demo_kernel = demo_files" "kn_io demo_kernel = demo_io"
      "du_journal demo_start = demo_anchor" "du_broker demo_start = do_broker demo_domain"
    by (simp_all add: demo_kernel_def demo_start_def)
  have ok: "files_in_place demo_files demo_anchor" "io_succeeds demo_io" "hd_mode (aj_head demo_anchor) = Clean"
    by (simp_all add: files_in_place_def demo_files_def demo_anchor_def io_succeeds_def demo_io_def genesis_def)
  have texts: "\<not> is_checkpoint (au_kind demo_first)" by (simp add: demo_first_def demo_event_def is_checkpoint_def)
  have "length (dk_journal demo_disk) + HEADER_LEN + MAX_PAYLOAD + TRAILER_LEN \<le> unat MAX_JOURNAL"
    by (simp add: demo_disk_def HEADER_LEN_def MAX_PAYLOAD_def TRAILER_LEN_def MAX_JOURNAL_def)
  then show ?thesis
    using record_transition_succeeds [OF m st, of demo_kernel demo_files] sel ok texts demo_texts by auto
qed

lemma demo_recorded_run:
  obtains a d where "record_transition demo_kernel demo_first (demo_start, demo_disk) = (Inr (), a, d)"
    "durable_run [(demo_kernel, Record demo_first)] (demo_start, demo_disk) = (a, d)" "\<not> du_poisoned a"
    "hd_broker (aj_head (du_journal a)) = do_broker demo_domain" "files_in_place demo_files (du_journal a)"
proof -
  obtain a d where run: "record_transition demo_kernel demo_first (demo_start, demo_disk) = (Inr (), a, d)"
      and a: "\<not> du_poisoned a" "files_in_place demo_files (du_journal a)"
    using demo_recorded by blast
  moreover have "durable_run [(demo_kernel, Record demo_first)] (demo_start, demo_disk) = (a, d)"
    using run by (simp add: durable_run_def durable_step_def durable_record_def demo_first_def demo_event_def)
  moreover have "hd_broker (aj_head (du_journal a)) = do_broker demo_domain"
    using record_transition_inv [OF _ run] start_mirrored [OF demo_starts] a(1) by (auto simp: demo_start_def)
  ultimately show thesis using that by blast
qed


theorem start_after_settled_generations_witness:
  "\<exists>fs gens. verify_inner demo_files demo_anchor demo_disk = Inr fs \<and> decodes fs (concat gens) \<and>
     distinct (map broker_of gens @ [do_broker demo_domain])"
  using start_after_settled_generations [OF demo_starts] by blast

text \<open>The synchronisation of the head fails after every byte was written: an error, yet the event is on disk.\<close>

definition failing_kernel :: kernel where
  "failing_kernel = demo_kernel\<lparr> kn_io := failing_sync \<rparr>"

lemma demo_half_recorded:
  "\<exists>a d k st. record_transition failing_kernel demo_first (demo_start, demo_disk) = (Inl ''sync failed'', a, d) \<and>
     inspect demo_files demo_domain k d = Inr st \<and> st \<noteq> du_replay demo_start"
proof -
  obtain st where st: "audit_apply demo_first (du_replay demo_start) = Inr st"
    using demo_accepts by (cases "audit_apply demo_first (du_replay demo_start)") (auto simp: demo_start_def)
  obtain payload where enc: "encode_event demo_first = Inr (KBrokerBirth, payload)"
    using encode_event_total [of demo_first] demo_texts by (simp add: demo_first_def demo_event_def) blast
  note p = encode_event_size [OF enc]
  have sel: "du_journal demo_start = demo_anchor" "du_broker demo_start = do_broker demo_domain" "aj_head demo_anchor = genesis"
    by (simp_all add: demo_start_def demo_anchor_def)
  show ?thesis
  proof (rule append_commits [OF demo_verify, of "do_broker demo_domain" payload demo_files failing_sync KBrokerBirth False])
    let ?f = "new_frame KBrokerBirth genesis payload"
    fix h'
    assume run: "append_inner demo_files demo_files failing_sync (do_broker demo_domain) KBrokerBirth payload False False (demo_anchor, demo_disk) =
        commit_frame demo_files failing_sync (frame_bytes (new_frame KBrokerBirth (aj_head demo_anchor) payload)) h' (demo_anchor, demo_disk)"
      and h': "head_consistent h'" "names_chain h' ([] @ [new_frame KBrokerBirth (aj_head demo_anchor) payload])"
        "extends False (do_broker demo_domain) KBrokerBirth payload (aj_head demo_anchor) [] h'
           ([] @ [new_frame KBrokerBirth (aj_head demo_anchor) payload])"
    have pos: "unat (hd_offset genesis) = length (dk_journal demo_disk)" by (simp add: genesis_def demo_disk_def)
    obtain d' where d': "write_frame failing_sync (length (dk_journal demo_disk)) (frame_bytes ?f) (head_encode h') demo_disk = (Inl ''sync failed'', d')"
        "at_stage demo_disk (frame_bytes ?f) (head_encode h') d'"
      using failing_sync_writes [of "frame_bytes ?f" demo_disk "head_encode h'"] by (auto simp: length_frame_bytes encoded_len_def)
    have chain: "holds_chain d' h' ([] @ [new_frame KBrokerBirth (aj_head demo_anchor) payload])"
      using at_stage_holds [OF verify_inner_inv [OF demo_verify] h'(3,1,2)] d'(2) sel by simp
    have birth: "\<not> is_checkpoint (au_kind demo_first)" by (simp add: demo_first_def demo_event_def is_checkpoint_def)
    define b where "b = demo_start\<lparr> du_journal := demo_anchor\<lparr> aj_head := h' \<rparr>, du_replay := st \<rparr>"
    have "mirrored b d'" "hd_broker h' = do_broker demo_domain"
      using extended_mirrored [OF _ _ st enc, of demo_disk "[]" d' h' _ False] start_mirrored [OF demo_starts]
        verify_inner_inv [OF demo_verify] chain h'(3) sel birth by (simp_all add: b_def)
    moreover have "files_in_place demo_files (du_journal b)" by (simp add: b_def files_in_place_def demo_files_def demo_anchor_def)
    moreover have "du_domain b = demo_domain" "du_replay b = st" "aj_head (du_journal b) = h'" by (simp_all add: b_def demo_start_def)
    ultimately have "inspect demo_files demo_domain (du_journal b) d' = Inr st" using mirrored_inspect [of b d' demo_domain demo_files] by simp
    moreover have "\<exists>a. record_transition failing_kernel demo_first (demo_start, demo_disk) = (Inl ''sync failed'', a, d')"
      using run d'(1) pos sel st enc start_mirrored [OF demo_starts]
      by (simp add: record_transition_def append_dirty_def failing_kernel_def demo_kernel_def commit_frame_def)
    moreover have "st \<noteq> du_replay demo_start" using demo_moves st by auto
    ultimately show ?thesis by blast
  qed (use p demo_texts in \<open>simp_all add: demo_anchor_def genesis_def demo_disk_def HEADER_LEN_def TRAILER_LEN_def MAX_JOURNAL_def MAX_PAYLOAD_def\<close>)
qed


end
