(* ===== verification/DdrCopy.thy ===== *)
theory DdrCopy
  imports Copies
begin

text \<open>
  The copy primitive of the external DDR path (\<^verbatim>\<open>ddr_copy.rs\<close>): access checks, the chunked copy with
  cancellation and partial writes, the neighbour proof, and the probe pattern with its exact check.

  An open file is a record of what the kernel knows of it. Every call the code makes gets a number
  from a running clock, and the kernel's answer to it (a failure, a short write, an interruption, the
  value of the cancel flag) is an arbitrary function of that number. The source is immutable and only
  this code writes to the target, which the caller guarantees by retaining both files.
\<close>

unbundle bit_operations_syntax

definition CHUNK_BYTES :: u64 where "CHUNK_BYTES = 64 * 1024"

definition MAX_NEIGHBOR_PROOF_BYTES :: u64 where "MAX_NEIGHBOR_PROOF_BYTES = 16 * 1024 * 1024"

datatype CopyFailureKind = InvalidRange | InvalidBacking | InvalidAccess | Cancelled | CopyIo | Verification

record CopyFailure =
  cf_kind :: CopyFailureKind
  cf_bytes_copied :: u64
  cf_bytes_verified :: u64
  cf_detail :: string

definition failure :: "CopyFailureKind \<Rightarrow> u64 \<Rightarrow> u64 \<Rightarrow> string \<Rightarrow> CopyFailure" where
  "failure kind copied verified detail =
     \<lparr> cf_kind = kind, cf_bytes_copied = copied, cf_bytes_verified = verified, cf_detail = detail \<rparr>"

section \<open>Files and the kernel\<close>

text \<open>\<^verbatim>\<open>mf_flags\<close> and \<^verbatim>\<open>mf_seals\<close> are what \<^verbatim>\<open>F_GETFL\<close> and \<^verbatim>\<open>F_GET_SEALS\<close> return, negative on failure.\<close>

record memfile =
  mf_dev :: u64
  mf_ino :: u64
  mf_regular :: bool
  mf_flags :: int
  mf_seals :: int
  mf_data :: bytes

definition mf_len :: "memfile \<Rightarrow> u64" where "mf_len f = of_nat (length (mf_data f))"

definition mf_identity :: "memfile \<Rightarrow> u64 \<times> u64 \<times> u64" where
  "mf_identity f = (mf_dev f, mf_ino f, mf_len f)"

datatype write_outcome = Wrote nat | Interrupted | WriteFailed string

text \<open>
  \<open>co_stat\<close> and \<open>co_read\<close> say why a call failed; \<open>co_write_all\<close> after how many bytes and why. A write
  takes at most the bytes it is offered.
\<close>

record copy_os =
  co_stat :: "nat \<Rightarrow> string option"
  co_read :: "nat \<Rightarrow> string option"
  co_write :: "nat \<Rightarrow> write_outcome"
  co_write_all :: "nat \<Rightarrow> (nat \<times> string) option"
  co_cancelled :: "nat \<Rightarrow> bool"
  co_reserves :: "nat \<Rightarrow> bool"
  co_elapsed :: "nat \<Rightarrow> rat"

definition stat :: "copy_os \<Rightarrow> nat \<Rightarrow> memfile \<Rightarrow> memfile result" where
  "stat os t f = (case co_stat os t of Some e \<Rightarrow> Inl e | None \<Rightarrow> Inr f)"

definition read_exact_at :: "copy_os \<Rightarrow> nat \<Rightarrow> memfile \<Rightarrow> u64 \<Rightarrow> nat \<Rightarrow> bytes result" where
  "read_exact_at os t f offset n =
     (case co_read os t of
        Some e \<Rightarrow> Inl e
      | None \<Rightarrow>
          if n = 0 \<or> unat offset + n \<le> length (mf_data f) then Inr (window (mf_data f) (unat offset) n)
          else Inl ''failed to fill whole buffer'')"

definition put_at :: "u64 \<Rightarrow> bytes \<Rightarrow> memfile \<Rightarrow> memfile" where
  "put_at offset bs f = f\<lparr> mf_data := splice (mf_data f) (unat offset) bs \<rparr>"

definition write_all_at :: "copy_os \<Rightarrow> nat \<Rightarrow> u64 \<Rightarrow> bytes \<Rightarrow> memfile \<Rightarrow> unit result \<times> memfile" where
  "write_all_at os t offset bs f =
     (case co_write_all os t of
        None \<Rightarrow> (Inr (), put_at offset bs f)
      | Some (k, e) \<Rightarrow> (Inl e, put_at offset (take k bs) f))"

text \<open>An operating system error while copying becomes a failure with the counts so far.\<close>

definition map_err :: "('a \<Rightarrow> 'b) \<Rightarrow> 'a + 'c \<Rightarrow> 'b + 'c" where
  "map_err f r = (case r of Inl e \<Rightarrow> Inl (f e) | Inr x \<Rightarrow> Inr x)"

section \<open>The probe pattern\<close>

definition probe_byte :: "u64 \<Rightarrow> u8" where
  "probe_byte position = ucast (position mod 251) XOR 0x5a"

definition probe_pattern :: "u64 \<Rightarrow> nat \<Rightarrow> bytes" where
  "probe_pattern offset n = map (\<lambda>i. probe_byte (offset + of_nat i)) [0..<n]"

function fill_loop :: "copy_os \<Rightarrow> u64 \<Rightarrow> u64 \<Rightarrow> nat \<Rightarrow> memfile \<Rightarrow> unit result \<times> memfile" where
  "fill_loop os len offset t target =
     (if offset < len
      then let n = min (len - offset) CHUNK_BYTES in
        case write_all_at os t offset (probe_pattern offset (unat n)) target of
          (Inl e, target) \<Rightarrow> (Inl e, target)
        | (Inr _, target) \<Rightarrow> fill_loop os len (offset + n) (t + 1) target
      else (Inr (), target))"
  by pat_completeness auto
termination
  by (relation "measure (\<lambda>(os, len, offset, t, target). unat len - unat offset)")
    (auto intro: chunk_step(6) simp: CHUNK_BYTES_def)

declare fill_loop.simps [simp del]

definition fill_probe :: "copy_os \<Rightarrow> nat \<Rightarrow> memfile \<Rightarrow> unit result \<times> memfile" where
  "fill_probe os t target =
     (case stat os t target of
        Inl e \<Rightarrow> (Inl e, target)
      | Inr m \<Rightarrow> fill_loop os (mf_len m) 0 (t + 1) target)"

text \<open>The part of the target at an offset ends at the window's start, at its end, or at the file's end.\<close>

definition probe_boundary :: "u64 \<Rightarrow> u64 \<Rightarrow> u64 \<Rightarrow> u64 \<Rightarrow> u64" where
  "probe_boundary target_offset stop len offset =
     (if offset < target_offset then target_offset else if offset < stop then stop else len)"

lemma probe_boundary_above: "offset < len \<Longrightarrow> offset < probe_boundary toff stop len offset"
  by (simp add: probe_boundary_def)

function probe_loop ::
  "copy_os \<Rightarrow> memfile \<Rightarrow> memfile \<Rightarrow> u64 \<Rightarrow> u64 \<Rightarrow> u64 \<Rightarrow> u64 \<Rightarrow> u64 \<Rightarrow> nat \<Rightarrow> unit result" where
  "probe_loop os source target source_offset target_offset stop len offset t =
     (if offset < len
      then let n = min (probe_boundary target_offset stop len offset - offset) CHUNK_BYTES in
        rbind (read_exact_at os t target offset (unat n)) (\<lambda>actual.
        rbind (if target_offset \<le> offset \<and> offset < stop
               then read_exact_at os (t + 1) source (source_offset + offset - target_offset) (unat n)
               else Inr (probe_pattern offset (unat n))) (\<lambda>expected.
          if actual \<noteq> expected then Inl ''probe payload or full neighbours differ''
          else probe_loop os source target source_offset target_offset stop len (offset + n) (t + 2)))
      else Inr ())"
  by pat_completeness auto
termination
proof (relation "measure (\<lambda>(os, source, target, soff, toff, stop, len, offset, t). unat len - unat offset)", goal_cases)
  case (2 os source target soff toff stop len offset t n)
  then have "offset < offset + n"
    using chunk_step(2) [OF probe_boundary_above, of offset len CHUNK_BYTES] by (simp add: CHUNK_BYTES_def)
  with 2 show ?case by (simp add: word_less_nat_alt)
qed simp

declare probe_loop.simps [simp del]

definition verify_probe ::
  "copy_os \<Rightarrow> nat \<Rightarrow> memfile \<Rightarrow> memfile \<Rightarrow> u64 \<Rightarrow> u64 \<Rightarrow> u64 \<Rightarrow> u64 result" where
  "verify_probe os t source target source_offset target_offset bytes =
     rbind (stat os t target) (\<lambda>m.
       case checked_add target_offset bytes of
         None \<Rightarrow> Inl ''invalid probe range''
       | Some stop \<Rightarrow>
           if mf_len m < stop then Inl ''invalid probe range''
           else rbind (probe_loop os source target source_offset target_offset stop (mf_len m) 0 (t + 1))
             (\<lambda>_. Inr (mf_len m)))"

section \<open>The neighbour proof\<close>

record NeighborProof =
  np_source_offset :: u64
  np_target_offset :: u64
  np_bytes :: u64
  np_target_size :: u64
  np_left_len :: nat
  np_original_neighbors :: bytes

definition proof_capture ::
  "copy_os \<Rightarrow> nat \<Rightarrow> u64 \<Rightarrow> memfile \<Rightarrow> u64 \<Rightarrow> u64 \<Rightarrow> u64 \<Rightarrow> CopyFailure + NeighborProof" where
  "proof_capture os t source_offset target target_offset bytes target_len =
     (let n = target_len - bytes; left_len = unat target_offset; io = map_err (failure CopyIo 0 0) in
      if MAX_NEIGHBOR_PROOF_BYTES < n
      then Inl (failure InvalidRange 0 0 ''target neighbour proof exceeds bounded scratch limit'')
      else if \<not> co_reserves os t then Inl (failure CopyIo 0 0 ''neighbour proof allocation failed'')
      else rbind (io (read_exact_at os (t + 1) target 0 left_len)) (\<lambda>left.
        rbind (io (read_exact_at os (t + 2) target (target_offset + bytes) (unat n - left_len))) (\<lambda>right.
          Inr \<lparr> np_source_offset = source_offset, np_target_offset = target_offset, np_bytes = bytes,
                np_target_size = target_len, np_left_len = left_len,
                np_original_neighbors = left @ right \<rparr>)))"

text \<open>
  One side of the neighbours, compared chunk by chunk (\<^verbatim>\<open>chunks(CHUNK_BYTES)\<close>); \<open>start\<close> is the offset of
  the current chunk. The result carries the clock, since the copy goes on after the proof.
\<close>

function neighbor_loop :: "copy_os \<Rightarrow> memfile \<Rightarrow> u64 \<Rightarrow> bytes \<Rightarrow> nat \<Rightarrow> unit result \<times> nat" where
  "neighbor_loop os target start expected t =
     (if expected = [] then (Inr (), t)
      else let chunk = take (unat CHUNK_BYTES) expected in
        case read_exact_at os t target start (length chunk) of
          Inl e \<Rightarrow> (Inl e, t + 1)
        | Inr actual \<Rightarrow>
            if actual \<noteq> chunk then (Inl ''target neighbours changed'', t + 1)
            else neighbor_loop os target (start + CHUNK_BYTES) (drop (unat CHUNK_BYTES) expected) (t + 1))"
  by pat_completeness auto
termination
  by (relation "measure (\<lambda>(os, target, start, expected, t). length expected)") (auto simp: CHUNK_BYTES_def)

declare neighbor_loop.simps [simp del]

function payload_loop ::
  "copy_os \<Rightarrow> memfile \<Rightarrow> memfile \<Rightarrow> u64 \<Rightarrow> u64 \<Rightarrow> u64 \<Rightarrow> u64 \<Rightarrow> nat \<Rightarrow> unit result \<times> nat" where
  "payload_loop os source target source_offset target_offset bytes position t =
     (if position < bytes
      then let n = min (bytes - position) CHUNK_BYTES in
        case read_exact_at os t source (source_offset + position) (unat n) of
          Inl e \<Rightarrow> (Inl e, t + 1)
        | Inr expected \<Rightarrow>
            (case read_exact_at os (t + 1) target (target_offset + position) (unat n) of
               Inl e \<Rightarrow> (Inl e, t + 2)
             | Inr actual \<Rightarrow>
                 if expected \<noteq> actual then (Inl ''target differs from source'', t + 2)
                 else payload_loop os source target source_offset target_offset bytes (position + n) (t + 2))
      else (Inr (), t))"
  by pat_completeness auto
termination
  by (relation "measure (\<lambda>(os, source, target, soff, toff, bytes, position, t). unat bytes - unat position)")
    (auto intro: chunk_step(6) simp: CHUNK_BYTES_def)

declare payload_loop.simps [simp del]

definition proof_verify :: "copy_os \<Rightarrow> nat \<Rightarrow> NeighborProof \<Rightarrow> memfile \<Rightarrow> memfile \<Rightarrow> unit result \<times> nat" where
  "proof_verify os t p source target =
     (case stat os t target of
        Inl e \<Rightarrow> (Inl e, t + 1)
      | Inr m \<Rightarrow>
          if mf_len m \<noteq> np_target_size p then (Inl ''target size changed during proof'', t + 1)
          else case neighbor_loop os target 0 (take (np_left_len p) (np_original_neighbors p)) (t + 1) of
            (Inl e, t) \<Rightarrow> (Inl e, t)
          | (Inr _, t) \<Rightarrow>
              (case neighbor_loop os target (np_target_offset p + np_bytes p)
                      (drop (np_left_len p) (np_original_neighbors p)) t of
                 (Inl e, t) \<Rightarrow> (Inl e, t)
               | (Inr _, t) \<Rightarrow>
                   payload_loop os source target (np_source_offset p) (np_target_offset p) (np_bytes p) 0 t))"

section \<open>Access checks\<close>

text \<open>The open flags and seals of Linux.\<close>

definition O_ACCMODE :: int where "O_ACCMODE = 3"
definition O_RDONLY :: int where "O_RDONLY = 0"
definition O_RDWR :: int where "O_RDWR = 2"
definition O_APPEND :: int where "O_APPEND = 0x400"
definition F_SEAL_SEAL :: int where "F_SEAL_SEAL = 1"
definition F_SEAL_SHRINK :: int where "F_SEAL_SHRINK = 2"
definition F_SEAL_GROW :: int where "F_SEAL_GROW = 4"
definition F_SEAL_WRITE :: int where "F_SEAL_WRITE = 8"

lemmas linux_flags = O_ACCMODE_def O_RDONLY_def O_RDWR_def O_APPEND_def
  F_SEAL_SEAL_def F_SEAL_SHRINK_def F_SEAL_GROW_def F_SEAL_WRITE_def

definition access_denied :: "memfile \<Rightarrow> memfile \<Rightarrow> bool" where
  "access_denied source target \<longleftrightarrow>
     mf_flags source < 0 \<or> mf_flags target < 0 \<or>
     mf_flags source AND O_ACCMODE \<noteq> O_RDONLY \<or> mf_flags target AND O_ACCMODE \<noteq> O_RDWR \<or>
     mf_flags target AND O_APPEND \<noteq> 0"

definition seals_unfit :: "memfile \<Rightarrow> memfile \<Rightarrow> bool" where
  "seals_unfit source target \<longleftrightarrow>
     (let size_seals = F_SEAL_GROW OR F_SEAL_SHRINK in
      mf_seals source < 0 \<or> mf_seals target < 0 \<or>
      mf_seals source AND size_seals \<noteq> size_seals \<or> mf_seals target AND size_seals \<noteq> size_seals \<or>
      mf_seals target AND (F_SEAL_WRITE OR F_SEAL_SEAL) \<noteq> 0)"

definition validate_file_access :: "copy_os \<Rightarrow> nat \<Rightarrow> memfile \<Rightarrow> memfile \<Rightarrow> CopyFailure + unit" where
  "validate_file_access os t source target =
     rbind (map_err (failure InvalidBacking 0 0) (stat os t source)) (\<lambda>src.
     rbind (map_err (failure InvalidBacking 0 0) (stat os (t + 1) target)) (\<lambda>dst.
       if \<not> mf_regular src \<or> \<not> mf_regular dst \<or> (mf_dev src, mf_ino src) = (mf_dev dst, mf_ino dst)
       then Inl (failure InvalidBacking 0 0 ''source and target must be different regular backings'')
       else if access_denied source target
       then Inl (failure InvalidAccess 0 0 ''source must be read-only and target must be non-append read/write'')
       else if seals_unfit source target
       then Inl (failure InvalidBacking 0 0
         ''size-sealed memfds required; target must remain writable and sealable'')
       else Inr ()))"

section \<open>The copy loop\<close>

record copy_run =
  cr_clock :: nat
  cr_target :: memfile
  cr_progress :: "u64 list"

text \<open>
  The inner loop writes one chunk, in as many calls as the kernel wants; an interrupted call is
  repeated. Neither loop is bounded by the code, so both return an option: \<open>None\<close> is a copy that
  never returns.
\<close>

definition wrote :: "u64 \<Rightarrow> bytes \<Rightarrow> copy_run \<Rightarrow> copy_run" where
  "wrote offset bs s = s\<lparr> cr_clock := cr_clock s + 2, cr_target := put_at offset bs (cr_target s) \<rparr>"

partial_function (option) write_chunk ::
  "copy_os \<Rightarrow> bytes \<Rightarrow> u64 \<Rightarrow> u64 \<Rightarrow> nat \<Rightarrow> u64 \<Rightarrow> copy_run \<Rightarrow> ((CopyFailure + u64) \<times> copy_run) option" where
  [code]: "write_chunk os input target_offset verified written copied s =
     (let t = cr_clock s in
      if written < length input
      then if co_cancelled os t
        then Some (Inl (failure Cancelled copied verified ''cancel requested''), s\<lparr> cr_clock := t + 1 \<rparr>)
        else (case co_write os (t + 1) of
            WriteFailed e \<Rightarrow> Some (Inl (failure CopyIo copied verified e), s\<lparr> cr_clock := t + 2 \<rparr>)
          | Interrupted \<Rightarrow> write_chunk os input target_offset verified written copied (s\<lparr> cr_clock := t + 2 \<rparr>)
          | Wrote k \<Rightarrow>
              let n = min k (length input - written) in
              if n = 0
              then Some (Inl (failure CopyIo copied verified ''target write returned zero''), s\<lparr> cr_clock := t + 2 \<rparr>)
              else write_chunk os input target_offset verified (written + n) (copied + of_nat n)
                (wrote (target_offset + copied) (window input written n) s))
      else Some (Inr copied, s))"

text \<open>The readback of a chunk in the explicit validation, giving the new count of verified bytes.\<close>

definition read_back ::
  "copy_os \<Rightarrow> bytes \<Rightarrow> u64 \<Rightarrow> u64 \<Rightarrow> u64 \<Rightarrow> u64 \<Rightarrow> copy_run \<Rightarrow> (CopyFailure + u64) \<times> copy_run" where
  "read_back os input target_offset chunk copied verified s =
     (let t = cr_clock s; s = s\<lparr> cr_clock := t + 1 \<rparr> in
      case read_exact_at os t (cr_target s) (target_offset + copied - chunk) (unat chunk) of
        Inl e \<Rightarrow> (Inl (failure CopyIo copied verified e), s)
      | Inr readback \<Rightarrow>
          if readback \<noteq> input
          then (Inl (failure Verification copied verified ''target readback differs from source''), s)
          else (Inr (verified + chunk), s))"

partial_function (option) copy_chunks ::
  "copy_os \<Rightarrow> bool \<Rightarrow> memfile \<Rightarrow> u64 \<Rightarrow> u64 \<Rightarrow> u64 \<Rightarrow> u64 \<Rightarrow> u64 \<Rightarrow> copy_run \<Rightarrow>
     ((CopyFailure + u64 \<times> u64) \<times> copy_run) option" where
  [code]: "copy_chunks os explicit_proof source source_offset target_offset nbytes copied verified s =
     (let t = cr_clock s in
      if copied < nbytes
      then if co_cancelled os t
        then Some (Inl (failure Cancelled copied verified ''cancel requested''), s\<lparr> cr_clock := t + 1 \<rparr>)
        else let chunk = min (nbytes - copied) CHUNK_BYTES in
          (case read_exact_at os (t + 1) source (source_offset + copied) (unat chunk) of
             Inl e \<Rightarrow> Some (Inl (failure CopyIo copied verified e), s\<lparr> cr_clock := t + 2 \<rparr>)
           | Inr input \<Rightarrow>
               Option.bind (write_chunk os input target_offset verified 0 copied (s\<lparr> cr_clock := t + 2 \<rparr>)) (\<lambda>(r, s).
                 case r of
                   Inl f \<Rightarrow> Some (Inl f, s)
                 | Inr copied \<Rightarrow>
                     (case if explicit_proof then read_back os input target_offset chunk copied verified s
                           else (Inr verified, s) of
                        (Inl f, s) \<Rightarrow> Some (Inl f, s)
                      | (Inr verified, s) \<Rightarrow>
                          copy_chunks os explicit_proof source source_offset target_offset nbytes copied verified
                            (s\<lparr> cr_progress := cr_progress s @ [copied] \<rparr>))))
      else Some (Inr (copied, verified), s))"

record CopyCompletion =
  cp_bytes_copied :: u64
  cp_bytes_verified :: u64
  cp_execute_seconds :: rat
  cp_proof :: "NeighborProof option"
  cp_source_identity :: "u64 \<times> u64 \<times> u64"
  cp_target_identity :: "u64 \<times> u64 \<times> u64"

text \<open>After the loop: the cancel flag, the proof, the cancel flag again, and the identities.\<close>

definition finish_copy ::
  "copy_os \<Rightarrow> memfile \<Rightarrow> NeighborProof option \<Rightarrow> u64 \<Rightarrow> u64 \<Rightarrow> copy_run \<Rightarrow> CopyFailure + CopyCompletion" where
  "finish_copy os source proof0 copied verified s =
     (let t = cr_clock s; target = cr_target s; fail = (\<lambda>kind. failure kind copied verified) in
      if co_cancelled os t then Inl (fail Cancelled ''cancel requested'')
      else
        let (r, t) = (case proof0 of None \<Rightarrow> (Inr (), t + 1) | Some p \<Rightarrow> proof_verify os (t + 1) p source target) in
        rbind (map_err (fail Verification) r) (\<lambda>_.
          if co_cancelled os t then Inl (fail Cancelled ''cancel requested during proof'')
          else rbind (map_err (fail CopyIo) (stat os (t + 1) source)) (\<lambda>src.
            rbind (map_err (fail CopyIo) (stat os (t + 2) target)) (\<lambda>dst.
              Inr \<lparr> cp_bytes_copied = copied, cp_bytes_verified = verified, cp_execute_seconds = co_elapsed os t,
                    cp_proof = proof0, cp_source_identity = mf_identity src,
                    cp_target_identity = mf_identity dst \<rparr>))))"

definition outside :: "u64 \<Rightarrow> u64 \<Rightarrow> u64 \<Rightarrow> bool" where
  "outside offset nbytes len \<longleftrightarrow> (case checked_add offset nbytes of None \<Rightarrow> True | Some stop \<Rightarrow> len < stop)"

text \<open>The checks before the first byte moves, and the optional neighbour proof.\<close>

definition prepare_copy ::
  "copy_os \<Rightarrow> nat \<Rightarrow> memfile \<Rightarrow> memfile \<Rightarrow> u64 \<Rightarrow> u64 \<Rightarrow> u64 \<Rightarrow> bool \<Rightarrow> CopyFailure + NeighborProof option" where
  "prepare_copy os t source target source_offset target_offset nbytes explicit_proof =
     rbind (validate_file_access os t source target) (\<lambda>_.
     rbind (map_err (failure InvalidBacking 0 0) (stat os (t + 2) source)) (\<lambda>src.
     rbind (map_err (failure InvalidBacking 0 0) (stat os (t + 3) target)) (\<lambda>dst.
       if nbytes = 0 \<or> outside source_offset nbytes (mf_len src) \<or> outside target_offset nbytes (mf_len dst)
       then Inl (failure InvalidRange 0 0 ''copy range exceeds source or target backing'')
       else if explicit_proof
       then rbind (proof_capture os (t + 4) source_offset target target_offset nbytes (mf_len dst)) (\<lambda>p. Inr (Some p))
       else Inr None)))"

definition copy_internal ::
  "copy_os \<Rightarrow> memfile \<Rightarrow> u64 \<Rightarrow> u64 \<Rightarrow> u64 \<Rightarrow> bool \<Rightarrow> copy_run \<Rightarrow> ((CopyFailure + CopyCompletion) \<times> copy_run) option" where
  "copy_internal os source source_offset target_offset nbytes explicit_proof s =
     (case prepare_copy os (cr_clock s) source (cr_target s) source_offset target_offset nbytes explicit_proof of
        Inl f \<Rightarrow> Some (Inl f, s)
      | Inr proof0 \<Rightarrow>
          Option.bind (copy_chunks os explicit_proof source source_offset target_offset nbytes 0 0
              (s\<lparr> cr_clock := cr_clock s + 7 \<rparr>)) (\<lambda>(r, s).
            case r of
              Inl f \<Rightarrow> Some (Inl f, s)
            | Inr (copied, verified) \<Rightarrow> Some (finish_copy os source proof0 copied verified s, s)))"

definition copy_range ::
  "copy_os \<Rightarrow> memfile \<Rightarrow> u64 \<Rightarrow> u64 \<Rightarrow> u64 \<Rightarrow> copy_run \<Rightarrow> ((CopyFailure + CopyCompletion) \<times> copy_run) option" where
  "copy_range os source source_offset target_offset nbytes s =
     copy_internal os source source_offset target_offset nbytes False s"

definition copy_and_verify ::
  "copy_os \<Rightarrow> memfile \<Rightarrow> u64 \<Rightarrow> u64 \<Rightarrow> u64 \<Rightarrow> copy_run \<Rightarrow> ((CopyFailure + CopyCompletion) \<times> copy_run) option" where
  "copy_and_verify os source source_offset target_offset nbytes s =
     copy_internal os source source_offset target_offset nbytes True s"

text \<open>The recheck once the target is sealed.\<close>

definition verify_final :: "copy_os \<Rightarrow> nat \<Rightarrow> CopyCompletion \<Rightarrow> memfile \<Rightarrow> memfile \<Rightarrow> unit result" where
  "verify_final os t c source target =
     rbind (stat os t source) (\<lambda>src.
       if mf_identity src \<noteq> cp_source_identity c then Inl ''copy backing identity or size changed''
       else rbind (stat os (t + 1) target) (\<lambda>dst.
         if mf_identity dst \<noteq> cp_target_identity c then Inl ''copy backing identity or size changed''
         else case cp_proof c of None \<Rightarrow> Inr () | Some p \<Rightarrow> fst (proof_verify os (t + 2) p source target)))"

end
