(* ===== verification/DdrCopyLaws.thy ===== *)
theory DdrCopyLaws
  imports DdrCopy CopyLaws
begin

text \<open>
  The DDR copy moves exactly its window, whatever the kernel does, and reports exactly how much it
  moved when it fails; it returns unless writes are interrupted forever. The neighbour proof and the
  probe check accept a target exactly if every byte of it is what it should be.
\<close>

section \<open>Kernel calls\<close>

lemma read_exact_at_Inr:
  "read_exact_at os t f off n = Inr bs \<longleftrightarrow>
     co_read os t = None \<and> (n = 0 \<or> unat off + n \<le> length (mf_data f)) \<and> bs = window (mf_data f) (unat off) n"
  by (auto simp: read_exact_at_def split: option.splits)

lemma stat_Inr: "stat os t f = Inr m \<longleftrightarrow> co_stat os t = None \<and> m = f"
  by (auto simp: stat_def split: option.splits)

lemma map_err_Inr [simp]: "map_err g r = Inr x \<longleftrightarrow> r = Inr x"
  by (cases r) (simp_all add: map_err_def)

lemma map_err_simps [simp]: "map_err g (Inl e) = Inl (g e)" "map_err g (Inr x) = Inr x"
  by (simp_all add: map_err_def)

lemma failure_sel [simp]:
  "cf_kind (failure k c v d) = k" "cf_bytes_copied (failure k c v d) = c" "cf_bytes_verified (failure k c v d) = v"
  by (simp_all add: failure_def)

lemma CHUNK_BYTES_pos [simp]: "0 < CHUNK_BYTES"
  by (simp add: CHUNK_BYTES_def)

text \<open>A file whose length fits the length field of the kernel, and files that differ in contents only.\<close>

definition fits :: "memfile \<Rightarrow> bool" where
  "fits f \<longleftrightarrow> length (mf_data f) < 2 ^ 64"

lemma unat_mf_len: "fits f \<Longrightarrow> unat (mf_len f) = length (mf_data f)"
  by (simp add: fits_def mf_len_def unat_of_nat)

definition same_file :: "memfile \<Rightarrow> memfile \<Rightarrow> bool" where
  "same_file f g \<longleftrightarrow> g = f\<lparr> mf_data := mf_data g \<rparr>"

lemma same_file_refl [simp]: "same_file f f"
  by (simp add: same_file_def)

lemma same_file_put: "same_file f g \<Longrightarrow> same_file f (put_at off bs g)"
  unfolding same_file_def put_at_def by (cases f, cases g) simp

lemma same_file_eq: "same_file f g \<Longrightarrow> mf_data g = mf_data h \<Longrightarrow> same_file f h \<Longrightarrow> g = h"
  by (simp add: same_file_def)

section \<open>The copy loop\<close>

text \<open>
  A copy of \<open>n\<close> bytes that has moved its first \<open>k\<close>: the target is the old one with that prefix of the
  window in place.
\<close>

definition has_moved :: "memfile \<Rightarrow> memfile \<Rightarrow> u64 \<Rightarrow> u64 \<Rightarrow> nat \<Rightarrow> memfile \<Rightarrow> bool" where
  "has_moved source old soff toff k target \<longleftrightarrow>
     same_file old target \<and> copying (mf_data old) (unat toff) (mf_data source) (unat soff) {..<k} (mf_data target)"

definition range_fits :: "memfile \<Rightarrow> memfile \<Rightarrow> u64 \<Rightarrow> u64 \<Rightarrow> nat \<Rightarrow> bool" where
  "range_fits source old soff toff n \<longleftrightarrow>
     unat soff + n \<le> length (mf_data source) \<and> unat toff + n \<le> length (mf_data old) \<and>
     unat soff + n < 2 ^ 64 \<and> unat toff + n < 2 ^ 64"

lemma has_moved_exactly:
  assumes "has_moved source old soff toff k target" and "range_fits source old soff toff n" and "k \<le> n"
  shows "target = put_at toff (window (mf_data source) (unat soff) k) old"
proof -
  have "mf_data target = splice (mf_data old) (unat toff) (window (mf_data source) (unat soff) k)"
    using assms by (intro copying_all) (auto simp: has_moved_def range_fits_def)
  then show ?thesis using assms(1) unfolding has_moved_def same_file_def put_at_def by simp
qed

lemma has_moved_nothing: "has_moved source f soff toff 0 f"
  by (simp add: has_moved_def copying_nothing)

lemma range_fits_offset:
  assumes "range_fits source old soff toff n" and "unat c \<le> n"
  shows "unat (soff + c) = unat soff + unat c" and "unat (toff + c) = unat toff + unat c"
  using assms unfolding range_fits_def by (auto intro!: unat_add_u64 simp del: len_of_numeral_defs)

lemma window_window: "b + m \<le> n \<Longrightarrow> window (window xs a n) b m = window xs (a + b) m"
  by (simp add: window_def drop_take min_def add.commute)

text \<open>What a chunk of the window being written leaves behind.\<close>

definition chunk_outcome ::
  "memfile \<Rightarrow> memfile \<Rightarrow> u64 \<Rightarrow> u64 \<Rightarrow> nat \<Rightarrow> nat \<Rightarrow> u64 \<Rightarrow> (CopyFailure + u64) \<times> copy_run \<Rightarrow> bool" where
  "chunk_outcome source old soff toff base reach verified out \<longleftrightarrow>
     (case out of
        (Inr c, s) \<Rightarrow> unat c = reach \<and> has_moved source old soff toff reach (cr_target s)
      | (Inl f, s) \<Rightarrow> base \<le> unat (cf_bytes_copied f) \<and> unat (cf_bytes_copied f) \<le> reach \<and> cf_bytes_verified f = verified \<and>
          has_moved source old soff toff (unat (cf_bytes_copied f)) (cr_target s))"

lemma has_moved_more:
  assumes "has_moved source old soff toff (base + written) target" and "range_fits source old soff toff (base + chunk)"
    and "input = window (mf_data source) (unat soff + base) chunk" and "written + n \<le> chunk"
    and "unat c = base + written"
  shows "has_moved source old soff toff (base + written + n) (put_at (toff + c) (window input written n) target)"
proof -
  have at: "unat (toff + c) = unat toff + (base + written)"
    using range_fits_offset(2) [OF assms(2), of c] assms(4,5) by simp
  have "window input written n = window (mf_data source) (unat soff + (base + written)) n"
    using assms(3,4) by (simp add: window_window add.assoc)
  then have "copying (mf_data old) (unat toff) (mf_data source) (unat soff) {..<base + written + n}
      (splice (mf_data target) (unat (toff + c)) (window input written n))"
    using assms(1,2,4) at by (intro copying_prefix [where k = "base + written" and n = n])
      (auto simp: has_moved_def range_fits_def)
  then show ?thesis using assms(1) by (simp add: has_moved_def same_file_put) (simp add: put_at_def)
qed

lemmas write_chunk_induct = write_chunk.raw_induct [rotated, consumes 1, case_names step]
lemmas copy_chunks_induct = copy_chunks.raw_induct [rotated, consumes 1, case_names step]

lemma write_chunk_outcome:
  assumes "write_chunk os input toff verified written c s = Some out"
    and "range_fits source old soff toff (base + length input)"
    and "input = window (mf_data source) (unat soff + base) (length input)"
    and "written \<le> length input" and "unat c = base + written"
    and "has_moved source old soff toff (base + written) (cr_target s)"
  shows "chunk_outcome source old soff toff base (base + length input) verified out"
  using assms
proof (induction rule: write_chunk_induct)
  case (step wc os input toff verified written c s out)
  note IH = step.IH and eq = step.hyps and range = step.prems(1) and input = step.prems(2) and le = step.prems(3)
    and c = step.prems(4) and m = step.prems(5)
  have stop: "chunk_outcome source old soff toff base (base + length input) verified
      (Inl (failure k c verified d), s\<lparr> cr_clock := t \<rparr>)" for k d t
    using le c m by (simp add: chunk_outcome_def)
  show ?case
  proof (cases "written < length input \<and> \<not> co_cancelled os (cr_clock s)")
    case False
    then show ?thesis using eq le c m stop by (auto simp: Let_def chunk_outcome_def split: if_splits)
  next
    case go: True
    show ?thesis
    proof (cases "co_write os (cr_clock s + 1)")
      case (Wrote k)
      define n where "n = min k (length input - written)"
      show ?thesis
      proof (cases "n = 0")
        case True
        then show ?thesis using eq go Wrote stop by (auto simp: Let_def n_def)
      next
        case False
        have n: "written + n \<le> length input" using go by (auto simp: n_def)
        have less: "base + written + n < 2 ^ 64"
          using range n by (simp add: range_fits_def)
        have c': "unat (c + of_nat n) = base + (written + n)"
          using add_of_nat_u64 [of c n] c less by simp
        have m': "has_moved source old soff toff (base + (written + n))
            (cr_target (wrote (toff + c) (window input written n) s))"
          using has_moved_more [OF m range input n c] by (simp add: wrote_def add.assoc)
        have "wc os input toff verified (written + n) (c + of_nat n) (wrote (toff + c) (window input written n) s) = Some out"
          using eq go Wrote False by (auto simp: Let_def n_def [symmetric])
        then show ?thesis using IH range input n c' m' by blast
      qed
    next
      case Interrupted
      then have "wc os input toff verified written c (s\<lparr> cr_clock := cr_clock s + 2 \<rparr>) = Some out"
        using eq go by (auto simp: Let_def)
      then show ?thesis by (rule IH [OF _ range input le c]) (use m in simp)
    next
      case (WriteFailed e)
      then show ?thesis using eq go stop by (auto simp: Let_def)
    qed
  qed
qed

text \<open>
  The outcome of the whole loop: the verified count is the copied one under explicit validation, up to
  the chunk in progress.
\<close>

definition loop_outcome ::
  "memfile \<Rightarrow> memfile \<Rightarrow> u64 \<Rightarrow> u64 \<Rightarrow> u64 \<Rightarrow> bool \<Rightarrow> (CopyFailure + u64 \<times> u64) \<times> copy_run \<Rightarrow> bool" where
  "loop_outcome source old soff toff n pf out \<longleftrightarrow>
     (case out of
        (Inr (c, v), s) \<Rightarrow> c = n \<and> v = (if pf then n else 0) \<and> has_moved source old soff toff (unat n) (cr_target s)
      | (Inl f, s) \<Rightarrow> cf_bytes_copied f \<le> n \<and> cf_bytes_verified f \<le> cf_bytes_copied f \<and>
          has_moved source old soff toff (unat (cf_bytes_copied f)) (cr_target s))"

lemma read_back_cases:
  "read_back os input toff chunk c v s = (Inr (v + chunk), s\<lparr> cr_clock := cr_clock s + 1 \<rparr>) \<or>
     (\<exists>k d. read_back os input toff chunk c v s = (Inl (failure k c v d), s\<lparr> cr_clock := cr_clock s + 1 \<rparr>))"
  by (auto simp: read_back_def Let_def split: sum.split)

lemma copy_chunks_outcome:
  assumes "copy_chunks os pf source soff toff n c v s = Some out"
    and "range_fits source old soff toff (unat n)" and "c \<le> n" and "v = (if pf then c else 0)"
    and "has_moved source old soff toff (unat c) (cr_target s)"
  shows "loop_outcome source old soff toff n pf out"
  using assms
proof (induction rule: copy_chunks_induct)
  case (step cc os pf source soff toff n c v s out)
  note IH = step.IH and eq = step.hyps and range = step.prems(1) and c = step.prems(2) and v = step.prems(3)
    and m = step.prems(4)
  have stop: "loop_outcome source old soff toff n pf (Inl (failure k c v d), s\<lparr> cr_clock := t \<rparr>)" for k d t
    using c v m by (simp add: loop_outcome_def)
  show ?case
  proof (cases "c < n \<and> \<not> co_cancelled os (cr_clock s)")
    case False
    then show ?thesis using eq c v m stop by (auto simp: Let_def loop_outcome_def split: if_splits)
  next
    case go: True
    define chunk where "chunk = min (n - c) CHUNK_BYTES"
    note st = chunk_step [OF conjunct1 [OF go] CHUNK_BYTES_pos, folded chunk_def]
    let ?s = "s\<lparr> cr_clock := cr_clock s + 2 \<rparr>"
    have sum: "unat (c + chunk) = unat c + unat chunk" "unat c + unat chunk \<le> unat n"
      using st(1,3,5) by (simp_all add: word_le_nat_alt)
    show ?thesis
    proof (cases "read_exact_at os (cr_clock s + 1) source (soff + c) (unat chunk)")
      case (Inl e)
      then show ?thesis using eq go stop by (auto simp: Let_def chunk_def)
    next
      case (Inr input)
      have pos: "unat (soff + c) = unat soff + unat c"
        using range_fits_offset(1) [OF range] c by (simp add: word_le_nat_alt)
      have input: "input = window (mf_data source) (unat soff + unat c) (length input)" "length input = unat chunk"
        using Inr st(4) range sum pos by (auto simp: read_exact_at_Inr range_fits_def)
      obtain r s' where w: "write_chunk os input toff v 0 c ?s = Some (r, s')"
        using eq go Inr by (cases "write_chunk os input toff v 0 c ?s") (auto simp: Let_def chunk_def)
      have out: "chunk_outcome source old soff toff (unat c) (unat c + unat chunk) v (r, s')"
        using write_chunk_outcome [OF w, where base = "unat c" and source = source and old = old and soff = soff]
          input range sum m by (simp add: range_fits_def)
      show ?thesis
      proof (cases r)
        case (Inl f)
        then have "out = (Inl f, s')" using eq go Inr w \<open>read_exact_at _ _ _ _ _ = _\<close> by (auto simp: Let_def chunk_def)
        then show ?thesis using out Inl c v sum
          by (auto simp: loop_outcome_def chunk_outcome_def word_le_nat_alt)
      next
        case (Inr c')
        have c': "c' = c + chunk" "has_moved source old soff toff (unat (c + chunk)) (cr_target s')"
          using out Inr sum by (auto simp: chunk_outcome_def intro: word_unat_eq_iff [THEN iffD2])
        obtain v' s'' where v': "(if pf then read_back os input toff chunk c' v s' else (Inr v, s')) = (v', s'')"
          by fastforce
        have tg: "cr_target s'' = cr_target s'"
          using v' read_back_cases [of os input toff chunk c' v s'] by (auto split: if_splits)
        show ?thesis
        proof (cases v')
          case (Inl f)
          then have "cf_bytes_copied f = c'" "cf_bytes_verified f = v" "out = (Inl f, s'')"
            using v' read_back_cases [of os input toff chunk c' v s'] eq go w Inr
              \<open>read_exact_at _ _ _ _ _ = _\<close> by (auto simp: Let_def chunk_def [symmetric] split: if_splits)
          then show ?thesis using c' v st(2,3) tg by (auto simp: loop_outcome_def)
        next
          case (Inr x)
          have x: "x = (if pf then c' else 0)"
            using v' Inr read_back_cases [of os input toff chunk c' v s'] c'(1) v by (auto split: if_splits)
          have "cc os pf source soff toff n c' x (s''\<lparr> cr_progress := cr_progress s'' @ [c'] \<rparr>) = Some out"
            using eq go w \<open>r = Inr c'\<close> v' Inr \<open>read_exact_at _ _ _ _ _ = _\<close>
            by (auto simp: Let_def chunk_def [symmetric])
          then show ?thesis by (rule IH [OF _ range]) (use c' st(3) x tg in simp_all)
        qed
      qed
    qed
  qed
qed

section \<open>Every copy returns\<close>

text \<open>
  The loops repeat an interrupted write without a bound. They return if no run of retried writes is
  interrupted forever; a retry comes two calls later, after another look at the cancel flag.
\<close>

definition signals_pause :: "copy_os \<Rightarrow> bool" where
  "signals_pause os \<longleftrightarrow> (\<forall>t. \<exists>k. co_write os (t + 2 * k) \<noteq> Interrupted)"

lemma write_chunk_returns:
  assumes "signals_pause os"
  shows "\<exists>out. write_chunk os input toff v written c s = Some out"
proof (induction "length input - written" arbitrary: written c s rule: less_induct)
  case less
  obtain k where "co_write os (cr_clock s + 1 + 2 * k) \<noteq> Interrupted"
    using assms unfolding signals_pause_def by blast
  then show ?case
  proof (induction k arbitrary: s)
    case 0
    show ?case
    proof (cases "written < length input")
      case True
      have "\<exists>out. write_chunk os input toff v (written + n) c' s' = Some out" if "n \<noteq> 0" for n c' s'
        using that True by (intro less.hyps) simp
      then show ?thesis using 0 by (subst write_chunk.simps) (auto simp: Let_def split: write_outcome.split)
    qed (subst write_chunk.simps, simp add: Let_def)
  next
    case (Suc k)
    have again: "\<exists>out. write_chunk os input toff v written c (s\<lparr> cr_clock := cr_clock s + 2 \<rparr>) = Some out"
      using Suc.prems by (intro Suc.IH) (simp add: algebra_simps)
    have more: "\<exists>out. write_chunk os input toff v (written + n) c' s' = Some out"
      if "n \<noteq> 0" "written < length input" for n c' s'
      using that by (intro less.hyps) simp
    show ?case using again more by (subst write_chunk.simps) (auto simp: Let_def split: write_outcome.split)
  qed
qed

lemma write_chunk_count:
  assumes "write_chunk os input toff v written c s = Some (Inr c', s')" and "written \<le> length input"
  shows "c' = c + of_nat (length input - written)"
proof -
  have "case out of (Inl f, _) \<Rightarrow> True | (Inr c', _) \<Rightarrow> c' = c + of_nat (length input - written)"
    if "write_chunk os input toff v written c s = Some out" "written \<le> length input" for out
    using that
  proof (induction rule: write_chunk_induct)
    case (step wc os input toff v written c s out)
    have more: "case out of (Inl f, _) \<Rightarrow> True | (Inr c', _) \<Rightarrow> c' = c + of_nat (length input - written)"
      if "wc os input toff v (written + n) (c + of_nat n) s' = Some out" "written + n \<le> length input" for n s'
    proof -
      have "length input - written = n + (length input - (written + n))" using that(2) by simp
      then show ?thesis using step.IH [OF that] by (auto simp del: of_nat_add simp: of_nat_add [symmetric] add.assoc split: prod.splits sum.splits)
    qed
    show ?case
    proof (cases "written < length input \<and> \<not> co_cancelled os (cr_clock s)")
      case False
      then show ?thesis using step.hyps step.prems by (auto simp: Let_def split: if_splits)
    next
      case go: True
      show ?thesis
      proof (cases "co_write os (cr_clock s + 1)")
        case (Wrote k)
        define n where "n = min k (length input - written)"
        have "written + n \<le> length input" using go by (auto simp: n_def)
        then show ?thesis using step.hyps go Wrote more [of n]
          by (cases "n = 0") (auto simp: Let_def n_def [symmetric])
      next
        case Interrupted
        then show ?thesis using step.hyps step.prems step.IH go by (auto simp: Let_def)
      next
        case (WriteFailed e)
        then show ?thesis using step.hyps go by (auto simp: Let_def)
      qed
    qed
  qed
  from this [OF assms] show ?thesis by simp
qed

lemma copy_chunks_returns:
  assumes "signals_pause os"
  shows "\<exists>out. copy_chunks os pf source soff toff n c v s = Some out"
proof (induction "unat n - unat c" arbitrary: c v s rule: less_induct)
  case less
  show ?case
  proof (cases "c < n \<and> \<not> co_cancelled os (cr_clock s)")
    case False
    then show ?thesis by (subst copy_chunks.simps) (auto simp: Let_def)
  next
    case go: True
    define chunk where "chunk = min (n - c) CHUNK_BYTES"
    note st = chunk_step [OF conjunct1 [OF go] CHUNK_BYTES_pos, folded chunk_def]
    have more: "\<exists>out. copy_chunks os pf source soff toff n (c + chunk) v' s' = Some out" for v' s'
      by (rule less.hyps [OF st(6)])
    show ?thesis
    proof (cases "read_exact_at os (cr_clock s + 1) source (soff + c) (unat chunk)")
      case (Inl e)
      then show ?thesis using go by (subst copy_chunks.simps) (auto simp: Let_def chunk_def)
    next
      case (Inr input)
      then have len: "length input = unat chunk" by (auto simp: read_exact_at_Inr)
      obtain r s' where w: "write_chunk os input toff v 0 c (s\<lparr> cr_clock := cr_clock s + 2 \<rparr>) = Some (r, s')"
        using write_chunk_returns [OF assms] by fastforce
      show ?thesis
      proof (cases r)
        case (Inl f)
        then show ?thesis using go Inr w \<open>read_exact_at _ _ _ _ _ = _\<close>
          by (subst copy_chunks.simps) (auto simp: Let_def chunk_def [symmetric])
      next
        case (Inr c')
        have c': "c' = c + chunk" using write_chunk_count [OF w [unfolded Inr]] len by simp
        obtain v' s'' where v': "(if pf then read_back os input toff chunk c' v s' else (Inr v, s')) = (v', s'')"
          by fastforce
        then show ?thesis using go w Inr c' more \<open>read_exact_at _ _ _ _ _ = _\<close>
          by (cases v'; subst copy_chunks.simps) (auto simp: Let_def chunk_def [symmetric])
      qed
    qed
  qed
qed

lemma copy_internal_returns:
  "signals_pause os \<Longrightarrow> \<exists>out. copy_internal os source soff toff n pf s = Some out"
proof -
  assume "signals_pause os"
  then obtain r s' where
    "copy_chunks os pf source soff toff n 0 0 (s\<lparr> cr_clock := cr_clock s + 7 \<rparr>) = Some (r, s')"
    using copy_chunks_returns by fastforce
  then show ?thesis by (auto simp: copy_internal_def split: sum.splits)
qed

section \<open>The whole copy\<close>

lemma outside_iff:
  "fits f \<Longrightarrow> outside off n (mf_len f) \<longleftrightarrow> length (mf_data f) < unat off + unat n"
  using unat_mf_len [of f]
  by (auto simp: outside_def checked_add_def fits_def word_less_nat_alt unat_word_ariths split: option.splits)

lemma prepare_copy_Inr:
  assumes "prepare_copy os t source target soff toff n pf = Inr p" and "fits source" and "fits target"
  shows "range_fits source target soff toff (unat n)" and "n \<noteq> 0"
    and "p \<noteq> None \<longleftrightarrow> pf"
    and "p = Some q \<Longrightarrow> proof_capture os (t + 4) soff target toff n (mf_len target) = Inr q"
  using assms
  by (auto simp: prepare_copy_def rbind_Inr_iff stat_Inr outside_iff range_fits_def fits_def split: if_splits)

lemma prepare_copy_Inl:
  assumes "prepare_copy os t source target soff toff n pf = Inl f"
  shows "cf_bytes_copied f = 0" and "cf_bytes_verified f = 0"
proof -
  have "cf_bytes_copied f = 0 \<and> cf_bytes_verified f = 0"
    using assms
    by (auto simp: prepare_copy_def validate_file_access_def proof_capture_def rbind_def map_err_def Let_def
        split: sum.splits if_splits)
  then show "cf_bytes_copied f = 0" "cf_bytes_verified f = 0" by simp_all
qed

lemma finish_copy_Inl:
  "finish_copy os source p c v s = Inl f \<Longrightarrow> cf_bytes_copied f = c \<and> cf_bytes_verified f = v"
  by (auto simp: finish_copy_def rbind_def map_err_def Let_def split: sum.splits if_splits prod.splits)

lemma finish_copy_Inr:
  assumes "finish_copy os source p c v s = Inr done0"
  shows "cp_bytes_copied done0 = c" and "cp_bytes_verified done0 = v" and "cp_proof done0 = p"
    and "\<not> co_cancelled os (cr_clock s)"
    and "cp_source_identity done0 = mf_identity source" and "cp_target_identity done0 = mf_identity (cr_target s)"
    and "p = Some q \<Longrightarrow> fst (proof_verify os (cr_clock s + 1) q source (cr_target s)) = Inr ()"
  using assms
  by (auto simp: finish_copy_def rbind_Inr_iff stat_Inr Let_def split: if_splits prod.splits)

lemma put_nothing [simp]: "put_at off [] f = f"
  by (simp add: put_at_def)

lemma window_none [simp]: "window xs off 0 = []"
  by (simp add: window_def)

text \<open>
  The outcome of a copy: on success the window and nothing else has moved and the cancel flag was
  still clear after the last write; on failure the report names the prefix that has moved.
\<close>

definition copy_result ::
  "memfile \<Rightarrow> memfile \<Rightarrow> u64 \<Rightarrow> u64 \<Rightarrow> u64 \<Rightarrow> bool \<Rightarrow> (CopyFailure + CopyCompletion) \<Rightarrow> memfile \<Rightarrow> bool" where
  "copy_result source target soff toff n pf r target' \<longleftrightarrow>
     (case r of
        Inr c \<Rightarrow> n \<noteq> 0 \<and> unat soff + unat n \<le> length (mf_data source) \<and> unat toff + unat n \<le> length (mf_data target) \<and>
          cp_bytes_copied c = n \<and> cp_bytes_verified c = (if pf then n else 0) \<and>
          target' = put_at toff (window (mf_data source) (unat soff) (unat n)) target
      | Inl f \<Rightarrow> cf_bytes_copied f \<le> n \<and> cf_bytes_verified f \<le> cf_bytes_copied f \<and>
          target' = put_at toff (window (mf_data source) (unat soff) (unat (cf_bytes_copied f))) target)"

lemma copy_internal_inv:
  assumes "copy_internal os source soff toff n pf s = Some (r, s')" and "fits source" and "fits (cr_target s)"
  shows "copy_result source (cr_target s) soff toff n pf r (cr_target s')"
    and "r = Inr c \<Longrightarrow> \<exists>p. prepare_copy os (cr_clock s) source (cr_target s) soff toff n pf = Inr p \<and>
           finish_copy os source p n (if pf then n else 0) s' = Inr c"
proof -
  let ?p = "prepare_copy os (cr_clock s) source (cr_target s) soff toff n pf"
  have "copy_result source (cr_target s) soff toff n pf r (cr_target s') \<and>
      (\<forall>c. r = Inr c \<longrightarrow> (\<exists>p. ?p = Inr p \<and> finish_copy os source p n (if pf then n else 0) s' = Inr c))"
  proof (cases ?p)
    case (Inl f)
    with assms(1) prepare_copy_Inl [OF Inl] show ?thesis by (auto simp: copy_internal_def copy_result_def)
  next
    case (Inr p)
    note range = prepare_copy_Inr(1) [OF Inr assms(2,3)] and n = prepare_copy_Inr(2) [OF Inr assms(2,3)]
    obtain r0 s0 where loop: "copy_chunks os pf source soff toff n 0 0 (s\<lparr> cr_clock := cr_clock s + 7 \<rparr>) = Some (r0, s0)"
      using assms(1) Inr by (auto simp: copy_internal_def bind_eq_Some_conv)
    have res: "(r, s') = (case r0 of Inl f \<Rightarrow> (Inl f, s0) | Inr (c, v) \<Rightarrow> (finish_copy os source p c v s0, s0))"
      using assms(1) Inr loop by (auto simp: copy_internal_def split: sum.splits prod.splits)
    have out: "loop_outcome source (cr_target s) soff toff n pf (r0, s0)"
      using copy_chunks_outcome [OF loop range] by (simp add: has_moved_nothing)
    show ?thesis
    proof (cases r0)
      case (Inl f)
      then show ?thesis using out res has_moved_exactly [OF _ range]
        by (auto simp: loop_outcome_def copy_result_def word_le_nat_alt)
    next
      case (Inr cv)
      then have cv: "cv = (n, if pf then n else 0)" "r = finish_copy os source p n (if pf then n else 0) s0" "s' = s0"
        and to: "cr_target s0 = put_at toff (window (mf_data source) (unat soff) (unat n)) (cr_target s)"
        using out res has_moved_exactly [OF _ range] by (auto simp: loop_outcome_def split: prod.splits)
      show ?thesis
      proof (cases r)
        case (Inl f)
        then show ?thesis using cv to finish_copy_Inl [of os source p n _ s0 f]
          by (auto simp: copy_result_def)
      next
        case (Inr c)
        then show ?thesis using cv to finish_copy_Inr(1,2) [of os source p n _ s0 c] range n \<open>?p = Inr p\<close>
          by (auto simp: copy_result_def range_fits_def)
      qed
    qed
  qed
  then show "copy_result source (cr_target s) soff toff n pf r (cr_target s')"
    "r = Inr c \<Longrightarrow> \<exists>p. ?p = Inr p \<and> finish_copy os source p n (if pf then n else 0) s' = Inr c" by blast+
qed

section \<open>The probe\<close>

definition readable :: "copy_os \<Rightarrow> bool" where
  "readable os \<longleftrightarrow> (\<forall>t. co_read os t = None) \<and> (\<forall>t. co_stat os t = None)"

lemma length_probe_pattern [simp]: "length (probe_pattern off n) = n"
  by (simp add: probe_pattern_def)

lemma nth_probe_pattern [simp]: "i < n \<Longrightarrow> probe_pattern off n ! i = probe_byte (off + of_nat i)"
  by (simp add: probe_pattern_def)

text \<open>Two windows agree if their bytes do.\<close>

lemma window_eq_iff:
  assumes "a + n \<le> length xs" and "length ys = n"
  shows "window xs a n = ys \<longleftrightarrow> (\<forall>p. a \<le> p \<and> p < a + n \<longrightarrow> xs ! p = ys ! (p - a))"
proof -
  have "window xs a n = ys \<longleftrightarrow> (\<forall>i < n. xs ! (a + i) = ys ! i)"
    using assms by (simp add: list_eq_iff_nth_eq)
  also have "\<dots> \<longleftrightarrow> (\<forall>p. a \<le> p \<and> p < a + n \<longrightarrow> xs ! p = ys ! (p - a))"
    by (metis add_diff_cancel_left' le_add1 le_add_diff_inverse nat_add_left_cancel_less)
  finally show ?thesis .
qed

definition probe_want :: "memfile \<Rightarrow> nat \<Rightarrow> nat \<Rightarrow> nat \<Rightarrow> nat \<Rightarrow> u8" where
  "probe_want source soff toff stop p =
     (if toff \<le> p \<and> p < stop then mf_data source ! (soff + (p - toff)) else probe_byte (of_nat p))"

lemma probe_expected:
  assumes "unat off + n < 2 ^ 64" and "unat off + n \<le> toff \<or> stop \<le> unat off"
  shows "\<forall>p. unat off \<le> p \<and> p < unat off + n \<longrightarrow> probe_pattern off n ! (p - unat off) = probe_want source soff toff stop p"
  using assms by (auto simp: probe_want_def)

text \<open>The window of the source still to be compared from an offset on lies inside the source.\<close>

definition source_covers :: "memfile \<Rightarrow> u64 \<Rightarrow> u64 \<Rightarrow> u64 \<Rightarrow> u64 \<Rightarrow> bool" where
  "source_covers source soff toff stop off \<longleftrightarrow>
     stop \<le> off \<or> toff = stop \<or> unat soff + (unat stop - unat toff) \<le> length (mf_data source)"

lemma fill_loop_inv:
  assumes "fill_loop os len off t f = (Inr (), g)" and "fits f" and "len = mf_len f" and "off \<le> len"
    and "\<forall>p < unat off. mf_data f ! p = probe_byte (of_nat p)"
  shows "same_file f g \<and> mf_data g = probe_pattern 0 (length (mf_data f))"
  using assms
proof (induction "unat len - unat off" arbitrary: off t f rule: less_induct)
  case less
  have flen: "unat len = length (mf_data f)" using less.prems(2,3) by (simp add: unat_mf_len)
  show ?case
  proof (cases "off < len")
    case True
    define n where "n = min (len - off) CHUNK_BYTES"
    note st = chunk_step [OF True CHUNK_BYTES_pos, folded n_def]
    have sum: "unat off + unat n \<le> length (mf_data f)" "unat (off + n) = unat off + unat n"
      using st(1,3,5) flen by (simp_all add: word_le_nat_alt)
    let ?f = "put_at off (probe_pattern off (unat n)) f"
    have next_f: "fill_loop os len (off + n) (t + 1) ?f = (Inr (), g)"
      using less.prems(1) True
      by (subst (asm) fill_loop.simps)
        (auto simp: Let_def n_def [symmetric] write_all_at_def split: option.splits prod.splits)
    have len': "length (mf_data ?f) = length (mf_data f)" using sum by (simp add: put_at_def)
    have "\<forall>p < unat (off + n). mf_data ?f ! p = probe_byte (of_nat p)"
      using sum less.prems(5) by (auto simp: put_at_def nth_splice)
    then have "same_file ?f g \<and> mf_data g = probe_pattern 0 (length (mf_data ?f))"
      using less.prems(2,3) st(3,6) next_f len'
      by (intro less.hyps [of "off + n" "t + 1"]) (auto simp: fits_def mf_len_def)
    then show ?thesis using len' by (auto simp: same_file_def put_at_def)
  next
    case False
    then have "g = f" "unat off = length (mf_data f)" using less.prems(1,4) flen
      by (subst (asm) fill_loop.simps, auto)
    then show ?thesis using less.prems(5) by (auto intro: nth_equalityI)
  qed
qed

lemma probe_chunk:
  fixes off toff stop len :: u64
  assumes "off < len" and "toff \<le> stop" and "stop \<le> len"
    and "n = min (probe_boundary toff stop len off - off) CHUNK_BYTES"
  shows "0 < unat n" and "unat (off + n) = unat off + unat n" and "off + n \<le> len" and "off < off + n"
    and "toff \<le> off \<and> off < stop \<Longrightarrow> off + n \<le> stop"
    and "\<not> (toff \<le> off \<and> off < stop) \<Longrightarrow> off + n \<le> toff \<or> stop \<le> off"
proof -
  note st = chunk_step [OF probe_boundary_above [OF assms(1)] CHUNK_BYTES_pos, of toff stop, folded assms(4)]
  have le: "probe_boundary toff stop len off \<le> len" using assms(2,3) by (auto simp: probe_boundary_def)
  show "0 < unat n" "off < off + n" using st(2,4) by (simp_all add: word_less_nat_alt)
  show "unat (off + n) = unat off + unat n" using st(1,5) by simp
  show "off + n \<le> len" using st(3) le by order
  show "off + n \<le> stop" if "toff \<le> off \<and> off < stop"
    using st(3) that by (auto simp: probe_boundary_def split: if_splits)
  show "off + n \<le> toff \<or> stop \<le> off" if "\<not> (toff \<le> off \<and> off < stop)"
    using st(3) that by (auto simp: probe_boundary_def split: if_splits)
qed

text \<open>What a chunk of the target is compared with, when the read succeeds.\<close>

definition probe_image :: "copy_os \<Rightarrow> nat \<Rightarrow> memfile \<Rightarrow> u64 \<Rightarrow> u64 \<Rightarrow> u64 \<Rightarrow> u64 \<Rightarrow> nat \<Rightarrow> bytes result" where
  "probe_image os t source soff toff stop off n =
     (if toff \<le> off \<and> off < stop then read_exact_at os t source (soff + off - toff) n else Inr (probe_pattern off n))"

lemma probe_loop_step:
  assumes "off < len" and "n = min (probe_boundary toff stop len off - off) CHUNK_BYTES"
  shows "probe_loop os source target soff toff stop len off t = Inr () \<longleftrightarrow>
     (\<exists>bs. read_exact_at os t target off (unat n) = Inr bs \<and>
        probe_image os (t + 1) source soff toff stop off (unat n) = Inr bs \<and>
        probe_loop os source target soff toff stop len (off + n) (t + 2) = Inr ())"
  by (subst probe_loop.simps) (use assms in \<open>auto simp: Let_def rbind_Inr_iff probe_image_def split: if_splits\<close>)

lemma probe_position:
  fixes soff toff off :: u64
  assumes "toff \<le> off" and "off \<le> toff \<or> unat soff + (unat off - unat toff) \<le> length (mf_data source)" and "fits source"
  shows "unat (soff + off - toff) = unat soff + (unat off - unat toff)"
proof (cases "off = toff")
  case False
  have d: "unat (off - toff) = unat off - unat toff" using assms(1) by (rule unat_sub_u64)
  have "unat soff + unat (off - toff) < 2 ^ 64" unfolding d using False assms by (auto simp: fits_def)
  then have "unat (soff + (off - toff)) = unat soff + (unat off - unat toff)"
    unfolding d [symmetric] by (rule unat_add_u64)
  then show ?thesis by (simp add: add_diff_eq)
qed simp

lemma probe_image_want:
  assumes "off < len" and "toff \<le> stop" and "stop \<le> len" and "n = min (probe_boundary toff stop len off - off) CHUNK_BYTES"
    and "off \<le> toff \<or> stop \<le> off \<or> unat soff + (unat off - unat toff) \<le> length (mf_data source)" and "fits source"
    and "probe_image os t source soff toff stop off (unat n) = Inr bs"
  shows "length bs = unat n"
    and "\<forall>p. unat off \<le> p \<and> p < unat off + unat n \<longrightarrow> bs ! (p - unat off) = probe_want source (unat soff) (unat toff) (unat stop) p"
    and "off + n \<le> toff \<or> stop \<le> off \<or> unat soff + (unat (off + n) - unat toff) \<le> length (mf_data source)"
proof -
  note pc = probe_chunk [OF assms(1-4)]
  have "length bs = unat n \<and>
      (\<forall>p. unat off \<le> p \<and> p < unat off + unat n \<longrightarrow> bs ! (p - unat off) = probe_want source (unat soff) (unat toff) (unat stop) p) \<and>
      (off + n \<le> toff \<or> stop \<le> off \<or> unat soff + (unat (off + n) - unat toff) \<le> length (mf_data source))"
  proof (cases "toff \<le> off \<and> off < stop")
    case True
    have pos: "unat (soff + off - toff) = unat soff + (unat off - unat toff)"
      using True assms(5,6) by (intro probe_position [where source = source]) auto
    have rd: "unat soff + (unat off - unat toff) + unat n \<le> length (mf_data source)"
      "bs = window (mf_data source) (unat soff + (unat off - unat toff)) (unat n)"
      using assms(7) True pos pc(1) by (auto simp: probe_image_def read_exact_at_Inr)
    have le: "unat toff \<le> unat off" "unat off + unat n \<le> unat stop"
      using True pc(2,5) by (auto simp: word_le_nat_alt)
    show ?thesis using rd le pc(2) by (auto simp: probe_want_def)
  next
    case False
    then have bs: "bs = probe_pattern off (unat n)" using assms(7) by (auto simp: probe_image_def)
    have "unat off + unat n < 2 ^ 64" using pc(2) unat_less_u64 [of "off + n"] by simp
    moreover have "unat off + unat n \<le> unat toff \<or> unat stop \<le> unat off"
      using pc(2) pc(6) [OF False] by (auto simp: word_le_nat_alt)
    ultimately show ?thesis using bs probe_expected [of off "unat n"] pc(6) [OF False] by auto
  qed
  then show "length bs = unat n"
    "\<forall>p. unat off \<le> p \<and> p < unat off + unat n \<longrightarrow> bs ! (p - unat off) = probe_want source (unat soff) (unat toff) (unat stop) p"
    "off + n \<le> toff \<or> stop \<le> off \<or> unat soff + (unat (off + n) - unat toff) \<le> length (mf_data source)" by blast+
qed

lemma probe_image_readable:
  assumes "off < len" and "toff \<le> stop" and "stop \<le> len" and "n = min (probe_boundary toff stop len off - off) CHUNK_BYTES"
    and "readable os" and "fits source" and "source_covers source soff toff stop off"
  shows "\<exists>bs. probe_image os t source soff toff stop off (unat n) = Inr bs"
proof (cases "toff \<le> off \<and> off < stop")
  case True
  note pc = probe_chunk [OF assms(1-4)]
  have cov: "unat soff + (unat stop - unat toff) \<le> length (mf_data source)"
    using assms(7) True by (auto simp: source_covers_def)
  have le: "unat toff \<le> unat off" "unat off + unat n \<le> unat stop"
    using True pc(2,5) by (auto simp: word_le_nat_alt)
  have "unat (soff + off - toff) = unat soff + (unat off - unat toff)"
    using True assms(6) cov le by (intro probe_position [where source = source]) auto
  then show ?thesis using True assms(5) cov le by (auto simp: probe_image_def read_exact_at_Inr readable_def)
qed (auto simp: probe_image_def)

definition probe_rest :: "memfile \<Rightarrow> memfile \<Rightarrow> u64 \<Rightarrow> u64 \<Rightarrow> u64 \<Rightarrow> u64 \<Rightarrow> bool" where
  "probe_rest source target soff toff stop off \<longleftrightarrow>
     source_covers source soff toff stop off \<and>
     (\<forall>p. unat off \<le> p \<and> p < length (mf_data target) \<longrightarrow>
        mf_data target ! p = probe_want source (unat soff) (unat toff) (unat stop) p)"

lemma probe_rest_step:
  assumes "off < mf_len target" and "toff \<le> stop" and "stop \<le> mf_len target"
    and "n = min (probe_boundary toff stop (mf_len target) off - off) CHUNK_BYTES"
    and "off \<le> toff \<or> stop \<le> off \<or> unat soff + (unat off - unat toff) \<le> length (mf_data source)"
    and "fits source" and "fits target"
    and "probe_image os t source soff toff stop off (unat n) = Inr bs"
  shows "probe_rest source target soff toff stop off \<longleftrightarrow>
    window (mf_data target) (unat off) (unat n) = bs \<and> probe_rest source target soff toff stop (off + n)"
proof -
  note pc = probe_chunk [OF assms(1-4)] and im = probe_image_want [OF assms(1-6,8)]
  have inside: "unat off + unat n \<le> length (mf_data target)"
    using pc(2,3) unat_mf_len [OF assms(7)] by (simp add: word_le_nat_alt)
  have cov: "source_covers source soff toff stop off \<longleftrightarrow> source_covers source soff toff stop (off + n)"
  proof (cases "stop \<le> off + n \<and> \<not> stop \<le> off \<and> toff \<noteq> stop")
    case True
    then have "\<not> off + n \<le> toff" using assms(2) by (metis order.antisym order_trans)
    then have "unat soff + (unat (off + n) - unat toff) \<le> length (mf_data source)" using im(3) True by simp
    moreover have "unat stop \<le> unat (off + n)" using True by (simp add: word_le_nat_alt)
    ultimately show ?thesis by (auto simp: source_covers_def)
  next
    case False
    then show ?thesis using pc(4) by (auto simp: source_covers_def)
  qed
  have "window (mf_data target) (unat off) (unat n) = bs \<longleftrightarrow>
      (\<forall>p. unat off \<le> p \<and> p < unat off + unat n \<longrightarrow>
         mf_data target ! p = probe_want source (unat soff) (unat toff) (unat stop) p)"
    using window_eq_iff [OF inside im(1)] im(2) by simp
  moreover have "unat off \<le> p \<and> p < length (mf_data target) \<longleftrightarrow>
      unat off \<le> p \<and> p < unat off + unat n \<or> unat (off + n) \<le> p \<and> p < length (mf_data target)" for p
    using inside unfolding pc(2) by auto
  ultimately show ?thesis using cov unfolding probe_rest_def by blast
qed

lemma probe_loop_iff:
  assumes "toff \<le> stop" and "stop \<le> mf_len target" and "fits source" and "fits target"
    and "off \<le> mf_len target"
    and "off \<le> toff \<or> stop \<le> off \<or> unat soff + (unat off - unat toff) \<le> length (mf_data source)"
  shows "(probe_loop os source target soff toff stop (mf_len target) off t = Inr () \<longrightarrow>
        probe_rest source target soff toff stop off) \<and>
     (readable os \<and> probe_rest source target soff toff stop off \<longrightarrow>
        probe_loop os source target soff toff stop (mf_len target) off t = Inr ())"
  using assms(5,6)
proof (induction "unat (mf_len target) - unat off" arbitrary: off t rule: less_induct)
  case less
  show ?case
  proof (cases "off < mf_len target")
    case True
    define n where "n = min (probe_boundary toff stop (mf_len target) off - off) CHUNK_BYTES"
    note pc = probe_chunk [OF True assms(1,2) n_def] and ps = probe_loop_step [OF True n_def]
    have inside: "unat off + unat n \<le> length (mf_data target)"
      using pc(2,3) unat_mf_len [OF assms(4)] by (simp add: word_le_nat_alt)
    have rd: "read_exact_at os t target off (unat n) = Inr bs \<longleftrightarrow>
        co_read os t = None \<and> window (mf_data target) (unat off) (unat n) = bs" for bs
      using inside by (auto simp: read_exact_at_Inr)
    show ?thesis
    proof (cases "probe_image os (t + 1) source soff toff stop off (unat n)")
      case (Inl e)
      then show ?thesis using ps probe_image_readable [OF True assms(1,2) n_def _ assms(3), of os soff "t + 1"]
        by (auto simp: probe_rest_def)
    next
      case (Inr bs)
      note pr = probe_rest_step [OF True assms(1,2) n_def less.prems(2) assms(3,4) Inr]
      have dec: "unat (mf_len target) - unat (off + n) < unat (mf_len target) - unat off"
        using True pc(4) by (simp add: word_less_nat_alt)
      have next_off: "off + n \<le> toff \<or> stop \<le> off + n \<or> unat soff + (unat (off + n) - unat toff) \<le> length (mf_data source)"
        using probe_image_want(3) [OF True assms(1,2) n_def less.prems(2) assms(3) Inr] pc(4) by auto
      show ?thesis using ps pr rd Inr less.hyps [OF dec pc(3) next_off, of "t + 2"]
        by (auto simp: readable_def)
    qed
  next
    case False
    then have off: "off = mf_len target" using less.prems(1) by simp
    have "probe_rest source target soff toff stop off"
      using off assms(2) by (auto simp: probe_rest_def source_covers_def unat_mf_len [OF assms(4)])
    then show ?thesis using False by (subst (1 2) probe_loop.simps) simp
  qed
qed

text \<open>The contents a probe must have: the pattern with the window of the source in place.\<close>

definition probe_contents :: "memfile \<Rightarrow> u64 \<Rightarrow> u64 \<Rightarrow> u64 \<Rightarrow> nat \<Rightarrow> bytes" where
  "probe_contents source soff toff n len =
     splice (probe_pattern 0 len) (unat toff) (window (mf_data source) (unat soff) (unat n))"

definition probe_accepts :: "memfile \<Rightarrow> memfile \<Rightarrow> u64 \<Rightarrow> u64 \<Rightarrow> u64 \<Rightarrow> bool" where
  "probe_accepts source target soff toff n \<longleftrightarrow>
     unat toff + unat n \<le> length (mf_data target) \<and>
     (n = 0 \<or> unat soff + unat n \<le> length (mf_data source)) \<and>
     mf_data target = probe_contents source soff toff n (length (mf_data target))"

lemma probe_rest_contents:
  assumes "unat stop = unat toff + unat n" and "unat toff + unat n \<le> length (mf_data target)"
  shows "probe_rest source target soff toff stop 0 \<longleftrightarrow> probe_accepts source target soff toff n"
proof -
  have n0: "toff = stop \<longleftrightarrow> n = 0" "stop \<le> 0 \<Longrightarrow> n = 0"
    using assms(1) unat_eq_0 [of n] word_unat_eq_iff [of toff stop] by auto
  have cov: "source_covers source soff toff stop 0 \<longleftrightarrow> n = 0 \<or> unat soff + unat n \<le> length (mf_data source)"
    using n0 assms(1) by (auto simp: source_covers_def)
  have "(\<forall>p < length (mf_data target). mf_data target ! p = probe_want source (unat soff) (unat toff) (unat stop) p) \<longleftrightarrow>
      mf_data target = probe_contents source soff toff n (length (mf_data target))"
    if "n = 0 \<or> unat soff + unat n \<le> length (mf_data source)"
  proof -
    have len: "length (window (mf_data source) (unat soff) (unat n)) = unat n" using that by auto
    have "probe_contents source soff toff n (length (mf_data target)) ! p =
        probe_want source (unat soff) (unat toff) (unat stop) p" if "p < length (mf_data target)" for p
      using that assms len \<open>n = 0 \<or> _\<close>
      by (auto simp: probe_contents_def probe_want_def nth_splice)
    moreover have "length (probe_contents source soff toff n (length (mf_data target))) = length (mf_data target)"
      using assms len by (simp add: probe_contents_def)
    ultimately show ?thesis by (auto simp: list_eq_iff_nth_eq)
  qed
  then show ?thesis using cov assms(2) by (auto simp: probe_rest_def probe_accepts_def)
qed

lemma verify_probe_iff:
  assumes "fits source" and "fits target"
  shows "verify_probe os t source target soff toff n = Inr k \<Longrightarrow>
      k = mf_len target \<and> probe_accepts source target soff toff n"
    and "readable os \<Longrightarrow> probe_accepts source target soff toff n \<Longrightarrow>
      verify_probe os t source target soff toff n = Inr (mf_len target)"
proof -
  have len: "unat (mf_len target) = length (mf_data target)" by (rule unat_mf_len [OF assms(2)])
  have core: "(probe_loop os source target soff toff stop (mf_len target) 0 t' = Inr () \<longrightarrow>
        probe_accepts source target soff toff n) \<and>
      (readable os \<and> probe_accepts source target soff toff n \<longrightarrow>
        probe_loop os source target soff toff stop (mf_len target) 0 t' = Inr ())"
    if "checked_add toff n = Some stop" "\<not> mf_len target < stop" for stop t'
  proof -
    have stop: "unat stop = unat toff + unat n" using that(1) by (simp add: checked_add_Some_iff)
    have "toff \<le> stop" "stop \<le> mf_len target" "unat toff + unat n \<le> length (mf_data target)"
      using stop that(2) len by (auto simp: word_le_nat_alt word_less_nat_alt)
    then show ?thesis
      using probe_loop_iff [OF _ _ assms, of toff stop 0 soff os t'] probe_rest_contents [OF stop, of target source soff]
      by simp
  qed
  show "k = mf_len target \<and> probe_accepts source target soff toff n"
    if "verify_probe os t source target soff toff n = Inr k"
    using that core by (auto simp: verify_probe_def rbind_Inr_iff stat_Inr split: option.splits if_splits)
  show "verify_probe os t source target soff toff n = Inr (mf_len target)"
    if "readable os" "probe_accepts source target soff toff n"
  proof -
    have "unat toff + unat n < 2 ^ 64" using that(2) assms(2) by (simp add: probe_accepts_def fits_def)
    then obtain stop where stop: "checked_add toff n = Some stop" by (simp add: checked_add_def)
    then have "\<not> mf_len target < stop"
      using that(2) len by (auto simp: checked_add_Some_iff probe_accepts_def word_less_nat_alt)
    with stop core that show ?thesis by (auto simp: verify_probe_def rbind_def stat_def readable_def)
  qed
qed

section \<open>The neighbour proof\<close>

lemma window_append: "window xs a (m + n) = window xs a m @ window xs (a + m) n"
  by (simp add: window_def take_add add.commute)

lemma window_split_eq:
  assumes "a + (m + n) \<le> length xs" and "b + (m + n) \<le> length ys"
  shows "window xs a (m + n) = window ys b (m + n) \<longleftrightarrow>
    window xs a m = window ys b m \<and> window xs (a + m) n = window ys (b + m) n"
  unfolding window_append using assms by (intro append_eq_append_conv) simp

lemma neighbor_loop_iff:
  assumes "unat start + length expected \<le> length (mf_data target)" and "fits target"
  shows "(fst (neighbor_loop os target start expected t) = Inr () \<longrightarrow>
        window (mf_data target) (unat start) (length expected) = expected) \<and>
     (readable os \<and> window (mf_data target) (unat start) (length expected) = expected \<longrightarrow>
        fst (neighbor_loop os target start expected t) = Inr ())"
  using assms(1)
proof (induction "length expected" arbitrary: start expected t rule: less_induct)
  case less
  show ?case
  proof (cases "expected = []")
    case True
    then show ?thesis by (simp add: neighbor_loop.simps)
  next
    case False
    define m where "m = min (unat CHUNK_BYTES) (length expected)"
    let ?rest = "drop (unat CHUNK_BYTES) expected"
    have m: "0 < m" "length (take (unat CHUNK_BYTES) expected) = m" "length expected = m + length ?rest"
      using False by (auto simp: m_def CHUNK_BYTES_def)
    have cut: "window expected 0 m = take (unat CHUNK_BYTES) expected" "window expected m (length ?rest) = ?rest"
      by (auto simp: window_def m_def min_def)
    have whole: "window expected 0 (m + length ?rest) = expected"
      using m(3) by (simp add: window_def)
    have halves: "window (mf_data target) (unat start) (length expected) = expected \<longleftrightarrow>
        window (mf_data target) (unat start) m = take (unat CHUNK_BYTES) expected \<and>
        window (mf_data target) (unat start + m) (length ?rest) = ?rest"
      using window_split_eq [of "unat start" m "length ?rest" "mf_data target" 0 expected] less.prems
      unfolding m(3) [symmetric] add_0 cut by (simp add: whole [unfolded m(3) [symmetric]])
    have rest: "(fst (neighbor_loop os target (start + CHUNK_BYTES) ?rest (t + 1)) = Inr () \<longrightarrow>
          window (mf_data target) (unat start + m) (length ?rest) = ?rest) \<and>
        (readable os \<and> window (mf_data target) (unat start + m) (length ?rest) = ?rest \<longrightarrow>
          fst (neighbor_loop os target (start + CHUNK_BYTES) ?rest (t + 1)) = Inr ())"
    proof (cases "?rest = []")
      case True
      then show ?thesis by (simp add: neighbor_loop.simps)
    next
      case False
      then have mc: "m = unat CHUNK_BYTES" by (simp add: m_def)
      have "unat start + unat CHUNK_BYTES < 2 ^ 64"
        unfolding mc [symmetric] using less.prems assms(2) m(3) unfolding fits_def by linarith
      then have at: "unat (start + CHUNK_BYTES) = unat start + m" unfolding mc by (rule unat_add_u64)
      have "length ?rest < length expected" "unat (start + CHUNK_BYTES) + length ?rest \<le> length (mf_data target)"
        using at less.prems m(1,3) by linarith+
      from less.hyps [OF this] show ?thesis unfolding at .
    qed
    have rd: "read_exact_at os t target start m = Inr bs \<longleftrightarrow>
        co_read os t = None \<and> bs = window (mf_data target) (unat start) m" for bs
    proof -
      have "unat start + m \<le> length (mf_data target)" using less.prems m(3) by linarith
      then show ?thesis by (auto simp: read_exact_at_Inr)
    qed
    show ?thesis
    proof (cases "read_exact_at os t target start m")
      case (Inl e)
      then have "\<not> readable os" using rd by (fastforce simp: readable_def)
      then show ?thesis using Inl False m(2) by (subst (1 2) neighbor_loop.simps) (simp add: Let_def)
    next
      case (Inr bs)
      then show ?thesis using False m(2) rd [of bs] halves rest
        by (subst (1 2) neighbor_loop.simps) (simp add: Let_def)
    qed
  qed
qed

lemma payload_loop_iff:
  assumes "unat soff + unat n \<le> length (mf_data source)" and "unat toff + unat n \<le> length (mf_data target)"
    and "fits source" and "fits target" and "c \<le> n"
  shows "(fst (payload_loop os source target soff toff n c t) = Inr () \<longrightarrow>
        window (mf_data source) (unat soff + unat c) (unat n - unat c) = window (mf_data target) (unat toff + unat c) (unat n - unat c)) \<and>
     (readable os \<and>
        window (mf_data source) (unat soff + unat c) (unat n - unat c) = window (mf_data target) (unat toff + unat c) (unat n - unat c) \<longrightarrow>
        fst (payload_loop os source target soff toff n c t) = Inr ())"
  using assms(5)
proof (induction "unat n - unat c" arbitrary: c t rule: less_induct)
  case less
  show ?case
  proof (cases "c < n")
    case True
    define m where "m = min (n - c) CHUNK_BYTES"
    note st = chunk_step [OF True CHUNK_BYTES_pos, folded m_def]
    have sum: "unat (c + m) = unat c + unat m" "unat c + unat m \<le> unat n"
      using st(1,3,5) by (simp_all add: word_le_nat_alt)
    have range: "range_fits source target soff toff (unat n)"
      using assms(1-4) by (auto simp: range_fits_def fits_def)
    have pos: "unat (soff + c) = unat soff + unat c" "unat (toff + c) = unat toff + unat c"
      using range_fits_offset [OF range, of c] less.prems by (simp_all add: word_le_nat_alt)
    have cut: "unat n - unat c = unat m + (unat n - unat (c + m))" using sum by simp
    have halves: "window (mf_data source) (unat soff + unat c) (unat n - unat c) = window (mf_data target) (unat toff + unat c) (unat n - unat c) \<longleftrightarrow>
        window (mf_data source) (unat soff + unat c) (unat m) = window (mf_data target) (unat toff + unat c) (unat m) \<and>
        window (mf_data source) (unat soff + unat (c + m)) (unat n - unat (c + m)) =
          window (mf_data target) (unat toff + unat (c + m)) (unat n - unat (c + m))"
      unfolding cut using window_split_eq [of "unat soff + unat c" "unat m" "unat n - unat (c + m)" "mf_data source"
          "unat toff + unat c" "mf_data target"] assms(1,2) sum by (simp add: add.assoc)
    have rd: "read_exact_at os t' source (soff + c) (unat m) = Inr bs \<longleftrightarrow>
        co_read os t' = None \<and> bs = window (mf_data source) (unat soff + unat c) (unat m)"
      "read_exact_at os t' target (toff + c) (unat m) = Inr bs \<longleftrightarrow>
        co_read os t' = None \<and> bs = window (mf_data target) (unat toff + unat c) (unat m)" for bs t'
      using assms(1,2) sum pos by (auto simp: read_exact_at_Inr)
    note rest = less.hyps [OF st(6,3), of "t + 2"]
    show ?thesis
    proof (cases "read_exact_at os t source (soff + c) (unat m)")
      case (Inl e)
      then have "\<not> readable os" using rd(1) [of t] by (fastforce simp: readable_def)
      then show ?thesis using Inl True by (subst (1 2) payload_loop.simps) (simp add: Let_def m_def)
    next
      case src: (Inr xs)
      show ?thesis
      proof (cases "read_exact_at os (t + 1) target (toff + c) (unat m)")
        case (Inl e)
        then have "\<not> readable os" using rd(2) [of "t + 1"] by (fastforce simp: readable_def)
        then show ?thesis using Inl src True by (subst (1 2) payload_loop.simps) (simp add: Let_def m_def)
      next
        case (Inr ys)
        have eqs: "xs = window (mf_data source) (unat soff + unat c) (unat m)"
          "ys = window (mf_data target) (unat toff + unat c) (unat m)"
          using src Inr rd by blast+
        have "fst (payload_loop os source target soff toff n c t) = Inr () \<longleftrightarrow>
            xs = ys \<and> fst (payload_loop os source target soff toff n (c + m) (t + 2)) = Inr ()"
          using src Inr True by (subst payload_loop.simps) (simp add: Let_def m_def [symmetric])
        then show ?thesis using halves rest unfolding eqs by blast
      qed
    qed
  next
    case False
    then have "c = n" using less.prems by simp
    then show ?thesis by (subst (1 2) payload_loop.simps) simp
  qed
qed

text \<open>The captured image is the target without the window.\<close>

lemma proof_capture_Inr:
  assumes "proof_capture os t soff target toff n (mf_len target) = Inr p" and "fits target"
    and "unat toff + unat n \<le> length (mf_data target)"
  shows "np_source_offset p = soff" and "np_target_offset p = toff" and "np_bytes p = n"
    and "np_target_size p = mf_len target"
    and "take (np_left_len p) (np_original_neighbors p) = window (mf_data target) 0 (unat toff)"
    and "drop (np_left_len p) (np_original_neighbors p) =
      window (mf_data target) (unat toff + unat n) (length (mf_data target) - (unat toff + unat n))"
proof -
  have len: "unat (mf_len target - n) - unat toff = length (mf_data target) - (unat toff + unat n)"
    using assms(2,3) by (simp add: unat_sub_u64 unat_mf_len word_le_nat_alt)
  have stop: "unat (toff + n) = unat toff + unat n"
    using assms(2,3) by (intro unat_add_u64) (simp add: fits_def)
  have "p = \<lparr> np_source_offset = soff, np_target_offset = toff, np_bytes = n, np_target_size = mf_len target,
      np_left_len = unat toff, np_original_neighbors = window (mf_data target) 0 (unat toff) @
        window (mf_data target) (unat toff + unat n) (length (mf_data target) - (unat toff + unat n)) \<rparr>"
    using assms(1,3)
    by (auto simp: proof_capture_def rbind_Inr_iff read_exact_at_Inr Let_def len stop split: if_splits)
  then show "np_source_offset p = soff" "np_target_offset p = toff" "np_bytes p = n"
    "np_target_size p = mf_len target"
    "take (np_left_len p) (np_original_neighbors p) = window (mf_data target) 0 (unat toff)"
    "drop (np_left_len p) (np_original_neighbors p) =
      window (mf_data target) (unat toff + unat n) (length (mf_data target) - (unat toff + unat n))"
    using assms(3) by simp_all
qed

lemma three_windows:
  assumes "length xs = length ys" and "a + n \<le> length ys" and "length zs = n"
  shows "xs = splice ys a zs \<longleftrightarrow> window xs 0 a = window ys 0 a \<and> window xs a n = zs \<and>
    window xs (a + n) (length ys - (a + n)) = window ys (a + n) (length ys - (a + n))"
proof -
  have "xs = window xs 0 a @ window xs a n @ window xs (a + n) (length ys - (a + n))"
    using assms(1) append_take_drop_id [of n "drop a xs"] by (simp add: window_def add.commute)
  moreover have "splice ys a zs = window ys 0 a @ zs @ window ys (a + n) (length ys - (a + n))"
    using assms by (simp add: splice_def window_def)
  moreover have "length (window xs 0 a) = length (window ys 0 a)" "length (window xs a n) = length zs"
    using assms by auto
  ultimately show ?thesis by (metis append_eq_append_conv)
qed

lemma fst_case_unit_result:
  "fst (case x of (Inl e, t) \<Rightarrow> (Inl e, t) | (Inr _, t) \<Rightarrow> f t) = Inr () \<longleftrightarrow>
     fst x = Inr () \<and> fst (f (snd x)) = Inr ()"
  by (cases x) (auto split: sum.splits)

lemma mf_len_eq_iff: "fits f \<Longrightarrow> fits g \<Longrightarrow> mf_len f = mf_len g \<longleftrightarrow> length (mf_data f) = length (mf_data g)"
  by (metis unat_mf_len word_unat_eq_iff)

lemma proof_verify_iff:
  assumes "proof_capture os0 t0 soff old toff n (mf_len old) = Inr p" and "fits source" and "fits old" and "fits g"
    and "range_fits source old soff toff (unat n)"
  shows "(fst (proof_verify os t p source g) = Inr () \<longrightarrow>
        mf_data g = splice (mf_data old) (unat toff) (window (mf_data source) (unat soff) (unat n))) \<and>
     (readable os \<and> mf_data g = splice (mf_data old) (unat toff) (window (mf_data source) (unat soff) (unat n)) \<longrightarrow>
        fst (proof_verify os t p source g) = Inr ())"
proof -
  have rng: "unat soff + unat n \<le> length (mf_data source)" "unat toff + unat n \<le> length (mf_data old)"
    using assms(5) by (auto simp: range_fits_def)
  note cap = proof_capture_Inr [OF assms(1,3) rng(2)]
  let ?src = "window (mf_data source) (unat soff) (unat n)"
  have lsrc: "length ?src = unat n" using rng by simp
  have stop: "unat (toff + n) = unat toff + unat n" using range_fits_offset(2) [OF assms(5), of n] by simp
  let ?l = "window (mf_data old) 0 (unat toff)"
    and ?r = "window (mf_data old) (unat toff + unat n) (length (mf_data old) - (unat toff + unat n))"
  define t1 where "t1 = snd (neighbor_loop os g 0 ?l (t + 1))"
  define t2 where "t2 = snd (neighbor_loop os g (toff + n) ?r t1)"
  have step: "fst (proof_verify os t p source g) = Inr () \<longleftrightarrow>
      co_stat os t = None \<and> mf_len g = mf_len old \<and> fst (neighbor_loop os g 0 ?l (t + 1)) = Inr () \<and>
      fst (neighbor_loop os g (toff + n) ?r t1) = Inr () \<and> fst (payload_loop os source g soff toff n 0 t2) = Inr ()"
    unfolding proof_verify_def cap t1_def t2_def stat_def
    by (simp add: fst_case_unit_result split: option.split)
  show ?thesis
  proof (cases "length (mf_data g) = length (mf_data old)")
    case True
    have l: "(fst (neighbor_loop os g 0 ?l (t + 1)) = Inr () \<longrightarrow> window (mf_data g) 0 (unat toff) = ?l) \<and>
        (readable os \<and> window (mf_data g) 0 (unat toff) = ?l \<longrightarrow> fst (neighbor_loop os g 0 ?l (t + 1)) = Inr ())"
      using neighbor_loop_iff [of 0 ?l g os "t + 1"] True assms(4) rng by simp
    have r: "(fst (neighbor_loop os g (toff + n) ?r t1) = Inr () \<longrightarrow>
          window (mf_data g) (unat toff + unat n) (length (mf_data old) - (unat toff + unat n)) = ?r) \<and>
        (readable os \<and> window (mf_data g) (unat toff + unat n) (length (mf_data old) - (unat toff + unat n)) = ?r \<longrightarrow>
          fst (neighbor_loop os g (toff + n) ?r t1) = Inr ())"
      using neighbor_loop_iff [of "toff + n" ?r g os t1] True assms(4) rng stop by simp
    have m: "(fst (payload_loop os source g soff toff n 0 t2) = Inr () \<longrightarrow> window (mf_data g) (unat toff) (unat n) = ?src) \<and>
        (readable os \<and> window (mf_data g) (unat toff) (unat n) = ?src \<longrightarrow> fst (payload_loop os source g soff toff n 0 t2) = Inr ())"
    proof -
      have "unat toff + unat n \<le> length (mf_data g)" using True rng(2) by simp
      from payload_loop_iff [OF rng(1) this assms(2,4) word_zero_le, of os t2] show ?thesis
        by (simp only: unat_0 add_0_right diff_zero eq_commute [of ?src])
    qed
    have len: "mf_len g = mf_len old" using True mf_len_eq_iff [OF assms(4,3)] by simp
    have rd: "readable os \<Longrightarrow> co_stat os t = None" by (simp add: readable_def)
    show ?thesis unfolding step three_windows [OF True rng(2) lsrc] using l r m len rd by blast
  next
    case False
    then have "mf_len g \<noteq> mf_len old" using mf_len_eq_iff [OF assms(4,3)] by simp
    moreover have "length (splice (mf_data old) (unat toff) ?src) = length (mf_data old)" using rng lsrc by simp
    ultimately show ?thesis using step False by auto
  qed
qed

section \<open>A concrete copy\<close>

text \<open>
  A kernel that interrupts every third call, takes two bytes per write and otherwise answers; a
  five-byte source and an eight-byte target.
\<close>

definition demo_kernel :: copy_os where
  "demo_kernel = \<lparr> co_stat = (\<lambda>_. None), co_read = (\<lambda>_. None),
     co_write = (\<lambda>t. if t mod 3 = 0 then Interrupted else Wrote 2), co_write_all = (\<lambda>_. None),
     co_cancelled = (\<lambda>_. False), co_reserves = (\<lambda>_. True), co_elapsed = (\<lambda>_. 0) \<rparr>"

definition demo_source :: memfile where
  "demo_source = \<lparr> mf_dev = 1, mf_ino = 7, mf_regular = True, mf_flags = O_RDONLY, mf_seals = 6,
     mf_data = [1, 2, 3, 4, 5] \<rparr>"

definition demo_target :: "bytes \<Rightarrow> memfile" where
  "demo_target bs = \<lparr> mf_dev = 1, mf_ino = 8, mf_regular = True, mf_flags = O_RDWR, mf_seals = 6, mf_data = bs \<rparr>"

definition demo_run :: copy_run where
  "demo_run = \<lparr> cr_clock = 0, cr_target = demo_target [9, 9, 9, 9, 9, 9, 9, 9], cr_progress = [] \<rparr>"

lemma demo_kernel_pauses: "signals_pause demo_kernel"
  unfolding signals_pause_def
proof
  fix t :: nat
  show "\<exists>k. co_write demo_kernel (t + 2 * k) \<noteq> Interrupted"
  proof (cases "t mod 3 = 0")
    case True
    then have "(t + 2 * 1) mod 3 \<noteq> 0" by presburger
    then show ?thesis unfolding demo_kernel_def by (intro exI [of _ 1]) simp
  next
    case False
    then show ?thesis unfolding demo_kernel_def by (intro exI [of _ 0]) simp
  qed
qed

lemma demo_files: "fits demo_source" "fits (cr_target demo_run)" "readable demo_kernel"
  by (simp_all add: fits_def demo_source_def demo_run_def demo_target_def readable_def demo_kernel_def)

definition completes :: "((CopyFailure + CopyCompletion) \<times> copy_run) option \<Rightarrow> bool" where
  "completes x \<longleftrightarrow> (case x of Some (Inr c, s) \<Rightarrow> True | _ \<Rightarrow> False)"

lemma completesE: "completes x \<Longrightarrow> (\<And>c s. x = Some (Inr c, s) \<Longrightarrow> P) \<Longrightarrow> P"
  by (auto simp: completes_def split: option.splits sum.splits)

lemma demo_copy: "completes (copy_internal demo_kernel demo_source 1 2 3 False demo_run)"
  by code_simp

lemma demo_proof: "completes (copy_and_verify demo_kernel demo_source 1 2 3 demo_run)"
  by code_simp

lemma demo_fill:
  "fill_probe demo_kernel 0 (demo_target (replicate 8 0)) = (Inr (), demo_target (probe_pattern 0 8))"
  by code_simp

lemma demo_probe:
  "completes (copy_range demo_kernel demo_source 1 2 3 (demo_run\<lparr> cr_target := demo_target (probe_pattern 0 8) \<rparr>))"
  by code_simp

section \<open>Properties\<close>

text \<open>
  C6. A copy by the DDR copy engine returns, with a completion or a failure, for every pair of files,
  range and kernel, unless the retries of some write are interrupted forever.\<close>
theorem ddr_copy_returns:
  assumes "signals_pause os"
  shows "\<exists>r s'. copy_internal os source soff toff n pf s = Some (r, s')"
  using copy_internal_returns [OF assms] by fastforce

text \<open>
  C5. Whatever the kernel answers (short writes, interruptions, failures, a cancel at any moment), a
  completed copy has put exactly the requested window of the source at the requested place of the
  target, reports its exact size and saw the cancel flag clear after the last write; a failed copy
  reports exactly how many bytes it had moved, the target differs from the old one by that prefix of
  the window and nothing else, and it never claims more bytes verified than moved.\<close>
theorem ddr_copy_exact:
  assumes "copy_internal os source soff toff n pf s = Some (r, s')" and "fits source" and "fits (cr_target s)"
  shows "case r of
      Inr c \<Rightarrow> n \<noteq> 0 \<and> unat soff + unat n \<le> length (mf_data source) \<and>
        unat toff + unat n \<le> length (mf_data (cr_target s)) \<and>
        cp_bytes_copied c = n \<and> cp_bytes_verified c = (if pf then n else 0) \<and>
        cr_target s' = put_at toff (window (mf_data source) (unat soff) (unat n)) (cr_target s) \<and>
        \<not> co_cancelled os (cr_clock s')
    | Inl f \<Rightarrow> cf_bytes_copied f \<le> n \<and> cf_bytes_verified f \<le> cf_bytes_copied f \<and>
        cr_target s' = put_at toff (window (mf_data source) (unat soff) (unat (cf_bytes_copied f))) (cr_target s)"
proof (cases r)
  case (Inl f)
  then show ?thesis using copy_internal_inv(1) [OF assms] by (simp add: copy_result_def)
next
  case (Inr c)
  then show ?thesis using copy_internal_inv [OF assms] finish_copy_Inr(4) by (fastforce simp: copy_result_def)
qed

text \<open>
  C7. The neighbour proof of a validated copy is exact: rechecking the completion against a later state
  of the target accepts only a target in which the window equals the source's and every other byte is
  the one captured before the copy, and it accepts every such target whose identity is unchanged when
  the kernel can read.\<close>
theorem neighbour_proof_exact:
  assumes "copy_and_verify os source soff toff n s = Some (Inr c, s')" and "fits source" and "fits (cr_target s)"
    and "fits g"
  shows "(verify_final os2 t c source g = Inr () \<longrightarrow>
        mf_data g = splice (mf_data (cr_target s)) (unat toff) (window (mf_data source) (unat soff) (unat n))) \<and>
     (readable os2 \<and> mf_dev g = mf_dev (cr_target s) \<and> mf_ino g = mf_ino (cr_target s) \<and>
        mf_data g = splice (mf_data (cr_target s)) (unat toff) (window (mf_data source) (unat soff) (unat n)) \<longrightarrow>
        verify_final os2 t c source g = Inr ())"
proof -
  obtain p where prep: "prepare_copy os (cr_clock s) source (cr_target s) soff toff n True = Inr p"
    and fin: "finish_copy os source p n n s' = Inr c"
    using copy_internal_inv(2) [OF assms(1) [unfolded copy_and_verify_def] assms(2,3)] by auto
  obtain q where q: "p = Some q" using prepare_copy_Inr(3) [OF prep assms(2,3)] by auto
  note cap = prepare_copy_Inr(4) [OF prep assms(2,3) q] and range = prepare_copy_Inr(1) [OF prep assms(2,3)]
  note pv = proof_verify_iff [OF cap assms(2,3,4) range]
  have tgt: "cr_target s' = put_at toff (window (mf_data source) (unat soff) (unat n)) (cr_target s)"
    using copy_internal_inv(1) [OF assms(1) [unfolded copy_and_verify_def] assms(2,3)] by (simp add: copy_result_def)
  have "length (window (mf_data source) (unat soff) (unat n)) = unat n" using range by (auto simp: range_fits_def)
  then have len: "length (splice (mf_data (cr_target s)) (unat toff) (window (mf_data source) (unat soff) (unat n)))
      = length (mf_data (cr_target s))" using range by (simp add: range_fits_def)
  have ident: "mf_identity (cr_target s') = (mf_dev (cr_target s), mf_ino (cr_target s), mf_len (cr_target s))"
    using tgt len by (simp add: mf_identity_def mf_len_def put_at_def)
  have "verify_final os2 t c source g = Inr () \<longleftrightarrow>
      co_stat os2 t = None \<and> co_stat os2 (t + 1) = None \<and> mf_identity g = mf_identity (cr_target s') \<and>
      fst (proof_verify os2 (t + 2) q source g) = Inr ()"
    using finish_copy_Inr(3,5,6) [OF fin] q by (auto simp: verify_final_def rbind_Inr_iff stat_Inr)
  then show ?thesis using pv [of os2 "t + 2"] ident len by (auto simp: readable_def mf_identity_def mf_len_def)
qed

text \<open>
  C8. The broker's probe is sound: a target filled with the probe pattern into which a window was then
  copied passes the full check of every byte, and any target that passes the check holds the pattern
  with exactly that window of the source in place.\<close>
theorem probe_round_trip:
  assumes "fits source" and "fits f" and "fits g" and "readable os2"
    and "fill_probe os0 t0 f = (Inr (), cr_target s)"
    and "copy_range os1 source soff toff n s = Some (Inr c, s')"
  shows "verify_probe os2 t2 source (cr_target s') soff toff n = Inr (mf_len f) \<and>
    (verify_probe os t source g soff toff n = Inr k \<longrightarrow>
       k = mf_len g \<and> unat toff + unat n \<le> length (mf_data g) \<and>
       mf_data g = splice (probe_pattern 0 (length (mf_data g))) (unat toff) (window (mf_data source) (unat soff) (unat n)))"
proof -
  have filled: "same_file f (cr_target s) \<and> mf_data (cr_target s) = probe_pattern 0 (length (mf_data f))"
    using assms(2,5) fill_loop_inv [of os0 "mf_len f" 0 "t0 + 1" f]
    by (auto simp: fill_probe_def stat_def split: option.splits)
  then have fs: "fits (cr_target s)" using assms(2) by (simp add: fits_def)
  have res: "n \<noteq> 0" "unat soff + unat n \<le> length (mf_data source)" "unat toff + unat n \<le> length (mf_data f)"
    "cr_target s' = put_at toff (window (mf_data source) (unat soff) (unat n)) (cr_target s)"
    using copy_internal_inv(1) [OF assms(6) [unfolded copy_range_def] assms(1) fs] filled by (auto simp: copy_result_def)
  have len: "length (mf_data (cr_target s')) = length (mf_data f)"
    using res filled by (simp add: put_at_def)
  have "probe_accepts source (cr_target s') soff toff n"
    using res filled len by (simp add: probe_accepts_def probe_contents_def put_at_def)
  then have "verify_probe os2 t2 source (cr_target s') soff toff n = Inr (mf_len f)"
    using verify_probe_iff(2) [OF assms(1) _ assms(4)] len assms(2) by (simp add: fits_def mf_len_def)
  then show ?thesis
    using verify_probe_iff(1) [OF assms(1,3), of os t soff toff n k] by (auto simp: probe_accepts_def probe_contents_def)
qed

section \<open>Witnesses\<close>

theorem ddr_copy_returns_witness:
  "signals_pause demo_kernel \<and> (\<exists>r s'. copy_internal demo_kernel demo_source 1 2 3 True demo_run = Some (r, s'))"
  using demo_kernel_pauses ddr_copy_returns [OF demo_kernel_pauses] by blast

theorem ddr_copy_exact_witness:
  "\<exists>c s'. copy_internal demo_kernel demo_source 1 2 3 False demo_run = Some (Inr c, s') \<and>
     cr_target s' = demo_target [9, 9, 2, 3, 4, 9, 9, 9]"
proof -
  obtain c s' where run: "copy_internal demo_kernel demo_source 1 2 3 False demo_run = Some (Inr c, s')"
    using demo_copy by (rule completesE)
  have "put_at 2 (window (mf_data demo_source) 1 3) (cr_target demo_run) = demo_target [9, 9, 2, 3, 4, 9, 9, 9]"
    by (simp add: put_at_def demo_source_def demo_run_def demo_target_def window_def splice_def)
  then show ?thesis using ddr_copy_exact [OF run demo_files(1,2)] run by simp
qed

theorem neighbour_proof_exact_witness:
  "\<exists>c s'. copy_and_verify demo_kernel demo_source 1 2 3 demo_run = Some (Inr c, s') \<and>
     verify_final demo_kernel 0 c demo_source (demo_target [9, 9, 2, 3, 4, 9, 9, 9]) = Inr () \<and>
     verify_final demo_kernel 0 c demo_source (demo_target [9, 0, 2, 3, 4, 9, 9, 9]) \<noteq> Inr ()"
proof -
  obtain c s' where run: "copy_and_verify demo_kernel demo_source 1 2 3 demo_run = Some (Inr c, s')"
    using demo_proof by (rule completesE)
  have fit: "fits (demo_target [9, 9, 2, 3, 4, 9, 9, 9])" "fits (demo_target [9, 0, 2, 3, 4, 9, 9, 9])"
    by (simp_all add: fits_def demo_target_def)
  have "splice (mf_data (cr_target demo_run)) 2 (window (mf_data demo_source) 1 3) = [9, 9, 2, 3, 4, 9, 9, 9]"
    by (simp add: demo_source_def demo_run_def demo_target_def window_def splice_def)
  then show ?thesis
    using run neighbour_proof_exact [OF run demo_files(1,2) fit(1), of demo_kernel 0]
      neighbour_proof_exact [OF run demo_files(1,2) fit(2), of demo_kernel 0] demo_files(3)
    by (auto simp: demo_run_def demo_target_def)
qed

theorem probe_round_trip_witness:
  "\<exists>c s'. copy_range demo_kernel demo_source 1 2 3 (demo_run\<lparr> cr_target := demo_target (probe_pattern 0 8) \<rparr>) = Some (Inr c, s') \<and>
     verify_probe demo_kernel 0 demo_source (cr_target s') 1 2 3 = Inr 8"
proof -
  let ?s = "demo_run\<lparr> cr_target := demo_target (probe_pattern 0 8) \<rparr>" and ?f = "demo_target (replicate 8 0)"
  obtain c s' where run: "copy_range demo_kernel demo_source 1 2 3 ?s = Some (Inr c, s')"
    using demo_probe by (rule completesE)
  have fit: "fits ?f" by (simp add: fits_def demo_target_def)
  have fill: "fill_probe demo_kernel 0 ?f = (Inr (), cr_target ?s)" using demo_fill by simp
  have "mf_len ?f = 8" by (simp add: mf_len_def demo_target_def)
  then show ?thesis using run probe_round_trip [OF demo_files(1) fit fit demo_files(3) fill run] by auto
qed

end
