(* ===== verification/Json.thy ===== *)
theory Json
  imports Wire
begin

text \<open>
  The strict parser of the broker's snapshot document (\<^verbatim>\<open>topology/json.rs\<close>). The parser is a position and
  the input from there on; numbers are unsigned 128-bit integers; an object is an ordered map whose
  keys must not repeat.

  The loops over the items of an array and the fields of an object take one step per separator. They
  get as fuel the number of bytes left; the laws show that it never runs out.
\<close>

datatype Value =
    JObject "(string \<times> Value) list"
  | JArray "Value list"
  | JString string
  | JNumber nat
  | JBool bool
  | JNull

fun value_field :: "Value \<Rightarrow> string \<Rightarrow> Value result" where
  "value_field (JObject fs) name = (case bt_get fs name of Some v \<Rightarrow> Inr v | None \<Rightarrow> Inl (''missing '' @ name))"
| "value_field v name = Inl ''expected object''"

fun value_string :: "Value \<Rightarrow> string result" where
  "value_string (JString s) = Inr s"
| "value_string v = Inl ''expected string''"

fun value_number :: "Value \<Rightarrow> nat result" where
  "value_number (JNumber n) = Inr n"
| "value_number v = Inl ''expected unsigned integer''"

fun value_boolean :: "Value \<Rightarrow> bool result" where
  "value_boolean (JBool b) = Inr b"
| "value_boolean v = Inl ''expected boolean''"

fun value_array :: "Value \<Rightarrow> Value list result" where
  "value_array (JArray vs) = Inr vs"
| "value_array v = Inl ''expected array''"

section \<open>Tokens\<close>

record Parser =
  ps_pos :: nat
  ps_rest :: string

type_synonym 'a parsed = "('a \<times> Parser) result"

definition peek :: "Parser \<Rightarrow> char option" where
  "peek p = (case ps_rest p of [] \<Rightarrow> None | c # _ \<Rightarrow> Some c)"

definition advance :: "nat \<Rightarrow> Parser \<Rightarrow> Parser" where
  "advance n p = \<lparr> ps_pos = ps_pos p + n, ps_rest = drop n (ps_rest p) \<rparr>"

text \<open>\<^verbatim>\<open>u8::is_ascii_whitespace\<close> (no vertical tab) and \<^verbatim>\<open>u8::is_ascii_digit\<close>.\<close>

definition ascii_space :: "char \<Rightarrow> bool" where
  "ascii_space c \<longleftrightarrow> c = CHR '' '' \<or> c = CHR 0x09 \<or> c = CHR 0x0A \<or> c = CHR 0x0C \<or> c = CHR 0x0D"

definition ascii_digit :: "char \<Rightarrow> bool" where
  "ascii_digit c \<longleftrightarrow> digit_val c \<noteq> None"

definition json_space :: "Parser \<Rightarrow> Parser" where
  "json_space p = advance (length (takeWhile ascii_space (ps_rest p))) p"

definition json_take :: "char \<Rightarrow> Parser \<Rightarrow> unit parsed" where
  "json_take c p =
     (let p = json_space p in
      if peek p \<noteq> Some c then Inl (''unexpected JSON token at '' @ show_nat (ps_pos p))
      else Inr ((), advance 1 p))"

definition QUOTE :: char where "QUOTE = CHR 0x22"
definition BACKSLASH :: char where "BACKSLASH = CHR 0x5C"

text \<open>The bytes up to the closing quote.\<close>

fun string_body :: "string \<Rightarrow> string result" where
  "string_body [] = Inl ''unterminated JSON string''"
| "string_body (c # cs) =
     (if c = QUOTE then Inr []
      else if (of_char c :: nat) < 0x20 \<or> c = BACKSLASH then Inl ''unsupported JSON string escape or control byte''
      else map_sum id (Cons c) (string_body cs))"

definition json_string :: "Parser \<Rightarrow> string parsed" where
  "json_string p =
     rbind (json_take QUOTE p) (\<lambda>(_, p).
     rbind (string_body (ps_rest p)) (\<lambda>s.
       if \<not> valid_utf8 (map of_char s) then Inl ''invalid JSON UTF-8''
       else Inr (s, advance (length s + 1) p)))"

definition json_literal :: "string \<Rightarrow> Value \<Rightarrow> Parser \<Rightarrow> Value parsed" where
  "json_literal token v p =
     (if take (length token) (ps_rest p) \<noteq> token then Inl ''invalid JSON literal''
      else Inr (v, advance (length token) p))"

definition json_number :: "Parser \<Rightarrow> Value parsed" where
  "json_number p =
     (let text = takeWhile ascii_digit (ps_rest p) in
      if 1 < length text \<and> hd text = CHR ''0'' then Inl ''leading zero in number''
      else case parse_unsigned 128 text of
        None \<Rightarrow> Inl ''integer overflow''
      | Some n \<Rightarrow> Inr (JNumber n, advance (length text) p))"

section \<open>Values\<close>

fun json_items :: "(Parser \<Rightarrow> Value parsed) \<Rightarrow> nat \<Rightarrow> Value list \<Rightarrow> Parser \<Rightarrow> Value list parsed" where
  "json_items val 0 items p = Inl ''out of fuel''"
| "json_items val (Suc fuel) items p =
     rbind (val p) (\<lambda>(v, p).
       let items = items @ [v]; p = json_space p in
       if peek p \<noteq> Some (CHR '','') then Inr (items, p)
       else json_items val fuel items (advance 1 p))"

fun json_fields ::
  "(Parser \<Rightarrow> Value parsed) \<Rightarrow> nat \<Rightarrow> (string \<times> Value) list \<Rightarrow> Parser \<Rightarrow> (string \<times> Value) list parsed" where
  "json_fields val 0 fs p = Inl ''out of fuel''"
| "json_fields val (Suc fuel) fs p =
     rbind (json_string p) (\<lambda>(name, p).
     rbind (json_take (CHR '':'') p) (\<lambda>(_, p).
     rbind (val p) (\<lambda>(v, p).
       if bt_get fs name \<noteq> None then Inl ''duplicate JSON field''
       else
         let fs = bt_insert name v fs; p = json_space p in
         if peek p \<noteq> Some (CHR '','') then Inr (fs, p)
         else json_fields val fuel fs (advance 1 p))))"

definition json_array :: "(Parser \<Rightarrow> Value parsed) \<Rightarrow> Parser \<Rightarrow> Value parsed" where
  "json_array val p =
     rbind (json_take (CHR ''['') p) (\<lambda>(_, p).
       let p = json_space p in
       rbind (if peek p \<noteq> Some (CHR '']'') then json_items val (length (ps_rest p) + 1) [] p else Inr ([], p)) (\<lambda>(items, p).
       rbind (json_take (CHR '']'') p) (\<lambda>(_, p). Inr (JArray items, p))))"

definition json_object :: "(Parser \<Rightarrow> Value parsed) \<Rightarrow> Parser \<Rightarrow> Value parsed" where
  "json_object val p =
     rbind (json_take (CHR 0x7B) p) (\<lambda>(_, p).
       let p = json_space p in
       rbind (if peek p \<noteq> Some (CHR 0x7D) then json_fields val (length (ps_rest p) + 1) [] p else Inr ([], p)) (\<lambda>(fs, p).
       rbind (json_take (CHR 0x7D) p) (\<lambda>(_, p). Inr (JObject fs, p))))"

text \<open>\<open>json_value\<close> is called with the number of levels left: nine minus the depth.\<close>

primrec json_value :: "nat \<Rightarrow> Parser \<Rightarrow> Value parsed" where
  "json_value 0 p = Inl ''JSON nesting too deep''"
| "json_value (Suc levels) p =
     (let p = json_space p in
      case peek p of
        None \<Rightarrow> Inl (''invalid JSON value at '' @ show_nat (ps_pos p))
      | Some c \<Rightarrow>
          if c = QUOTE then rbind (json_string p) (\<lambda>(s, p). Inr (JString s, p))
          else if c = CHR ''t'' then json_literal ''true'' (JBool True) p
          else if c = CHR ''f'' then json_literal ''false'' (JBool False) p
          else if c = CHR ''n'' then json_literal ''null'' JNull p
          else if ascii_digit c then json_number p
          else if c = CHR ''['' then json_array (json_value levels) p
          else if c = CHR 0x7B then json_object (json_value levels) p
          else Inl (''invalid JSON value at '' @ show_nat (ps_pos p)))"

definition json_parse :: "string \<Rightarrow> Value result" where
  "json_parse text =
     (if 1048576 < length text then Inl ''projection too large''
      else rbind (json_value 9 \<lparr> ps_pos = 0, ps_rest = text \<rparr>) (\<lambda>(v, p).
        let p = json_space p in
        if ps_rest p \<noteq> [] then Inl ''trailing JSON data'' else Inr v))"

end
