(* ===== verification/Topology.thy ===== *)
theory Topology
  imports Json Journal "HOL-Library.Product_Lexorder"
begin

text \<open>
  Single-host DDR discovery (\<^verbatim>\<open>topology/ddr.rs\<close>): the broker's projection is parsed and checked, the NUMA
  inventory and the available memory are read from the files of Linux, and a snapshot is built from two
  agreeing observations of each; a guard compares a later snapshot with an earlier one.

  The file system at a moment is a function from paths to contents, a broker query the bytes the socket
  delivers or an error. Instants and durations are nanoseconds; the two clocks are arguments.
\<close>

section \<open>Data\<close>

record BrokerIdentity =
  bri_host_id :: string
  bri_boot_id :: string
  bri_broker_instance :: string

record ResourceIdentity =
  ri_host_id :: string
  ri_boot_id :: string
  ri_broker_instance :: string
  ri_owner_incarnation :: string
  ri_pool_generation :: u64
  ri_object_id :: u64
  ri_resource_generation :: u64

record DdrBacking =
  bk_identity :: ResourceIdentity
  bk_owner_name :: string
  bk_owner_pid :: u64
  bk_owner_alive :: bool
  bk_placement_id :: u64
  bk_placement_count :: u64
  bk_binding_id :: u64
  bk_size_bytes :: u64
  bk_state :: string
  bk_reclaimed :: bool
  bk_numa_node :: "nat option"

record Projection =
  pj_identity :: BrokerIdentity
  pj_epoch :: u64
  pj_observed_at_ns :: nat
  pj_backings :: "DdrBacking list"
  pj_committed_bytes :: u64
  pj_active_views :: u64
  pj_pending_handoffs :: u64
  pj_in_flight :: u64

record NumaNode =
  nn_node :: nat
  nn_total_bytes :: "u64 option"
  nn_provenance :: string

record PhysicalInventory =
  ph_nodes :: "NumaNode list option"
  ph_provenance :: string
  ph_page_residency :: string
  ph_memory_technology :: string

record PoolBudget =
  pb_owner_incarnation :: string
  pb_pool_generation :: u64
  pb_retained_bytes :: u64
  pb_advisory_additional_bytes :: u64
  pb_reservable_bytes :: u64

datatype Support = Supported | Unsupported | SupportUnknown

datatype DdrOperation = MapRead | CopyRange

record DirectedCapability =
  dc_source :: ResourceIdentity
  dc_destination_address_domain :: string
  dc_operation :: DdrOperation
  dc_support :: Support
  dc_allowed_offset_bytes :: u64
  dc_allowed_bytes :: u64
  dc_permission :: string
  dc_provenance :: string
  dc_limitations :: string

record DdrSnapshot =
  sn_realm :: string
  sn_identity :: BrokerIdentity
  sn_epoch :: u64
  sn_topology_generation :: u64
  sn_capability_generation :: u64
  sn_observed_at_unix_ns :: nat
  sn_observed_duration :: nat
  sn_physical :: PhysicalInventory
  sn_backings :: "DdrBacking list"
  sn_committed_bytes :: u64
  sn_active_views :: u64
  sn_pending_handoffs :: u64
  sn_in_flight :: u64
  sn_host_budget_limit_bytes :: u64
  sn_advisory_unallocated_bytes :: u64
  sn_pools :: "PoolBudget list"
  sn_capabilities :: "DirectedCapability list"
  sn_provenance :: string
  sn_unknowns :: string
  sn_captured_at :: nat
  sn_max_age :: nat
  sn_source_observed_at_unix_ns :: nat

record DiscoveryConfig =
  cfg_realm :: string
  cfg_control_socket :: string
  cfg_max_age :: nat
  cfg_host_budget_limit_bytes :: u64

record Fingerprint =
  fp_identity :: BrokerIdentity
  fp_epoch :: u64
  fp_physical :: PhysicalInventory
  fp_backings :: "DdrBacking list"

record DdrDiscovery =
  dd_config :: DiscoveryConfig
  dd_last :: "Fingerprint option"
  dd_topology_generation :: u64
  dd_capability_generation :: u64

section \<open>The broker's projection\<close>

definition SNAPSHOT_SCHEMA :: string where "SNAPSHOT_SCHEMA = ''uflow-external-ddr-snapshot-v1''"

definition MAX_FRAME :: nat where "MAX_FRAME = 1048576"

definition n64 :: "Value \<Rightarrow> u64 result" where
  "n64 v = rbind (value_number v) (\<lambda>n. if n < 2 ^ 64 then Inr (of_nat n) else Inl ''integer exceeds u64'')"

definition doc_s :: "Value \<Rightarrow> string \<Rightarrow> string result" where
  "doc_s v key =
     rbind (value_field v key) (\<lambda>w. rbind (value_string w) (\<lambda>t.
       if t = [] then Inl (''empty '' @ key) else Inr t))"

definition doc_n :: "Value \<Rightarrow> string \<Rightarrow> u64 result" where
  "doc_n v key = rbind (value_field v key) n64"

definition doc_b :: "Value \<Rightarrow> string \<Rightarrow> bool result" where
  "doc_b v key = rbind (value_field v key) value_boolean"

definition row_identity :: "BrokerIdentity \<Rightarrow> Value \<Rightarrow> ResourceIdentity result" where
  "row_identity who row =
     rbind (doc_s row ''owner_incarnation'') (\<lambda>owner.
     rbind (doc_n row ''pool_generation'') (\<lambda>pool.
     rbind (doc_n row ''object_id'') (\<lambda>oid.
     rbind (doc_n row ''resource_generation'') (\<lambda>gen.
       Inr \<lparr> ri_host_id = bri_host_id who, ri_boot_id = bri_boot_id who, ri_broker_instance = bri_broker_instance who,
             ri_owner_incarnation = owner, ri_pool_generation = pool, ri_object_id = oid, ri_resource_generation = gen \<rparr>))))"

record row_scan =
  rs_ids :: "u64 list"
  rs_placements :: "u64 list"
  rs_backings :: "DdrBacking list"
  rs_total :: u64

definition BACKING_STATES :: "string list" where
  "BACKING_STATES = [''active'', ''pending'', ''revoked'', ''owner_exited'', ''registration_rollback'']"

text \<open>The last reads of a row, after its checks.\<close>

definition row_backing :: "Value \<Rightarrow> ResourceIdentity \<Rightarrow> u64 \<Rightarrow> u64 \<Rightarrow> u64 \<Rightarrow> string \<Rightarrow> bool \<Rightarrow> DdrBacking result" where
  "row_backing row resource placement_id placement_count size_bytes state reclaimed =
     rbind (doc_s row ''owner_name'') (\<lambda>name.
     rbind (doc_n row ''owner_pid'') (\<lambda>pid.
     rbind (doc_b row ''owner_alive'') (\<lambda>alive.
     rbind (doc_n row ''binding_id'') (\<lambda>binding.
       Inr \<lparr> bk_identity = resource, bk_owner_name = name, bk_owner_pid = pid, bk_owner_alive = alive,
             bk_placement_id = placement_id, bk_placement_count = placement_count, bk_binding_id = binding,
             bk_size_bytes = size_bytes, bk_state = state, bk_reclaimed = reclaimed, bk_numa_node = None \<rparr>))))"

definition row_reads :: "BrokerIdentity \<Rightarrow> Value \<Rightarrow> (ResourceIdentity \<times> u64 \<times> u64 \<times> bool \<times> u64) result" where
  "row_reads who row =
     rbind (row_identity who row) (\<lambda>resource.
     rbind (doc_n row ''placement_id'') (\<lambda>placement_id.
     rbind (doc_n row ''placement_count'') (\<lambda>placement_count.
     rbind (doc_b row ''reclaimed'') (\<lambda>reclaimed.
     rbind (doc_n row ''size_bytes'') (\<lambda>size_bytes.
       Inr (resource, placement_id, placement_count, reclaimed, size_bytes))))))"

definition row_invalid :: "ResourceIdentity \<Rightarrow> u64 \<Rightarrow> u64 \<Rightarrow> u64 \<Rightarrow> row_scan \<Rightarrow> bool" where
  "row_invalid resource placement_id placement_count size_bytes sc \<longleftrightarrow>
     ri_object_id resource = 0 \<or> ri_pool_generation resource = 0 \<or> ri_resource_generation resource = 0 \<or>
     placement_id = 0 \<or> size_bytes = 0 \<or> placement_count \<noteq> 1 \<or>
     ri_object_id resource \<in> set (rs_ids sc) \<or> placement_id \<in> set (rs_placements sc)"

definition row_state :: "Value \<Rightarrow> bool \<Rightarrow> string result" where
  "row_state row reclaimed =
     rbind (value_field row ''numa_node'') (\<lambda>numa.
       if numa \<noteq> JNull then Inl ''unexpected T1 NUMA attribution''
       else rbind (doc_s row ''state'') (\<lambda>state.
         if state \<notin> set BACKING_STATES then Inl ''unknown backing state''
         else if reclaimed \<and> state \<in> set [''active'', ''pending''] then Inl ''reclaimed active backing''
         else Inr state))"

definition parse_row :: "BrokerIdentity \<Rightarrow> Value \<Rightarrow> row_scan \<Rightarrow> row_scan result" where
  "parse_row who row sc =
     rbind (row_reads who row) (\<lambda>(resource, placement_id, placement_count, reclaimed, size_bytes).
       if row_invalid resource placement_id placement_count size_bytes sc
       then Inl ''invalid or duplicate backing/placement identity''
       else rbind (row_state row reclaimed) (\<lambda>state.
         case (if reclaimed then Some (rs_total sc) else checked_add (rs_total sc) size_bytes) of
           None \<Rightarrow> Inl ''backing byte overflow''
         | Some bytes \<Rightarrow>
             rbind (row_backing row resource placement_id placement_count size_bytes state reclaimed) (\<lambda>b.
               Inr \<lparr> rs_ids = ri_object_id resource # rs_ids sc, rs_placements = placement_id # rs_placements sc,
                     rs_backings = rs_backings sc @ [b], rs_total = bytes \<rparr>)))"

fun parse_rows :: "BrokerIdentity \<Rightarrow> Value list \<Rightarrow> row_scan \<Rightarrow> row_scan result" where
  "parse_rows who [] sc = Inr sc"
| "parse_rows who (row # rows) sc = rbind (parse_row who row sc) (parse_rows who rows)"

definition wire_u64 :: "kv \<Rightarrow> string \<Rightarrow> u64 result" where
  "wire_u64 fs key =
     (case bt_get fs key of
        None \<Rightarrow> Inl (''missing '' @ key)
      | Some t \<Rightarrow> (case parse_u64 t of None \<Rightarrow> Inl (''invalid '' @ key) | Some n \<Rightarrow> Inr n))"

definition parse_wire_epoch :: "kv \<Rightarrow> u64 result" where
  "parse_wire_epoch fs =
     (case bt_get fs ''lifecycle_epoch'' of
        None \<Rightarrow> Inl ''missing wire epoch''
      | Some t \<Rightarrow> (case parse_u64 t of None \<Rightarrow> Inl ''invalid wire epoch'' | Some n \<Rightarrow> Inr n))"

definition parse_identity :: "Value \<Rightarrow> BrokerIdentity result" where
  "parse_identity doc =
     rbind (doc_s doc ''host_id'') (\<lambda>host. rbind (doc_s doc ''boot_id'') (\<lambda>boot.
     rbind (doc_s doc ''broker_instance'') (\<lambda>inst.
       Inr \<lparr> bri_host_id = host, bri_boot_id = boot, bri_broker_instance = inst \<rparr>)))"

definition parse_document :: "kv \<Rightarrow> (Value \<times> BrokerIdentity \<times> u64) result" where
  "parse_document fs =
     (if bt_get fs ''status'' \<noteq> Some ''ok'' then Inl ''broker returned error''
      else case bt_get fs ''projection_json'' of
        None \<Rightarrow> Inl ''missing projection_json''
      | Some json \<Rightarrow>
          rbind (json_parse json) (\<lambda>doc.
          rbind (doc_s doc ''schema'') (\<lambda>schema.
          if schema \<noteq> SNAPSHOT_SCHEMA then Inl ''unsupported T1 schema''
          else rbind (parse_identity doc) (\<lambda>who.
          rbind (doc_n doc ''lifecycle_epoch'') (\<lambda>epoch.
          rbind (parse_wire_epoch fs) (\<lambda>wire_epoch.
          if wire_epoch \<noteq> epoch then Inl ''wire epoch mismatch'' else Inr (doc, who, epoch)))))))"

definition parse_backings :: "kv \<Rightarrow> BrokerIdentity \<Rightarrow> Value \<Rightarrow> row_scan result" where
  "parse_backings fs who doc =
     rbind (rbind (value_field doc ''backings'') value_array) (\<lambda>rows.
     rbind (parse_rows who rows \<lparr> rs_ids = [], rs_placements = [], rs_backings = [], rs_total = 0 \<rparr>) (\<lambda>sc.
     rbind (wire_u64 fs ''committed_bytes'') (\<lambda>committed.
       if rs_total sc \<noteq> committed then Inl ''T1 committed-byte sum mismatch'' else Inr sc)))"

definition parse_projection :: "kv \<Rightarrow> Projection result" where
  "parse_projection fs =
     rbind (parse_document fs) (\<lambda>(doc, who, epoch).
     rbind (parse_backings fs who doc) (\<lambda>sc.
     rbind (rbind (value_field doc ''observed_at_unix_ns'') value_number) (\<lambda>observed.
     rbind (wire_u64 fs ''active_views'') (\<lambda>views.
     rbind (wire_u64 fs ''pending_handoffs'') (\<lambda>handoffs.
     rbind (wire_u64 fs ''in_flight'') (\<lambda>flight.
       Inr \<lparr> pj_identity = who, pj_epoch = epoch, pj_observed_at_ns = observed,
             pj_backings = sort_key (\<lambda>b. ri_object_id (bk_identity b)) (rs_backings sc),
             pj_committed_bytes = rs_total sc, pj_active_views = views, pj_pending_handoffs = handoffs,
             pj_in_flight = flight \<rparr>))))))"

definition same_projection :: "Projection \<Rightarrow> Projection \<Rightarrow> bool" where
  "same_projection a b \<longleftrightarrow>
     pj_identity a = pj_identity b \<and> pj_epoch a = pj_epoch b \<and> pj_backings a = pj_backings b \<and>
     pj_committed_bytes a = pj_committed_bytes b \<and> pj_active_views a = pj_active_views b \<and>
     pj_pending_handoffs a = pj_pending_handoffs b \<and> pj_in_flight a = pj_in_flight b"

text \<open>\<^verbatim>\<open>read_until\<close> on a reader that gives at most \<open>limit\<close> bytes.\<close>

definition read_until_newline :: "nat \<Rightarrow> string \<Rightarrow> string" where
  "read_until_newline limit stream =
     (let s = take limit stream; line = takeWhile (\<lambda>c. c \<noteq> newline) s in
      if length line < length s then line @ [newline] else s)"

fun frame_fields :: "string list \<Rightarrow> kv \<Rightarrow> kv result" where
  "frame_fields [] fs = Inr fs"
| "frame_fields (item # items) fs =
     (case split_once (CHR ''='') item of
        None \<Rightarrow> Inl ''invalid broker frame''
      | Some (key, v) \<Rightarrow>
          if key = [] \<or> bt_get fs key \<noteq> None then Inl ''duplicate/empty broker field''
          else frame_fields items (bt_insert key v fs))"

definition query_broker :: "string result \<Rightarrow> Projection result" where
  "query_broker answer =
     rbind answer (\<lambda>stream.
       let buf = read_until_newline (MAX_FRAME + 1) stream in
       if MAX_FRAME < length buf \<or> buf = [] \<or> last buf \<noteq> newline then Inl ''invalid or oversized broker response''
       else if \<not> valid_utf8 (text_bytes (butlast buf)) then Inl ''invalid broker UTF-8''
       else rbind (frame_fields (split_on (CHR '';'') (butlast buf)) []) parse_projection)"

section \<open>The files of Linux\<close>

type_synonym filesystem = "string \<Rightarrow> string option"

text \<open>\<^verbatim>\<open>str::split_whitespace\<close>.\<close>

fun take_word :: "string \<Rightarrow> string \<times> string" where
  "take_word [] = ([], [])"
| "take_word (c # s) =
     (if first_space (c # s) \<noteq> None then ([], c # s) else (let (w, r) = take_word s in (c # w, r)))"

lemma take_word_shrinks: "length (snd (take_word s)) \<le> length s"
  by (induction s rule: take_word.induct) (auto split: prod.splits)

lemma trim_start_shrinks: "length (trim_start s) \<le> length s"
proof (induction s rule: trim_start.induct)
  case (1 s)
  then show ?case by (subst trim_start.simps) (force split: option.splits)
qed

lemma first_space_trimmed: "first_space (trim_start s) = None"
proof (induction s rule: trim_start.induct)
  case (1 s)
  then show ?case by (subst trim_start.simps) (auto split: option.splits)
qed

function split_whitespace :: "string \<Rightarrow> string list" where
  "split_whitespace s =
     (let t = trim_start s in
      if t = [] then [] else fst (take_word t) # split_whitespace (snd (take_word t)))"
  by pat_completeness auto
termination
proof (relation "measure length", goal_cases)
  case (2 s t)
  obtain c r where t: "t = c # r" using 2(2) by (cases t) auto
  then have "length (snd (take_word t)) < length t"
    using first_space_trimmed [of s] 2(1) take_word_shrinks [of r] by (auto split: prod.splits)
  then show ?case using trim_start_shrinks [of s] 2(1) by simp
qed simp

declare split_whitespace.simps [simp del]

fun insert_ids :: "nat list \<Rightarrow> (nat, unit) btreemap \<Rightarrow> (nat, unit) btreemap option" where
  "insert_ids [] ids = Some ids"
| "insert_ids (i # rest) ids = (if bt_get ids i \<noteq> None then None else insert_ids rest (bt_insert i () ids))"

definition parse_span :: "string \<Rightarrow> (nat \<times> nat) option" where
  "parse_span part =
     (case split_once (CHR ''-'') part of
        Some (a, b) \<Rightarrow>
          Option.bind (parse_unsigned 32 a) (\<lambda>i. map_option (\<lambda>j. (i, j)) (parse_unsigned 32 b))
      | None \<Rightarrow> map_option (\<lambda>i. (i, i)) (parse_unsigned 32 part))"

fun online_parts :: "string list \<Rightarrow> (nat, unit) btreemap \<Rightarrow> (nat, unit) btreemap option" where
  "online_parts [] ids = Some ids"
| "online_parts (part # parts) ids =
     Option.bind (parse_span part) (\<lambda>(start, stop).
       if stop < start \<or> 65535 < stop \<or> 4096 < stop - start then None
       else Option.bind (insert_ids [start..<stop + 1] ids) (online_parts parts))"

definition parse_online :: "string \<Rightarrow> nat list option" where
  "parse_online text =
     Option.bind (online_parts (split_on (CHR '','') (trim text)) []) (\<lambda>ids.
       if ids = [] then None else Some (map fst ids))"

fun meminfo_lines :: "string list \<Rightarrow> string \<Rightarrow> u64 option" where
  "meminfo_lines [] name = None"
| "meminfo_lines (line # lines) name =
     (case split_once (CHR '':'') line of
        None \<Rightarrow> None
      | Some (key, v) \<Rightarrow>
          if split_whitespace key = [] then None
          else if last (split_whitespace key) \<noteq> name then meminfo_lines lines name
          else case split_whitespace v of
            [kb, unit] \<Rightarrow>
              Option.bind (parse_u64 kb) (\<lambda>n. if unit \<noteq> ''kB'' then None else checked_mul n 1024)
          | _ \<Rightarrow> None)"

definition meminfo_bytes :: "string \<Rightarrow> string \<Rightarrow> u64 option" where
  "meminfo_bytes text name = meminfo_lines (text_lines text) name"

definition observe_physical :: "filesystem \<Rightarrow> PhysicalInventory" where
  "observe_physical files =
     \<lparr> ph_nodes = map_option (map (\<lambda>node.
         \<lparr> nn_node = node,
           nn_total_bytes = Option.bind (files (''/sys/devices/system/node/node'' @ show_nat node @ ''/meminfo''))
             (\<lambda>t. meminfo_bytes t ''MemTotal''),
           nn_provenance = ''/sys/devices/system/node/online and node*/meminfo'' \<rparr>))
         (Option.bind (files ''/sys/devices/system/node/online'') parse_online),
       ph_provenance = ''Linux sysfs online inventory; unknown on read/parse failure'',
       ph_page_residency = ''unknown: no page residency measurement'',
       ph_memory_technology = ''unknown: sysfs node meminfo does not establish DDR versus HBM'' \<rparr>"

definition read_num :: "filesystem \<Rightarrow> string \<Rightarrow> u64 option" where
  "read_num files path =
     Option.bind (files path) (\<lambda>t. if trim t = ''max'' then Some u64_max else parse_u64 (trim t))"

definition observe_available :: "filesystem \<Rightarrow> u64 option" where
  "observe_available files =
     Option.bind (files ''/proc/meminfo'') (\<lambda>t.
     Option.bind (meminfo_bytes t ''MemAvailable'') (\<lambda>available.
     map_option (\<lambda>remaining. min available remaining)
       (case (read_num files ''/sys/fs/cgroup/memory.max'', read_num files ''/sys/fs/cgroup/memory.current'') of
          (Some limit, Some current) \<Rightarrow> Some (saturating_sub limit current)
        | _ \<Rightarrow>
            Option.bind (read_num files ''/sys/fs/cgroup/memory/memory.limit_in_bytes'') (\<lambda>limit.
            map_option (saturating_sub limit) (read_num files ''/sys/fs/cgroup/memory/memory.usage_in_bytes'')))))"

section \<open>Budgets and capabilities\<close>

definition usable :: "DdrBacking \<Rightarrow> bool" where
  "usable b \<longleftrightarrow> bk_owner_alive b \<and> bk_state b = ''active'' \<and> \<not> bk_reclaimed b"

type_synonym pool_map = "(string \<times> u64, u64 \<times> bool) btreemap"

definition pool_entry :: "DdrBacking \<Rightarrow> pool_map \<Rightarrow> pool_map result" where
  "pool_entry b m =
     (let key = (ri_owner_incarnation (bk_identity b), ri_pool_generation (bk_identity b));
          (retained, active) = (case bt_get m key of Some e \<Rightarrow> e | None \<Rightarrow> (0, False)) in
      case (if bk_reclaimed b then Some retained else checked_add retained (bk_size_bytes b)) of
        None \<Rightarrow> Inl ''pool overflow''
      | Some bytes \<Rightarrow> Inr (bt_insert key (bytes, active \<or> usable b) m))"

fun pool_entries :: "DdrBacking list \<Rightarrow> pool_map \<Rightarrow> pool_map result" where
  "pool_entries [] m = Inr m"
| "pool_entries (b # bs) m = rbind (pool_entry b m) (pool_entries bs)"

text \<open>The budget is dealt out over the active pools; \<open>left\<close> of them have not had their slice.\<close>

fun deal_budget :: "u64 \<Rightarrow> u64 \<Rightarrow> pool_map \<Rightarrow> PoolBudget list" where
  "deal_budget remaining left [] = []"
| "deal_budget remaining left (((owner, gen), (retained, active)) # m) =
     (let slice = (if active then remaining div left else 0) in
      \<lparr> pb_owner_incarnation = owner, pb_pool_generation = gen, pb_retained_bytes = retained,
        pb_advisory_additional_bytes = slice, pb_reservable_bytes = 0 \<rparr>
      # deal_budget (remaining - slice) (if active then left - 1 else left) m)"

definition pools :: "DdrBacking list \<Rightarrow> u64 \<Rightarrow> PoolBudget list result" where
  "pools backings budget =
     rbind (pool_entries backings []) (\<lambda>m.
       Inr (deal_budget budget (of_nat (length (filter (\<lambda>(_, (_, active)). active) m))) m))"

fun active_domains :: "DdrBacking list \<Rightarrow> (string, unit) btreemap" where
  "active_domains [] = []"
| "active_domains (b # bs) =
     (if usable b then bt_insert (ri_owner_incarnation (bk_identity b)) () (active_domains bs) else active_domains bs)"

definition directed_capability :: "DdrBacking \<Rightarrow> string \<Rightarrow> DdrOperation \<Rightarrow> DirectedCapability" where
  "directed_capability b domain operation =
     \<lparr> dc_source = bk_identity b, dc_destination_address_domain = domain, dc_operation = operation,
       dc_support = (if operation = CopyRange \<or> \<not> usable b then Unsupported else SupportUnknown),
       dc_allowed_offset_bytes = 0, dc_allowed_bytes = bk_size_bytes b,
       dc_permission = (if operation = MapRead then ''read-only'' else ''not available''),
       dc_provenance = ''T1 broker projection and T1 contract; no directed runtime probe'',
       dc_limitations = ''same UID cooperative; broker range checks only; FD covers full backing; no page-residency or performance proof'' \<rparr>"

definition directed_capabilities :: "DdrBacking list \<Rightarrow> DirectedCapability list" where
  "directed_capabilities backings =
     concat (map (\<lambda>b. concat (map (\<lambda>domain.
       map (directed_capability b domain) [MapRead, CopyRange]) (map fst (active_domains backings)))) backings)"

section \<open>Snapshots\<close>

definition discovery_new :: "DiscoveryConfig \<Rightarrow> DdrDiscovery result" where
  "discovery_new config =
     (if trim (cfg_realm config) = [] \<or> cfg_max_age config = 0
      then Inl ''realm and non-zero freshness limit required''
      else Inr \<lparr> dd_config = config, dd_last = None, dd_topology_generation = 0, dd_capability_generation = 0 \<rparr>)"

text \<open>Everything one snapshot reads from outside: clocks, two broker answers, the files at four moments.\<close>

record observation =
  obs_start :: nat
  obs_wall_start :: "nat result"
  obs_first :: "string result"
  obs_physical_a :: filesystem
  obs_capacity_a :: filesystem
  obs_physical_b :: filesystem
  obs_capacity_b :: filesystem
  obs_second :: "string result"
  obs_wall_end :: "nat result"
  obs_elapsed :: nat

record sampled =
  sm_projection :: Projection
  sm_physical :: PhysicalInventory
  sm_available :: u64
  sm_wall_end :: nat

text \<open>The two observations, accepted only if they agree and lie in the sampling interval.\<close>

definition take_sample :: "DiscoveryConfig \<Rightarrow> observation \<Rightarrow> sampled result" where
  "take_sample config obs =
     rbind (obs_wall_start obs) (\<lambda>wall_start.
     rbind (query_broker (obs_first obs)) (\<lambda>first.
       let physical_a = observe_physical (obs_physical_a obs); capacity_a = observe_available (obs_capacity_a obs);
           physical_b = observe_physical (obs_physical_b obs); capacity_b = observe_available (obs_capacity_b obs) in
     rbind (query_broker (obs_second obs)) (\<lambda>second.
     rbind (obs_wall_end obs) (\<lambda>wall_end.
       if wall_end < wall_start \<or> cfg_max_age config < obs_elapsed obs
       then Inl ''clock changed or observation exceeded freshness limit''
       else if pj_observed_at_ns first < wall_start \<or> wall_end < pj_observed_at_ns second \<or>
               pj_observed_at_ns second < pj_observed_at_ns first
       then Inl ''broker observation time outside local sampling interval''
       else if \<not> same_projection first second \<or> physical_a \<noteq> physical_b
       then Inl ''broker or NUMA inventory changed during observation; retry''
       else Inr \<lparr> sm_projection = second, sm_physical = physical_b,
                  sm_available = (case (capacity_a, capacity_b) of (Some a, Some b) \<Rightarrow> min a b | _ \<Rightarrow> 0),
                  sm_wall_end = wall_end \<rparr>))))"

definition fingerprint_of :: "sampled \<Rightarrow> Fingerprint" where
  "fingerprint_of sm =
     \<lparr> fp_identity = pj_identity (sm_projection sm), fp_epoch = pj_epoch (sm_projection sm),
       fp_physical = sm_physical sm, fp_backings = pj_backings (sm_projection sm) \<rparr>"

text \<open>The revisions advance together when anything the fingerprint covers has changed.\<close>

definition advance_revisions :: "Fingerprint \<Rightarrow> DdrDiscovery \<Rightarrow> unit result \<times> DdrDiscovery" where
  "advance_revisions fp d =
     (if dd_last d = Some fp then (Inr (), d)
      else case checked_add (dd_topology_generation d) 1 of
        None \<Rightarrow> (Inl ''topology revision overflow'', d)
      | Some topology \<Rightarrow>
          let d = d\<lparr> dd_topology_generation := topology \<rparr> in
          (case checked_add (dd_capability_generation d) 1 of
             None \<Rightarrow> (Inl ''capability revision overflow'', d)
           | Some capability \<Rightarrow> (Inr (), d\<lparr> dd_capability_generation := capability, dd_last := Some fp \<rparr>)))"

definition snapshot_of :: "DdrDiscovery \<Rightarrow> observation \<Rightarrow> sampled \<Rightarrow> u64 \<Rightarrow> PoolBudget list \<Rightarrow> DdrSnapshot" where
  "snapshot_of d obs sm budget ps =
     (let pj = sm_projection sm; config = dd_config d in
      \<lparr> sn_realm = cfg_realm config, sn_identity = pj_identity pj, sn_epoch = pj_epoch pj,
        sn_topology_generation = dd_topology_generation d, sn_capability_generation = dd_capability_generation d,
        sn_observed_at_unix_ns = sm_wall_end sm, sn_observed_duration = obs_elapsed obs,
        sn_physical = sm_physical sm, sn_backings = pj_backings pj, sn_committed_bytes = pj_committed_bytes pj,
        sn_active_views = pj_active_views pj, sn_pending_handoffs = pj_pending_handoffs pj,
        sn_in_flight = pj_in_flight pj, sn_host_budget_limit_bytes = cfg_host_budget_limit_bytes config,
        sn_advisory_unallocated_bytes = budget, sn_pools = ps,
        sn_capabilities = directed_capabilities (pj_backings pj),
        sn_provenance = ''GetExternalDdrSnapshot under T1 catalog lock; /sys node online and node meminfo; /proc/meminfo and /sys/fs/cgroup'',
        sn_unknowns = ''per-backing NUMA, page residency, link reachability, technology of each NUMA node, performance, owner lease id, destination leases'',
        sn_captured_at = obs_start obs, sn_max_age = cfg_max_age config,
        sn_source_observed_at_unix_ns = pj_observed_at_ns pj \<rparr>)"

definition discovery_snapshot :: "observation \<Rightarrow> DdrDiscovery \<Rightarrow> DdrSnapshot result \<times> DdrDiscovery" where
  "discovery_snapshot obs d =
     (case take_sample (dd_config d) obs of
        Inl e \<Rightarrow> (Inl e, d)
      | Inr sm \<Rightarrow>
          (case advance_revisions (fingerprint_of sm) d of
             (Inl e, d) \<Rightarrow> (Inl e, d)
           | (Inr _, d) \<Rightarrow>
               let remaining_cap = saturating_sub (cfg_host_budget_limit_bytes (dd_config d)) (pj_committed_bytes (sm_projection sm));
                   budget = min (sm_available sm) remaining_cap in
               (case pools (pj_backings (sm_projection sm)) budget of
                  Inl e \<Rightarrow> (Inl e, d)
                | Inr ps \<Rightarrow> (Inr (snapshot_of d obs sm budget ps), d))))"

text \<open>
  The guard before a side effect; \<open>before\<close> and \<open>after\<close> are the monotonic clock at its two age checks, \<open>now\<close>
  the wall clock.
\<close>

definition stale :: "DdrSnapshot \<Rightarrow> DdrSnapshot \<Rightarrow> bool" where
  "stale previous current \<longleftrightarrow>
     sn_identity previous \<noteq> sn_identity current \<or> sn_epoch previous \<noteq> sn_epoch current \<or>
     sn_topology_generation previous \<noteq> sn_topology_generation current \<or>
     sn_capability_generation previous \<noteq> sn_capability_generation current \<or>
     sn_physical previous \<noteq> sn_physical current \<or> sn_backings previous \<noteq> sn_backings current"

definition guard_resource :: "DdrSnapshot \<Rightarrow> ResourceIdentity \<Rightarrow> u64 \<Rightarrow> u64 \<Rightarrow> unit result" where
  "guard_resource current resource offset nbytes =
     (case List.find (\<lambda>b. bk_identity b = resource) (sn_backings current) of
        None \<Rightarrow> Inl ''stale resource identity''
      | Some b \<Rightarrow>
          if \<not> bk_owner_alive b \<or> bk_state b \<noteq> ''active'' \<or> bk_reclaimed b then Inl ''resource not active''
          else if nbytes = 0 \<or>
                  (case checked_add offset nbytes of None \<Rightarrow> True | Some stop \<Rightarrow> bk_size_bytes b < stop)
          then Inl ''resource range out of bounds''
          else Inr ())"

definition guard ::
  "nat \<Rightarrow> nat result \<Rightarrow> observation \<Rightarrow> nat \<Rightarrow> DdrSnapshot \<Rightarrow> ResourceIdentity \<Rightarrow> u64 \<Rightarrow> u64 \<Rightarrow>
     DdrDiscovery \<Rightarrow> DdrSnapshot result \<times> DdrDiscovery" where
  "guard before now obs after previous resource offset nbytes d =
     (let config = dd_config d in
      if sn_realm previous \<noteq> cfg_realm config \<or> sn_max_age previous \<noteq> cfg_max_age config \<or>
         sn_host_budget_limit_bytes previous \<noteq> cfg_host_budget_limit_bytes config \<or>
         cfg_max_age config < before - sn_captured_at previous
      then (Inl ''stale snapshot or realm mismatch'', d)
      else case now of
        Inl e \<Rightarrow> (Inl e, d)
      | Inr wall \<Rightarrow>
          if wall < sn_observed_at_unix_ns previous \<or> wall < sn_source_observed_at_unix_ns previous
          then (Inl ''wall clock moved backwards'', d)
          else (case discovery_snapshot obs d of
              (Inl e, d) \<Rightarrow> (Inl e, d)
            | (Inr current, d) \<Rightarrow>
                if stale previous current
                then (Inl ''stale broker, epoch, generation, topology or resources'', d)
                else (case guard_resource current resource offset nbytes of
                    Inl e \<Rightarrow> (Inl e, d)
                  | Inr _ \<Rightarrow>
                      if cfg_max_age config < after - sn_captured_at previous
                      then (Inl ''snapshot expired during guard'', d)
                      else (Inr current, d))))"

section \<open>Capability evidence\<close>

record CapabilityEvidence =
  ce_source :: ResourceIdentity
  ce_destination_address_domain :: string
  ce_destination_pool_generation :: u64
  ce_realm :: string
  ce_epoch :: u64
  ce_topology_generation :: u64
  ce_capability_generation :: u64
  ce_operation :: DdrOperation
  ce_offset :: u64
  ce_bytes :: u64
  ce_expires_at_unix_ns :: nat
  ce_provenance :: string
  ce_proof :: bytes

text \<open>
  \<open>now\<close> is the wall clock and \<open>age\<close> the time since the snapshot, each read at its place in the check;
  \<open>verifier\<close> is the trait object the caller passes.
\<close>

definition evidence_scoped :: "DdrSnapshot \<Rightarrow> CapabilityEvidence \<Rightarrow> bool" where
  "evidence_scoped s e \<longleftrightarrow>
     ce_provenance e \<noteq> [] \<and> ce_proof e \<noteq> [] \<and> ce_epoch e = sn_epoch s \<and> ce_realm e = sn_realm s \<and>
     ce_topology_generation e = sn_topology_generation s \<and> ce_capability_generation e = sn_capability_generation s"

definition verify_capability_evidence ::
  "nat result \<Rightarrow> nat \<Rightarrow> DdrSnapshot \<Rightarrow> CapabilityEvidence \<Rightarrow> (CapabilityEvidence \<Rightarrow> bool) \<Rightarrow> Support result" where
  "verify_capability_evidence now age s e verifier =
     (let unscoped = Inl ''missing, stale or unscoped capability evidence'' in
      if \<not> evidence_scoped s e then unscoped
      else rbind now (\<lambda>wall.
        if ce_expires_at_unix_ns e \<le> wall \<or> sn_max_age s < age then unscoped
        else case List.find (\<lambda>c. dc_source c = ce_source e \<and>
                    dc_destination_address_domain c = ce_destination_address_domain e \<and>
                    dc_operation c = ce_operation e) (sn_capabilities s) of
          None \<Rightarrow> Inl ''unknown directed route''
        | Some cap \<Rightarrow>
            if \<not> list_ex (\<lambda>b. bk_identity b = ce_source e \<and> bk_owner_alive b \<and> bk_state b = ''active'' \<and>
                          \<not> bk_reclaimed b) (sn_backings s) \<or>
               \<not> list_ex (\<lambda>p. pb_owner_incarnation p = ce_destination_address_domain e \<and>
                          pb_pool_generation p = ce_destination_pool_generation e) (sn_pools s)
            then Inl ''retired route cannot be upgraded''
            else if ce_bytes e = 0 \<or>
                    (case checked_add (ce_offset e) (ce_bytes e) of
                       None \<Rightarrow> True | Some stop \<Rightarrow> dc_allowed_bytes cap < stop) \<or>
                    \<not> verifier e
            then Inl ''invalid evidence or range''
            else Inr Supported))"

end
