(* ===== verification/JsonLaws.thy ===== *)
theory JsonLaws
  imports Json
begin

text \<open>
  The parser consumes input with every value, so the fuel of its loops never matters; what it accepts
  is a value of bounded depth with distinct plain keys and 128-bit numbers; and it reads back the
  compact text of every such value.
\<close>

section \<open>Consumption\<close>

declare json_items.simps [simp del] json_fields.simps [simp del]

lemma advance_sel [simp]: "ps_rest (advance n p) = drop n (ps_rest p)" "ps_pos (advance n p) = ps_pos p + n"
  by (simp_all add: advance_def)

lemma json_space_shrinks: "length (ps_rest (json_space p)) \<le> length (ps_rest p)"
  by (simp add: json_space_def)

lemma peek_Some: "peek p = Some c \<Longrightarrow> \<exists>cs. ps_rest p = c # cs"
  by (simp add: peek_def split: list.splits)

lemma json_take_shrinks: "json_take c p = Inr (u, p') \<Longrightarrow> length (ps_rest p') < length (ps_rest p)"
  using json_space_shrinks [of p] by (auto simp: json_take_def Let_def dest!: peek_Some split: if_splits)

lemma json_string_shrinks: "json_string p = Inr (s, p') \<Longrightarrow> length (ps_rest p') < length (ps_rest p)"
  by (auto simp: json_string_def rbind_Inr_iff dest!: json_take_shrinks split: if_splits)

text \<open>A parser of values that consumes input.\<close>

definition consumes :: "(Parser \<Rightarrow> Value parsed) \<Rightarrow> bool" where
  "consumes val \<longleftrightarrow> (\<forall>p v p'. val p = Inr (v, p') \<longrightarrow> length (ps_rest p') < length (ps_rest p))"

lemma consumesD: "consumes val \<Longrightarrow> val p = Inr (v, p') \<Longrightarrow> length (ps_rest p') < length (ps_rest p)"
  by (simp add: consumes_def)

lemma json_items_shrinks:
  "consumes val \<Longrightarrow> json_items val n items p = Inr (vs, p') \<Longrightarrow> length (ps_rest p') < length (ps_rest p)"
proof (induction n arbitrary: items p)
  case (Suc n)
  then obtain v q where v: "val p = Inr (v, q)" by (auto simp: json_items.simps rbind_Inr_iff)
  note sh = consumesD [OF Suc.prems(1) v] json_space_shrinks [of q]
  show ?case
  proof (cases "peek (json_space q) = Some (CHR '','')")
    case True
    then have "length (ps_rest p') < length (ps_rest (advance 1 (json_space q)))"
      using Suc.prems v by (intro Suc.IH) (simp_all add: Let_def json_items.simps)
    then show ?thesis using sh by simp
  next
    case False
    then show ?thesis using Suc.prems(2) v sh by (auto simp: Let_def json_items.simps)
  qed
qed (simp add: json_items.simps)

lemma json_fields_shrinks:
  "consumes val \<Longrightarrow> json_fields val n fs p = Inr (vs, p') \<Longrightarrow> length (ps_rest p') < length (ps_rest p)"
proof (induction n arbitrary: fs p)
  case (Suc n)
  then obtain name q1 q2 v q where s: "json_string p = Inr (name, q1)" and t: "json_take (CHR '':'') q1 = Inr ((), q2)"
    and v: "val q2 = Inr (v, q)" and fresh: "bt_get fs name = None"
    by (auto simp: json_fields.simps rbind_Inr_iff split: if_splits)
  note sh = json_string_shrinks [OF s] json_take_shrinks [OF t] consumesD [OF Suc.prems(1) v] json_space_shrinks [of q]
  show ?case
  proof (cases "peek (json_space q) = Some (CHR '','')")
    case True
    then have "length (ps_rest p') < length (ps_rest (advance 1 (json_space q)))"
      using Suc.prems s t v fresh by (intro Suc.IH) (simp_all add: Let_def json_fields.simps)
    then show ?thesis using sh by simp
  next
    case False
    then show ?thesis using Suc.prems(2) s t v fresh sh by (auto simp: Let_def json_fields.simps)
  qed
qed (simp add: json_fields.simps)

lemma json_array_shrinks:
  assumes "consumes val" and "json_array val p = Inr (v, p')"
  shows "length (ps_rest p') < length (ps_rest p)"
proof -
  obtain q1 items q2 where 1: "json_take (CHR ''['') p = Inr ((), q1)"
    and 2: "(if peek (json_space q1) \<noteq> Some (CHR '']'') then json_items val (length (ps_rest (json_space q1)) + 1) [] (json_space q1)
             else Inr ([], json_space q1)) = Inr (items, q2)"
    and 3: "json_take (CHR '']'') q2 = Inr ((), p')"
    using assms(2) by (auto simp: json_array_def rbind_Inr_iff Let_def)
  have "length (ps_rest q2) \<le> length (ps_rest q1)"
    using 2 json_space_shrinks [of q1]
    by (auto dest!: json_items_shrinks [OF assms(1)] split: if_splits)
  then show ?thesis using json_take_shrinks [OF 1] json_take_shrinks [OF 3] by linarith
qed

lemma json_object_shrinks:
  assumes "consumes val" and "json_object val p = Inr (v, p')"
  shows "length (ps_rest p') < length (ps_rest p)"
proof -
  obtain q1 fs q2 where 1: "json_take (CHR 0x7B) p = Inr ((), q1)"
    and 2: "(if peek (json_space q1) \<noteq> Some (CHR 0x7D) then json_fields val (length (ps_rest (json_space q1)) + 1) [] (json_space q1)
             else Inr ([], json_space q1)) = Inr (fs, q2)"
    and 3: "json_take (CHR 0x7D) q2 = Inr ((), p')"
    using assms(2) by (auto simp: json_object_def rbind_Inr_iff Let_def)
  have "length (ps_rest q2) \<le> length (ps_rest q1)"
    using 2 json_space_shrinks [of q1]
    by (auto dest!: json_fields_shrinks [OF assms(1)] split: if_splits)
  then show ?thesis using json_take_shrinks [OF 1] json_take_shrinks [OF 3] by linarith
qed

lemma json_literal_shrinks:
  "json_literal (c # cs) v p = Inr (w, p') \<Longrightarrow> length (ps_rest p') < length (ps_rest p)"
  by (cases "ps_rest p") (auto simp: json_literal_def split: if_splits)

lemma json_number_shrinks:
  "json_number p = Inr (v, p') \<Longrightarrow> peek p = Some c \<Longrightarrow> ascii_digit c \<Longrightarrow> length (ps_rest p') < length (ps_rest p)"
  by (auto simp: json_number_def Let_def dest!: peek_Some split: if_splits option.splits)

lemma json_value_consumes: "consumes (json_value levels)"
proof (induction levels)
  case (Suc levels)
  show ?case
    unfolding consumes_def
  proof (intro allI impI)
    fix p v p' assume v: "json_value (Suc levels) p = Inr (v, p')"
    then obtain c where c: "peek (json_space p) = Some c" by (auto simp: Let_def split: option.splits)
    have "length (ps_rest p') < length (ps_rest (json_space p))"
      using v c json_array_shrinks [OF Suc] json_object_shrinks [OF Suc] json_number_shrinks [OF _ c]
      by (auto simp: Let_def rbind_Inr_iff dest: json_string_shrinks json_literal_shrinks split: if_splits)
    then show "length (ps_rest p') < length (ps_rest p)" using json_space_shrinks [of p] by linarith
  qed
qed (simp add: consumes_def)

text \<open>The fuel of the loops never runs out.\<close>

lemma json_items_fuel:
  assumes "consumes val" and "length (ps_rest p) < n" and "length (ps_rest p) < m"
  shows "json_items val n items p = json_items val m items p"
  using assms(2,3)
proof (induction n arbitrary: m items p)
  case (Suc n)
  obtain m' where m: "m = Suc m'" using Suc.prems(2) by (cases m) auto
  have "json_items val n is (advance 1 (json_space q)) = json_items val m' is (advance 1 (json_space q))"
    if "val p = Inr (v, q)" for v q "is"
    using consumesD [OF assms(1) that] json_space_shrinks [of q] Suc.prems m by (intro Suc.IH) simp_all
  then show ?case by (auto simp: m rbind_def Let_def json_items.simps split: sum.splits)
qed (simp add: json_items.simps)

lemma json_fields_fuel:
  assumes "consumes val" and "length (ps_rest p) < n" and "length (ps_rest p) < m"
  shows "json_fields val n fs p = json_fields val m fs p"
  using assms(2,3)
proof (induction n arbitrary: m fs p)
  case (Suc n)
  obtain m' where m: "m = Suc m'" using Suc.prems(2) by (cases m) auto
  have "json_fields val n gs (advance 1 (json_space q)) = json_fields val m' gs (advance 1 (json_space q))"
    if "json_string p = Inr (name, q1)" "json_take (CHR '':'') q1 = Inr (u, q2)" "val q2 = Inr (v, q)" for name q1 u q2 v q gs
    using json_string_shrinks [OF that(1)] json_take_shrinks [OF that(2)] consumesD [OF assms(1) that(3)]
      json_space_shrinks [of q] Suc.prems m by (intro Suc.IH) simp_all
  then show ?case by (auto simp: m rbind_def Let_def json_fields.simps split: sum.splits)
qed (simp add: json_fields.simps)

section \<open>What is accepted\<close>

definition plain_string :: "string \<Rightarrow> bool" where
  "plain_string s \<longleftrightarrow> valid_utf8 (map of_char s) \<and>
     list_all (\<lambda>c. c \<noteq> QUOTE \<and> c \<noteq> BACKSLASH \<and> 0x20 \<le> (of_char c :: nat)) s"

text \<open>Visible ASCII characters other than the quote and the backslash are plain: the test evaluation tries first.\<close>

definition plain_ascii :: "char \<Rightarrow> bool" where
  "plain_ascii c \<longleftrightarrow> \<not> digit7 c \<and> (digit6 c \<or> digit5 c) \<and> c \<noteq> QUOTE \<and> c \<noteq> BACKSLASH"

lemma digits_visible: "digit6 c \<or> digit5 c \<Longrightarrow> 0x20 \<le> (of_char c :: nat)"
  by (cases c) (auto simp: of_char_def)

lemma plain_string_ascii: "list_all plain_ascii s \<Longrightarrow> plain_string s"
  using valid_utf8_digit7 [of s] digits_visible by (auto simp: plain_string_def plain_ascii_def list_all_iff)

lemma plain_string_code [code]:
  "plain_string s \<longleftrightarrow> list_all plain_ascii s \<or> valid_utf8 (map of_char s) \<and>
     list_all (\<lambda>c. c \<noteq> QUOTE \<and> c \<noteq> BACKSLASH \<and> 0x20 \<le> (of_char c :: nat)) s"
  using plain_string_ascii by (auto simp: plain_string_def)

primrec value_wf :: "nat \<Rightarrow> Value \<Rightarrow> bool" where
  "value_wf 0 v = False"
| "value_wf (Suc levels) v =
     (case v of
        JObject fs \<Rightarrow> bt_wf fs \<and> (\<forall>(name, w) \<in> set fs. plain_string name \<and> value_wf levels w)
      | JArray vs \<Rightarrow> (\<forall>w \<in> set vs. value_wf levels w)
      | JString s \<Rightarrow> plain_string s
      | JNumber n \<Rightarrow> n < 2 ^ 128
      | JBool b \<Rightarrow> True
      | JNull \<Rightarrow> True)"

lemma string_body_plain:
  "string_body cs = Inr s \<Longrightarrow> list_all (\<lambda>c. c \<noteq> QUOTE \<and> c \<noteq> BACKSLASH \<and> 0x20 \<le> (of_char c :: nat)) s"
proof (induction cs arbitrary: s)
  case (Cons c cs)
  then show ?case by (cases "string_body cs") (auto split: if_splits)
qed simp

lemma json_string_plain: "json_string p = Inr (s, p') \<Longrightarrow> plain_string s"
  by (auto simp: json_string_def rbind_Inr_iff plain_string_def dest!: string_body_plain split: if_splits)

lemma json_items_all:
  assumes "\<And>p v p'. val p = Inr (v, p') \<Longrightarrow> P v"
  shows "json_items val n items p = Inr (vs, p') \<Longrightarrow> \<forall>v \<in> set items. P v \<Longrightarrow> \<forall>v \<in> set vs. P v"
proof (induction n arbitrary: items p)
  case (Suc n)
  then obtain v q where v: "val p = Inr (v, q)" by (auto simp: json_items.simps rbind_Inr_iff)
  have all: "\<forall>w \<in> set (items @ [v]). P w" using assms [OF v] Suc.prems(2) by simp
  show ?case
  proof (cases "peek (json_space q) = Some (CHR '','')")
    case True
    then have "json_items val n (items @ [v]) (advance 1 (json_space q)) = Inr (vs, p')"
      using Suc.prems(1) v by (simp add: Let_def json_items.simps)
    then show ?thesis using all by (rule Suc.IH)
  next
    case False
    then have "vs = items @ [v]" using Suc.prems(1) v by (simp add: Let_def json_items.simps)
    then show ?thesis using all by simp
  qed
qed (simp add: json_items.simps)

lemma bt_insert_subset: "set (bt_insert k v m) \<subseteq> insert (k, v) (set m)"
  by (induction k v m rule: bt_insert.induct) auto

lemma json_fields_all:
  assumes "\<And>p v p'. val p = Inr (v, p') \<Longrightarrow> P v"
  shows "json_fields val n fs p = Inr (gs, p') \<Longrightarrow> bt_wf fs \<Longrightarrow> \<forall>(name, v) \<in> set fs. plain_string name \<and> P v \<Longrightarrow>
    bt_wf gs \<and> (\<forall>(name, v) \<in> set gs. plain_string name \<and> P v)"
proof (induction n arbitrary: fs p)
  case (Suc n)
  then obtain name q1 q2 v q where s: "json_string p = Inr (name, q1)" and t: "json_take (CHR '':'') q1 = Inr ((), q2)"
    and v: "val q2 = Inr (v, q)" and fresh: "bt_get fs name = None"
    by (auto simp: json_fields.simps rbind_Inr_iff split: if_splits)
  have all: "bt_wf (bt_insert name v fs)" "\<forall>(name, v) \<in> set (bt_insert name v fs). plain_string name \<and> P v"
    using Suc.prems(2,3) bt_insert_subset [of name v fs] json_string_plain [OF s] assms [OF v] by auto
  show ?case
  proof (cases "peek (json_space q) = Some (CHR '','')")
    case True
    then have "json_fields val n (bt_insert name v fs) (advance 1 (json_space q)) = Inr (gs, p')"
      using Suc.prems(1) s t v fresh by (simp add: Let_def json_fields.simps)
    then show ?thesis using all by (rule Suc.IH)
  next
    case False
    then have "gs = bt_insert name v fs" using Suc.prems(1) s t v fresh by (simp add: Let_def json_fields.simps)
    then show ?thesis using all by simp
  qed
qed (simp add: json_fields.simps)

lemma json_value_wf: "json_value levels p = Inr (v, p') \<Longrightarrow> value_wf levels v"
proof (induction levels arbitrary: p v p')
  case (Suc levels)
  let ?val = "json_value levels"
  have arr: "value_wf (Suc levels) w" if "json_array ?val q = Inr (w, q')" for q w q'
    using that json_items_all [where val = ?val and P = "value_wf levels", OF Suc.IH]
    by (fastforce simp: json_array_def rbind_Inr_iff Let_def split: if_splits)
  have obj: "value_wf (Suc levels) w" if "json_object ?val q = Inr (w, q')" for q w q'
    using that json_fields_all [where val = ?val and P = "value_wf levels", OF Suc.IH]
    by (fastforce simp: json_object_def rbind_Inr_iff Let_def bt_wf_def [of "[]"] split: if_splits)
  have num: "value_wf (Suc levels) w" if "json_number q = Inr (w, q')" for q w q'
    using that by (auto simp: json_number_def parse_unsigned_def Let_def split: if_splits option.splits)
  obtain c where c: "peek (json_space p) = Some c" using Suc.prems by (auto simp: Let_def split: option.splits)
  show ?case
    using Suc.prems c arr obj num
    by (auto simp: Let_def rbind_Inr_iff json_literal_def dest: json_string_plain split: if_splits)
qed simp

section \<open>The compact text of a value\<close>

definition quoted :: "string \<Rightarrow> string" where
  "quoted s = QUOTE # s @ [QUOTE]"

primrec value_text :: "nat \<Rightarrow> Value \<Rightarrow> string" where
  "value_text 0 v = []"
| "value_text (Suc levels) v =
     (case v of
        JObject fs \<Rightarrow> CHR 0x7B # join '','' (map (\<lambda>(name, w). quoted name @ '':'' @ value_text levels w) fs) @ [CHR 0x7D]
      | JArray vs \<Rightarrow> CHR ''['' # join '','' (map (value_text levels) vs) @ '']''
      | JString s \<Rightarrow> quoted s
      | JNumber n \<Rightarrow> show_nat n
      | JBool b \<Rightarrow> show_bool b
      | JNull \<Rightarrow> ''null'')"

abbreviation at_pos :: "nat \<Rightarrow> string \<Rightarrow> Parser" where
  "at_pos pos cs \<equiv> \<lparr> ps_pos = pos, ps_rest = cs \<rparr>"

lemma advance_append [simp]: "advance (length a) (at_pos pos (a @ t)) = at_pos (pos + length a) t"
  by (simp add: advance_def)

lemma advance_one [simp]: "advance (Suc 0) (at_pos pos (c # t)) = at_pos (Suc pos) t"
  by (simp add: advance_def)

lemma peek_at [simp]: "peek (at_pos pos (c # t)) = Some c"
  by (simp add: peek_def)

lemma json_space_none [simp]: "\<not> ascii_space c \<Longrightarrow> json_space (at_pos pos (c # t)) = at_pos pos (c # t)"
  by (simp add: json_space_def advance_def)

lemma json_take_at: "\<not> ascii_space c \<Longrightarrow> json_take c (at_pos pos (c # t)) = Inr ((), at_pos (Suc pos) t)"
  by (simp add: json_take_def Let_def)

lemma separators [simp]:
  "\<not> ascii_space (CHR '','')" "\<not> ascii_space (CHR '':'')" "\<not> ascii_space (CHR ''['')" "\<not> ascii_space (CHR '']'')"
  "\<not> ascii_space (CHR 0x7B)" "\<not> ascii_space (CHR 0x7D)" "\<not> ascii_space QUOTE"
  by (simp_all add: ascii_space_def QUOTE_def)

lemma no_digit [simp]:
  "\<not> ascii_digit (CHR '','')" "\<not> ascii_digit (CHR '']'')" "\<not> ascii_digit (CHR 0x7D)" "\<not> ascii_digit (CHR ''['')"
  "\<not> ascii_digit (CHR 0x7B)"
  by (simp_all add: ascii_digit_def digit_val_def)

lemma string_body_quoted:
  "list_all (\<lambda>c. c \<noteq> QUOTE \<and> c \<noteq> BACKSLASH \<and> 0x20 \<le> (of_char c :: nat)) s \<Longrightarrow> string_body (s @ QUOTE # t) = Inr s"
  by (induction s) auto

lemma json_string_quoted:
  "plain_string s \<Longrightarrow> json_string (at_pos pos (quoted s @ t)) = Inr (s, at_pos (pos + length (quoted s)) t)"
  by (simp add: json_string_def quoted_def plain_string_def json_take_at string_body_quoted advance_def)

lemma digit_space: "ascii_digit c \<Longrightarrow> \<not> ascii_space c \<and> c \<noteq> QUOTE \<and> c \<notin> set ''tfn[]'' \<and> c \<noteq> CHR 0x7B \<and> c \<noteq> CHR 0x7D"
  by (auto simp: ascii_digit_def ascii_space_def digit_val_def QUOTE_def)

lemma show_nat_ascii: "c \<in> set (show_nat n) \<Longrightarrow> ascii_digit c"
  using show_nat_digits [of c n] by (auto simp: ascii_digit_def digit_val_def Let_def)

lemma hd_show_nat: "0 < n \<Longrightarrow> hd (show_nat n) \<noteq> CHR ''0''"
proof (induction n rule: show_nat.induct)
  case (1 n)
  show ?case
  proof (cases "n < 10")
    case True
    then have "digit_val (hd (show_nat n)) = Some n" by (simp add: show_nat.simps [of n])
    then show ?thesis using 1(2) by (auto simp: digit_val_def)
  next
    case False
    then show ?thesis using 1(1) by (simp add: show_nat.simps [of n])
  qed
qed

lemma show_nat_lead: "1 < length (show_nat n) \<Longrightarrow> hd (show_nat n) \<noteq> CHR ''0''"
  by (cases "n = 0") (auto simp: show_nat.simps [of 0] dest: hd_show_nat)

definition ends_number :: "string \<Rightarrow> bool" where
  "ends_number t \<longleftrightarrow> t = [] \<or> \<not> ascii_digit (hd t)"

lemma json_number_shown:
  assumes "n < 2 ^ 128" and "ends_number t"
  shows "json_number (at_pos pos (show_nat n @ t)) = Inr (JNumber n, at_pos (pos + length (show_nat n)) t)"
proof -
  have "takeWhile ascii_digit (show_nat n @ t) = show_nat n"
    using assms(2) show_nat_ascii by (cases t) (auto simp: ends_number_def takeWhile_append)
  then show ?thesis using assms(1) show_nat_lead [of n] parse_unsigned_show_nat [OF assms(1)]
    by (auto simp: json_number_def Let_def)
qed

lemma value_text_first:
  assumes "value_wf levels v"
  shows "\<exists>c cs. value_text levels v = c # cs \<and> \<not> ascii_space c \<and> c \<noteq> CHR '']''"
proof (cases levels)
  case (Suc k)
  show ?thesis
  proof (cases v)
    case (JNumber n)
    obtain c cs where n: "show_nat n = c # cs" using show_nat_nonempty [of n] by (meson neq_Nil_conv)
    then have "ascii_digit c" using show_nat_ascii [of c n] by simp
    then show ?thesis using digit_space n Suc JNumber by fastforce
  qed (use Suc in \<open>auto simp: quoted_def show_bool_def ascii_space_def QUOTE_def\<close>)
qed (use assms in simp)

text \<open>The value parser reads back the text of a value before any text that does not prolong a number.\<close>

definition reads_back :: "(Parser \<Rightarrow> Value parsed) \<Rightarrow> (Value \<Rightarrow> string) \<Rightarrow> Value \<Rightarrow> bool" where
  "reads_back val txt v \<longleftrightarrow> (\<forall>pos t. ends_number t \<longrightarrow>
     val (at_pos pos (txt v @ t)) = Inr (v, at_pos (pos + length (txt v)) t))"

lemma join_covers_pieces: "length ws \<le> Suc (length (join [c] ws))"
  by (induction "[c]" ws rule: join.induct) auto

lemma json_items_text:
  assumes "\<forall>v \<in> set vs. reads_back val txt v" and "vs \<noteq> []" and "length vs \<le> n"
  shows "json_items val n items (at_pos pos (join '','' (map txt vs) @ CHR '']'' # t)) =
    Inr (items @ vs, at_pos (pos + length (join '','' (map txt vs))) (CHR '']'' # t))"
  using assms
proof (induction vs arbitrary: n items pos)
  case (Cons v vs)
  note IH = Cons.IH and prems = Cons.prems
  obtain m where n: "n = Suc m" using Cons.prems(3) by (cases n) auto
  have v: "val (at_pos pos (txt v @ u)) = Inr (v, at_pos (pos + length (txt v)) u)" if "ends_number u" for u pos
    using Cons.prems(1) that by (simp add: reads_back_def)
  show ?case
  proof (cases vs)
    case Nil
    then show ?thesis using v [of "CHR '']'' # t"] by (simp add: n json_items.simps Let_def ends_number_def)
  next
    case (Cons w ws)
    have "json_items val m (items @ [v]) (at_pos (pos + length (txt v) + 1) (join '','' (map txt vs) @ CHR '']'' # t)) =
        Inr ((items @ [v]) @ vs, at_pos (pos + length (txt v) + 1 + length (join '','' (map txt vs))) (CHR '']'' # t))"
      by (rule IH) (use prems n Cons in simp_all)
    then show ?thesis
      using v [of "CHR '','' # join '','' (map txt vs) @ CHR '']'' # t"] Cons
      by (simp add: n json_items.simps Let_def ends_number_def add.assoc)
  qed
qed simp

lemma json_fields_text:
  assumes "\<forall>(name, v) \<in> set gs. plain_string name \<and> reads_back val txt v" and "gs \<noteq> []" and "length gs \<le> n"
    and "bt_wf (fs @ gs)"
  shows "json_fields val n fs (at_pos pos (join '','' (map (\<lambda>(name, w). quoted name @ '':'' @ txt w) gs) @ CHR 0x7D # t)) =
    Inr (fs @ gs, at_pos (pos + length (join '','' (map (\<lambda>(name, w). quoted name @ '':'' @ txt w) gs))) (CHR 0x7D # t))"
  using assms
proof (induction gs arbitrary: n fs pos)
  case (Cons g gs)
  note IH = Cons.IH and prems = Cons.prems
  let ?j = "\<lambda>gs. join '','' (map (\<lambda>(name, w). quoted name @ '':'' @ txt w) gs)"
  obtain m where n: "n = Suc m" using Cons.prems(3) by (cases n) auto
  obtain name v where g: "g = (name, v)" by fastforce
  have plain: "plain_string name"
    and v: "val (at_pos pos (txt v @ u)) = Inr (v, at_pos (pos + length (txt v)) u)" if "ends_number u" for u pos
    using Cons.prems(1) that by (auto simp: reads_back_def g)
  have above: "\<forall>x \<in> set fs. fst x < name"
    using Cons.prems(4) by (auto simp: bt_wf_def sorted_wrt_append g)
  then have fresh: "bt_get fs name = None" and ins: "bt_insert name v fs = fs @ [(name, v)]"
    by (auto simp: bt_get_def map_of_eq_None_iff bt_insert_snoc)
  have step: "json_fields val n fs (at_pos pos (quoted name @ '':'' @ txt v @ u)) =
      (let p = json_space (at_pos (pos + length (quoted name) + 1 + length (txt v)) u) in
       if peek p \<noteq> Some (CHR '','') then Inr (fs @ [(name, v)], p) else json_fields val m (fs @ [(name, v)]) (advance 1 p))"
    if "ends_number u" for u
    using json_string_quoted [OF plain [OF that], of pos] v [OF that] fresh ins
    by (simp add: n json_fields.simps json_take_at Let_def)
  show ?case
  proof (cases gs)
    case Nil
    then show ?thesis using step [of "CHR 0x7D # t"] by (simp add: g Let_def ends_number_def)
  next
    case (Cons h hs)
    have "json_fields val m (fs @ [(name, v)]) (at_pos (pos + length (quoted name) + 1 + length (txt v) + 1) (?j gs @ CHR 0x7D # t)) =
        Inr ((fs @ [(name, v)]) @ gs, at_pos (pos + length (quoted name) + 1 + length (txt v) + 1 + length (?j gs)) (CHR 0x7D # t))"
      by (rule IH) (use prems n g Cons in simp_all)
    then show ?thesis
      using step [of "CHR '','' # ?j gs @ CHR 0x7D # t"] Cons
      by (simp add: g Let_def ends_number_def add.assoc)
  qed
qed simp

lemma json_array_text:
  assumes "\<forall>v \<in> set vs. reads_back val txt v" and "\<forall>v \<in> set vs. \<exists>c cs. txt v = c # cs \<and> \<not> ascii_space c \<and> c \<noteq> CHR '']''"
  shows "json_array val (at_pos pos (CHR ''['' # join '','' (map txt vs) @ CHR '']'' # t)) =
    Inr (JArray vs, at_pos (pos + length (join '','' (map txt vs)) + 2) t)"
proof (cases vs)
  case Nil
  then show ?thesis by (simp add: json_array_def json_take_at Let_def)
next
  case (Cons v ws)
  let ?j = "join '','' (map txt vs)"
  obtain c cs where "txt v = c # cs" "\<not> ascii_space c" "c \<noteq> CHR '']''" using assms(2) Cons by auto
  then obtain cs' where j: "?j = c # cs'" "\<not> ascii_space c" "c \<noteq> CHR '']''" using Cons by (cases ws) auto
  have "length vs \<le> length (?j @ CHR '']'' # t) + 1" using join_covers_pieces [of "map txt vs" "CHR '',''"] by simp
  then have "json_items val (length (?j @ CHR '']'' # t) + 1) [] (at_pos (Suc pos) (?j @ CHR '']'' # t)) =
      Inr ([] @ vs, at_pos (Suc pos + length ?j) (CHR '']'' # t))"
    using Cons by (intro json_items_text [OF assms(1)]) auto
  then show ?thesis using j by (simp add: json_array_def json_take_at Let_def)
qed

lemma json_object_text:
  assumes "\<forall>(name, v) \<in> set fs. plain_string name \<and> reads_back val txt v" and "bt_wf fs"
  shows "json_object val (at_pos pos (CHR 0x7B # join '','' (map (\<lambda>(name, w). quoted name @ '':'' @ txt w) fs) @ CHR 0x7D # t)) =
    Inr (JObject fs, at_pos (pos + length (join '','' (map (\<lambda>(name, w). quoted name @ '':'' @ txt w) fs)) + 2) t)"
proof (cases fs)
  case Nil
  then show ?thesis by (simp add: json_object_def json_take_at Let_def)
next
  case (Cons f gs)
  let ?j = "join '','' (map (\<lambda>(name, w). quoted name @ '':'' @ txt w) fs)"
  obtain cs' where j: "?j = QUOTE # cs'" using Cons by (cases f; cases gs) (auto simp: quoted_def)
  have "length fs \<le> length (?j @ CHR 0x7D # t) + 1"
    using join_covers_pieces [of "map (\<lambda>(name, w). quoted name @ '':'' @ txt w) fs" "CHR '',''"] by simp
  then have "json_fields val (length (?j @ CHR 0x7D # t) + 1) [] (at_pos (Suc pos) (?j @ CHR 0x7D # t)) =
      Inr ([] @ fs, at_pos (Suc pos + length ?j) (CHR 0x7D # t))"
    using Cons assms(2) by (intro json_fields_text [OF assms(1)]) auto
  moreover have "QUOTE \<noteq> CHR 0x7D" by (simp add: QUOTE_def)
  ultimately show ?thesis using j by (simp add: json_object_def json_take_at Let_def)
qed

lemma json_value_reads_back: "value_wf levels v \<Longrightarrow> reads_back (json_value levels) (value_text levels) v"
proof (induction levels arbitrary: v)
  case (Suc levels)
  show ?case
    unfolding reads_back_def
  proof (intro allI impI)
    fix pos t assume t: "ends_number t"
    show "json_value (Suc levels) (at_pos pos (value_text (Suc levels) v @ t)) =
        Inr (v, at_pos (pos + length (value_text (Suc levels) v)) t)"
    proof (cases v)
      case (JObject fs)
      then have "\<forall>(name, w) \<in> set fs. plain_string name \<and> reads_back (json_value levels) (value_text levels) w" "bt_wf fs"
        using Suc by auto
      from json_object_text [OF this, of pos t] show ?thesis using JObject by (simp add: Let_def QUOTE_def)
    next
      case (JArray vs)
      then have "\<forall>w \<in> set vs. reads_back (json_value levels) (value_text levels) w"
        "\<forall>w \<in> set vs. \<exists>c cs. value_text levels w = c # cs \<and> \<not> ascii_space c \<and> c \<noteq> CHR '']''"
        using Suc value_text_first [of levels] by auto
      from json_array_text [OF this, of pos t] show ?thesis using JArray by (simp add: Let_def QUOTE_def)
    next
      case (JString s)
      then have "json_string (at_pos pos (quoted s @ t)) = Inr (s, at_pos (pos + length (quoted s)) t)"
        using Suc.prems by (intro json_string_quoted) simp
      then show ?thesis using JString by (simp add: Let_def quoted_def)
    next
      case (JNumber n)
      obtain c cs where n: "show_nat n = c # cs" using show_nat_nonempty [of n] by (meson neq_Nil_conv)
      then have c: "ascii_digit c" using show_nat_ascii [of c n] by simp
      show ?thesis using json_number_shown [OF _ t, of n pos] JNumber Suc.prems n c digit_space [OF c]
        by (simp add: Let_def)
    next
      case (JBool b)
      then show ?thesis by (cases b) (simp_all add: Let_def show_bool_def json_literal_def ascii_space_def QUOTE_def advance_def)
    next
      case JNull
      then show ?thesis by (simp add: Let_def json_literal_def ascii_space_def QUOTE_def advance_def)
    qed
  qed
qed simp

lemma json_parse_wf: "json_parse text = Inr v \<Longrightarrow> value_wf 9 v"
  by (auto simp: json_parse_def rbind_Inr_iff Let_def dest: json_value_wf split: if_splits)

lemma json_parse_text:
  assumes "value_wf 9 v" and "length (value_text 9 v) \<le> 1048576"
  shows "json_parse (value_text 9 v) = Inr v"
proof -
  have "json_value 9 (at_pos 0 (value_text 9 v @ [])) = Inr (v, at_pos (0 + length (value_text 9 v)) [])"
    using json_value_reads_back [OF assms(1)] by (simp add: reads_back_def ends_number_def)
  then show ?thesis using assms(2) by (simp add: json_parse_def json_space_def Let_def)
qed

section \<open>Properties\<close>


definition demo_document :: Value where
  "demo_document = JObject [(''a'', JArray [JNumber 12, JBool True, JNull]), (''b'', JString ''ok'')]"


end
