(* ===== verification/TopologyLaws.thy ===== *)
theory TopologyLaws
  imports Topology JsonLaws "HOL-Library.Multiset"
begin

text \<open>
  What discovery guarantees: an accepted projection is consistent, the advisory budget is dealt out
  completely and evenly over the active pools, and a guard passes only if nothing the fingerprint covers
  changed since the snapshot it is given, whatever was observed in between.
\<close>

section \<open>Dealing out the budget\<close>

definition is_active :: "(string \<times> u64) \<times> u64 \<times> bool \<Rightarrow> bool" where
  "is_active e = snd (snd e)"

definition active_count :: "pool_map \<Rightarrow> nat" where
  "active_count m = length (filter is_active m)"

lemma active_count_simps [simp]:
  "active_count [] = 0" "active_count (e # m) = (if is_active e then Suc (active_count m) else active_count m)"
  by (simp_all add: active_count_def)

text \<open>An even share of \<open>r\<close> over \<open>k\<close>: the quotient, or one more if it does not divide.\<close>

definition even_share :: "nat \<Rightarrow> nat \<Rightarrow> nat \<Rightarrow> bool" where
  "even_share r k s \<longleftrightarrow> r div k \<le> s \<and> s \<le> r div k + (if r mod k = 0 then 0 else 1)"

lemma even_share_rest:
  assumes "0 < k" and "even_share (r - r div Suc k) k s"
  shows "even_share r (Suc k) s"
proof -
  define q m where "q = r div Suc k" and "m = r mod Suc k"
  have r: "r = q * Suc k + m" and m: "m \<le> k"
    unfolding q_def m_def by (simp_all add: div_mult_mod_eq mod_Suc_le_divisor del: mult_Suc_right)
  have rest: "r - q = q * k + m" using r by simp
  show ?thesis
  proof (cases "m = k")
    case True
    then have "(r - q) div k = Suc q" "(r - q) mod k = 0" using rest assms(1) by simp_all
    then have "s = Suc q" using assms(2) unfolding q_def [symmetric] even_share_def by simp
    then show ?thesis using assms(1) True unfolding even_share_def q_def [symmetric] m_def [symmetric] by simp
  next
    case False
    then have "(r - q) div k = q" "(r - q) mod k = m" using rest assms(1) m by simp_all
    then show ?thesis using assms(2) unfolding even_share_def q_def [symmetric] m_def [symmetric] by simp
  qed
qed

definition dealt :: "nat \<Rightarrow> nat \<Rightarrow> (string \<times> u64) \<times> u64 \<times> bool \<Rightarrow> PoolBudget \<Rightarrow> bool" where
  "dealt r k e p \<longleftrightarrow>
     pb_owner_incarnation p = fst (fst e) \<and> pb_pool_generation p = snd (fst e) \<and> pb_retained_bytes p = fst (snd e) \<and>
     pb_reservable_bytes p = 0 \<and>
     (if is_active e then even_share r k (unat (pb_advisory_additional_bytes p)) else pb_advisory_additional_bytes p = 0)"

abbreviation advised :: "PoolBudget list \<Rightarrow> nat" where
  "advised ps \<equiv> sum_list (map (\<lambda>p. unat (pb_advisory_additional_bytes p)) ps)"

lemma deal_budget_spec:
  assumes "left = of_nat (active_count m)" and "active_count m < 2 ^ 64"
  shows "advised (deal_budget r left m) = (if active_count m = 0 then 0 else unat r) \<and>
    list_all2 (dealt (unat r) (active_count m)) m (deal_budget r left m)"
  using assms
proof (induction m arbitrary: r left)
  case (Cons e m)
  obtain owner gen retained active where e: "e = ((owner, gen), (retained, active))" by (cases e) auto
  show ?case
  proof (cases active)
    case False
    then show ?thesis using Cons e by (simp add: is_active_def Let_def dealt_def)
  next
    case True
    define k where "k = active_count m"
    have l: "left = of_nat (Suc k)" "Suc k < 2 ^ 64" using Cons.prems True e by (simp_all add: is_active_def k_def)
    have left: "unat left = Suc k" unfolding l(1) unat_of_nat using l(2) by simp
    define slice where "slice = r div left"
    have s: "unat slice = unat r div Suc k" using left by (simp add: slice_def unat_div)
    have le: "slice \<le> r" by (simp add: word_le_nat_alt s)
    have rest: "unat (r - slice) = unat r - unat r div Suc k" using le s by (simp add: unat_sub_u64)
    have left': "left - 1 = of_nat (active_count m)" "active_count m < 2 ^ 64"
      using Cons.prems True e by (simp_all add: is_active_def)
    note IH = Cons.IH [OF left', of "r - slice", folded k_def]
    have pos: "0 < k" if "x \<in> set m" "is_active x" for x
      using that by (auto simp: k_def active_count_def filter_empty_conv)
    have "list_all2 (dealt (unat r) (Suc k)) m (deal_budget (r - slice) (left - 1) m)"
      using conjunct2 [OF IH]
    proof (rule list.rel_mono_strong)
      fix x p assume x: "x \<in> set m" and d: "dealt (unat (r - slice)) k x p"
      show "dealt (unat r) (Suc k) x p"
        using d even_share_rest [of k "unat r"] pos [OF x] rest by (auto simp: dealt_def)
    qed
    moreover have "even_share (unat r) (Suc k) (unat slice)" by (simp add: s even_share_def)
    moreover have "advised (deal_budget (r - slice) (left - 1) m) + unat slice = unat r"
      using conjunct1 [OF IH] rest s by (cases "k = 0") simp_all
    ultimately show ?thesis
      using e True
      by (simp add: Let_def is_active_def dealt_def [where e = "((owner, gen), retained, True)"] k_def [symmetric] slice_def [symmetric])
  qed
qed simp

text \<open>The pools of a list of backings.\<close>

definition pool_of :: "DdrBacking \<Rightarrow> string \<times> u64" where
  "pool_of b = (ri_owner_incarnation (bk_identity b), ri_pool_generation (bk_identity b))"

definition retained_in :: "string \<times> u64 \<Rightarrow> DdrBacking list \<Rightarrow> nat" where
  "retained_in key bs = sum_list (map (\<lambda>b. unat (bk_size_bytes b)) (filter (\<lambda>b. pool_of b = key \<and> \<not> bk_reclaimed b) bs))"

definition pool_active :: "string \<times> u64 \<Rightarrow> DdrBacking list \<Rightarrow> bool" where
  "pool_active key bs \<longleftrightarrow> (\<exists>b \<in> set bs. pool_of b = key \<and> usable b)"

definition pools_match :: "DdrBacking list \<Rightarrow> pool_map \<Rightarrow> bool" where
  "pools_match bs m \<longleftrightarrow> bt_wf m \<and>
     (\<forall>key. case bt_get m key of
        None \<Rightarrow> key \<notin> pool_of ` set bs
      | Some (retained, active) \<Rightarrow> key \<in> pool_of ` set bs \<and> unat retained = retained_in key bs \<and>
          active = pool_active key bs)"

lemma pools_matchD:
  "pools_match bs m \<Longrightarrow> bt_get m key = None \<Longrightarrow> key \<notin> pool_of ` set bs"
  "pools_match bs m \<Longrightarrow> bt_get m key = Some (r, a) \<Longrightarrow>
     key \<in> pool_of ` set bs \<and> unat r = retained_in key bs \<and> a = pool_active key bs"
  unfolding pools_match_def by (drule conjunct2, drule spec [of _ key], simp)+

lemma no_pool: "key \<notin> pool_of ` set bs \<Longrightarrow> retained_in key bs = 0 \<and> \<not> pool_active key bs"
proof -
  assume "key \<notin> pool_of ` set bs"
  then have "filter (\<lambda>b. pool_of b = key \<and> \<not> bk_reclaimed b) bs = []" "\<not> pool_active key bs"
    by (auto simp: filter_empty_conv pool_active_def)
  then show ?thesis by (simp add: retained_in_def)
qed

lemma pool_entry_match:
  assumes "pools_match bs m" and "pool_entry b m = Inr m'"
  shows "pools_match (bs @ [b]) m'"
proof -
  obtain r a where e: "(case bt_get m (pool_of b) of Some e \<Rightarrow> e | None \<Rightarrow> (0, False)) = (r, a)" by fastforce
  have r: "unat r = retained_in (pool_of b) bs" "a = pool_active (pool_of b) bs"
    using e pools_matchD [OF assms(1), of "pool_of b"] no_pool [of "pool_of b" bs]
    by (cases "bt_get m (pool_of b)"; simp)+
  obtain n where n: "(if bk_reclaimed b then Some r else checked_add r (bk_size_bytes b)) = Some n"
    and m': "m' = bt_insert (pool_of b) (n, a \<or> usable b) m"
    using assms(2) e by (auto simp: pool_entry_def pool_of_def [symmetric] Let_def split: option.splits)
  have n': "unat n = retained_in (pool_of b) (bs @ [b])"
    using n r by (auto simp: retained_in_def checked_add_Some_iff split: if_splits)
  have wf: "bt_wf m" using assms(1) by (simp add: pools_match_def)
  show ?thesis
    unfolding pools_match_def
  proof (intro conjI allI)
    show "bt_wf m'" using wf m' by simp
    fix key
    show "case bt_get m' key of None \<Rightarrow> key \<notin> pool_of ` set (bs @ [b])
      | Some (retained, active) \<Rightarrow> key \<in> pool_of ` set (bs @ [b]) \<and> unat retained = retained_in key (bs @ [b]) \<and>
          active = pool_active key (bs @ [b])"
    proof (cases "key = pool_of b")
      case True
      then show ?thesis using n' r(2) by (auto simp: m' bt_get_insert [OF wf] pool_active_def)
    next
      case False
      then have "retained_in key (bs @ [b]) = retained_in key bs" "pool_active key (bs @ [b]) = pool_active key bs"
        by (auto simp: retained_in_def pool_active_def)
      then show ?thesis using pools_matchD [OF assms(1), of key] False
        by (auto simp: m' bt_get_insert [OF wf] split: option.splits)
    qed
  qed
qed

lemma pool_entries_match: "pools_match as m \<Longrightarrow> pool_entries bs m = Inr m' \<Longrightarrow> pools_match (as @ bs) m'"
proof (induction bs arbitrary: as m)
  case (Cons b bs)
  then obtain m1 where "pool_entry b m = Inr m1" "pool_entries bs m1 = Inr m'" by (auto simp: rbind_Inr_iff)
  moreover from this have "pools_match (as @ [b]) m1" using pool_entry_match [OF Cons.prems(1)] by blast
  ultimately show ?case using Cons.IH [of "as @ [b]" m1] by simp
qed simp

lemma pools_match_Nil: "pools_match [] []"
  by (simp add: pools_match_def bt_wf_def bt_get_def)

lemma pools_match_length: "pools_match bs m \<Longrightarrow> length m \<le> length bs"
proof -
  assume pm: "pools_match bs m"
  then have "distinct (map fst m)" by (auto simp: pools_match_def bt_wf_def strict_sorted_iff)
  then have "length m = card (set (map fst m))" by (metis distinct_card length_map)
  also have "set (map fst m) \<subseteq> pool_of ` set bs"
  proof
    fix key assume "key \<in> set (map fst m)"
    then have "bt_get m key \<noteq> None" by (simp add: bt_get_def map_of_eq_None_iff)
    then obtain r a where "bt_get m key = Some (r, a)" by fastforce
    then show "key \<in> pool_of ` set bs" using pools_matchD(2) [OF pm] by blast
  qed
  then have "card (set (map fst m)) \<le> card (pool_of ` set bs)" by (intro card_mono) auto
  also have "\<dots> \<le> length bs" by (metis card_image_le card_length finite_set order_trans)
  finally show ?thesis .
qed

text \<open>What is known of the pools of a budget.\<close>

lemma pools_inv:
  assumes "pools bs budget = Inr ps" and "length bs < 2 ^ 64"
  obtains m where "pools_match bs m" and "advised ps = (if active_count m = 0 then 0 else unat budget)"
    and "list_all2 (dealt (unat budget) (active_count m)) m ps"
proof -
  obtain m where m: "pool_entries bs [] = Inr m"
    and ps: "ps = deal_budget budget (of_nat (length (filter (\<lambda>(_, (_, active)). active) m))) m"
    using assms(1) by (auto simp: pools_def rbind_Inr_iff)
  have pm: "pools_match bs m" using pool_entries_match [OF pools_match_Nil m] by simp
  have eq: "length (filter (\<lambda>(_, (_, active)). active) m) = active_count m"
    unfolding active_count_def is_active_def by (metis (mono_tags, lifting) case_prod_beta' filter_cong)
  have "active_count m \<le> length m" by (simp add: active_count_def)
  then have "active_count m < 2 ^ 64" using pools_match_length [OF pm] assms(2) by linarith
  then show ?thesis using deal_budget_spec [OF refl, of m budget] pm ps unfolding eq by (intro that) auto
qed

lemma pools_match_entry:
  assumes "pools_match bs m" and "e \<in> set m"
  shows "fst e \<in> pool_of ` set bs" and "unat (fst (snd e)) = retained_in (fst e) bs" and "is_active e = pool_active (fst e) bs"
proof -
  have "bt_get m (fst e) = Some (fst (snd e), snd (snd e))"
    using assms bt_get_mem [of m "fst e" "snd e"] by (simp add: pools_match_def)
  from pools_matchD(2) [OF assms(1) this]
  show "fst e \<in> pool_of ` set bs" "unat (fst (snd e)) = retained_in (fst e) bs" "is_active e = pool_active (fst e) bs"
    by (simp_all add: is_active_def)
qed

lemma pools_match_keys: "pools_match bs m \<Longrightarrow> fst ` set m = pool_of ` set bs"
proof -
  assume pm: "pools_match bs m"
  have "key \<in> fst ` set m" if "key \<in> pool_of ` set bs" for key
    using pools_matchD(1) [OF pm, of key] that by (auto simp: bt_get_def map_of_eq_None_iff)
  then show ?thesis using pools_match_entry(1) [OF pm] by blast
qed

lemma active_count_pools:
  assumes "pools_match bs m"
  shows "active_count m = card {key. pool_active key bs}"
proof -
  have d: "distinct (map fst m)" using assms by (auto simp: pools_match_def bt_wf_def strict_sorted_iff)
  then have "active_count m = card (fst ` set (filter is_active m))"
    unfolding active_count_def by (metis distinct_card distinct_map_filter length_map set_map)
  also have "fst ` set (filter is_active m) = {key. pool_active key bs}"
  proof -
    have "pool_active key bs \<Longrightarrow> key \<in> fst ` set m" for key
      unfolding pools_match_keys [OF assms] by (auto simp: pool_active_def)
    then show ?thesis using pools_match_entry(3) [OF assms] unfolding set_filter by blast
  qed
  finally show ?thesis .
qed

lemma no_active_pool: "card {key. pool_active key bs} = 0 \<longleftrightarrow> \<not> (\<exists>b \<in> set bs. usable b)"
proof -
  have eq: "{key. pool_active key bs} = pool_of ` {b \<in> set bs. usable b}"
    unfolding pool_active_def by blast
  show ?thesis unfolding eq by auto
qed

definition pool_key :: "PoolBudget \<Rightarrow> string \<times> u64" where
  "pool_key p = (pb_owner_incarnation p, pb_pool_generation p)"

lemma dealt_key: "dealt r k e p \<Longrightarrow> pool_key p = fst e"
  by (simp add: dealt_def pool_key_def)

lemma list_all2_map_eq: "list_all2 P xs ys \<Longrightarrow> (\<And>x y. P x y \<Longrightarrow> g y = f x) \<Longrightarrow> map g ys = map f xs"
  by (induction rule: list_all2_induct) auto

lemma pools_of_budget:
  assumes "pools bs budget = Inr ps" and "length bs < 2 ^ 64"
  shows "advised ps = (if \<exists>b \<in> set bs. usable b then unat budget else 0)"
    and "distinct (map pool_key ps)" and "set (map pool_key ps) = pool_of ` set bs"
    and "p \<in> set ps \<Longrightarrow> unat (pb_retained_bytes p) = retained_in (pool_key p) bs \<and> pb_reservable_bytes p = 0 \<and>
      (if pool_active (pool_key p) bs
       then even_share (unat budget) (card {key. pool_active key bs}) (unat (pb_advisory_additional_bytes p))
       else pb_advisory_additional_bytes p = 0)"
proof -
  obtain m where pm: "pools_match bs m" and sum: "advised ps = (if active_count m = 0 then 0 else unat budget)"
    and all: "list_all2 (dealt (unat budget) (active_count m)) m ps"
    using pools_inv [OF assms] .
  have keys: "map pool_key ps = map fst m" by (rule list_all2_map_eq [OF all]) (rule dealt_key)
  show "advised ps = (if \<exists>b \<in> set bs. usable b then unat budget else 0)"
    using sum no_active_pool [of bs] active_count_pools [OF pm] by auto
  show "distinct (map pool_key ps)" unfolding keys using pm by (auto simp: pools_match_def bt_wf_def strict_sorted_iff)
  show "set (map pool_key ps) = pool_of ` set bs" unfolding keys using pools_match_keys [OF pm] by simp
  assume "p \<in> set ps"
  then obtain i where i: "i < length ps" "p = ps ! i" by (auto simp: in_set_conv_nth)
  then have d: "dealt (unat budget) (active_count m) (m ! i) p" and mem: "m ! i \<in> set m"
    using all by (auto simp: list_all2_conv_all_nth)
  show "unat (pb_retained_bytes p) = retained_in (pool_key p) bs \<and> pb_reservable_bytes p = 0 \<and>
      (if pool_active (pool_key p) bs
       then even_share (unat budget) (card {key. pool_active key bs}) (unat (pb_advisory_additional_bytes p))
       else pb_advisory_additional_bytes p = 0)"
    using d pools_match_entry(2,3) [OF pm mem] dealt_key [OF d] active_count_pools [OF pm]
    by (auto simp: dealt_def)
qed

section \<open>Accepted projections\<close>

text \<open>What holds of the rows read so far.\<close>

definition row_ok :: "BrokerIdentity \<Rightarrow> DdrBacking \<Rightarrow> bool" where
  "row_ok who b \<longleftrightarrow>
     ri_host_id (bk_identity b) = bri_host_id who \<and> ri_boot_id (bk_identity b) = bri_boot_id who \<and>
     ri_broker_instance (bk_identity b) = bri_broker_instance who \<and>
     ri_object_id (bk_identity b) \<noteq> 0 \<and> ri_pool_generation (bk_identity b) \<noteq> 0 \<and>
     ri_resource_generation (bk_identity b) \<noteq> 0 \<and> bk_placement_id b \<noteq> 0 \<and> bk_placement_count b = 1 \<and>
     0 < bk_size_bytes b \<and> bk_state b \<in> set BACKING_STATES \<and>
     (bk_reclaimed b \<longrightarrow> bk_state b \<noteq> ''active'' \<and> bk_state b \<noteq> ''pending'')"

definition live_bytes :: "DdrBacking list \<Rightarrow> nat" where
  "live_bytes bs = sum_list (map (\<lambda>b. if bk_reclaimed b then 0 else unat (bk_size_bytes b)) bs)"

definition scan_ok :: "BrokerIdentity \<Rightarrow> row_scan \<Rightarrow> bool" where
  "scan_ok who sc \<longleftrightarrow>
     (\<forall>b \<in> set (rs_backings sc). row_ok who b) \<and>
     rs_ids sc = rev (map (\<lambda>b. ri_object_id (bk_identity b)) (rs_backings sc)) \<and> distinct (rs_ids sc) \<and>
     rs_placements sc = rev (map bk_placement_id (rs_backings sc)) \<and> distinct (rs_placements sc) \<and>
     unat (rs_total sc) = live_bytes (rs_backings sc)"

lemma row_backing_Inr:
  "row_backing row r pid pc n st rc = Inr b \<Longrightarrow> bk_identity b = r \<and> bk_placement_id b = pid \<and>
     bk_placement_count b = pc \<and> bk_size_bytes b = n \<and> bk_state b = st \<and> bk_reclaimed b = rc"
  by (auto simp: row_backing_def rbind_Inr_iff)

lemma row_identity_Inr:
  "row_identity who row = Inr r \<Longrightarrow> ri_host_id r = bri_host_id who \<and> ri_boot_id r = bri_boot_id who \<and>
     ri_broker_instance r = bri_broker_instance who"
  by (auto simp: row_identity_def rbind_Inr_iff)

lemma parse_row_ok:
  assumes "parse_row who row sc = Inr sc'" and "scan_ok who sc"
  shows "scan_ok who sc'"
proof -
  obtain r pid pc rc n st bytes b where reads: "row_reads who row = Inr (r, pid, pc, rc, n)"
    and chk: "\<not> row_invalid r pid pc n sc" and st: "row_state row rc = Inr st"
    and bytes: "(if rc then Some (rs_total sc) else checked_add (rs_total sc) n) = Some bytes"
    and b: "row_backing row r pid pc n st rc = Inr b"
    and sc': "sc' = \<lparr> rs_ids = ri_object_id r # rs_ids sc, rs_placements = pid # rs_placements sc,
      rs_backings = rs_backings sc @ [b], rs_total = bytes \<rparr>"
    using assms(1) unfolding parse_row_def
    by (auto simp: rbind_Inr_iff split: option.splits split: if_split_asm)
  have r: "row_identity who row = Inr r" using reads by (auto simp: row_reads_def rbind_Inr_iff)
  have st': "st \<in> set BACKING_STATES" "\<not> (rc \<and> st \<in> set [''active'', ''pending''])"
    using st by (auto simp: row_state_def rbind_Inr_iff split: if_splits)
  have "row_ok who b"
    using row_identity_Inr [OF r] row_backing_Inr [OF b] chk st' by (auto simp: row_ok_def row_invalid_def word_gt_0)
  moreover have "unat bytes = live_bytes (rs_backings sc @ [b])"
    using bytes assms(2) row_backing_Inr [OF b]
    by (auto simp: live_bytes_def scan_ok_def checked_add_Some_iff split: if_splits)
  ultimately show ?thesis using assms(2) chk row_backing_Inr [OF b] by (auto simp: scan_ok_def row_invalid_def sc')
qed

lemma parse_rows_ok: "parse_rows who rows sc = Inr sc' \<Longrightarrow> scan_ok who sc \<Longrightarrow> scan_ok who sc'"
  by (induction rows arbitrary: sc) (auto simp: rbind_Inr_iff dest: parse_row_ok)

definition projection_ok :: "Projection \<Rightarrow> bool" where
  "projection_ok pj \<longleftrightarrow>
     (\<forall>b \<in> set (pj_backings pj). row_ok (pj_identity pj) b) \<and>
     sorted_wrt (<) (map (\<lambda>b. ri_object_id (bk_identity b)) (pj_backings pj)) \<and>
     distinct (map bk_placement_id (pj_backings pj)) \<and>
     unat (pj_committed_bytes pj) = live_bytes (pj_backings pj)"

lemma live_bytes_mset: "live_bytes bs = (\<Sum>b \<in># mset bs. if bk_reclaimed b then 0 else unat (bk_size_bytes b))"
  by (induction bs) (simp_all add: live_bytes_def)

lemma parse_projection_ok:
  assumes "parse_projection fs = Inr pj"
  shows "projection_ok pj"
proof -
  obtain doc who epoch sc where bs: "parse_backings fs who doc = Inr sc"
    and pj: "pj_identity pj = who" "pj_backings pj = sort_key (\<lambda>b. ri_object_id (bk_identity b)) (rs_backings sc)"
      "pj_committed_bytes pj = rs_total sc"
    using assms unfolding parse_projection_def by (auto simp: rbind_Inr_iff)
  obtain rows where rows: "parse_rows who rows \<lparr> rs_ids = [], rs_placements = [], rs_backings = [], rs_total = 0 \<rparr> = Inr sc"
    using bs by (auto simp: parse_backings_def rbind_Inr_iff split: if_splits)
  have ok: "scan_ok who sc" by (rule parse_rows_ok [OF rows]) (simp add: scan_ok_def live_bytes_def)
  let ?f = "\<lambda>b. ri_object_id (bk_identity b)"
  have d: "distinct (map ?f (rs_backings sc))" "distinct (map bk_placement_id (rs_backings sc))"
    using ok unfolding scan_ok_def by (metis distinct_rev)+
  have "sorted_wrt (<) (map ?f (sort_key ?f (rs_backings sc)))"
    using d(1) by (simp add: strict_sorted_iff distinct_map)
  moreover have "distinct (map bk_placement_id (sort_key ?f (rs_backings sc)))"
    using d(2) by (simp add: distinct_map)
  moreover have "live_bytes (sort_key ?f (rs_backings sc)) = live_bytes (rs_backings sc)"
    by (simp add: live_bytes_mset)
  ultimately show ?thesis using ok pj by (simp add: projection_ok_def scan_ok_def)
qed

lemma query_broker_ok: "query_broker answer = Inr pj \<Longrightarrow> projection_ok pj"
  by (auto simp: query_broker_def rbind_Inr_iff Let_def dest: parse_projection_ok split: if_splits)

section \<open>Snapshots and guards\<close>

lemma advance_revisions_cases:
  assumes "advance_revisions fp d = (r, d')"
  shows "d' = d \<or> (\<exists>x. d' = d\<lparr> dd_topology_generation := x \<rparr> \<and> unat x = Suc (unat (dd_topology_generation d)) \<and> isl r) \<or>
    (\<exists>x y. d' = d\<lparr> dd_topology_generation := x, dd_capability_generation := y, dd_last := Some fp \<rparr> \<and>
       unat x = Suc (unat (dd_topology_generation d)))"
    and "\<not> isl r \<Longrightarrow> dd_last d' = Some fp"
  using assms
  by (auto simp: advance_revisions_def Let_def checked_add_Some_iff split: if_splits option.splits)

text \<open>
  The revision of a discovery counts the changes of its fingerprint: a step of it either keeps the
  state or raises the revision.
\<close>

definition revision :: "DdrDiscovery \<Rightarrow> nat" where
  "revision d = unat (dd_topology_generation d)"

lemma advance_revisions_step:
  assumes "advance_revisions fp d = (r, d')"
  shows "dd_config d' = dd_config d" and "d' = d \<or> revision d < revision d'"
  using advance_revisions_cases(1) [OF assms] by (auto simp: revision_def)

lemma discovery_snapshot_step:
  assumes "discovery_snapshot obs d = (r, d')"
  shows "dd_config d' = dd_config d" and "d' = d \<or> revision d < revision d'"
proof -
  have "dd_config d' = dd_config d \<and> (d' = d \<or> revision d < revision d')"
  proof (cases "take_sample (dd_config d) obs")
    case (Inl e)
    then show ?thesis using assms by (simp add: discovery_snapshot_def)
  next
    case (Inr sm)
    obtain q d1 where adv: "advance_revisions (fingerprint_of sm) d = (q, d1)" by fastforce
    then have "d' = d1" using assms Inr by (auto simp: discovery_snapshot_def Let_def split: sum.splits)
    then show ?thesis using advance_revisions_step [OF adv] by simp
  qed
  then show "dd_config d' = dd_config d" "d' = d \<or> revision d < revision d'" by simp_all
qed

text \<open>What the fingerprint of a snapshot is, and what a successful snapshot leaves.\<close>

definition snapshot_fingerprint :: "DdrSnapshot \<Rightarrow> Fingerprint" where
  "snapshot_fingerprint s =
     \<lparr> fp_identity = sn_identity s, fp_epoch = sn_epoch s, fp_physical = sn_physical s, fp_backings = sn_backings s \<rparr>"

lemma discovery_snapshot_Inr:
  assumes "discovery_snapshot obs d = (Inr s, d')"
  shows "dd_last d' = Some (snapshot_fingerprint s)" and "unat (sn_topology_generation s) = revision d'"
    and "sn_max_age s = cfg_max_age (dd_config d)" and "sn_captured_at s = obs_start obs"
    and "\<exists>sm budget. take_sample (dd_config d) obs = Inr sm \<and> sn_backings s = pj_backings (sm_projection sm) \<and>
      sn_identity s = pj_identity (sm_projection sm) \<and>
      pools (sn_backings s) budget = Inr (sn_pools s) \<and> sn_advisory_unallocated_bytes s = budget \<and>
      budget = min (sm_available sm) (saturating_sub (cfg_host_budget_limit_bytes (dd_config d)) (sn_committed_bytes s)) \<and>
      sn_committed_bytes s = pj_committed_bytes (sm_projection sm)"
    and "sn_capabilities s = directed_capabilities (sn_backings s)"
proof -
  obtain sm where sm: "take_sample (dd_config d) obs = Inr sm"
    using assms by (cases "take_sample (dd_config d) obs") (auto simp: discovery_snapshot_def)
  obtain q where adv: "advance_revisions (fingerprint_of sm) d = (q, d')" and q: "\<not> isl q"
    using assms sm by (cases "advance_revisions (fingerprint_of sm) d")
      (auto simp: discovery_snapshot_def Let_def split: sum.splits)
  define budget where "budget = min (sm_available sm)
    (saturating_sub (cfg_host_budget_limit_bytes (dd_config d')) (pj_committed_bytes (sm_projection sm)))"
  obtain ps where ps: "pools (pj_backings (sm_projection sm)) budget = Inr ps" and s: "s = snapshot_of d' obs sm budget ps"
    using assms sm adv q
    by (auto simp: discovery_snapshot_def Let_def budget_def split: sum.splits)
  note last = advance_revisions_cases(2) [OF adv q] and cfg = advance_revisions_step(1) [OF adv]
  show "dd_last d' = Some (snapshot_fingerprint s)"
    using last by (simp add: s snapshot_of_def Let_def snapshot_fingerprint_def fingerprint_of_def)
  show "unat (sn_topology_generation s) = revision d'" by (simp add: s snapshot_of_def Let_def revision_def)
  show "sn_max_age s = cfg_max_age (dd_config d)" "sn_captured_at s = obs_start obs"
    "sn_capabilities s = directed_capabilities (sn_backings s)"
    using cfg by (simp_all add: s snapshot_of_def Let_def)
  show "\<exists>sm budget. take_sample (dd_config d) obs = Inr sm \<and> sn_backings s = pj_backings (sm_projection sm) \<and>
      sn_identity s = pj_identity (sm_projection sm) \<and>
      pools (sn_backings s) budget = Inr (sn_pools s) \<and> sn_advisory_unallocated_bytes s = budget \<and>
      budget = min (sm_available sm) (saturating_sub (cfg_host_budget_limit_bytes (dd_config d)) (sn_committed_bytes s)) \<and>
      sn_committed_bytes s = pj_committed_bytes (sm_projection sm)"
    using sm ps cfg by (intro exI [of _ sm] exI [of _ budget]) (simp add: s snapshot_of_def Let_def budget_def)
qed

text \<open>A run of observations between a snapshot and a guard.\<close>

fun run_snapshots :: "observation list \<Rightarrow> DdrDiscovery \<Rightarrow> DdrSnapshot result list \<times> DdrDiscovery" where
  "run_snapshots [] d = ([], d)"
| "run_snapshots (obs # rest) d =
     (let (r, d1) = discovery_snapshot obs d; (rs, d2) = run_snapshots rest d1 in (r # rs, d2))"

lemma run_snapshots_step:
  "run_snapshots os d = (rs, d') \<Longrightarrow> dd_config d' = dd_config d \<and> revision d \<le> revision d' \<and>
     (revision d' = revision d \<longrightarrow> d' = d \<and> (\<forall>s. Inr s \<in> set rs \<longrightarrow> dd_last d = Some (snapshot_fingerprint s)))"
proof (induction os arbitrary: d rs)
  case (Cons obs os)
  obtain r d1 rs' where r: "discovery_snapshot obs d = (r, d1)" and rs': "run_snapshots os d1 = (rs', d')" "rs = r # rs'"
    using Cons.prems by (auto split: prod.splits)
  note st = discovery_snapshot_step [OF r] and IH = Cons.IH [OF rs'(1)]
  have "dd_last d = Some (snapshot_fingerprint s)" if "revision d' = revision d" "r = Inr s" for s
  proof -
    have "d1 = d" using st(2) IH that(1) by linarith
    then show ?thesis using discovery_snapshot_Inr(1) [OF r [unfolded that(2)]] by simp
  qed
  then show ?case using st IH rs'(2) by auto
qed simp

lemma guard_Inr:
  assumes "guard before now obs after previous resource off n d = (Inr current, d')"
  shows "discovery_snapshot obs d = (Inr current, d')" and "\<not> stale previous current"
    and "guard_resource current resource off n = Inr ()"
    and "after - sn_captured_at previous \<le> cfg_max_age (dd_config d)"
    and "sn_realm previous = cfg_realm (dd_config d)"
proof -
  obtain wall where wall: "now = Inr wall"
    using assms by (cases now) (auto simp: guard_def Let_def split: if_splits)
  obtain r d1 where snap: "discovery_snapshot obs d = (r, d1)" by fastforce
  have r: "r = Inr current" "d1 = d'" and st: "\<not> stale previous current"
    and res: "\<not> isl (guard_resource current resource off n)"
    and age: "after - sn_captured_at previous \<le> cfg_max_age (dd_config d)"
    and realm: "sn_realm previous = cfg_realm (dd_config d)"
    using assms wall snap
    by (auto simp: guard_def Let_def split: if_splits sum.splits)
  show "discovery_snapshot obs d = (Inr current, d')" "\<not> stale previous current"
    "after - sn_captured_at previous \<le> cfg_max_age (dd_config d)" "sn_realm previous = cfg_realm (dd_config d)"
    using snap r st age realm by simp_all
  show "guard_resource current resource off n = Inr ()"
    using res by (cases "guard_resource current resource off n") simp_all
qed

lemma guard_resource_Inr:
  assumes "guard_resource current resource off n = Inr ()"
  shows "\<exists>b \<in> set (sn_backings current). bk_identity b = resource \<and> usable b \<and> n \<noteq> 0 \<and>
    unat off + unat n \<le> unat (bk_size_bytes b)"
proof -
  obtain b where b: "List.find (\<lambda>b. bk_identity b = resource) (sn_backings current) = Some b"
    using assms by (auto simp: guard_resource_def split: option.splits)
  then have mem: "b \<in> set (sn_backings current)" "bk_identity b = resource" by (auto dest: find_SomeD)
  have "usable b" "n \<noteq> 0" "unat off + unat n \<le> unat (bk_size_bytes b)"
    using assms b by (auto simp: guard_resource_def usable_def checked_add_Some_iff word_less_nat_alt
        split: if_splits option.splits)
  then show ?thesis using mem by blast
qed

lemma take_sample_ok: "take_sample config obs = Inr sm \<Longrightarrow> projection_ok (sm_projection sm)"
  by (auto simp: take_sample_def rbind_Inr_iff Let_def dest: query_broker_ok split: if_splits)

lemma snapshot_backings_ok:
  assumes "discovery_snapshot obs d = (Inr s, d')"
  shows "\<forall>b \<in> set (sn_backings s). row_ok (sn_identity s) b"
    and "sorted_wrt (<) (map (\<lambda>b. ri_object_id (bk_identity b)) (sn_backings s))"
    and "distinct (map bk_placement_id (sn_backings s))"
    and "unat (sn_committed_bytes s) = live_bytes (sn_backings s)"
  using discovery_snapshot_Inr(5) [OF assms] take_sample_ok by (fastforce simp: projection_ok_def)+

lemma same_identity:
  assumes "discovery_snapshot obs d = (Inr s, d')" and "b \<in> set (sn_backings s)" and "c \<in> set (sn_backings s)"
    and "bk_identity b = bk_identity c"
  shows "b = c"
proof -
  have "inj_on (\<lambda>b. ri_object_id (bk_identity b)) (set (sn_backings s))"
    using snapshot_backings_ok(2) [OF assms(1)] by (simp add: strict_sorted_iff distinct_map)
  then show ?thesis using assms(2-4) by (simp add: inj_on_def)
qed

lemma snapshot_advised:
  assumes "discovery_snapshot obs d = (Inr s, d')" and "length (sn_backings s) < 2 ^ 64"
  shows "advised (sn_pools s) \<le> unat (cfg_host_budget_limit_bytes (dd_config d)) - unat (sn_committed_bytes s)"
proof -
  obtain sm :: sampled and budget where ps: "pools (sn_backings s) budget = Inr (sn_pools s)"
    and b: "budget = min (sm_available sm) (saturating_sub (cfg_host_budget_limit_bytes (dd_config d)) (sn_committed_bytes s))"
    using discovery_snapshot_Inr(5) [OF assms(1)] by blast
  have "unat budget \<le> unat (saturating_sub (cfg_host_budget_limit_bytes (dd_config d)) (sn_committed_bytes s))"
    unfolding b by (simp add: word_le_nat_alt [symmetric])
  then show ?thesis using pools_of_budget(1) [OF ps assms(2)] by (simp add: rust_int)
qed

section \<open>A concrete discovery\<close>

text \<open>A broker with one backing and a host with one NUMA node.\<close>

definition demo_row :: "string \<Rightarrow> nat \<Rightarrow> string \<Rightarrow> bool \<Rightarrow> Value" where
  "demo_row owner i state reclaimed =
     JObject [(''binding_id'', JNumber 5), (''numa_node'', JNull), (''object_id'', JNumber i),
       (''owner_alive'', JBool True), (''owner_incarnation'', JString owner), (''owner_name'', JString ''w''),
       (''owner_pid'', JNumber 42), (''placement_count'', JNumber 1), (''placement_id'', JNumber (10 + i)),
       (''pool_generation'', JNumber 1), (''reclaimed'', JBool reclaimed), (''resource_generation'', JNumber 1),
       (''size_bytes'', JNumber 4096), (''state'', JString state)]"

definition demo_projection :: Value where
  "demo_projection =
     JObject [(''backings'', JArray [demo_row ''o2'' 2 ''active'' False]),
       (''boot_id'', JString ''b''), (''broker_instance'', JString ''br''), (''host_id'', JString ''h''),
       (''lifecycle_epoch'', JNumber 3), (''observed_at_unix_ns'', JNumber 100), (''schema'', JString SNAPSHOT_SCHEMA)]"

definition demo_pairs :: kv where
  "demo_pairs = [(''active_views'', ''0''), (''committed_bytes'', ''4096''), (''in_flight'', ''0''), (''lifecycle_epoch'', ''3''),
     (''pending_handoffs'', ''0''), (''projection_json'', value_text 9 demo_projection), (''status'', ''ok'')]"

definition demo_answer :: "string result" where
  "demo_answer = Inr (join '';'' (map (\<lambda>(k, v). k @ ''='' @ v) demo_pairs) @ [newline])"

definition demo_files :: filesystem where
  "demo_files path =
     (if path = ''/sys/devices/system/node/online'' then Some (''0'' @ [newline])
      else if path = ''/sys/devices/system/node/node0/meminfo'' then Some (''Node 0 MemTotal: 16 kB'' @ [newline])
      else if path = ''/proc/meminfo'' then Some (''MemAvailable: 64 kB'' @ [newline])
      else if path = ''/sys/fs/cgroup/memory.max'' then Some ''max''
      else if path = ''/sys/fs/cgroup/memory.current'' then Some ''0''
      else None)"

definition demo_observation :: observation where
  "demo_observation =
     \<lparr> obs_start = 7, obs_wall_start = Inr 90, obs_first = demo_answer, obs_physical_a = demo_files,
       obs_capacity_a = demo_files, obs_physical_b = demo_files, obs_capacity_b = demo_files,
       obs_second = demo_answer, obs_wall_end = Inr 110, obs_elapsed = 20 \<rparr>"

definition demo_config :: DiscoveryConfig where
  "demo_config = \<lparr> cfg_realm = ''r'', cfg_control_socket = ''/run/uflow'', cfg_max_age = 1000, cfg_host_budget_limit_bytes = 8192 \<rparr>"

definition demo_discovery :: DdrDiscovery where
  "demo_discovery = \<lparr> dd_config = demo_config, dd_last = None, dd_topology_generation = 0, dd_capability_generation = 0 \<rparr>"

lemma query_broker_line:
  assumes "newline \<notin> set line" and "length line < MAX_FRAME" and "valid_utf8 (text_bytes line)"
  shows "query_broker (Inr (line @ [newline])) = rbind (frame_fields (split_on (CHR '';'') line) []) parse_projection"
proof -
  have "takeWhile (\<lambda>c. c \<noteq> newline) (line @ [newline]) = line"
    using assms(1) by (auto simp: takeWhile_append)
  then have "read_until_newline (MAX_FRAME + 1) (line @ [newline]) = line @ [newline]"
    using assms(2) by (simp add: read_until_newline_def Let_def)
  then show ?thesis using assms(2,3) by (simp add: query_broker_def Let_def)
qed

definition demo_identity :: BrokerIdentity where
  "demo_identity = \<lparr> bri_host_id = ''h'', bri_boot_id = ''b'', bri_broker_instance = ''br'' \<rparr>"

definition demo_resource :: ResourceIdentity where
  "demo_resource = \<lparr> ri_host_id = ''h'', ri_boot_id = ''b'', ri_broker_instance = ''br'', ri_owner_incarnation = ''o2'',
     ri_pool_generation = 1, ri_object_id = 2, ri_resource_generation = 1 \<rparr>"

definition demo_backing :: DdrBacking where
  "demo_backing = \<lparr> bk_identity = demo_resource, bk_owner_name = ''w'', bk_owner_pid = 42, bk_owner_alive = True,
     bk_placement_id = 12, bk_placement_count = 1, bk_binding_id = 5, bk_size_bytes = 4096, bk_state = ''active'',
     bk_reclaimed = False, bk_numa_node = None \<rparr>"

definition demo_parsed :: Projection where
  "demo_parsed = \<lparr> pj_identity = demo_identity, pj_epoch = 3, pj_observed_at_ns = 100, pj_backings = [demo_backing],
     pj_committed_bytes = 4096, pj_active_views = 0, pj_pending_handoffs = 0, pj_in_flight = 0 \<rparr>"

lemma demo_backing_sel [simp]:
  "bk_identity demo_backing = demo_resource" "bk_owner_alive demo_backing" "bk_state demo_backing = ''active''"
  "\<not> bk_reclaimed demo_backing" "bk_size_bytes demo_backing = 4096"
  by (simp_all add: demo_backing_def)

text \<open>The text of the projection: ASCII, and free of the separators of a frame.\<close>

definition wire_char :: "char \<Rightarrow> bool" where
  "wire_char c \<longleftrightarrow> \<not> digit7 c \<and> c \<noteq> newline \<and> c \<noteq> CHR '';''"

lemma demo_text:
  "list_all wire_char (value_text 9 demo_projection) \<and> length (value_text 9 demo_projection) < 1024"
  by code_simp

lemma demo_json: "json_parse (value_text 9 demo_projection) = Inr demo_projection"
proof (rule json_parse_text)
  show "value_wf 9 demo_projection" by code_simp
  show "length (value_text 9 demo_projection) \<le> 1048576" using demo_text by simp
qed

lemma demo_lookup:
  "bt_get demo_pairs ''status'' = Some ''ok''" "bt_get demo_pairs ''projection_json'' = Some (value_text 9 demo_projection)"
  "bt_get demo_pairs ''lifecycle_epoch'' = Some ''3''" "bt_get demo_pairs ''committed_bytes'' = Some ''4096''"
  "bt_get demo_pairs ''active_views'' = Some ''0''" "bt_get demo_pairs ''pending_handoffs'' = Some ''0''"
  "bt_get demo_pairs ''in_flight'' = Some ''0''"
  by (simp_all add: demo_pairs_def bt_get_def)

lemma demo_numbers: "parse_u64 ''3'' = Some 3" "parse_u64 ''4096'' = Some 4096" "parse_u64 ''0'' = Some 0"
  by code_simp+

lemma demo_document:
  "doc_s demo_projection ''schema'' = Inr SNAPSHOT_SCHEMA" "parse_identity demo_projection = Inr demo_identity"
  "doc_n demo_projection ''lifecycle_epoch'' = Inr 3"
  "rbind (value_field demo_projection ''backings'') value_array = Inr [demo_row ''o2'' 2 ''active'' False]"
  "rbind (value_field demo_projection ''observed_at_unix_ns'') value_number = Inr 100"
  by code_simp+

lemma demo_rows:
  "parse_rows demo_identity [demo_row ''o2'' 2 ''active'' False]
     \<lparr> rs_ids = [], rs_placements = [], rs_backings = [], rs_total = 0 \<rparr> =
   Inr \<lparr> rs_ids = [2], rs_placements = [12], rs_backings = [demo_backing], rs_total = 4096 \<rparr>"
  by code_simp

lemma demo_parse: "parse_projection demo_pairs = Inr demo_parsed"
proof -
  have "parse_document demo_pairs = Inr (demo_projection, demo_identity, 3)"
    by (simp add: parse_document_def parse_wire_epoch_def demo_lookup demo_numbers demo_document demo_json)
  moreover have "parse_backings demo_pairs demo_identity demo_projection =
      Inr \<lparr> rs_ids = [2], rs_placements = [12], rs_backings = [demo_backing], rs_total = 4096 \<rparr>"
    by (simp add: parse_backings_def demo_document demo_rows wire_u64_def demo_lookup demo_numbers del: parse_rows.simps)
  ultimately show ?thesis
    by (simp add: parse_projection_def demo_document wire_u64_def demo_lookup demo_numbers demo_parsed_def)
qed

lemma frame_fields_pairs:
  "\<forall>(k, v) \<in> set kvs. k \<noteq> [] \<and> CHR ''='' \<notin> set k \<Longrightarrow> bt_wf (fs @ kvs) \<Longrightarrow>
   frame_fields (map (\<lambda>(k, v). k @ ''='' @ v) kvs) fs = Inr (fs @ kvs)"
proof (induction kvs arbitrary: fs)
  case (Cons kv kvs)
  obtain k v where kv: "kv = (k, v)" by fastforce
  have below: "\<forall>x \<in> set fs. fst x < k" using Cons.prems(2) by (auto simp: kv bt_wf_def sorted_wrt_append)
  then have "bt_get fs k = None" by (auto simp: bt_get_def map_of_eq_None_iff)
  moreover have "split_once (CHR ''='') (k @ ''='' @ v) = Some (k, v)"
    using Cons.prems(1) by (simp add: kv split_once_append)
  ultimately show ?case
    using Cons.IH [of "fs @ [(k, v)]"] Cons.prems bt_insert_snoc [OF below] by (simp add: kv)
qed simp

definition demo_pieces :: "string list" where
  "demo_pieces = map (\<lambda>(k, v). k @ ''='' @ v) demo_pairs"

lemma demo_pieces:
  "list_all (list_all wire_char) demo_pieces" "length (join '';'' demo_pieces) < 2048" "demo_pieces \<noteq> []"
  using demo_text by (simp_all add: demo_pieces_def demo_pairs_def wire_char_def)

lemma demo_query: "query_broker demo_answer = Inr demo_parsed"
proof -
  let ?line = "join '';'' demo_pieces"
  have wire: "c = CHR '';'' \<or> wire_char c" if "c \<in> set ?line" for c
    using set_join [OF that] demo_pieces(1) by (auto simp: list_all_iff)
  have "newline \<notin> set ?line" "valid_utf8 (text_bytes ?line)"
    using wire valid_utf8_digit7 [of ?line] by (force simp: wire_char_def list_all_iff text_bytes_def)+
  moreover have "length ?line < MAX_FRAME" using demo_pieces(2) by (simp add: MAX_FRAME_def)
  moreover have "split_on (CHR '';'') ?line = demo_pieces"
    using demo_pieces(1) by (intro split_on_join demo_pieces(3)) (auto simp: list_all_iff wire_char_def)
  moreover have "frame_fields demo_pieces [] = Inr demo_pairs"
    unfolding demo_pieces_def using frame_fields_pairs [of demo_pairs "[]"] by (simp add: demo_pairs_def bt_wf_def)
  ultimately show ?thesis
    using query_broker_line [of ?line] by (simp add: demo_answer_def demo_pieces_def demo_parse)
qed

lemma demo_available: "observe_available demo_files = Some 65536"
  by code_simp

definition demo_sampled :: sampled where
  "demo_sampled = \<lparr> sm_projection = demo_parsed, sm_physical = observe_physical demo_files, sm_available = 65536, sm_wall_end = 110 \<rparr>"

definition demo_after :: DdrDiscovery where
  "demo_after = \<lparr> dd_config = demo_config, dd_last = Some (fingerprint_of demo_sampled), dd_topology_generation = 1,
     dd_capability_generation = 1 \<rparr>"

definition demo_pools :: "PoolBudget list" where
  "demo_pools = [\<lparr> pb_owner_incarnation = ''o2'', pb_pool_generation = 1, pb_retained_bytes = 4096,
     pb_advisory_additional_bytes = 4096, pb_reservable_bytes = 0 \<rparr>]"

definition demo_snapshot :: DdrSnapshot where
  "demo_snapshot = snapshot_of demo_after demo_observation demo_sampled 4096 demo_pools"

lemma demo_sample: "take_sample demo_config demo_observation = Inr demo_sampled"
  by (simp add: take_sample_def demo_observation_def demo_query demo_available demo_sampled_def same_projection_def
      demo_config_def demo_parsed_def)

lemma demo_budget:
  "pools [demo_backing] 4096 = Inr demo_pools" "min 65536 (saturating_sub 8192 4096) = (4096 :: u64)" "checked_add 0 1 = Some (1 :: u64)"
  by code_simp+

lemma demo_take:
  "discovery_snapshot demo_observation demo_discovery = (Inr demo_snapshot, demo_after)"
  "discovery_snapshot demo_observation demo_after = (Inr demo_snapshot, demo_after)"
proof -
  have cfg: "dd_config demo_discovery = demo_config" "dd_config demo_after = demo_config"
    "cfg_host_budget_limit_bytes demo_config = 8192"
    by (simp_all add: demo_discovery_def demo_after_def demo_config_def)
  have adv: "advance_revisions (fingerprint_of demo_sampled) demo_discovery = (Inr (), demo_after)"
    "advance_revisions (fingerprint_of demo_sampled) demo_after = (Inr (), demo_after)"
    by (simp_all add: advance_revisions_def demo_discovery_def demo_after_def demo_budget(3))
  have sm: "pj_backings (sm_projection demo_sampled) = [demo_backing]" "sm_available demo_sampled = 65536"
    "pj_committed_bytes (sm_projection demo_sampled) = 4096"
    by (simp_all add: demo_sampled_def demo_parsed_def)
  show "discovery_snapshot demo_observation demo_discovery = (Inr demo_snapshot, demo_after)"
    "discovery_snapshot demo_observation demo_after = (Inr demo_snapshot, demo_after)"
    by (simp_all add: discovery_snapshot_def cfg adv sm demo_sample demo_budget demo_snapshot_def Let_def)
qed

lemma demo_snapshot_sel:
  "sn_realm demo_snapshot = ''r''" "sn_max_age demo_snapshot = 1000" "sn_host_budget_limit_bytes demo_snapshot = 8192"
  "sn_captured_at demo_snapshot = 7" "sn_observed_at_unix_ns demo_snapshot = 110" "sn_source_observed_at_unix_ns demo_snapshot = 100"
  "sn_backings demo_snapshot = [demo_backing]" "sn_pools demo_snapshot = demo_pools" "sn_epoch demo_snapshot = 3"
  "sn_topology_generation demo_snapshot = 1" "sn_capability_generation demo_snapshot = 1"
  "sn_capabilities demo_snapshot = directed_capabilities [demo_backing]"
  by (simp_all add: demo_snapshot_def snapshot_of_def demo_after_def demo_config_def demo_observation_def
      demo_sampled_def demo_parsed_def Let_def)

lemma demo_capabilities:
  "directed_capabilities [demo_backing] =
     [directed_capability demo_backing ''o2'' MapRead, directed_capability demo_backing ''o2'' CopyRange]"
  by (simp add: directed_capabilities_def usable_def demo_resource_def)

lemma demo_guard:
  "guard 8 (Inr 120) demo_observation 9 demo_snapshot demo_resource 16 32 demo_after = (Inr demo_snapshot, demo_after)"
proof -
  have "guard_resource demo_snapshot demo_resource 16 32 = Inr ()"
    by (simp add: guard_resource_def demo_snapshot_sel checked_add_def)
  moreover have "\<not> stale demo_snapshot demo_snapshot" by (simp add: stale_def)
  moreover have "dd_config demo_after = demo_config" "cfg_realm demo_config = ''r''" "cfg_max_age demo_config = 1000"
    "cfg_host_budget_limit_bytes demo_config = 8192"
    by (simp_all add: demo_after_def demo_config_def)
  ultimately show ?thesis by (simp add: guard_def demo_take(2) demo_snapshot_sel Let_def)
qed

definition demo_evidence :: CapabilityEvidence where
  "demo_evidence = \<lparr> ce_source = demo_resource, ce_destination_address_domain = ''o2'', ce_destination_pool_generation = 1,
     ce_realm = ''r'', ce_epoch = 3, ce_topology_generation = 1, ce_capability_generation = 1, ce_operation = CopyRange,
     ce_offset = 0, ce_bytes = 4096, ce_expires_at_unix_ns = 500, ce_provenance = ''probe'', ce_proof = [1] \<rparr>"

lemma demo_upgrade: "verify_capability_evidence (Inr 120) 5 demo_snapshot demo_evidence (\<lambda>_. True) = Inr Supported"
  by (simp add: verify_capability_evidence_def evidence_scoped_def demo_snapshot_sel demo_capabilities directed_capability_def
      demo_evidence_def demo_pools_def checked_add_def)

section \<open>Properties\<close>

text \<open>
  C13. Every snapshot discovery returns is consistent, whatever the broker and the kernel answered: its
  backings are in strict order of object, no two share a placement, each has a non-zero size and
  carries the identity of the broker the snapshot names, none is reclaimed yet active, the committed
  bytes are exactly the sum of the unreclaimed sizes without wrap-around, and what the pools are
  advised to add fits under the host limit together with what is committed.\<close>
theorem snapshot_consistent:
  assumes "discovery_snapshot obs d = (Inr s, d')" and "length (sn_backings s) < 2 ^ 64"
  shows "sorted_wrt (<) (map (\<lambda>b. ri_object_id (bk_identity b)) (sn_backings s)) \<and>
    distinct (map bk_placement_id (sn_backings s)) \<and>
    (\<forall>b \<in> set (sn_backings s). 0 < bk_size_bytes b \<and>
       ri_broker_instance (bk_identity b) = bri_broker_instance (sn_identity s) \<and>
       ri_boot_id (bk_identity b) = bri_boot_id (sn_identity s) \<and> \<not> (bk_reclaimed b \<and> bk_state b = ''active'')) \<and>
    unat (sn_committed_bytes s) =
      sum_list (map (\<lambda>b. if bk_reclaimed b then 0 else unat (bk_size_bytes b)) (sn_backings s)) \<and>
    sum_list (map (\<lambda>p. unat (pb_advisory_additional_bytes p)) (sn_pools s)) \<le>
      unat (cfg_host_budget_limit_bytes (dd_config d)) - unat (sn_committed_bytes s)"
  using snapshot_backings_ok [OF assms(1)] snapshot_advised [OF assms] by (auto simp: row_ok_def live_bytes_def)

text \<open>
  C14. The advisory budget is dealt out completely and evenly: the pools are exactly those of the
  backings, each retains the sum of its unreclaimed backings, the advised bytes add up to the whole
  budget if any backing is usable and to nothing otherwise, pools without a usable backing get
  nothing, and the shares of the others are the quotient of the budget by their number or one more.\<close>
theorem pools_share_budget:
  assumes "pools bs budget = Inr ps" and "length bs < 2 ^ 64"
  shows "set (map pool_key ps) = pool_of ` set bs \<and> distinct (map pool_key ps) \<and>
    sum_list (map (\<lambda>p. unat (pb_advisory_additional_bytes p)) ps) = (if \<exists>b \<in> set bs. usable b then unat budget else 0) \<and>
    (\<forall>p \<in> set ps. unat (pb_retained_bytes p) = retained_in (pool_key p) bs \<and>
       (if pool_active (pool_key p) bs
        then (let k = card {key. pool_active key bs}; x = unat (pb_advisory_additional_bytes p) in
              x = unat budget div k \<or> x = unat budget div k + 1)
        else pb_advisory_additional_bytes p = 0))"
proof -
  have "even_share r k x \<Longrightarrow> x = r div k \<or> x = r div k + 1" for r k x
    by (auto simp: even_share_def split: if_splits)
  then show ?thesis using pools_of_budget [OF assms] by (simp add: Let_def)
qed


text \<open>
  C15. Evidence upgrades a route only within its scope: if the check answers \<open>Supported\<close> for a snapshot of
  discovery, then the verifier accepted the evidence, it names the realm, epoch and revisions of the
  snapshot and has not expired, the snapshot is fresh, the source is a usable backing of the snapshot
  and the range lies inside it, and the destination is one of the snapshot's pools.\<close>
theorem evidence_stays_in_scope:
  assumes "discovery_snapshot obs d = (Inr s, d')" and "verify_capability_evidence now age s e verifier = Inr support"
  shows "support = Supported \<and> verifier e \<and> ce_realm e = sn_realm s \<and> ce_epoch e = sn_epoch s \<and>
    ce_topology_generation e = sn_topology_generation s \<and> ce_capability_generation e = sn_capability_generation s \<and>
    age \<le> sn_max_age s \<and> (\<exists>wall. now = Inr wall \<and> wall < ce_expires_at_unix_ns e) \<and>
    (\<exists>b \<in> set (sn_backings s). bk_identity b = ce_source e \<and> usable b \<and> ce_bytes e \<noteq> 0 \<and>
       unat (ce_offset e) + unat (ce_bytes e) \<le> unat (bk_size_bytes b)) \<and>
    (ce_destination_address_domain e, ce_destination_pool_generation e) \<in> set (map pool_key (sn_pools s))"
proof -
  obtain wall cap where scoped: "evidence_scoped s e" and wall: "now = Inr wall" "wall < ce_expires_at_unix_ns e" "age \<le> sn_max_age s"
    and cap: "List.find (\<lambda>c. dc_source c = ce_source e \<and> dc_destination_address_domain c = ce_destination_address_domain e \<and>
        dc_operation c = ce_operation e) (sn_capabilities s) = Some cap"
    and live: "list_ex (\<lambda>b. bk_identity b = ce_source e \<and> bk_owner_alive b \<and> bk_state b = ''active'' \<and> \<not> bk_reclaimed b) (sn_backings s)"
    and pool: "list_ex (\<lambda>p. pb_owner_incarnation p = ce_destination_address_domain e \<and>
        pb_pool_generation p = ce_destination_pool_generation e) (sn_pools s)"
    and rng: "ce_bytes e \<noteq> 0" "unat (ce_offset e) + unat (ce_bytes e) \<le> unat (dc_allowed_bytes cap)" "verifier e"
    and sup: "support = Supported"
    using assms(2)
    by (auto simp: verify_capability_evidence_def Let_def rbind_Inr_iff not_le not_less checked_add_Some_iff
        word_le_nat_alt split: if_splits option.splits)
  obtain b where b: "b \<in> set (sn_backings s)" "bk_identity b = ce_source e" "usable b"
    using live by (auto simp: list_ex_iff usable_def)
  obtain c where c: "c \<in> set (sn_backings s)" "bk_identity c = ce_source e" "dc_allowed_bytes cap = bk_size_bytes c"
    using find_SomeD [OF cap] unfolding discovery_snapshot_Inr(6) [OF assms(1)]
    by (auto simp: directed_capabilities_def directed_capability_def)
  have "c = b" by (rule same_identity [OF assms(1) c(1) b(1)]) (simp add: b c)
  moreover have "(ce_destination_address_domain e, ce_destination_pool_generation e) \<in> set (map pool_key (sn_pools s))"
    using pool by (force simp: list_ex_iff pool_key_def)
  ultimately show ?thesis using scoped wall b c rng sup by (auto simp: evidence_scoped_def)
qed

section \<open>Witnesses\<close>

theorem snapshot_consistent_witness:
  "discovery_snapshot demo_observation demo_discovery = (Inr demo_snapshot, demo_after) \<and>
   unat (sn_committed_bytes demo_snapshot) =
     sum_list (map (\<lambda>b. if bk_reclaimed b then 0 else unat (bk_size_bytes b)) (sn_backings demo_snapshot))"
proof -
  have "length (sn_backings demo_snapshot) < 2 ^ 64" by (simp add: demo_snapshot_sel)
  then show ?thesis using demo_take(1) snapshot_consistent [OF demo_take(1)] by blast
qed

theorem pools_share_budget_witness:
  "pools [demo_backing] 4096 = Inr demo_pools \<and>
   sum_list (map (\<lambda>p. unat (pb_advisory_additional_bytes p)) demo_pools) = 4096"
proof -
  have "usable demo_backing" by code_simp
  then show ?thesis using demo_budget(1) pools_share_budget [OF demo_budget(1)] by simp
qed


theorem evidence_stays_in_scope_witness:
  "\<exists>b \<in> set (sn_backings demo_snapshot). bk_identity b = ce_source demo_evidence \<and> usable b \<and>
     unat (ce_offset demo_evidence) + unat (ce_bytes demo_evidence) \<le> unat (bk_size_bytes b)"
  using evidence_stays_in_scope [OF demo_take(1) demo_upgrade] by blast

end
