(* ===== verification/Spec2Isabelle.thy ===== *)
theory Spec2Isabelle
  imports Bridge MockLaws Registry ObjectProps PlannerProps LaneLaws CopyLaws ExecutorLaws EventLaws DurableLaws DdrCopyLaws TopologyLaws
begin

text \<open>
  UFlow is a daemon that manages data objects in device memory (HBM), shared host memory (DDR) and SSD
  files for the processes of one machine: clients create, open and release objects over a line protocol,
  ask for a transfer plan, submit it, and poll or wait for the event it produces. A second subsystem,
  external DDR, lends memory between processes and keeps a durable journal of who may hold what. This
  development models the parts below as HOL functions, proves what each guarantees and how they compose.
  File names are relative to \<^verbatim>\<open>src/crates\<close>.

  \<^bold>\<open>Foundations.\<close> \<open>Prelude\<close>: machine integers as words with Rust's checked and saturating operations,
  results as sums, the locale \<open>keyed_store\<close> (a map interface) and its association-list instance.
  \<open>RustStd\<close>: strings as byte lists, splitting, trimming, decimal numbers, UTF-8 and the ordered map
  \<^verbatim>\<open>BTreeMap\<close>, the second instance of \<open>keyed_store\<close>.

  \<^bold>\<open>Wire and frames.\<close> \<open>Wire\<close> is \<^verbatim>\<open>uf-core/src/lib.rs\<close> and the request readers of \<^verbatim>\<open>uf-daemon/src/common.rs\<close>;
  \<open>Bridge\<close> is \<^verbatim>\<open>uf-core/src/bridge.rs\<close>, the binary frames to a simulator guest. Their lemmas are the
  round trips in both directions, the rejection of truncated and corrupted frames and the replay cache.

  \<^bold>\<open>Providers.\<close> \<open>Provider\<close> (\<^verbatim>\<open>uf-core/src/provider.rs\<close>) has the data types and the trait as the locale
  \<open>data_provider\<close>; \<open>Mock\<close> (\<^verbatim>\<open>providers/mock.rs\<close>) is the in-memory provider, \<open>MockLaws\<close> its invariant, the
  absence of panics and the interpretation of the locale; \<open>Registry\<close> (\<^verbatim>\<open>providers/registry.rs\<close>).

  \<^bold>\<open>Objects.\<close> \<open>Records\<close> and \<open>Catalog\<close> (\<^verbatim>\<open>idl.rs\<close>, \<^verbatim>\<open>catalog.rs\<close>) are the catalog under its lock, \<open>Host\<close> the
  memory and file backends, \<open>Objects\<close> (\<^verbatim>\<open>object_service.rs\<close>) every handler on it. \<open>ObjectLaws\<close> has the
  invariant (unique identifiers, typed records, leases inside live objects, one block per HBM object) and
  that every handler keeps it; \<open>ObjectProps\<close> states what clients rely on.

  \<^bold>\<open>Transfers.\<close> \<open>Planner\<close> (\<^verbatim>\<open>transfer_planner.rs\<close>, \<^verbatim>\<open>ssd_direct.rs\<close>) chooses a path; \<open>Lanes\<close>
  (\<^verbatim>\<open>transfer_channel.rs\<close>, \<^verbatim>\<open>direct_transfer.rs\<close>) lends staging lanes, \<open>LaneLaws\<close> shows through the locale of
  lane pools that no lane is lent twice and limits hold; \<open>Copies\<close> moves bytes in chunks with DMA that
  completes late, \<open>CopyLaws\<close> shows that every such copy refines a plain copy; \<open>Executor\<close>
  (\<^verbatim>\<open>transfer_executor.rs\<close>) dispatches on the path, \<open>ExecutorLaws\<close> that only the destination window
  changes; \<open>Events\<close> and \<open>EventLaws\<close> are the life of transfer events with workers in any order.

  \<^bold>\<open>Recovery.\<close> \<open>RecoveryAudit\<close> (\<^verbatim>\<open>ddr_recovery_audit.rs\<close>) replays obligation events on backings, views and
  work; \<open>AuditLaws\<close> abstracts it to the step relation \<open>obligation_step\<close> and derives the budget, that
  possible exposures are never forgotten, that nothing is published before it was copied and that clean
  checkpoints are clean. \<open>RecoveryCodec\<close> (\<^verbatim>\<open>ddr_recovery_codec.rs\<close>) is the text of an event; \<open>CodecLaws\<close>
  composes the law of the locale \<open>field_codec\<close> from single fields to whole events. \<open>Journal\<close>
  (\<^verbatim>\<open>ddr_recovery_journal.rs\<close>) is the chained journal and its head file; \<open>JournalLaws\<close> shows that it is read
  exactly as written and that an interrupted append is atomic. \<open>Durable\<close> (\<^verbatim>\<open>ddr_recovery_durable.rs\<close>) puts
  the three together; \<open>DurableLaws\<close> shows that the journal on disk replays to the state in memory, before
  and after every append, and that a broker starts only over settled generations. The locale
  \<open>replay_machine\<close> carries the inductions of both the audit and the history of a journal.

  \<^bold>\<open>External DDR data path.\<close> \<open>DdrCopy\<close> (\<^verbatim>\<open>ddr_copy.rs\<close>) is the copy engine between two memory files: access
  checks, the chunked copy under short writes, interruptions and cancellation, the neighbour proof and
  the probe. \<open>DdrCopyLaws\<close> shows that it moves exactly its window, reports exactly what it moved, returns
  unless writes are interrupted forever, and that both checks accept exactly the right contents.

  \<^bold>\<open>Topology.\<close> \<open>Json\<close> (\<^verbatim>\<open>topology/json.rs\<close>) is the strict parser of the broker's snapshot document; \<open>JsonLaws\<close>
  shows what it accepts and that it reads back every well-formed document. \<open>Topology\<close> (\<^verbatim>\<open>topology/ddr.rs\<close>)
  parses and checks the projection, reads the NUMA inventory, deals out the advisory budget and takes
  and guards snapshots; \<open>TopologyLaws\<close> shows that snapshots are consistent, budgets exact and even, and
  that neither a guard nor capability evidence survives a change of what it was issued for.

  \<^bold>\<open>State, errors, calls outside the repository.\<close> A handler that holds a lock for its duration is a function
  of the state it locks. Every early return and error is a value of a sum type, every panic that the code
  could reach is \<open>None\<close> or an error value and shown not to happen. Kernel, vendor runtime, clocks and
  thread scheduling are arguments, and the theorems quantify over them. What a crash may leave in the
  files is what the sequence of writes left when one of its calls failed; data that a disk loses after
  a successful synchronisation is outside the model.

  \<^bold>\<open>Bounds and fuel.\<close> All recursions terminate by structure or a measure (scans of a frame list by the
  bytes left, staged copies by the bytes left); the waiting of a thread for a lane ends a run with
  \<open>Blocked\<close> or \<open>None\<close>. The loops of the document parser get the bytes left as fuel, and the result does
  not depend on it (\<open>json_items_fuel\<close>, \<open>json_fields_fuel\<close>). The DDR copy loop retries interrupted writes
  without a bound, so it is a partial function into options and its return is a theorem. No other fuel
  is used. Floating-point costs are rationals that are only reported. Concrete examples are evaluated by
  the simplifier; \<open>Prelude\<close> has the code equations that keep 64-bit arithmetic cheap there.

  \<^bold>\<open>Not modelled.\<close> External DDR sessions (sockets with descriptor passing, threads), the managed authority
  and its witnesses (file locks and process identities of the kernel), trust history, policy and coverage
  (JSON and SHA-256 of third-party crates) and with them \<^verbatim>\<open>inspect_versioned\<close> of the durable audit; the cost
  and readiness gates, which are floating-point estimates and a socket protocol; the simulated objects and the
  UB simulator, which stand in for hardware; tracing, statistics and capability texts; the listener and
  the dispatch of \<^verbatim>\<open>main.rs\<close>; and everything compiled into tests only.
\<close>

end
